(* ===== verification/Guard_Events.thy ===== *)
theory Guard_Events
  imports Prelude
begin

text \<open>
  The data the guard layer exchanges, from \<open>guardian/src/verdict.rs\<close> and
  \<open>guardian/src/event.rs\<close>: verdicts and their labels, guard errors and the mapping of an error
  onto a verdict, the correlation context, the guarded actions and recorded activities with the
  labels that name them in the history file and on the wire. \<open>serde_json::Value\<close> is the datatype
  \<open>json\<close>, a number kept as its literal text.
\<close>

datatype json =
    JNull
  | JBool bool
  | JNumber string
  | JString string
  | JArray "json list"
  | JObject "(string \<times> json) list"

datatype verdict =
    Allow
  | Deny (deny_reason: string)
  | Rewrite (rewrite_payload: json) (rewrite_note: "string option")
  | Defer

definition verdict_default :: verdict where
  "verdict_default = Defer"

datatype guardian_error =
    Unavailable string
  | Timeout
  | Protocol string

datatype failure_posture = FailOpen | FailClosed

fun guardian_error_display :: "guardian_error \<Rightarrow> string" where
  "guardian_error_display (Unavailable detail) = ''monitor unavailable: '' @ detail"
| "guardian_error_display Timeout = ''monitor timed out''"
| "guardian_error_display (Protocol detail) = ''monitor protocol error: '' @ detail"

fun on_error :: "guardian_error \<Rightarrow> failure_posture \<Rightarrow> verdict" where
  "on_error err FailOpen = Defer"
| "on_error err FailClosed =
     Deny (''codex-guardian unavailable (fail-closed): '' @ guardian_error_display err)"

fun verdict_label :: "verdict \<Rightarrow> string" where
  "verdict_label Allow = ''allow''"
| "verdict_label (Deny _) = ''deny''"
| "verdict_label (Rewrite _ _) = ''rewrite''"
| "verdict_label Defer = ''defer''"

fun verdict_reason :: "verdict \<Rightarrow> string option" where
  "verdict_reason (Deny reason) = Some reason"
| "verdict_reason (Rewrite _ note) = note"
| "verdict_reason Allow = None"
| "verdict_reason Defer = None"

record activity_context =
  ctx_thread_id :: string
  ctx_session_id :: string
  ctx_turn_id :: string
  ctx_cwd :: path
  ctx_model :: string
  ctx_originator :: string
  ctx_account :: "string option"
  ctx_timestamp :: int

text \<open>The clock reading \<open>Utc::now()\<close> is the argument \<open>now\<close>.\<close>

definition activity_context_new ::
  "int \<Rightarrow> string \<Rightarrow> string \<Rightarrow> string \<Rightarrow> path \<Rightarrow> string \<Rightarrow> string \<Rightarrow> string option
     \<Rightarrow> activity_context" where
  "activity_context_new now thread_id session_id turn_id cwd model originator account =
     \<lparr>ctx_thread_id = thread_id, ctx_session_id = session_id, ctx_turn_id = turn_id,
      ctx_cwd = cwd, ctx_model = model, ctx_originator = originator, ctx_account = account,
      ctx_timestamp = now\<rparr>"

text \<open>The constructor arguments of \<open>ToolCall\<close> are the name, the matcher aliases, the call id and the
  input; of \<open>ToolOutput\<close> the name, the call id, the input and the response; of \<open>Approval\<close> the name, the
  run id and the input; of \<open>McpAdmission\<close> the server and the connector.\<close>

datatype guarded_action =
    Prompt string
  | Instructions string string
  | ToolCall string "string list" string json
  | ToolOutput string string json json
  | Approval string string json
  | McpAdmission string "string option"
  | Compaction string

fun action_kind :: "guarded_action \<Rightarrow> string" where
  "action_kind (Prompt _) = ''prompt''"
| "action_kind (Instructions _ _) = ''instructions''"
| "action_kind (ToolCall _ _ _ _) = ''tool_call''"
| "action_kind (ToolOutput _ _ _ _) = ''tool_output''"
| "action_kind (Approval _ _ _) = ''approval''"
| "action_kind (McpAdmission _ _) = ''mcp_admission''"
| "action_kind (Compaction _) = ''compaction''"

fun action_tool :: "guarded_action \<Rightarrow> string option" where
  "action_tool (ToolCall tool_name _ _ _) = Some tool_name"
| "action_tool (ToolOutput tool_name _ _ _) = Some tool_name"
| "action_tool (Approval tool_name _ _) = Some tool_name"
| "action_tool (McpAdmission server_name _) = Some server_name"
| "action_tool (Prompt _) = None"
| "action_tool (Instructions _ _) = None"
| "action_tool (Compaction _) = None"

fun action_call_id :: "guarded_action \<Rightarrow> string option" where
  "action_call_id (ToolCall _ _ call_id _) = Some call_id"
| "action_call_id (ToolOutput _ call_id _ _) = Some call_id"
| "action_call_id (Approval _ run_id _) = Some run_id"
| "action_call_id (Prompt _) = None"
| "action_call_id (Instructions _ _) = None"
| "action_call_id (McpAdmission _ _) = None"
| "action_call_id (Compaction _) = None"

datatype compaction_phase = Pre | Post

fun compaction_phase_label :: "compaction_phase \<Rightarrow> string" where
  "compaction_phase_label Pre = ''pre''"
| "compaction_phase_label Post = ''post''"

text \<open>Token counts are \<open>i64\<close> and kept as integers; \<open>in_i64\<close> states their range where it matters.
  \<open>TokenUsage\<close> has the input, cached input, output, reasoning output and total counts;
  \<open>ContextWindow\<close> the active tokens, the limit, the remaining base window and whether the limit is
  reached.\<close>

datatype activity =
    SessionStarted
  | SessionEnded
  | TurnStopped "string option"
  | PromptRecorded string
  | ToolCallCompleted string string bool json
  | ApprovalResolved string string string string
  | TokenUsage int int int int int
  | ContextWindow int "int option" "int option" bool
  | Compacted compaction_phase string
  | HookCompleted string string string "u64 option"

fun activity_kind :: "activity \<Rightarrow> string" where
  "activity_kind SessionStarted = ''session_started''"
| "activity_kind SessionEnded = ''session_ended''"
| "activity_kind (TurnStopped _) = ''turn_stopped''"
| "activity_kind (PromptRecorded _) = ''prompt_recorded''"
| "activity_kind (ToolCallCompleted _ _ _ _) = ''tool_call_completed''"
| "activity_kind (ApprovalResolved _ _ _ _) = ''approval_resolved''"
| "activity_kind (TokenUsage _ _ _ _ _) = ''token_usage''"
| "activity_kind (ContextWindow _ _ _ _) = ''context_window''"
| "activity_kind (Compacted _ _) = ''compacted''"
| "activity_kind (HookCompleted _ _ _ _) = ''hook_completed''"

fun activity_tool :: "activity \<Rightarrow> string option" where
  "activity_tool (ToolCallCompleted tool_name _ _ _) = Some tool_name"
| "activity_tool (ApprovalResolved tool_name _ _ _) = Some tool_name"
| "activity_tool (HookCompleted hook_event _ _ _) = Some hook_event"
| "activity_tool _ = None"

fun activity_call_id :: "activity \<Rightarrow> string option" where
  "activity_call_id (ToolCallCompleted _ call_id _ _) = Some call_id"
| "activity_call_id (ApprovalResolved _ call_id _ _) = Some call_id"
| "activity_call_id _ = None"

record sandbox_context =
  sc_thread_id :: string
  sc_turn_id :: string
  sc_tool_name :: string
  sc_agent_type :: "string option"

datatype sandbox_profile_override = ReadOnly | RequireSandbox

subsection \<open>Facts the components share\<close>

lemma on_error_not_admit: "on_error e p \<noteq> Allow \<and> on_error e p \<noteq> Rewrite j n"
  by (cases p) simp_all

lemma on_error_Deny_iff: "(\<exists>r. on_error e p = Deny r) \<longleftrightarrow> p = FailClosed"
  by (cases p) simp_all

lemma verdict_label_eq_iff:
  "verdict_label v = verdict_label w \<longleftrightarrow>
     (case v of
        Allow \<Rightarrow> w = Allow
      | Deny _ \<Rightarrow> (\<exists>r. w = Deny r)
      | Rewrite _ _ \<Rightarrow> (\<exists>j n. w = Rewrite j n)
      | Defer \<Rightarrow> w = Defer)"
  by (cases v; cases w) simp_all

lemma activity_kind_session_ended [simp]:
  "activity_kind a = ''session_ended'' \<longleftrightarrow> a = SessionEnded"
  by (cases a) simp_all

lemma activity_kind_turn_stopped [simp]:
  "activity_kind a = ''turn_stopped'' \<longleftrightarrow> (\<exists>m. a = TurnStopped m)"
  by (cases a) simp_all

lemma action_kind_not_tap [simp]:
  "action_kind a \<noteq> ''session_ended''" "action_kind a \<noteq> ''turn_stopped''"
  by (cases a; simp)+

lemma action_kind_disjoint_activity_kind: "action_kind a \<noteq> activity_kind b"
  by (cases a; cases b) simp_all

end
