(* ===== verification/Guard_Interface.thy ===== *)
theory Guard_Interface
  imports Guard_Events
begin

text \<open>
  The \<open>Guardian\<close> trait of \<open>guardian/src/guardian.rs\<close> as a record of its methods, over a type
  \<open>'w\<close> of the state outside the guardian that its methods read and change (channels, sockets, the
  backend), and its two implementations without state of their own: \<open>guardian/src/noop.rs\<close> and
  \<open>guardian/src/fanout.rs\<close>. The locales state what the turn engine relies on.
\<close>

record 'w guardian =
  g_review :: "activity_context \<Rightarrow> guarded_action \<Rightarrow> 'w \<Rightarrow> (guardian_error + verdict) \<times> 'w"
  g_record :: "activity_context \<Rightarrow> activity \<Rightarrow> 'w \<Rightarrow> 'w"
  g_is_enabled :: bool
  g_failure_posture :: failure_posture
  g_sandbox_override :: "sandbox_context \<Rightarrow> sandbox_profile_override option"
  g_flush :: "'w \<Rightarrow> 'w"

text \<open>The methods the trait gives a default body.\<close>

definition guardian_defaults ::
  "(activity_context \<Rightarrow> guarded_action \<Rightarrow> 'w \<Rightarrow> (guardian_error + verdict) \<times> 'w)
     \<Rightarrow> (activity_context \<Rightarrow> activity \<Rightarrow> 'w \<Rightarrow> 'w) \<Rightarrow> 'w guardian" where
  "guardian_defaults review rec =
     \<lparr>g_review = review, g_record = rec, g_is_enabled = True,
      g_failure_posture = FailClosed, g_sandbox_override = (\<lambda>_. None), g_flush = (\<lambda>w. w)\<rparr>"

definition noop_guardian :: "'w guardian" where
  "noop_guardian =
     (guardian_defaults (\<lambda>ctx action w. (Inr Defer, w)) (\<lambda>ctx activity w. w))
       \<lparr>g_is_enabled := False, g_failure_posture := FailOpen\<rparr>"

subsection \<open>Fan-out\<close>

fun fanout_review_loop ::
  "activity_context \<Rightarrow> guarded_action \<Rightarrow> verdict option \<Rightarrow> bool \<Rightarrow> 'w guardian list \<Rightarrow> 'w
     \<Rightarrow> (guardian_error + verdict) \<times> 'w" where
  "fanout_review_loop ctx action rewrite allowed [] w =
     (Inr (case (rewrite, allowed) of
             (Some r, _) \<Rightarrow> r
           | (None, True) \<Rightarrow> Allow
           | (None, False) \<Rightarrow> Defer), w)"
| "fanout_review_loop ctx action rewrite allowed (g # gs) w =
     (case g_review g ctx action w of
        (Inl err, w') \<Rightarrow> (Inl err, w')
      | (Inr v, w') \<Rightarrow>
          (case v of
             Deny _ \<Rightarrow> (Inr v, w')
           | Rewrite _ _ \<Rightarrow>
               fanout_review_loop ctx action (if rewrite = None then Some v else rewrite)
                 allowed gs w'
           | Allow \<Rightarrow> fanout_review_loop ctx action rewrite True gs w'
           | Defer \<Rightarrow> fanout_review_loop ctx action rewrite allowed gs w'))"

definition fanout_review ::
  "'w guardian list \<Rightarrow> activity_context \<Rightarrow> guarded_action \<Rightarrow> 'w
     \<Rightarrow> (guardian_error + verdict) \<times> 'w" where
  "fanout_review gs ctx action w = fanout_review_loop ctx action None False gs w"

definition fanout_record ::
  "'w guardian list \<Rightarrow> activity_context \<Rightarrow> activity \<Rightarrow> 'w \<Rightarrow> 'w" where
  "fanout_record gs ctx activity w = fold (\<lambda>g. g_record g ctx activity) gs w"

definition fanout_is_enabled :: "'w guardian list \<Rightarrow> bool" where
  "fanout_is_enabled gs \<longleftrightarrow> list_ex g_is_enabled gs"

definition fanout_failure_posture :: "'w guardian list \<Rightarrow> failure_posture" where
  "fanout_failure_posture gs =
     (if list_ex (\<lambda>g. g_failure_posture g = FailClosed) gs then FailClosed else FailOpen)"

fun fanout_sandbox_override ::
  "'w guardian list \<Rightarrow> sandbox_context \<Rightarrow> sandbox_profile_override option" where
  "fanout_sandbox_override [] sc = None"
| "fanout_sandbox_override (g # gs) sc =
     (case g_sandbox_override g sc of
        Some ov \<Rightarrow> Some ov
      | None \<Rightarrow> fanout_sandbox_override gs sc)"

definition fanout_flush :: "'w guardian list \<Rightarrow> 'w \<Rightarrow> 'w" where
  "fanout_flush gs w = fold g_flush gs w"

definition fanout_guardian :: "'w guardian list \<Rightarrow> 'w guardian" where
  "fanout_guardian gs =
     \<lparr>g_review = fanout_review gs, g_record = fanout_record gs,
      g_is_enabled = fanout_is_enabled gs, g_failure_posture = fanout_failure_posture gs,
      g_sandbox_override = fanout_sandbox_override gs, g_flush = fanout_flush gs\<rparr>"

lemmas [guard_simps] =
  guardian_defaults_def noop_guardian_def fanout_review_def fanout_record_def
  fanout_is_enabled_def fanout_failure_posture_def fanout_flush_def fanout_guardian_def

subsection \<open>The decision rule, stated over the members' answers\<close>

text \<open>\<open>member_answers\<close> asks every member in order, threading the state, and stops after the first
  decisive answer (an error or a denial); \<open>fanout_spec\<close> is the rule of the type's comment.\<close>

definition decisive :: "guardian_error + verdict \<Rightarrow> bool" where
  "decisive r \<longleftrightarrow> (case r of Inl _ \<Rightarrow> True | Inr v \<Rightarrow> (case v of Deny _ \<Rightarrow> True | _ \<Rightarrow> False))"

definition is_rewrite :: "guardian_error + verdict \<Rightarrow> bool" where
  "is_rewrite r \<longleftrightarrow>
     (case r of Inl _ \<Rightarrow> False | Inr v \<Rightarrow> (case v of Rewrite _ _ \<Rightarrow> True | _ \<Rightarrow> False))"

fun member_answers ::
  "activity_context \<Rightarrow> guarded_action \<Rightarrow> 'w guardian list \<Rightarrow> 'w
     \<Rightarrow> (guardian_error + verdict) list" where
  "member_answers ctx action [] w = []"
| "member_answers ctx action (g # gs) w =
     (let (r, w') = g_review g ctx action w
      in r # (if decisive r then [] else member_answers ctx action gs w'))"

definition fanout_spec :: "(guardian_error + verdict) list \<Rightarrow> guardian_error + verdict" where
  "fanout_spec rs =
     (case find decisive rs of
        Some r \<Rightarrow> r
      | None \<Rightarrow>
          (case find is_rewrite rs of
             Some r \<Rightarrow> r
           | None \<Rightarrow> if Inr Allow \<in> set rs then Inr Allow else Inr Defer))"

lemma fanout_review_loop_spec:
  assumes "\<And>v. rewrite = Some v \<Longrightarrow> is_rewrite (Inr v)"
  shows "fst (fanout_review_loop ctx action rewrite allowed gs w) =
    fanout_spec ((case rewrite of Some v \<Rightarrow> [Inr v] | None \<Rightarrow> [])
      @ (if allowed then [Inr Allow] else []) @ member_answers ctx action gs w)"
  using assms
proof (induction gs arbitrary: rewrite allowed w)
  case Nil
  then show ?case
    by (cases rewrite; cases allowed)
      (auto simp: fanout_spec_def decisive_def is_rewrite_def split: verdict.splits)
next
  case (Cons g gs)
  obtain r w' where step: "g_review g ctx action w = (r, w')" by fastforce
  show ?case
  proof (cases r)
    case (Inl e)
    with step Cons.prems show ?thesis
      by (cases rewrite)
        (auto simp: fanout_spec_def decisive_def is_rewrite_def split: verdict.splits)
  next
    case (Inr v)
    have dec: "\<And>x. rewrite = Some x \<Longrightarrow> \<not> decisive (Inr x)"
      using Cons.prems by (auto simp: decisive_def is_rewrite_def split: verdict.splits)
    show ?thesis
      using step Inr Cons.prems dec
        Cons.IH [of rewrite True w'] Cons.IH [of rewrite allowed w'] Cons.IH [of "Some v" allowed w']
      by (cases v; cases rewrite; cases allowed)
        (simp_all add: fanout_spec_def decisive_def is_rewrite_def cong: option.case_cong)
  qed
qed

lemma fanout_review_spec:
  "fst (fanout_review gs ctx action w) = fanout_spec (member_answers ctx action gs w)"
  using fanout_review_loop_spec [of None ctx action False gs w] by (simp add: fanout_review_def)

lemma fanout_spec_all_Defer: "\<forall>r\<in>set rs. r = Inr Defer \<Longrightarrow> fanout_spec rs = Inr Defer"
proof -
  assume all: "\<forall>r\<in>set rs. r = Inr Defer"
  then have "find decisive rs = None" "find is_rewrite rs = None"
    by (auto simp: find_None_iff decisive_def is_rewrite_def)
  with all show ?thesis by (auto simp: fanout_spec_def)
qed

lemma fanout_spec_Defer_Cons: "fanout_spec (Inr Defer # rs) = fanout_spec rs"
  by (auto simp: fanout_spec_def decisive_def is_rewrite_def split: option.split)

subsection \<open>What the turn engine relies on\<close>

locale guardian_laws =
  fixes g :: "'w guardian"
    and winv :: "'w \<Rightarrow> bool"
  assumes review_inv: "winv w \<Longrightarrow> winv (snd (g_review g ctx action w))"
    and record_inv: "winv w \<Longrightarrow> winv (g_record g ctx activity w)"
    and flush_inv: "winv w \<Longrightarrow> winv (g_flush g w)"
    and disabled_defers: "\<not> g_is_enabled g \<Longrightarrow> fst (g_review g ctx action w) = Inr Defer"

text \<open>A guardian that only watches: it never errs, never blocks, never changes an action, and
  asks its caller to carry on when it fails.\<close>

locale observe_only = guardian_laws +
  assumes observe_review: "fst (g_review g ctx action w) = Inr Defer"
    and observe_posture: "g_failure_posture g = FailOpen"
begin

lemma fanout_ignores_observer:
  "fst (fanout_review (g # gs) ctx action w)
     = fst (fanout_review gs ctx action (snd (g_review g ctx action w)))"
proof -
  obtain w' where "g_review g ctx action w = (Inr Defer, w')"
    using observe_review [of ctx action w] by (metis prod.collapse)
  then show ?thesis
    by (simp add: fanout_review_spec fanout_spec_Defer_Cons decisive_def)
qed

lemma fanout_posture_ignores_observer:
  "fanout_failure_posture (g # gs) = fanout_failure_posture gs"
  by (simp add: fanout_failure_posture_def observe_posture)

end

interpretation noop: observe_only noop_guardian "\<lambda>_. True"
  by unfold_locales (simp_all add: guard_simps)

lemma fanout_review_loop_inv:
  assumes "\<forall>g\<in>set gs. guardian_laws g winv" and "winv w"
  shows "winv (snd (fanout_review_loop ctx action rewrite allowed gs w))"
  using assms
proof (induction gs arbitrary: rewrite allowed w)
  case (Cons g gs)
  obtain r w' where step: "g_review g ctx action w = (r, w')" by fastforce
  have "winv w'"
    using guardian_laws.review_inv [of g winv w ctx action] Cons.prems step by simp
  with Cons.prems Cons.IH show ?case
    by (cases r; cases "projr r") (simp_all add: step)
qed simp

lemma fold_inv: "\<forall>x\<in>set xs. \<forall>s. P s \<longrightarrow> P (f x s) \<Longrightarrow> P s \<Longrightarrow> P (fold f xs s)"
  by (induction xs arbitrary: s) simp_all

lemma member_answers_disabled:
  assumes "\<forall>g\<in>set gs. guardian_laws g winv" and "\<not> fanout_is_enabled gs"
  shows "\<forall>r\<in>set (member_answers ctx action gs w). r = Inr Defer"
  using assms
proof (induction gs arbitrary: w)
  case (Cons g gs)
  then have "fst (g_review g ctx action w) = Inr Defer"
    using guardian_laws.disabled_defers [of g winv] by (simp add: fanout_is_enabled_def)
  with Cons show ?case
    by (cases "g_review g ctx action w") (auto simp: fanout_is_enabled_def decisive_def)
qed simp

text \<open>Composing guardians that keep the contract keeps it.\<close>

lemma fanout_guardian_laws:
  assumes "\<forall>g\<in>set gs. guardian_laws g winv"
  shows "guardian_laws (fanout_guardian gs) winv"
proof
  show "winv w \<Longrightarrow> winv (snd (g_review (fanout_guardian gs) ctx action w))" for w ctx action
    using assms by (simp add: guard_simps fanout_review_loop_inv)
  show "winv w \<Longrightarrow> winv (g_record (fanout_guardian gs) ctx activity w)" for w ctx activity
    using assms by (simp add: guard_simps fold_inv guardian_laws.record_inv)
  show "winv w \<Longrightarrow> winv (g_flush (fanout_guardian gs) w)" for w
    using assms by (simp add: guard_simps fold_inv guardian_laws.flush_inv)
  show "\<not> g_is_enabled (fanout_guardian gs) \<Longrightarrow>
      fst (g_review (fanout_guardian gs) ctx action w) = Inr Defer" for ctx action w
    using member_answers_disabled [OF assms]
    by (simp add: fanout_guardian_def fanout_review_spec fanout_spec_all_Defer)
qed

text \<open>A denial or an error of a member that is asked is never turned into an admission.\<close>

lemma fanout_spec_decisive:
  "r \<in> set rs \<Longrightarrow> decisive r \<Longrightarrow> decisive (fanout_spec rs)"
proof -
  assume "r \<in> set rs" "decisive r"
  then obtain r' where r': "find decisive rs = Some r'"
    by (metis find_None_iff not_None_eq)
  then have "decisive r'"
    by (induction rs) (auto split: if_splits)
  with r' show ?thesis by (simp add: fanout_spec_def)
qed

lemma fanout_spec_not_decisive:
  "\<forall>r\<in>set rs. \<not> decisive r \<Longrightarrow> \<not> decisive (fanout_spec rs)"
proof -
  assume all: "\<forall>r\<in>set rs. \<not> decisive r"
  then have "find decisive rs = None" by (simp add: find_None_iff)
  moreover have "find is_rewrite rs = Some r \<Longrightarrow> r \<in> set rs" for r
    by (induction rs) (auto split: if_splits)
  ultimately show ?thesis
    using all by (auto simp: fanout_spec_def decisive_def split: option.splits)
qed

subsection \<open>A session's calls\<close>

text \<open>The calls the turn engine makes on its guardian over a session, in order.\<close>

datatype guard_call =
    CallReview activity_context guarded_action
  | CallRecord activity_context activity
  | CallFlush

fun guard_step :: "'w guardian \<Rightarrow> guard_call \<Rightarrow> 'w \<Rightarrow> 'w" where
  "guard_step g (CallReview ctx action) w = snd (g_review g ctx action w)"
| "guard_step g (CallRecord ctx activity) w = g_record g ctx activity w"
| "guard_step g CallFlush w = g_flush g w"

definition guard_drive :: "'w guardian \<Rightarrow> guard_call list \<Rightarrow> 'w \<Rightarrow> 'w" where
  "guard_drive g calls w = fold (guard_step g) calls w"

context guardian_laws
begin

lemma guard_step_inv: "winv w \<Longrightarrow> winv (guard_step g c w)"
  by (cases c) (simp_all add: review_inv record_inv flush_inv)

lemma guard_drive_inv: "winv w \<Longrightarrow> winv (guard_drive g calls w)"
  by (induction calls arbitrary: w) (simp_all add: guard_drive_def guard_step_inv)

end

end
