(* ===== verification/Guard_Tap.thy ===== *)
theory Guard_Tap
  imports Guard_Interface
begin

text \<open>
  The adapter between the turn engine and the guard, from \<open>core/src/session/guardian_tap.rs\<close>: the one
  place where the fail posture is applied. The session is the record \<open>session\<close>: its guardian, the
  guardian's world, the identity stamped on each event, the clock's reading, the count of
  tool calls of the active turn (\<open>None\<close> when none is active) and \<open>ss_trace\<close>, the events of the session in the order they happen, over which the ordering properties are stated.
\<close>

datatype guardian_decision = Allowed | Denied | Rewrote

record guardian_verdict_event =
  gv_decision :: guardian_decision
  gv_action :: string
  gv_tool :: "string option"
  gv_reason :: "string option"

datatype tool_call_outcome = OutcomeCompleted bool | OutcomeFailed bool | OutcomeBlocked

text \<open>What can happen at a gate. \<open>'i\<close> is the type of invocations, \<open>'h\<close> of the items that enter the
  conversation history.\<close>

datatype ('i, 'h) gate_event =
    GuardAsked guarded_action
  | VerdictShown guardian_verdict_event
  | PreHooksRun json
  | ToolStarted 'i
  | ToolExecuted 'i
  | ToolFinished tool_call_outcome
  | ActivityRecorded activity
  | PostHooksRun json
  | PromptHooksRun 'h
  | PermissionHooksRun string
  | HistoryRecorded 'h
  | ContextsRecorded "string list"

record ('w, 'i, 'h) session =
  ss_guardian :: "'w guardian"
  ss_world :: 'w
  ss_thread_id :: string
  ss_session_id :: string
  ss_originator :: string
  ss_account :: "string option"
  ss_now :: int
  ss_trace :: "('i, 'h) gate_event list"
  ss_tool_calls :: "nat option"

record turn_context =
  tc_sub_id :: string
  tc_cwd :: path
  tc_model_slug :: string

definition emit :: "('i, 'h) gate_event \<Rightarrow> ('w, 'i, 'h) session \<Rightarrow> ('w, 'i, 'h) session" where
  "emit ev sess = sess\<lparr>ss_trace := ss_trace sess @ [ev]\<rparr>"

definition activity_context :: "('w, 'i, 'h) session \<Rightarrow> turn_context \<Rightarrow> activity_context" where
  "activity_context sess turn =
     activity_context_new (ss_now sess) (ss_thread_id sess) (ss_session_id sess) (tc_sub_id turn)
       (tc_cwd turn) (tc_model_slug turn) (ss_originator sess) (ss_account sess)"

definition session_context :: "('w, 'i, 'h) session \<Rightarrow> activity_context" where
  "session_context sess =
     activity_context_new (ss_now sess) (ss_thread_id sess) (ss_session_id sess) [] [] []
       (ss_originator sess) (ss_account sess)"

fun action_label :: "guarded_action \<Rightarrow> string" where
  "action_label (Prompt _) = ''prompt''"
| "action_label (Instructions _ _) = ''instructions''"
| "action_label (ToolCall _ _ _ _) = ''tool call''"
| "action_label (ToolOutput _ _ _ _) = ''tool output''"
| "action_label (Approval _ _ _) = ''approval''"
| "action_label (McpAdmission _ _) = ''MCP server''"
| "action_label (Compaction _) = ''compaction''"

definition verdict_event :: "guarded_action \<Rightarrow> verdict \<Rightarrow> guardian_verdict_event option" where
  "verdict_event action verdict =
     (let event = (\<lambda>decision.
        \<lparr>gv_decision = decision, gv_action = action_label action, gv_tool = action_tool action,
         gv_reason = verdict_reason verdict\<rparr>)
      in case verdict of
           Allow \<Rightarrow> Some (event Allowed)
         | Deny _ \<Rightarrow> Some (event Denied)
         | Rewrite _ _ \<Rightarrow> Some (event Rewrote)
         | Defer \<Rightarrow> None)"

text \<open>The verdict of a review once the fail posture is applied.\<close>

definition posture_verdict :: "'w guardian \<Rightarrow> guardian_error + verdict \<Rightarrow> verdict" where
  "posture_verdict g r = (case r of Inr v \<Rightarrow> v | Inl err \<Rightarrow> on_error err (g_failure_posture g))"

definition tap_review ::
  "('w, 'i, 'h) session \<Rightarrow> turn_context \<Rightarrow> guarded_action \<Rightarrow> verdict \<times> ('w, 'i, 'h) session" where
  "tap_review sess turn action =
     (let g = ss_guardian sess
      in if \<not> g_is_enabled g then (Defer, sess)
         else
           (let (r, w) = g_review g (activity_context sess turn) action (ss_world sess);
                verdict = posture_verdict g r;
                sess = emit (GuardAsked action) (sess\<lparr>ss_world := w\<rparr>)
            in (verdict,
                case verdict_event action verdict of
                  Some ev \<Rightarrow> emit (VerdictShown ev) sess
                | None \<Rightarrow> sess)))"

definition tap_record ::
  "('w, 'i, 'h) session \<Rightarrow> turn_context \<Rightarrow> activity \<Rightarrow> ('w, 'i, 'h) session" where
  "tap_record sess turn activity =
     (let g = ss_guardian sess
      in if \<not> g_is_enabled g then sess
         else emit (ActivityRecorded activity)
           (sess\<lparr>ss_world := g_record g (activity_context sess turn) activity (ss_world sess)\<rparr>))"

definition tap_review_session ::
  "('w, 'i, 'h) session \<Rightarrow> guarded_action \<Rightarrow> verdict \<times> ('w, 'i, 'h) session" where
  "tap_review_session sess action =
     (let g = ss_guardian sess
      in if \<not> g_is_enabled g then (Defer, sess)
         else
           (let (r, w) = g_review g (session_context sess) action (ss_world sess)
            in (posture_verdict g r, emit (GuardAsked action) (sess\<lparr>ss_world := w\<rparr>))))"

definition tap_record_session ::
  "('w, 'i, 'h) session \<Rightarrow> activity \<Rightarrow> ('w, 'i, 'h) session" where
  "tap_record_session sess activity =
     (let g = ss_guardian sess
      in if \<not> g_is_enabled g then sess
         else emit (ActivityRecorded activity)
           (sess\<lparr>ss_world := g_record g (session_context sess) activity (ss_world sess)\<rparr>))"

definition session_end :: "('w, 'i, 'h) session \<Rightarrow> ('w, 'i, 'h) session" where
  "session_end sess =
     (let sess = tap_record_session sess SessionEnded
      in sess\<lparr>ss_world := g_flush (ss_guardian sess) (ss_world sess)\<rparr>)"

subsection \<open>Facts the gates share\<close>

lemma emit_simps [simp]:
  "ss_guardian (emit ev s) = ss_guardian s" "ss_world (emit ev s) = ss_world s"
  "ss_trace (emit ev s) = ss_trace s @ [ev]" "activity_context (emit ev s) turn = activity_context s turn"
  "session_context (emit ev s) = session_context s"
  by (simp_all add: emit_def activity_context_def session_context_def)

text \<open>The guardian is never replaced during a session.\<close>

lemma tap_guardian [simp]:
  "ss_guardian (snd (tap_review s turn a)) = ss_guardian s"
  "ss_guardian (tap_record s turn act) = ss_guardian s"
  "ss_guardian (snd (tap_review_session s a)) = ss_guardian s"
  "ss_guardian (tap_record_session s act) = ss_guardian s"
  by (simp_all add: tap_review_def tap_record_def tap_review_session_def tap_record_session_def
      Let_def split_beta split: option.split)

lemma tap_review_verdict:
  "fst (tap_review s turn a) =
     (if g_is_enabled (ss_guardian s)
      then posture_verdict (ss_guardian s)
        (fst (g_review (ss_guardian s) (activity_context s turn) a (ss_world s)))
      else Defer)"
  by (simp add: tap_review_def Let_def split_beta)

lemma tap_review_session_verdict:
  "fst (tap_review_session s a) =
     (if g_is_enabled (ss_guardian s)
      then posture_verdict (ss_guardian s)
        (fst (g_review (ss_guardian s) (session_context s) a (ss_world s)))
      else Defer)"
  by (simp add: tap_review_session_def Let_def split_beta)

text \<open>What a review adds to the trace: nothing when the guard is off; else the question, followed by
  the notice of any verdict but \<open>Defer\<close>.\<close>

definition review_events :: "('w, 'i, 'h) session \<Rightarrow> guarded_action \<Rightarrow> verdict \<Rightarrow> ('i, 'h) gate_event list"
where
  "review_events s a v =
     (if g_is_enabled (ss_guardian s)
      then GuardAsked a # (case verdict_event a v of Some ev \<Rightarrow> [VerdictShown ev] | None \<Rightarrow> [])
      else [])"

lemma tap_review_trace:
  "ss_trace (snd (tap_review s turn a)) = ss_trace s @ review_events s a (fst (tap_review s turn a))"
  by (simp add: tap_review_def review_events_def Let_def split_beta split: option.split)

lemma tap_record_trace:
  "ss_trace (tap_record s turn act) =
     ss_trace s @ (if g_is_enabled (ss_guardian s) then [ActivityRecorded act] else [])"
  by (simp add: tap_record_def Let_def)

lemma posture_verdict_Deny_error:
  "g_failure_posture g = FailClosed \<Longrightarrow> \<exists>reason. posture_verdict g (Inl e) = Deny reason"
  by (simp add: posture_verdict_def)

context guardian_laws
begin

lemma tap_review_winv:
  "ss_guardian s = g \<Longrightarrow> winv (ss_world s) \<Longrightarrow> winv (ss_world (snd (tap_review s turn a)))"
  by (simp add: tap_review_def Let_def split_beta review_inv split: option.split)

lemma tap_record_winv:
  "ss_guardian s = g \<Longrightarrow> winv (ss_world s) \<Longrightarrow> winv (ss_world (tap_record s turn act))"
  by (simp add: tap_record_def Let_def record_inv)

lemma session_end_winv:
  "ss_guardian s = g \<Longrightarrow> winv (ss_world s) \<Longrightarrow> winv (ss_world (session_end s))"
  by (simp add: session_end_def tap_record_session_def Let_def record_inv flush_inv)

end

end
