(* ===== verification/Tool_Gate.thy ===== *)
theory Tool_Gate
  imports Guard_Tap "HOL-Library.Sublist"
begin

text \<open>
  Tool dispatch and its two guard gates, from \<open>core/src/tools/registry.rs\<close>
  (\<open>dispatch_any_with_terminal_outcome\<close> and its helpers) and the hook runners of
  \<open>core/src/hook_runtime.rs\<close> that it calls. A tool is the record of the trait methods dispatch uses,
  the configured hooks are a record of the outcome each hook event gives; both are arbitrary.
  \<open>claimed\<close> is the flag \<open>terminal_outcome_reached\<close>. Telemetry, tracing and analytics are left out: they
  are written and never read.
\<close>

datatype function_call_error = RespondToModel string | Fatal string

record invocation =
  inv_tool_name :: string
  inv_call_id :: string
  inv_is_custom :: bool
  inv_payload :: json

record hook_tool_name =
  hn_name :: string
  hn_aliases :: "string list"

text \<open>A tool's output as dispatch sees it: the text of the response item, the value code mode reads
  and whether it counts as a success.\<close>

record tool_output =
  out_model_text :: string
  out_code_mode :: json
  out_success :: bool

record post_tool_use_payload =
  pp_tool_name :: hook_tool_name
  pp_tool_use_id :: string
  pp_tool_input :: json
  pp_tool_response :: json

record any_tool_result =
  ar_call_id :: string
  ar_result :: tool_output
  ar_post_tool_use_payload :: "post_tool_use_payload option"

record tool_runtime =
  tr_matches_kind :: "invocation \<Rightarrow> bool"
  tr_pre_tool_use_payload :: "invocation \<Rightarrow> (hook_tool_name \<times> json) option"
  tr_with_updated_hook_input :: "invocation \<Rightarrow> json \<Rightarrow> function_call_error + invocation"
  tr_handle :: "invocation \<Rightarrow> function_call_error + tool_output"
  tr_post_tool_use_payload :: "invocation \<Rightarrow> tool_output \<Rightarrow> post_tool_use_payload option"

record pre_tool_use_outcome =
  po_hook_events :: "activity list"
  po_should_block :: bool
  po_block_reason :: "string option"
  po_additional_contexts :: "string list"
  po_updated_input :: "json option"

record post_tool_use_outcome =
  qo_hook_events :: "activity list"
  qo_should_block :: bool
  qo_feedback_message :: "string option"
  qo_additional_contexts :: "string list"

record tool_hooks =
  th_pre_tool_use :: "string \<Rightarrow> hook_tool_name \<Rightarrow> json \<Rightarrow> pre_tool_use_outcome"
  th_post_tool_use :: "post_tool_use_payload \<Rightarrow> post_tool_use_outcome"

datatype pre_tool_use_hook_result = Continue "json option" | Blocked string

datatype guard_output_decision = Keep | Replace string | Reject string

type_synonym ('w, 'h) tool_session = "('w, invocation, 'h) session"

subsection \<open>Hooks\<close>

definition record_additional_contexts ::
  "string list \<Rightarrow> ('w, 'i, 'h) session \<Rightarrow> ('w, 'i, 'h) session" where
  "record_additional_contexts ctxs sess = (if ctxs = [] then sess else emit (ContextsRecorded ctxs) sess)"

definition emit_hook_completed ::
  "turn_context \<Rightarrow> activity list \<Rightarrow> ('w, 'i, 'h) session \<Rightarrow> ('w, 'i, 'h) session" where
  "emit_hook_completed turn events sess = fold (\<lambda>act s. tap_record s turn act) events sess"

definition json_command :: "json \<Rightarrow> string option" where
  "json_command j =
     (case j of
        JObject kvs \<Rightarrow>
          (case map_of kvs ''command'' of Some (JString c) \<Rightarrow> Some c | _ \<Rightarrow> None)
      | _ \<Rightarrow> None)"

definition run_pre_tool_use_hooks ::
  "tool_hooks \<Rightarrow> turn_context \<Rightarrow> string \<Rightarrow> hook_tool_name \<Rightarrow> json \<Rightarrow> ('w, 'h) tool_session
     \<Rightarrow> pre_tool_use_hook_result \<times> ('w, 'h) tool_session" where
  "run_pre_tool_use_hooks hooks turn call_id name tool_input sess =
     (let oc = th_pre_tool_use hooks call_id name tool_input;
          sess = emit_hook_completed turn (po_hook_events oc) (emit (PreHooksRun tool_input) sess);
          sess = record_additional_contexts (po_additional_contexts oc) sess
      in (if \<not> po_should_block oc then Continue (po_updated_input oc)
          else (case po_block_reason oc of
                  None \<Rightarrow> Continue None
                | Some reason \<Rightarrow>
                    (case (if hn_name name = ''Bash'' \<or> hn_name name = ''apply_patch''
                           then json_command tool_input else None) of
                       Some command \<Rightarrow>
                         Blocked (''Command blocked by PreToolUse hook: '' @ reason
                           @ ''. Command: '' @ command)
                     | None \<Rightarrow>
                         Blocked (''Tool call blocked by PreToolUse hook: '' @ reason
                           @ ''. Tool: '' @ hn_name name))), sess))"

definition run_post_tool_use_hooks ::
  "tool_hooks \<Rightarrow> turn_context \<Rightarrow> post_tool_use_payload \<Rightarrow> ('w, 'h) tool_session
     \<Rightarrow> post_tool_use_outcome \<times> ('w, 'h) tool_session" where
  "run_post_tool_use_hooks hooks turn payload sess =
     (let oc = th_post_tool_use hooks payload
      in (oc, emit_hook_completed turn (qo_hook_events oc)
                (emit (PostHooksRun (pp_tool_response payload)) sess)))"

subsection \<open>Decisions\<close>

text \<open>The text of a rewrite: a JSON string's own text, any other value as \<open>render\<close> prints it.\<close>

definition payload_text :: "(json \<Rightarrow> string) \<Rightarrow> json \<Rightarrow> string" where
  "payload_text render payload = (case payload of JString s \<Rightarrow> s | other \<Rightarrow> render other)"

definition guard_output_decision :: "(json \<Rightarrow> string) \<Rightarrow> verdict \<Rightarrow> guard_output_decision" where
  "guard_output_decision render verdict =
     (case verdict of
        Rewrite payload _ \<Rightarrow> Replace (payload_text render payload)
      | Deny reason \<Rightarrow> Reject (''Tool result blocked by the guardian: '' @ reason)
      | Allow \<Rightarrow> Keep
      | Defer \<Rightarrow> Keep)"

definition guard_pre_dispatch_decision ::
  "verdict \<Rightarrow> hook_tool_name \<Rightarrow> pre_tool_use_hook_result option" where
  "guard_pre_dispatch_decision verdict name =
     (case verdict of
        Deny reason \<Rightarrow>
          Some (Blocked (''Tool call blocked by the guardian: '' @ reason @ ''. Tool: '' @ hn_name name))
      | Rewrite payload _ \<Rightarrow> Some (Continue (Some payload))
      | Allow \<Rightarrow> None
      | Defer \<Rightarrow> None)"

definition notify_tool_finish_if_unclaimed ::
  "tool_call_outcome \<Rightarrow> bool option \<times> ('w, 'h) tool_session \<Rightarrow> bool option \<times> ('w, 'h) tool_session" where
  "notify_tool_finish_if_unclaimed outcome cs =
     (case fst cs of
        Some True \<Rightarrow> cs
      | Some False \<Rightarrow> (Some True, emit (ToolFinished outcome) (snd cs))
      | None \<Rightarrow> (None, emit (ToolFinished outcome) (snd cs)))"

definition apply_pre_dispatch_decision ::
  "tool_runtime \<Rightarrow> invocation \<Rightarrow> pre_tool_use_hook_result \<Rightarrow> bool option \<times> ('w, 'h) tool_session
     \<Rightarrow> (function_call_error + invocation) \<times> bool option \<times> ('w, 'h) tool_session" where
  "apply_pre_dispatch_decision tool invoc decision cs =
     (case decision of
        Blocked message \<Rightarrow>
          (Inl (RespondToModel message), notify_tool_finish_if_unclaimed OutcomeBlocked cs)
      | Continue (Some updated_input) \<Rightarrow>
          (case tr_with_updated_hook_input tool invoc updated_input of
             Inr invoc' \<Rightarrow> (Inr invoc', cs)
           | Inl err \<Rightarrow> (Inl err, notify_tool_finish_if_unclaimed (OutcomeFailed False) cs))
      | Continue None \<Rightarrow> (Inr invoc, cs))"

definition feedback_output :: "tool_output \<Rightarrow> string \<Rightarrow> tool_output" where
  "feedback_output original s = original\<lparr>out_model_text := s\<rparr>"

definition handle_any_tool ::
  "tool_runtime \<Rightarrow> invocation \<Rightarrow> function_call_error + any_tool_result" where
  "handle_any_tool tool invoc =
     result_bind (tr_handle tool invoc) (\<lambda>output.
       Inr \<lparr>ar_call_id = inv_call_id invoc, ar_result = output,
            ar_post_tool_use_payload = tr_post_tool_use_payload tool invoc output\<rparr>)"

subsection \<open>Dispatch\<close>

definition guard_stage ::
  "tool_runtime \<Rightarrow> turn_context \<Rightarrow> invocation \<Rightarrow> bool option \<times> ('w, 'h) tool_session
     \<Rightarrow> (function_call_error + invocation) \<times> bool option \<times> ('w, 'h) tool_session" where
  "guard_stage tool turn invoc cs =
     (case tr_pre_tool_use_payload tool invoc of
        None \<Rightarrow> (Inr invoc, cs)
      | Some (name, tool_input) \<Rightarrow>
          (let (verdict, sess) = tap_review (snd cs) turn
                 (ToolCall (hn_name name) (hn_aliases name) (inv_call_id invoc) tool_input)
           in case guard_pre_dispatch_decision verdict name of
                None \<Rightarrow> (Inr invoc, fst cs, sess)
              | Some decision \<Rightarrow> apply_pre_dispatch_decision tool invoc decision (fst cs, sess)))"

definition hook_stage ::
  "tool_hooks \<Rightarrow> tool_runtime \<Rightarrow> turn_context \<Rightarrow> invocation \<Rightarrow> bool option \<times> ('w, 'h) tool_session
     \<Rightarrow> (function_call_error + invocation) \<times> bool option \<times> ('w, 'h) tool_session" where
  "hook_stage hooks tool turn invoc cs =
     (case tr_pre_tool_use_payload tool invoc of
        None \<Rightarrow> (Inr invoc, cs)
      | Some (name, tool_input) \<Rightarrow>
          (let (decision, sess) =
             run_pre_tool_use_hooks hooks turn (inv_call_id invoc) name tool_input (snd cs)
           in apply_pre_dispatch_decision tool invoc decision (fst cs, sess)))"

text \<open>The result once the guard's and the hooks' answers about the output are in.\<close>

definition final_result ::
  "guard_output_decision \<Rightarrow> post_tool_use_outcome option \<Rightarrow> function_call_error + any_tool_result
     \<Rightarrow> function_call_error + any_tool_result" where
  "final_result gd post result =
     (case result of
        Inl err \<Rightarrow> Inl err
      | Inr r \<Rightarrow>
          (case gd of
             Reject reason \<Rightarrow> Inl (RespondToModel reason)
           | _ \<Rightarrow>
               (let r = (case gd of
                           Replace s \<Rightarrow> r\<lparr>ar_result := feedback_output (ar_result r) s\<rparr>
                         | _ \<Rightarrow> r)
                in case post of
                     None \<Rightarrow> Inr r
                   | Some oc \<Rightarrow>
                       if qo_should_block oc
                       then Inl (RespondToModel (case qo_feedback_message oc of
                                   Some m \<Rightarrow> m
                                 | None \<Rightarrow> ''PostToolUse hook blocked the tool result''))
                       else (case qo_feedback_message oc of
                               Some m \<Rightarrow> Inr (r\<lparr>ar_result := feedback_output (ar_result r) m\<rparr>)
                             | None \<Rightarrow> Inr r))))"

definition output_stage ::
  "(json \<Rightarrow> string) \<Rightarrow> turn_context \<Rightarrow> string \<Rightarrow> post_tool_use_payload option \<Rightarrow> ('w, 'h) tool_session
     \<Rightarrow> guard_output_decision \<times> ('w, 'h) tool_session" where
  "output_stage render turn call_id payload sess =
     (case payload of
        None \<Rightarrow> (Keep, sess)
      | Some p \<Rightarrow>
          (let (verdict, sess) = tap_review sess turn
                 (ToolOutput (hn_name (pp_tool_name p)) call_id (pp_tool_input p) (pp_tool_response p))
           in (guard_output_decision render verdict, sess)))"

definition execute_stage ::
  "(json \<Rightarrow> string) \<Rightarrow> tool_hooks \<Rightarrow> tool_runtime \<Rightarrow> turn_context \<Rightarrow> string \<Rightarrow> string \<Rightarrow> invocation
     \<Rightarrow> bool option \<times> ('w, 'h) tool_session
     \<Rightarrow> (function_call_error + any_tool_result) \<times> bool option \<times> ('w, 'h) tool_session" where
  "execute_stage render hooks tool turn tool_name call_id invoc cs =
     (let sess = emit (ToolExecuted invoc) (emit (ToolStarted invoc) (snd cs));
          result = handle_any_tool tool invoc;
          success = (case result of Inr r \<Rightarrow> out_success (ar_result r) | Inl _ \<Rightarrow> False);
          payload = (case result of
                       Inr r \<Rightarrow> if success then ar_post_tool_use_payload r else None
                     | Inl _ \<Rightarrow> None);
          (gd, sess) = output_stage render turn call_id payload sess;
          sess = tap_record sess turn
            (ToolCallCompleted tool_name call_id success
              (case payload of Some p \<Rightarrow> pp_tool_response p | None \<Rightarrow> JNull));
          (post, sess) =
            (case payload of
               Some p \<Rightarrow>
                 (let (oc, sess) = run_post_tool_use_hooks hooks turn p sess
                  in (Some oc, record_additional_contexts (qo_additional_contexts oc) sess))
             | None \<Rightarrow> (None, sess));
          outcome = (case result of Inr _ \<Rightarrow> OutcomeCompleted success | Inl _ \<Rightarrow> OutcomeFailed True);
          cs = notify_tool_finish_if_unclaimed outcome (fst cs, sess)
      in (final_result gd post result, cs))"

definition unsupported_tool_call_message :: "invocation \<Rightarrow> string" where
  "unsupported_tool_call_message invoc =
     (if inv_is_custom invoc then ''unsupported custom tool call: '' else ''unsupported call: '')
       @ inv_tool_name invoc"

text \<open>The active turn's count of tool calls, a saturating \<open>u64\<close>.\<close>

definition count_tool_call :: "('w, 'i, 'h) session \<Rightarrow> ('w, 'i, 'h) session" where
  "count_tool_call sess =
     sess\<lparr>ss_tool_calls := map_option (\<lambda>n. min (n + 1) (2 ^ 64 - 1)) (ss_tool_calls sess)\<rparr>"

definition dispatch_any ::
  "(json \<Rightarrow> string) \<Rightarrow> tool_hooks \<Rightarrow> (string \<Rightarrow> tool_runtime option) \<Rightarrow> turn_context \<Rightarrow> invocation
     \<Rightarrow> bool option \<times> ('w, 'h) tool_session
     \<Rightarrow> (function_call_error + any_tool_result) \<times> bool option \<times> ('w, 'h) tool_session" where
  "dispatch_any render hooks registry turn invoc cs0 =
     (let cs = (fst cs0, count_tool_call (snd cs0))
      in case registry (inv_tool_name invoc) of
        None \<Rightarrow> (Inl (RespondToModel (unsupported_tool_call_message invoc)), cs)
      | Some tool \<Rightarrow>
          if \<not> tr_matches_kind tool invoc
          then (Inl (Fatal (''tool '' @ inv_tool_name invoc @ '' invoked with incompatible payload'')), cs)
          else
            (case guard_stage tool turn invoc cs of
               (Inl err, cs) \<Rightarrow> (Inl err, cs)
             | (Inr inv1, cs) \<Rightarrow>
                 (case hook_stage hooks tool turn inv1 cs of
                    (Inl err, cs) \<Rightarrow> (Inl err, cs)
                  | (Inr inv2, cs) \<Rightarrow>
                      execute_stage render hooks tool turn (inv_tool_name invoc) (inv_call_id invoc) inv2 cs)))"

lemmas [gate_simps] =
  guard_output_decision_def guard_pre_dispatch_decision_def notify_tool_finish_if_unclaimed_def
  apply_pre_dispatch_decision_def

subsection \<open>The trace only grows\<close>

text \<open>\<open>extends s t\<close>: \<open>t\<close> has the trace of \<open>s\<close> and possibly more, and the same guardian.\<close>

definition extends :: "('w, 'i, 'h) session \<Rightarrow> ('w, 'i, 'h) session \<Rightarrow> bool" where
  "extends s t \<longleftrightarrow> prefix (ss_trace s) (ss_trace t) \<and> ss_guardian t = ss_guardian s"

lemma extends_refl [simp, intro]: "extends s s"
  by (simp add: extends_def)

lemma extends_trans: "extends s t \<Longrightarrow> extends t u \<Longrightarrow> extends s u"
  by (auto simp: extends_def)

lemma extends_emit [simp, intro]: "extends s (emit ev s)"
  by (simp add: extends_def)

lemma extends_tap_review [simp, intro]: "extends s (snd (tap_review s turn a))"
  by (simp add: extends_def tap_review_trace)

lemma extends_tap_record [simp, intro]: "extends s (tap_record s turn act)"
  by (simp add: extends_def tap_record_trace)

lemma extends_contexts [simp, intro]: "extends s (record_additional_contexts ctxs s)"
  by (simp add: record_additional_contexts_def)

lemma extends_emit_hook_completed [simp, intro]: "extends s (emit_hook_completed turn evs s)"
  unfolding emit_hook_completed_def
  by (induction evs arbitrary: s) (auto intro: extends_trans [OF extends_tap_record])

lemma extends_notify [simp, intro]:
  "extends (snd cs) (snd (notify_tool_finish_if_unclaimed oc cs))"
  by (simp add: notify_tool_finish_if_unclaimed_def split: option.split bool.split)

lemma extends_apply [simp, intro]:
  "extends (snd cs) (snd (snd (apply_pre_dispatch_decision tool i d cs)))"
  by (simp add: apply_pre_dispatch_decision_def split: pre_tool_use_hook_result.split option.split
      sum.split)

lemma extends_run_pre_hooks [simp, intro]:
  "extends s (snd (run_pre_tool_use_hooks hooks turn c n j s))"
  by (auto simp: run_pre_tool_use_hooks_def Let_def
      intro: extends_trans [OF extends_trans [OF extends_emit extends_emit_hook_completed]])

lemma extends_run_post_hooks [simp, intro]:
  "extends s (snd (run_post_tool_use_hooks hooks turn p s))"
  by (auto simp: run_post_tool_use_hooks_def Let_def
      intro: extends_trans [OF extends_emit extends_emit_hook_completed])

lemma extends_hook_stage [simp, intro]:
  "extends (snd cs) (snd (snd (hook_stage hooks tool turn i cs)))"
proof (cases "tr_pre_tool_use_payload tool i")
  case (Some p)
  let ?r = "run_pre_tool_use_hooks hooks turn (inv_call_id i) (fst p) (snd p) (snd cs)"
  have "extends (snd cs) (snd (snd (apply_pre_dispatch_decision tool i (fst ?r) (fst cs, snd ?r))))"
    using extends_trans [OF extends_run_pre_hooks extends_apply [of "(fst cs, snd ?r)", simplified]] .
  with Some show ?thesis by (simp add: hook_stage_def split_beta)
qed (simp add: hook_stage_def)

lemma extends_output_stage [simp, intro]:
  "extends s (snd (output_stage render turn c p s))"
  by (simp add: output_stage_def split_beta split: option.split)

text \<open>What \<open>execute_stage\<close> does after the tool has run.\<close>

definition after_execution ::
  "(json \<Rightarrow> string) \<Rightarrow> tool_hooks \<Rightarrow> turn_context \<Rightarrow> string \<Rightarrow> string \<Rightarrow> function_call_error + any_tool_result
     \<Rightarrow> bool option \<times> ('w, 'h) tool_session
     \<Rightarrow> (function_call_error + any_tool_result) \<times> bool option \<times> ('w, 'h) tool_session" where
  "after_execution render hooks turn tool_name call_id result cs =
     (let sess = snd cs;
          success = (case result of Inr r \<Rightarrow> out_success (ar_result r) | Inl _ \<Rightarrow> False);
          payload = (case result of
                       Inr r \<Rightarrow> if success then ar_post_tool_use_payload r else None
                     | Inl _ \<Rightarrow> None);
          (gd, sess) = output_stage render turn call_id payload sess;
          sess = tap_record sess turn
            (ToolCallCompleted tool_name call_id success
              (case payload of Some p \<Rightarrow> pp_tool_response p | None \<Rightarrow> JNull));
          (post, sess) =
            (case payload of
               Some p \<Rightarrow>
                 (let (oc, sess) = run_post_tool_use_hooks hooks turn p sess
                  in (Some oc, record_additional_contexts (qo_additional_contexts oc) sess))
             | None \<Rightarrow> (None, sess));
          outcome = (case result of Inr _ \<Rightarrow> OutcomeCompleted success | Inl _ \<Rightarrow> OutcomeFailed True)
      in (final_result gd post result, notify_tool_finish_if_unclaimed outcome (fst cs, sess)))"

lemma execute_stage_eq:
  "execute_stage render hooks tool turn tool_name call_id i cs =
     after_execution render hooks turn tool_name call_id (handle_any_tool tool i)
       (fst cs, emit (ToolExecuted i) (emit (ToolStarted i) (snd cs)))"
  by (simp add: execute_stage_def after_execution_def Let_def split_beta)

lemma extends_after_execution [simp, intro]:
  "extends (snd cs) (snd (snd (after_execution render hooks turn tool_name call_id result cs)))"
proof -
  let ?payload = "case result of
      Inr r \<Rightarrow> if out_success (ar_result r) then ar_post_tool_use_payload r else None | Inl _ \<Rightarrow> None"
  have s2: "extends (snd cs) (tap_record (snd (output_stage render turn call_id pl (snd cs))) turn act)"
    for act pl
    by (rule extends_trans [OF extends_output_stage extends_tap_record])
  have s3: "extends (snd cs) (record_additional_contexts ctxs
      (snd (run_post_tool_use_hooks hooks turn p
        (tap_record (snd (output_stage render turn call_id pl (snd cs))) turn act))))" for act p ctxs pl
    by (rule extends_trans [OF extends_trans [OF s2 extends_run_post_hooks] extends_contexts])
  have fin: "extends (snd cs) s \<Longrightarrow>
      extends (snd cs) (snd (notify_tool_finish_if_unclaimed oc (fst cs, s)))" for s oc
    using extends_notify [of "(fst cs, s)" oc] by (auto intro: extends_trans)
  show ?thesis
    unfolding after_execution_def Let_def
    by (cases result; cases ?payload) (auto simp: split_beta intro!: fin s2 s3)
qed

lemma extends_execute_stage [simp, intro]:
  "extends (emit (ToolExecuted i) (emit (ToolStarted i) (snd cs)))
     (snd (snd (execute_stage render hooks tool turn tool_name call_id i cs)))"
  unfolding execute_stage_eq
  using extends_after_execution
    [of "(fst cs, emit (ToolExecuted i) (emit (ToolStarted i) (snd cs)))"] by simp

subsection \<open>The stages, by verdict\<close>

abbreviation call_action :: "hook_tool_name \<Rightarrow> invocation \<Rightarrow> json \<Rightarrow> guarded_action" where
  "call_action name i tool_input \<equiv> ToolCall (hn_name name) (hn_aliases name) (inv_call_id i) tool_input"

lemma guard_stage_deny:
  assumes "tr_pre_tool_use_payload tool i = Some (name, tool_input)"
    and "fst (tap_review (snd cs) turn (call_action name i tool_input)) = Deny reason"
  shows "guard_stage tool turn i cs =
    (Inl (RespondToModel
       (''Tool call blocked by the guardian: '' @ reason @ ''. Tool: '' @ hn_name name)),
     notify_tool_finish_if_unclaimed OutcomeBlocked
       (fst cs, snd (tap_review (snd cs) turn (call_action name i tool_input))))"
  using assms
  by (simp add: guard_stage_def split_beta guard_pre_dispatch_decision_def
      apply_pre_dispatch_decision_def)

lemma guard_stage_admit:
  assumes "tr_pre_tool_use_payload tool i = Some (name, tool_input)"
    and "fst (tap_review (snd cs) turn (call_action name i tool_input)) \<in> {Allow, Defer}"
  shows "guard_stage tool turn i cs =
    (Inr i, fst cs, snd (tap_review (snd cs) turn (call_action name i tool_input)))"
  using assms by (auto simp: guard_stage_def split_beta guard_pre_dispatch_decision_def)

lemma guard_stage_rewrite:
  assumes "tr_pre_tool_use_payload tool i = Some (name, tool_input)"
    and "fst (tap_review (snd cs) turn (call_action name i tool_input)) = Rewrite payload n"
  shows "guard_stage tool turn i cs =
    apply_pre_dispatch_decision tool i (Continue (Some payload))
      (fst cs, snd (tap_review (snd cs) turn (call_action name i tool_input)))"
  using assms by (simp add: guard_stage_def split_beta guard_pre_dispatch_decision_def)

lemma guard_stage_extends_review:
  assumes "tr_pre_tool_use_payload tool i = Some (name, tool_input)"
  shows "extends (snd (tap_review (snd cs) turn (call_action name i tool_input)))
    (snd (snd (guard_stage tool turn i cs)))"
proof -
  let ?t = "tap_review (snd cs) turn (call_action name i tool_input)"
  show ?thesis
    using assms extends_apply [of "(fst cs, snd ?t)"]
    by (auto simp: guard_stage_def split_beta split: option.split)
qed

lemma guard_stage_asks:
  assumes "tr_pre_tool_use_payload tool i = Some (name, tool_input)"
    and "g_is_enabled (ss_guardian (snd cs))"
  shows "prefix (ss_trace (snd cs) @ [GuardAsked (call_action name i tool_input)])
    (ss_trace (snd (snd (guard_stage tool turn i cs))))"
proof -
  let ?t = "tap_review (snd cs) turn (call_action name i tool_input)"
  have "prefix (ss_trace (snd cs) @ [GuardAsked (call_action name i tool_input)]) (ss_trace (snd ?t))"
    using assms(2) by (simp add: tap_review_trace review_events_def)
  then show ?thesis
    using guard_stage_extends_review [OF assms(1), of cs turn]
    by (meson extends_def prefix_order.trans)
qed

lemma dispatch_extends_guard_stage:
  assumes "registry (inv_tool_name i) = Some tool" and "tr_matches_kind tool i"
  shows "extends (snd (snd (guard_stage tool turn i (fst cs, count_tool_call (snd cs)))))
    (snd (snd (dispatch_any render hooks registry turn i cs)))"
proof -
  let ?g = "guard_stage tool turn i (fst cs, count_tool_call (snd cs))"
  let ?h = "\<lambda>j. hook_stage hooks tool turn j (snd ?g)"
  have "extends (snd (snd ?g)) (snd (snd (execute_stage render hooks tool turn n c k (snd (?h j)))))"
    for n c j k
    by (meson extends_trans extends_hook_stage extends_emit extends_execute_stage)
  then show ?thesis
    using assms by (auto simp: dispatch_any_def Let_def split_beta split: sum.split)
qed

lemma count_tool_call_simps [simp]:
  "ss_trace (count_tool_call s) = ss_trace s" "ss_guardian (count_tool_call s) = ss_guardian s"
  "ss_world (count_tool_call s) = ss_world s"
  "activity_context (count_tool_call s) turn = activity_context s turn"
  by (simp_all add: count_tool_call_def activity_context_def)

lemma count_tool_call_review [simp]:
  "fst (tap_review (count_tool_call s) turn a) = fst (tap_review s turn a)"
  by (simp add: tap_review_verdict)

lemma dispatch_guard_error:
  assumes "registry (inv_tool_name i) = Some tool" and "tr_matches_kind tool i"
    and "guard_stage tool turn i (fst cs, count_tool_call (snd cs)) = (Inl err, cs')"
  shows "dispatch_any render hooks registry turn i cs = (Inl err, cs')"
  using assms by (simp add: dispatch_any_def)

lemma dispatch_admitted:
  assumes "registry (inv_tool_name i) = Some tool" and "tr_matches_kind tool i"
    and "guard_stage tool turn i (fst cs, count_tool_call (snd cs)) = (Inr j, cs1)"
    and "hook_stage hooks tool turn j cs1 = (Inr k, cs2)"
  shows "dispatch_any render hooks registry turn i cs =
    execute_stage render hooks tool turn (inv_tool_name i) (inv_call_id i) k cs2"
  using assms by (simp add: dispatch_any_def)

lemma execute_stage_executes:
  "ToolExecuted i \<in> set (ss_trace (snd (snd (execute_stage render hooks tool turn n c i cs))))"
  using extends_execute_stage [of i cs render hooks tool turn n c]
  by (force simp: extends_def prefix_def)

text \<open>The model-visible outcome of a result the guard reviewed.\<close>

lemma after_execution_reviewed:
  assumes "out_success (ar_result r)" and "ar_post_tool_use_payload r = Some p"
  shows "fst (after_execution render hooks turn n c (Inr r) cs) =
    final_result
      (guard_output_decision render (fst (tap_review (snd cs) turn
        (ToolOutput (hn_name (pp_tool_name p)) c (pp_tool_input p) (pp_tool_response p)))))
      (Some (th_post_tool_use hooks p)) (Inr r)"
  using assms
  by (simp add: after_execution_def Let_def split_beta output_stage_def run_post_tool_use_hooks_def)

lemma after_execution_unreviewed:
  assumes "\<not> out_success (ar_result r) \<or> ar_post_tool_use_payload r = None"
  shows "fst (after_execution render hooks turn n c (Inr r) cs) = Inr r"
    and "ss_trace (snd (snd (after_execution render hooks turn n c (Inr r) cs))) =
      ss_trace (snd cs)
      @ (if g_is_enabled (ss_guardian (snd cs))
         then [ActivityRecorded (ToolCallCompleted n c (out_success (ar_result r)) JNull)] else [])
      @ (if fst cs = Some True then [] else [ToolFinished (OutcomeCompleted (out_success (ar_result r)))])"
proof -
  have p: "(if out_success (ar_result r) then ar_post_tool_use_payload r else None) = None"
    using assms by auto
  show "fst (after_execution render hooks turn n c (Inr r) cs) = Inr r"
    by (simp add: after_execution_def Let_def p output_stage_def final_result_def)
  show "ss_trace (snd (snd (after_execution render hooks turn n c (Inr r) cs))) =
      ss_trace (snd cs)
      @ (if g_is_enabled (ss_guardian (snd cs))
         then [ActivityRecorded (ToolCallCompleted n c (out_success (ar_result r)) JNull)] else [])
      @ (if fst cs = Some True then [] else [ToolFinished (OutcomeCompleted (out_success (ar_result r)))])"
    by (auto simp: after_execution_def Let_def p output_stage_def tap_record_trace
        notify_tool_finish_if_unclaimed_def split: option.split bool.split)
qed

end
