(* ===== verification/Approval_Gate.thy ===== *)
theory Approval_Gate
  imports Tool_Gate
begin

text \<open>
  Approvals, from \<open>core/src/tools/approvals.rs\<close> (\<open>request_approval\<close>, \<open>request_reviewer_approval\<close>,
  \<open>ApprovalResolution::into_tool_result\<close>), \<open>routes_approval_policy_to_guardian\<close> of
  \<open>core/src/guardian/review.rs\<close>, and the containment of sandbox permissions of
  \<open>core/src/tools/sandboxing.rs\<close> with its use in \<open>core/src/tools/orchestrator.rs\<close>. The reviewers below
  the guard (the permission hooks, the automatic reviewer and the user) are arguments that give
  their answer. An action is kept to what the code inspects: its kind, and the tool name and input
  of its permission request. The debug names of a decision are the argument \<open>dbg\<close>.
\<close>

datatype ask_for_approval = UnlessTrusted | OnRequest | Granular | Never
datatype approvals_reviewer = ReviewerUser | AutoReview
datatype network_rule_action = NetAllow | NetDeny

datatype review_decision =
    Approved
  | ApprovedExecpolicyAmendment "string list"
  | ApprovedForSession
  | ApprovedMcpPolicyAmendment
  | NetworkPolicyAmendment string network_rule_action
  | DeniedBy string
  | TimedOut
  | Abort

datatype approval_source = SrcGuard | SrcHook | SrcGuardian | SrcUser

record approval_resolution =
  res_decision :: review_decision
  res_source :: approval_source

datatype tool_error = Rejected string | TurnAborted

datatype approval_kind =
    ExecveAction string
  | NetworkAction string
  | McpAction ask_for_approval approvals_reviewer
  | OtherAction

record approval_action =
  aa_kind :: approval_kind
  aa_tool_name :: string
  aa_tool_input :: json

record approval_request_context =
  ax_turn :: turn_context
  ax_call_id :: string
  ax_tool_name :: string
  ax_strict_auto_review :: bool
  ax_retry_reason :: "string option"
  ax_policy :: ask_for_approval
  ax_reviewer :: approvals_reviewer
  ax_timeout_message :: string

datatype permission_decision = PermAllow | PermDeny string

text \<open>The layers below the guard.\<close>

record lower_layers =
  ll_hooks :: "string \<Rightarrow> approval_action \<Rightarrow> permission_decision option"
  ll_guardian :: "approval_action \<Rightarrow> review_decision"
  ll_user :: "approval_action \<Rightarrow> review_decision"

definition routes_approval_policy_to_guardian :: "ask_for_approval \<Rightarrow> approvals_reviewer \<Rightarrow> bool" where
  "routes_approval_policy_to_guardian policy reviewer \<longleftrightarrow>
     (policy = OnRequest \<or> policy = Granular) \<and> reviewer = AutoReview"

definition into_tool_result ::
  "string \<Rightarrow> approval_resolution \<Rightarrow> tool_error + review_decision" where
  "into_tool_result timeout_message r =
     (case res_decision r of
        ApprovedMcpPolicyAmendment \<Rightarrow> Inl (Rejected ''Error while requesting approval'')
      | NetworkPolicyAmendment host action \<Rightarrow>
          if action = NetDeny
          then Inl (Rejected
            (case res_source r of
               SrcGuard \<Rightarrow> ''rejected by the guardian''
             | SrcHook \<Rightarrow> ''rejected by configuration''
             | SrcGuardian \<Rightarrow> ''automatic approval review denied the action''
             | SrcUser \<Rightarrow> ''rejected by user''))
          else Inr (res_decision r)
      | DeniedBy rejection \<Rightarrow> Inl (Rejected rejection)
      | TimedOut \<Rightarrow> Inl (Rejected timeout_message)
      | Abort \<Rightarrow> Inl TurnAborted
      | d \<Rightarrow> Inr d)"

definition permission_request_run_id :: "approval_action \<Rightarrow> approval_request_context \<Rightarrow> string" where
  "permission_request_run_id action ctx =
     (case aa_kind action of
        ExecveAction approval_id \<Rightarrow> approval_id
      | NetworkAction hook_run_id \<Rightarrow> hook_run_id
      | _ \<Rightarrow> if ax_retry_reason ctx \<noteq> None then ax_call_id ctx @ '':retry'' else ax_call_id ctx)"

definition guard_resolution :: "verdict \<Rightarrow> approval_resolution option" where
  "guard_resolution v =
     (case v of
        Allow \<Rightarrow> Some \<lparr>res_decision = Approved, res_source = SrcGuard\<rparr>
      | Deny reason \<Rightarrow> Some \<lparr>res_decision = DeniedBy reason, res_source = SrcGuard\<rparr>
      | Rewrite _ _ \<Rightarrow> None
      | Defer \<Rightarrow> None)"

definition request_reviewer_approval ::
  "lower_layers \<Rightarrow> approval_action \<Rightarrow> approval_request_context \<Rightarrow> approval_resolution" where
  "request_reviewer_approval ll action ctx =
     (let to_guardian =
        (if ax_strict_auto_review ctx then True
         else (case aa_kind action of
                 McpAction policy reviewer \<Rightarrow> routes_approval_policy_to_guardian policy reviewer
               | _ \<Rightarrow> routes_approval_policy_to_guardian (ax_policy ctx) (ax_reviewer ctx)))
      in if to_guardian
         then \<lparr>res_decision = ll_guardian ll action, res_source = SrcGuardian\<rparr>
         else \<lparr>res_decision = ll_user ll action, res_source = SrcUser\<rparr>)"

text \<open>The resolution by the first layer that has an opinion: the guard, the hooks, a reviewer.\<close>

definition resolve ::
  "lower_layers \<Rightarrow> approval_action \<Rightarrow> approval_request_context \<Rightarrow> verdict
     \<Rightarrow> ('w, 'i, 'h) session \<Rightarrow> approval_resolution \<times> ('w, 'i, 'h) session" where
  "resolve ll action ctx v sess =
     (case guard_resolution v of
        Some r \<Rightarrow> (r, sess)
      | None \<Rightarrow>
          (let run_id = permission_request_run_id action ctx;
               sess = emit (PermissionHooksRun run_id) sess
           in case ll_hooks ll run_id action of
                Some PermAllow \<Rightarrow> (\<lparr>res_decision = Approved, res_source = SrcHook\<rparr>, sess)
              | Some (PermDeny message) \<Rightarrow>
                  (\<lparr>res_decision = DeniedBy message, res_source = SrcHook\<rparr>, sess)
              | None \<Rightarrow> (request_reviewer_approval ll action ctx, sess)))"

text \<open>The final answer for the tool.\<close>

definition approval_answer ::
  "approval_action \<Rightarrow> approval_request_context \<Rightarrow> approval_resolution
     \<Rightarrow> tool_error + review_decision" where
  "approval_answer action ctx r =
     (let is_mcp = (case aa_kind action of McpAction _ _ \<Rightarrow> True | _ \<Rightarrow> False);
          is_network = (case aa_kind action of NetworkAction _ \<Rightarrow> True | _ \<Rightarrow> False)
      in if is_mcp \<and> res_decision r = ApprovedMcpPolicyAmendment then Inr (res_decision r)
         else if is_network \<and> (case res_decision r of
               NetworkPolicyAmendment _ rule \<Rightarrow> rule = NetDeny | _ \<Rightarrow> False)
           then Inr (res_decision r)
         else if is_network \<and> res_decision r = Abort \<and> res_source r = SrcGuardian
           then Inl (Rejected ''automatic approval review was cancelled'')
         else into_tool_result (ax_timeout_message ctx) r)"

definition request_approval ::
  "(review_decision \<Rightarrow> string) \<Rightarrow> (approval_source \<Rightarrow> string) \<Rightarrow> lower_layers
     \<Rightarrow> approval_action \<Rightarrow> approval_request_context \<Rightarrow> ('w, 'i, 'h) session
     \<Rightarrow> (tool_error + review_decision) \<times> ('w, 'i, 'h) session" where
  "request_approval dbg dbg_source ll action ctx sess =
     (let (v, sess) = tap_review sess (ax_turn ctx)
            (Approval (aa_tool_name action) (permission_request_run_id action ctx) (aa_tool_input action));
          (r, sess) = resolve ll action ctx v sess;
          sess = tap_record sess (ax_turn ctx)
            (ApprovalResolved (ax_tool_name ctx) (ax_call_id ctx) (dbg (res_decision r))
              (dbg_source (res_source r)))
      in (approval_answer action ctx r, sess))"

subsection \<open>Containment\<close>

datatype sandbox_permissions = UseDefault | RequireEscalated | WithAdditionalPermissions

definition requires_escalated_permissions :: "sandbox_permissions \<Rightarrow> bool" where
  "requires_escalated_permissions p \<longleftrightarrow> p = RequireEscalated"

definition contain_sandbox_permissions ::
  "sandbox_permissions \<Rightarrow> sandbox_profile_override option \<Rightarrow> sandbox_permissions" where
  "contain_sandbox_permissions requested containment =
     (case containment of
        Some ReadOnly \<Rightarrow> UseDefault
      | Some RequireSandbox \<Rightarrow> UseDefault
      | None \<Rightarrow> requested)"

text \<open>The permissions the orchestrator requests for the first attempt, or its refusal to bypass an
  attachment's network policy.\<close>

definition requested_sandbox_permissions ::
  "('w, 'i, 'h) session \<Rightarrow> turn_context \<Rightarrow> string \<Rightarrow> bool \<Rightarrow> sandbox_permissions
     \<Rightarrow> tool_error + sandbox_permissions" where
  "requested_sandbox_permissions sess turn tool_name owner_network_policy asked =
     (let g = ss_guardian sess;
          containment =
            (if g_is_enabled g
             then g_sandbox_override g
               \<lparr>sc_thread_id = ss_thread_id sess, sc_turn_id = tc_sub_id turn,
                sc_tool_name = tool_name, sc_agent_type = None\<rparr>
             else None);
          requested = contain_sandbox_permissions asked containment
      in if owner_network_policy \<and> requires_escalated_permissions requested
         then Inl (Rejected
           ''attachment-owned network policy cannot be bypassed by sandbox escalation'')
         else Inr requested)"

subsection \<open>Lemmas\<close>

abbreviation approval_guarded :: "approval_action \<Rightarrow> approval_request_context \<Rightarrow> guarded_action" where
  "approval_guarded action ctx \<equiv>
     Approval (aa_tool_name action) (permission_request_run_id action ctx) (aa_tool_input action)"

lemma request_approval_answer:
  "fst (request_approval dbg dbg_source ll action ctx s) =
     approval_answer action ctx
       (fst (resolve ll action ctx (fst (tap_review s (ax_turn ctx) (approval_guarded action ctx)))
         (snd (tap_review s (ax_turn ctx) (approval_guarded action ctx)))))"
  by (simp add: request_approval_def Let_def split_beta)

lemma approval_answer_Approved [simp]:
  "res_decision r = Approved \<Longrightarrow> approval_answer action ctx r = Inr Approved"
  by (simp add: approval_answer_def into_tool_result_def)

lemma approval_answer_DeniedBy [simp]:
  "res_decision r = DeniedBy reason \<Longrightarrow> approval_answer action ctx r = Inl (Rejected reason)"
  by (simp add: approval_answer_def into_tool_result_def)

lemma resolve_guard:
  "guard_resolution v = Some r \<Longrightarrow> resolve ll action ctx v s = (r, s)"
  by (simp add: resolve_def)

lemma contain_not_escalated:
  "containment \<noteq> None \<Longrightarrow> \<not> requires_escalated_permissions (contain_sandbox_permissions asked containment)"
  by (auto simp: contain_sandbox_permissions_def requires_escalated_permissions_def
      split: sandbox_profile_override.splits)

end
