(* ===== verification/Intake_Gates.thy ===== *)
theory Intake_Gates
  imports Tool_Gate
begin

text \<open>
  The gates in front of what enters the model's context: prompts (\<open>run_hooks_and_record_inputs\<close> and
  \<open>rewrite_user_input\<close> of \<open>core/src/session/turn.rs\<close>, with \<open>inspect_pending_input\<close> and
  \<open>record_pending_input\<close> of \<open>core/src/hook_runtime.rs\<close>), the instruction block (\<open>guard_instructions\<close> of
  \<open>core/src/session/mod.rs\<close> with the cache of \<open>core/src/agents_md_manager.rs\<close>) and MCP servers
  (\<open>admit_mcp_servers\<close> of \<open>core/src/session/mcp_runtime.rs\<close>). The instruction block is its text.
\<close>

subsection \<open>Prompts\<close>

text \<open>A part of a user's input: text (its UI spans are opaque), or any other kind, kept whole.\<close>

datatype user_input = TextPart string "json list" | OtherPart json

datatype turn_input =
    UserInput "user_input list" "string option"
  | ResponseItem json
  | InterAgentCommunication json

fun part_text :: "user_input \<Rightarrow> string" where
  "part_text (TextPart s _) = s"
| "part_text (OtherPart _) = []"

definition user_message :: "user_input list \<Rightarrow> string" where
  "user_message content = concat (map part_text content)"

fun is_text :: "user_input \<Rightarrow> bool" where
  "is_text (TextPart _ _) = True"
| "is_text (OtherPart _) = False"

fun rewrite_user_input :: "(json \<Rightarrow> string) \<Rightarrow> json \<Rightarrow> turn_input \<Rightarrow> turn_input" where
  "rewrite_user_input render payload (UserInput content client_id) =
     UserInput (TextPart (payload_text render payload) [] # filter (\<lambda>p. \<not> is_text p) content) client_id"
| "rewrite_user_input render payload item = item"

record hook_outcome =
  ho_should_stop :: bool
  ho_additional_contexts :: "string list"

type_synonym ('w, 'i) intake_session = "('w, 'i, turn_input) session"

fun inspect_pending_input ::
  "(string \<Rightarrow> hook_outcome) \<Rightarrow> turn_input \<Rightarrow> ('w, 'i) intake_session \<Rightarrow> hook_outcome \<times> ('w, 'i) intake_session"
where
  "inspect_pending_input hook (UserInput content client_id) sess =
     (hook (user_message content), emit (PromptHooksRun (UserInput content client_id)) sess)"
| "inspect_pending_input hook item sess =
     (\<lparr>ho_should_stop = False, ho_additional_contexts = []\<rparr>, sess)"

definition record_pending_input ::
  "turn_input \<Rightarrow> string list \<Rightarrow> ('w, 'i) intake_session \<Rightarrow> ('w, 'i) intake_session" where
  "record_pending_input item ctxs sess =
     record_additional_contexts ctxs (emit (HistoryRecorded item) sess)"

text \<open>The gate on one item: \<open>None\<close> is a denied prompt.\<close>

fun prompt_gate ::
  "(json \<Rightarrow> string) \<Rightarrow> turn_context \<Rightarrow> turn_input \<Rightarrow> ('w, 'i) intake_session
     \<Rightarrow> turn_input option \<times> ('w, 'i) intake_session" where
  "prompt_gate render turn (UserInput content client_id) sess =
     (let (verdict, sess) = tap_review sess turn (Prompt (user_message content))
      in (case verdict of
            Deny _ \<Rightarrow> None
          | Rewrite payload _ \<Rightarrow> Some (rewrite_user_input render payload (UserInput content client_id))
          | Allow \<Rightarrow> Some (UserInput content client_id)
          | Defer \<Rightarrow> Some (UserInput content client_id), sess))"
| "prompt_gate render turn item sess = (Some item, sess)"

fun intake_loop ::
  "(json \<Rightarrow> string) \<Rightarrow> (string \<Rightarrow> hook_outcome) \<Rightarrow> turn_context \<Rightarrow> bool \<Rightarrow> bool \<Rightarrow> turn_input list
     \<Rightarrow> ('w, 'i) intake_session \<Rightarrow> bool \<times> ('w, 'i) intake_session" where
  "intake_loop render hook turn blocked accepted [] sess = (blocked \<and> \<not> accepted, sess)"
| "intake_loop render hook turn blocked accepted (item # items) sess =
     (case prompt_gate render turn item sess of
        (None, sess) \<Rightarrow> intake_loop render hook turn True accepted items sess
      | (Some item', sess) \<Rightarrow>
          (let (oc, sess) = inspect_pending_input hook item' sess
           in if ho_should_stop oc
              then intake_loop render hook turn True accepted items
                     (record_additional_contexts (ho_additional_contexts oc) sess)
              else
                (case item' of
                   UserInput content client_id \<Rightarrow>
                     if content \<noteq> []
                     then intake_loop render hook turn blocked True items
                       (record_pending_input item' (ho_additional_contexts oc)
                         (tap_record sess turn (PromptRecorded (user_message content))))
                     else intake_loop render hook turn blocked accepted items
                       (record_pending_input item' (ho_additional_contexts oc) sess)
                 | _ \<Rightarrow>
                     intake_loop render hook turn blocked accepted items
                       (record_pending_input item' (ho_additional_contexts oc) sess))))"

definition run_hooks_and_record_inputs ::
  "(json \<Rightarrow> string) \<Rightarrow> (string \<Rightarrow> hook_outcome) \<Rightarrow> turn_context \<Rightarrow> turn_input list
     \<Rightarrow> ('w, 'i) intake_session \<Rightarrow> bool \<times> ('w, 'i) intake_session" where
  "run_hooks_and_record_inputs render hook turn items sess =
     intake_loop render hook turn False False items sess"

subsection \<open>Instructions\<close>

text \<open>The guard's standing decision: the block it was about and what it made of it.\<close>

record guarded_instructions =
  gi_reviewed :: string
  gi_result :: "string option"

definition cached_decision :: "guarded_instructions option \<Rightarrow> string \<Rightarrow> string option option" where
  "cached_decision cache reviewed =
     (case cache of
        Some gi \<Rightarrow> if gi_reviewed gi = reviewed then Some (gi_result gi) else None
      | None \<Rightarrow> None)"

definition guard_instructions ::
  "(json \<Rightarrow> string) \<Rightarrow> turn_context \<Rightarrow> string option
     \<Rightarrow> guarded_instructions option \<times> ('w, 'i, 'h) session
     \<Rightarrow> string option \<times> guarded_instructions option \<times> ('w, 'i, 'h) session" where
  "guard_instructions render turn loaded cs =
     (let (cache, sess) = cs
      in if \<not> g_is_enabled (ss_guardian sess) then (loaded, cache, sess)
         else
           (let block = (case loaded of Some s \<Rightarrow> s | None \<Rightarrow> [])
            in if trim block = [] then (loaded, cache, sess)
               else
                 (case cached_decision cache block of
                    Some decided \<Rightarrow> (decided, cache, sess)
                  | None \<Rightarrow>
                      (let (verdict, sess) = tap_review sess turn (Instructions ''agents_md'' block);
                           result =
                             (case verdict of
                                Deny _ \<Rightarrow> None
                              | Rewrite payload _ \<Rightarrow> Some (payload_text render payload)
                              | Allow \<Rightarrow> loaded
                              | Defer \<Rightarrow> loaded)
                       in (result, Some \<lparr>gi_reviewed = block, gi_result = result\<rparr>, sess)))))"

subsection \<open>MCP servers\<close>

fun denied_servers ::
  "string list \<Rightarrow> ('w, 'i, 'h) session \<Rightarrow> string list \<times> ('w, 'i, 'h) session" where
  "denied_servers [] sess = ([], sess)"
| "denied_servers (name # names) sess =
     (let (verdict, sess) = tap_review_session sess (McpAdmission name None);
          (denied, sess) = denied_servers names sess
      in ((case verdict of Deny _ \<Rightarrow> [name] | _ \<Rightarrow> []) @ denied, sess))"

text \<open>The catalog as the configured servers by name, in the map's order.\<close>

definition admit_mcp_servers ::
  "(string \<times> 'c) list \<Rightarrow> ('w, 'i, 'h) session \<Rightarrow> (string \<times> 'c) list \<times> ('w, 'i, 'h) session" where
  "admit_mcp_servers servers sess =
     (if servers = [] then (servers, sess)
      else
        (let (denied, sess) = denied_servers (map fst servers) sess
         in if denied = [] then (servers, sess)
            else (filter (\<lambda>(name, _). name \<notin> set denied) servers, sess)))"

subsection \<open>Lemmas\<close>

text \<open>The items that enter the history.\<close>

definition history :: "('i, 'h) gate_event list \<Rightarrow> 'h list" where
  "history evs = List.map_filter (\<lambda>ev. case ev of HistoryRecorded h \<Rightarrow> Some h | _ \<Rightarrow> None) evs"

lemma history_append [simp]: "history (xs @ ys) = history xs @ history ys"
  by (simp add: history_def List.map_filter_def)

lemma history_simps [simp]:
  "history [] = []" "history (HistoryRecorded h # evs) = h # history evs"
  "history (GuardAsked a # evs) = history evs" "history (VerdictShown e # evs) = history evs"
  "history (PromptHooksRun h # evs) = history evs" "history (ContextsRecorded c # evs) = history evs"
  "history (ActivityRecorded act # evs) = history evs"
  by (simp_all add: history_def List.map_filter_simps)

lemma history_review_events [simp]: "history (review_events s a v) = []"
  by (simp add: review_events_def split: option.split)

lemma history_tap_review [simp]:
  "history (ss_trace (snd (tap_review s turn a))) = history (ss_trace s)"
  by (simp add: tap_review_trace)

lemma history_tap_record [simp]: "history (ss_trace (tap_record s turn act)) = history (ss_trace s)"
  by (simp add: tap_record_trace)

lemma history_contexts [simp]:
  "history (ss_trace (record_additional_contexts c s)) = history (ss_trace s)"
  by (simp add: record_additional_contexts_def)

lemma history_inspect [simp]:
  "history (ss_trace (snd (inspect_pending_input hook item s))) = history (ss_trace s)"
  by (cases item) simp_all

lemma history_record [simp]:
  "history (ss_trace (record_pending_input item c s)) = history (ss_trace s) @ [item]"
  by (simp add: record_pending_input_def)

lemma history_prompt_gate [simp]:
  "history (ss_trace (snd (prompt_gate render turn item s))) = history (ss_trace s)"
  by (cases item) (simp_all add: split_beta)

lemma prompt_gate_guardian [simp]:
  "ss_guardian (snd (prompt_gate render turn item s)) = ss_guardian s"
  by (cases item) (simp_all add: split_beta)

lemma user_message_rewrite:
  "rewrite_user_input render payload (UserInput content cid) = UserInput content' cid' \<Longrightarrow>
     user_message content' = payload_text render payload"
proof -
  have "concat (map part_text (filter (\<lambda>p. \<not> is_text p) content)) = []"
  proof (induction content)
    case (Cons p ps)
    then show ?case by (cases p) simp_all
  qed simp
  then show "rewrite_user_input render payload (UserInput content cid) = UserInput content' cid' \<Longrightarrow>
      user_message content' = payload_text render payload"
    by (auto simp: user_message_def)
qed

lemma intake_loop_history:
  fixes s :: "('w, 'i) intake_session"
  shows "\<exists>hs. history (ss_trace (snd (intake_loop render hook turn blocked accepted items s)))
       = history (ss_trace s) @ hs
     \<and> (\<forall>h\<in>set hs. \<exists>item\<in>set items. \<exists>s' :: ('w, 'i) intake_session. ss_guardian s' = ss_guardian s
          \<and> fst (prompt_gate render turn item s') = Some h)"
proof (induction items arbitrary: blocked accepted s)
  case (Cons item items)
  have step: "\<exists>hs. history (ss_trace (snd (intake_loop render hook turn b a items t)))
        = history (ss_trace s) @ hs
      \<and> (\<forall>h\<in>set hs. \<exists>i\<in>set (item # items). \<exists>s' :: ('w, 'i) intake_session. ss_guardian s' = ss_guardian s
           \<and> fst (prompt_gate render turn i s') = Some h)"
    if "ss_guardian t = ss_guardian s" and "history (ss_trace t) = history (ss_trace s) @ new"
      and "\<forall>h\<in>set new. fst (prompt_gate render turn item s) = Some h" for b a new and t :: "('w, 'i) intake_session"
  proof -
    obtain hs where hs: "history (ss_trace (snd (intake_loop render hook turn b a items t)))
        = history (ss_trace t) @ hs"
      "\<forall>h\<in>set hs. \<exists>i\<in>set items. \<exists>s' :: ('w, 'i) intake_session. ss_guardian s' = ss_guardian t
         \<and> fst (prompt_gate render turn i s') = Some h"
      using Cons.IH [of b a t] by blast
    show ?thesis
      using hs that by (intro exI [of _ "new @ hs"]) auto
  qed
  obtain r s1 where gate: "prompt_gate render turn item s = (r, s1)" by fastforce
  have s1: "ss_guardian s1 = ss_guardian s" "history (ss_trace s1) = history (ss_trace s)"
    using prompt_gate_guardian [of render turn item s] history_prompt_gate [of render turn item s] gate
    by simp_all
  show ?case
  proof (cases r)
    case None
    then show ?thesis using step [of s1 "[]"] s1 gate by simp
  next
    case (Some item')
    obtain oc s2 where insp: "inspect_pending_input hook item' s1 = (oc, s2)" by fastforce
    have "ss_guardian (snd (inspect_pending_input hook item' s1)) = ss_guardian s1"
      by (cases item') simp_all
    then have s2: "ss_guardian s2 = ss_guardian s" "history (ss_trace s2) = history (ss_trace s)"
      using history_inspect [of hook item' s1] insp s1 by simp_all
    have ctx: "ss_guardian (record_additional_contexts c t) = ss_guardian t"
      "ss_guardian (record_pending_input i c t) = ss_guardian t" for i c and t :: "('w, 'i) intake_session"
      by (simp_all add: record_pending_input_def record_additional_contexts_def)
    show ?thesis
      using gate insp s2 Some
        step [of "record_additional_contexts (ho_additional_contexts oc) s2" "[]"]
        step [of "record_pending_input item' (ho_additional_contexts oc) s2" "[item']"]
        step [of "record_pending_input item' (ho_additional_contexts oc) (tap_record s2 turn act)" "[item']" for act]
      by (cases item') (simp_all add: ctx del: inspect_pending_input.simps, (intro impI; simp))
  qed
qed simp

text \<open>A guardian whose answers do not depend on when it is asked.\<close>

definition stable_verdict ::
  "'w guardian \<Rightarrow> activity_context \<Rightarrow> (guarded_action \<Rightarrow> guardian_error + verdict) \<Rightarrow> bool" where
  "stable_verdict g ctx answer \<longleftrightarrow> (\<forall>a w. fst (g_review g ctx a w) = answer a)"

lemma session_context_review [simp]:
  "session_context (snd (tap_review_session s a)) = session_context s"
  by (simp add: tap_review_session_def Let_def split_beta session_context_def emit_def)

lemma denied_servers_stable:
  assumes "g_is_enabled (ss_guardian s)"
    and "stable_verdict (ss_guardian s) (session_context s) answer"
  shows "fst (denied_servers names s) =
    filter (\<lambda>n. \<exists>reason. posture_verdict (ss_guardian s) (answer (McpAdmission n None)) = Deny reason) names"
  using assms
proof (induction names arbitrary: s)
  case (Cons n names)
  let ?v = "fst (tap_review_session s (McpAdmission n None))"
  have v: "?v = posture_verdict (ss_guardian s) (answer (McpAdmission n None))"
    using Cons.prems by (simp add: tap_review_session_verdict stable_verdict_def)
  show ?case
    using Cons.IH [of "snd (tap_review_session s (McpAdmission n None))"] Cons.prems v
    by (simp add: split_beta Let_def split: verdict.split)
qed simp

end
