(* ===== verification/Gate_Properties.thy ===== *)
theory Gate_Properties
  imports Tool_Gate Approval_Gate Intake_Gates
begin

text \<open>
  What the gates of the turn engine guarantee, whatever the guardian, the tools, the hooks and the
  reviewers are: a denied or unreviewable action has no effect below its gate, the guard is asked
  before anything else runs, only what the guard let through is executed or enters the history.
  The samples at the start are the concrete guardian, tool and session the witnesses run.
\<close>

subsection \<open>Samples\<close>

definition sample_guardian :: "(guarded_action \<Rightarrow> guardian_error + verdict) \<Rightarrow> unit guardian" where
  "sample_guardian answer = guardian_defaults (\<lambda>ctx a w. (answer a, w)) (\<lambda>ctx act w. w)"

definition sample_session :: "unit guardian \<Rightarrow> (unit, invocation, turn_input) session" where
  "sample_session g =
     \<lparr>ss_guardian = g, ss_world = (), ss_thread_id = ''t1'', ss_session_id = ''s1'',
      ss_originator = ''cli'', ss_account = None, ss_now = 0, ss_trace = [], ss_tool_calls = Some 0\<rparr>"

definition sample_turn :: turn_context where
  "sample_turn = \<lparr>tc_sub_id = ''1'', tc_cwd = ''/work'', tc_model_slug = ''m''\<rparr>"

definition sample_tool :: tool_runtime where
  "sample_tool =
     \<lparr>tr_matches_kind = (\<lambda>_. True),
      tr_pre_tool_use_payload = (\<lambda>i. Some (\<lparr>hn_name = ''Bash'', hn_aliases = []\<rparr>, inv_payload i)),
      tr_with_updated_hook_input = (\<lambda>i j. Inr (i\<lparr>inv_payload := j\<rparr>)),
      tr_handle = (\<lambda>i. Inr \<lparr>out_model_text = ''raw'', out_code_mode = inv_payload i, out_success = True\<rparr>),
      tr_post_tool_use_payload = (\<lambda>i out. Some
        \<lparr>pp_tool_name = \<lparr>hn_name = ''Bash'', hn_aliases = []\<rparr>, pp_tool_use_id = inv_call_id i,
         pp_tool_input = inv_payload i, pp_tool_response = JString (out_model_text out)\<rparr>)\<rparr>"

definition sample_call :: invocation where
  "sample_call =
     \<lparr>inv_tool_name = ''shell'', inv_call_id = ''c1'', inv_is_custom = False,
      inv_payload = JObject [(''command'', JString ''rm x'')]\<rparr>"

definition sample_hooks :: "json option \<Rightarrow> tool_hooks" where
  "sample_hooks update =
     \<lparr>th_pre_tool_use = (\<lambda>c n j.
        \<lparr>po_hook_events = [], po_should_block = False, po_block_reason = None,
         po_additional_contexts = [], po_updated_input = update\<rparr>),
      th_post_tool_use = (\<lambda>p.
        \<lparr>qo_hook_events = [], qo_should_block = False, qo_feedback_message = None,
         qo_additional_contexts = []\<rparr>)\<rparr>"

lemma sample_tool_simps [simp]:
  "tr_matches_kind sample_tool i"
  "tr_pre_tool_use_payload sample_tool i = Some (\<lparr>hn_name = ''Bash'', hn_aliases = []\<rparr>, inv_payload i)"
  "tr_with_updated_hook_input sample_tool i j = Inr (i\<lparr>inv_payload := j\<rparr>)"
  "tr_handle sample_tool i = Inr \<lparr>out_model_text = ''raw'', out_code_mode = inv_payload i, out_success = True\<rparr>"
  by (simp_all add: sample_tool_def)

lemma sample_call_simps [simp]:
  "inv_tool_name sample_call = ''shell''" "inv_call_id sample_call = ''c1''"
  by (simp_all add: sample_call_def)

lemma sample_session_simps [simp]:
  "ss_guardian (sample_session g) = g" "ss_trace (sample_session g) = []"
  "ss_world (sample_session g) = ()"
  by (simp_all add: sample_session_def)

lemma sample_guardian_simps [simp]:
  "g_is_enabled (sample_guardian answer)" "g_failure_posture (sample_guardian answer) = FailClosed"
  "fst (g_review (sample_guardian answer) ctx a w) = answer a"
  by (simp_all add: sample_guardian_def guardian_defaults_def)

lemma sample_hooks_simps [simp]:
  "po_should_block (th_pre_tool_use (sample_hooks u) c n j) = False"
  "po_updated_input (th_pre_tool_use (sample_hooks u) c n j) = u"
  "qo_should_block (th_post_tool_use (sample_hooks u) p) = False"
  "qo_feedback_message (th_post_tool_use (sample_hooks u) p) = None"
  by (simp_all add: sample_hooks_def)

text \<open>What the guard rules on an action at a gate of a turn: its answer, with the fail posture
  applied to an error.\<close>

definition ruling :: "('w, 'i, 'h) session \<Rightarrow> turn_context \<Rightarrow> guarded_action \<Rightarrow> verdict" where
  "ruling s turn a =
     posture_verdict (ss_guardian s)
       (fst (g_review (ss_guardian s) (activity_context s turn) a (ss_world s)))"

lemma tap_review_ruling [simp]:
  "g_is_enabled (ss_guardian s) \<Longrightarrow> fst (tap_review s turn a) = ruling s turn a"
  by (simp add: tap_review_verdict ruling_def)

lemma ruling_count [simp]: "ruling (count_tool_call s) turn a = ruling s turn a"
  by (simp add: ruling_def)

lemma ruling_outage:
  "fst (g_review (ss_guardian s) (activity_context s turn) a (ss_world s)) = Inl err \<Longrightarrow>
   g_failure_posture (ss_guardian s) = FailClosed \<Longrightarrow> ruling s turn a = on_error err FailClosed"
  by (simp add: ruling_def posture_verdict_def)

lemma ruling_sample [simp]:
  "ruling (sample_session (sample_guardian answer)) turn a =
     posture_verdict (sample_guardian answer) (answer a)"
  by (simp add: ruling_def)

lemma posture_verdict_Inr [simp]: "posture_verdict g (Inr v) = v"
  by (simp add: posture_verdict_def)

subsection \<open>Tool calls\<close>

lemma dispatch_denied:
  assumes "registry (inv_tool_name i) = Some tool" and "tr_matches_kind tool i"
    and "tr_pre_tool_use_payload tool i = Some (name, tool_input)"
    and "g_is_enabled (ss_guardian (snd cs))"
    and "ruling (snd cs) turn (call_action name i tool_input) = Deny reason"
  shows "dispatch_any render hooks registry turn i cs =
    (Inl (RespondToModel
       (''Tool call blocked by the guardian: '' @ reason @ ''. Tool: '' @ hn_name name)),
     notify_tool_finish_if_unclaimed OutcomeBlocked
       (fst cs, snd (tap_review (count_tool_call (snd cs)) turn (call_action name i tool_input))))"
proof (rule dispatch_guard_error)
  show "guard_stage tool turn i (fst cs, count_tool_call (snd cs)) =
    (Inl (RespondToModel
       (''Tool call blocked by the guardian: '' @ reason @ ''. Tool: '' @ hn_name name)),
     notify_tool_finish_if_unclaimed OutcomeBlocked
       (fst cs, snd (tap_review (count_tool_call (snd cs)) turn (call_action name i tool_input))))"
    using assms by (subst guard_stage_deny [where reason = reason]) simp_all
qed (use assms in simp_all)

lemma notify_trace:
  "ss_trace (snd (notify_tool_finish_if_unclaimed oc cs)) =
     ss_trace (snd cs) @ (if fst cs = Some True then [] else [ToolFinished oc])"
  by (simp add: notify_tool_finish_if_unclaimed_def split: option.split bool.split)

text \<open>C1. A tool call the guard rules against is answered with the guard's reason, and the only
  events of the whole dispatch are the question, the notice of the verdict and, unless the call's
  end was claimed already, its end as blocked: no hook and no tool runs.\<close>

theorem denied_tool_call_never_runs:
  assumes "registry (inv_tool_name i) = Some tool" and "tr_matches_kind tool i"
    and "tr_pre_tool_use_payload tool i = Some (name, tool_input)"
    and "g_is_enabled (ss_guardian (snd cs))"
    and "ruling (snd cs) turn (call_action name i tool_input) = Deny reason"
  shows "fst (dispatch_any render hooks registry turn i cs) =
      Inl (RespondToModel
        (''Tool call blocked by the guardian: '' @ reason @ ''. Tool: '' @ hn_name name)) \<and>
    ss_trace (snd (snd (dispatch_any render hooks registry turn i cs))) =
      ss_trace (snd cs)
      @ [GuardAsked (call_action name i tool_input),
         VerdictShown \<lparr>gv_decision = Denied, gv_action = ''tool call'', gv_tool = Some (hn_name name),
           gv_reason = Some reason\<rparr>]
      @ (if fst cs = Some True then [] else [ToolFinished OutcomeBlocked])"
  using assms
  by (simp add: dispatch_denied notify_trace tap_review_trace review_events_def verdict_event_def)

text \<open>Witness: a guardian that denies every action, asked about \<open>rm x\<close>.\<close>

theorem denied_tool_call_never_runs_witness:
  "fst (dispatch_any (\<lambda>_. []) (sample_hooks None) (\<lambda>_. Some sample_tool) sample_turn sample_call
      (None, sample_session (sample_guardian (\<lambda>_. Inr (Deny ''no''))))) =
    Inl (RespondToModel ''Tool call blocked by the guardian: no. Tool: Bash'') \<and>
   ss_trace (snd (snd (dispatch_any (\<lambda>_. []) (sample_hooks None) (\<lambda>_. Some sample_tool) sample_turn
      sample_call (None, sample_session (sample_guardian (\<lambda>_. Inr (Deny ''no''))))))) =
    [GuardAsked (ToolCall ''Bash'' [] ''c1'' (inv_payload sample_call)),
     VerdictShown \<lparr>gv_decision = Denied, gv_action = ''tool call'', gv_tool = Some ''Bash'',
       gv_reason = Some ''no''\<rparr>, ToolFinished OutcomeBlocked]"
  using denied_tool_call_never_runs [of "\<lambda>_. Some sample_tool" sample_call sample_tool
      "\<lparr>hn_name = ''Bash'', hn_aliases = []\<rparr>" "inv_payload sample_call"
      "(None, sample_session (sample_guardian (\<lambda>_. Inr (Deny ''no''))))"
      sample_turn "''no''" "\<lambda>_. []" "sample_hooks None"]
  by simp

text \<open>C2. The guard is asked first: whatever a dispatch of a tool with a guard payload adds to the
  session's events, the question to the guard comes before all of it.\<close>

theorem guard_asked_before_anything_else:
  assumes "registry (inv_tool_name i) = Some tool" and "tr_matches_kind tool i"
    and "tr_pre_tool_use_payload tool i = Some (name, tool_input)"
    and "g_is_enabled (ss_guardian (snd cs))"
  shows "prefix (ss_trace (snd cs) @ [GuardAsked (call_action name i tool_input)])
    (ss_trace (snd (snd (dispatch_any render hooks registry turn i cs))))"
  using guard_stage_asks [of tool i name tool_input "(fst cs, count_tool_call (snd cs))" turn]
    dispatch_extends_guard_stage [of registry i tool turn cs render hooks] assms
  by (auto simp: extends_def)

text \<open>Witness: a guardian that allows everything.\<close>

theorem guard_asked_before_anything_else_witness:
  "prefix [GuardAsked (ToolCall ''Bash'' [] ''c1'' (inv_payload sample_call))]
    (ss_trace (snd (snd (dispatch_any (\<lambda>_. []) (sample_hooks None) (\<lambda>_. Some sample_tool) sample_turn
      sample_call (None, sample_session (sample_guardian (\<lambda>_. Inr Allow)))))))"
  using guard_asked_before_anything_else [of "\<lambda>_. Some sample_tool" sample_call sample_tool
      "\<lparr>hn_name = ''Bash'', hn_aliases = []\<rparr>" "inv_payload sample_call"
      "(None, sample_session (sample_guardian (\<lambda>_. Inr Allow)))" "\<lambda>_. []" "sample_hooks None" sample_turn]
  by simp

subsubsection \<open>What is executed\<close>

definition executed :: "('i, 'h) gate_event list \<Rightarrow> 'i list" where
  "executed evs = List.map_filter (\<lambda>ev. case ev of ToolExecuted i \<Rightarrow> Some i | _ \<Rightarrow> None) evs"

lemma executed_append [simp]: "executed (xs @ ys) = executed xs @ executed ys"
  by (simp add: executed_def List.map_filter_def)

lemma executed_simps [simp]:
  "executed [] = []" "executed (ToolExecuted i # evs) = i # executed evs"
  "executed (ToolStarted i # evs) = executed evs" "executed (GuardAsked a # evs) = executed evs"
  "executed (VerdictShown e # evs) = executed evs" "executed (PreHooksRun j # evs) = executed evs"
  "executed (PostHooksRun j # evs) = executed evs" "executed (ToolFinished oc # evs) = executed evs"
  "executed (ActivityRecorded act # evs) = executed evs"
  "executed (ContextsRecorded c # evs) = executed evs"
  by (simp_all add: executed_def List.map_filter_simps)

lemma executed_tap [simp]:
  "executed (ss_trace (snd (tap_review s turn a))) = executed (ss_trace s)"
  "executed (ss_trace (tap_record s turn act)) = executed (ss_trace s)"
  "executed (ss_trace (record_additional_contexts c s)) = executed (ss_trace s)"
  by (simp_all add: tap_review_trace tap_record_trace review_events_def
      record_additional_contexts_def split: option.split)

lemma executed_hooks [simp]:
  "executed (ss_trace (emit_hook_completed turn evs s)) = executed (ss_trace s)"
  unfolding emit_hook_completed_def by (induction evs arbitrary: s) simp_all

lemma executed_stages [simp]:
  "executed (ss_trace (snd (notify_tool_finish_if_unclaimed oc cs))) = executed (ss_trace (snd cs))"
  "executed (ss_trace (snd (snd (apply_pre_dispatch_decision tool i d cs)))) = executed (ss_trace (snd cs))"
  "executed (ss_trace (snd (output_stage render turn c p s))) = executed (ss_trace s)"
  "executed (ss_trace (snd (run_pre_tool_use_hooks hooks turn c n j s))) = executed (ss_trace s)"
  "executed (ss_trace (snd (run_post_tool_use_hooks hooks turn q s))) = executed (ss_trace s)"
  by (simp_all add: notify_trace apply_pre_dispatch_decision_def output_stage_def split_beta
      run_pre_tool_use_hooks_def run_post_tool_use_hooks_def Let_def
      split: option.split sum.split pre_tool_use_hook_result.split)

lemma executed_guard_hook [simp]:
  "executed (ss_trace (snd (snd (guard_stage tool turn i cs)))) = executed (ss_trace (snd cs))"
  "executed (ss_trace (snd (snd (hook_stage hooks tool turn i cs)))) = executed (ss_trace (snd cs))"
  by (simp_all add: guard_stage_def hook_stage_def split_beta split: option.split)

lemma executed_execute_stage [simp]:
  "executed (ss_trace (snd (snd (execute_stage render hooks tool turn n c i cs)))) =
     executed (ss_trace (snd cs)) @ [i]"
  by (auto simp: execute_stage_def Let_def split_beta split: option.split)

lemma executed_dispatch:
  assumes "registry (inv_tool_name i) = Some tool" and "tr_matches_kind tool i"
  shows "executed (ss_trace (snd (snd (dispatch_any render hooks registry turn i cs)))) =
    executed (ss_trace (snd cs))
    @ (case guard_stage tool turn i (fst cs, count_tool_call (snd cs)) of
         (Inl _, _) \<Rightarrow> []
       | (Inr j, cs1) \<Rightarrow>
           (case fst (hook_stage hooks tool turn j cs1) of Inl _ \<Rightarrow> [] | Inr k \<Rightarrow> [k]))"
proof -
  let ?g = "guard_stage tool turn i (fst cs, count_tool_call (snd cs))"
  have "executed (ss_trace (snd (snd ?g))) = executed (ss_trace (snd cs))" by simp
  then show ?thesis
    using assms executed_guard_hook(2) [of hooks tool turn _ "snd ?g"]
    by (cases ?g) (auto simp: dispatch_any_def Let_def split_beta simp del: executed_guard_hook
        split: sum.splits)
qed

text \<open>The forms in which a call may go on: \<open>guard_admits s turn tool i j\<close>, the guard of the session lets
  the call \<open>i\<close> go on as \<open>j\<close>; \<open>hooks_turn_into hooks tool j k\<close>, the PreToolUse hooks let \<open>j\<close> go on as \<open>k\<close>.\<close>

definition guard_admits ::
  "('w, 'h) tool_session \<Rightarrow> turn_context \<Rightarrow> tool_runtime \<Rightarrow> invocation \<Rightarrow> invocation \<Rightarrow> bool" where
  "guard_admits s turn tool i j \<longleftrightarrow>
     (case tr_pre_tool_use_payload tool i of
        None \<Rightarrow> j = i
      | Some (name, tool_input) \<Rightarrow>
          if g_is_enabled (ss_guardian s)
          then (case ruling s turn (call_action name i tool_input) of
                  Allow \<Rightarrow> j = i | Defer \<Rightarrow> j = i
                | Rewrite payload _ \<Rightarrow> tr_with_updated_hook_input tool i payload = Inr j
                | Deny _ \<Rightarrow> False)
          else j = i)"

definition hooks_turn_into :: "tool_hooks \<Rightarrow> tool_runtime \<Rightarrow> invocation \<Rightarrow> invocation \<Rightarrow> bool" where
  "hooks_turn_into hooks tool j k \<longleftrightarrow>
     (case tr_pre_tool_use_payload tool j of
        None \<Rightarrow> k = j
      | Some (name, tool_input) \<Rightarrow>
          (let oc = th_pre_tool_use hooks (inv_call_id j) name tool_input
           in if po_should_block oc then po_block_reason oc = None \<and> k = j
              else (case po_updated_input oc of
                      None \<Rightarrow> k = j
                    | Some u \<Rightarrow> tr_with_updated_hook_input tool j u = Inr k)))"

lemma hook_stage_result:
  "fst (hook_stage hooks tool turn j cs) = Inr k \<longleftrightarrow> hooks_turn_into hooks tool j k"
  by (auto simp: hooks_turn_into_def hook_stage_def run_pre_tool_use_hooks_def
      apply_pre_dispatch_decision_def split_beta Let_def split: option.split sum.split)

lemma guard_stage_result:
  "fst (guard_stage tool turn i cs) = Inr j \<longleftrightarrow> guard_admits (snd cs) turn tool i j"
proof (cases "g_is_enabled (ss_guardian (snd cs))")
  case True
  then show ?thesis
    by (auto simp: guard_admits_def guard_stage_def split_beta guard_pre_dispatch_decision_def
        apply_pre_dispatch_decision_def split: option.split verdict.split sum.split)
next
  case False
  then have "fst (tap_review (snd cs) turn a) = Defer" for a by (simp add: tap_review_def)
  with False show ?thesis
    by (auto simp: guard_admits_def guard_stage_def split_beta guard_pre_dispatch_decision_def
        split: option.split)
qed

lemma guard_admits_count [simp]:
  "guard_admits (count_tool_call s) turn tool i j \<longleftrightarrow> guard_admits s turn tool i j"
  by (cases "tr_pre_tool_use_payload tool i") (simp_all add: guard_admits_def split_beta)

text \<open>C3. What a dispatch executes: exactly one call when the tool is registered and of a matching
  kind, the guard admits a call and the PreToolUse hooks let it go on, and nothing otherwise. When the
  tool exposes a payload to the guard and the guard is enabled, the guard admits the call itself after
  Allow or Defer, the call rebuilt from the guard's payload after Rewrite, and nothing after Deny. Past
  the guard lead exactly two ways: a call of a tool without a guard payload (by default every payload
  that is not a function call, and the tools that override the method) or under a disabled guard goes
  on as it is, unreviewed; and hooks that update the input of the admitted call replace it by the call
  that the tool rebuilds from the update.\<close>

theorem executes_only_what_the_guard_admitted:
  "\<exists>ks. executed (ss_trace (snd (snd (dispatch_any render hooks registry turn i cs)))) =
      executed (ss_trace (snd cs)) @ ks \<and> length ks \<le> 1 \<and>
    (\<forall>k. k \<in> set ks \<longleftrightarrow> (\<exists>tool j. registry (inv_tool_name i) = Some tool \<and> tr_matches_kind tool i \<and>
      guard_admits (snd cs) turn tool i j \<and> hooks_turn_into hooks tool j k))"
proof (cases "\<exists>tool. registry (inv_tool_name i) = Some tool \<and> tr_matches_kind tool i")
  case False
  then have "ss_trace (snd (snd (dispatch_any render hooks registry turn i cs))) = ss_trace (snd cs)"
    by (auto simp: dispatch_any_def Let_def split: option.split)
  with False show ?thesis by (intro exI [of _ "[]"]) auto
next
  case True
  then obtain tool where tool: "registry (inv_tool_name i) = Some tool" "tr_matches_kind tool i" by blast
  let ?g = "guard_stage tool turn i (fst cs, count_tool_call (snd cs))"
  let ?ks = "case ?g of (Inl _, _) \<Rightarrow> []
      | (Inr j, cs1) \<Rightarrow> (case fst (hook_stage hooks tool turn j cs1) of Inl _ \<Rightarrow> [] | Inr k \<Rightarrow> [k])"
  have "k \<in> set ?ks \<longleftrightarrow> (\<exists>j. fst ?g = Inr j \<and> hooks_turn_into hooks tool j k)" for k
    by (cases ?g)
      (auto simp: hook_stage_result eq_commute [of "Inr k"] split: sum.split)
  moreover have "length ?ks \<le> 1" by (simp split: prod.split sum.split)
  ultimately show ?thesis
    using executed_dispatch [of registry i tool render hooks turn cs, OF tool] tool
    by (intro exI [of _ ?ks]) (simp add: guard_stage_result)
qed

text \<open>Witness: the guard rewrites \<open>rm x\<close> to \<open>ls\<close>; the rewritten call is what runs.\<close>

theorem executes_only_what_the_guard_admitted_witness:
  "executed (ss_trace (snd (snd (dispatch_any (\<lambda>_. []) (sample_hooks None) (\<lambda>_. Some sample_tool)
      sample_turn sample_call
      (None, sample_session (sample_guardian (\<lambda>_. Inr (Rewrite (JString ''ls'') None)))))))) =
    [sample_call\<lparr>inv_payload := JString ''ls''\<rparr>]"
proof -
  obtain ks where ks: "executed (ss_trace (snd (snd (dispatch_any (\<lambda>_. []) (sample_hooks None) (\<lambda>_. Some sample_tool)
      sample_turn sample_call
      (None, sample_session (sample_guardian (\<lambda>_. Inr (Rewrite (JString ''ls'') None)))))))) = ks"
    "length ks \<le> 1" "\<forall>k. k \<in> set ks \<longleftrightarrow> k = sample_call\<lparr>inv_payload := JString ''ls''\<rparr>"
    using executes_only_what_the_guard_admitted [of "\<lambda>_. []" "sample_hooks None"
      "\<lambda>_. Some sample_tool" sample_turn sample_call
      "(None, sample_session (sample_guardian (\<lambda>_. Inr (Rewrite (JString ''ls'') None))))"]
    by (auto simp: guard_admits_def hooks_turn_into_def)
  then show ?thesis by (cases ks) auto
qed

lemma guard_stage_admits:
  assumes "tr_pre_tool_use_payload tool i = Some (name, tool_input)"
    and "g_is_enabled (ss_guardian (snd cs))"
    and "ruling (snd cs) turn (call_action name i tool_input) \<in> {Allow, Defer}"
  shows "guard_stage tool turn i cs =
    (Inr i, fst cs, snd (tap_review (snd cs) turn (call_action name i tool_input)))"
  using assms by (intro guard_stage_admit) simp_all

lemma hook_stage_update:
  assumes "tr_pre_tool_use_payload tool i = Some (name, tool_input)"
    and "\<not> po_should_block (th_pre_tool_use hooks (inv_call_id i) name tool_input)"
    and "po_updated_input (th_pre_tool_use hooks (inv_call_id i) name tool_input) = Some u"
    and "tr_with_updated_hook_input tool i u = Inr k"
  shows "fst (hook_stage hooks tool turn i cs) = Inr k"
  using assms
  by (simp add: hook_stage_def split_beta run_pre_tool_use_hooks_def Let_def
      apply_pre_dispatch_decision_def)

text \<open>The tool calls the guard was asked about.\<close>

definition reviewed_calls :: "('i, 'h) gate_event list \<Rightarrow> guarded_action list" where
  "reviewed_calls evs = List.map_filter
     (\<lambda>ev. case ev of GuardAsked (ToolCall n al c x) \<Rightarrow> Some (ToolCall n al c x) | _ \<Rightarrow> None) evs"

lemma reviewed_calls_append [simp]:
  "reviewed_calls (xs @ ys) = reviewed_calls xs @ reviewed_calls ys"
  by (simp add: reviewed_calls_def List.map_filter_def)

lemma reviewed_calls_simps [simp]:
  "reviewed_calls [] = []"
  "reviewed_calls (GuardAsked (ToolCall n al c x) # evs) = ToolCall n al c x # reviewed_calls evs"
  "reviewed_calls (GuardAsked (ToolOutput n c x y) # evs) = reviewed_calls evs"
  "reviewed_calls (ToolExecuted i # evs) = reviewed_calls evs"
  "reviewed_calls (ToolStarted i # evs) = reviewed_calls evs"
  "reviewed_calls (VerdictShown e # evs) = reviewed_calls evs"
  "reviewed_calls (PreHooksRun j # evs) = reviewed_calls evs"
  "reviewed_calls (PostHooksRun j # evs) = reviewed_calls evs"
  "reviewed_calls (ToolFinished oc # evs) = reviewed_calls evs"
  "reviewed_calls (ActivityRecorded act # evs) = reviewed_calls evs"
  "reviewed_calls (ContextsRecorded cs # evs) = reviewed_calls evs"
  by (simp_all add: reviewed_calls_def List.map_filter_simps)

lemma reviewed_calls_tap [simp]:
  "reviewed_calls (ss_trace (tap_record s turn act)) = reviewed_calls (ss_trace s)"
  "reviewed_calls (ss_trace (record_additional_contexts c s)) = reviewed_calls (ss_trace s)"
  by (simp_all add: tap_record_trace record_additional_contexts_def)

lemma reviewed_calls_review:
  "reviewed_calls (ss_trace (snd (tap_review s turn (ToolCall n al c x)))) =
     reviewed_calls (ss_trace s) @ (if g_is_enabled (ss_guardian s) then [ToolCall n al c x] else [])"
  "reviewed_calls (ss_trace (snd (tap_review s turn (ToolOutput n c x y)))) = reviewed_calls (ss_trace s)"
  by (simp_all add: tap_review_trace review_events_def split: option.split)

lemma reviewed_calls_hooks [simp]:
  "reviewed_calls (ss_trace (emit_hook_completed turn evs s)) = reviewed_calls (ss_trace s)"
  unfolding emit_hook_completed_def by (induction evs arbitrary: s) simp_all

lemma reviewed_calls_stages [simp]:
  "reviewed_calls (ss_trace (snd (notify_tool_finish_if_unclaimed oc cs))) =
     reviewed_calls (ss_trace (snd cs))"
  "reviewed_calls (ss_trace (snd (snd (hook_stage hooks tool turn i cs)))) =
     reviewed_calls (ss_trace (snd cs))"
  "reviewed_calls (ss_trace (snd (snd (execute_stage render hooks tool turn n c i cs)))) =
     reviewed_calls (ss_trace (snd cs))"
  by (auto simp: notify_trace hook_stage_def apply_pre_dispatch_decision_def split_beta
      run_pre_tool_use_hooks_def run_post_tool_use_hooks_def Let_def execute_stage_def
      output_stage_def reviewed_calls_review
      split: option.split sum.split pre_tool_use_hook_result.split)

text \<open>A PreToolUse hook replaces the input after the guard has ruled on it: when the guard lets a
  call through and a hook updates its input, the updated call is the one executed, and the only
  tool call the guard was asked about is the one it replaced. A call the guard would deny runs.\<close>

theorem hook_update_runs_unreviewed:
  assumes "registry (inv_tool_name i) = Some tool" and "tr_matches_kind tool i"
    and "tr_pre_tool_use_payload tool i = Some (name, tool_input)"
    and "g_is_enabled (ss_guardian (snd cs))"
    and "ruling (snd cs) turn (call_action name i tool_input) \<in> {Allow, Defer}"
    and "\<not> po_should_block (th_pre_tool_use hooks (inv_call_id i) name tool_input)"
    and "po_updated_input (th_pre_tool_use hooks (inv_call_id i) name tool_input) = Some u"
    and "tr_with_updated_hook_input tool i u = Inr k"
  shows "executed (ss_trace (snd (snd (dispatch_any render hooks registry turn i cs)))) =
      executed (ss_trace (snd cs)) @ [k] \<and>
    reviewed_calls (ss_trace (snd (snd (dispatch_any render hooks registry turn i cs)))) =
      reviewed_calls (ss_trace (snd cs)) @ [call_action name i tool_input]"
proof -
  let ?cs = "(fst cs, count_tool_call (snd cs))"
  let ?cs1 = "(fst cs, snd (tap_review (count_tool_call (snd cs)) turn (call_action name i tool_input)))"
  have g: "guard_stage tool turn i ?cs = (Inr i, ?cs1)"
    using guard_stage_admits [of tool i name tool_input ?cs turn] assms by simp
  have h: "hook_stage hooks tool turn i ?cs1 = (Inr k, snd (hook_stage hooks tool turn i ?cs1))"
    using hook_stage_update [of tool i name tool_input hooks u k turn ?cs1] assms
    by (metis prod.collapse)
  show ?thesis
    using dispatch_admitted [where registry = registry and i = i and tool = tool, OF assms(1,2) g h] assms(4)
    by (simp add: reviewed_calls_review)
qed

text \<open>Witness: a guardian that denies exactly \<open>rm\<close>; the call asks for \<open>ls\<close> and a hook turns it into
  \<open>rm\<close>, which is executed without a review.\<close>

theorem hook_update_runs_unreviewed_witness:
  "executed (ss_trace (snd (snd (dispatch_any (\<lambda>_. []) (sample_hooks (Some (JString ''rm'')))
      (\<lambda>_. Some sample_tool) sample_turn (sample_call\<lparr>inv_payload := JString ''ls''\<rparr>)
      (None, sample_session (sample_guardian (\<lambda>a. Inr
        (if a = ToolCall ''Bash'' [] ''c1'' (JString ''rm'') then Deny ''no'' else Allow)))))))) =
    [sample_call\<lparr>inv_payload := JString ''rm''\<rparr>] \<and>
   reviewed_calls (ss_trace (snd (snd (dispatch_any (\<lambda>_. []) (sample_hooks (Some (JString ''rm'')))
      (\<lambda>_. Some sample_tool) sample_turn (sample_call\<lparr>inv_payload := JString ''ls''\<rparr>)
      (None, sample_session (sample_guardian (\<lambda>a. Inr
        (if a = ToolCall ''Bash'' [] ''c1'' (JString ''rm'') then Deny ''no'' else Allow)))))))) =
    [ToolCall ''Bash'' [] ''c1'' (JString ''ls'')]"
  using hook_update_runs_unreviewed [of "\<lambda>_. Some sample_tool"
      "sample_call\<lparr>inv_payload := JString ''ls''\<rparr>" sample_tool
      "\<lparr>hn_name = ''Bash'', hn_aliases = []\<rparr>" "JString ''ls''"
      "(None, sample_session (sample_guardian (\<lambda>a. Inr
        (if a = ToolCall ''Bash'' [] ''c1'' (JString ''rm'') then Deny ''no'' else Allow))))"
      sample_turn "sample_hooks (Some (JString ''rm''))" "JString ''rm''"
      "sample_call\<lparr>inv_payload := JString ''rm''\<rparr>" "\<lambda>_. []"]
  by simp

subsection \<open>Tool results\<close>

text \<open>C4. What the model gets of a call that ran, in every case. The tool's own error is handed on. A
  result that is no success or has no payload is shown as it is, unreviewed. Of any other result the
  guard decides first: denied, it is replaced by an error with the guard's reason, whatever the
  PostToolUse hooks answer. Otherwise a hook that blocks replaces it by its own error, and a hook's
  feedback replaces the text; where the hooks say nothing, a rewritten result carries the guard's text
  and one let through is unchanged. No replacement of the text touches the value code mode reads.\<close>

theorem tool_result_follows_the_ruling:
  "fst (execute_stage render hooks tool turn n c i cs) =
    (case handle_any_tool tool i of
       Inl err \<Rightarrow> Inl err
     | Inr r \<Rightarrow>
         if \<not> out_success (ar_result r) \<or> ar_post_tool_use_payload r = None then Inr r
         else
           (let p = the (ar_post_tool_use_payload r);
                v = fst (tap_review (emit (ToolExecuted i) (emit (ToolStarted i) (snd cs))) turn
                  (ToolOutput (hn_name (pp_tool_name p)) c (pp_tool_input p) (pp_tool_response p)));
                oc = th_post_tool_use hooks p;
                shown = (\<lambda>s. r\<lparr>ar_result := (ar_result r)\<lparr>out_model_text := s\<rparr>\<rparr>)
            in case v of
                 Deny reason \<Rightarrow> Inl (RespondToModel (''Tool result blocked by the guardian: '' @ reason))
               | _ \<Rightarrow>
                   if qo_should_block oc
                   then Inl (RespondToModel (case qo_feedback_message oc of
                          Some m \<Rightarrow> m | None \<Rightarrow> ''PostToolUse hook blocked the tool result''))
                   else Inr (case qo_feedback_message oc of
                          Some m \<Rightarrow> shown m
                        | None \<Rightarrow>
                            (case v of Rewrite payload _ \<Rightarrow> shown (payload_text render payload) | _ \<Rightarrow> r))))"
proof (cases "handle_any_tool tool i")
  case (Inl err)
  then show ?thesis by (simp add: execute_stage_eq after_execution_def Let_def split_beta final_result_def)
next
  case (Inr r)
  show ?thesis
  proof (cases "\<not> out_success (ar_result r) \<or> ar_post_tool_use_payload r = None")
    case True
    then show ?thesis by (simp add: Inr execute_stage_eq after_execution_unreviewed(1) [OF True])
  next
    case False
    then obtain p where p: "out_success (ar_result r)" "ar_post_tool_use_payload r = Some p" by auto
    then show ?thesis
      by (simp add: Inr execute_stage_eq after_execution_reviewed [OF p] final_result_def
          guard_output_decision_def feedback_output_def Let_def split: verdict.split option.split)
  qed
qed

text \<open>Two results as they come out: the guard denies and a hook would replace the text; the guard
  rewrites and the hooks say nothing.\<close>

theorem tool_result_follows_the_ruling_witness:
  "fst (execute_stage (\<lambda>_. []) ((sample_hooks None)\<lparr>th_post_tool_use := (\<lambda>p.
         \<lparr>qo_hook_events = [], qo_should_block = False, qo_feedback_message = Some ''fine'', qo_additional_contexts = []\<rparr>)\<rparr>)
       sample_tool sample_turn ''shell'' ''c1'' sample_call
       (None, sample_session (sample_guardian (\<lambda>_. Inr (Deny ''secret''))))) =
     Inl (RespondToModel ''Tool result blocked by the guardian: secret'') \<and>
   (\<exists>r. handle_any_tool sample_tool sample_call = Inr r \<and>
     fst (execute_stage (\<lambda>_. []) (sample_hooks None) sample_tool sample_turn ''shell'' ''c1'' sample_call
       (None, sample_session (sample_guardian (\<lambda>_. Inr (Rewrite (JString ''ok'') None))))) =
     Inr (r\<lparr>ar_result := (ar_result r)\<lparr>out_model_text := ''ok''\<rparr>\<rparr>) \<and>
     out_code_mode (ar_result r) = inv_payload sample_call)"
proof -
  obtain r where r: "handle_any_tool sample_tool sample_call = Inr r"
    "out_success (ar_result r)" "out_code_mode (ar_result r) = inv_payload sample_call"
    "ar_post_tool_use_payload r \<noteq> None"
    by (simp add: handle_any_tool_def sample_tool_def)
  have v: "fst (tap_review (emit (ToolExecuted i) (emit (ToolStarted i)
      (sample_session (sample_guardian (\<lambda>_. Inr d))))) sample_turn a) = d" for i a d
    by (simp add: ruling_def)
  show ?thesis
    using r unfolding tool_result_follows_the_ruling by (simp add: v payload_text_def Let_def)
qed

text \<open>A result that does not count as a success, or for which the tool gives no payload, reaches
  the model without a review: it is returned as it is, and the stage's events contain no question to
  the guard, only the record of the completed call.\<close>

theorem unsuccessful_result_unreviewed:
  assumes "handle_any_tool tool i = Inr r"
    and "\<not> out_success (ar_result r) \<or> ar_post_tool_use_payload r = None"
  shows "fst (execute_stage render hooks tool turn n c i cs) = Inr r \<and>
    ss_trace (snd (snd (execute_stage render hooks tool turn n c i cs))) =
      ss_trace (snd cs) @ [ToolStarted i, ToolExecuted i]
      @ (if g_is_enabled (ss_guardian (snd cs))
         then [ActivityRecorded (ToolCallCompleted n c (out_success (ar_result r)) JNull)] else [])
      @ (if fst cs = Some True then [] else [ToolFinished (OutcomeCompleted (out_success (ar_result r)))])"
  using assms by (simp add: execute_stage_eq after_execution_unreviewed)

text \<open>Witness: a tool whose output is a failure, under a guardian that denies everything.\<close>

theorem unsuccessful_result_unreviewed_witness:
  "fst (execute_stage (\<lambda>_. []) (sample_hooks None)
      (sample_tool\<lparr>tr_handle := \<lambda>_. Inr \<lparr>out_model_text = ''x'', out_code_mode = JNull, out_success = False\<rparr>,
         tr_post_tool_use_payload := \<lambda>_ _. None\<rparr>)
      sample_turn ''shell'' ''c1'' sample_call
      (None, sample_session (sample_guardian (\<lambda>_. Inr (Deny ''no''))))) =
   Inr \<lparr>ar_call_id = ''c1'',
        ar_result = \<lparr>out_model_text = ''x'', out_code_mode = JNull, out_success = False\<rparr>,
        ar_post_tool_use_payload = None\<rparr>"
proof -
  let ?t = "sample_tool\<lparr>tr_handle := \<lambda>_. Inr \<lparr>out_model_text = ''x'', out_code_mode = JNull, out_success = False\<rparr>,
         tr_post_tool_use_payload := \<lambda>_ _. None\<rparr>"
  let ?r = "\<lparr>ar_call_id = ''c1'',
        ar_result = \<lparr>out_model_text = ''x'', out_code_mode = JNull, out_success = False\<rparr>,
        ar_post_tool_use_payload = None\<rparr>"
  have "handle_any_tool ?t sample_call = Inr ?r" by (simp add: handle_any_tool_def)
  then show ?thesis
    using unsuccessful_result_unreviewed [of ?t sample_call ?r "\<lambda>_. []" "sample_hooks None" sample_turn
        "''shell''" "''c1''" "(None, sample_session (sample_guardian (\<lambda>_. Inr (Deny ''no''))))"]
    by simp
qed

subsection \<open>Approvals and containment\<close>

text \<open>C5. The guard comes first in an approval: Allow approves and Deny rejects with the guard's
  reason, and then no permission hook runs and neither reviewer decides, whatever they would have
  said; Defer and Rewrite leave the decision to the hooks, then to the reviewer.\<close>

theorem approval_precedence:
  assumes "g_is_enabled (ss_guardian s)"
  shows "fst (request_approval dbg dbg_source ll action ctx s) =
    (case ruling s (ax_turn ctx) (approval_guarded action ctx) of
       Allow \<Rightarrow> Inr Approved
     | Deny reason \<Rightarrow> Inl (Rejected reason)
     | _ \<Rightarrow>
         (case ll_hooks ll (permission_request_run_id action ctx) action of
            Some PermAllow \<Rightarrow> Inr Approved
          | Some (PermDeny message) \<Rightarrow> Inl (Rejected message)
          | None \<Rightarrow> approval_answer action ctx (request_reviewer_approval ll action ctx))) \<and>
    (PermissionHooksRun (permission_request_run_id action ctx)
        \<in> set (drop (length (ss_trace s)) (ss_trace (snd (request_approval dbg dbg_source ll action ctx s)))) \<longleftrightarrow>
     guard_resolution (ruling s (ax_turn ctx) (approval_guarded action ctx)) = None)"
  using assms
  by (simp add: request_approval_answer request_approval_def resolve_def guard_resolution_def Let_def
      split_beta tap_record_trace tap_review_trace review_events_def
      split: verdict.split option.split permission_decision.split)

text \<open>Witness: the guard denies what a permission hook and the user would approve.\<close>

theorem approval_precedence_witness:
  "fst (request_approval (\<lambda>_. []) (\<lambda>_. [])
      \<lparr>ll_hooks = \<lambda>_ _. Some PermAllow, ll_guardian = \<lambda>_. Approved, ll_user = \<lambda>_. Approved\<rparr>
      \<lparr>aa_kind = OtherAction, aa_tool_name = ''Bash'', aa_tool_input = JNull\<rparr>
      \<lparr>ax_turn = sample_turn, ax_call_id = ''c1'', ax_tool_name = ''shell'', ax_strict_auto_review = False,
       ax_retry_reason = None, ax_policy = OnRequest, ax_reviewer = ReviewerUser, ax_timeout_message = []\<rparr>
      (sample_session (sample_guardian (\<lambda>_. Inr (Deny ''no''))))) = Inl (Rejected ''no'')"
  using approval_precedence [of "sample_session (sample_guardian (\<lambda>_. Inr (Deny ''no'')))" "\<lambda>_. []" "\<lambda>_. []"
      "\<lparr>ll_hooks = \<lambda>_ _. Some PermAllow, ll_guardian = \<lambda>_. Approved, ll_user = \<lambda>_. Approved\<rparr>"
      "\<lparr>aa_kind = OtherAction, aa_tool_name = ''Bash'', aa_tool_input = JNull\<rparr>"
      "\<lparr>ax_turn = sample_turn, ax_call_id = ''c1'', ax_tool_name = ''shell'', ax_strict_auto_review = False,
       ax_retry_reason = None, ax_policy = OnRequest, ax_reviewer = ReviewerUser, ax_timeout_message = []\<rparr>"]
  by simp

text \<open>An active containment takes away a request for escalated permissions, whatever the tool
  asks for and whatever the containment is; without one, or with the guard off, the request stands,
  except that an attachment's network policy is never bypassed.\<close>

theorem containment_never_escalates:
  shows "requested_sandbox_permissions s turn tool_name owner asked =
    (let contained = g_is_enabled (ss_guardian s) \<and>
       g_sandbox_override (ss_guardian s)
         \<lparr>sc_thread_id = ss_thread_id s, sc_turn_id = tc_sub_id turn, sc_tool_name = tool_name,
          sc_agent_type = None\<rparr> \<noteq> None
     in if contained then Inr UseDefault
        else if owner \<and> asked = RequireEscalated
        then Inl (Rejected ''attachment-owned network policy cannot be bypassed by sandbox escalation'')
        else Inr asked)"
  by (auto simp: requested_sandbox_permissions_def contain_sandbox_permissions_def Let_def
      requires_escalated_permissions_def split: option.splits sandbox_profile_override.splits)

subsection \<open>What enters the context\<close>

lemma activity_context_stable [simp]:
  "activity_context (snd (tap_review s turn a)) turn' = activity_context s turn'"
  "activity_context (tap_record s turn act) turn' = activity_context s turn'"
  "activity_context (record_additional_contexts c s) turn' = activity_context s turn'"
  by (simp_all add: tap_review_def tap_record_def record_additional_contexts_def Let_def split_beta
      emit_def activity_context_def split: option.split)

lemma contexts_guardian [simp]:
  "ss_guardian (record_additional_contexts c s) = ss_guardian s"
  "ss_guardian (record_pending_input item c t) = ss_guardian t"
  "activity_context (record_pending_input item c t) turn = activity_context t turn"
  by (simp_all add: record_pending_input_def record_additional_contexts_def)

text \<open>The history an item leaves, given the rulings and the prompt hooks: a user's input is
  dropped when denied, replaced when rewritten, and dropped when a hook stops what is left.\<close>

fun admit_input ::
  "(json \<Rightarrow> string) \<Rightarrow> (string \<Rightarrow> hook_outcome) \<Rightarrow> (guarded_action \<Rightarrow> verdict) \<Rightarrow> turn_input \<Rightarrow> turn_input option" where
  "admit_input render hook rule (UserInput content cid) =
     (case (case rule (Prompt (user_message content)) of
              Deny _ \<Rightarrow> None
            | Rewrite payload _ \<Rightarrow> Some (rewrite_user_input render payload (UserInput content cid))
            | _ \<Rightarrow> Some (UserInput content cid)) of
        Some (UserInput content' cid') \<Rightarrow>
          if ho_should_stop (hook (user_message content')) then None else Some (UserInput content' cid')
      | _ \<Rightarrow> None)"
| "admit_input render hook rule item = Some item"

lemma intake_loop_exact:
  fixes s :: "('w, 'i) intake_session"
  assumes "g_is_enabled (ss_guardian s)"
    and "stable_verdict (ss_guardian s) (activity_context s turn) answer"
  shows "history (ss_trace (snd (intake_loop render hook turn blocked accepted items s))) =
    history (ss_trace s)
    @ List.map_filter (admit_input render hook (posture_verdict (ss_guardian s) \<circ> answer)) items"
  using assms
proof (induction items arbitrary: blocked accepted s)
  case (Cons item items)
  show ?case
  proof (cases item)
    case (UserInput content cid)
    let ?v = "posture_verdict (ss_guardian s) (answer (Prompt (user_message content)))"
    have v: "ruling s turn (Prompt (user_message content)) = ?v"
      using Cons.prems(2) by (simp add: ruling_def stable_verdict_def)
    show ?thesis
      using Cons.prems UserInput v
      by (cases ?v) (auto simp: split_beta Let_def Cons.IH List.map_filter_simps split: option.split)
  qed (use Cons in \<open>simp_all add: List.map_filter_simps Let_def\<close>)
qed (simp add: List.map_filter_simps)

text \<open>C6. What enters the conversation is what the guard and the hooks let through: with a guardian
  whose answers do not depend on when it is asked, the history of a turn's intake is exactly, in
  order, each item as the ruling leaves it: a denied prompt is not recorded, a rewritten one is
  recorded with the guard's text.\<close>

theorem intake_records_only_admitted:
  fixes s :: "('w, 'i) intake_session"
  assumes "g_is_enabled (ss_guardian s)"
    and "stable_verdict (ss_guardian s) (activity_context s turn) answer"
  shows "history (ss_trace (snd (run_hooks_and_record_inputs render hook turn items s))) =
    history (ss_trace s)
    @ List.map_filter (admit_input render hook (posture_verdict (ss_guardian s) \<circ> answer)) items"
  using intake_loop_exact [OF assms] by (simp add: run_hooks_and_record_inputs_def)

text \<open>Witness: of two prompts the first is denied; the second is recorded.\<close>

theorem intake_records_only_admitted_witness:
  "history (ss_trace (snd (run_hooks_and_record_inputs (\<lambda>_. [])
      (\<lambda>_. \<lparr>ho_should_stop = False, ho_additional_contexts = []\<rparr>) sample_turn
      [UserInput [TextPart ''leak'' []] None, UserInput [TextPart ''hi'' []] None]
      (sample_session (sample_guardian (\<lambda>a. Inr (if a = Prompt ''leak'' then Deny ''no'' else Defer))))))) =
   [UserInput [TextPart ''hi'' []] None]"
  using intake_records_only_admitted [of
      "sample_session (sample_guardian (\<lambda>a. Inr (if a = Prompt ''leak'' then Deny ''no'' else Defer)))"
      sample_turn "\<lambda>a. Inr (if a = Prompt ''leak'' then Deny ''no'' else Defer)" "\<lambda>_. []"
      "\<lambda>_. \<lparr>ho_should_stop = False, ho_additional_contexts = []\<rparr>"
      "[UserInput [TextPart ''leak'' []] None, UserInput [TextPart ''hi'' []] None]"]
  by (simp add: stable_verdict_def List.map_filter_simps user_message_def)

lemma cached_decision_hit [simp]:
  "cached_decision (Some \<lparr>gi_reviewed = block, gi_result = r\<rparr>) block = Some r"
  by (simp add: cached_decision_def)

text \<open>Requests for the instruction block over a session: before each one the session may have changed in
  any way (\<open>f\<close>) that leaves an enabled guard enabled and asks about no instruction block.\<close>

type_synonym ('w, 'i, 'h) instructions_request =
  "(('w, 'i, 'h) session \<Rightarrow> ('w, 'i, 'h) session) \<times> turn_context \<times> string option"

fun instructions_run ::
  "(json \<Rightarrow> string) \<Rightarrow> ('w, 'i, 'h) instructions_request list
     \<Rightarrow> guarded_instructions option \<times> ('w, 'i, 'h) session
     \<Rightarrow> string option list \<times> guarded_instructions option \<times> ('w, 'i, 'h) session" where
  "instructions_run render [] cs = ([], cs)"
| "instructions_run render ((f, turn, loaded) # reqs) cs =
     (case guard_instructions render turn loaded (fst cs, f (snd cs)) of
        (r, cs) \<Rightarrow> (case instructions_run render reqs cs of (rs, cs) \<Rightarrow> (r # rs, cs)))"

definition asked_blocks :: "('w, 'i, 'h) session \<Rightarrow> string list" where
  "asked_blocks s =
     concat (map (\<lambda>e. case e of GuardAsked (Instructions _ block) \<Rightarrow> [block] | _ \<Rightarrow> []) (ss_trace s))"

definition quiet_change :: "(('w, 'i, 'h) session \<Rightarrow> ('w, 'i, 'h) session) \<Rightarrow> bool" where
  "quiet_change f \<longleftrightarrow> (\<forall>s. asked_blocks (f s) = asked_blocks s
     \<and> (g_is_enabled (ss_guardian s) \<longrightarrow> g_is_enabled (ss_guardian (f s))))"

text \<open>The blocks of the requests that have something to review, in order.\<close>

definition blocks_of :: "('w, 'i, 'h) instructions_request list \<Rightarrow> string list" where
  "blocks_of reqs =
     filter (\<lambda>b. trim b \<noteq> []) (map (\<lambda>(_, _, loaded). case loaded of Some b \<Rightarrow> b | None \<Rightarrow> []) reqs)"

definition cached_block :: "guarded_instructions option \<Rightarrow> string list" where
  "cached_block cache = (case cache of Some gi \<Rightarrow> [gi_reviewed gi] | None \<Rightarrow> [])"

lemma blocks_of_simps [simp]:
  "blocks_of [] = []"
  "blocks_of ((f, turn, loaded) # reqs) =
     (let b = (case loaded of Some b \<Rightarrow> b | None \<Rightarrow> []) in if trim b = [] then [] else [b]) @ blocks_of reqs"
  "blocks_of (xs @ ys) = blocks_of xs @ blocks_of ys"
  by (simp_all add: blocks_of_def Let_def)

lemma asked_blocks_review:
  "g_is_enabled (ss_guardian s) \<Longrightarrow>
   asked_blocks (snd (tap_review s turn (Instructions n block))) = asked_blocks s @ [block]"
  by (auto simp: asked_blocks_def tap_review_trace review_events_def)

text \<open>One request: the guard is asked exactly when the block is not the last one it was asked about, and
  the cache then holds that block and the answer.\<close>

lemma instructions_request_blank:
  assumes "trim (case loaded of Some b \<Rightarrow> b | None \<Rightarrow> []) = []"
  shows "guard_instructions render turn loaded (cache, s) = (loaded, cache, s)"
  using assms by (simp add: guard_instructions_def Let_def)

lemma instructions_request_cached:
  assumes "g_is_enabled (ss_guardian s)" and "trim block \<noteq> []" and "cached_block cache = [block]"
  shows "guard_instructions render turn (Some block) (cache, s) = (gi_result (the cache), cache, s)"
  using assms
  by (auto simp: guard_instructions_def Let_def cached_decision_def cached_block_def split: option.splits)

lemma instructions_request_new:
  assumes "g_is_enabled (ss_guardian s)" and "trim block \<noteq> []" and "cached_block cache \<noteq> [block]"
  shows "guard_instructions render turn (Some block) (cache, s) =
    (let r = (case ruling s turn (Instructions ''agents_md'' block) of
        Deny _ \<Rightarrow> None
      | Rewrite payload _ \<Rightarrow> Some (payload_text render payload)
      | _ \<Rightarrow> Some block)
     in (r, Some \<lparr>gi_reviewed = block, gi_result = r\<rparr>,
         snd (tap_review s turn (Instructions ''agents_md'' block))))"
  using assms
  by (auto simp: guard_instructions_def Let_def split_beta cached_decision_def cached_block_def
      split: option.splits verdict.splits)

lemma instructions_run_append:
  "instructions_run render (xs @ ys) cs =
     (fst (instructions_run render xs cs) @ fst (instructions_run render ys (snd (instructions_run render xs cs))),
      snd (instructions_run render ys (snd (instructions_run render xs cs))))"
proof (induction xs arbitrary: cs)
  case (Cons req xs)
  then show ?case by (cases req) (simp add: split_beta)
qed simp

lemma instructions_run_length [simp]:
  "length (fst (instructions_run render reqs cs)) = length reqs"
proof (induction reqs arbitrary: cs)
  case (Cons req reqs)
  then show ?case by (cases req) (simp add: split_beta)
qed simp

lemma remdups_adj_snoc:
  "remdups_adj (xs @ [y]) = remdups_adj xs @ (if xs \<noteq> [] \<and> last xs = y then [] else [y])"
  using remdups_adj_append_two [of "butlast xs" "last xs" y] by (cases xs rule: rev_cases) auto

lemma guard_instructions_enabled:
  "g_is_enabled (ss_guardian s) \<Longrightarrow>
   g_is_enabled (ss_guardian (snd (snd (guard_instructions render turn loaded (cache, s)))))"
  using extends_tap_review [of s]
  by (auto simp: guard_instructions_def Let_def split_beta extends_def split: option.split)

text \<open>The guard is asked once for each run of requests for the same block, and the cache holds the last
  block it was asked about.\<close>

lemma instructions_run_asks:
  assumes "g_is_enabled (ss_guardian s)" and "\<forall>(f, _, _)\<in>set reqs. quiet_change f"
  shows "case instructions_run render reqs (None, s) of (rs, cache', s') \<Rightarrow>
    g_is_enabled (ss_guardian s') \<and> asked_blocks s' = asked_blocks s @ remdups_adj (blocks_of reqs) \<and>
    cached_block cache' = (if blocks_of reqs = [] then [] else [last (blocks_of reqs)])"
  using assms(2)
proof (induction reqs rule: rev_induct)
  case Nil
  then show ?case using assms(1) by (simp add: cached_block_def)
next
  case (snoc req reqs)
  obtain f turn loaded where req: "req = (f, turn, loaded)" by (cases req)
  obtain rs cache t where run: "instructions_run render reqs (None, s) = (rs, cache, t)" by (metis prod_cases3)
  have ih: "g_is_enabled (ss_guardian (f t))" "asked_blocks (f t) = asked_blocks s @ remdups_adj (blocks_of reqs)"
    "cached_block cache = (if blocks_of reqs = [] then [] else [last (blocks_of reqs)])"
    using snoc run by (auto simp: req quiet_change_def)
  let ?b = "case loaded of Some b \<Rightarrow> b | None \<Rightarrow> []"
  have step: "instructions_run render (reqs @ [(f, turn, loaded)]) (None, s) =
      (case guard_instructions render turn loaded (cache, f t) of (r, cs) \<Rightarrow> (rs @ [r], cs))"
    by (simp add: instructions_run_append run req split_beta)
  consider "trim ?b = []" | b where "loaded = Some b" "trim b \<noteq> []" "cached_block cache = [b]"
    | b where "loaded = Some b" "trim b \<noteq> []" "cached_block cache \<noteq> [b]"
    by (cases loaded) (auto simp: trim_def)
  then show ?case
  proof cases
    case 1
    then show ?thesis using ih by (simp add: step req instructions_request_blank [OF 1] Let_def)
  next
    case 2
    have "guard_instructions render turn loaded (cache, f t) = (gi_result (the cache), cache, f t)"
      unfolding 2(1) by (rule instructions_request_cached [OF ih(1) 2(2,3)])
    then show ?thesis
      unfolding req step using ih 2 by (auto simp: remdups_adj_snoc split: if_splits)
  next
    case 3
    obtain r where new: "guard_instructions render turn loaded (cache, f t) =
        (r, Some \<lparr>gi_reviewed = b, gi_result = r\<rparr>, snd (tap_review (f t) turn (Instructions ''agents_md'' b)))"
      unfolding 3(1) using instructions_request_new [OF ih(1) 3(2,3), of render turn] by (metis (no_types, lifting))
    have "g_is_enabled (ss_guardian (snd (tap_review (f t) turn (Instructions ''agents_md'' b))))"
      using guard_instructions_enabled [OF ih(1), of render turn loaded cache] by (simp add: new)
    then show ?thesis
      unfolding req step new using ih 3
      by (auto simp: asked_blocks_review remdups_adj_snoc cached_block_def split: if_splits)
  qed
qed

lemma instructions_run_stands:
  assumes "g_is_enabled (ss_guardian s)" and "\<forall>(f, _, _)\<in>set reqs. quiet_change f"
    and "cached_block cache = [block]" and "set (blocks_of reqs) \<subseteq> {block}"
  shows "\<exists>rs t. instructions_run render reqs (cache, s) = (rs, cache, t) \<and> g_is_enabled (ss_guardian t)"
  using assms(1,2,4)
proof (induction reqs arbitrary: s)
  case (Cons req reqs)
  obtain f turn loaded where req: "req = (f, turn, loaded)" by (cases req)
  have e: "g_is_enabled (ss_guardian (f s))" using Cons.prems by (simp add: req quiet_change_def)
  have "trim (case loaded of Some b \<Rightarrow> b | None \<Rightarrow> []) = [] \<or> loaded = Some block \<and> trim block \<noteq> []"
    using Cons.prems by (auto simp: req Let_def trim_def split: option.splits if_splits)
  then have "\<exists>r. guard_instructions render turn loaded (cache, f s) = (r, cache, f s)"
    using instructions_request_blank instructions_request_cached [OF e _ assms(3)] by blast
  moreover have "\<exists>rs t. instructions_run render reqs (cache, f s) = (rs, cache, t) \<and> g_is_enabled (ss_guardian t)"
    using Cons.IH [OF e] Cons.prems by (simp add: req)
  ultimately show ?case by (auto simp: req)
qed simp

text \<open>C7. The ruling on an instruction block is applied (a denied block is dropped, a rewritten one is
  the guard's text) and stands until the guard is asked about another block: over any sequence of
  requests, with the session changing in between in any way that leaves the guard enabled, a later
  request for the block gets the answer of the first, also when that came from an outage under the
  fail-closed posture and the guard is back. Over the whole sequence the guard is asked once for each
  run of requests for the same block, so a block that comes back after another one is reviewed again.
  Requests without a block, or with a blank one, are not reviewed and do not count.\<close>

theorem instructions_ruling_stands:
  fixes s :: "('w, 'i, 'h) session"
  assumes "g_is_enabled (ss_guardian s)" and "trim block \<noteq> []"
    and "reqs = before @ (f, turn, Some block) # between @ [(f', turn', Some block)]"
    and "\<forall>(f, _, _)\<in>set reqs. quiet_change f"
    and "blocks_of before = [] \<or> last (blocks_of before) \<noteq> block"
    and "set (blocks_of between) \<subseteq> {block}"
    and "instructions_run render reqs (None, s) = (answers, cache, s')"
  shows "(let now = f (snd (snd (instructions_run render before (None, s))))
     in answers ! length before = (case ruling now turn (Instructions ''agents_md'' block) of
            Deny _ \<Rightarrow> None
          | Rewrite payload _ \<Rightarrow> Some (payload_text render payload)
          | _ \<Rightarrow> Some block)) \<and>
    last answers = answers ! length before \<and>
    asked_blocks s' = asked_blocks s @ remdups_adj (blocks_of reqs)"
proof -
  obtain rs c0 t where run0: "instructions_run render before (None, s) = (rs, c0, t)" by (metis prod_cases3)
  have len: "length rs = length before" using instructions_run_length [of render before "(None, s)"] run0 by simp
  have t: "g_is_enabled (ss_guardian (f t))" "cached_block c0 \<noteq> [block]"
    using instructions_run_asks [OF assms(1), of before render] assms(3,4,5) run0
    by (auto simp: quiet_change_def split: if_splits)
  note ask = instructions_request_new [OF t(1) assms(2) t(2), of render turn]
  define r where "r = (case ruling (f t) turn (Instructions ''agents_md'' block) of
      Deny _ \<Rightarrow> None | Rewrite payload _ \<Rightarrow> Some (payload_text render payload) | _ \<Rightarrow> Some block)"
  let ?c = "Some \<lparr>gi_reviewed = block, gi_result = r\<rparr>"
  let ?u = "snd (tap_review (f t) turn (Instructions ''agents_md'' block))"
  have "g_is_enabled (ss_guardian ?u)" using t(1) extends_tap_review [of "f t"] by (simp add: extends_def)
  then obtain qs v where run1: "instructions_run render between (?c, ?u) = (qs, ?c, v)" "g_is_enabled (ss_guardian v)"
    using instructions_run_stands [of ?u between ?c block render] assms(3,4,6) by (auto simp: cached_block_def)
  have "g_is_enabled (ss_guardian (f' v))" using run1(2) assms(3,4) by (simp add: quiet_change_def)
  then have again: "guard_instructions render turn' (Some block) (?c, f' v) = (r, ?c, f' v)"
    using instructions_request_cached [of "f' v" block ?c render turn'] assms(2) by (simp add: cached_block_def)
  have "answers = rs @ r # qs @ [r]"
    using assms(7) ask again by (simp add: assms(3) instructions_run_append run0 run1(1) r_def [symmetric] Let_def)
  moreover have "asked_blocks s' = asked_blocks s @ remdups_adj (blocks_of reqs)"
    using instructions_run_asks [OF assms(1,4), of render] assms(7) by simp
  ultimately show ?thesis by (simp add: run0 len [symmetric] r_def Let_def)
qed

text \<open>Witness: the guard is down at the first load; the block stays dropped when it is back. After another
  block it is reviewed again.\<close>

theorem instructions_ruling_stands_witness:
  "\<exists>cache s'. instructions_run (\<lambda>_. []) [(\<lambda>s. s, sample_turn, Some ''be kind''),
       (\<lambda>s. s\<lparr>ss_guardian := sample_guardian (\<lambda>_. Inr Allow)\<rparr>, sample_turn, Some ''be kind'')]
       (None, sample_session (sample_guardian (\<lambda>_. Inl Timeout))) = ([None, None], cache, s') \<and>
     asked_blocks s' = [''be kind'']"
proof -
  let ?up = "\<lambda>s. s\<lparr>ss_guardian := sample_guardian (\<lambda>_. Inr Allow)\<rparr>"
  let ?reqs = "[] @ (\<lambda>s. s, sample_turn, Some ''be kind'') # [] @ [(?up, sample_turn, Some ''be kind'')]"
  let ?s = "sample_session (sample_guardian (\<lambda>_. Inl Timeout))"
  obtain answers cache s' where g: "instructions_run (\<lambda>_. []) ?reqs (None, ?s) = (answers, cache, s')"
    by (metis prod_cases3)
  have "length answers = 2" using instructions_run_length [of "\<lambda>_. []" ?reqs "(None, ?s)"] g by simp
  then obtain a b where ab: "answers = [a, b]" by (auto simp: length_Suc_conv numeral_2_eq_2)
  have "trim ''be kind'' \<noteq> []" by code_simp
  then show ?thesis
    using instructions_ruling_stands [OF _ _ refl _ _ _ g] g
    by (simp add: ab quiet_change_def asked_blocks_def posture_verdict_def Let_def)
qed

lemma denied_servers_filter:
  assumes "g_is_enabled (ss_guardian s)"
    and "stable_verdict (ss_guardian s) (session_context s) answer"
  shows "fst (admit_mcp_servers servers s) =
    filter (\<lambda>(n, _). \<nexists>reason. posture_verdict (ss_guardian s) (answer (McpAdmission n None)) = Deny reason)
      servers"
proof -
  have "fst (admit_mcp_servers servers s) =
    filter (\<lambda>(n, _). n \<notin> set (fst (denied_servers (map fst servers) s))) servers"
    by (auto simp: admit_mcp_servers_def split_beta intro: filter_True [symmetric])
  also have "\<dots> = filter (\<lambda>(n, _). \<nexists>reason.
      posture_verdict (ss_guardian s) (answer (McpAdmission n None)) = Deny reason) servers"
    unfolding denied_servers_stable [OF assms] by (intro filter_cong) force+
  finally show ?thesis .
qed

text \<open>The MCP servers of a session are exactly the configured ones the guard does not deny, in
  the configured order: a server is removed when its review is a denial or an error under the
  fail-closed posture.\<close>

theorem mcp_admission_exact:
  assumes "g_is_enabled (ss_guardian s)"
    and "stable_verdict (ss_guardian s) (session_context s) answer"
  shows "fst (admit_mcp_servers servers s) =
    filter (\<lambda>(n, _). case answer (McpAdmission n None) of
        Inr v \<Rightarrow> (case v of Deny _ \<Rightarrow> False | _ \<Rightarrow> True)
      | Inl _ \<Rightarrow> g_failure_posture (ss_guardian s) = FailOpen) servers"
  unfolding denied_servers_filter [OF assms]
  by (intro filter_cong)
    (auto simp: posture_verdict_def on_error_Deny_iff split: sum.splits verdict.splits
      intro: failure_posture.exhaust)

text \<open>Witness: of two servers one cannot be reviewed.\<close>

theorem mcp_admission_exact_witness:
  "fst (admit_mcp_servers [(''a'', True), (''b'', False)] (sample_session (sample_guardian (\<lambda>x.
      if x = McpAdmission ''a'' None then Inl Timeout else Inr Defer)))) = [(''b'', False)]"
  using mcp_admission_exact [of "sample_session (sample_guardian (\<lambda>x.
      if x = McpAdmission ''a'' None then Inl Timeout else Inr Defer))"
      "\<lambda>x. if x = McpAdmission ''a'' None then Inl Timeout else Inr Defer"
      "[(''a'', True), (''b'', False)]"]
  by (simp add: stable_verdict_def)

subsection \<open>Outages\<close>

text \<open>A guard that cannot answer and is configured to fail closed.\<close>

definition outage :: "'w guardian \<Rightarrow> bool" where
  "outage g \<longleftrightarrow> g_is_enabled g \<and> g_failure_posture g = FailClosed
     \<and> (\<forall>ctx a w. \<exists>e. fst (g_review g ctx a w) = Inl e)"

lemma outage_denies:
  "outage (ss_guardian s) \<Longrightarrow> \<exists>reason. ruling s turn a = Deny reason"
  "outage (ss_guardian s) \<Longrightarrow> \<exists>reason. fst (tap_review s turn a) = Deny reason"
  "outage (ss_guardian s) \<Longrightarrow> \<exists>reason. fst (tap_review_session s a) = Deny reason"
  by (simp_all add: outage_def ruling_def tap_review_verdict tap_review_session_verdict)
    (metis posture_verdict_Deny_error)+

lemma outage_denied_servers:
  "outage (ss_guardian s) \<Longrightarrow> fst (denied_servers names s) = names"
proof (induction names arbitrary: s)
  case (Cons n names)
  moreover obtain reason where "fst (tap_review_session s (McpAdmission n None)) = Deny reason"
    using outage_denies(3) [OF Cons.prems] by blast
  ultimately show ?case by (simp add: split_beta Let_def)
qed simp

lemma outage_intake:
  fixes s :: "('w, 'i) intake_session"
  assumes "outage (ss_guardian s)" and "\<forall>item\<in>set items. \<exists>content cid. item = UserInput content cid"
  shows "history (ss_trace (snd (intake_loop render hook turn blocked accepted items s))) =
    history (ss_trace s)"
  using assms
proof (induction items arbitrary: blocked accepted s)
  case (Cons item items)
  then obtain content cid where "item = UserInput content cid" by auto
  moreover obtain reason where "fst (tap_review s turn (Prompt (user_message content))) = Deny reason"
    using outage_denies(2) [OF Cons.prems(1)] by blast
  ultimately show ?case using Cons by (simp add: split_beta)
qed simp

text \<open>C8. A guard that cannot answer, under the fail-closed posture, stops every gate: no call of a tool
  with a guard payload executes, no approval is granted, no user prompt enters the history, an
  instruction block not ruled on before is dropped and no MCP server is admitted.\<close>

theorem outage_fails_closed:
  fixes s :: "('w, invocation, turn_input) session"
  assumes "outage (ss_guardian s)"
    and "registry (inv_tool_name i) = Some tool" and "tr_matches_kind tool i"
    and "tr_pre_tool_use_payload tool i \<noteq> None"
    and "\<forall>item\<in>set items. \<exists>content cid. item = UserInput content cid"
    and "trim block \<noteq> []" and "cached_decision cache block = None"
  shows "executed (ss_trace (snd (snd (dispatch_any render hooks registry turn i (claimed, s))))) =
      executed (ss_trace s) \<and>
    (\<exists>reason. fst (request_approval dbg dbg_source ll action ctx s) = Inl (Rejected reason)) \<and>
    history (ss_trace (snd (run_hooks_and_record_inputs render hook turn items s))) =
      history (ss_trace s) \<and>
    fst (guard_instructions render turn (Some block) (cache, s)) = None \<and>
    fst (admit_mcp_servers servers s) = []"
proof (intro conjI)
  obtain name x where p: "tr_pre_tool_use_payload tool i = Some (name, x)" using assms(4) by auto
  obtain reason where "ruling s turn (call_action name i x) = Deny reason"
    using outage_denies(1) [OF assms(1)] by blast
  then show "executed (ss_trace (snd (snd (dispatch_any render hooks registry turn i (claimed, s))))) =
      executed (ss_trace s)"
    using dispatch_denied [of registry i tool name x "(claimed, s)" turn reason render hooks] assms(1-3) p
    by (simp add: outage_def)
  obtain r2 where "fst (tap_review s (ax_turn ctx) (approval_guarded action ctx)) = Deny r2"
    using outage_denies(2) [OF assms(1)] by blast
  then show "\<exists>reason. fst (request_approval dbg dbg_source ll action ctx s) = Inl (Rejected reason)"
    by (simp add: request_approval_answer resolve_def guard_resolution_def)
  show "history (ss_trace (snd (run_hooks_and_record_inputs render hook turn items s))) =
      history (ss_trace s)"
    by (simp add: run_hooks_and_record_inputs_def outage_intake assms)
  obtain r3 where "fst (tap_review s turn (Instructions ''agents_md'' block)) = Deny r3"
    using outage_denies(2) [OF assms(1)] by blast
  then show "fst (guard_instructions render turn (Some block) (cache, s)) = None"
    using assms by (simp add: guard_instructions_def Let_def split_beta outage_def)
  show "fst (admit_mcp_servers servers s) = []"
    using outage_denied_servers [OF assms(1), of "map fst servers"]
    by (auto simp: admit_mcp_servers_def split_beta Let_def filter_empty_conv rev_image_eqI)
qed

text \<open>Witness: every review times out.\<close>

theorem outage_fails_closed_witness:
  "executed (ss_trace (snd (snd (dispatch_any (\<lambda>_. []) (sample_hooks None) (\<lambda>_. Some sample_tool)
       sample_turn sample_call (None, sample_session (sample_guardian (\<lambda>_. Inl Timeout))))))) = [] \<and>
   history (ss_trace (snd (run_hooks_and_record_inputs (\<lambda>_. [])
       (\<lambda>_. \<lparr>ho_should_stop = False, ho_additional_contexts = []\<rparr>) sample_turn
       [UserInput [TextPart ''hi'' []] None] (sample_session (sample_guardian (\<lambda>_. Inl Timeout)))))) = [] \<and>
   fst (admit_mcp_servers [(''a'', True)] (sample_session (sample_guardian (\<lambda>_. Inl Timeout)))) = []"
proof -
  let ?s = "sample_session (sample_guardian (\<lambda>_. Inl Timeout))"
  have "trim ''be kind'' \<noteq> []" by code_simp
  moreover have "outage (ss_guardian ?s)" by (simp add: outage_def)
  ultimately show ?thesis
    using outage_fails_closed [of ?s "\<lambda>_. Some sample_tool" sample_call sample_tool
        "[UserInput [TextPart ''hi'' []] None]" "''be kind''" None "\<lambda>_. []" "sample_hooks None"
        sample_turn None "\<lambda>_. []" "\<lambda>_. []" _ _ _ "\<lambda>_. \<lparr>ho_should_stop = False, ho_additional_contexts = []\<rparr>"
        "[(''a'', True)]"]
    by (simp add: cached_decision_def)
qed

end
