(* ===== verification/Activity_Rows.thy ===== *)
theory Activity_Rows
  imports Guard_Events
begin

text \<open>
  The rows of the per-session history, from \<open>guardian/src/row.rs\<close>: how a decision or an activity
  becomes a row, how a row becomes one RFC 4180 record, and how the \<open>detail\<close> column is cut. The
  third-party serializers are the fields of \<open>codecs\<close>: \<open>serde_json::to_string\<close> of an action or an
  activity (\<open>Inl\<close> carries the error's text) and chrono's \<open>to_rfc3339\<close>. \<open>csv_decode\<close> is an RFC 4180
  reader, the reference the writer is proved against.
\<close>

record codecs =
  to_rfc3339 :: "int \<Rightarrow> string"
  ser_action :: "guarded_action \<Rightarrow> string + string"
  ser_activity :: "activity \<Rightarrow> string + string"

record activity_row =
  row_ts :: string
  row_turn_id :: string
  row_kind :: string
  row_phase :: string
  row_tool :: string
  row_call_id :: string
  row_decision :: string
  row_reason :: string
  row_tokens_in :: string
  row_tokens_out :: string
  row_tokens_total :: string
  row_context_used :: string
  row_context_limit :: string
  row_detail :: string

abbreviation dquote :: char where "dquote \<equiv> CHR 0x22"
abbreviation newline :: char where "newline \<equiv> CHR 0x0A"
abbreviation carriage :: char where "carriage \<equiv> CHR 0x0D"

definition MAX_DETAIL_BYTES :: nat where
  "MAX_DETAIL_BYTES = 4096"

definition truncation_marker :: string where
  "truncation_marker = [CHR 0xE2, CHR 0x80, CHR 0xA6] @ ''[truncated]''"

fun cut_to_boundary :: "string \<Rightarrow> nat \<Rightarrow> nat" where
  "cut_to_boundary s 0 = 0"
| "cut_to_boundary s (Suc n) = (if is_char_boundary s (Suc n) then Suc n else cut_to_boundary s n)"

definition replace_char :: "char \<Rightarrow> string \<Rightarrow> string \<Rightarrow> string" where
  "replace_char c r s = concat (map (\<lambda>x. if x = c then r else [x]) s)"

definition detail_json :: "string + string \<Rightarrow> string" where
  "detail_json serialized =
     (let detail =
        (case serialized of
           Inr text \<Rightarrow> text
         | Inl err \<Rightarrow>
             ''{'' @ [dquote] @ ''guardian_serialize_error'' @ [dquote] @ '':'' @ [dquote]
               @ replace_char dquote [CHR 0x27] err @ [dquote] @ ''}'')
      in if MAX_DETAIL_BYTES < length detail
         then take (cut_to_boundary detail MAX_DETAIL_BYTES) detail @ truncation_marker
         else detail)"

definition row_base :: "codecs \<Rightarrow> activity_context \<Rightarrow> activity_row" where
  "row_base cod ctx =
     \<lparr>row_ts = to_rfc3339 cod (ctx_timestamp ctx), row_turn_id = ctx_turn_id ctx,
      row_kind = [], row_phase = [], row_tool = [], row_call_id = [], row_decision = [],
      row_reason = [], row_tokens_in = [], row_tokens_out = [], row_tokens_total = [],
      row_context_used = [], row_context_limit = [], row_detail = []\<rparr>"

definition unwrap_or_default :: "string option \<Rightarrow> string" where
  "unwrap_or_default o' = (case o' of Some s \<Rightarrow> s | None \<Rightarrow> [])"

definition for_action ::
  "codecs \<Rightarrow> activity_context \<Rightarrow> guarded_action \<Rightarrow> verdict \<Rightarrow> activity_row" where
  "for_action cod ctx action verdict =
     (row_base cod ctx)
       \<lparr>row_kind := action_kind action,
        row_phase := ''gate'',
        row_tool := unwrap_or_default (action_tool action),
        row_call_id := unwrap_or_default (action_call_id action),
        row_decision := verdict_label verdict,
        row_reason := unwrap_or_default (verdict_reason verdict),
        row_detail := detail_json (ser_action cod action)\<rparr>"

definition for_activity ::
  "codecs \<Rightarrow> activity_context \<Rightarrow> activity \<Rightarrow> activity_row" where
  "for_activity cod ctx activity =
     (let row = (row_base cod ctx)
        \<lparr>row_kind := activity_kind activity,
         row_phase := ''tap'',
         row_tool := unwrap_or_default (activity_tool activity),
         row_call_id := unwrap_or_default (activity_call_id activity),
         row_detail := detail_json (ser_activity cod activity)\<rparr>
      in case activity of
           TokenUsage input_tokens _ output_tokens _ total_tokens \<Rightarrow>
             row\<lparr>row_tokens_in := int_to_string input_tokens,
                 row_tokens_out := int_to_string output_tokens,
                 row_tokens_total := int_to_string total_tokens\<rparr>
         | ContextWindow active_context_tokens full_context_window_limit _ _ \<Rightarrow>
             row\<lparr>row_context_used := int_to_string active_context_tokens,
                 row_context_limit :=
                   unwrap_or_default (map_option int_to_string full_context_window_limit)\<rparr>
         | ToolCallCompleted _ _ success _ \<Rightarrow>
             row\<lparr>row_decision := (if success then ''success'' else ''failure'')\<rparr>
         | ApprovalResolved _ _ decision source \<Rightarrow>
             row\<lparr>row_decision := decision, row_reason := source\<rparr>
         | Compacted phase _ \<Rightarrow>
             row\<lparr>row_phase := ''compact_'' @ compaction_phase_label phase\<rparr>
         | HookCompleted _ _ status _ \<Rightarrow> row\<lparr>row_decision := status\<rparr>
         | _ \<Rightarrow> row)"

definition csv_special :: "char \<Rightarrow> bool" where
  "csv_special c \<longleftrightarrow> c = CHR '','' \<or> c = dquote \<or> c = newline \<or> c = carriage"

definition escape_csv_field :: "string \<Rightarrow> string" where
  "escape_csv_field field =
     (if list_ex csv_special field
      then [dquote] @ replace_char dquote [dquote, dquote] field @ [dquote]
      else field)"

definition csv_fields :: "activity_row \<Rightarrow> string list" where
  "csv_fields row =
     [row_ts row, row_turn_id row, row_kind row, row_phase row, row_tool row, row_call_id row,
      row_decision row, row_reason row, row_tokens_in row, row_tokens_out row,
      row_tokens_total row, row_context_used row, row_context_limit row, row_detail row]"

fun push_fields :: "bool \<Rightarrow> string list \<Rightarrow> string" where
  "push_fields first [] = []"
| "push_fields first (f # fs) =
     (if first then [] else '','') @ escape_csv_field f @ push_fields False fs"

definition to_csv_line :: "activity_row \<Rightarrow> string" where
  "to_csv_line row = push_fields True (csv_fields row) @ [newline]"

subsection \<open>An RFC 4180 reader\<close>

datatype csv_state = FieldStart | InPlain | InQuoted | AfterQuote

fun csv_dec :: "csv_state \<Rightarrow> string \<Rightarrow> string list \<Rightarrow> string \<Rightarrow> string list list option" where
  "csv_dec st cur fs [] =
     (if st = FieldStart \<and> fs = [] then Some [] else None)"
| "csv_dec InQuoted cur fs (c # cs) =
     (if c = dquote then csv_dec AfterQuote cur fs cs else csv_dec InQuoted (cur @ [c]) fs cs)"
| "csv_dec AfterQuote cur fs (c # cs) =
     (if c = dquote then csv_dec InQuoted (cur @ [c]) fs cs
      else if c = CHR '','' then csv_dec FieldStart [] (fs @ [cur]) cs
      else if c = newline then map_option ((#) (fs @ [cur])) (csv_dec FieldStart [] [] cs)
      else None)"
| "csv_dec InPlain cur fs (c # cs) =
     (if c = dquote then None
      else if c = CHR '','' then csv_dec FieldStart [] (fs @ [cur]) cs
      else if c = newline then map_option ((#) (fs @ [cur])) (csv_dec FieldStart [] [] cs)
      else csv_dec InPlain (cur @ [c]) fs cs)"
| "csv_dec FieldStart cur fs (c # cs) =
     (if c = dquote then csv_dec InQuoted [] fs cs
      else if c = CHR '','' then csv_dec FieldStart [] (fs @ [[]]) cs
      else if c = newline then map_option ((#) (fs @ [[]])) (csv_dec FieldStart [] [] cs)
      else csv_dec InPlain [c] fs cs)"

definition csv_decode :: "string \<Rightarrow> string list list option" where
  "csv_decode text = csv_dec FieldStart [] [] text"

lemma csv_dec_plain:
  "\<not> list_ex csv_special f \<Longrightarrow> csv_dec InPlain cur fs (f @ cs) = csv_dec InPlain (cur @ f) fs cs"
  by (induction f arbitrary: cur) (auto simp: csv_special_def)

lemma csv_dec_quoted:
  "csv_dec InQuoted cur fs (replace_char dquote [dquote, dquote] f @ dquote # cs)
     = csv_dec AfterQuote (cur @ f) fs cs"
  by (induction f arbitrary: cur) (auto simp: replace_char_def)

text \<open>What the reader does with a written field up to the separator that ends it.\<close>

lemma csv_dec_field_comma:
  "csv_dec FieldStart [] fs (escape_csv_field f @ CHR '','' # cs)
     = csv_dec FieldStart [] (fs @ [f]) cs"
proof (cases "list_ex csv_special f")
  case True
  then show ?thesis using csv_dec_quoted [of "[]" fs f "CHR '','' # cs"]
    by (simp add: escape_csv_field_def)
next
  case False
  then show ?thesis
    by (cases f) (auto simp: escape_csv_field_def csv_dec_plain csv_special_def)
qed

lemma csv_dec_field_newline:
  "csv_dec FieldStart [] fs (escape_csv_field f @ newline # cs)
     = map_option ((#) (fs @ [f])) (csv_dec FieldStart [] [] cs)"
proof (cases "list_ex csv_special f")
  case True
  then show ?thesis using csv_dec_quoted [of "[]" fs f "newline # cs"]
    by (simp add: escape_csv_field_def)
next
  case False
  then show ?thesis
    by (cases f) (auto simp: escape_csv_field_def csv_dec_plain csv_special_def)
qed

lemma csv_dec_push_fields:
  "csv_dec FieldStart [] fs (escape_csv_field f @ push_fields False gs @ newline # cs)
     = map_option ((#) (fs @ f # gs)) (csv_dec FieldStart [] [] cs)"
proof (induction gs arbitrary: fs f)
  case Nil
  then show ?case by (simp add: csv_dec_field_newline)
next
  case (Cons g gs)
  have "csv_dec FieldStart [] fs (escape_csv_field f @ push_fields False (g # gs) @ newline # cs)
      = csv_dec FieldStart [] fs
          (escape_csv_field f @ CHR '','' # (escape_csv_field g @ push_fields False gs @ newline # cs))"
    by simp
  also have "\<dots> = csv_dec FieldStart [] (fs @ [f])
      (escape_csv_field g @ push_fields False gs @ newline # cs)"
    by (rule csv_dec_field_comma)
  also have "\<dots> = map_option ((#) (fs @ f # g # gs)) (csv_dec FieldStart [] [] cs)"
    by (subst Cons.IH) simp
  finally show ?case .
qed

lemma csv_decode_line:
  "csv_decode (to_csv_line row @ rest) = map_option ((#) (csv_fields row)) (csv_decode rest)"
  using csv_dec_push_fields [of "[]" "row_ts row" "tl (csv_fields row)" rest]
  by (simp add: csv_decode_def to_csv_line_def csv_fields_def del: csv_dec.simps)

lemma csv_decode_Nil [simp]: "csv_decode [] = Some []"
  by (simp add: csv_decode_def)

lemma csv_decode_lines:
  "csv_decode (concat (map to_csv_line rows) @ rest)
     = map_option ((@) (map csv_fields rows)) (csv_decode rest)"
  by (induction rows) (simp_all add: csv_decode_line option.map_comp comp_def option.map_ident)

lemma csv_fields_inject: "csv_fields r = csv_fields s \<Longrightarrow> r = (s :: activity_row)"
  by (cases r; cases s) (simp add: csv_fields_def)

subsection \<open>The detail column\<close>

lemma cut_to_boundary_le: "cut_to_boundary s n \<le> n"
  by (induction n) (simp_all add: le_SucI)

lemma cut_to_boundary_boundary: "is_char_boundary s (cut_to_boundary s n)"
  by (induction n) (simp_all add: is_char_boundary_def)

lemma cut_to_boundary_maximal:
  "cut_to_boundary s n < m \<Longrightarrow> m \<le> n \<Longrightarrow> \<not> is_char_boundary s m"
  by (induction n) (auto simp: le_Suc_eq split: if_splits)

lemma detail_json_short: "length text \<le> MAX_DETAIL_BYTES \<Longrightarrow> detail_json (Inr text) = text"
  by (simp add: detail_json_def)

lemma detail_json_length: "length (detail_json r) \<le> MAX_DETAIL_BYTES + length truncation_marker"
  by (auto simp: detail_json_def Let_def cut_to_boundary_le
        intro: order_trans [OF min.cobounded2 cut_to_boundary_le])

end
