(* ===== verification/Files.thy ===== *)
theory Files
  imports Prelude
begin

text \<open>
  The file operations the guard's writers use (\<open>tokio::fs\<close>, a wrapper of \<open>std::fs\<close>): contents by
  path, a counter of the operations made so far and a schedule of faults. The n-th operation fails
  when \<open>fs_fault n\<close> is \<open>Some k\<close>, a write then having appended its first \<open>k\<close> bytes; no schedule is
  excluded, so a theorem without a hypothesis on \<open>fs_fault\<close> holds under any I/O failure.
\<close>

datatype io_error = IoError string

record fs =
  fs_files :: "path \<rightharpoonup> string"
  fs_ops :: nat
  fs_fault :: "nat \<Rightarrow> nat option"

definition io_fault :: io_error where
  "io_fault = IoError ''input/output error''"

definition io_not_found :: io_error where
  "io_not_found = IoError ''entity not found''"

definition fs_tick :: "fs \<Rightarrow> fs" where
  "fs_tick f = f\<lparr>fs_ops := Suc (fs_ops f)\<rparr>"

text \<open>An operation without an effect on contents: making a directory, setting permissions,
  flushing.\<close>

definition fs_touch :: "fs \<Rightarrow> (io_error + unit) \<times> fs" where
  "fs_touch f =
     (case fs_fault f (fs_ops f) of
        Some _ \<Rightarrow> (Inl io_fault, fs_tick f)
      | None \<Rightarrow> (Inr (), fs_tick f))"

definition fs_metadata_len :: "path \<Rightarrow> fs \<Rightarrow> (io_error + nat) \<times> fs" where
  "fs_metadata_len p f =
     (case fs_fault f (fs_ops f) of
        Some _ \<Rightarrow> (Inl io_fault, fs_tick f)
      | None \<Rightarrow>
          (case fs_files f p of
             None \<Rightarrow> (Inl io_not_found, fs_tick f)
           | Some c \<Rightarrow> (Inr (length c), fs_tick f)))"

definition contents :: "fs \<Rightarrow> path \<Rightarrow> string" where
  "contents f p = (case fs_files f p of Some c \<Rightarrow> c | None \<Rightarrow> [])"

definition fs_open_append :: "path \<Rightarrow> fs \<Rightarrow> (io_error + unit) \<times> fs" where
  "fs_open_append p f =
     (case fs_fault f (fs_ops f) of
        Some _ \<Rightarrow> (Inl io_fault, fs_tick f)
      | None \<Rightarrow> (Inr (), (fs_tick f)\<lparr>fs_files := (fs_files f)(p \<mapsto> contents f p)\<rparr>))"

definition fs_open_truncate :: "path \<Rightarrow> fs \<Rightarrow> (io_error + unit) \<times> fs" where
  "fs_open_truncate p f =
     (case fs_fault f (fs_ops f) of
        Some _ \<Rightarrow> (Inl io_fault, fs_tick f)
      | None \<Rightarrow> (Inr (), (fs_tick f)\<lparr>fs_files := (fs_files f)(p \<mapsto> [])\<rparr>))"

definition fs_write_all :: "path \<Rightarrow> string \<Rightarrow> fs \<Rightarrow> (io_error + unit) \<times> fs" where
  "fs_write_all p bytes f =
     (case fs_fault f (fs_ops f) of
        Some k \<Rightarrow>
          (Inl io_fault, (fs_tick f)\<lparr>fs_files := (fs_files f)(p \<mapsto> contents f p @ take k bytes)\<rparr>)
      | None \<Rightarrow> (Inr (), (fs_tick f)\<lparr>fs_files := (fs_files f)(p \<mapsto> contents f p @ bytes)\<rparr>))"

definition fs_rename :: "path \<Rightarrow> path \<Rightarrow> fs \<Rightarrow> (io_error + unit) \<times> fs" where
  "fs_rename p q f =
     (case fs_fault f (fs_ops f) of
        Some _ \<Rightarrow> (Inl io_fault, fs_tick f)
      | None \<Rightarrow>
          (case fs_files f p of
             None \<Rightarrow> (Inl io_not_found, fs_tick f)
           | Some c \<Rightarrow> (Inr (), (fs_tick f)\<lparr>fs_files := (fs_files f)(p := None, q \<mapsto> c)\<rparr>)))"

text \<open>Sequencing with the question-mark operator: the first failure ends the sequence.\<close>

definition io_then ::
  "(fs \<Rightarrow> (io_error + 'a) \<times> fs) \<Rightarrow> ('a \<Rightarrow> fs \<Rightarrow> (io_error + 'b) \<times> fs) \<Rightarrow> fs
     \<Rightarrow> (io_error + 'b) \<times> fs" where
  "io_then m k f = (case m f of (Inl e, f') \<Rightarrow> (Inl e, f') | (Inr x, f') \<Rightarrow> k x f')"

subsection \<open>Paths\<close>

definition path_join :: "path \<Rightarrow> path \<Rightarrow> path" where
  "path_join dir name =
     (if starts_with name ''/'' then name
      else if dir = [] then name
      else if ends_with dir ''/'' then dir @ name
      else dir @ ''/'' @ name)"

definition path_file_name :: "path \<Rightarrow> string" where
  "path_file_name p = rev (takeWhile (\<lambda>c. c \<noteq> CHR ''/'') (rev p))"

definition path_dir_prefix :: "path \<Rightarrow> string" where
  "path_dir_prefix p = rev (dropWhile (\<lambda>c. c \<noteq> CHR ''/'') (rev p))"

definition file_stem :: "string \<Rightarrow> string" where
  "file_stem name =
     (let before = rev (tl (dropWhile (\<lambda>c. c \<noteq> CHR ''.'') (rev name)))
      in if CHR ''.'' \<in> set name \<and> before \<noteq> [] then before else name)"

definition with_extension :: "path \<Rightarrow> string \<Rightarrow> path" where
  "with_extension p ext =
     (let name = path_file_name p
      in if name = [] \<or> name = ''..'' then p
         else path_dir_prefix p @ file_stem name @ ''.'' @ ext)"

lemma dir_prefix_file_name: "path_dir_prefix p @ path_file_name p = p"
  by (metis path_dir_prefix_def path_file_name_def rev_append rev_rev_ident takeWhile_dropWhile_id)

lemma path_join_relative:
  "\<not> starts_with name ''/'' \<Longrightarrow>
     path_join dir name =
       (if dir = [] then [] else if ends_with dir ''/'' then dir else dir @ ''/'') @ name"
  by (simp add: path_join_def)

lemma path_join_inject:
  "\<not> starts_with a ''/'' \<Longrightarrow> \<not> starts_with b ''/'' \<Longrightarrow> path_join d a = path_join d b \<longleftrightarrow> a = b"
  by (simp add: path_join_relative)

lemma takeWhile_no_slash: "CHR ''/'' \<notin> set s \<Longrightarrow> takeWhile (\<lambda>c. c \<noteq> CHR ''/'') s = s"
  by (induction s) auto

lemma file_name_append: "CHR ''/'' \<notin> set name \<Longrightarrow> path_file_name (d @ CHR ''/'' # name) = name"
proof -
  assume "CHR ''/'' \<notin> set name"
  then have "takeWhile (\<lambda>c. c \<noteq> CHR ''/'') (rev name @ CHR ''/'' # rev d) = rev name"
    by (simp add: takeWhile_append1 takeWhile_no_slash takeWhile_append)
  then show ?thesis by (simp add: path_file_name_def)
qed

lemma file_name_plain: "CHR ''/'' \<notin> set name \<Longrightarrow> path_file_name name = name"
  by (simp add: path_file_name_def takeWhile_no_slash)

lemma file_name_join:
  assumes "CHR ''/'' \<notin> set name" and "name \<noteq> []"
  shows "path_file_name (path_join d name) = name"
proof -
  have "\<not> starts_with name ''/''" using assms by (cases name) (auto simp: starts_with_def)
  moreover have "ends_with d ''/'' \<Longrightarrow> \<exists>t. d @ name = t @ CHR ''/'' # name"
    by (auto simp: ends_with_iff)
  ultimately show ?thesis
    using assms by (auto simp: path_join_def file_name_append file_name_plain)
qed

subsection \<open>Runs without faults\<close>

definition fault_free :: "fs \<Rightarrow> bool" where
  "fault_free f \<longleftrightarrow> (\<forall>n. fs_fault f n = None)"

lemma fs_ops_fault_free:
  assumes "fault_free f"
  shows "fs_touch f = (Inr (), fs_tick f)"
    and "fs_open_append p f = (Inr (), (fs_tick f)\<lparr>fs_files := (fs_files f)(p \<mapsto> contents f p)\<rparr>)"
    and "fs_open_truncate p f = (Inr (), (fs_tick f)\<lparr>fs_files := (fs_files f)(p \<mapsto> [])\<rparr>)"
    and "fs_write_all p bytes f =
      (Inr (), (fs_tick f)\<lparr>fs_files := (fs_files f)(p \<mapsto> contents f p @ bytes)\<rparr>)"
    and "fs_files f p = Some c \<Longrightarrow> fs_rename p q f =
      (Inr (), (fs_tick f)\<lparr>fs_files := (fs_files f)(p := None, q \<mapsto> c)\<rparr>)"
    and "fs_metadata_len p f =
      (case fs_files f p of None \<Rightarrow> Inl io_not_found | Some c \<Rightarrow> Inr (length c), fs_tick f)"
  using assms
  by (simp_all add: fault_free_def fs_touch_def fs_open_append_def fs_open_truncate_def
      fs_write_all_def fs_rename_def fs_metadata_len_def split: option.split)

lemma fault_free_tick [simp]: "fault_free (fs_tick f) = fault_free f"
  by (simp add: fault_free_def fs_tick_def)

lemma fault_free_files [simp]: "fault_free (f\<lparr>fs_files := m\<rparr>) = fault_free f"
  by (simp add: fault_free_def)

lemma fs_files_tick [simp]: "fs_files (fs_tick f) = fs_files f"
  by (simp add: fs_tick_def)

lemma contents_tick [simp]: "contents (fs_tick f) p = contents f p"
  by (simp add: contents_def)

lemma contents_upd [simp]:
  "contents (f\<lparr>fs_files := m\<rparr>) p = (case m p of Some c \<Rightarrow> c | None \<Rightarrow> [])"
  by (simp add: contents_def)

text \<open>Whatever fails, an operation on one path leaves the other paths alone.\<close>

lemma fs_frame:
  "q \<noteq> p \<Longrightarrow> fs_files (snd (fs_open_append p f)) q = fs_files f q"
  "q \<noteq> p \<Longrightarrow> fs_files (snd (fs_open_truncate p f)) q = fs_files f q"
  "q \<noteq> p \<Longrightarrow> fs_files (snd (fs_write_all p bytes f)) q = fs_files f q"
  "q \<noteq> p \<Longrightarrow> q \<noteq> r \<Longrightarrow> fs_files (snd (fs_rename p r f)) q = fs_files f q"
  "fs_files (snd (fs_touch f)) = fs_files f"
  "fs_files (snd (fs_metadata_len p f)) = fs_files f"
  by (simp_all add: fs_open_append_def fs_open_truncate_def fs_write_all_def fs_rename_def
      fs_touch_def fs_metadata_len_def split: option.split)

text \<open>The fault schedule is fixed for a run.\<close>

lemma fs_fault_const [simp]:
  "fs_fault (fs_tick f) = fs_fault f"
  "fs_fault (snd (fs_touch f)) = fs_fault f"
  "fs_fault (snd (fs_metadata_len p f)) = fs_fault f"
  "fs_fault (snd (fs_open_append p f)) = fs_fault f"
  "fs_fault (snd (fs_open_truncate p f)) = fs_fault f"
  "fs_fault (snd (fs_write_all p bytes f)) = fs_fault f"
  "fs_fault (snd (fs_rename p q f)) = fs_fault f"
  by (simp_all add: fs_tick_def fs_open_append_def fs_open_truncate_def fs_write_all_def
      fs_rename_def fs_touch_def fs_metadata_len_def split: option.split)

lemma io_then_pres:
  assumes "\<And>f. P f \<Longrightarrow> P (snd (m f))" and "\<And>x f. P f \<Longrightarrow> P (snd (k x f))" and "P f"
  shows "P (snd (io_then m k f))"
  using assms(1) [OF assms(3)] assms(2)
  by (simp add: io_then_def split: prod.split sum.split) (metis snd_conv)

end
