(* ===== verification/Session_Meta.thy ===== *)
theory Session_Meta
  imports Activity_Rows Files "HOL-Library.Char_ord" "HOL-Library.List_Lexorder"
    "HOL-Library.Product_Lexorder"
begin

text \<open>
  The metadata sidecar of one thread's history, from \<open>guardian/src/session_meta.rs\<close>: what it holds,
  how a row is folded in, how it is written (through a temporary file and a rename) and how a
  directory of sidecars is read back. \<open>serde_yaml\<close> is a pair of arguments, the serializer (\<open>Inl\<close> on
  failure) and the reader; the order in which the operating system lists a directory is an argument
  too. Rust orders strings by their bytes, as the lexicographic order on \<open>char list\<close> does.
\<close>

record session_meta =
  meta_schema_version :: nat
  meta_session_id :: string
  meta_thread_id :: string
  meta_csv_file :: string
  meta_cwd :: string
  meta_account :: string
  meta_model :: string
  meta_originator :: string
  meta_first_activity_at :: string
  meta_last_activity_at :: string
  meta_ended_at :: "string option"
  meta_rows :: u64
  meta_turns :: u64
  meta_tokens_total :: int

record session_identity =
  id_thread_id :: string
  id_session_id :: string
  id_account :: string
  id_cwd :: string
  id_model :: string
  id_originator :: string

definition SESSION_META_VERSION :: nat where
  "SESSION_META_VERSION = 1"

definition SESSION_META_SUFFIX :: string where
  "SESSION_META_SUFFIX = ''.meta.yml''"

definition session_meta_new ::
  "activity_row \<Rightarrow> session_identity \<Rightarrow> string \<Rightarrow> session_meta" where
  "session_meta_new row identity csv_file =
     \<lparr>meta_schema_version = SESSION_META_VERSION,
      meta_session_id = id_session_id identity,
      meta_thread_id = id_thread_id identity,
      meta_csv_file = csv_file,
      meta_cwd = [], meta_account = [], meta_model = [], meta_originator = [],
      meta_first_activity_at = row_ts row,
      meta_last_activity_at = row_ts row,
      meta_ended_at = None, meta_rows = 0, meta_turns = 0, meta_tokens_total = 0\<rparr>"

definition identity_from_context :: "activity_context \<Rightarrow> session_identity" where
  "identity_from_context ctx =
     \<lparr>id_thread_id = ctx_thread_id ctx, id_session_id = ctx_session_id ctx,
      id_account = unwrap_or_default (ctx_account ctx), id_cwd = ctx_cwd ctx,
      id_model = ctx_model ctx, id_originator = ctx_originator ctx\<rparr>"

text \<open>\<open>fill\<close> returns the field's new value and whether it changed.\<close>

definition fill :: "string \<Rightarrow> string \<Rightarrow> string \<times> bool" where
  "fill field value = (if field = [] \<and> value \<noteq> [] then (value, True) else (field, False))"

definition observe ::
  "session_meta \<Rightarrow> activity_row \<Rightarrow> session_identity \<Rightarrow> session_meta \<times> bool" where
  "observe meta row identity =
     (let meta = meta\<lparr>meta_rows := meta_rows meta + 1, meta_last_activity_at := row_ts row\<rparr>;
          meta = (case parse_i64 (row_tokens_total row) of
                    Some tot \<Rightarrow> meta\<lparr>meta_tokens_total := tot\<rparr>
                  | None \<Rightarrow> meta);
          meta = (if row_kind row = ''turn_stopped''
                  then meta\<lparr>meta_turns := meta_turns meta + 1\<rparr> else meta);
          (cwd, c1) = fill (meta_cwd meta) (id_cwd identity);
          (account, c2) = fill (meta_account meta) (id_account identity);
          (model, c3) = fill (meta_model meta) (id_model identity);
          (originator, c4) = fill (meta_originator meta) (id_originator identity);
          meta = meta\<lparr>meta_cwd := cwd, meta_account := account, meta_model := model,
                      meta_originator := originator\<rparr>;
          selector_changed = (c1 \<or> c2 \<or> c3 \<or> c4)
      in if row_kind row = ''session_ended'' \<and> meta_ended_at meta = None
         then (meta\<lparr>meta_ended_at := Some (row_ts row)\<rparr>, True)
         else (meta, selector_changed))"

definition write_session_meta ::
  "(session_meta \<Rightarrow> string + string) \<Rightarrow> path \<Rightarrow> session_meta \<Rightarrow> fs \<Rightarrow> (io_error + unit) \<times> fs" where
  "write_session_meta ser_meta p meta f =
     (case ser_meta meta of
        Inl err \<Rightarrow> (Inl (IoError err), f)
      | Inr text \<Rightarrow>
          (let body = (if ends_with text [newline] then text else text @ [newline]);
               tmp = with_extension p ''tmp''
           in io_then (fs_open_truncate tmp) (\<lambda>_.
              io_then (fs_write_all tmp body) (\<lambda>_.
              io_then fs_touch (\<lambda>_. fs_rename tmp p))) f))"

text \<open>The result of \<open>read_dir\<close>: \<open>None\<close> is a directory that does not exist, \<open>Some\<close> of a failure or of
  the entries' paths in the order the system lists them; \<open>read\<close> of one entry fails or gives bytes.\<close>

definition read_session_metas ::
  "(string \<Rightarrow> session_meta option) \<Rightarrow> (io_error + path list) option \<Rightarrow> (path \<Rightarrow> io_error + string)
     \<Rightarrow> io_error + session_meta list" where
  "read_session_metas de_meta listing read =
     (case listing of
        None \<Rightarrow> Inr []
      | Some (Inl err) \<Rightarrow> Inl err
      | Some (Inr entries) \<Rightarrow>
          Inr (sort_key (\<lambda>m. (meta_first_activity_at m, meta_thread_id m))
            (List.map_filter
               (\<lambda>p. if ends_with (path_file_name p) SESSION_META_SUFFIX
                     then (case read p of Inr body \<Rightarrow> de_meta body | Inl _ \<Rightarrow> None)
                     else None)
               entries)))"

subsection \<open>Folding rows in\<close>

text \<open>The fields a reader selects sessions by.\<close>

definition selectors :: "session_meta \<Rightarrow> string \<times> string \<times> string \<times> string \<times> string option" where
  "selectors m = (meta_cwd m, meta_account m, meta_model m, meta_originator m, meta_ended_at m)"

definition observe_all ::
  "session_meta \<Rightarrow> (activity_row \<times> session_identity) list \<Rightarrow> session_meta" where
  "observe_all meta xs = fold (\<lambda>(row, identity) m. fst (observe m row identity)) xs meta"

lemma fill_changed: "snd (fill a v) \<longleftrightarrow> fst (fill a v) \<noteq> a"
  by (simp add: fill_def)

lemma fill_keeps: "a \<noteq> [] \<Longrightarrow> fst (fill a v) = a"
  by (simp add: fill_def)

lemma observe_fst:
  "fst (observe m row i) = m
     \<lparr>meta_rows := meta_rows m + 1,
      meta_last_activity_at := row_ts row,
      meta_tokens_total :=
        (case parse_i64 (row_tokens_total row) of Some t \<Rightarrow> t | None \<Rightarrow> meta_tokens_total m),
      meta_turns := meta_turns m + (if row_kind row = ''turn_stopped'' then 1 else 0),
      meta_cwd := fst (fill (meta_cwd m) (id_cwd i)),
      meta_account := fst (fill (meta_account m) (id_account i)),
      meta_model := fst (fill (meta_model m) (id_model i)),
      meta_originator := fst (fill (meta_originator m) (id_originator i)),
      meta_ended_at :=
        (if row_kind row = ''session_ended'' \<and> meta_ended_at m = None
         then Some (row_ts row) else meta_ended_at m)\<rparr>"
  by (cases m; cases "parse_i64 (row_tokens_total row)"; cases "row_kind row = ''turn_stopped''")
    (simp_all add: observe_def split_beta Let_def)

lemma observe_snd:
  "snd (observe m row i) \<longleftrightarrow>
     snd (fill (meta_cwd m) (id_cwd i)) \<or> snd (fill (meta_account m) (id_account i))
     \<or> snd (fill (meta_model m) (id_model i)) \<or> snd (fill (meta_originator m) (id_originator i))
     \<or> row_kind row = ''session_ended'' \<and> meta_ended_at m = None"
  by (cases m; cases "parse_i64 (row_tokens_total row)"; cases "row_kind row = ''turn_stopped''")
    (auto simp: observe_def split_beta Let_def)

lemma observe_fields [simp]:
  "meta_rows (fst (observe m row i)) = meta_rows m + 1"
  "meta_last_activity_at (fst (observe m row i)) = row_ts row"
  "meta_first_activity_at (fst (observe m row i)) = meta_first_activity_at m"
  "meta_thread_id (fst (observe m row i)) = meta_thread_id m"
  "meta_session_id (fst (observe m row i)) = meta_session_id m"
  "meta_csv_file (fst (observe m row i)) = meta_csv_file m"
  "meta_schema_version (fst (observe m row i)) = meta_schema_version m"
  "meta_turns (fst (observe m row i)) =
     meta_turns m + (if row_kind row = ''turn_stopped'' then 1 else 0)"
  "meta_tokens_total (fst (observe m row i)) =
     (case parse_i64 (row_tokens_total row) of Some t \<Rightarrow> t | None \<Rightarrow> meta_tokens_total m)"
  "meta_ended_at (fst (observe m row i)) =
     (if row_kind row = ''session_ended'' \<and> meta_ended_at m = None
      then Some (row_ts row) else meta_ended_at m)"
  "meta_cwd (fst (observe m row i)) = fst (fill (meta_cwd m) (id_cwd i))"
  "meta_account (fst (observe m row i)) = fst (fill (meta_account m) (id_account i))"
  "meta_model (fst (observe m row i)) = fst (fill (meta_model m) (id_model i))"
  "meta_originator (fst (observe m row i)) = fst (fill (meta_originator m) (id_originator i))"
  by (simp_all add: observe_fst)

lemma observe_changed: "snd (observe m row i) \<longleftrightarrow> selectors (fst (observe m row i)) \<noteq> selectors m"
  by (auto simp: observe_snd selectors_def fill_changed)

lemma observe_all_Nil [simp]: "observe_all m [] = m"
  by (simp add: observe_all_def)

lemma observe_all_snoc [simp]:
  "observe_all m (xs @ [(row, i)]) = fst (observe (observe_all m xs) row i)"
  by (simp add: observe_all_def)

text \<open>The last token total that a row of the run reports.\<close>

definition last_total :: "int \<Rightarrow> (activity_row \<times> session_identity) list \<Rightarrow> int" where
  "last_total start xs =
     (case rev (List.map_filter (\<lambda>(row, _). parse_i64 (row_tokens_total row)) xs) of
        [] \<Rightarrow> start
      | t # _ \<Rightarrow> t)"

lemma map_filter_snoc:
  "List.map_filter g (xs @ [x]) = List.map_filter g xs @ (case g x of None \<Rightarrow> [] | Some y \<Rightarrow> [y])"
  by (induction xs) (auto simp: List.map_filter_simps split: option.split)

lemma observe_all_summary:
  "meta_rows (observe_all m xs) = meta_rows m + of_nat (length xs)"
  "meta_turns (observe_all m xs) =
     meta_turns m + of_nat (length (filter (\<lambda>(row, _). row_kind row = ''turn_stopped'') xs))"
  "meta_first_activity_at (observe_all m xs) = meta_first_activity_at m"
  "meta_tokens_total (observe_all m xs) = last_total (meta_tokens_total m) xs"
proof (induction xs rule: rev_induct)
  case (snoc x xs)
  obtain row i where x: "x = (row, i)" by fastforce
  { case 1 show ?case using snoc.IH(1) by (simp add: x) }
  { case 2 show ?case using snoc.IH(2) by (simp add: x) }
  { case 3 show ?case using snoc.IH(3) by (simp add: x) }
  { case 4 show ?case
      using snoc.IH(4) by (simp add: x last_total_def map_filter_snoc split: option.split) }
qed (simp_all add: last_total_def List.map_filter_simps)

lemma observe_all_last_activity:
  "meta_last_activity_at (observe_all m (xs @ [(row, i)])) = row_ts row"
  by simp

text \<open>A selector that is set stays as it is.\<close>

lemma observe_all_sticky:
  "meta_ended_at m = Some t \<Longrightarrow> meta_ended_at (observe_all m xs) = Some t"
  "meta_cwd m \<noteq> [] \<Longrightarrow> meta_cwd (observe_all m xs) = meta_cwd m"
  "meta_account m \<noteq> [] \<Longrightarrow> meta_account (observe_all m xs) = meta_account m"
  "meta_model m \<noteq> [] \<Longrightarrow> meta_model (observe_all m xs) = meta_model m"
  "meta_originator m \<noteq> [] \<Longrightarrow> meta_originator (observe_all m xs) = meta_originator m"
proof (induction xs rule: rev_induct)
  case (snoc x xs)
  obtain row i where x: "x = (row, i)" by fastforce
  { case 1 then show ?case using snoc.IH(1) by (simp add: x) }
  { case 2 then show ?case using snoc.IH(2) by (simp add: x fill_keeps) }
  { case 3 then show ?case using snoc.IH(3) by (simp add: x fill_keeps) }
  { case 4 then show ?case using snoc.IH(4) by (simp add: x fill_keeps) }
  { case 5 then show ?case using snoc.IH(5) by (simp add: x fill_keeps) }
qed simp_all

subsection \<open>Writing and reading\<close>

definition meta_body :: "string \<Rightarrow> string" where
  "meta_body text = (if ends_with text [newline] then text else text @ [newline])"

text \<open>The write replaces the sidecar in one step: whatever fails on the way, the sidecar holds its
  previous contents or the complete new body.\<close>

lemma write_session_meta_atomic:
  assumes "ser_meta meta = Inr text" and "with_extension p ''tmp'' \<noteq> p"
  shows "fs_files (snd (write_session_meta ser_meta p meta f)) p \<in> {fs_files f p, Some (meta_body text)}"
proof -
  let ?tmp = "with_extension p ''tmp''"
  obtain r1 f1 where o: "fs_open_truncate ?tmp f = (r1, f1)" by fastforce
  then have f1: "fs_files f1 p = fs_files f p"
    using fs_frame(2) [of p ?tmp f] assms(2) by auto
  obtain r2 f2 where wr: "fs_write_all ?tmp (meta_body text) f1 = (r2, f2)" by fastforce
  then have f2: "fs_files f2 p = fs_files f p"
    using fs_frame(3) [of p ?tmp "meta_body text" f1] f1 assms(2) by auto
  obtain r3 f3 where fl: "fs_touch f2 = (r3, f3)" by fastforce
  then have f3: "fs_files f3 = fs_files f2" using fs_frame(5) [of f2] by simp
  have tmp: "r1 = Inr () \<Longrightarrow> r2 = Inr () \<Longrightarrow> fs_files f3 ?tmp = Some (meta_body text)"
    using o wr f3 by (auto simp: fs_open_truncate_def fs_write_all_def split: option.splits)
  have ren: "fs_files (snd (fs_rename ?tmp p f3)) p \<in> {fs_files f3 p, fs_files f3 ?tmp}"
    by (auto simp: fs_rename_def split: option.split)
  show ?thesis
    using f1 f2 f3 tmp ren assms(1) o wr fl
    by (cases r1; cases r2; cases r3)
      (auto simp: write_session_meta_def io_then_def Let_def meta_body_def split: if_splits)
qed

lemma write_session_meta_ok:
  assumes "fault_free f" and "ser_meta meta = Inr text" and "with_extension p ''tmp'' \<noteq> p"
  shows "fst (write_session_meta ser_meta p meta f) = Inr ()
    \<and> fs_files (snd (write_session_meta ser_meta p meta f)) p = Some (meta_body text)
    \<and> (\<forall>q. q \<noteq> p \<longrightarrow> q \<noteq> with_extension p ''tmp''
         \<longrightarrow> fs_files (snd (write_session_meta ser_meta p meta f)) q = fs_files f q)
    \<and> fault_free (snd (write_session_meta ser_meta p meta f))"
  using assms
  by (simp add: write_session_meta_def io_then_def Let_def meta_body_def fs_ops_fault_free)

lemma write_session_meta_frame:
  assumes "q \<noteq> p" and "q \<noteq> with_extension p ''tmp''"
  shows "fs_files (snd (write_session_meta ser_meta p meta f)) q = fs_files f q"
proof (cases "ser_meta meta")
  case (Inr s)
  have "(\<lambda>f'. fs_files f' q = fs_files f q)
      (snd (io_then (fs_open_truncate (with_extension p ''tmp'')) (\<lambda>_.
        io_then (fs_write_all (with_extension p ''tmp'') (meta_body s)) (\<lambda>_.
        io_then fs_touch (\<lambda>_. fs_rename (with_extension p ''tmp'') p))) f))"
    by (rule io_then_pres [where P = "\<lambda>f'. fs_files f' q = fs_files f q"],
        simp add: assms fs_frame)+ (simp_all add: assms fs_frame)
  then show ?thesis by (simp add: write_session_meta_def Inr meta_body_def Let_def)
qed (simp add: write_session_meta_def)

lemma write_session_meta_fault [simp]:
  "fs_fault (snd (write_session_meta ser_meta p meta f)) = fs_fault f"
proof (cases "ser_meta meta")
  case (Inr s)
  have "(\<lambda>f'. fs_fault f' = fs_fault f)
      (snd (io_then (fs_open_truncate (with_extension p ''tmp'')) (\<lambda>_.
        io_then (fs_write_all (with_extension p ''tmp'') (meta_body s)) (\<lambda>_.
        io_then fs_touch (\<lambda>_. fs_rename (with_extension p ''tmp'') p))) f))"
    by (rule io_then_pres [where P = "\<lambda>f'. fs_fault f' = fs_fault f"], simp)+ simp_all
  then show ?thesis by (simp add: write_session_meta_def Inr meta_body_def Let_def)
qed (simp add: write_session_meta_def)

lemma read_session_metas_sorted:
  "read_session_metas de_meta listing read = Inr ms
     \<Longrightarrow> sorted (map (\<lambda>m. (meta_first_activity_at m, meta_thread_id m)) ms)"
  by (auto simp: read_session_metas_def split: option.splits sum.splits)

end
