(* ===== verification/Csv_History.thy ===== *)
theory Csv_History
  imports Session_Meta Guard_Interface
begin

text \<open>
  The local history guardian of \<open>guardian/src/csv_history.rs\<close>: the naming of the files, the channel
  to the writer task, the writer's handling of one command (append the row, fold it into the
  sidecar, flush) and the guardian itself. An open \<open>File\<close> is the path it appends to. The writer
  iterates over hash maps when it flushes; the order of their keys is the argument \<open>env_iter\<close>, of
  which a theorem assumes only that it lists the same keys.
\<close>

record csv_env =
  env_cod :: codecs
  env_ser_meta :: "session_meta \<Rightarrow> string + string"
  env_iter :: "string list \<Rightarrow> string list"

definition CSV_HEADER :: string where
  "CSV_HEADER =
     ''ts,turn_id,kind,phase,tool,call_id,decision,reason,''
     @ ''tokens_in,tokens_out,tokens_total,context_used,context_limit,detail'' @ [newline]"

definition CSV_QUEUE_DEPTH :: nat where
  "CSV_QUEUE_DEPTH = 256"

datatype cmd = CmdRow activity_row session_identity | CmdFlush

definition sanitize_char :: "string \<Rightarrow> char" where
  "sanitize_char g =
     (case g of
        [c] \<Rightarrow>
          if is_ascii_alphanumeric c \<or> c = CHR ''-'' \<or> c = CHR ''_'' then c else CHR ''_''
      | _ \<Rightarrow> CHR ''_'')"

definition sanitize_file_stem :: "string \<Rightarrow> string" where
  "sanitize_file_stem thread_id =
     (let sanitized = map sanitize_char (utf8_chars thread_id)
      in if sanitized = [] then ''unknown-session'' else sanitized)"

definition csv_file_name :: "string \<Rightarrow> string" where
  "csv_file_name thread_id = sanitize_file_stem thread_id @ ''.csv''"

definition session_path :: "path \<Rightarrow> string \<Rightarrow> path" where
  "session_path dir thread_id = path_join dir (csv_file_name thread_id)"

definition meta_path :: "path \<Rightarrow> string \<Rightarrow> path" where
  "meta_path dir thread_id = path_join dir (sanitize_file_stem thread_id @ SESSION_META_SUFFIX)"

subsection \<open>The writer task\<close>

text \<open>The writer's state: the open files and the sidecars by thread id, each with the keys in the
  order of their insertion, and the file system.\<close>

record writer_state =
  ws_files :: "string list"
  ws_metas :: "(string \<times> session_meta) list"
  ws_fs :: fs

definition open_session_file :: "path \<Rightarrow> string \<Rightarrow> fs \<Rightarrow> (io_error + unit) \<times> fs" where
  "open_session_file dir thread_id =
     io_then fs_touch (\<lambda>_.
     io_then fs_touch (\<lambda>_.
     io_then fs_touch (\<lambda>_ f.
       (let p = session_path dir thread_id;
            (len, f) = fs_metadata_len p f;
            needs_header = (case len of Inr n \<Rightarrow> n = 0 | Inl _ \<Rightarrow> True)
        in io_then (fs_open_append p) (\<lambda>_ f.
             if needs_header
             then io_then (fs_write_all p CSV_HEADER) (\<lambda>_. fs_touch) f
             else (Inr (), f)) f))))"

definition write_row ::
  "path \<Rightarrow> writer_state \<Rightarrow> activity_row \<Rightarrow> session_identity \<Rightarrow> (io_error + unit) \<times> writer_state" where
  "write_row dir ws row identity =
     (let t = id_thread_id identity;
          (opened, ws) =
            (if t \<in> set (ws_files ws) then (Inr (), ws)
             else (case open_session_file dir t (ws_fs ws) of
                     (Inl e, f) \<Rightarrow> (Inl e, ws\<lparr>ws_fs := f\<rparr>)
                   | (Inr _, f) \<Rightarrow> (Inr (), ws\<lparr>ws_fs := f, ws_files := ws_files ws @ [t]\<rparr>)))
      in case opened of
           Inl e \<Rightarrow> (Inl e, ws)
         | Inr _ \<Rightarrow>
             (let (r, f) = io_then (fs_write_all (session_path dir t) (to_csv_line row))
                             (\<lambda>_. fs_touch) (ws_fs ws)
              in (r, ws\<lparr>ws_fs := f\<rparr>)))"

definition update_meta ::
  "csv_env \<Rightarrow> path \<Rightarrow> writer_state \<Rightarrow> activity_row \<Rightarrow> session_identity
     \<Rightarrow> (io_error + unit) \<times> writer_state" where
  "update_meta env dir ws row identity =
     (let t = id_thread_id identity;
          (meta, is_new) =
            (case map_of (ws_metas ws) t of
               Some m \<Rightarrow> (m, False)
             | None \<Rightarrow> (session_meta_new row identity (csv_file_name t), True));
          (meta, changed) = observe meta row identity;
          ws = ws\<lparr>ws_metas :=
                 (if is_new then ws_metas ws @ [(t, meta)]
                  else map (\<lambda>(k, m). (k, if k = t then meta else m)) (ws_metas ws))\<rparr>
      in if changed \<or> is_new
         then (let (r, f) = write_session_meta (env_ser_meta env) (meta_path dir t) meta (ws_fs ws)
               in (r, ws\<lparr>ws_fs := f\<rparr>))
         else (Inr (), ws))"

text \<open>A flush flushes every open file, then rewrites every sidecar; failures are logged and do not
  stop it.\<close>

definition flush_files :: "csv_env \<Rightarrow> writer_state \<Rightarrow> writer_state" where
  "flush_files env ws =
     ws\<lparr>ws_fs := fold (\<lambda>_ f. snd (fs_touch f)) (env_iter env (ws_files ws)) (ws_fs ws)\<rparr>"

definition flush_metas :: "csv_env \<Rightarrow> path \<Rightarrow> writer_state \<Rightarrow> writer_state" where
  "flush_metas env dir ws =
     ws\<lparr>ws_fs :=
       fold (\<lambda>t f. case map_of (ws_metas ws) t of
                     None \<Rightarrow> f
                   | Some m \<Rightarrow> snd (write_session_meta (env_ser_meta env) (meta_path dir t) m f))
         (env_iter env (map fst (ws_metas ws))) (ws_fs ws)\<rparr>"

fun writer_step :: "csv_env \<Rightarrow> path \<Rightarrow> writer_state \<Rightarrow> cmd \<Rightarrow> writer_state" where
  "writer_step env dir ws (CmdRow row identity) =
     snd (update_meta env dir (snd (write_row dir ws row identity)) row identity)"
| "writer_step env dir ws CmdFlush = flush_metas env dir (flush_files env ws)"

definition writer_loop :: "csv_env \<Rightarrow> path \<Rightarrow> cmd list \<Rightarrow> writer_state \<Rightarrow> writer_state" where
  "writer_loop env dir cmds ws = fold (\<lambda>c ws. writer_step env dir ws c) cmds ws"

definition writer_start :: "fs \<Rightarrow> writer_state" where
  "writer_start f = \<lparr>ws_files = [], ws_metas = [], ws_fs = f\<rparr>"

subsection \<open>The guardian\<close>

text \<open>The world of the guardian: the channel's queue and the writer. Sending into a full channel
  waits for the writer to take a command; flushing sends and waits until the writer answers.\<close>

record csv_world =
  cw_queue :: "cmd list"
  cw_writer :: writer_state

definition writer_take :: "csv_env \<Rightarrow> path \<Rightarrow> csv_world \<Rightarrow> csv_world" where
  "writer_take env dir w =
     (case cw_queue w of
        [] \<Rightarrow> w
      | c # cs \<Rightarrow> w\<lparr>cw_queue := cs, cw_writer := writer_step env dir (cw_writer w) c\<rparr>)"

definition channel_send :: "csv_env \<Rightarrow> path \<Rightarrow> cmd \<Rightarrow> csv_world \<Rightarrow> csv_world" where
  "channel_send env dir c w =
     (let w = (if CSV_QUEUE_DEPTH \<le> length (cw_queue w) then writer_take env dir w else w)
      in w\<lparr>cw_queue := cw_queue w @ [c]\<rparr>)"

definition csv_send ::
  "csv_env \<Rightarrow> path \<Rightarrow> activity_context \<Rightarrow> activity_row \<Rightarrow> csv_world \<Rightarrow> csv_world" where
  "csv_send env dir ctx row w =
     channel_send env dir (CmdRow row (identity_from_context ctx)) w"

definition csv_review ::
  "csv_env \<Rightarrow> path \<Rightarrow> activity_context \<Rightarrow> guarded_action \<Rightarrow> csv_world
     \<Rightarrow> (guardian_error + verdict) \<times> csv_world" where
  "csv_review env dir ctx action w =
     (Inr Defer, csv_send env dir ctx (for_action (env_cod env) ctx action Defer) w)"

definition csv_record ::
  "csv_env \<Rightarrow> path \<Rightarrow> activity_context \<Rightarrow> activity \<Rightarrow> csv_world \<Rightarrow> csv_world" where
  "csv_record env dir ctx activity w = csv_send env dir ctx (for_activity (env_cod env) ctx activity) w"

definition csv_flush :: "csv_env \<Rightarrow> path \<Rightarrow> csv_world \<Rightarrow> csv_world" where
  "csv_flush env dir w =
     (let w = channel_send env dir CmdFlush w
      in w\<lparr>cw_queue := [], cw_writer := writer_loop env dir (cw_queue w) (cw_writer w)\<rparr>)"

definition csv_guardian :: "csv_env \<Rightarrow> path \<Rightarrow> csv_world guardian" where
  "csv_guardian env dir =
     (guardian_defaults (csv_review env dir) (csv_record env dir))
       \<lparr>g_failure_posture := FailOpen, g_flush := csv_flush env dir\<rparr>"

definition csv_start :: "fs \<Rightarrow> csv_world" where
  "csv_start f = \<lparr>cw_queue = [], cw_writer = writer_start f\<rparr>"

lemmas [guard_simps] = csv_guardian_def csv_review_def csv_record_def csv_send_def

subsection \<open>File names\<close>

lemma sanitize_char_safe:
  "is_ascii_alphanumeric (sanitize_char g) \<or> sanitize_char g = CHR ''-'' \<or> sanitize_char g = CHR ''_''"
  by (simp add: sanitize_char_def split: list.split)

lemma safe_not_separator:
  "is_ascii_alphanumeric c \<or> c = CHR ''-'' \<or> c = CHR ''_'' \<Longrightarrow> c \<noteq> CHR ''/'' \<and> c \<noteq> CHR ''.''"
  by (auto simp: is_ascii_alphanumeric_def is_ascii_digit_def)

lemma sanitize_file_stem_nonempty [simp]: "sanitize_file_stem t \<noteq> []"
  by (simp add: sanitize_file_stem_def Let_def)

lemma sanitize_file_stem_safe:
  assumes "c \<in> set (sanitize_file_stem t)"
  shows "c \<noteq> CHR ''/''" and "c \<noteq> CHR ''.''"
proof -
  have "is_ascii_alphanumeric c \<or> c = CHR ''-'' \<or> c = CHR ''_''"
  proof (cases "utf8_chars t = []")
    case True
    then have c: "c \<in> set ''unknown-session''" using assms by (simp add: sanitize_file_stem_def)
    have "\<forall>c \<in> set ''unknown-session''.
        is_ascii_alphanumeric c \<or> c = CHR ''-'' \<or> c = CHR ''_''"
      by code_simp
    from this c show ?thesis by (rule bspec)
  next
    case False
    then obtain g where "c = sanitize_char g"
      using assms by (auto simp: sanitize_file_stem_def Let_def)
    then show ?thesis using sanitize_char_safe by simp
  qed
  then show "c \<noteq> CHR ''/''" and "c \<noteq> CHR ''.''" using safe_not_separator by auto
qed

lemma stem_ext_file_name:
  "CHR ''/'' \<notin> set ext \<Longrightarrow>
     path_file_name (path_join d (sanitize_file_stem t @ ext)) = sanitize_file_stem t @ ext"
  by (rule file_name_join) (auto dest: sanitize_file_stem_safe(1))

lemma session_path_file_name: "path_file_name (session_path dir t) = csv_file_name t"
  by (simp add: session_path_def csv_file_name_def stem_ext_file_name)

lemma meta_path_file_name:
  "path_file_name (meta_path dir t) = sanitize_file_stem t @ SESSION_META_SUFFIX"
  by (simp add: meta_path_def SESSION_META_SUFFIX_def stem_ext_file_name)

text \<open>The stem has no dot, so the name up to its first dot is the stem.\<close>

lemma stem_before_dot:
  "takeWhile (\<lambda>c. c \<noteq> CHR ''.'') (sanitize_file_stem t @ CHR ''.'' # ext) = sanitize_file_stem t"
  by (subst takeWhile_append2) (auto dest: sanitize_file_stem_safe(2))

lemma stem_dot_inject:
  "sanitize_file_stem t @ CHR ''.'' # ext = sanitize_file_stem t' @ CHR ''.'' # ext'
     \<longleftrightarrow> sanitize_file_stem t = sanitize_file_stem t' \<and> ext = ext'"
  by (metis stem_before_dot same_append_eq list.inject)

lemma meta_tmp_path:
  "with_extension (meta_path dir t) ''tmp''
     = path_dir_prefix (meta_path dir t) @ sanitize_file_stem t @ ''.meta.tmp''"
proof -
  have "file_stem (sanitize_file_stem t @ SESSION_META_SUFFIX) = sanitize_file_stem t @ ''.meta''"
    by (simp add: file_stem_def SESSION_META_SUFFIX_def Let_def)
  moreover have "sanitize_file_stem t @ SESSION_META_SUFFIX \<noteq> ''..''"
    by (simp add: SESSION_META_SUFFIX_def append_eq_Cons_conv)
  ultimately show ?thesis
    by (simp add: with_extension_def meta_path_file_name Let_def SESSION_META_SUFFIX_def)
qed

lemma meta_tmp_file_name:
  "path_file_name (with_extension (meta_path dir t) ''tmp'') = sanitize_file_stem t @ ''.meta.tmp''"
proof -
  have ns: "CHR ''/'' \<notin> set (sanitize_file_stem t @ ''.meta.tmp'')"
    by (auto dest: sanitize_file_stem_safe(1))
  have "path_dir_prefix p = [] \<or> (\<exists>d. path_dir_prefix p = d @ ''/'')" for p
  proof (cases "dropWhile (\<lambda>c. c \<noteq> CHR ''/'') (rev p)")
    case Nil
    then show ?thesis by (simp add: path_dir_prefix_def)
  next
    case (Cons c cs)
    then have "c = CHR ''/''" by (auto dest: dropWhile_Cons_not)
    with Cons show ?thesis by (simp add: path_dir_prefix_def)
  qed
  then have "path_dir_prefix (meta_path dir t) = []
      \<or> (\<exists>d. path_dir_prefix (meta_path dir t) = d @ ''/'')" .
  then show ?thesis
    using file_name_append [OF ns] file_name_plain [OF ns] by (auto simp: meta_tmp_path)
qed

lemma history_paths_distinct:
  "session_path dir t \<noteq> meta_path dir t'"
  "session_path dir t \<noteq> with_extension (meta_path dir t') ''tmp''"
  "meta_path dir t \<noteq> with_extension (meta_path dir t') ''tmp''"
proof -
  have "csv_file_name t \<noteq> sanitize_file_stem t' @ SESSION_META_SUFFIX"
    "csv_file_name t \<noteq> sanitize_file_stem t' @ ''.meta.tmp''"
    "sanitize_file_stem t @ SESSION_META_SUFFIX \<noteq> sanitize_file_stem t' @ ''.meta.tmp''"
    by (simp_all add: csv_file_name_def SESSION_META_SUFFIX_def stem_dot_inject)
  then show "session_path dir t \<noteq> meta_path dir t'"
    "session_path dir t \<noteq> with_extension (meta_path dir t') ''tmp''"
    "meta_path dir t \<noteq> with_extension (meta_path dir t') ''tmp''"
    by (metis session_path_file_name meta_path_file_name meta_tmp_file_name)+
qed

lemma meta_path_inject:
  "meta_path dir t = meta_path dir t' \<longleftrightarrow> sanitize_file_stem t = sanitize_file_stem t'"
  by (metis meta_path_file_name append_same_eq meta_path_def)

end
