(* ===== verification/Csv_Run.thy ===== *)
theory Csv_Run
  imports Csv_History
begin

text \<open>
  Runs of the history writer: what the history files hold after any sequence of commands when no
  operation fails, what the sidecars hold in memory and on disk, and what survives any pattern of
  failures. The guardian of \<open>csv_history.rs\<close> is shown to be an observer.
\<close>

subsection \<open>Rows of a file and of a thread\<close>

fun rows_for_path :: "path \<Rightarrow> path \<Rightarrow> cmd list \<Rightarrow> activity_row list" where
  "rows_for_path dir p [] = []"
| "rows_for_path dir p (CmdRow row i # cs) =
     (if session_path dir (id_thread_id i) = p then [row] else []) @ rows_for_path dir p cs"
| "rows_for_path dir p (CmdFlush # cs) = rows_for_path dir p cs"

fun rows_for_thread :: "string \<Rightarrow> cmd list \<Rightarrow> (activity_row \<times> session_identity) list" where
  "rows_for_thread t [] = []"
| "rows_for_thread t (CmdRow row i # cs) =
     (if id_thread_id i = t then [(row, i)] else []) @ rows_for_thread t cs"
| "rows_for_thread t (CmdFlush # cs) = rows_for_thread t cs"

lemma rows_for_path_append:
  "rows_for_path dir p (xs @ ys) = rows_for_path dir p xs @ rows_for_path dir p ys"
  by (induction dir p xs rule: rows_for_path.induct) simp_all

lemma rows_for_thread_append:
  "rows_for_thread t (xs @ ys) = rows_for_thread t xs @ rows_for_thread t ys"
  by (induction t xs rule: rows_for_thread.induct) simp_all

lemma writer_loop_Nil [simp]: "writer_loop env dir [] ws = ws"
  by (simp add: writer_loop_def)

lemma writer_loop_snoc [simp]:
  "writer_loop env dir (cs @ [c]) ws = writer_step env dir (writer_loop env dir cs ws) c"
  by (simp add: writer_loop_def)

text \<open>The writer's state after a whole run over a file system.\<close>

abbreviation writer_run :: "csv_env \<Rightarrow> path \<Rightarrow> fs \<Rightarrow> cmd list \<Rightarrow> writer_state" where
  "writer_run env dir f cmds \<equiv> writer_loop env dir cmds (writer_start f)"

subsection \<open>Frames\<close>

lemma update_meta_fs:
  "ws_fs (snd (update_meta env dir ws row i)) = ws_fs ws
   \<or> (\<exists>m. ws_fs (snd (update_meta env dir ws row i)) =
        snd (write_session_meta (env_ser_meta env) (meta_path dir (id_thread_id i)) m (ws_fs ws)))"
  by (simp add: update_meta_def Let_def split_beta) blast

lemma update_meta_frame:
  assumes "q \<noteq> meta_path dir (id_thread_id i)"
    and "q \<noteq> with_extension (meta_path dir (id_thread_id i)) ''tmp''"
  shows "fs_files (ws_fs (snd (update_meta env dir ws row i))) q = fs_files (ws_fs ws) q"
  using update_meta_fs [of env dir ws row i] write_session_meta_frame [OF assms] by auto

lemma update_meta_fault [simp]:
  "fs_fault (ws_fs (snd (update_meta env dir ws row i))) = fs_fault (ws_fs ws)"
  using update_meta_fs [of env dir ws row i] by auto

lemma update_meta_files [simp]: "ws_files (snd (update_meta env dir ws row i)) = ws_files ws"
  by (simp add: update_meta_def Let_def split_beta)

lemma open_session_file_pres:
  assumes "\<And>f. P f \<Longrightarrow> P (snd (fs_touch f))"
    and "\<And>f. P f \<Longrightarrow> P (snd (fs_metadata_len (session_path dir t) f))"
    and "\<And>f. P f \<Longrightarrow> P (snd (fs_open_append (session_path dir t) f))"
    and "\<And>f. P f \<Longrightarrow> P (snd (fs_write_all (session_path dir t) CSV_HEADER f))"
    and "P f"
  shows "P (snd (open_session_file dir t f))"
proof -
  let ?p = "session_path dir t"
  have inner: "P f \<Longrightarrow> P (snd (io_then (fs_open_append ?p) (\<lambda>_ f.
      if b then io_then (fs_write_all ?p CSV_HEADER) (\<lambda>_. fs_touch) f else (Inr (), f)) f))"
    for b and f :: fs
    by (rule io_then_pres [where P = P])
      (auto simp: assms(1-4) intro: io_then_pres [where P = P, OF assms(4) assms(1)])
  have "P (snd (let p = ?p; (len, f) = fs_metadata_len p f;
      needs_header = case len of Inr n \<Rightarrow> n = 0 | Inl _ \<Rightarrow> True
    in io_then (fs_open_append p)
      (\<lambda>_ f. if needs_header then io_then (fs_write_all p CSV_HEADER) (\<lambda>_. fs_touch) f
             else (Inr (), f)) f))" if "P f" for f
    using inner [OF assms(2) [OF that]] by (simp add: Let_def split_beta)
  then show ?thesis
    unfolding open_session_file_def using assms(1) assms(5)
    by (intro io_then_pres [where P = P]) simp_all
qed

lemma write_row_pres:
  assumes "\<And>f. P f \<Longrightarrow> P (snd (fs_touch f))"
    and "\<And>f. P f \<Longrightarrow> P (snd (fs_metadata_len (session_path dir (id_thread_id i)) f))"
    and "\<And>f. P f \<Longrightarrow> P (snd (fs_open_append (session_path dir (id_thread_id i)) f))"
    and "\<And>f bytes. P f \<Longrightarrow> P (snd (fs_write_all (session_path dir (id_thread_id i)) bytes f))"
    and "P (ws_fs ws)"
  shows "P (ws_fs (snd (write_row dir ws row i)))"
proof -
  let ?t = "id_thread_id i"
  have "P (snd (open_session_file dir ?t (ws_fs ws)))"
    by (rule open_session_file_pres [where P = P]) (simp_all add: assms)
  then have opened: "\<And>r f. open_session_file dir ?t (ws_fs ws) = (r, f) \<Longrightarrow> P f" by simp
  have "P f \<Longrightarrow> P (snd (io_then (fs_write_all (session_path dir ?t) (to_csv_line row))
      (\<lambda>_. fs_touch) f))" for f
    by (rule io_then_pres [where P = P]) (simp_all add: assms)
  then have line: "\<And>f r f'. P f \<Longrightarrow> io_then (fs_write_all (session_path dir ?t) (to_csv_line row))
      (\<lambda>_. fs_touch) f = (r, f') \<Longrightarrow> P f'"
    by (metis snd_conv)
  show ?thesis
    using opened line assms(5)
    by (auto simp: write_row_def Let_def split: prod.split sum.split)
qed

lemma write_row_frame:
  "q \<noteq> session_path dir (id_thread_id i) \<Longrightarrow>
     fs_files (ws_fs (snd (write_row dir ws row i))) q = fs_files (ws_fs ws) q"
  by (rule write_row_pres [where P = "\<lambda>f. fs_files f q = fs_files (ws_fs ws) q"])
    (simp_all add: fs_frame)

lemma write_row_fault [simp]:
  "fs_fault (ws_fs (snd (write_row dir ws row i))) = fs_fault (ws_fs ws)"
  by (rule write_row_pres [where P = "\<lambda>f. fs_fault f = fs_fault (ws_fs ws)"]) simp_all

lemma write_row_metas [simp]: "ws_metas (snd (write_row dir ws row i)) = ws_metas ws"
  by (simp add: write_row_def Let_def split: prod.split sum.split)

lemma flush_files_simps [simp]:
  "ws_files (flush_files env ws) = ws_files ws"
  "ws_metas (flush_files env ws) = ws_metas ws"
  "fs_files (ws_fs (flush_files env ws)) = fs_files (ws_fs ws)"
  "fs_fault (ws_fs (flush_files env ws)) = fs_fault (ws_fs ws)"
proof -
  have "fs_files (fold (\<lambda>_ f. snd (fs_touch f)) ts f) = fs_files f
      \<and> fs_fault (fold (\<lambda>_ f. snd (fs_touch f)) ts f) = fs_fault f" for ts :: "string list" and f
    by (induction ts arbitrary: f) (simp_all add: fs_frame)
  then show "fs_files (ws_fs (flush_files env ws)) = fs_files (ws_fs ws)"
    "fs_fault (ws_fs (flush_files env ws)) = fs_fault (ws_fs ws)"
    by (simp_all add: flush_files_def)
qed (simp_all add: flush_files_def)

text \<open>One sidecar write of a flush.\<close>

abbreviation flush_one :: "csv_env \<Rightarrow> path \<Rightarrow> (string \<times> session_meta) list \<Rightarrow> string \<Rightarrow> fs \<Rightarrow> fs" where
  "flush_one env dir metas t f \<equiv>
     (case map_of metas t of
        None \<Rightarrow> f
      | Some m \<Rightarrow> snd (write_session_meta (env_ser_meta env) (meta_path dir t) m f))"

lemma flush_one_frame:
  "q \<noteq> meta_path dir t \<Longrightarrow> q \<noteq> with_extension (meta_path dir t) ''tmp'' \<Longrightarrow>
     fs_files (flush_one env dir metas t f) q = fs_files f q"
  by (simp add: write_session_meta_frame split: option.split)

lemma flush_fold_pres:
  assumes "\<And>t f. P f \<Longrightarrow> P (flush_one env dir metas t f)" and "P f"
  shows "P (fold (flush_one env dir metas) ts f)"
  using assms(2) by (induction ts arbitrary: f) (simp_all add: assms(1))

lemma flush_metas_simps [simp]:
  "ws_files (flush_metas env dir ws) = ws_files ws"
  "ws_metas (flush_metas env dir ws) = ws_metas ws"
  "fs_fault (ws_fs (flush_metas env dir ws)) = fs_fault (ws_fs ws)"
proof -
  show "fs_fault (ws_fs (flush_metas env dir ws)) = fs_fault (ws_fs ws)"
    unfolding flush_metas_def
    by simp (rule flush_fold_pres [where P = "\<lambda>f. fs_fault f = fs_fault (ws_fs ws)"],
        simp_all split: option.split)
qed (simp_all add: flush_metas_def)

lemma flush_metas_csv_frame:
  "fs_files (ws_fs (flush_metas env dir ws)) (session_path dir t) = fs_files (ws_fs ws) (session_path dir t)"
  unfolding flush_metas_def
  by simp (rule flush_fold_pres [where P = "\<lambda>f. fs_files f (session_path dir t)
        = fs_files (ws_fs ws) (session_path dir t)"],
      simp_all add: flush_one_frame history_paths_distinct)

subsection \<open>The history file without faults\<close>

lemma open_session_file_ok:
  assumes "fault_free f"
  shows "fst (open_session_file dir t f) = Inr ()"
    and "contents (snd (open_session_file dir t f)) (session_path dir t)
      = (if contents f (session_path dir t) = [] then CSV_HEADER else contents f (session_path dir t))"
proof -
  have "contents f (session_path dir t) = [] \<longleftrightarrow>
      (case fs_files f (session_path dir t) of None \<Rightarrow> True | Some c \<Rightarrow> length c = 0)"
    by (simp add: contents_def split: option.split)
  then show "fst (open_session_file dir t f) = Inr ()"
    and "contents (snd (open_session_file dir t f)) (session_path dir t)
      = (if contents f (session_path dir t) = [] then CSV_HEADER else contents f (session_path dir t))"
    using assms
    by (auto simp: open_session_file_def io_then_def Let_def fs_ops_fault_free split: option.splits)
qed

lemma CSV_HEADER_nonempty [simp]: "CSV_HEADER \<noteq> []"
  by (simp add: CSV_HEADER_def)

lemma to_csv_line_nonempty [simp]: "to_csv_line row \<noteq> []"
  by (simp add: to_csv_line_def)

text \<open>A thread with an open file has a header, or earlier contents, on disk.\<close>

definition headed :: "path \<Rightarrow> writer_state \<Rightarrow> bool" where
  "headed dir ws \<longleftrightarrow> (\<forall>t\<in>set (ws_files ws). contents (ws_fs ws) (session_path dir t) \<noteq> [])"

lemma write_row_ok:
  assumes "fault_free (ws_fs ws)" and "headed dir ws"
  shows "fst (write_row dir ws row i) = Inr ()"
    and "contents (ws_fs (snd (write_row dir ws row i))) (session_path dir (id_thread_id i))
      = (if contents (ws_fs ws) (session_path dir (id_thread_id i)) = [] then CSV_HEADER
         else contents (ws_fs ws) (session_path dir (id_thread_id i))) @ to_csv_line row"
    and "set (ws_files (snd (write_row dir ws row i))) = insert (id_thread_id i) (set (ws_files ws))"
proof -
  let ?t = "id_thread_id i"
  let ?p = "session_path dir ?t"
  obtain r f where o: "open_session_file dir ?t (ws_fs ws) = (r, f)" by fastforce
  note ok = open_session_file_ok [OF assms(1), of dir ?t]
  have f: "r = Inr ()" "fault_free f"
    "contents f ?p = (if contents (ws_fs ws) ?p = [] then CSV_HEADER else contents (ws_fs ws) ?p)"
    using ok o open_session_file_pres [where P = fault_free, of dir ?t "ws_fs ws"] assms(1)
    by (auto simp: fault_free_def)
  have t: "?t \<in> set (ws_files ws) \<Longrightarrow> contents (ws_fs ws) ?p \<noteq> []"
    using assms(2) by (simp add: headed_def)
  have line: "fault_free g \<Longrightarrow>
      io_then (fs_write_all ?p (to_csv_line row)) (\<lambda>_. fs_touch) g =
        (Inr (), fs_tick ((fs_tick g)\<lparr>fs_files := (fs_files g)(?p \<mapsto> contents g ?p @ to_csv_line row)\<rparr>))"
    for g by (simp add: io_then_def fs_ops_fault_free)
  show "fst (write_row dir ws row i) = Inr ()"
    and "contents (ws_fs (snd (write_row dir ws row i))) ?p
      = (if contents (ws_fs ws) ?p = [] then CSV_HEADER else contents (ws_fs ws) ?p) @ to_csv_line row"
    and "set (ws_files (snd (write_row dir ws row i))) = insert ?t (set (ws_files ws))"
    using assms(1) o f t
    by (auto simp: write_row_def Let_def line)
qed

lemma fault_free_cong: "fs_fault f = fs_fault g \<Longrightarrow> fault_free f = fault_free g"
  by (simp add: fault_free_def)

lemma contents_cong: "fs_files f p = fs_files g p \<Longrightarrow> contents f p = contents g p"
  by (simp add: contents_def)

lemma writer_fault [simp]:
  "fs_fault (ws_fs (writer_loop env dir cmds ws)) = fs_fault (ws_fs ws)"
proof (induction cmds rule: rev_induct)
  case (snoc c cs)
  then show ?case by (cases c) simp_all
qed simp

lemma writer_step_row:
  assumes "fault_free (ws_fs ws)" and "headed dir ws"
  shows "contents (ws_fs (writer_step env dir ws (CmdRow row i))) (session_path dir t) =
      (if session_path dir t = session_path dir (id_thread_id i)
       then (if contents (ws_fs ws) (session_path dir t) = [] then CSV_HEADER
             else contents (ws_fs ws) (session_path dir t)) @ to_csv_line row
       else contents (ws_fs ws) (session_path dir t))"
    and "set (ws_files (writer_step env dir ws (CmdRow row i))) = insert (id_thread_id i) (set (ws_files ws))"
proof -
  let ?w = "snd (write_row dir ws row i)"
  have "contents (ws_fs (writer_step env dir ws (CmdRow row i))) (session_path dir t)
      = contents (ws_fs ?w) (session_path dir t)"
    by (rule contents_cong) (simp add: update_meta_frame history_paths_distinct)
  moreover have "contents (ws_fs ?w) q = contents (ws_fs ws) q"
    if "q \<noteq> session_path dir (id_thread_id i)" for q
    by (rule contents_cong) (simp add: write_row_frame that)
  ultimately show "contents (ws_fs (writer_step env dir ws (CmdRow row i))) (session_path dir t) =
      (if session_path dir t = session_path dir (id_thread_id i)
       then (if contents (ws_fs ws) (session_path dir t) = [] then CSV_HEADER
             else contents (ws_fs ws) (session_path dir t)) @ to_csv_line row
       else contents (ws_fs ws) (session_path dir t))"
    using write_row_ok(2) [OF assms, of row i] by simp
qed (simp add: write_row_ok(3) [OF assms])

lemma writer_step_flush:
  "contents (ws_fs (writer_step env dir ws CmdFlush)) (session_path dir t)
     = contents (ws_fs ws) (session_path dir t)"
  "ws_files (writer_step env dir ws CmdFlush) = ws_files ws"
  by (rule contents_cong, simp_all add: flush_metas_csv_frame)

lemma writer_step_headed:
  assumes "fault_free (ws_fs ws)" and "headed dir ws"
  shows "headed dir (writer_step env dir ws c)"
proof (cases c)
  case (CmdRow row i)
  show ?thesis
    using assms(2)
    by (simp add: CmdRow headed_def writer_step_row [OF assms] del: writer_step.simps)
next
  case CmdFlush
  then show ?thesis using assms(2) by (simp add: headed_def writer_step_flush del: writer_step.simps)
qed

lemma writer_headed: "fault_free f \<Longrightarrow> headed dir (writer_run env dir f cmds)"
proof (induction cmds rule: rev_induct)
  case (snoc c cs)
  then show ?case
    using writer_step_headed [of "writer_run env dir f cs" dir env c]
    by (simp add: fault_free_def writer_start_def del: writer_step.simps)
qed (simp add: headed_def writer_start_def)

text \<open>After any run, a history file holds what it held before, or the header if that was nothing,
  followed by the rows addressed to it, in the order they were sent.\<close>

lemma writer_history:
  assumes "fault_free f"
  shows "contents (ws_fs (writer_run env dir f cmds)) (session_path dir t) =
    (if rows_for_path dir (session_path dir t) cmds = [] then contents f (session_path dir t)
     else (if contents f (session_path dir t) = [] then CSV_HEADER
           else contents f (session_path dir t))
          @ concat (map to_csv_line (rows_for_path dir (session_path dir t) cmds)))"
proof (induction cmds rule: rev_induct)
  case Nil
  show ?case by (simp add: writer_start_def)
next
  case (snoc c cs)
  have ff: "fault_free (ws_fs (writer_run env dir f cs))"
    using assms by (simp add: writer_start_def fault_free_def)
  show ?case
  proof (cases c)
    case (CmdRow row i)
    show ?thesis
      using snoc
      by (auto simp: CmdRow writer_step_row [OF ff writer_headed [OF assms]] rows_for_path_append
          simp del: writer_step.simps split: if_splits)
  next
    case CmdFlush
    show ?thesis
      using snoc by (simp add: CmdFlush writer_step_flush rows_for_path_append del: writer_step.simps)
  qed
qed

lemma csv_decode_header:
  "csv_decode (CSV_HEADER @ rest) =
     map_option ((#) [''ts'', ''turn_id'', ''kind'', ''phase'', ''tool'', ''call_id'', ''decision'',
       ''reason'', ''tokens_in'', ''tokens_out'', ''tokens_total'', ''context_used'',
       ''context_limit'', ''detail'']) (csv_decode rest)"
  by (simp add: csv_decode_def CSV_HEADER_def)

subsection \<open>The sidecars\<close>

lemma map_of_replace:
  "map_of (map (\<lambda>(k, m). (k, if k = t then x else m)) xs) k =
     (if k = t \<and> map_of xs k \<noteq> None then Some x else map_of xs k)"
  by (induction xs) auto

lemma update_meta_metas:
  "map_of (ws_metas (snd (update_meta env dir ws row i))) t =
     (if t = id_thread_id i
      then Some (fst (observe
             (case map_of (ws_metas ws) t of
                Some m \<Rightarrow> m
              | None \<Rightarrow> session_meta_new row i (csv_file_name t)) row i))
      else map_of (ws_metas ws) t)"
proof (cases "map_of (ws_metas ws) (id_thread_id i)")
  case None
  then show ?thesis
    by (auto simp: update_meta_def Let_def split_beta map_add_def split: option.split)
next
  case (Some m)
  then show ?thesis
    by (auto simp: update_meta_def Let_def split_beta map_of_replace)
qed

text \<open>The sidecar the writer holds in memory is the fold of the thread's rows, whatever the disk
  does.\<close>

lemma writer_metas:
  "map_of (ws_metas (writer_run env dir f cmds)) t =
     (case rows_for_thread t cmds of
        [] \<Rightarrow> None
      | (row, i) # xs \<Rightarrow>
          Some (observe_all (session_meta_new row i (csv_file_name t)) ((row, i) # xs)))"
proof (induction cmds rule: rev_induct)
  case Nil
  show ?case by (simp add: writer_start_def)
next
  case (snoc c cs)
  show ?case
  proof (cases c)
    case (CmdRow row i)
    show ?thesis
      using snoc
      by (auto simp: CmdRow update_meta_metas rows_for_thread_append observe_all_def
          split: list.splits)
  next
    case CmdFlush
    then show ?thesis using snoc by (simp add: rows_for_thread_append)
  qed
qed

text \<open>Under any failures, a sidecar on disk is what it was at the start or one complete body.\<close>

definition sidecar_bodies :: "csv_env \<Rightarrow> string option set" where
  "sidecar_bodies env = {Some (meta_body b) | m b. env_ser_meta env m = Inr b}"

lemma write_session_meta_bodies:
  assumes "fs_files f (meta_path dir t) \<in> S" and "sidecar_bodies env \<subseteq> S"
  shows "fs_files (snd (write_session_meta (env_ser_meta env) (meta_path dir t') m f)) (meta_path dir t) \<in> S"
proof (cases "meta_path dir t = meta_path dir t'")
  case True
  show ?thesis
  proof (cases "env_ser_meta env m")
    case (Inl e)
    then show ?thesis using assms by (simp add: write_session_meta_def)
  next
    case (Inr b)
    then have "Some (meta_body b) \<in> S" using assms(2) by (auto simp: sidecar_bodies_def)
    moreover have "fs_files (snd (write_session_meta (env_ser_meta env) (meta_path dir t) m f))
        (meta_path dir t) \<in> {fs_files f (meta_path dir t), Some (meta_body b)}"
      by (rule write_session_meta_atomic) (simp_all add: Inr history_paths_distinct(3) [symmetric])
    ultimately show ?thesis using assms(1) True by auto
  qed
next
  case False
  then show ?thesis using assms by (simp add: write_session_meta_frame history_paths_distinct)
qed

lemma writer_sidecar_whole:
  "fs_files (ws_fs (writer_run env dir f cmds)) (meta_path dir t)
     \<in> insert (fs_files f (meta_path dir t)) (sidecar_bodies env)"
    (is "?P (writer_run env dir f cmds)")
proof (induction cmds rule: rev_induct)
  case Nil
  show ?case by (simp add: writer_start_def)
next
  case (snoc c cs)
  show ?case
  proof (cases c)
    case (CmdRow row i)
    let ?w = "snd (write_row dir (writer_run env dir f cs) row i)"
    have "?P ?w"
      using snoc by (simp add: write_row_frame history_paths_distinct(1) [symmetric])
    then have "?P (snd (update_meta env dir ?w row i))"
      using update_meta_fs [of env dir ?w row i]
      by (metis write_session_meta_bodies subset_insertI)
    then show ?thesis by (simp add: CmdRow)
  next
    case CmdFlush
    let ?ws = "flush_files env (writer_run env dir f cs)"
    have "fs_files (fold (flush_one env dir (ws_metas ?ws)) ts (ws_fs ?ws)) (meta_path dir t)
        \<in> insert (fs_files f (meta_path dir t)) (sidecar_bodies env)" for ts
      using snoc
      by (intro flush_fold_pres [where P = "\<lambda>g. fs_files g (meta_path dir t)
            \<in> insert (fs_files f (meta_path dir t)) (sidecar_bodies env)"])
        (simp_all add: write_session_meta_bodies subset_insertI del: insert_iff
          split: option.split)
    then show ?thesis by (simp add: CmdFlush flush_metas_def)
  qed
qed

text \<open>Without faults, and when no two threads share a file stem, the sidecar on disk always agrees
  with memory on the fields a reader selects by, and a flush makes it agree on everything.\<close>

definition total_ser :: "csv_env \<Rightarrow> bool" where
  "total_ser env \<longleftrightarrow> (\<forall>m. \<exists>b. env_ser_meta env m = Inr b)"

definition stems_apart :: "string set \<Rightarrow> bool" where
  "stems_apart T \<longleftrightarrow> inj_on sanitize_file_stem T"

definition on_disk :: "csv_env \<Rightarrow> path \<Rightarrow> fs \<Rightarrow> string \<Rightarrow> session_meta \<Rightarrow> bool" where
  "on_disk env dir f t m \<longleftrightarrow>
     (\<exists>b. env_ser_meta env m = Inr b \<and> fs_files f (meta_path dir t) = Some (meta_body b))"

definition sidecars_current :: "csv_env \<Rightarrow> path \<Rightarrow> writer_state \<Rightarrow> bool" where
  "sidecars_current env dir ws \<longleftrightarrow>
     (\<forall>t m. map_of (ws_metas ws) t = Some m
        \<longrightarrow> (\<exists>m'. on_disk env dir (ws_fs ws) t m' \<and> selectors m' = selectors m))"

lemma write_session_meta_on_disk:
  assumes "fault_free f" and "total_ser env"
  shows "on_disk env dir (snd (write_session_meta (env_ser_meta env) (meta_path dir t) m f)) t m"
proof -
  obtain b where b: "env_ser_meta env m = Inr b" using assms(2) by (auto simp: total_ser_def)
  show ?thesis
    using write_session_meta_ok [OF assms(1), of "env_ser_meta env" m b "meta_path dir t"] b
    by (auto simp: on_disk_def history_paths_distinct(3) [symmetric])
qed

lemma on_disk_frame:
  assumes "on_disk env dir f t m" and "sanitize_file_stem t \<noteq> sanitize_file_stem t'"
  shows "on_disk env dir (snd (write_session_meta (env_ser_meta env) (meta_path dir t') m' f)) t m"
  using assms
  by (simp add: on_disk_def write_session_meta_frame history_paths_distinct meta_path_inject)

lemma stems_apartD:
  "stems_apart T \<Longrightarrow> t \<in> T \<Longrightarrow> t' \<in> T \<Longrightarrow> t \<noteq> t' \<Longrightarrow> sanitize_file_stem t \<noteq> sanitize_file_stem t'"
  by (auto simp: stems_apart_def inj_on_def)

lemma update_meta_eq:
  "update_meta env dir ws row i =
    (let t = id_thread_id i;
         m0 = (case map_of (ws_metas ws) t of
                 Some m \<Rightarrow> m | None \<Rightarrow> session_meta_new row i (csv_file_name t));
         m = fst (observe m0 row i);
         ws' = ws\<lparr>ws_metas := ws_metas (snd (update_meta env dir ws row i))\<rparr>
     in if snd (observe m0 row i) \<or> map_of (ws_metas ws) t = None
        then (fst (write_session_meta (env_ser_meta env) (meta_path dir t) m (ws_fs ws)),
              ws'\<lparr>ws_fs := snd (write_session_meta (env_ser_meta env) (meta_path dir t) m (ws_fs ws))\<rparr>)
        else (Inr (), ws'))"
  by (auto simp: update_meta_def Let_def split_beta split: option.splits)

lemma update_meta_current:
  assumes "fault_free (ws_fs ws)" and "total_ser env" and "sidecars_current env dir ws"
    and apart: "stems_apart T" "id_thread_id i \<in> T" "fst ` set (ws_metas ws) \<subseteq> T"
  shows "sidecars_current env dir (snd (update_meta env dir ws row i))"
  unfolding sidecars_current_def
proof (intro allI impI)
  fix t m assume m: "map_of (ws_metas (snd (update_meta env dir ws row i))) t = Some m"
  let ?u = "id_thread_id i"
  let ?m0 = "case map_of (ws_metas ws) ?u of
      Some m \<Rightarrow> m | None \<Rightarrow> session_meta_new row i (csv_file_name ?u)"
  let ?f = "snd (write_session_meta (env_ser_meta env) (meta_path dir ?u) (fst (observe ?m0 row i)) (ws_fs ws))"
  let ?written = "snd (observe ?m0 row i) \<or> map_of (ws_metas ws) ?u = None"
  have fs: "ws_fs (snd (update_meta env dir ws row i)) = (if ?written then ?f else ws_fs ws)"
    by (subst update_meta_eq) (simp add: Let_def)
  show "\<exists>m'. on_disk env dir (ws_fs (snd (update_meta env dir ws row i))) t m' \<and> selectors m' = selectors m"
  proof (cases "t = ?u")
    case True
    then have m_eq: "m = fst (observe ?m0 row i)" using m by (simp add: update_meta_metas)
    show ?thesis
    proof (cases ?written)
      case True
      then show ?thesis
        using write_session_meta_on_disk [OF assms(1,2)] \<open>t = ?u\<close> m_eq by (auto simp: fs)
    next
      case False
      then obtain m1 where m1: "map_of (ws_metas ws) ?u = Some m1" by auto
      with False have "selectors m = selectors m1" using observe_changed [of m1 row i] m_eq by simp
      with m1 assms(3) False show ?thesis by (auto simp: fs sidecars_current_def True)
    qed
  next
    case False
    then have old: "map_of (ws_metas ws) t = Some m" using m by (simp add: update_meta_metas)
    then have "t \<in> T" using apart(3) map_of_SomeD by fastforce
    then have "sanitize_file_stem t \<noteq> sanitize_file_stem ?u"
      using stems_apartD [OF apart(1) _ apart(2) False] by simp
    then show ?thesis
      using assms(3) old on_disk_frame by (fastforce simp: fs sidecars_current_def)
  qed
qed

text \<open>The threads a run has seen.\<close>

fun cmd_threads :: "cmd list \<Rightarrow> string set" where
  "cmd_threads [] = {}"
| "cmd_threads (CmdRow row i # cs) = insert (id_thread_id i) (cmd_threads cs)"
| "cmd_threads (CmdFlush # cs) = cmd_threads cs"

lemma cmd_threads_append [simp]: "cmd_threads (xs @ ys) = cmd_threads xs \<union> cmd_threads ys"
  by (induction xs rule: cmd_threads.induct) auto

lemma update_meta_keys:
  "fst ` set (ws_metas (snd (update_meta env dir ws row i)))
     = insert (id_thread_id i) (fst ` set (ws_metas ws))"
proof -
  have "dom (map_of (ws_metas (snd (update_meta env dir ws row i))))
      = insert (id_thread_id i) (dom (map_of (ws_metas ws)))"
    by (auto simp: update_meta_metas dom_def split: if_splits)
  then show ?thesis by (simp add: dom_map_of_conv_image_fst)
qed

lemma writer_keys: "fst ` set (ws_metas (writer_run env dir f cmds)) = cmd_threads cmds"
proof (induction cmds rule: rev_induct)
  case (snoc c cs)
  then show ?case by (cases c) (auto simp: update_meta_keys)
qed (simp add: writer_start_def)

lemma flush_fold_on_disk:
  assumes "total_ser env" and "stems_apart T" and "set ts \<subseteq> T" and "fault_free f"
    and "map_of metas t = Some m" and "t \<in> set ts"
  shows "on_disk env dir (fold (flush_one env dir metas) ts f) t m"
  using assms(3,6)
proof (induction ts rule: rev_induct)
  case (snoc u ts)
  let ?f = "fold (flush_one env dir metas) ts f"
  have "fs_fault ?f = fs_fault f"
    by (rule flush_fold_pres [where P = "\<lambda>g. fs_fault g = fs_fault f"])
      (simp_all split: option.split)
  then have ff: "fault_free ?f" using assms(4) by (simp add: fault_free_def)
  show ?case
  proof (cases "t = u")
    case True
    then show ?thesis using write_session_meta_on_disk [OF ff assms(1)] assms(5) by simp
  next
    case False
    then have "on_disk env dir ?f t m" using snoc by simp
    moreover have "sanitize_file_stem t \<noteq> sanitize_file_stem u"
      using stems_apartD [OF assms(2) _ _ False] snoc.prems by auto
    ultimately show ?thesis by (simp add: on_disk_frame split: option.split)
  qed
qed simp

definition iter_ok :: "csv_env \<Rightarrow> bool" where
  "iter_ok env \<longleftrightarrow> (\<forall>ks. set (env_iter env ks) = set ks)"

lemma flush_on_disk:
  assumes "total_ser env" and "iter_ok env" and "fault_free (ws_fs ws)"
    and "stems_apart (fst ` set (ws_metas ws))" and "map_of (ws_metas ws) t = Some m"
  shows "on_disk env dir (ws_fs (writer_step env dir ws CmdFlush)) t m"
proof -
  let ?ws = "flush_files env ws"
  have ff: "fault_free (ws_fs ?ws)"
    using assms(3) flush_files_simps(4) [of env ws] by (simp add: fault_free_def)
  have "t \<in> set (env_iter env (map fst (ws_metas ?ws)))"
    using assms(2,5) by (auto simp: iter_ok_def dest: map_of_SomeD intro: rev_image_eqI)
  moreover have "set (env_iter env (map fst (ws_metas ?ws))) \<subseteq> fst ` set (ws_metas ws)"
    using assms(2) by (simp add: iter_ok_def)
  ultimately have "on_disk env dir
      (fold (flush_one env dir (ws_metas ?ws)) (env_iter env (map fst (ws_metas ?ws))) (ws_fs ?ws)) t m"
    using flush_fold_on_disk [OF assms(1,4) _ ff, of _ "ws_metas ?ws" t m] assms(5) by simp
  then show ?thesis by (simp add: flush_metas_def)
qed

lemma writer_sidecars_current:
  assumes "fault_free f" and "total_ser env" and "iter_ok env" and "stems_apart (cmd_threads cmds)"
  shows "sidecars_current env dir (writer_run env dir f cmds)"
  using assms(4)
proof (induction cmds rule: rev_induct)
  case Nil
  show ?case by (simp add: sidecars_current_def writer_start_def)
next
  case (snoc c cs)
  let ?ws = "writer_run env dir f cs"
  have apart: "stems_apart (cmd_threads cs)"
    using snoc.prems by (auto simp: stems_apart_def intro: inj_on_subset)
  have ff: "fault_free (ws_fs ?ws)" using assms(1) by (simp add: fault_free_def writer_start_def)
  show ?case
  proof (cases c)
    case (CmdRow row i)
    let ?w = "snd (write_row dir ?ws row i)"
    have "sidecars_current env dir ?w"
      using snoc.IH [OF apart]
      by (simp add: sidecars_current_def on_disk_def write_row_frame
          history_paths_distinct(1) [symmetric])
    moreover have "fault_free (ws_fs ?w)" using ff write_row_fault by (metis fault_free_cong)
    ultimately have "sidecars_current env dir (snd (update_meta env dir ?w row i))"
      using assms(2) snoc.prems
      by (intro update_meta_current [of _ _ _ "cmd_threads (cs @ [c])"])
        (auto simp: CmdRow writer_keys)
    then show ?thesis by (simp add: CmdRow)
  next
    case CmdFlush
    have "on_disk env dir (ws_fs (writer_step env dir ?ws CmdFlush)) t m"
      if "map_of (ws_metas ?ws) t = Some m" for t m
      using flush_on_disk [OF assms(2,3) ff _ that] apart by (simp add: writer_keys)
    then show ?thesis by (auto simp: CmdFlush sidecars_current_def)
  qed
qed

subsection \<open>The guardian\<close>

text \<open>The writer's state once it has worked off its queue.\<close>

definition drained :: "csv_env \<Rightarrow> path \<Rightarrow> csv_world \<Rightarrow> writer_state" where
  "drained env dir w = writer_loop env dir (cw_queue w) (cw_writer w)"

lemma drained_take: "drained env dir (writer_take env dir w) = drained env dir w"
  by (simp add: drained_def writer_take_def writer_loop_def split: list.split)

lemma drained_send:
  "drained env dir (channel_send env dir c w) = writer_step env dir (drained env dir w) c"
  using drained_take [of env dir w] by (auto simp: channel_send_def drained_def Let_def)

lemma channel_send_bounded:
  "length (cw_queue w) \<le> CSV_QUEUE_DEPTH \<Longrightarrow>
     length (cw_queue (channel_send env dir c w)) \<le> CSV_QUEUE_DEPTH"
  by (auto simp: channel_send_def Let_def writer_take_def CSV_QUEUE_DEPTH_def split: list.split)

interpretation csv: observe_only "csv_guardian env dir"
    "\<lambda>w. length (cw_queue w) \<le> CSV_QUEUE_DEPTH" for env dir
  by unfold_locales
    (simp_all add: guard_simps channel_send_bounded csv_flush_def Let_def)

fun call_cmd :: "csv_env \<Rightarrow> guard_call \<Rightarrow> cmd" where
  "call_cmd env (CallReview ctx action) =
     CmdRow (for_action (env_cod env) ctx action Defer) (identity_from_context ctx)"
| "call_cmd env (CallRecord ctx activity) =
     CmdRow (for_activity (env_cod env) ctx activity) (identity_from_context ctx)"
| "call_cmd env CallFlush = CmdFlush"

lemma csv_step_drained:
  "drained env dir (guard_step (csv_guardian env dir) c w)
     = writer_step env dir (drained env dir w) (call_cmd env c)"
proof (cases c)
  case CallFlush
  have "drained env dir (csv_flush env dir w) = drained env dir (channel_send env dir CmdFlush w)"
    by (simp add: csv_flush_def drained_def Let_def)
  with CallFlush show ?thesis by (simp add: guard_simps drained_send del: writer_step.simps)
qed (simp_all add: guard_simps drained_send del: writer_step.simps)

text \<open>The writer works off exactly the session's calls, in their order, however the channel fills
  and drains.\<close>

lemma csv_drive_drained:
  "drained env dir (guard_drive (csv_guardian env dir) calls (csv_start f))
     = writer_run env dir f (map (call_cmd env) calls)"
proof (induction calls rule: rev_induct)
  case Nil
  show ?case by (simp add: guard_drive_def drained_def csv_start_def)
next
  case (snoc c cs)
  then show ?case by (simp add: guard_drive_def csv_step_drained del: writer_step.simps)
qed

end
