(* ===== verification/Guard_Ipc.thy ===== *)
theory Guard_Ipc
  imports Guard_Interface "HOL-Library.Sublist"
begin

text \<open>
  The guardian that asks a resident process over a Unix socket, from \<open>guardian/src/ipc.rs\<close>. One
  exchange with the peer is the record \<open>ipc_exchange\<close>: the error of each system call that fails, what
  the read gives, how much of the payload the socket has taken when the write fails or the deadline
  drops the exchange, and when the exchange ends (\<open>None\<close>: never), in milliseconds. The world gives the
  n-th exchange and lists what each connection was given. \<open>serde_json\<close> is a pair of arguments: the writer
  of requests and the reader of responses.
\<close>

definition PROTOCOL_VERSION :: nat where
  "PROTOCOL_VERSION = 1"

datatype guardian_request =
    ReqReview nat activity_context guarded_action
  | ReqRecord nat activity_context activity

record ipc_codec =
  ser_request :: "guardian_request \<Rightarrow> string + string"
  de_response :: "string \<Rightarrow> string + verdict"

record ipc_exchange =
  ix_connect :: "string option"
  ix_write :: "string option"
  ix_written :: nat
  ix_flush :: "string option"
  ix_read :: "string + string"
  ix_elapsed :: "nat option"

record ipc_world =
  iw_peer :: "nat \<Rightarrow> ipc_exchange"
  iw_next :: nat
  iw_sent :: "string list"

record ipc_config =
  ic_socket_path :: path
  ic_timeout :: nat
  ic_failure_posture :: failure_posture

definition ipc_new :: "path \<Rightarrow> nat \<Rightarrow> bool \<Rightarrow> ipc_config" where
  "ipc_new socket_path timeout fail_closed =
     \<lparr>ic_socket_path = socket_path, ic_timeout = timeout,
      ic_failure_posture = (if fail_closed then FailClosed else FailOpen)\<rparr>"

text \<open>The future that \<open>request\<close> runs under its deadline.\<close>

definition ipc_exchange_result ::
  "bool \<Rightarrow> ipc_exchange \<Rightarrow> guardian_error + string option" where
  "ipc_exchange_result await_reply x =
     (case ix_connect x of
        Some err \<Rightarrow> Inl (Unavailable err)
      | None \<Rightarrow>
     (case ix_write x of
        Some err \<Rightarrow> Inl (Unavailable err)
      | None \<Rightarrow>
     (case ix_flush x of
        Some err \<Rightarrow> Inl (Unavailable err)
      | None \<Rightarrow>
          if \<not> await_reply then Inr None
          else (case ix_read x of
                  Inl err \<Rightarrow> Inl (Unavailable err)
                | Inr line \<Rightarrow>
                    if line = []
                    then Inl (Unavailable ''connection closed before a verdict arrived'')
                    else Inr (Some line)))))"

text \<open>Dropped at the deadline, or stopped by an error of the write, the exchange leaves a part of the
  payload on the connection.\<close>

definition in_time :: "ipc_config \<Rightarrow> ipc_exchange \<Rightarrow> bool" where
  "in_time cfg x \<longleftrightarrow> (case ix_elapsed x of Some t \<Rightarrow> t \<le> ic_timeout cfg | None \<Rightarrow> False)"

definition ipc_written :: "ipc_config \<Rightarrow> string \<Rightarrow> ipc_exchange \<Rightarrow> string list" where
  "ipc_written cfg payload x =
     (if ix_connect x \<noteq> None then []
      else if in_time cfg x \<and> ix_write x = None then [payload]
      else [take (ix_written x) payload])"

definition ipc_request ::
  "ipc_config \<Rightarrow> string \<Rightarrow> bool \<Rightarrow> ipc_world \<Rightarrow> (guardian_error + string option) \<times> ipc_world" where
  "ipc_request cfg payload await_reply w =
     (let x = iw_peer w (iw_next w);
          w = w\<lparr>iw_next := Suc (iw_next w), iw_sent := iw_sent w @ ipc_written cfg payload x\<rparr>
      in (if in_time cfg x then ipc_exchange_result await_reply x else Inl Timeout, w))"

definition ipc_review ::
  "ipc_codec \<Rightarrow> ipc_config \<Rightarrow> activity_context \<Rightarrow> guarded_action \<Rightarrow> ipc_world
     \<Rightarrow> (guardian_error + verdict) \<times> ipc_world" where
  "ipc_review codec cfg ctx action w =
     (case ser_request codec (ReqReview PROTOCOL_VERSION ctx action) of
        Inl err \<Rightarrow> (Inl (Protocol err), w)
      | Inr s \<Rightarrow>
          (let (reply, w) = ipc_request cfg (s @ [CHR 0x0A]) True w
           in (result_bind reply (\<lambda>reply.
                case reply of
                  None \<Rightarrow> Inl (Protocol ''missing response'')
                | Some line \<Rightarrow> map_err Protocol (de_response codec (trim line))), w)))"

definition ipc_record ::
  "ipc_codec \<Rightarrow> ipc_config \<Rightarrow> activity_context \<Rightarrow> activity \<Rightarrow> ipc_world \<Rightarrow> ipc_world" where
  "ipc_record codec cfg ctx activity w =
     (case ser_request codec (ReqRecord PROTOCOL_VERSION ctx activity) of
        Inl err \<Rightarrow> w
      | Inr s \<Rightarrow> snd (ipc_request cfg (s @ [CHR 0x0A]) False w))"

definition ipc_guardian :: "ipc_codec \<Rightarrow> ipc_config \<Rightarrow> ipc_world guardian" where
  "ipc_guardian codec cfg =
     (guardian_defaults (ipc_review codec cfg) (ipc_record codec cfg))
       \<lparr>g_failure_posture := ic_failure_posture cfg\<rparr>"

lemmas [guard_simps] = ipc_guardian_def

subsection \<open>Where a verdict can come from\<close>

text \<open>The peer answered: every system call worked, within the deadline, and the line it sent parses
  to the verdict.\<close>

definition ipc_answered :: "ipc_codec \<Rightarrow> ipc_config \<Rightarrow> ipc_exchange \<Rightarrow> verdict \<Rightarrow> bool" where
  "ipc_answered codec cfg x v \<longleftrightarrow>
     ix_connect x = None \<and> ix_write x = None \<and> ix_flush x = None
     \<and> in_time cfg x
     \<and> (\<exists>line. ix_read x = Inr line \<and> line \<noteq> [] \<and> de_response codec (trim line) = Inr v)"

lemma ipc_review_Inr_iff:
  "fst (ipc_review codec cfg ctx action w) = Inr v \<longleftrightarrow>
     (\<exists>s. ser_request codec (ReqReview PROTOCOL_VERSION ctx action) = Inr s)
     \<and> ipc_answered codec cfg (iw_peer w (iw_next w)) v"
  by (auto simp: ipc_review_def ipc_request_def ipc_exchange_result_def ipc_answered_def Let_def
      split: sum.splits option.splits if_splits)

text \<open>A verdict of the peer is only taken from a connection that was given the whole request.\<close>

lemma ipc_verdict_whole_line:
  assumes "ipc_review codec cfg ctx action w = (Inr v, w')"
  shows "\<exists>line. ser_request codec (ReqReview PROTOCOL_VERSION ctx action) = Inr line
    \<and> iw_sent w' = iw_sent w @ [line @ [CHR 0x0A]]"
  using assms
  by (auto simp: ipc_review_def ipc_request_def ipc_written_def ipc_exchange_result_def Let_def
      split: sum.splits option.splits if_splits)

lemma ipc_request_world:
  "iw_peer (snd (ipc_request cfg payload b w)) = iw_peer w"
  "iw_next (snd (ipc_request cfg payload b w)) = Suc (iw_next w)"
  "\<exists>ps. iw_sent (snd (ipc_request cfg payload b w)) = iw_sent w @ ps \<and> length ps \<le> 1 \<and> (\<forall>p\<in>set ps. prefix p payload)"
  by (auto simp: ipc_request_def ipc_written_def Let_def take_is_prefix)

text \<open>Every connection was given a prefix of one line: a request of the current protocol version and the
  newline that ends it.\<close>

definition wire_ok :: "ipc_codec \<Rightarrow> ipc_world \<Rightarrow> bool" where
  "wire_ok codec w \<longleftrightarrow>
     (\<forall>s\<in>set (iw_sent w). \<exists>line. prefix s (line @ [CHR 0x0A])
        \<and> (\<exists>ctx. (\<exists>action. ser_request codec (ReqReview PROTOCOL_VERSION ctx action) = Inr line)
                \<or> (\<exists>activity. ser_request codec (ReqRecord PROTOCOL_VERSION ctx activity) = Inr line)))"

lemma ipc_request_wire:
  assumes "wire_ok codec w"
    and "(\<exists>action. ser_request codec (ReqReview PROTOCOL_VERSION ctx action) = Inr line)
      \<or> (\<exists>activity. ser_request codec (ReqRecord PROTOCOL_VERSION ctx activity) = Inr line)"
  shows "wire_ok codec (snd (ipc_request cfg (line @ [CHR 0x0A]) b w))"
proof -
  obtain ps where ps: "iw_sent (snd (ipc_request cfg (line @ [CHR 0x0A]) b w)) = iw_sent w @ ps"
    "\<forall>p\<in>set ps. prefix p (line @ [CHR 0x0A])"
    using ipc_request_world(3) [of cfg "line @ [CHR 0x0A]" b w] by blast
  have "\<exists>line. prefix p (line @ [CHR 0x0A])
      \<and> (\<exists>ctx. (\<exists>action. ser_request codec (ReqReview PROTOCOL_VERSION ctx action) = Inr line)
              \<or> (\<exists>activity. ser_request codec (ReqRecord PROTOCOL_VERSION ctx activity) = Inr line))"
    if "p \<in> set ps" for p
    using that ps(2) assms(2) by blast
  then show ?thesis using assms(1) unfolding wire_ok_def ps(1) set_append by blast
qed

interpretation ipc: guardian_laws "ipc_guardian codec cfg" "wire_ok codec" for codec cfg
proof
  fix w ctx action assume w: "wire_ok codec w"
  show "wire_ok codec (snd (g_review (ipc_guardian codec cfg) ctx action w))"
  proof (cases "ser_request codec (ReqReview PROTOCOL_VERSION ctx action)")
    case (Inr line)
    then show ?thesis
      using ipc_request_wire [OF w, of ctx line cfg True] by (auto simp: guard_simps ipc_review_def split_beta)
  qed (simp add: w guard_simps ipc_review_def)
next
  fix w ctx activity assume w: "wire_ok codec w"
  show "wire_ok codec (g_record (ipc_guardian codec cfg) ctx activity w)"
  proof (cases "ser_request codec (ReqRecord PROTOCOL_VERSION ctx activity)")
    case (Inr line)
    then show ?thesis
      using ipc_request_wire [OF w, of ctx line cfg False] by (auto simp: guard_simps ipc_record_def)
  qed (simp add: w guard_simps ipc_record_def)
qed (simp_all add: guard_simps)

end
