(* ===== verification/Guard_Api.thy ===== *)
theory Guard_Api
  imports Guard_Interface
begin

text \<open>
  The guardian that asks an HTTP backend, from \<open>guardian/src/api.rs\<close>: the endpoint, the submission of
  a review, the polling of a pending one, the mapping of failures onto guard errors and the deadline
  over all of it. Times are milliseconds. The backend is a function that gives the k-th exchange of
  a review (0 is the submission) as an outcome and its duration; \<open>reqwest\<close>, \<open>url\<close> and
  \<open>serde_json\<close> are arguments. The polling loop need not end, so its result is an option; a future
  that does not end is what the deadline turns into \<open>Timeout\<close>.
\<close>

definition REVIEWS_PATH :: string where "REVIEWS_PATH = ''v1/reviews''"
definition ACTIVITIES_PATH :: string where "ACTIVITIES_PATH = ''v1/activities''"
definition DEFAULT_POLL_INTERVAL :: nat where "DEFAULT_POLL_INTERVAL = 250"
definition MAX_POLL_INTERVAL :: nat where "MAX_POLL_INTERVAL = 5000"

subsection \<open>The endpoint\<close>

datatype api_endpoint_error =
    Malformed string
  | UnsupportedScheme string

fun api_endpoint_error_display :: "api_endpoint_error \<Rightarrow> string" where
  "api_endpoint_error_display (Malformed detail) = ''not a valid URL: '' @ detail"
| "api_endpoint_error_display (UnsupportedScheme scheme) =
     ''unsupported scheme `'' @ scheme @ ''`, expected http or https''"

text \<open>The operations of the \<open>url\<close> crate that the code calls, over an abstract type of URLs.\<close>

record 'u url_lib =
  url_parse :: "string \<Rightarrow> string + 'u"
  url_scheme :: "'u \<Rightarrow> string"
  url_path :: "'u \<Rightarrow> string"
  url_set_path :: "'u \<Rightarrow> string \<Rightarrow> 'u"
  url_join :: "'u \<Rightarrow> string \<Rightarrow> string + 'u"

record 'u api_endpoint =
  ep_base :: 'u
  ep_reviews :: 'u
  ep_activities :: 'u

definition api_endpoint_parse ::
  "'u url_lib \<Rightarrow> string \<Rightarrow> api_endpoint_error + 'u api_endpoint" where
  "api_endpoint_parse lib base =
     (let trimmed = trim base
      in result_bind (map_err (\<lambda>err. Malformed (trimmed @ '': '' @ err)) (url_parse lib trimmed))
        (\<lambda>normalized.
          if url_scheme lib normalized \<noteq> ''http'' \<and> url_scheme lib normalized \<noteq> ''https''
          then Inl (UnsupportedScheme (url_scheme lib normalized))
          else
            (let normalized =
               (if ends_with (url_path lib normalized) ''/'' then normalized
                else url_set_path lib normalized (url_path lib normalized @ ''/''))
             in result_bind (map_err Malformed (url_join lib normalized REVIEWS_PATH)) (\<lambda>reviews.
                result_bind (map_err Malformed (url_join lib normalized ACTIVITIES_PATH)) (\<lambda>activities.
                Inr \<lparr>ep_base = normalized, ep_reviews = reviews, ep_activities = activities\<rparr>)))))"

subsection \<open>Responses and errors\<close>

datatype review_status = Decided | Pending

record review_response =
  rr_status :: review_status
  rr_verdict :: "verdict option"

record reqwest_error =
  re_is_timeout :: bool
  re_is_decode :: bool
  re_is_body :: bool
  re_text :: string

text \<open>One response: its status, the two headers the client reads (\<open>None\<close> when absent or not plain
  text), its body as text and as the JSON of a review.\<close>

record http_response =
  rs_status :: nat
  rs_location :: "string option"
  rs_retry_after :: "string option"
  rs_text :: "string option"
  rs_json :: "string + review_response"

type_synonym exchange = "(reqwest_error + http_response) \<times> nat"

datatype problem_kind = ProblemUnavailable | ProblemTimeout | ProblemProtocol

record problem_details =
  pd_title :: "string option"
  pd_detail :: "string option"
  pd_guardian_error :: "problem_kind option"

record api_lib =
  al_status_text :: "nat \<Rightarrow> string"
  al_de_problem :: "string \<Rightarrow> problem_details option"
  al_join_location :: "string \<Rightarrow> string + string"

definition is_success :: "nat \<Rightarrow> bool" where
  "is_success status \<longleftrightarrow> 200 \<le> status \<and> status < 300"

definition is_server_error :: "nat \<Rightarrow> bool" where
  "is_server_error status \<longleftrightarrow> 500 \<le> status \<and> status < 600"

definition problem_message :: "problem_details \<Rightarrow> string option" where
  "problem_message p = (case pd_detail p of Some d \<Rightarrow> Some d | None \<Rightarrow> pd_title p)"

definition transport_error :: "reqwest_error \<Rightarrow> guardian_error" where
  "transport_error err =
     (if re_is_timeout err then Timeout
      else if re_is_decode err \<or> re_is_body err then Protocol (re_text err)
      else Unavailable (re_text err))"

definition status_error :: "api_lib \<Rightarrow> nat \<Rightarrow> string option \<Rightarrow> guardian_error" where
  "status_error lib status body =
     (let problem = Option.bind body (al_de_problem lib);
          detail =
            (case Option.bind problem problem_message of
               Some m \<Rightarrow> m
             | None \<Rightarrow>
                 (case body of
                    Some b \<Rightarrow> if trim b \<noteq> [] then b else al_status_text lib status
                  | None \<Rightarrow> al_status_text lib status))
      in case Option.bind problem pd_guardian_error of
           Some ProblemUnavailable \<Rightarrow> Unavailable detail
         | Some ProblemTimeout \<Rightarrow> Timeout
         | Some ProblemProtocol \<Rightarrow> Protocol detail
         | None \<Rightarrow>
             (if status = 504 \<or> status = 408 then Timeout
              else if status = 401 \<or> status = 403
                then Unavailable (''backend rejected our credentials: '' @ detail)
              else if status = 429 then Unavailable (''backend is shedding load: '' @ detail)
              else if is_server_error status then Unavailable detail
              else Protocol (al_status_text lib status @ '': '' @ detail)))"

definition retry_after :: "http_response \<Rightarrow> nat option" where
  "retry_after r =
     Option.bind (rs_retry_after r) (\<lambda>h.
     Option.bind (parse_u64 (trim h)) (\<lambda>seconds.
     Some (min (1000 * seconds) MAX_POLL_INTERVAL)))"

definition parse_review :: "http_response \<Rightarrow> guardian_error + review_response" where
  "parse_review r = map_err Protocol (rs_json r)"

definition decided_verdict :: "review_response \<Rightarrow> guardian_error + verdict" where
  "decided_verdict review =
     (case rr_verdict review of
        Some v \<Rightarrow> Inr v
      | None \<Rightarrow> Inl (Protocol ''decided review carried no verdict''))"

subsection \<open>Submitting and polling\<close>

definition idempotency_key :: "activity_context \<Rightarrow> guarded_action \<Rightarrow> string" where
  "idempotency_key ctx action =
     ctx_thread_id ctx @ ''/'' @ ctx_turn_id ctx @ ''/'' @ action_kind action @ ''/''
       @ (case action_call_id action of Some c \<Rightarrow> c | None \<Rightarrow> ''-'')"

text \<open>What one poll makes of an exchange: \<open>Inl\<close> is the loop's result, \<open>Inr\<close> the delay before the
  next poll.\<close>

definition poll_outcome ::
  "api_lib \<Rightarrow> reqwest_error + http_response \<Rightarrow> (guardian_error + verdict) + nat" where
  "poll_outcome lib x =
     (case x of
        Inl err \<Rightarrow> Inl (Inl (transport_error err))
      | Inr r \<Rightarrow>
          if \<not> is_success (rs_status r) then Inl (Inl (status_error lib (rs_status r) (rs_text r)))
          else (case parse_review r of
                  Inl err \<Rightarrow> Inl (Inl err)
                | Inr review \<Rightarrow>
                    if rr_status review = Pending
                    then Inr (case retry_after r of Some d \<Rightarrow> d | None \<Rightarrow> DEFAULT_POLL_INTERVAL)
                    else Inl (decided_verdict review)))"

text \<open>The loop of \<open>poll_review\<close> from the k-th exchange on, at time \<open>now\<close>: its result and the time it
  ends.\<close>

partial_function (option) poll_loop ::
  "api_lib \<Rightarrow> (nat \<Rightarrow> exchange) \<Rightarrow> nat \<Rightarrow> nat \<Rightarrow> nat \<Rightarrow> ((guardian_error + verdict) \<times> nat) option" where
  "poll_loop lib backend k now delay =
     (case poll_outcome lib (fst (backend k)) of
        Inl r \<Rightarrow> Some (r, now + delay + snd (backend k))
      | Inr delay' \<Rightarrow> poll_loop lib backend (Suc k) (now + delay + snd (backend k)) delay')"

definition poll_review ::
  "api_lib \<Rightarrow> (nat \<Rightarrow> exchange) \<Rightarrow> nat \<Rightarrow> nat option \<Rightarrow> ((guardian_error + verdict) \<times> nat) option" where
  "poll_review lib backend now first_delay =
     poll_loop lib backend 1 now
       (case first_delay of Some d \<Rightarrow> d | None \<Rightarrow> DEFAULT_POLL_INTERVAL)"

definition submit_review ::
  "api_lib \<Rightarrow> (nat \<Rightarrow> exchange) \<Rightarrow> ((guardian_error + verdict) \<times> nat) option" where
  "submit_review lib backend =
     (let (outcome, t) = backend 0
      in case outcome of
           Inl err \<Rightarrow> Some (Inl (transport_error err), t)
         | Inr r \<Rightarrow>
             if rs_status r = 202 then
               (case rs_location r of
                  None \<Rightarrow> Some (Inl (Protocol ''202 pending review without a Location header''), t)
                | Some location \<Rightarrow>
                    (case al_join_location lib location of
                       Inl err \<Rightarrow> Some (Inl (Protocol (''unusable Location: '' @ err)), t)
                     | Inr _ \<Rightarrow> poll_review lib backend t (retry_after r)))
             else if \<not> is_success (rs_status r)
               then Some (Inl (status_error lib (rs_status r) (rs_text r)), t)
             else Some (result_bind (parse_review r) decided_verdict, t))"

text \<open>\<open>tokio::time::timeout\<close>: a future that ends by the deadline gives its result, any other is cut
  off.\<close>

definition with_deadline ::
  "nat \<Rightarrow> ((guardian_error + 'a) \<times> nat) option \<Rightarrow> guardian_error + 'a" where
  "with_deadline deadline fut =
     (case fut of
        Some (r, t) \<Rightarrow> if t \<le> deadline then r else Inl Timeout
      | None \<Rightarrow> Inl Timeout)"

record api_config =
  ac_bearer_token :: "string option"
  ac_timeout :: nat
  ac_failure_posture :: failure_posture

definition api_with_client :: "string option \<Rightarrow> nat \<Rightarrow> bool \<Rightarrow> api_config" where
  "api_with_client bearer_token timeout fail_closed =
     \<lparr>ac_bearer_token = bearer_token, ac_timeout = timeout,
      ac_failure_posture = (if fail_closed then FailClosed else FailOpen)\<rparr>"

definition api_review_result ::
  "api_lib \<Rightarrow> api_config \<Rightarrow> (nat \<Rightarrow> exchange) \<Rightarrow> guardian_error + verdict" where
  "api_review_result lib cfg backend = with_deadline (ac_timeout cfg) (submit_review lib backend)"

subsection \<open>What the loop computes\<close>

lemma poll_loop_sound:
  assumes "poll_loop lib backend k now delay = Some (r, t)"
  shows "\<exists>n\<ge>k. poll_outcome lib (fst (backend n)) = Inl r
    \<and> (\<forall>j. k \<le> j \<and> j < n \<longrightarrow> (\<exists>d. poll_outcome lib (fst (backend j)) = Inr d))"
proof -
  let ?P = "\<lambda>l b k rt. \<exists>n\<ge>k. poll_outcome l (fst (b n)) = Inl (fst rt)
    \<and> (\<forall>j. k \<le> j \<and> j < n \<longrightarrow> (\<exists>d. poll_outcome l (fst (b j)) = Inr d))"
  have "?P lib backend k (r, t)"
  proof (rule poll_loop.raw_induct [where P = "\<lambda>l b k now delay rt. ?P l b k rt", OF _ assms])
    fix loop l b k now delay rt
    assume IH: "\<And>l b k now delay rt. loop l b k now delay = Some rt \<Longrightarrow> ?P l b k rt"
      and eq: "(case poll_outcome l (fst (b k)) of
          Inl r \<Rightarrow> Some (r, now + delay + snd (b k))
        | Inr delay' \<Rightarrow> loop l b (Suc k) (now + delay + snd (b k)) delay') = Some rt"
    show "?P l b k rt"
    proof (cases "poll_outcome l (fst (b k))")
      case (Inl r)
      then show ?thesis using eq by (intro exI [of _ k]) auto
    next
      case (Inr d)
      then have "loop l b (Suc k) (now + delay + snd (b k)) d = Some rt"
        using eq by simp
      then obtain n where "Suc k \<le> n" "poll_outcome l (fst (b n)) = Inl (fst rt)"
        "\<forall>j. Suc k \<le> j \<and> j < n \<longrightarrow> (\<exists>d. poll_outcome l (fst (b j)) = Inr d)"
        using IH by blast
      then show ?thesis using Inr by (metis Suc_leD Suc_leI order_le_less)
    qed
  qed
  then show ?thesis by simp
qed

text \<open>The time of the n-th poll's answer: the durations and delays up to it.\<close>

fun poll_time :: "api_lib \<Rightarrow> (nat \<Rightarrow> exchange) \<Rightarrow> nat \<Rightarrow> nat \<Rightarrow> nat \<Rightarrow> nat \<Rightarrow> nat" where
  "poll_time lib backend k now delay 0 = now + delay + snd (backend k)"
| "poll_time lib backend k now delay (Suc n) =
     poll_time lib backend (Suc k) (now + delay + snd (backend k))
       (case poll_outcome lib (fst (backend k)) of Inr d \<Rightarrow> d | Inl _ \<Rightarrow> 0) n"

lemma poll_loop_complete:
  assumes "poll_outcome lib (fst (backend (k + n))) = Inl r"
    and "\<forall>j<n. \<exists>d. poll_outcome lib (fst (backend (k + j))) = Inr d"
  shows "poll_loop lib backend k now delay = Some (r, poll_time lib backend k now delay n)"
  using assms
proof (induction n arbitrary: k now delay)
  case 0
  then show ?case by (subst poll_loop.simps) simp
next
  case (Suc n)
  obtain d where d: "poll_outcome lib (fst (backend k)) = Inr d" using Suc.prems(2) by fastforce
  have "\<forall>j<n. \<exists>d. poll_outcome lib (fst (backend (Suc k + j))) = Inr d"
    using Suc.prems(2) by (metis Suc_less_eq add_Suc add_Suc_right)
  then have "poll_loop lib backend (Suc k) (now + delay + snd (backend k)) d
      = Some (r, poll_time lib backend (Suc k) (now + delay + snd (backend k)) d n)"
    using Suc.IH [of "Suc k"] Suc.prems(1) by simp
  then show ?case by (subst poll_loop.simps) (simp add: d)
qed

lemma poll_loop_pending:
  "\<forall>j\<ge>k. \<exists>d. poll_outcome lib (fst (backend j)) = Inr d \<Longrightarrow> poll_loop lib backend k now delay = None"
  by (metis poll_loop_sound option.exhaust surj_pair sum.distinct(1))

subsection \<open>Where a verdict can come from\<close>

text \<open>The response carries the verdict: a success status and a JSON body of a review that has one.\<close>

definition carries :: "reqwest_error + http_response \<Rightarrow> verdict \<Rightarrow> bool" where
  "carries x v \<longleftrightarrow>
     (\<exists>r review. x = Inr r \<and> is_success (rs_status r) \<and> rs_json r = Inr review
        \<and> rr_verdict review = Some v)"

lemma decided_verdict_Inr [simp]: "decided_verdict review = Inr v \<longleftrightarrow> rr_verdict review = Some v"
  by (simp add: decided_verdict_def split: option.split)

lemma poll_outcome_verdict: "poll_outcome lib x = Inl (Inr v) \<Longrightarrow> carries x v"
  by (auto simp: poll_outcome_def carries_def parse_review_def split: sum.splits if_splits)

lemma poll_outcome_delay: "poll_outcome lib x = Inr d \<Longrightarrow> d \<le> MAX_POLL_INTERVAL"
  by (auto simp: poll_outcome_def retry_after_def MAX_POLL_INTERVAL_def DEFAULT_POLL_INTERVAL_def
      split: sum.splits if_splits option.splits Option.bind_splits)

lemma submit_review_verdict:
  assumes "submit_review lib backend = Some (Inr v, t)"
  shows "\<exists>k. carries (fst (backend k)) v"
proof -
  obtain x d where x: "backend 0 = (x, d)" by fastforce
  show ?thesis
  proof (cases "\<exists>now fd. poll_review lib backend now fd = Some (Inr v, t)")
    case True
    then show ?thesis
      by (auto simp: poll_review_def dest!: poll_loop_sound dest: poll_outcome_verdict)
  next
    case False
    then have "carries (fst (backend 0)) v"
      using assms x
      by (auto simp: submit_review_def carries_def parse_review_def is_success_def
          split: sum.splits if_splits option.splits)
    then show ?thesis by blast
  qed
qed

lemma with_deadline_Inr:
  "with_deadline deadline fut = Inr v \<longleftrightarrow> (\<exists>t\<le>deadline. fut = Some (Inr v, t))"
  by (auto simp: with_deadline_def split: option.splits prod.splits if_splits)

end
