(* ===== verification/Record_Queue.thy ===== *)
theory Record_Queue
  imports Guard_Api "HOL-Library.Sublist"
begin

text \<open>
  The background delivery of activities to the HTTP backend, from \<open>guardian/src/api.rs\<close>
  (\<open>RecordCmd\<close>, \<open>record\<close>, \<open>flush\<close>, \<open>RecordSender::send\<close>, \<open>record_loop\<close>), as a state machine: producers
  put commands into a bounded channel while the consumer, at any point of its loop, takes them out,
  forms batches, posts them and then acknowledges a flush. The one-shot channel of a flush is its
  ticket, fresh for each one; \<open>rq_woken\<close> lists the tickets that were answered. Bookkeeping for the
  statements only, which no step reads, are \<open>rq_accepted\<close> (the activities the channel took),
  \<open>rq_dropped\<close> (those it refused), \<open>rq_acked\<close> and the second number of a flush command, its mark: the
  count of activities accepted before it. Whether a post reached the backend is not seen by the loop,
  which logs a failure and goes on; \<open>rq_posted\<close> lists the batches handed to the sender. The channel
  stays open: its receiver ends only when every sender is gone.
\<close>

definition QUEUE_DEPTH :: nat where "QUEUE_DEPTH = 512"
definition MAX_BATCH :: nat where "MAX_BATCH = 64"

record activity_envelope =
  env_context :: activity_context
  env_activity :: activity

datatype record_cmd = RecActivity activity_envelope | RecFlush nat nat

text \<open>Where the consumer stands: waiting in \<open>recv\<close>, in the inner loop that drains what is queued, past
  it and about to send, or past the send and about to acknowledge; the last three with the pending
  acknowledgement, the ticket and mark of a flush.\<close>

datatype consumer_pc =
    Waiting
  | Filling "(nat \<times> nat) option"
  | Sending "(nat \<times> nat) option"
  | Acking "(nat \<times> nat) option"

record record_queue =
  rq_queue :: "record_cmd list"
  rq_pc :: consumer_pc
  rq_batch :: "activity_envelope list"
  rq_posted :: "activity_envelope list list"
  rq_next_ticket :: nat
  rq_woken :: "nat list"
  rq_acked :: "nat list"
  rq_accepted :: "activity_envelope list"
  rq_dropped :: "activity_envelope list"

definition rq_start :: record_queue where
  "rq_start = \<lparr>rq_queue = [], rq_pc = Waiting, rq_batch = [], rq_posted = [],
     rq_next_ticket = 0, rq_woken = [], rq_acked = [], rq_accepted = [], rq_dropped = []\<rparr>"

text \<open>The producers: \<open>try_send\<close> drops on overflow; a flush waits for room.\<close>

definition try_send :: "activity_envelope \<Rightarrow> record_queue \<Rightarrow> record_queue" where
  "try_send e s =
     (if length (rq_queue s) < QUEUE_DEPTH
      then s\<lparr>rq_queue := rq_queue s @ [RecActivity e], rq_accepted := rq_accepted s @ [e]\<rparr>
      else s\<lparr>rq_dropped := rq_dropped s @ [e]\<rparr>)"

definition send_flush :: "record_queue \<Rightarrow> record_queue option" where
  "send_flush s =
     (if length (rq_queue s) < QUEUE_DEPTH
      then Some (s\<lparr>rq_queue := rq_queue s @ [RecFlush (rq_next_ticket s) (length (rq_accepted s))],
                   rq_next_ticket := Suc (rq_next_ticket s)\<rparr>)
      else None)"

text \<open>The consumer's next step, \<open>None\<close> when it waits on an empty channel.\<close>

definition send_batch :: "activity_envelope list \<Rightarrow> activity_envelope list list \<Rightarrow> activity_envelope list list"
where
  "send_batch items posted = (if items = [] then posted else posted @ [items])"

definition consumer_step :: "record_queue \<Rightarrow> record_queue option" where
  "consumer_step s =
     (case rq_pc s of
        Waiting \<Rightarrow>
          (case rq_queue s of
             [] \<Rightarrow> None
           | RecActivity e # cs \<Rightarrow>
               Some (s\<lparr>rq_queue := cs, rq_batch := rq_batch s @ [e], rq_pc := Filling None\<rparr>)
           | RecFlush k n # cs \<Rightarrow> Some (s\<lparr>rq_queue := cs, rq_pc := Filling (Some (k, n))\<rparr>))
      | Filling ack \<Rightarrow>
          (if length (rq_batch s) < MAX_BATCH \<and> ack = None
           then (case rq_queue s of
                   [] \<Rightarrow> Some (s\<lparr>rq_pc := Sending ack\<rparr>)
                 | RecActivity e # cs \<Rightarrow>
                     Some (s\<lparr>rq_queue := cs, rq_batch := rq_batch s @ [e]\<rparr>)
                 | RecFlush k n # cs \<Rightarrow> Some (s\<lparr>rq_queue := cs, rq_pc := Filling (Some (k, n))\<rparr>))
           else Some (s\<lparr>rq_pc := Sending ack\<rparr>))
      | Sending ack \<Rightarrow>
          Some (s\<lparr>rq_posted := send_batch (rq_batch s) (rq_posted s), rq_batch := [], rq_pc := Acking ack\<rparr>)
      | Acking ack \<Rightarrow>
          Some (case ack of
                  Some (k, n) \<Rightarrow>
                    s\<lparr>rq_woken := rq_woken s @ [k], rq_acked := rq_acked s @ [n], rq_pc := Waiting\<rparr>
                | None \<Rightarrow> s\<lparr>rq_pc := Waiting\<rparr>))"

inductive rq_step :: "record_queue \<Rightarrow> record_queue \<Rightarrow> bool" where
  produce: "rq_step s (try_send e s)"
| flush: "send_flush s = Some t \<Longrightarrow> rq_step s t"
| consume: "consumer_step s = Some t \<Longrightarrow> rq_step s t"

inductive rq_reachable :: "record_queue \<Rightarrow> bool" where
  start: "rq_reachable rq_start"
| step: "rq_reachable s \<Longrightarrow> rq_step s t \<Longrightarrow> rq_reachable t"

inductive_cases rq_stepE: "rq_step s t"

subsection \<open>The invariant\<close>

fun activities :: "record_cmd list \<Rightarrow> activity_envelope list" where
  "activities [] = []"
| "activities (RecActivity e # cs) = e # activities cs"
| "activities (RecFlush k n # cs) = activities cs"

text \<open>Each flush in the queue carries the number of activities in front of it, counting from
  \<open>base\<close>.\<close>

fun marks_ok :: "nat \<Rightarrow> record_cmd list \<Rightarrow> bool" where
  "marks_ok base [] = True"
| "marks_ok base (RecActivity e # cs) = marks_ok (Suc base) cs"
| "marks_ok base (RecFlush k n # cs) = (n = base \<and> marks_ok base cs)"

fun tickets :: "record_cmd list \<Rightarrow> nat list" where
  "tickets [] = []"
| "tickets (RecActivity e # cs) = tickets cs"
| "tickets (RecFlush k n # cs) = k # tickets cs"

fun pending_ack :: "consumer_pc \<Rightarrow> (nat \<times> nat) option" where
  "pending_ack Waiting = None"
| "pending_ack (Filling a) = a"
| "pending_ack (Sending a) = a"
| "pending_ack (Acking a) = a"

definition delivered :: "record_queue \<Rightarrow> activity_envelope list" where
  "delivered s = concat (rq_posted s)"

text \<open>The tickets that were sent and are not answered yet, in order.\<close>

definition open_tickets :: "record_queue \<Rightarrow> nat list" where
  "open_tickets s = (case pending_ack (rq_pc s) of Some (k, n) \<Rightarrow> [k] | None \<Rightarrow> []) @ tickets (rq_queue s)"

definition rq_inv :: "record_queue \<Rightarrow> bool" where
  "rq_inv s \<longleftrightarrow>
     delivered s @ rq_batch s @ activities (rq_queue s) = rq_accepted s
     \<and> length (rq_queue s) \<le> QUEUE_DEPTH
     \<and> length (rq_batch s) \<le> MAX_BATCH
     \<and> (\<forall>b\<in>set (rq_posted s). b \<noteq> [] \<and> length b \<le> MAX_BATCH)
     \<and> (rq_pc s = Waiting \<or> (\<exists>a. rq_pc s = Acking a) \<longrightarrow> rq_batch s = [])
     \<and> marks_ok (length (delivered s) + length (rq_batch s)) (rq_queue s)
     \<and> (\<forall>k n. pending_ack (rq_pc s) = Some (k, n) \<longrightarrow> n = length (delivered s) + length (rq_batch s))
     \<and> (\<forall>n\<in>set (rq_acked s). n \<le> length (delivered s))
     \<and> rq_woken s @ open_tickets s = [0..<rq_next_ticket s]"

lemma activities_append [simp]: "activities (xs @ ys) = activities xs @ activities ys"
  by (induction xs rule: activities.induct) simp_all

lemma marks_ok_append [simp]:
  "marks_ok b (xs @ ys) \<longleftrightarrow> marks_ok b xs \<and> marks_ok (b + length (activities xs)) ys"
  by (induction b xs rule: marks_ok.induct) auto

lemma tickets_append [simp]: "tickets (xs @ ys) = tickets xs @ tickets ys"
  by (induction xs rule: tickets.induct) simp_all

lemma length_tickets: "length (tickets cs) \<le> length cs"
  by (induction cs rule: tickets.induct) simp_all

lemma rq_inv_start: "rq_inv rq_start"
  by (simp add: rq_inv_def rq_start_def delivered_def open_tickets_def)

lemma rq_inv_try_send: "rq_inv s \<Longrightarrow> rq_inv (try_send e s)"
  by (auto simp: rq_inv_def try_send_def delivered_def open_tickets_def)

lemma rq_inv_length:
  "rq_inv s \<Longrightarrow> length (delivered s) + length (rq_batch s) + length (activities (rq_queue s))
     = length (rq_accepted s)"
  by (metis rq_inv_def length_append add.assoc)

lemma rq_inv_send_flush: "rq_inv s \<Longrightarrow> send_flush s = Some t \<Longrightarrow> rq_inv t"
  using rq_inv_length [of s]
  by (auto simp: rq_inv_def send_flush_def delivered_def open_tickets_def split: if_splits)

lemma rq_inv_Waiting:
  assumes "rq_inv s" and "rq_pc s = Waiting" and "consumer_step s = Some t"
  shows "rq_inv t"
  using assms
  by (auto simp: rq_inv_def consumer_step_def delivered_def open_tickets_def MAX_BATCH_def
      split: list.splits record_cmd.splits)

lemma rq_inv_Filling:
  assumes "rq_inv s" and "rq_pc s = Filling ack" and "consumer_step s = Some t"
  shows "rq_inv t"
  using assms
  by (auto simp: rq_inv_def consumer_step_def delivered_def open_tickets_def
      split: list.splits record_cmd.splits if_splits)

lemma rq_inv_Sending:
  assumes "rq_inv s" and "rq_pc s = Sending ack" and "consumer_step s = Some t"
  shows "rq_inv t"
proof -
  have t: "t = s\<lparr>rq_posted := send_batch (rq_batch s) (rq_posted s), rq_batch := [], rq_pc := Acking ack\<rparr>"
    using assms(2,3) by (simp add: consumer_step_def)
  have d: "delivered t = delivered s @ rq_batch s"
    by (simp add: t delivered_def send_batch_def)
  have p: "\<forall>b\<in>set (rq_posted t). b \<noteq> [] \<and> length b \<le> MAX_BATCH"
    using assms(1) by (auto simp: t rq_inv_def send_batch_def split: if_splits)
  have o: "open_tickets t = open_tickets s" by (simp add: open_tickets_def t assms(2))
  show ?thesis
    using assms(1,2) p by (simp add: rq_inv_def d o) (auto simp: t intro: trans_le_add1)
qed

lemma rq_inv_Acking:
  assumes "rq_inv s" and "rq_pc s = Acking ack" and "consumer_step s = Some t"
  shows "rq_inv t"
  using assms
  by (cases ack) (auto simp: rq_inv_def consumer_step_def delivered_def open_tickets_def)

lemma rq_inv_consumer: "rq_inv s \<Longrightarrow> consumer_step s = Some t \<Longrightarrow> rq_inv t"
  by (cases "rq_pc s") (blast intro: rq_inv_Waiting rq_inv_Filling rq_inv_Sending rq_inv_Acking)+

lemma rq_step_inv: "rq_step s t \<Longrightarrow> rq_inv s \<Longrightarrow> rq_inv t"
  by (induction rule: rq_step.induct) (blast intro: rq_inv_try_send rq_inv_send_flush rq_inv_consumer)+

lemma rq_reachable_inv: "rq_reachable s \<Longrightarrow> rq_inv s"
  by (induction rule: rq_reachable.induct) (auto intro: rq_inv_start rq_step_inv)

subsection \<open>An answered flush covers what was accepted before it\<close>

text \<open>\<open>covers k m s\<close>: wherever ticket \<open>k\<close> stands, its mark is \<open>m\<close>, and once it is answered at least \<open>m\<close>
  activities are delivered.\<close>

definition covers :: "nat \<Rightarrow> nat \<Rightarrow> record_queue \<Rightarrow> bool" where
  "covers k m s \<longleftrightarrow>
     k < rq_next_ticket s
     \<and> (\<forall>n. RecFlush k n \<in> set (rq_queue s) \<longrightarrow> n = m)
     \<and> (\<forall>n. pending_ack (rq_pc s) = Some (k, n) \<longrightarrow> n = m)
     \<and> (k \<in> set (rq_woken s) \<longrightarrow> m \<le> length (delivered s))"

lemma in_tickets: "RecFlush k n \<in> set cs \<Longrightarrow> k \<in> set (tickets cs)"
  by (induction cs rule: tickets.induct) auto

lemma tickets_bound:
  assumes "rq_inv s" and "k \<in> set (rq_woken s) \<or> k \<in> set (open_tickets s)"
  shows "k < rq_next_ticket s"
proof -
  have "set (rq_woken s) \<union> set (open_tickets s) = {0..<rq_next_ticket s}"
    using assms(1) by (metis rq_inv_def set_append set_upt)
  then show ?thesis using assms(2) by auto
qed

lemma send_flush_covers:
  assumes "rq_inv s" and "send_flush s = Some t"
  shows "covers (rq_next_ticket s) (length (rq_accepted s)) t"
proof -
  have "\<not> rq_next_ticket s < rq_next_ticket s" by simp
  then have "rq_next_ticket s \<notin> set (rq_woken s)" "rq_next_ticket s \<notin> set (open_tickets s)"
    using tickets_bound [OF assms(1)] by blast+
  then show ?thesis
    using assms(2) by (auto simp: covers_def send_flush_def open_tickets_def split: if_splits dest: in_tickets)
qed

lemma consumer_step_covers:
  assumes "rq_inv s" and "covers k m s" and "consumer_step s = Some t"
  shows "covers k m t"
proof (cases "rq_pc s")
  case (Sending ack)
  then have "length (delivered s) \<le> length (delivered t)" "rq_woken t = rq_woken s"
    using assms(3) by (auto simp: consumer_step_def delivered_def send_batch_def)
  with Sending assms(2,3) show ?thesis by (auto simp: covers_def consumer_step_def)
next
  case (Acking ack)
  then have "rq_batch s = []" using assms(1) by (simp add: rq_inv_def)
  with Acking assms show ?thesis
    by (cases ack) (auto simp: covers_def consumer_step_def delivered_def rq_inv_def)
qed (use assms(2,3) in
    \<open>auto simp: covers_def consumer_step_def delivered_def split: list.splits record_cmd.splits if_splits\<close>)

lemma rq_step_covers: "rq_step s t \<Longrightarrow> rq_inv s \<Longrightarrow> covers k m s \<Longrightarrow> covers k m t"
proof (induction rule: rq_step.induct)
  case (consume s t)
  then show ?case by (blast intro: consumer_step_covers)
qed (auto simp: covers_def try_send_def send_flush_def delivered_def split: if_splits)

lemma consumer_step_ghosts:
  "consumer_step s = Some t \<Longrightarrow> rq_accepted t = rq_accepted s \<and> rq_dropped t = rq_dropped s"
  by (auto simp: consumer_step_def
      split: consumer_pc.splits list.splits record_cmd.splits if_splits option.splits)

lemma rq_step_accepted: "rq_step s t \<Longrightarrow> prefix (rq_accepted s) (rq_accepted t)"
  by (induction rule: rq_step.induct)
    (auto simp: try_send_def send_flush_def consumer_step_ghosts split: if_splits)

lemma covers_delivered:
  assumes "rq_inv s" and "covers k (length xs) s" and "k \<in> set (rq_woken s)" and "prefix xs (rq_accepted s)"
  shows "prefix xs (delivered s)"
proof -
  have "prefix (delivered s) (rq_accepted s)" using assms(1) by (metis rq_inv_def prefixI)
  moreover have "length xs \<le> length (delivered s)" using assms(2,3) by (simp add: covers_def)
  ultimately show ?thesis using assms(4) by (meson prefix_length_prefix)
qed

subsection \<open>Progress\<close>

text \<open>The consumer stops only to wait on an empty channel.\<close>

lemma consumer_blocked_iff:
  "consumer_step s = None \<longleftrightarrow> rq_pc s = Waiting \<and> rq_queue s = []"
  by (auto simp: consumer_step_def split: consumer_pc.splits list.splits record_cmd.splits if_splits)

fun pc_rank :: "consumer_pc \<Rightarrow> nat" where
  "pc_rank Waiting = 0"
| "pc_rank (Filling a) = 3"
| "pc_rank (Sending a) = 2"
| "pc_rank (Acking a) = 1"

definition work_left :: "record_queue \<Rightarrow> nat" where
  "work_left s = 4 * length (rq_queue s) + pc_rank (rq_pc s)"

lemma consumer_step_work: "consumer_step s = Some t \<Longrightarrow> work_left t < work_left s"
  by (auto simp: consumer_step_def work_left_def
      split: consumer_pc.splits list.splits record_cmd.splits if_splits option.splits)

text \<open>A caller that awaits a condition while the consumer runs: \<open>None\<close> when the consumer blocks first, so
  that the caller waits for ever.\<close>

function consumer_until :: "(record_queue \<Rightarrow> bool) \<Rightarrow> record_queue \<Rightarrow> record_queue option" where
  "consumer_until P s =
     (if P s then Some s else case consumer_step s of None \<Rightarrow> None | Some t \<Rightarrow> consumer_until P t)"
  by pat_completeness auto
termination
  by (relation "measure (\<lambda>(P, s). work_left s)") (auto dest: consumer_step_work)

declare consumer_until.simps [simp del]

lemma consumer_until_returns:
  assumes "I s" and "\<And>s t. I s \<Longrightarrow> consumer_step s = Some t \<Longrightarrow> I t"
    and "\<And>s. I s \<Longrightarrow> consumer_step s = None \<Longrightarrow> P s"
  shows "\<exists>t. consumer_until P s = Some t \<and> I t \<and> P t"
  using assms(1)
proof (induction s rule: measure_induct_rule [where f = work_left])
  case (less s)
  show ?case
  proof (cases "P s")
    case True
    then show ?thesis using less.prems by (simp add: consumer_until.simps [of P s])
  next
    case False
    then obtain t where t: "consumer_step s = Some t" using less.prems assms(3) by fastforce
    then show ?thesis
      using less.IH [OF consumer_step_work [OF t]] less.prems False assms(2)
      by (simp add: consumer_until.simps [of P s])
  qed
qed

text \<open>How far the consumer is from answering ticket \<open>k\<close>: what is queued behind it does not count.\<close>

fun queued_before :: "nat \<Rightarrow> record_cmd list \<Rightarrow> nat" where
  "queued_before k [] = 0"
| "queued_before k (RecActivity e # cs) = Suc (queued_before k cs)"
| "queued_before k (RecFlush j n # cs) = (if j = k then 1 else Suc (queued_before k cs))"

definition ack_distance :: "nat \<Rightarrow> record_queue \<Rightarrow> nat" where
  "ack_distance k s =
     (if k \<in> set (rq_woken s) then 0
      else if \<exists>n. pending_ack (rq_pc s) = Some (k, n) then pc_rank (rq_pc s)
      else 4 * queued_before k (rq_queue s) + pc_rank (rq_pc s))"

lemma queued_before_append:
  "k \<in> set (tickets cs) \<Longrightarrow> queued_before k (cs @ ds) = queued_before k cs"
  by (induction k cs rule: queued_before.induct) auto

lemma queued_before_le: "queued_before k cs \<le> length cs"
  by (induction k cs rule: queued_before.induct) auto

lemma ack_distance_bound: "rq_inv s \<Longrightarrow> ack_distance k s \<le> 4 * QUEUE_DEPTH + 3"
  using queued_before_le [of k "rq_queue s"] by (cases "rq_pc s") (auto simp: ack_distance_def rq_inv_def)

text \<open>A ticket below the next one is answered or open.\<close>

lemma issued:
  "rq_inv s \<Longrightarrow> k < rq_next_ticket s \<Longrightarrow> k \<in> set (rq_woken s) \<or> k \<in> set (open_tickets s)"
  by (metis Un_iff atLeastLessThan_iff le0 rq_inv_def set_append set_upt)

lemma queued_before_pos: "k \<in> set (tickets cs) \<Longrightarrow> 0 < queued_before k cs"
  by (induction k cs rule: queued_before.induct) auto

lemma open_iff:
  "k \<in> set (open_tickets s) \<longleftrightarrow> (\<exists>n. pending_ack (rq_pc s) = Some (k, n)) \<or> k \<in> set (tickets (rq_queue s))"
  by (cases "pending_ack (rq_pc s)") (auto simp: open_tickets_def)

lemma ack_distance_answered:
  assumes "rq_inv s" and "k < rq_next_ticket s" and "ack_distance k s = 0"
  shows "k \<in> set (rq_woken s)"
  using assms(3) issued [OF assms(1,2)] queued_before_pos [of k "rq_queue s"]
  by (cases "rq_pc s") (auto simp: ack_distance_def open_iff split: if_splits)

lemma producer_distance:
  assumes "rq_inv s" and "k < rq_next_ticket s"
  shows "ack_distance k (try_send e s) = ack_distance k s"
    and "send_flush s = Some t \<Longrightarrow> ack_distance k t = ack_distance k s"
  using issued [OF assms] queued_before_append [of k "rq_queue s"]
  by (auto simp: ack_distance_def try_send_def send_flush_def open_iff split: if_splits)

lemma consumer_distance:
  assumes "rq_inv s" and "k < rq_next_ticket s" and "consumer_step s = Some t"
  shows "ack_distance k t \<le> ack_distance k s - 1"
  using issued [OF assms(1,2)] assms(3)
  by (cases "rq_pc s")
    (auto simp: consumer_step_def ack_distance_def open_iff
      split: list.splits record_cmd.splits if_splits option.splits)

subsection \<open>Schedules\<close>

text \<open>Any interleaving of producers, flushes and the consumer. A flush waits while the channel is full and
  the consumer while it is empty.\<close>

datatype rq_event = Produce activity_envelope | SendFlush | Consume

definition rq_act :: "rq_event \<Rightarrow> record_queue \<Rightarrow> record_queue" where
  "rq_act ev s =
     (case ev of
        Produce e \<Rightarrow> try_send e s
      | SendFlush \<Rightarrow> (case send_flush s of Some t \<Rightarrow> t | None \<Rightarrow> s)
      | Consume \<Rightarrow> (case consumer_step s of Some t \<Rightarrow> t | None \<Rightarrow> s))"

definition rq_exec :: "rq_event list \<Rightarrow> record_queue \<Rightarrow> record_queue" where
  "rq_exec evs s = fold rq_act evs s"

lemma rq_act_step: "rq_act ev s = s \<or> rq_step s (rq_act ev s)"
  by (auto simp: rq_act_def intro: rq_step.intros split: rq_event.split option.split)

lemma rq_exec_keeps:
  assumes "rq_inv s" and "covers k m s"
  shows "rq_inv (rq_exec evs s) \<and> covers k m (rq_exec evs s) \<and> prefix (rq_accepted s) (rq_accepted (rq_exec evs s))"
  unfolding rq_exec_def using assms
proof (induction evs arbitrary: s)
  case (Cons ev evs)
  have "rq_inv (rq_act ev s)" "covers k m (rq_act ev s)" "prefix (rq_accepted s) (rq_accepted (rq_act ev s))"
    using rq_act_step [of ev s] Cons.prems by (auto intro: rq_step_inv rq_step_covers rq_step_accepted)
  with Cons.IH show ?case by (auto intro: prefix_order.trans)
qed simp

lemma rq_exec_distance:
  assumes "rq_inv s" and "k < rq_next_ticket s"
  shows "ack_distance k (rq_exec evs s) \<le> ack_distance k s - length (filter (\<lambda>ev. ev = Consume) evs)"
  unfolding rq_exec_def using assms
proof (induction evs arbitrary: s)
  case (Cons ev evs)
  have after: "rq_inv (rq_act ev s)" "k < rq_next_ticket (rq_act ev s)"
    using rq_act_step [of ev s] Cons.prems
    by (auto intro: rq_step_inv simp: rq_act_def try_send_def send_flush_def consumer_step_def
        split: rq_event.split option.splits if_splits consumer_pc.splits list.splits record_cmd.splits)
  have "consumer_step s = None \<Longrightarrow> ack_distance k s = 0"
    using issued [OF Cons.prems] by (auto simp: consumer_blocked_iff ack_distance_def open_iff)
  then have "ack_distance k (rq_act ev s) \<le> ack_distance k s - (if ev = Consume then 1 else 0)"
    using producer_distance [OF Cons.prems] consumer_distance [OF Cons.prems]
    by (auto simp: rq_act_def split: rq_event.split option.split)
  with Cons.IH [OF after] show ?case by (cases "ev = Consume") auto
qed simp

subsection \<open>The guardian\<close>

text \<open>The world of the REST guardian: the backend's exchanges for each review in turn, the number of
  reviews so far, the submissions made (key and action) and the channel.\<close>

record api_world =
  aw_backend :: "nat \<Rightarrow> nat \<Rightarrow> exchange"
  aw_reviews :: nat
  aw_submitted :: "(string \<times> guarded_action) list"
  aw_queue :: record_queue

definition api_review ::
  "api_lib \<Rightarrow> api_config \<Rightarrow> activity_context \<Rightarrow> guarded_action \<Rightarrow> api_world
     \<Rightarrow> (guardian_error + verdict) \<times> api_world" where
  "api_review lib cfg ctx action w =
     (api_review_result lib cfg (aw_backend w (aw_reviews w)),
      w\<lparr>aw_reviews := Suc (aw_reviews w),
        aw_submitted := aw_submitted w @ [(idempotency_key ctx action, action)]\<rparr>)"

definition api_record :: "activity_context \<Rightarrow> activity \<Rightarrow> api_world \<Rightarrow> api_world" where
  "api_record ctx activity w =
     w\<lparr>aw_queue := try_send \<lparr>env_context = ctx, env_activity = activity\<rparr> (aw_queue w)\<rparr>"

text \<open>\<open>flush\<close> sends its command, waiting for room, and waits for its own acknowledgement; while it waits
  the consumer runs. \<open>None\<close>: it never returns, which \<open>flush_call_returns\<close> excludes.\<close>

definition flush_call :: "record_queue \<Rightarrow> record_queue option" where
  "flush_call q =
     (case consumer_until (\<lambda>s. length (rq_queue s) < QUEUE_DEPTH) q of
        None \<Rightarrow> None
      | Some q \<Rightarrow>
          (case send_flush q of
             None \<Rightarrow> None
           | Some q' \<Rightarrow> consumer_until (\<lambda>s. rq_next_ticket q \<in> set (rq_woken s)) q'))"

definition api_flush :: "api_world \<Rightarrow> api_world" where
  "api_flush w = (case flush_call (aw_queue w) of Some q \<Rightarrow> w\<lparr>aw_queue := q\<rparr> | None \<Rightarrow> w)"

lemma flush_call_returns:
  assumes "rq_inv q"
  shows "\<exists>r. flush_call q = Some r \<and> rq_inv r \<and> delivered r = rq_accepted q \<and> rq_accepted r = rq_accepted q"
proof -
  have "\<exists>p. consumer_until (\<lambda>s. length (rq_queue s) < QUEUE_DEPTH) q = Some p \<and>
      (rq_inv p \<and> rq_accepted p = rq_accepted q) \<and> length (rq_queue p) < QUEUE_DEPTH"
    by (rule consumer_until_returns)
      (use assms in \<open>auto simp: consumer_blocked_iff QUEUE_DEPTH_def consumer_step_ghosts intro: rq_inv_consumer\<close>)
  then obtain p where p: "consumer_until (\<lambda>s. length (rq_queue s) < QUEUE_DEPTH) q = Some p"
    "rq_inv p" "rq_accepted p = rq_accepted q" "length (rq_queue p) < QUEUE_DEPTH" by blast
  let ?k = "rq_next_ticket p" and ?m = "length (rq_accepted q)"
  obtain t where t: "send_flush p = Some t" using p(4) by (simp add: send_flush_def)
  let ?I = "\<lambda>s. rq_inv s \<and> covers ?k ?m s \<and> rq_accepted s = rq_accepted q"
  have "\<exists>r. consumer_until (\<lambda>s. ?k \<in> set (rq_woken s)) t = Some r \<and> ?I r \<and> ?k \<in> set (rq_woken r)"
  proof (rule consumer_until_returns)
    show "?I t"
      using t rq_inv_send_flush [OF p(2) t] send_flush_covers [OF p(2) t] p(3)
      by (auto simp: send_flush_def split: if_splits)
  next
    fix s u assume "?I s" "consumer_step s = Some u"
    then show "?I u" by (auto intro: rq_inv_consumer consumer_step_covers simp: consumer_step_ghosts)
  next
    fix s assume "?I s" "consumer_step s = None"
    then show "?k \<in> set (rq_woken s)"
      using issued [of s ?k] by (auto simp: consumer_blocked_iff open_iff covers_def)
  qed
  then obtain r where r: "consumer_until (\<lambda>s. ?k \<in> set (rq_woken s)) t = Some r" "?I r" "?k \<in> set (rq_woken r)"
    by blast
  have "prefix (delivered r) (rq_accepted q)" using r(2) by (metis rq_inv_def prefixI)
  moreover have "prefix (rq_accepted q) (delivered r)" using r covers_delivered [of r ?k "rq_accepted q"] by simp
  ultimately show ?thesis using p t r by (auto simp: flush_call_def intro: prefix_order.antisym)
qed

definition api_guardian :: "api_lib \<Rightarrow> api_config \<Rightarrow> api_world guardian" where
  "api_guardian lib cfg =
     (guardian_defaults (api_review lib cfg) api_record)
       \<lparr>g_failure_posture := ac_failure_posture cfg, g_flush := api_flush\<rparr>"

lemmas [guard_simps] = api_guardian_def

lemma api_flush_inv: "rq_inv (aw_queue w) \<Longrightarrow> rq_inv (aw_queue (api_flush w))"
  using flush_call_returns [of "aw_queue w"] by (auto simp: api_flush_def)

interpretation api: guardian_laws "api_guardian lib cfg" "\<lambda>w. rq_inv (aw_queue w)" for lib cfg
  by unfold_locales
    (simp_all add: guard_simps api_review_def api_record_def rq_inv_try_send api_flush_inv)

end
