(* ===== verification/Guard_Config.thy ===== *)
theory Guard_Config
  imports Csv_Run Guard_Ipc Record_Queue
begin

text \<open>
  The \<open>[guardian]\<close> settings and the choice of an implementation, from \<open>guardian/src/config.rs\<close>, and
  \<open>configured_session_path\<close> of \<open>guardian/src/csv_history.rs\<close>. The process's world is the product of
  the worlds of the three implementations; each is lifted to it along a pair of accessors that the
  locale \<open>world_lens\<close> describes. Reading an environment variable and building the HTTP client are
  arguments.
\<close>

definition GUARDIAN_DIR :: string where "GUARDIAN_DIR = ''guardian''"
definition DEBUG_DIR :: string where "DEBUG_DIR = ''debug''"
definition SOCKET_FILE :: string where "SOCKET_FILE = ''guardian.sock''"
definition DEFAULT_ENDPOINT :: string where
  "DEFAULT_ENDPOINT = ''http://127.0.0.1:4500/guardian''"

datatype guardian_mode = Off | Csv | Ipc | Both | Api

definition guardian_mode_default :: guardian_mode where
  "guardian_mode_default = Api"

record guardian_config =
  gc_mode :: guardian_mode
  gc_debug_dir :: "path option"
  gc_socket_path :: "path option"
  gc_endpoint :: "string option"
  gc_api_key_env :: "string option"
  gc_fail_closed :: bool
  gc_request_timeout :: nat

definition guardian_config_default :: guardian_config where
  "guardian_config_default =
     \<lparr>gc_mode = guardian_mode_default, gc_debug_dir = None, gc_socket_path = None,
      gc_endpoint = Some DEFAULT_ENDPOINT, gc_api_key_env = None, gc_fail_closed = True,
      gc_request_timeout = 3000\<rparr>"

definition config_debug_dir :: "guardian_config \<Rightarrow> path \<Rightarrow> path" where
  "config_debug_dir c codex_home =
     (case gc_debug_dir c of
        Some d \<Rightarrow> d
      | None \<Rightarrow> path_join (path_join codex_home GUARDIAN_DIR) DEBUG_DIR)"

definition config_socket_path :: "guardian_config \<Rightarrow> path \<Rightarrow> path" where
  "config_socket_path c codex_home =
     (case gc_socket_path c of
        Some p \<Rightarrow> p
      | None \<Rightarrow> path_join (path_join codex_home GUARDIAN_DIR) SOCKET_FILE)"

datatype guardian_config_error =
    MissingEndpoint
  | EndpointError api_endpoint_error

fun guardian_config_error_display :: "guardian_config_error \<Rightarrow> string" where
  "guardian_config_error_display MissingEndpoint =
     ''`[guardian] mode = '' @ [dquote] @ ''api'' @ [dquote] @ ''` requires `endpoint`''"
| "guardian_config_error_display (EndpointError err) =
     ''`[guardian] endpoint` is unusable: '' @ api_endpoint_error_display err"

definition config_validate :: "'u url_lib \<Rightarrow> guardian_config \<Rightarrow> guardian_config_error + unit" where
  "config_validate lib c =
     (if gc_mode c \<noteq> Api then Inr ()
      else (case gc_endpoint c of
              None \<Rightarrow> Inl MissingEndpoint
            | Some endpoint \<Rightarrow>
                result_bind (map_err EndpointError (api_endpoint_parse lib endpoint)) (\<lambda>_. Inr ())))"

definition config_bearer_token :: "(string \<rightharpoonup> string) \<Rightarrow> guardian_config \<Rightarrow> string option" where
  "config_bearer_token getenv c =
     Option.bind (gc_api_key_env c) (\<lambda>name.
       case getenv name of
         Some token \<Rightarrow> if trim token \<noteq> [] then Some token else None
       | None \<Rightarrow> None)"

subsection \<open>The process's world\<close>

record guard_world =
  gw_csv :: csv_world
  gw_ipc :: ipc_world
  gw_api :: api_world

definition lift_guardian ::
  "('s \<Rightarrow> 'w) \<Rightarrow> ('w \<Rightarrow> 's \<Rightarrow> 's) \<Rightarrow> 'w guardian \<Rightarrow> 's guardian" where
  "lift_guardian get put g =
     \<lparr>g_review = (\<lambda>ctx action s. let (r, w) = g_review g ctx action (get s) in (r, put w s)),
      g_record = (\<lambda>ctx activity s. put (g_record g ctx activity (get s)) s),
      g_is_enabled = g_is_enabled g,
      g_failure_posture = g_failure_posture g,
      g_sandbox_override = g_sandbox_override g,
      g_flush = (\<lambda>s. put (g_flush g (get s)) s)\<rparr>"

lemma lift_guardian_simps [simp]:
  "fst (g_review (lift_guardian get put g) ctx action s) = fst (g_review g ctx action (get s))"
  "snd (g_review (lift_guardian get put g) ctx action s) = put (snd (g_review g ctx action (get s))) s"
  "g_record (lift_guardian get put g) ctx activity s = put (g_record g ctx activity (get s)) s"
  "g_flush (lift_guardian get put g) s = put (g_flush g (get s)) s"
  "g_is_enabled (lift_guardian get put g) = g_is_enabled g"
  "g_failure_posture (lift_guardian get put g) = g_failure_posture g"
  "g_sandbox_override (lift_guardian get put g) = g_sandbox_override g"
  by (simp_all add: lift_guardian_def split_beta)

locale world_lens =
  fixes get :: "'s \<Rightarrow> 'w"
    and put :: "'w \<Rightarrow> 's \<Rightarrow> 's"
  assumes get_put: "get (put w s) = w"
    and put_get: "put (get s) s = s"
    and put_put: "put v (put w s) = put v s"
begin

lemma lift_laws:
  assumes "guardian_laws g winv"
  shows "guardian_laws (lift_guardian get put g) (\<lambda>s. winv (get s))"
proof
qed (simp_all add: get_put guardian_laws.review_inv [OF assms] guardian_laws.record_inv [OF assms]
    guardian_laws.flush_inv [OF assms] guardian_laws.disabled_defers [OF assms])

lemma lift_observe:
  assumes "observe_only g winv"
  shows "observe_only (lift_guardian get put g) (\<lambda>s. winv (get s))"
proof -
  have laws: "guardian_laws g winv" using assms by (simp add: observe_only_def)
  show ?thesis
    using lift_laws [OF laws]
    by (simp add: observe_only_def observe_only_axioms_def
        observe_only.observe_review [OF assms] observe_only.observe_posture [OF assms])
qed

lemma drive_lift:
  "get (guard_drive (lift_guardian get put g) calls s) = guard_drive g calls (get s)"
proof (induction calls arbitrary: s)
  case (Cons c cs)
  have "get (guard_step (lift_guardian get put g) c s) = guard_step g c (get s)"
    by (cases c) (simp_all add: get_put)
  with Cons show ?case by (simp add: guard_drive_def)
qed (simp add: guard_drive_def)

end

definition put_csv :: "csv_world \<Rightarrow> guard_world \<Rightarrow> guard_world" where
  "put_csv w s = s\<lparr>gw_csv := w\<rparr>"

definition put_ipc :: "ipc_world \<Rightarrow> guard_world \<Rightarrow> guard_world" where
  "put_ipc w s = s\<lparr>gw_ipc := w\<rparr>"

definition put_api :: "api_world \<Rightarrow> guard_world \<Rightarrow> guard_world" where
  "put_api w s = s\<lparr>gw_api := w\<rparr>"

interpretation csv_lens: world_lens gw_csv put_csv
  by unfold_locales (simp_all add: put_csv_def)

interpretation ipc_lens: world_lens gw_ipc put_ipc
  by unfold_locales (simp_all add: put_ipc_def)

interpretation api_lens: world_lens gw_api put_api
  by unfold_locales (simp_all add: put_api_def)

subsection \<open>Selecting a guardian\<close>

text \<open>What the selection calls outside the crate: the serializers, the URL library, the client
  factory (\<open>Inl\<close> when no client can be built) and the environment.\<close>

record 'u guard_env =
  ge_csv :: csv_env
  ge_ipc :: ipc_codec
  ge_api :: api_lib
  ge_url :: "'u url_lib"
  ge_build_client :: "'u \<Rightarrow> string + unit"
  ge_getenv :: "string \<rightharpoonup> string"

definition the_csv_guardian :: "'u guard_env \<Rightarrow> path \<Rightarrow> guard_world guardian" where
  "the_csv_guardian env dir = lift_guardian gw_csv put_csv (csv_guardian (ge_csv env) dir)"

definition the_ipc_guardian :: "'u guard_env \<Rightarrow> ipc_config \<Rightarrow> guard_world guardian" where
  "the_ipc_guardian env cfg = lift_guardian gw_ipc put_ipc (ipc_guardian (ge_ipc env) cfg)"

definition the_api_guardian :: "'u guard_env \<Rightarrow> api_config \<Rightarrow> guard_world guardian" where
  "the_api_guardian env cfg = lift_guardian gw_api put_api (api_guardian (ge_api env) cfg)"

definition config_api_guardian :: "'u guard_env \<Rightarrow> guardian_config \<Rightarrow> guard_world guardian" where
  "config_api_guardian env c =
     (let parsed =
        (case gc_endpoint c of
           None \<Rightarrow> Inl MissingEndpoint
         | Some endpoint \<Rightarrow> map_err EndpointError (api_endpoint_parse (ge_url env) endpoint))
      in case parsed of
           Inl err \<Rightarrow> noop_guardian
         | Inr endpoint \<Rightarrow>
             (case ge_build_client env (ep_base endpoint) of
                Inl err \<Rightarrow> noop_guardian
              | Inr _ \<Rightarrow>
                  the_api_guardian env
                    (api_with_client (config_bearer_token (ge_getenv env) c)
                      (gc_request_timeout c) (gc_fail_closed c))))"

definition guardian_from_config ::
  "'u guard_env \<Rightarrow> guardian_config \<Rightarrow> path \<Rightarrow> guard_world guardian" where
  "guardian_from_config env c codex_home =
     (let ipc = ipc_new (config_socket_path c codex_home) (gc_request_timeout c) (gc_fail_closed c)
      in case gc_mode c of
           Off \<Rightarrow> noop_guardian
         | Csv \<Rightarrow> the_csv_guardian env (config_debug_dir c codex_home)
         | Ipc \<Rightarrow> the_ipc_guardian env ipc
         | Both \<Rightarrow>
             fanout_guardian
               [the_csv_guardian env (config_debug_dir c codex_home), the_ipc_guardian env ipc]
         | Api \<Rightarrow> config_api_guardian env c)"

definition configured_session_path :: "guardian_config \<Rightarrow> path \<Rightarrow> string \<Rightarrow> path option" where
  "configured_session_path c codex_home thread_id =
     (case gc_mode c of
        Csv \<Rightarrow> Some (session_path (config_debug_dir c codex_home) thread_id)
      | Both \<Rightarrow> Some (session_path (config_debug_dir c codex_home) thread_id)
      | Off \<Rightarrow> None
      | Ipc \<Rightarrow> None
      | Api \<Rightarrow> None)"

lemmas the_guardians = the_csv_guardian_def the_ipc_guardian_def the_api_guardian_def

text \<open>The invariant of the whole world: the history channel within its bound, at most one line or a part
  of one on each connection, the delivery queue consistent.\<close>

definition world_ok :: "'u guard_env \<Rightarrow> guard_world \<Rightarrow> bool" where
  "world_ok env s \<longleftrightarrow>
     length (cw_queue (gw_csv s)) \<le> CSV_QUEUE_DEPTH \<and> wire_ok (ge_ipc env) (gw_ipc s)
     \<and> rq_inv (aw_queue (gw_api s))"

lemma lift_world_ok:
  "guardian_laws (the_csv_guardian env dir) (world_ok env)"
  "guardian_laws (the_ipc_guardian env ic) (world_ok env)"
  "guardian_laws (the_api_guardian env ac) (world_ok env)"
proof -
  show "guardian_laws (the_csv_guardian env dir) (world_ok env)"
    using csv.review_inv [of _ "ge_csv env" dir] csv.record_inv [of _ "ge_csv env" dir]
      csv.flush_inv [of _ "ge_csv env" dir] csv.observe_review [of "ge_csv env" dir]
    by unfold_locales (simp_all add: the_guardians world_ok_def put_csv_def)
  show "guardian_laws (the_ipc_guardian env ic) (world_ok env)"
    using ipc.review_inv [of "ge_ipc env" _ ic] ipc.record_inv [of "ge_ipc env" _ ic]
      ipc.flush_inv [of "ge_ipc env" _ ic] ipc.disabled_defers [of "ge_ipc env" ic]
    by unfold_locales (simp_all add: the_guardians world_ok_def put_ipc_def)
  show "guardian_laws (the_api_guardian env ac) (world_ok env)"
    using api.review_inv [of _ "ge_api env" ac] api.record_inv [of _ "ge_api env" ac]
      api.flush_inv [of _ "ge_api env" ac] api.disabled_defers [of "ge_api env" ac]
    by unfold_locales (simp_all add: the_guardians world_ok_def put_api_def)
qed

lemma noop_world_ok: "guardian_laws (noop_guardian :: guard_world guardian) (world_ok env)"
  by unfold_locales (simp_all add: guard_simps)

interpretation selected: guardian_laws "guardian_from_config env c codex_home" "world_ok env"
  for env :: "'u guard_env" and c codex_home
proof -
  have "guardian_laws (config_api_guardian env c) (world_ok env)"
    by (simp add: config_api_guardian_def Let_def lift_world_ok noop_world_ok
        split: option.split sum.split)
  then show "guardian_laws (guardian_from_config env c codex_home) (world_ok env)"
    by (cases "gc_mode c")
      (simp_all add: guardian_from_config_def Let_def lift_world_ok noop_world_ok fanout_guardian_laws)
qed

subsection \<open>What the settings select\<close>

lemma csv_lens_observe:
  "observe_only (the_csv_guardian env dir)
     (\<lambda>s. length (cw_queue (gw_csv s)) \<le> CSV_QUEUE_DEPTH)"
  unfolding the_csv_guardian_def by (rule csv_lens.lift_observe) (rule csv.observe_only_axioms)

lemma fanout_single: "fst (fanout_review [g] ctx action w) = fst (g_review g ctx action w)"
  by (cases "g_review g ctx action w"; cases "fst (g_review g ctx action w)")
    (auto simp: fanout_review_def split: verdict.split)

lemma both_mode_verdict:
  "fst (fanout_review [the_csv_guardian env dir, the_ipc_guardian env ic] ctx action s)
     = fst (g_review (the_ipc_guardian env ic) ctx action
         (snd (g_review (the_csv_guardian env dir) ctx action s)))"
  using observe_only.fanout_ignores_observer
    [OF csv_lens_observe, of env dir "[the_ipc_guardian env ic]" ctx action s]
  by (simp add: fanout_single)

lemma the_csv_guardian_simps [simp]:
  "g_is_enabled (the_csv_guardian env dir)" "g_failure_posture (the_csv_guardian env dir) = FailOpen"
  by (simp_all add: the_guardians guard_simps)

lemma the_ipc_guardian_simps [simp]:
  "g_is_enabled (the_ipc_guardian env ic)"
  "g_failure_posture (the_ipc_guardian env ic) = ic_failure_posture ic"
  by (simp_all add: the_guardians guard_simps)

lemma the_api_guardian_simps [simp]:
  "g_is_enabled (the_api_guardian env ac)"
  "g_failure_posture (the_api_guardian env ac) = ac_failure_posture ac"
  by (simp_all add: the_guardians guard_simps)

lemma noop_guardian_simps [simp]:
  "\<not> g_is_enabled noop_guardian" "g_failure_posture noop_guardian = FailOpen"
  by (simp_all add: guard_simps)

lemma config_validate_Api:
  "gc_mode c = Api \<Longrightarrow> config_validate lib c = Inr () \<longleftrightarrow>
     (\<exists>endpoint ep. gc_endpoint c = Some endpoint \<and> api_endpoint_parse lib endpoint = Inr ep)"
  by (auto simp: config_validate_def split: option.splits)

lemma config_api_guardian_built:
  assumes "gc_endpoint c = Some endpoint" and "api_endpoint_parse (ge_url env) endpoint = Inr ep"
  shows "config_api_guardian env c =
    (case ge_build_client env (ep_base ep) of
       Inl err \<Rightarrow> noop_guardian
     | Inr _ \<Rightarrow>
         the_api_guardian env
           (api_with_client (config_bearer_token (ge_getenv env) c)
             (gc_request_timeout c) (gc_fail_closed c)))"
  using assms by (simp add: config_api_guardian_def)

end
