(* ===== verification/Guard_Properties.thy ===== *)
theory Guard_Properties
  imports Guard_Config
begin

text \<open>
  What the guard's implementations guarantee: the decision rule of the fan-out, what the settings
  select, the history files and their sidecars after any session, where a verdict can come from, and
  the delivery of activities to the backend.
\<close>

subsection \<open>Fan-out and settings\<close>

text \<open>C9. The answer of a fan-out is the rule of its comment applied to the answers of its members in
  order: the first error or denial if there is one, else the first rewrite, else Allow if some
  member allowed, else Defer; in particular it blocks exactly when a member that was asked did.\<close>

theorem fanout_follows_its_rule:
  "fst (fanout_review gs ctx action w) = fanout_spec (member_answers ctx action gs w) \<and>
   decisive (fst (fanout_review gs ctx action w)) = list_ex decisive (member_answers ctx action gs w)"
  using fanout_spec_decisive [of _ "member_answers ctx action gs w"]
    fanout_spec_not_decisive [of "member_answers ctx action gs w"]
  by (auto simp: fanout_review_spec list_ex_iff)

definition posture_of :: "bool \<Rightarrow> failure_posture" where
  "posture_of fail_closed = (if fail_closed then FailClosed else FailOpen)"

text \<open>What the settings select, mode by mode: off guards nothing; csv watches and never blocks;
  ipc fails as configured; both gives the verdict of the monitor on the socket, whatever the history
  does, and fails as configured; api either guards with the configured posture or is the guardian
  that guards nothing.\<close>

theorem settings_select:
  "let g = guardian_from_config env c codex_home;
       ic = ipc_new (config_socket_path c codex_home) (gc_request_timeout c) (gc_fail_closed c)
   in case gc_mode c of
        Off \<Rightarrow> \<not> g_is_enabled g
      | Csv \<Rightarrow> g_is_enabled g \<and> g_failure_posture g = FailOpen \<and> fst (g_review g ctx action s) = Inr Defer
      | Ipc \<Rightarrow> g_is_enabled g \<and> g_failure_posture g = posture_of (gc_fail_closed c)
          \<and> fst (g_review g ctx action s) = fst (ipc_review (ge_ipc env) ic ctx action (gw_ipc s))
      | Both \<Rightarrow> g_is_enabled g \<and> g_failure_posture g = posture_of (gc_fail_closed c)
          \<and> fst (g_review g ctx action s) = fst (ipc_review (ge_ipc env) ic ctx action (gw_ipc s))
      | Api \<Rightarrow> (if g_is_enabled g then g_failure_posture g = posture_of (gc_fail_closed c)
               else g = noop_guardian)"
proof (cases "gc_mode c")
  case Csv
  then show ?thesis
    by (simp add: guardian_from_config_def Let_def the_csv_guardian_def guard_simps)
next
  case Both
  then show ?thesis
    using both_mode_verdict [of env "config_debug_dir c codex_home"
        "ipc_new (config_socket_path c codex_home) (gc_request_timeout c) (gc_fail_closed c)" ctx action s]
    by (simp add: guardian_from_config_def Let_def fanout_guardian_def fanout_is_enabled_def
        fanout_failure_posture_def posture_of_def ipc_new_def the_ipc_guardian_def ipc_guardian_def
        guardian_defaults_def the_csv_guardian_def csv_guardian_def put_csv_def)
next
  case Api
  then show ?thesis
    by (simp add: guardian_from_config_def Let_def config_api_guardian_def posture_of_def
        api_with_client_def split: option.split sum.split)
qed (simp_all add: guardian_from_config_def Let_def posture_of_def ipc_new_def the_ipc_guardian_def
    ipc_guardian_def guardian_defaults_def)

text \<open>Validation does not rule out the unguarded fallback: with settings that pass validation in
  api mode, the session is guarded exactly when the HTTP client can be built; when it cannot, every
  review is Defer, whatever \<open>fail_closed\<close> says.\<close>

theorem validated_settings_may_be_unguarded:
  assumes "gc_mode c = Api" and "config_validate (ge_url env) c = Inr ()"
  shows "\<exists>endpoint ep. gc_endpoint c = Some endpoint \<and> api_endpoint_parse (ge_url env) endpoint = Inr ep \<and>
    g_is_enabled (guardian_from_config env c codex_home) = (ge_build_client env (ep_base ep) = Inr ()) \<and>
    (if g_is_enabled (guardian_from_config env c codex_home) then True
     else fst (g_review (guardian_from_config env c codex_home) ctx action s) = Inr Defer)"
proof -
  obtain endpoint ep where ep: "gc_endpoint c = Some endpoint"
    "api_endpoint_parse (ge_url env) endpoint = Inr ep"
    using assms config_validate_Api by blast
  then show ?thesis
    using assms(1) config_api_guardian_built [of c endpoint env ep]
      selected.disabled_defers [of env c codex_home ctx action s]
    by (auto simp: guardian_from_config_def Let_def split: sum.splits)
qed

definition sample_url :: "string url_lib" where
  "sample_url =
     \<lparr>url_parse = Inr, url_scheme = (\<lambda>u. takeWhile (\<lambda>c. c \<noteq> CHR '':'') u), url_path = (\<lambda>_. ''/''),
      url_set_path = (\<lambda>u _. u), url_join = (\<lambda>u p. Inr (u @ p))\<rparr>"

definition sample_codecs :: codecs where
  "sample_codecs =
     \<lparr>to_rfc3339 = int_to_string, ser_action = (\<lambda>_. Inr ''{}''), ser_activity = (\<lambda>_. Inr ''{}'')\<rparr>"

definition sample_env :: "string guard_env" where
  "sample_env =
     \<lparr>ge_csv = \<lparr>env_cod = sample_codecs, env_ser_meta = (\<lambda>_. Inr []), env_iter = (\<lambda>ks. ks)\<rparr>,
      ge_ipc = \<lparr>ser_request = (\<lambda>r. Inr (case r of ReqReview _ _ _ \<Rightarrow> ''review'' | ReqRecord _ _ _ \<Rightarrow> ''record'')),
        de_response = (\<lambda>_. Inr Allow)\<rparr>,
      ge_api = \<lparr>al_status_text = (\<lambda>_. []), al_de_problem = (\<lambda>_. None), al_join_location = Inr\<rparr>,
      ge_url = sample_url, ge_build_client = (\<lambda>_. Inl ''no TLS backend''), ge_getenv = (\<lambda>_. None)\<rparr>"

text \<open>Witness: the default settings, on a machine where no client can be built.\<close>

theorem validated_settings_may_be_unguarded_witness:
  "config_validate sample_url guardian_config_default = Inr () \<and>
   \<not> g_is_enabled (guardian_from_config sample_env guardian_config_default ''/home'')"
proof -
  have "config_validate sample_url guardian_config_default = Inr ()" by code_simp
  then show ?thesis
    using validated_settings_may_be_unguarded [of guardian_config_default sample_env "''/home''"]
    by (auto simp: guardian_config_default_def guardian_mode_default_def sample_env_def)
qed

text \<open>C10. The invariant of the whole guard layer holds after any sequence of calls of a session, for
  every setting: the history channel is within its bound; each connection to the resident process was
  given one request line of the current protocol version, or, where a write failed or the deadline
  passed, a prefix of one, and never anything else; the delivery queue is consistent (delivered, held
  and queued activities make up what was accepted, all bounds hold, every flush ticket is answered or
  open). And a verdict of the process on a further action is taken only from a connection that was given
  the whole line of that very request.\<close>

theorem session_keeps_world_ok:
  assumes "world_ok env s" and "s' = guard_drive (guardian_from_config env c codex_home) calls s"
  shows "length (cw_queue (gw_csv s')) \<le> CSV_QUEUE_DEPTH \<and>
    (\<forall>p\<in>set (iw_sent (gw_ipc s')). \<exists>line. prefix p (line @ [CHR 0x0A])
      \<and> (\<exists>ctx. (\<exists>action. ser_request (ge_ipc env) (ReqReview PROTOCOL_VERSION ctx action) = Inr line)
              \<or> (\<exists>activity. ser_request (ge_ipc env) (ReqRecord PROTOCOL_VERSION ctx activity) = Inr line))) \<and>
    rq_inv (aw_queue (gw_api s')) \<and>
    (\<forall>ic ctx action v w'. ipc_review (ge_ipc env) ic ctx action (gw_ipc s') = (Inr v, w') \<longrightarrow>
      (\<exists>line. ser_request (ge_ipc env) (ReqReview PROTOCOL_VERSION ctx action) = Inr line
        \<and> iw_sent w' = iw_sent (gw_ipc s') @ [line @ [CHR 0x0A]]))"
proof -
  have "world_ok env s'" unfolding assms(2) using assms(1) by (rule selected.guard_drive_inv)
  then show ?thesis unfolding world_ok_def wire_ok_def using ipc_verdict_whole_line by blast
qed

text \<open>Witness: a new session with the monitor on the socket. Its first connection is dropped at the
  deadline after three bytes; the second is answered.\<close>

definition empty_fs :: fs where
  "empty_fs = \<lparr>fs_files = (\<lambda>_. None), fs_ops = 0, fs_fault = (\<lambda>_. None)\<rparr>"

definition sample_world :: guard_world where
  "sample_world =
     \<lparr>gw_csv = csv_start empty_fs,
      gw_ipc = \<lparr>iw_peer = (\<lambda>n. \<lparr>ix_connect = None, ix_write = None, ix_written = 3, ix_flush = None,
        ix_read = Inr ''{}'', ix_elapsed = (if n = 0 then None else Some 1)\<rparr>), iw_next = 0, iw_sent = []\<rparr>,
      gw_api = \<lparr>aw_backend = (\<lambda>_ _. (Inr \<lparr>rs_status = 200, rs_location = None, rs_retry_after = None,
        rs_text = None, rs_json = Inl []\<rparr>, 1)), aw_reviews = 0, aw_submitted = [], aw_queue = rq_start\<rparr>\<rparr>"

definition sample_ctx :: activity_context where
  "sample_ctx = activity_context_new 0 ''t1'' ''s1'' ''1'' ''/work'' ''m'' ''cli'' None"

lemma sample_world_ok: "world_ok env sample_world"
  by (simp add: world_ok_def sample_world_def csv_start_def wire_ok_def rq_inv_start)

definition ipc_settings :: guardian_config where
  "ipc_settings = guardian_config_default\<lparr>gc_mode := Ipc\<rparr>"

theorem session_keeps_world_ok_witness:
  "iw_sent (gw_ipc (guard_drive (guardian_from_config sample_env ipc_settings ''/home'')
      [CallRecord sample_ctx SessionStarted] sample_world)) = [''rec''] \<and>
   (\<exists>w'. ipc_review (ge_ipc sample_env) (ipc_new ''/s'' 10 True) sample_ctx (Instructions [] [])
      (gw_ipc (guard_drive (guardian_from_config sample_env ipc_settings ''/home'')
        [CallRecord sample_ctx SessionStarted] sample_world)) = (Inr Allow, w')
     \<and> iw_sent w' = [''rec'', ''review'' @ [CHR 0x0A]])"
proof -
  define s' where "s' = guard_drive (guardian_from_config sample_env ipc_settings ''/home'')
    [CallRecord sample_ctx SessionStarted] sample_world"
  let ?ic = "ipc_new (config_socket_path ipc_settings ''/home'') (gc_request_timeout ipc_settings)
      (gc_fail_closed ipc_settings)"
  have "gw_ipc s' = guard_drive (ipc_guardian (ge_ipc sample_env) ?ic)
      [CallRecord sample_ctx SessionStarted] (gw_ipc sample_world)"
    unfolding s'_def guardian_from_config_def the_ipc_guardian_def ipc_settings_def Let_def
    by (simp add: ipc_lens.drive_lift)
  then have ipc: "gw_ipc s' = (gw_ipc sample_world)\<lparr>iw_next := 1, iw_sent := [''rec'']\<rparr>"
    by (simp add: guard_drive_def guard_simps ipc_record_def ipc_request_def ipc_written_def in_time_def
        sample_env_def sample_world_def Let_def)
  obtain w' where r: "ipc_review (ge_ipc sample_env) (ipc_new ''/s'' 10 True) sample_ctx (Instructions [] []) (gw_ipc s')
      = (Inr Allow, w')"
    by (simp add: ipc ipc_review_def ipc_request_def in_time_def ipc_exchange_result_def sample_env_def
        sample_world_def ipc_new_def Let_def)
  have "\<exists>line. ser_request (ge_ipc sample_env) (ReqReview PROTOCOL_VERSION sample_ctx (Instructions [] [])) = Inr line
      \<and> iw_sent w' = iw_sent (gw_ipc s') @ [line @ [CHR 0x0A]]"
    using session_keeps_world_ok [OF sample_world_ok s'_def] r by blast
  then show ?thesis using r unfolding s'_def [symmetric] by (simp add: ipc) (simp add: sample_env_def)
qed

subsection \<open>History files\<close>

text \<open>The commands a session's calls have put into the channel, and the writer's place in them.\<close>

lemma csv_drive_split:
  "\<exists>handled. map (call_cmd env) calls
       = handled @ cw_queue (guard_drive (csv_guardian env dir) calls (csv_start f))
     \<and> cw_writer (guard_drive (csv_guardian env dir) calls (csv_start f)) = writer_run env dir f handled"
proof (induction calls rule: rev_induct)
  case Nil
  show ?case by (simp add: guard_drive_def csv_start_def)
next
  case (snoc c cs)
  let ?w = "guard_drive (csv_guardian env dir) cs (csv_start f)"
  obtain handled where h: "map (call_cmd env) cs = handled @ cw_queue ?w"
    "cw_writer ?w = writer_run env dir f handled"
    using snoc by blast
  have send: "\<exists>done. handled @ cw_queue ?w @ [x] = done @ cw_queue (channel_send env dir x ?w)
      \<and> cw_writer (channel_send env dir x ?w) = writer_run env dir f done" for x
  proof (cases "CSV_QUEUE_DEPTH \<le> length (cw_queue ?w)")
    case True
    then show ?thesis
      using h(2)
      by (cases "cw_queue ?w")
        (auto simp: channel_send_def writer_take_def Let_def simp del: writer_step.simps
          intro: exI [of _ "handled @ [hd (cw_queue ?w)]"])
  qed (use h(2) in \<open>auto simp: channel_send_def Let_def intro: exI [of _ handled]\<close>)
  have step: "guard_drive (csv_guardian env dir) (cs @ [c]) (csv_start f)
      = guard_step (csv_guardian env dir) c ?w"
    by (simp add: guard_drive_def)
  show ?case
  proof (cases c)
    case CallFlush
    have "cw_writer (csv_flush env dir ?w) = writer_run env dir f (map (call_cmd env) (cs @ [c]))"
      using csv_drive_drained [of env dir "cs @ [c]" f] unfolding step
      by (simp add: CallFlush guard_simps drained_def csv_flush_def Let_def)
    then show ?thesis
      unfolding step by (simp add: CallFlush guard_simps csv_flush_def Let_def)
  qed (use send h(1) step in \<open>simp_all add: guard_simps\<close>)
qed

lemma csv_drive_flushed:
  "cw_writer (guard_drive (csv_guardian env dir) (calls @ [CallFlush]) (csv_start f))
     = writer_run env dir f (map (call_cmd env) (calls @ [CallFlush]))"
proof -
  have "cw_queue (guard_drive (csv_guardian env dir) (calls @ [CallFlush]) (csv_start f)) = []"
    by (simp add: guard_drive_def guard_simps csv_flush_def Let_def)
  then show ?thesis
    using csv_drive_split [of env "calls @ [CallFlush]" dir f] by simp
qed

definition csv_columns :: "string list" where
  "csv_columns = [''ts'', ''turn_id'', ''kind'', ''phase'', ''tool'', ''call_id'', ''decision'',
     ''reason'', ''tokens_in'', ''tokens_out'', ''tokens_total'', ''context_used'',
     ''context_limit'', ''detail'']"

text \<open>C11. The history reads back: after any session whose last call is a flush, on a disk that works,
  a history file that did not exist before decodes (by RFC 4180) to the header followed by the rows
  of exactly the calls addressed to it, in the order they were made, with every field intact.\<close>

theorem history_reads_back:
  assumes "fault_free f" and "contents f (session_path dir t) = []"
    and "rows_for_path dir (session_path dir t) (map (call_cmd env) calls) \<noteq> []"
  shows "csv_decode (contents
      (ws_fs (cw_writer (guard_drive (csv_guardian env dir) (calls @ [CallFlush]) (csv_start f))))
      (session_path dir t)) =
    Some (csv_columns
      # map csv_fields (rows_for_path dir (session_path dir t) (map (call_cmd env) calls)))"
  using assms csv_decode_lines [of "rows_for_path dir (session_path dir t) (map (call_cmd env) calls)" "[]"]
  unfolding csv_drive_flushed
  by (simp add: writer_history rows_for_path_append csv_decode_header csv_columns_def
      del: writer_loop_snoc)

text \<open>Witness: a session of one recorded activity.\<close>

theorem history_reads_back_witness:
  "csv_decode (contents
      (ws_fs (cw_writer (guard_drive (csv_guardian (ge_csv sample_env) ''/d'')
        ([CallRecord sample_ctx SessionStarted] @ [CallFlush]) (csv_start empty_fs))))
      (session_path ''/d'' ''t1'')) =
    Some [csv_columns,
      csv_fields (for_activity sample_codecs sample_ctx SessionStarted)]"
proof -
  have ff: "fault_free empty_fs" by (simp add: fault_free_def empty_fs_def)
  have rows: "rows_for_path ''/d'' (session_path ''/d'' ''t1'')
      (map (call_cmd (ge_csv sample_env)) [CallRecord sample_ctx SessionStarted]) =
      [for_activity sample_codecs sample_ctx SessionStarted]"
    by (simp add: sample_env_def sample_ctx_def activity_context_new_def identity_from_context_def)
  show ?thesis
    using history_reads_back [OF ff, of "''/d''" "''t1''" "ge_csv sample_env"
        "[CallRecord sample_ctx SessionStarted]"]
    unfolding rows by (simp add: contents_def empty_fs_def)
qed

text \<open>A sidecar is never torn: at any moment of any session, under any pattern of I/O failures
  (short writes included), the sidecar of a thread holds what it held at the start or one complete
  serialized body.\<close>

theorem sidecar_never_torn:
  "fs_files (ws_fs (cw_writer (guard_drive (csv_guardian env dir) calls (csv_start f)))) (meta_path dir t)
     \<in> insert (fs_files f (meta_path dir t)) (sidecar_bodies env)"
  using csv_drive_split [of env calls dir f] writer_sidecar_whole [of env dir _ f t] by metis

text \<open>C12. After a flush on a disk without faults, the sidecar of each thread is the serialized summary of
  the thread's rows: their number, the number of stopped turns and the last reported token total
  among them (the two counts as 64-bit words). This is for thread ids that differ in the file stems made
  from them (two ids with the same stem share one sidecar), metadata that always serializes, and a flush
  that visits every thread of the session, in any order.\<close>

theorem sidecar_summarises_the_session:
  assumes "fault_free f" and "total_ser env" and "iter_ok env"
    and "stems_apart (cmd_threads (map (call_cmd env) calls))"
    and "rows_for_thread t (map (call_cmd env) calls) = (row, i) # xs"
  shows "\<exists>m b. env_ser_meta env m = Inr b \<and>
    fs_files (ws_fs (cw_writer (guard_drive (csv_guardian env dir) (calls @ [CallFlush]) (csv_start f))))
      (meta_path dir t) = Some (meta_body b) \<and>
    meta_csv_file m = csv_file_name t \<and>
    meta_first_activity_at m = row_ts row \<and>
    meta_rows m = of_nat (length ((row, i) # xs)) \<and>
    meta_turns m = of_nat (length (filter (\<lambda>(row, _). row_kind row = ''turn_stopped'') ((row, i) # xs))) \<and>
    meta_tokens_total m = last_total 0 ((row, i) # xs)"
proof -
  let ?ws = "writer_run env dir f (map (call_cmd env) calls)"
  let ?start = "session_meta_new row i (csv_file_name t)"
  let ?m = "observe_all ?start ((row, i) # xs)"
  have ff: "fault_free (ws_fs ?ws)" using assms(1) by (simp add: fault_free_def writer_start_def)
  have m: "map_of (ws_metas ?ws) t = Some ?m" by (simp add: writer_metas assms(5))
  have "on_disk env dir (ws_fs (writer_step env dir ?ws CmdFlush)) t ?m"
    using flush_on_disk [OF assms(2,3) ff _ m] assms(4) by (simp add: writer_keys)
  then have d: "on_disk env dir (ws_fs (cw_writer (guard_drive (csv_guardian env dir)
      (calls @ [CallFlush]) (csv_start f)))) t ?m"
    unfolding csv_drive_flushed by simp
  have csv: "meta_csv_file (observe_all m ys) = meta_csv_file m" for m ys
    by (induction ys rule: rev_induct) (auto simp: split_paired_all)
  have init: "meta_rows ?start = 0" "meta_turns ?start = 0" "meta_tokens_total ?start = 0"
    "meta_first_activity_at ?start = row_ts row" "meta_csv_file ?start = csv_file_name t"
    by (simp_all add: session_meta_new_def)
  obtain b where "env_ser_meta env ?m = Inr b"
    "fs_files (ws_fs (cw_writer (guard_drive (csv_guardian env dir) (calls @ [CallFlush]) (csv_start f))))
      (meta_path dir t) = Some (meta_body b)"
    using d by (auto simp: on_disk_def)
  then show ?thesis
    by (intro exI [of _ ?m] exI [of _ b] conjI) (simp_all only: observe_all_summary csv init add_0)
qed

text \<open>Witness: a session of one recorded activity.\<close>

theorem sidecar_summarises_the_session_witness:
  "\<exists>m b. env_ser_meta (ge_csv sample_env) m = Inr b \<and>
    fs_files (ws_fs (cw_writer (guard_drive (csv_guardian (ge_csv sample_env) ''/d'')
        ([CallRecord sample_ctx SessionStarted] @ [CallFlush]) (csv_start empty_fs))))
      (meta_path ''/d'' ''t1'') = Some (meta_body b) \<and> meta_rows m = 1"
proof -
  let ?i = "identity_from_context sample_ctx"
  let ?row = "for_activity sample_codecs sample_ctx SessionStarted"
  have t: "id_thread_id ?i = ''t1''"
    by (simp add: sample_ctx_def activity_context_new_def identity_from_context_def)
  have cmds: "map (call_cmd (ge_csv sample_env)) [CallRecord sample_ctx SessionStarted] = [CmdRow ?row ?i]"
    by (simp add: sample_env_def)
  have "fault_free empty_fs" "total_ser (ge_csv sample_env)" "iter_ok (ge_csv sample_env)"
    "stems_apart (cmd_threads [CmdRow ?row ?i])" "rows_for_thread ''t1'' [CmdRow ?row ?i] = [(?row, ?i)]"
    by (simp_all add: fault_free_def empty_fs_def total_ser_def iter_ok_def sample_env_def
        stems_apart_def t)
  then show ?thesis
    using sidecar_summarises_the_session [of empty_fs "ge_csv sample_env"
        "[CallRecord sample_ctx SessionStarted]" "''t1''" ?row ?i "[]" "''/d''"]
    unfolding cmds by auto
qed

subsection \<open>Verdicts of the backend and of the monitor\<close>

text \<open>The HTTP guardian never makes up a verdict: whatever it returns other than an error was
  carried by a response of the backend, with a success status and a parsed body, within the
  deadline.\<close>

theorem api_verdict_has_a_source:
  assumes "api_review_result lib cfg backend = Inr v"
  shows "\<exists>k t. carries (fst (backend k)) v \<and> submit_review lib backend = Some (Inr v, t)
    \<and> t \<le> ac_timeout cfg"
  using assms submit_review_verdict by (auto simp: api_review_result_def with_deadline_Inr)

definition decided_response :: "verdict \<Rightarrow> exchange" where
  "decided_response v =
     (Inr \<lparr>rs_status = 200, rs_location = None, rs_retry_after = None, rs_text = None,
           rs_json = Inr \<lparr>rr_status = Decided, rr_verdict = Some v\<rparr>\<rparr>, 5)"

definition pending_response :: "nat \<Rightarrow> exchange" where
  "pending_response status =
     (Inr \<lparr>rs_status = status, rs_location = Some ''r/1'', rs_retry_after = None, rs_text = None,
           rs_json = Inr \<lparr>rr_status = Pending, rr_verdict = None\<rparr>\<rparr>, 5)"

definition sample_api :: api_config where
  "sample_api = api_with_client None 3000 True"

text \<open>Witness: the submission is answered at once.\<close>

theorem api_verdict_has_a_source_witness:
  "api_review_result (ge_api sample_env) sample_api (\<lambda>_. decided_response Allow) = Inr Allow \<and>
   (\<exists>k. carries (fst ((\<lambda>_. decided_response Allow) (k :: nat))) Allow)"
proof -
  have r: "api_review_result (ge_api sample_env) sample_api (\<lambda>_. decided_response Allow) = Inr Allow"
    by (simp add: api_review_result_def with_deadline_def submit_review_def decided_response_def
        sample_api_def api_with_client_def is_success_def parse_review_def decided_verdict_def)
  then show ?thesis using api_verdict_has_a_source [OF r] by blast
qed

text \<open>C13. A review that the backend accepts and then leaves pending forever ends in a timeout, an
  error that the fail posture turns into a verdict: the polling loop itself never returns, and the
  deadline cuts it off.\<close>

theorem pending_forever_times_out:
  assumes "fst (backend 0) = Inr r" and "rs_status r = 202" and "rs_location r = Some loc"
    and "al_join_location lib loc = Inr u"
    and "\<forall>k\<ge>1. \<exists>d. poll_outcome lib (fst (backend k)) = Inr d"
  shows "submit_review lib backend = None \<and> api_review_result lib cfg backend = Inl Timeout"
proof -
  have "submit_review lib backend = None"
    using assms poll_loop_pending [OF assms(5)]
    by (simp add: submit_review_def poll_review_def split_beta)
  then show ?thesis by (simp add: api_review_result_def with_deadline_def)
qed

text \<open>Witness: a backend that answers pending to everything.\<close>

theorem pending_forever_times_out_witness:
  "api_review_result (ge_api sample_env) sample_api (\<lambda>_. pending_response 202) = Inl Timeout"
proof -
  have p: "\<forall>k\<ge>1. \<exists>d. poll_outcome (ge_api sample_env) (fst ((\<lambda>_. pending_response 202) (k :: nat))) = Inr d"
    by (simp add: pending_response_def poll_outcome_def is_success_def parse_review_def)
  show ?thesis
    using pending_forever_times_out [OF _ _ _ _ p, of _ "''r/1''"]
    by (simp add: pending_response_def sample_env_def)
qed

text \<open>A pending review that the backend decides at its n-th poll, by the deadline, gives that
  verdict: the time of the answer is the submission and, for each poll, the announced delay (at most
  five seconds) and the exchange.\<close>

theorem decided_poll_is_returned:
  assumes "backend 0 = (Inr r, t0)" and "rs_status r = 202" and "rs_location r = Some loc"
    and "al_join_location lib loc = Inr u"
    and "\<forall>j<n. \<exists>d. poll_outcome lib (fst (backend (1 + j))) = Inr d"
    and "poll_outcome lib (fst (backend (1 + n))) = Inl (Inr v)"
    and "poll_time lib backend 1 t0
      (case retry_after r of Some d \<Rightarrow> d | None \<Rightarrow> DEFAULT_POLL_INTERVAL) n \<le> ac_timeout cfg"
  shows "api_review_result lib cfg backend = Inr v"
  using assms poll_loop_complete [OF assms(6,5)]
  by (simp add: api_review_result_def with_deadline_def submit_review_def poll_review_def)

text \<open>Witness: pending at the submission and at the first poll, decided at the second.\<close>

theorem decided_poll_is_returned_witness:
  "api_review_result (ge_api sample_env) sample_api
     (\<lambda>k. if k = 0 then pending_response 202 else if k = 1 then pending_response 200
          else decided_response (Deny ''no'')) = Inr (Deny ''no'')"
proof -
  let ?b = "\<lambda>k :: nat. if k = 0 then pending_response 202 else if k = 1 then pending_response 200
          else decided_response (Deny ''no'')"
  have o1: "poll_outcome (ge_api sample_env) (fst (pending_response 200)) = Inr 250"
    by (simp add: pending_response_def poll_outcome_def is_success_def parse_review_def
        retry_after_def DEFAULT_POLL_INTERVAL_def)
  have o2: "poll_outcome (ge_api sample_env) (fst (decided_response (Deny ''no''))) = Inl (Inr (Deny ''no''))"
    by (simp add: decided_response_def poll_outcome_def is_success_def parse_review_def
        decided_verdict_def)
  let ?r = "projr (fst (pending_response 202))"
  have b0: "?b 0 = (Inr ?r, 5)" and r: "rs_status ?r = 202" "rs_location ?r = Some ''r/1''"
    and j: "al_join_location (ge_api sample_env) ''r/1'' = Inr ''r/1''"
    by (simp_all add: pending_response_def sample_env_def)
  have time: "poll_time (ge_api sample_env) ?b 1 5
      (case retry_after ?r of Some d \<Rightarrow> d | None \<Rightarrow> DEFAULT_POLL_INTERVAL) 1 \<le> ac_timeout sample_api"
    using o1 by (simp add: sample_api_def api_with_client_def pending_response_def
        decided_response_def retry_after_def DEFAULT_POLL_INTERVAL_def)
  show ?thesis
    by (rule decided_poll_is_returned [where backend = ?b and n = 1, OF b0 r j])
      (use o1 o2 time in simp_all)
qed

text \<open>The socket guardian returns a verdict exactly when the request could be serialized and the
  monitor answered it: every system call worked, within the deadline, and the line it sent is not
  empty and parses to that verdict. Anything else is an error, for the fail posture to decide.\<close>

theorem ipc_verdict_has_a_source:
  "fst (g_review (ipc_guardian codec cfg) ctx action w) = Inr v \<longleftrightarrow>
     (\<exists>s. ser_request codec (ReqReview PROTOCOL_VERSION ctx action) = Inr s)
     \<and> ipc_answered codec cfg (iw_peer w (iw_next w)) v"
  using ipc_review_Inr_iff [of codec cfg ctx action w v]
  by (simp add: ipc_guardian_def guardian_defaults_def)

lemma slash_split:
  assumes "CHR ''/'' \<notin> set a" and "CHR ''/'' \<notin> set b"
    and "a @ CHR ''/'' # x = b @ CHR ''/'' # y"
  shows "a = b \<and> x = y"
proof -
  have "takeWhile (\<lambda>c. c \<noteq> CHR ''/'') (a @ CHR ''/'' # x) = a"
    "takeWhile (\<lambda>c. c \<noteq> CHR ''/'') (b @ CHR ''/'' # y) = b"
    using assms(1,2) by (subst takeWhile_append2; auto)+
  then show ?thesis using assms(3) by simp
qed

lemma action_kind_no_slash [simp]: "CHR ''/'' \<notin> set (action_kind a)"
  by (cases a) simp_all

text \<open>The idempotency key of a review identifies the thread, the turn, the kind of the action and
  its call id (with \<open>-\<close> for none), and nothing else: for ids without a slash, two reviews have the
  same key exactly when these agree. So two prompts of one turn, or two instruction blocks, have the
  same key whatever their text.\<close>

theorem idempotency_key_identifies:
  assumes "CHR ''/'' \<notin> set (ctx_thread_id ctx)" and "CHR ''/'' \<notin> set (ctx_thread_id ctx')"
    and "CHR ''/'' \<notin> set (ctx_turn_id ctx)" and "CHR ''/'' \<notin> set (ctx_turn_id ctx')"
  shows "(idempotency_key ctx a = idempotency_key ctx' a' \<longleftrightarrow>
      ctx_thread_id ctx = ctx_thread_id ctx' \<and> ctx_turn_id ctx = ctx_turn_id ctx'
      \<and> action_kind a = action_kind a'
      \<and> (case action_call_id a of Some c \<Rightarrow> c | None \<Rightarrow> ''-'')
        = (case action_call_id a' of Some c \<Rightarrow> c | None \<Rightarrow> ''-'')) \<and>
    idempotency_key ctx (Prompt p) = idempotency_key ctx (Prompt q)"
proof -
  let ?c = "\<lambda>a. case action_call_id a of Some c \<Rightarrow> c | None \<Rightarrow> ''-''"
  have "ctx_thread_id ctx = ctx_thread_id ctx' \<and> ctx_turn_id ctx = ctx_turn_id ctx'
      \<and> action_kind a = action_kind a' \<and> ?c a = ?c a'"
    if eq: "idempotency_key ctx a = idempotency_key ctx' a'"
  proof -
    have t: "ctx_thread_id ctx = ctx_thread_id ctx'"
      and rest: "ctx_turn_id ctx @ CHR ''/'' # action_kind a @ CHR ''/'' # ?c a
        = ctx_turn_id ctx' @ CHR ''/'' # action_kind a' @ CHR ''/'' # ?c a'"
      using slash_split [OF assms(1,2)] eq by (simp_all add: idempotency_key_def)
    show ?thesis
      using t slash_split [OF assms(3,4) rest] slash_split [of "action_kind a" "action_kind a'" "?c a" "?c a'"]
      by (simp only: action_kind_no_slash) simp
  qed
  then show ?thesis by (auto simp: idempotency_key_def)
qed

text \<open>Witness: two tool calls of one turn with different call ids.\<close>

theorem idempotency_key_identifies_witness:
  "idempotency_key sample_ctx (ToolCall ''Bash'' [] ''c1'' JNull)
     \<noteq> idempotency_key sample_ctx (ToolCall ''Bash'' [] ''c2'' JNull)"
  using idempotency_key_identifies [of sample_ctx sample_ctx "ToolCall ''Bash'' [] ''c1'' JNull"
      "ToolCall ''Bash'' [] ''c2'' JNull"]
  by (simp add: sample_ctx_def activity_context_new_def)

subsection \<open>Delivery of activities\<close>

text \<open>C14. Delivery in every reachable state of the channel and its consumer, however producers,
  flushes and the consumer interleave: the activities handed to the sender are, in order and without
  duplicates or gaps, the first of those the channel accepted; no more than 512 commands wait and no
  batch is empty or longer than 64; and an acknowledged flush covers every activity accepted before
  it.\<close>

theorem record_delivery_invariant:
  assumes "rq_reachable s"
  shows "delivered s = take (length (delivered s)) (rq_accepted s) \<and>
    length (rq_queue s) \<le> QUEUE_DEPTH \<and>
    list_all (\<lambda>b. b \<noteq> [] \<and> length b \<le> MAX_BATCH) (rq_posted s) \<and>
    list_all (\<lambda>n. n \<le> length (delivered s)) (rq_acked s)"
proof -
  have "rq_inv s" using assms by (rule rq_reachable_inv)
  then have "delivered s @ rq_batch s @ activities (rq_queue s) = rq_accepted s"
    "length (rq_queue s) \<le> QUEUE_DEPTH" "\<forall>b\<in>set (rq_posted s). b \<noteq> [] \<and> length b \<le> MAX_BATCH"
    "\<forall>n\<in>set (rq_acked s). n \<le> length (delivered s)"
    unfolding rq_inv_def by blast+
  moreover from this(1) have "delivered s = take (length (delivered s)) (rq_accepted s)"
    by (simp add: append_eq_conv_conj)
  ultimately show ?thesis by (simp add: list_all_iff)
qed

text \<open>Witness: a channel that has accepted one activity.\<close>

theorem record_delivery_invariant_witness:
  "length (rq_queue (try_send \<lparr>env_context = sample_ctx, env_activity = SessionStarted\<rparr> rq_start)) \<le> QUEUE_DEPTH"
  using record_delivery_invariant [OF rq_reachable.step [OF rq_reachable.start rq_step.produce]]
  by blast

text \<open>C15. A flush of the HTTP guardian delivers. After any session, however producers, other flushes and
  the consumer interleave from the moment its command is in the channel: when its own acknowledgement
  has arrived, every activity accepted before it has been handed to the sender, in order; and it arrives
  after at most \<open>4 * QUEUE_DEPTH + 3\<close> steps of the consumer, whatever the producers do meanwhile. With
  only the consumer running, the call returns (waiting for room included) and everything accepted is
  delivered.\<close>

theorem flush_delivers_everything:
  assumes "rq_inv (aw_queue w)" and "q = aw_queue (guard_drive (api_guardian lib cfg) calls w)"
  shows "(\<exists>r. flush_call q = Some r \<and> aw_queue (guard_drive (api_guardian lib cfg) (calls @ [CallFlush]) w) = r
      \<and> delivered r = rq_accepted q) \<and>
    (\<forall>q1 evs. send_flush q = Some q1 \<longrightarrow>
      (rq_next_ticket q \<in> set (rq_woken (rq_exec evs q1)) \<longrightarrow> prefix (rq_accepted q) (delivered (rq_exec evs q1))) \<and>
      (4 * QUEUE_DEPTH + 3 \<le> length (filter (\<lambda>ev. ev = Consume) evs) \<longrightarrow>
        rq_next_ticket q \<in> set (rq_woken (rq_exec evs q1))))"
proof (intro conjI allI impI)
  have q: "rq_inv q" unfolding assms(2) using assms(1) by (rule api.guard_drive_inv)
  have "guard_drive (api_guardian lib cfg) (calls @ [CallFlush]) w
      = api_flush (guard_drive (api_guardian lib cfg) calls w)"
    by (simp add: guard_drive_def api_guardian_def guardian_defaults_def)
  then show "\<exists>r. flush_call q = Some r \<and> aw_queue (guard_drive (api_guardian lib cfg) (calls @ [CallFlush]) w) = r
      \<and> delivered r = rq_accepted q"
    using flush_call_returns [OF q] by (auto simp: api_flush_def assms(2) [symmetric])
  fix q1 evs
  assume s: "send_flush q = Some q1"
  let ?k = "rq_next_ticket q" and ?r = "rq_exec evs q1"
  have q1: "rq_inv q1" "covers ?k (length (rq_accepted q)) q1" "rq_accepted q1 = rq_accepted q" "?k < rq_next_ticket q1"
    using rq_inv_send_flush [OF q s] send_flush_covers [OF q s] s by (auto simp: send_flush_def split: if_splits)
  note r = rq_exec_keeps [OF q1(1,2), of evs]
  show "prefix (rq_accepted q) (delivered ?r)" if "?k \<in> set (rq_woken ?r)"
    using covers_delivered [of ?r ?k "rq_accepted q"] r that q1(3) by simp
  show "?k \<in> set (rq_woken ?r)" if "4 * QUEUE_DEPTH + 3 \<le> length (filter (\<lambda>ev. ev = Consume) evs)"
    using ack_distance_answered [of ?r ?k] rq_exec_distance [OF q1(1,4), of evs] ack_distance_bound [OF q1(1), of ?k] r that
    by (auto simp: covers_def)
qed

text \<open>Witness: one activity, then a flush, alone and among other producers.\<close>

theorem flush_delivers_everything_witness:
  "let e = \<lparr>env_context = sample_ctx, env_activity = SessionStarted\<rparr>;
       q = aw_queue (guard_drive (api_guardian (ge_api sample_env) sample_api)
         [CallRecord sample_ctx SessionStarted] (gw_api sample_world))
   in rq_accepted q = [e] \<and> delivered q = [] \<and>
     delivered (aw_queue (guard_drive (api_guardian (ge_api sample_env) sample_api)
       ([CallRecord sample_ctx SessionStarted] @ [CallFlush]) (gw_api sample_world))) = [e] \<and>
     (\<exists>q1. send_flush q = Some q1
       \<and> prefix [e] (delivered (rq_exec (Produce e # replicate (4 * QUEUE_DEPTH + 3) Consume) q1)))"
proof -
  define e where "e = \<lparr>env_context = sample_ctx, env_activity = SessionStarted\<rparr>"
  define q where "q = aw_queue (guard_drive (api_guardian (ge_api sample_env) sample_api)
    [CallRecord sample_ctx SessionStarted] (gw_api sample_world))"
  have inv: "rq_inv (aw_queue (gw_api sample_world))" by (simp add: sample_world_def rq_inv_start)
  have q: "q = try_send e rq_start"
    by (simp add: q_def e_def guard_drive_def guard_simps api_record_def sample_world_def)
  then have a: "rq_accepted q = [e]" "delivered q = []" "send_flush q \<noteq> None"
    by (simp_all add: try_send_def rq_start_def QUEUE_DEPTH_def delivered_def send_flush_def)
  then obtain q1 where q1: "send_flush q = Some q1" by blast
  note f = flush_delivers_everything [OF inv q_def]
  have n: "4 * QUEUE_DEPTH + 3 \<le> length (filter (\<lambda>ev. ev = Consume) (Produce e # replicate (4 * QUEUE_DEPTH + 3) Consume))"
    by simp
  have "prefix [e] (delivered (rq_exec (Produce e # replicate (4 * QUEUE_DEPTH + 3) Consume) q1))"
    using f [THEN conjunct2, rule_format, OF q1] n a(1) by metis
  then show ?thesis
    using f [THEN conjunct1] a q1 unfolding Let_def e_def [symmetric] q_def [symmetric] by auto
qed

end
