(* ===== verification/Exec_Rule.thy ===== *)
theory Exec_Rule
  imports Prelude
begin

text \<open>
  Decisions and rules of the execution policy, from \<open>execpolicy/src/decision.rs\<close>,
  \<open>execpolicy/src/error.rs\<close> and \<open>execpolicy/src/rule.rs\<close>. The derived order of \<open>Decision\<close> is the instance
  of \<open>linorder\<close>. The trait \<open>Rule\<close> has one implementation, \<open>PrefixRule\<close>, and a rule is that record.
\<close>

datatype decision = DecAllow | DecPrompt | DecForbidden

fun decision_rank :: "decision \<Rightarrow> nat" where
  "decision_rank DecAllow = 0"
| "decision_rank DecPrompt = 1"
| "decision_rank DecForbidden = 2"

lemma decision_rank_inject [simp]: "decision_rank a = decision_rank b \<longleftrightarrow> a = b"
  by (cases a; cases b) simp_all

instantiation decision :: linorder
begin

definition less_eq_decision :: "decision \<Rightarrow> decision \<Rightarrow> bool" where
  "less_eq_decision a b \<longleftrightarrow> decision_rank a \<le> decision_rank b"

definition less_decision :: "decision \<Rightarrow> decision \<Rightarrow> bool" where
  "less_decision a b \<longleftrightarrow> decision_rank a < decision_rank b"

instance
  by standard (auto simp: less_eq_decision_def less_decision_def)

end

lemma decision_le_simps [simp]:
  "DecAllow \<le> d" "d \<le> DecForbidden" "DecForbidden \<le> d \<longleftrightarrow> d = DecForbidden"
  by (cases d; simp add: less_eq_decision_def)+

record text_position =
  tp_line :: nat
  tp_column :: nat

record error_location =
  el_path :: string
  el_start :: text_position
  el_end :: text_position

datatype policy_error =
    InvalidDecision string
  | InvalidPattern string
  | InvalidExample string
  | InvalidRule string
  | ExampleDidNotMatch "string list" "string list" "error_location option"
  | ExampleDidMatch string string "error_location option"
  | Starlark string

fun with_location :: "policy_error \<Rightarrow> error_location \<Rightarrow> policy_error" where
  "with_location (ExampleDidNotMatch rules examples None) loc = ExampleDidNotMatch rules examples (Some loc)"
| "with_location (ExampleDidMatch rule example None) loc = ExampleDidMatch rule example (Some loc)"
| "with_location err loc = err"

definition decision_parse :: "string \<Rightarrow> policy_error + decision" where
  "decision_parse raw =
     (if raw = ''allow'' then Inr DecAllow
      else if raw = ''prompt'' then Inr DecPrompt
      else if raw = ''forbidden'' then Inr DecForbidden
      else Inl (InvalidDecision raw))"

subsection \<open>Prefix rules\<close>

datatype pattern_token = Single string | Alts "string list"

fun token_matches :: "pattern_token \<Rightarrow> string \<Rightarrow> bool" where
  "token_matches (Single expected) t \<longleftrightarrow> expected = t"
| "token_matches (Alts alternatives) t \<longleftrightarrow> list_ex (\<lambda>alt. alt = t) alternatives"

fun alternatives :: "pattern_token \<Rightarrow> string list" where
  "alternatives (Single expected) = [expected]"
| "alternatives (Alts alts) = alts"

record prefix_pattern =
  pat_first :: string
  pat_rest :: "pattern_token list"

definition matches_prefix :: "prefix_pattern \<Rightarrow> string list \<Rightarrow> string list option" where
  "matches_prefix p cmd =
     (let pattern_length = length (pat_rest p) + 1
      in if length cmd < pattern_length \<or> cmd ! 0 \<noteq> pat_first p then None
         else if list_all (\<lambda>(pt, ct). token_matches pt ct)
             (zip (pat_rest p) (drop 1 (take pattern_length cmd)))
         then Some (take pattern_length cmd)
         else None)"

datatype rule_match =
    PrefixRuleMatch "string list" decision "path option" "string option"
  | HeuristicsRuleMatch "string list" decision

fun match_decision :: "rule_match \<Rightarrow> decision" where
  "match_decision (PrefixRuleMatch _ d _ _) = d"
| "match_decision (HeuristicsRuleMatch _ d) = d"

fun with_resolved_program :: "rule_match \<Rightarrow> path \<Rightarrow> rule_match" where
  "with_resolved_program (PrefixRuleMatch m d _ j) p = PrefixRuleMatch m d (Some p) j"
| "with_resolved_program other p = other"

record prefix_rule =
  pr_pattern :: prefix_pattern
  pr_decision :: decision
  pr_justification :: "string option"

definition rule_program :: "prefix_rule \<Rightarrow> string" where
  "rule_program r = pat_first (pr_pattern r)"

definition rule_matches :: "prefix_rule \<Rightarrow> string list \<Rightarrow> rule_match option" where
  "rule_matches r cmd =
     map_option (\<lambda>m. PrefixRuleMatch m (pr_decision r) None (pr_justification r))
       (matches_prefix (pr_pattern r) cmd)"

subsection \<open>Network rules\<close>

datatype network_rule_protocol = Http | Https | Socks5Tcp | Socks5Udp

definition protocol_parse :: "string \<Rightarrow> policy_error + network_rule_protocol" where
  "protocol_parse raw =
     (if raw = ''http'' then Inr Http
      else if raw = ''https'' \<or> raw = ''https_connect'' \<or> raw = ''http-connect'' then Inr Https
      else if raw = ''socks5_tcp'' then Inr Socks5Tcp
      else if raw = ''socks5_udp'' then Inr Socks5Udp
      else Inl (InvalidRule
        (''network_rule protocol must be one of http, https, socks5_tcp, socks5_udp (got '' @ raw @ '')'')))"

fun as_policy_string :: "network_rule_protocol \<Rightarrow> string" where
  "as_policy_string Http = ''http''"
| "as_policy_string Https = ''https''"
| "as_policy_string Socks5Tcp = ''socks5_tcp''"
| "as_policy_string Socks5Udp = ''socks5_udp''"

record network_rule =
  nr_host :: string
  nr_protocol :: network_rule_protocol
  nr_decision :: decision
  nr_justification :: "string option"

text \<open>Of \<open>str\<close>: \<open>contains\<close>, \<open>split_once\<close> and \<open>rsplit_once\<close> at a character, \<open>to_ascii_lowercase\<close>.\<close>

fun contains_str :: "string \<Rightarrow> string \<Rightarrow> bool" where
  "contains_str p [] \<longleftrightarrow> p = []"
| "contains_str p (c # cs) \<longleftrightarrow> starts_with (c # cs) p \<or> contains_str p cs"

definition split_once :: "char \<Rightarrow> string \<Rightarrow> (string \<times> string) option" where
  "split_once c s =
     (if c \<in> set s then Some (takeWhile (\<lambda>x. x \<noteq> c) s, tl (dropWhile (\<lambda>x. x \<noteq> c) s)) else None)"

definition rsplit_once :: "char \<Rightarrow> string \<Rightarrow> (string \<times> string) option" where
  "rsplit_once c s = map_option (\<lambda>(a, b). (rev b, rev a)) (split_once c (rev s))"

definition ascii_lower :: "char \<Rightarrow> char" where
  "ascii_lower c =
     (if 65 \<le> (of_char c :: nat) \<and> (of_char c :: nat) \<le> 90 then char_of ((of_char c :: nat) + 32) else c)"

definition to_ascii_lowercase :: "string \<Rightarrow> string" where
  "to_ascii_lowercase s = map ascii_lower s"

definition digits_only :: "string \<Rightarrow> bool" where
  "digits_only s \<longleftrightarrow> s \<noteq> [] \<and> list_all is_ascii_digit s"

text \<open>The host without brackets or port.\<close>

definition host_part :: "string \<Rightarrow> string \<Rightarrow> policy_error + string" where
  "host_part raw host =
     (case strip_prefix ''['' host of
        Some stripped \<Rightarrow>
          (case split_once (CHR '']'') stripped of
             None \<Rightarrow> Inl (InvalidRule ''network_rule host has an invalid bracketed IPv6 literal'')
           | Some (inside, rest) \<Rightarrow>
               (let port_ok = (case strip_prefix '':'' rest of Some port \<Rightarrow> digits_only port | None \<Rightarrow> False)
                in if rest \<noteq> [] \<and> \<not> port_ok
                   then Inl (InvalidRule (''network_rule host contains an unsupported suffix: '' @ raw))
                   else Inr inside))
      | None \<Rightarrow>
          (if count_list host (CHR '':'') = 1
           then (case rsplit_once (CHR '':'') host of
                   Some (candidate, port) \<Rightarrow>
                     if candidate \<noteq> [] \<and> digits_only port then Inr candidate else Inr host
                 | None \<Rightarrow> Inr host)
           else Inr host))"

definition trim_end_dots :: "string \<Rightarrow> string" where
  "trim_end_dots s = rev (dropWhile (\<lambda>c. c = CHR ''.'') (rev s))"

definition normalize_network_rule_host :: "string \<Rightarrow> policy_error + string" where
  "normalize_network_rule_host raw =
     (let host = trim raw
      in if host = [] then Inl (InvalidRule ''network_rule host cannot be empty'')
         else if contains_str ''://'' host \<or> CHR ''/'' \<in> set host \<or> CHR ''?'' \<in> set host
           \<or> CHR ''#'' \<in> set host
         then Inl (InvalidRule
           ''network_rule host must be a hostname or IP literal (without scheme or path)'')
         else result_bind (host_part raw host) (\<lambda>host.
           (let normalized = to_ascii_lowercase (trim (trim_end_dots host))
            in if normalized = [] then Inl (InvalidRule ''network_rule host cannot be empty'')
               else if CHR ''*'' \<in> set normalized
               then Inl (InvalidRule
                 ''network_rule host must be a specific host; wildcards are not allowed'')
               else if list_ex is_whitespace (utf8_chars normalized)
               then Inl (InvalidRule ''network_rule host cannot contain whitespace'')
               else Inr normalized)))"

subsection \<open>Lemmas\<close>

lemma token_matches_alternatives: "token_matches pt t \<longleftrightarrow> t \<in> set (alternatives pt)"
  by (cases pt) (auto simp: list_ex_iff)

text \<open>A pattern matches a command exactly when the command begins with one of its alternatives at
  each position.\<close>

lemma matches_prefix_iff:
  "matches_prefix p cmd = Some m \<longleftrightarrow>
     (\<exists>args rest. cmd = pat_first p # args @ rest \<and> m = pat_first p # args
        \<and> list_all2 (\<lambda>pt a. a \<in> set (alternatives pt)) (pat_rest p) args)"
proof (cases cmd)
  case Nil
  then show ?thesis by (simp add: matches_prefix_def)
next
  case (Cons c cs)
  let ?n = "length (pat_rest p)"
  have args: "(\<exists>args rest. cs = args @ rest \<and> m = c # args
      \<and> list_all2 (\<lambda>pt a. a \<in> set (alternatives pt)) (pat_rest p) args) \<longleftrightarrow>
    ?n \<le> length cs \<and> m = c # take ?n cs
      \<and> list_all2 (\<lambda>pt a. a \<in> set (alternatives pt)) (pat_rest p) (take ?n cs)"
    (is "?L \<longleftrightarrow> ?R")
  proof
    assume ?L
    then obtain args rest where a: "cs = args @ rest" "m = c # args"
      "list_all2 (\<lambda>pt a. a \<in> set (alternatives pt)) (pat_rest p) args" by blast
    have "length args = ?n" using list_all2_lengthD [OF a(3)] by simp
    then show ?R using a by auto
  next
    assume ?R
    then show ?L by (intro exI [of _ "take ?n cs"] exI [of _ "drop ?n cs"]) simp
  qed
  have zip: "list_all (\<lambda>(pt, ct). token_matches pt ct) (zip (pat_rest p) (take ?n cs)) \<longleftrightarrow>
      list_all2 (\<lambda>pt a. a \<in> set (alternatives pt)) (pat_rest p) (take ?n cs)" if "?n \<le> length cs"
    using that by (simp add: list_all2_iff list_all_iff token_matches_alternatives split_beta)
  show ?thesis
    using args zip by (auto simp: matches_prefix_def Cons Let_def)
qed

lemma rule_matches_program:
  "rule_matches r cmd = Some m \<Longrightarrow> \<exists>args. cmd = rule_program r # args"
  by (auto simp: rule_matches_def matches_prefix_iff rule_program_def)

lemma rule_matches_decision:
  "rule_matches r cmd = Some m \<Longrightarrow> match_decision m = pr_decision r"
  by (auto simp: rule_matches_def)

lemma protocol_round_trip: "protocol_parse (as_policy_string p) = Inr p"
  by (cases p) (simp_all add: protocol_parse_def)

end
