(* ===== verification/Abs_Path.thy ===== *)
theory Abs_Path
  imports Files
begin

text \<open>
  Absolute, normalized paths on Unix, from \<open>utils/absolute-path/src/lib.rs\<close> and
  \<open>utils/absolute-path/src/absolutize.rs\<close>, over the parts of \<open>std::path\<close> they use: the iterator
  \<open>components\<close>, \<open>PathBuf::push\<close> and \<open>PathBuf::pop\<close>, \<open>Path::file_name\<close>. The home directory (the thread's
  override or the system's) and the current directory are arguments, \<open>None\<close> when there is none.
\<close>

datatype component = RootDir | CurDir | ParentDir | Normal string

text \<open>The pieces between slashes.\<close>

fun segments :: "string \<Rightarrow> string list" where
  "segments [] = [[]]"
| "segments (c # cs) =
     (case segments cs of
        [] \<Rightarrow> [[c]]
      | s # ss \<Rightarrow> if c = CHR ''/'' then [] # s # ss else (c # s) # ss)"

text \<open>Empty pieces are skipped, and a dot except at the start of a relative path.\<close>

definition inner_components :: "string list \<Rightarrow> component list" where
  "inner_components segs =
     map (\<lambda>s. if s = ''..'' then ParentDir else Normal s) (filter (\<lambda>s. s \<noteq> [] \<and> s \<noteq> ''.'') segs)"

definition components :: "path \<Rightarrow> component list" where
  "components p =
     (case segments p of
        [] \<Rightarrow> []
      | s # ss \<Rightarrow>
          (if starts_with p ''/'' then [RootDir] else if s = ''.'' then [CurDir] else [])
            @ inner_components (s # ss))"

definition is_absolute :: "path \<Rightarrow> bool" where
  "is_absolute p \<longleftrightarrow> starts_with p ''/''"

definition last_normal :: "path \<Rightarrow> string option" where
  "last_normal p =
     (case rev (components p) of Normal s # _ \<Rightarrow> Some s | _ \<Rightarrow> None)"

text \<open>\<open>PathBuf::pop\<close> on a path without empty pieces: the parent, if there is one.\<close>

definition path_pop :: "path \<Rightarrow> path" where
  "path_pop p =
     (let d = path_dir_prefix p
      in if path_file_name p = [] then p
         else if d = ''/'' \<or> d = [] then d
         else butlast d)"

fun component_str :: "component \<Rightarrow> string" where
  "component_str RootDir = ''/''"
| "component_str CurDir = ''.''"
| "component_str ParentDir = ''..''"
| "component_str (Normal s) = s"

fun normalize_step :: "component \<Rightarrow> path \<Rightarrow> path" where
  "normalize_step CurDir acc = acc"
| "normalize_step ParentDir acc = path_pop acc"
| "normalize_step c acc = path_join acc (component_str c)"

definition normalize_path :: "path \<Rightarrow> path" where
  "normalize_path p =
     (let normalized = fold normalize_step (components p) []
      in if normalized = [] then ''.'' else normalized)"

definition path_with_base :: "path \<Rightarrow> path \<Rightarrow> path" where
  "path_with_base p base = (if is_absolute p then p else path_join base p)"

definition absolutize_from :: "path \<Rightarrow> path \<Rightarrow> path" where
  "absolutize_from p base = normalize_path (path_with_base p base)"

definition absolutize :: "path option \<Rightarrow> path \<Rightarrow> path option" where
  "absolutize cwd p =
     (if is_absolute p then Some (normalize_path p)
      else map_option (absolutize_from p) cwd)"

definition trim_start_slashes :: "string \<Rightarrow> string" where
  "trim_start_slashes s = dropWhile (\<lambda>c. c = CHR ''/'') s"

definition maybe_expand_home_directory :: "path option \<Rightarrow> path \<Rightarrow> path" where
  "maybe_expand_home_directory home p =
     (case strip_prefix ''~'' p of
        None \<Rightarrow> p
      | Some rest \<Rightarrow>
          (case home of
             None \<Rightarrow> p
           | Some h \<Rightarrow>
               if rest = [] then h
               else (case strip_prefix ''/'' rest of
                       Some rest' \<Rightarrow> path_join h (trim_start_slashes rest')
                     | None \<Rightarrow> p)))"

definition from_absolute_path :: "path option \<Rightarrow> path option \<Rightarrow> path \<Rightarrow> path option" where
  "from_absolute_path home cwd p = absolutize cwd (maybe_expand_home_directory home p)"

definition from_absolute_path_checked :: "path option \<Rightarrow> path \<Rightarrow> path option" where
  "from_absolute_path_checked home p =
     (let expanded = maybe_expand_home_directory home p
      in if \<not> is_absolute expanded then None else Some (absolutize_from expanded ''/''))"

definition resolve_path_against_base :: "path option \<Rightarrow> path \<Rightarrow> path \<Rightarrow> path" where
  "resolve_path_against_base home p base = absolutize_from (maybe_expand_home_directory home p) base"

subsection \<open>Normal form\<close>

text \<open>The absolute path of a list of names.\<close>

definition render_abs :: "string list \<Rightarrow> path" where
  "render_abs ss = (if ss = [] then ''/'' else concat (map ((#) (CHR ''/'')) ss))"

definition plain_name :: "string \<Rightarrow> bool" where
  "plain_name s \<longleftrightarrow> s \<noteq> [] \<and> s \<noteq> ''.'' \<and> s \<noteq> ''..'' \<and> CHR ''/'' \<notin> set s"

lemma segments_nonempty [simp]: "segments s \<noteq> []"
  by (cases s) (auto split: list.split)

lemma segments_no_slash: "s \<in> set (segments p) \<Longrightarrow> CHR ''/'' \<notin> set s"
proof (induction p arbitrary: s)
  case (Cons c cs)
  obtain a as where "segments cs = a # as" using segments_nonempty [of cs] by (cases "segments cs") auto
  with Cons show ?case by (auto split: if_splits)
qed simp

lemma segments_append: "segments (xs @ CHR ''/'' # ys) = segments xs @ segments ys"
proof (induction xs)
  case Nil
  obtain a as where "segments ys = a # as" using segments_nonempty [of ys] by (cases "segments ys") auto
  then show ?case by simp
next
  case (Cons c cs)
  obtain a as where "segments cs = a # as" using segments_nonempty [of cs] by (cases "segments cs") auto
  with Cons show ?case by simp
qed

lemma segments_chars: "s \<in> set (segments p) \<Longrightarrow> set s \<subseteq> set p"
proof (induction p arbitrary: s)
  case (Cons c cs)
  obtain a as where "segments cs = a # as" using segments_nonempty [of cs] by (cases "segments cs") auto
  with Cons show ?case by (fastforce split: if_splits)
qed simp

lemma segments_plain: "CHR ''/'' \<notin> set s \<Longrightarrow> segments s = [s]"
  by (induction s) auto

lemma segments_concat:
  "list_all plain_name ss \<Longrightarrow> segments (concat (map ((#) (CHR ''/'')) ss)) = [] # ss"
proof (induction ss)
  case (Cons s ss)
  let ?r = "concat (map ((#) (CHR ''/'')) ss)"
  have "segments (CHR ''/'' # s @ ?r) = [] # segments (s @ ?r)"
    using segments_append [of "[]" "s @ ?r"] by simp
  also have "segments (s @ ?r) = s # ss"
  proof (cases ss)
    case Nil
    with Cons.prems show ?thesis by (simp add: segments_plain plain_name_def)
  next
    case (Cons t ts)
    then obtain r where r: "?r = CHR ''/'' # r" by simp
    have "[] # segments r = [] # ss"
      using Cons.IH Cons.prems segments_append [of "[]" r] by (simp add: r)
    then show ?thesis
      using Cons.prems segments_append [of s r] by (simp add: r segments_plain plain_name_def)
  qed
  finally show ?case by simp
qed simp

lemma segments_render_abs:
  "list_all plain_name ss \<Longrightarrow> segments (render_abs ss) = [] # (if ss = [] then [[]] else ss)"
  by (simp add: render_abs_def segments_concat)

lemma render_abs_absolute [simp]: "starts_with (render_abs ss) ''/''"
  by (cases ss) (simp_all add: render_abs_def starts_with_def)

lemma components_render_abs:
  "list_all plain_name ss \<Longrightarrow> components (render_abs ss) = RootDir # map Normal ss"
proof -
  assume ss: "list_all plain_name ss"
  then have "filter (\<lambda>s. s \<noteq> [] \<and> s \<noteq> ''.'') ss = ss" "\<forall>s\<in>set ss. s \<noteq> ''..''"
    by (auto simp: list_all_iff plain_name_def filter_id_conv)
  then show ?thesis
    using segments_render_abs [OF ss] by (simp add: components_def inner_components_def)
qed

lemma ends_with_char: "ends_with p [c] \<longleftrightarrow> p \<noteq> [] \<and> last p = c"
  by (cases p rule: rev_cases) (auto simp: ends_with_iff)

lemma plain_name_last: "plain_name s \<Longrightarrow> s \<noteq> [] \<and> last s \<noteq> CHR ''/''"
  by (auto simp: plain_name_def) (metis last_in_set)

lemma render_abs_snoc_eq: "render_abs (ss @ [s]) = (if ss = [] then [] else render_abs ss) @ CHR ''/'' # s"
  by (simp add: render_abs_def)

lemma join_render_abs:
  assumes "list_all plain_name ss" and "plain_name s"
  shows "path_join (render_abs ss) s = render_abs (ss @ [s])"
proof -
  have s: "\<not> starts_with s ''/''" using assms(2) by (cases s) (auto simp: plain_name_def starts_with_def)
  show ?thesis
  proof (cases ss rule: rev_cases)
    case Nil
    with s show ?thesis by (simp add: path_join_def render_abs_def ends_with_def)
  next
    case (snoc ts t)
    then have "render_abs ss \<noteq> []" "\<not> ends_with (render_abs ss) ''/''"
      using assms(1) plain_name_last [of t] by (auto simp: render_abs_snoc_eq ends_with_char)
    with s snoc show ?thesis
      using render_abs_snoc_eq [of ss s] by (simp add: path_join_def del: append_assoc)
  qed
qed

lemma pop_render_abs:
  assumes "list_all plain_name ss"
  shows "path_pop (render_abs ss) = render_abs (butlast ss)"
proof (cases ss rule: rev_cases)
  case Nil
  then show ?thesis by (simp add: path_pop_def render_abs_def path_file_name_def Let_def)
next
  case (snoc ts t)
  let ?d = "if ts = [] then [] else render_abs ts"
  have t: "CHR ''/'' \<notin> set t" "t \<noteq> []" using assms snoc by (auto simp: plain_name_def)
  have fn: "path_file_name (?d @ CHR ''/'' # t) = t" using t(1) by (rule file_name_append)
  have "path_dir_prefix (?d @ CHR ''/'' # t) @ t = ?d @ CHR ''/'' # t"
    using dir_prefix_file_name [of "?d @ CHR ''/'' # t"] fn by simp
  then have "path_dir_prefix (?d @ CHR ''/'' # t) @ t = (?d @ ''/'') @ t" by simp
  then have dp: "path_dir_prefix (?d @ CHR ''/'' # t) = ?d @ ''/''" by (simp only: append_same_eq)
  have ne: "render_abs ts \<noteq> []" by (cases ts) (simp_all add: render_abs_def)
  have pop: "path_pop (?d @ CHR ''/'' # t) = (if ?d @ ''/'' = ''/'' then ''/'' else ?d)"
    unfolding path_pop_def Let_def fn dp using t(2) by simp
  show ?thesis
    using pop ne unfolding snoc render_abs_snoc_eq by (cases "ts = []") (simp_all add: render_abs_def)
qed

lemma normalize_fold:
  assumes "list_all plain_name ss"
    and "\<forall>c\<in>set cs. c = ParentDir \<or> (\<exists>s. c = Normal s \<and> plain_name s)"
  shows "\<exists>ts. list_all plain_name ts \<and> fold normalize_step cs (render_abs ss) = render_abs ts"
  using assms
proof (induction cs arbitrary: ss)
  case (Cons c cs)
  have "\<exists>ts. list_all plain_name ts \<and> normalize_step c (render_abs ss) = render_abs ts"
  proof (cases "c = ParentDir")
    case True
    have "list_all plain_name (butlast ss)"
      using Cons.prems(1) by (auto simp: list_all_iff dest: in_set_butlastD)
    then show ?thesis using True Cons.prems(1) by (auto simp: pop_render_abs)
  next
    case False
    then obtain s where s: "c = Normal s" "plain_name s" using Cons.prems(2) by auto
    then show ?thesis
      using Cons.prems(1) join_render_abs [of ss s] by (intro exI [of _ "ss @ [s]"]) simp
  qed
  then show ?case using Cons by auto
qed auto

lemma inner_components_plain:
  "c \<in> set (inner_components (segments p)) \<Longrightarrow> c = ParentDir \<or> (\<exists>s. c = Normal s \<and> plain_name s)"
  by (auto simp: inner_components_def plain_name_def dest: segments_no_slash)

text \<open>An absolute path normalizes to the rendering of plain names: absolute, without empty, dot or
  dot-dot pieces and without a slash at its end.\<close>

lemma normalize_absolute:
  assumes "is_absolute p"
  shows "\<exists>ss. list_all plain_name ss \<and> normalize_path p = render_abs ss"
proof -
  obtain s ss where seg: "segments p = s # ss" using segments_nonempty [of p] by (cases "segments p") auto
  have c: "components p = RootDir # inner_components (segments p)"
    using assms by (simp add: components_def seg is_absolute_def)
  have "path_join [] ''/'' = render_abs []" by (simp add: path_join_def render_abs_def starts_with_def)
  then obtain ts where "list_all plain_name ts" "fold normalize_step (components p) [] = render_abs ts"
    using normalize_fold [of "[]" "inner_components (segments p)"] inner_components_plain [of _ p]
    by (auto simp: c)
  moreover have "render_abs ts \<noteq> []" by (cases ts) (simp_all add: render_abs_def)
  ultimately show ?thesis by (auto simp: normalize_path_def)
qed

lemma absolute_join: "is_absolute base \<Longrightarrow> is_absolute (path_with_base p base)"
  by (auto simp: path_with_base_def path_join_def is_absolute_def starts_with_iff)

lemma from_absolute_path_normal:
  assumes "\<And>d. cwd = Some d \<Longrightarrow> is_absolute d" and "from_absolute_path home cwd p = Some q"
  shows "\<exists>ss. list_all plain_name ss \<and> q = render_abs ss"
proof -
  let ?e = "maybe_expand_home_directory home p"
  have "\<exists>r. is_absolute r \<and> q = normalize_path r"
  proof (cases "is_absolute ?e")
    case True
    with assms(2) show ?thesis by (auto simp: from_absolute_path_def absolutize_def)
  next
    case False
    then obtain d where "cwd = Some d" "q = absolutize_from ?e d"
      using assms(2) by (auto simp: from_absolute_path_def absolutize_def)
    then show ?thesis using assms(1) absolute_join by (auto simp: absolutize_from_def)
  qed
  then show ?thesis using normalize_absolute by blast
qed

lemma last_normal_render_abs:
  "list_all plain_name ss \<Longrightarrow> last_normal (render_abs ss) = (if ss = [] then None else Some (last ss))"
  by (cases ss rule: rev_cases) (auto simp: last_normal_def components_render_abs)

lemma normalize_fold_Normal:
  "list_all plain_name ss \<Longrightarrow> list_all plain_name ts \<Longrightarrow>
     fold normalize_step (map Normal ts) (render_abs ss) = render_abs (ss @ ts)"
  by (induction ts arbitrary: ss) (simp_all add: join_render_abs)

text \<open>Normalizing again changes nothing.\<close>

lemma normalize_idem:
  assumes "is_absolute p"
  shows "normalize_path (normalize_path p) = normalize_path p"
proof -
  obtain ss where ss: "list_all plain_name ss" "normalize_path p = render_abs ss"
    using normalize_absolute [OF assms] by blast
  have "path_join [] ''/'' = render_abs []" by (simp add: path_join_def render_abs_def starts_with_def)
  then have "fold normalize_step (components (render_abs ss)) [] = render_abs ss"
    using normalize_fold_Normal [of "[]" ss] ss(1) by (simp add: components_render_abs)
  moreover have "render_abs ss \<noteq> []" by (cases ss) (simp_all add: render_abs_def)
  ultimately show ?thesis unfolding ss(2) by (simp add: normalize_path_def)
qed

end
