(* ===== verification/Exec_Policy.thy ===== *)
theory Exec_Policy
  imports Exec_Rule Abs_Path "HOL-Library.Char_ord" "HOL-Library.List_Lexorder"
begin

text \<open>
  The policy and its evaluation, from \<open>execpolicy/src/policy.rs\<close>, with the lookup keys of
  \<open>execpolicy/src/executable_name.rs\<close> (Unix) and the validation of examples of
  \<open>execpolicy/src/rule.rs\<close>. A \<open>MultiMap\<close> is the list of its keys with their values, in the order the map
  iterates them. The panic of \<open>Evaluation::from_matches\<close> is the value \<open>None\<close>. The debug format of a rule
  and \<open>shlex\<close> are arguments.
\<close>

type_synonym multimap = "(string \<times> prefix_rule list) list"

fun mm_insert :: "string \<Rightarrow> prefix_rule \<Rightarrow> multimap \<Rightarrow> multimap" where
  "mm_insert k r [] = [(k, [r])]"
| "mm_insert k r ((k', rs) # mm) =
     (if k' = k then (k', rs @ [r]) # mm else (k', rs) # mm_insert k r mm)"

definition mm_get :: "multimap \<Rightarrow> string \<Rightarrow> prefix_rule list" where
  "mm_get mm k = (case map_of mm k of Some rs \<Rightarrow> rs | None \<Rightarrow> [])"

record policy =
  pol_rules :: multimap
  pol_network :: "network_rule list"
  pol_hosts :: "string \<rightharpoonup> path list"

definition policy_empty :: policy where
  "policy_empty = \<lparr>pol_rules = [], pol_network = [], pol_hosts = (\<lambda>_. None)\<rparr>"

definition executable_lookup_key :: "string \<Rightarrow> string" where
  "executable_lookup_key raw = raw"

definition executable_path_lookup_key :: "path \<Rightarrow> string option" where
  "executable_path_lookup_key p = map_option executable_lookup_key (last_normal p)"

text \<open>\<open>RequirementsExecPolicy\<close>: equality up to the order of the rules.\<close>

definition fingerprint :: "(prefix_rule \<Rightarrow> string) \<Rightarrow> policy \<Rightarrow> string list" where
  "fingerprint dbg pol =
     sort (concat (map (\<lambda>(program, rules). map (\<lambda>r. program @ '':'' @ dbg r) rules) (pol_rules pol)))"

fun render_pattern_token :: "pattern_token \<Rightarrow> string" where
  "render_pattern_token (Single v) = v"
| "render_pattern_token (Alts alts) =
     ''['' @ concat (case alts of [] \<Rightarrow> [] | a # as \<Rightarrow> a # map (\<lambda>x. ''|'' @ x) as) @ '']''"

definition get_allowed_prefixes :: "policy \<Rightarrow> string list list" where
  "get_allowed_prefixes pol =
     remdups_adj (sort (concat (map (\<lambda>(_, rules).
       map (\<lambda>r. pat_first (pr_pattern r) # map render_pattern_token (pat_rest (pr_pattern r)))
         (filter (\<lambda>r. pr_decision r = DecAllow) rules)) (pol_rules pol))))"

definition add_prefix_rule :: "string list \<Rightarrow> decision \<Rightarrow> policy \<Rightarrow> policy_error + policy" where
  "add_prefix_rule prefix d pol =
     (case prefix of
        [] \<Rightarrow> Inl (InvalidPattern ''prefix cannot be empty'')
      | first_token # rest \<Rightarrow>
          Inr (pol\<lparr>pol_rules := mm_insert first_token
            \<lparr>pr_pattern = \<lparr>pat_first = first_token, pat_rest = map Single rest\<rparr>, pr_decision = d,
             pr_justification = None\<rparr> (pol_rules pol)\<rparr>))"

definition add_network_rule ::
  "string \<Rightarrow> network_rule_protocol \<Rightarrow> decision \<Rightarrow> string option \<Rightarrow> policy \<Rightarrow> policy_error + policy" where
  "add_network_rule host protocol d justification pol =
     result_bind (normalize_network_rule_host host) (\<lambda>host.
       if (case justification of Some raw \<Rightarrow> trim raw = [] | None \<Rightarrow> False)
       then Inl (InvalidRule ''justification cannot be empty'')
       else Inr (pol\<lparr>pol_network := pol_network pol @
         [\<lparr>nr_host = host, nr_protocol = protocol, nr_decision = d, nr_justification = justification\<rparr>]\<rparr>))"

definition set_host_executable_paths :: "string \<Rightarrow> path list \<Rightarrow> policy \<Rightarrow> policy" where
  "set_host_executable_paths name paths pol = pol\<lparr>pol_hosts := (pol_hosts pol)(name \<mapsto> paths)\<rparr>"

definition merge_overlay :: "policy \<Rightarrow> policy \<Rightarrow> policy" where
  "merge_overlay pol overlay =
     \<lparr>pol_rules = fold (\<lambda>(program, rules) mm. fold (mm_insert program) rules mm)
        (pol_rules overlay) (pol_rules pol),
      pol_network = pol_network pol @ pol_network overlay,
      pol_hosts = pol_hosts pol ++ pol_hosts overlay\<rparr>"

definition upsert_domain :: "string \<Rightarrow> string list \<Rightarrow> string list" where
  "upsert_domain host entries = filter (\<lambda>e. e \<noteq> host) entries @ [host]"

fun domain_step :: "network_rule \<Rightarrow> string list \<times> string list \<Rightarrow> string list \<times> string list" where
  "domain_step rule (allowed, denied) =
     (case nr_decision rule of
        DecAllow \<Rightarrow> (upsert_domain (nr_host rule) allowed, filter (\<lambda>e. e \<noteq> nr_host rule) denied)
      | DecForbidden \<Rightarrow> (filter (\<lambda>e. e \<noteq> nr_host rule) allowed, upsert_domain (nr_host rule) denied)
      | DecPrompt \<Rightarrow> (allowed, denied))"

definition compiled_network_domains :: "policy \<Rightarrow> string list \<times> string list" where
  "compiled_network_domains pol = fold domain_step (pol_network pol) ([], [])"

subsection \<open>Matching\<close>

text \<open>The surroundings that absolute paths depend on.\<close>

record path_env =
  pe_home :: "path option"
  pe_cwd :: "path option"

definition match_exact_rules :: "policy \<Rightarrow> string list \<Rightarrow> rule_match list option" where
  "match_exact_rules pol cmd =
     (case cmd of
        [] \<Rightarrow> None
      | first # _ \<Rightarrow> Some (List.map_filter (\<lambda>r. rule_matches r cmd) (mm_get (pol_rules pol) first)))"

definition match_host_executable_rules ::
  "path_env \<Rightarrow> policy \<Rightarrow> string list \<Rightarrow> rule_match list" where
  "match_host_executable_rules pe pol cmd =
     (case cmd of
        [] \<Rightarrow> []
      | first # args \<Rightarrow>
     (case from_absolute_path (pe_home pe) (pe_cwd pe) first of
        None \<Rightarrow> []
      | Some program \<Rightarrow>
     (case executable_path_lookup_key program of
        None \<Rightarrow> []
      | Some basename \<Rightarrow>
     (case map_of (pol_rules pol) basename of
        None \<Rightarrow> []
      | Some rules \<Rightarrow>
          if (case pol_hosts pol basename of Some paths \<Rightarrow> program \<notin> set paths | None \<Rightarrow> False)
          then []
          else map (\<lambda>m. with_resolved_program m program)
            (List.map_filter (\<lambda>r. rule_matches r (basename # args)) rules)))))"

definition matches_for_command_with_options ::
  "path_env \<Rightarrow> policy \<Rightarrow> string list \<Rightarrow> (string list \<Rightarrow> decision) option \<Rightarrow> bool \<Rightarrow> rule_match list" where
  "matches_for_command_with_options pe pol cmd heuristics_fallback resolve_host_executables =
     (let matched_rules =
        (case match_exact_rules pol cmd of
           Some (m # ms) \<Rightarrow> m # ms
         | _ \<Rightarrow> if resolve_host_executables then match_host_executable_rules pe pol cmd else [])
      in case (matched_rules, heuristics_fallback) of
           ([], Some fallback) \<Rightarrow> [HeuristicsRuleMatch cmd (fallback cmd)]
         | _ \<Rightarrow> matched_rules)"

record evaluation =
  ev_decision :: decision
  ev_matched_rules :: "rule_match list"

definition is_match :: "evaluation \<Rightarrow> bool" where
  "is_match ev \<longleftrightarrow>
     list_ex (\<lambda>m. case m of HeuristicsRuleMatch _ _ \<Rightarrow> False | _ \<Rightarrow> True) (ev_matched_rules ev)"

definition from_matches :: "rule_match list \<Rightarrow> evaluation option" where
  "from_matches ms =
     (case map match_decision ms of
        [] \<Rightarrow> None
      | d # ds \<Rightarrow> Some \<lparr>ev_decision = fold max ds d, ev_matched_rules = ms\<rparr>)"

definition check_with_options ::
  "path_env \<Rightarrow> policy \<Rightarrow> string list \<Rightarrow> (string list \<Rightarrow> decision) \<Rightarrow> bool \<Rightarrow> evaluation option" where
  "check_with_options pe pol cmd fallback resolve =
     from_matches (matches_for_command_with_options pe pol cmd (Some fallback) resolve)"

definition check ::
  "path_env \<Rightarrow> policy \<Rightarrow> string list \<Rightarrow> (string list \<Rightarrow> decision) \<Rightarrow> evaluation option" where
  "check pe pol cmd fallback = check_with_options pe pol cmd fallback False"

definition check_multiple_with_options ::
  "path_env \<Rightarrow> policy \<Rightarrow> string list list \<Rightarrow> (string list \<Rightarrow> decision) \<Rightarrow> bool \<Rightarrow> evaluation option" where
  "check_multiple_with_options pe pol commands fallback resolve =
     from_matches (concat (map (\<lambda>cmd.
       matches_for_command_with_options pe pol cmd (Some fallback) resolve) commands))"

subsection \<open>Validation of examples\<close>

definition render_example :: "(string list \<Rightarrow> string option) \<Rightarrow> string list \<Rightarrow> string" where
  "render_example try_join example =
     (case try_join example of Some s \<Rightarrow> s | None \<Rightarrow> ''unable to render example'')"

definition validate_match_examples ::
  "(string list \<Rightarrow> string option) \<Rightarrow> (prefix_rule \<Rightarrow> string) \<Rightarrow> path_env \<Rightarrow> policy \<Rightarrow> prefix_rule list
     \<Rightarrow> string list list \<Rightarrow> policy_error + unit" where
  "validate_match_examples try_join dbg pe pol rules matches =
     (let unmatched = map (render_example try_join)
        (filter (\<lambda>example. matches_for_command_with_options pe pol example None True = []) matches)
      in if unmatched = [] then Inr ()
         else Inl (ExampleDidNotMatch (map dbg rules) unmatched None))"

fun validate_not_match_examples ::
  "(string list \<Rightarrow> string option) \<Rightarrow> (rule_match \<Rightarrow> string) \<Rightarrow> path_env \<Rightarrow> policy
     \<Rightarrow> string list list \<Rightarrow> policy_error + unit" where
  "validate_not_match_examples try_join dbg pe pol [] = Inr ()"
| "validate_not_match_examples try_join dbg pe pol (example # examples) =
     (case matches_for_command_with_options pe pol example None True of
        m # _ \<Rightarrow> Inl (ExampleDidMatch (dbg m) (render_example try_join example) None)
      | [] \<Rightarrow> validate_not_match_examples try_join dbg pe pol examples)"

subsection \<open>The policy's invariant\<close>

text \<open>Each program is listed once, and a rule stands under its own program.\<close>

definition mm_ok :: "multimap \<Rightarrow> bool" where
  "mm_ok mm \<longleftrightarrow> distinct (map fst mm) \<and> (\<forall>(k, rs)\<in>set mm. \<forall>r\<in>set rs. rule_program r = k)"

lemma mm_get_insert: "mm_get (mm_insert k r mm) k' = mm_get mm k' @ (if k' = k then [r] else [])"
  by (induction k r mm rule: mm_insert.induct) (auto simp: mm_get_def)

lemma mm_insert_keys: "fst ` set (mm_insert k r mm) = insert k (fst ` set mm)"
  by (induction k r mm rule: mm_insert.induct) auto

lemma mm_insert_ok: "mm_ok mm \<Longrightarrow> mm_ok (mm_insert (rule_program r) r mm)"
proof (induction "rule_program r" r mm rule: mm_insert.induct)
  case (2 r k' rs mm)
  then show ?case using mm_insert_keys [of "rule_program r" r mm] by (auto simp: mm_ok_def)
qed (simp add: mm_ok_def)

lemma mm_get_insert_all:
  "mm_get (fold (mm_insert k) rs mm) k' = mm_get mm k' @ (if k' = k then rs else [])"
  by (induction rs arbitrary: mm) (simp_all add: mm_get_insert)

lemma mm_get_absent: "k \<notin> fst ` set mm \<Longrightarrow> mm_get mm k = []"
  by (auto simp: mm_get_def map_of_eq_None_iff [symmetric] split: option.split)

lemma mm_get_Cons: "mm_get ((k, rs) # mm) k' = (if k' = k then rs else mm_get mm k')"
  by (simp add: mm_get_def)

lemma mm_get_merge:
  "distinct (map fst ov) \<Longrightarrow>
     mm_get (fold (\<lambda>(program, rules) mm. fold (mm_insert program) rules mm) ov mm) k
       = mm_get mm k @ mm_get ov k"
proof (induction ov arbitrary: mm)
  case (Cons kr ov)
  obtain k0 rs where kr: "kr = (k0, rs)" by fastforce
  show ?case
    using Cons by (auto simp: kr mm_get_insert_all mm_get_Cons mm_get_absent)
qed (simp add: mm_get_def)

lemma mm_get_programs: "mm_ok mm \<Longrightarrow> r \<in> set (mm_get mm k) \<Longrightarrow> rule_program r = k"
  by (auto simp: mm_get_def mm_ok_def split: option.splits dest!: map_of_SomeD)

lemma mm_merge_ok:
  assumes "mm_ok mm" and "\<forall>(k, rs)\<in>set ov. \<forall>r\<in>set rs. rule_program r = k"
  shows "mm_ok (fold (\<lambda>(program, rules) mm. fold (mm_insert program) rules mm) ov mm)"
  using assms
proof (induction ov arbitrary: mm)
  case (Cons kr ov)
  obtain k rs where kr: "kr = (k, rs)" by fastforce
  have "mm_ok (fold (mm_insert k) rs mm)" if "\<forall>r\<in>set rs. rule_program r = k" "mm_ok mm" for mm
    using that
  proof (induction rs arbitrary: mm)
    case (Cons r rs)
    then show ?case using mm_insert_ok [of mm r] by simp
  qed simp
  with Cons kr show ?case by simp
qed simp

lemma merge_overlay_ok:
  "mm_ok (pol_rules p) \<Longrightarrow> mm_ok (pol_rules q) \<Longrightarrow> mm_ok (pol_rules (merge_overlay p q))"
  by (auto simp: merge_overlay_def mm_ok_def intro!: mm_merge_ok [unfolded mm_ok_def])

lemma add_prefix_rule_ok:
  "mm_ok (pol_rules p) \<Longrightarrow> add_prefix_rule prefix d p = Inr q \<Longrightarrow> mm_ok (pol_rules q)"
  using mm_insert_ok [of "pol_rules p" "\<lparr>pr_pattern = \<lparr>pat_first = hd prefix, pat_rest = map Single (tl prefix)\<rparr>,
      pr_decision = d, pr_justification = None\<rparr>"]
  by (auto simp: add_prefix_rule_def rule_program_def split: list.splits)

subsection \<open>Decisions\<close>

lemma fold_max_ge: "(a :: 'a :: linorder) \<le> fold max ds a \<and> (\<forall>d\<in>set ds. d \<le> fold max ds a)"
proof (induction ds arbitrary: a)
  case (Cons d ds)
  have "d \<le> max d a" "a \<le> max d a" by simp_all
  then show ?case using Cons.IH [of "max d a"] by (auto intro: order_trans)
qed simp

lemma fold_max_in: "fold max ds (a :: 'a :: linorder) \<in> insert a (set ds)"
  by (induction ds arbitrary: a) (auto simp: max_def split: if_splits)

text \<open>The decision of an evaluation is the strictest of its matches.\<close>

lemma from_matches_spec:
  "from_matches ms = Some ev \<longleftrightarrow>
     ms \<noteq> [] \<and> ev_matched_rules ev = ms \<and> ev_decision ev \<in> match_decision ` set ms
     \<and> (\<forall>m\<in>set ms. match_decision m \<le> ev_decision ev)"
proof (cases ms)
  case (Cons m ms')
  let ?d = "fold max (map match_decision ms') (match_decision m)"
  have ge: "match_decision m \<le> ?d" "\<forall>x\<in>set ms'. match_decision x \<le> ?d"
    using fold_max_ge [of "match_decision m" "map match_decision ms'"] by auto
  have mem: "?d \<in> match_decision ` set ms"
    using fold_max_in [of "map match_decision ms'" "match_decision m"] by (auto simp: Cons)
  have eq: "d = ?d" if "d \<in> match_decision ` set ms" "\<forall>x\<in>set ms. match_decision x \<le> d" for d
    using that ge mem by (auto simp: Cons intro: antisym)
  have fm: "from_matches ms = Some \<lparr>ev_decision = ?d, ev_matched_rules = ms\<rparr>"
    by (simp add: from_matches_def Cons)
  show ?thesis
  proof
    assume "from_matches ms = Some ev"
    then show "ms \<noteq> [] \<and> ev_matched_rules ev = ms \<and> ev_decision ev \<in> match_decision ` set ms
        \<and> (\<forall>m\<in>set ms. match_decision m \<le> ev_decision ev)"
      using fm ge mem by (auto simp: Cons)
  next
    assume a: "ms \<noteq> [] \<and> ev_matched_rules ev = ms \<and> ev_decision ev \<in> match_decision ` set ms
        \<and> (\<forall>m\<in>set ms. match_decision m \<le> ev_decision ev)"
    then have "ev_decision ev = ?d" using eq by blast
    with a show "from_matches ms = Some ev" unfolding fm by (cases ev) simp
  qed
qed (simp add: from_matches_def)

lemma matches_nonempty:
  "matches_for_command_with_options pe pol cmd (Some fallback) resolve \<noteq> []"
  by (auto simp: matches_for_command_with_options_def Let_def split: list.splits option.splits)

lemma check_total: "\<exists>ev. check_with_options pe pol cmd fallback resolve = Some ev"
  using matches_nonempty [of pe pol cmd fallback resolve]
  by (auto simp: check_with_options_def from_matches_def split: list.split)

lemma exact_match_from:
  "match_exact_rules pol cmd = Some ms \<Longrightarrow> m \<in> set ms \<Longrightarrow>
     \<exists>r\<in>set (mm_get (pol_rules pol) (hd cmd)). rule_matches r cmd = Some m"
  by (cases cmd) (auto simp: match_exact_rules_def set_map_filter)

lemma host_match_from:
  assumes "m \<in> set (match_host_executable_rules pe pol (first # args))"
  shows "\<exists>program basename r m'. from_absolute_path (pe_home pe) (pe_cwd pe) first = Some program
    \<and> executable_path_lookup_key program = Some basename
    \<and> (case pol_hosts pol basename of Some paths \<Rightarrow> program \<in> set paths | None \<Rightarrow> True)
    \<and> r \<in> set (mm_get (pol_rules pol) basename)
    \<and> rule_matches r (basename # args) = Some m' \<and> m = with_resolved_program m' program"
proof -
  obtain program where p: "from_absolute_path (pe_home pe) (pe_cwd pe) first = Some program"
    using assms
    by (cases "from_absolute_path (pe_home pe) (pe_cwd pe) first")
      (simp_all add: match_host_executable_rules_def)
  obtain basename where b: "executable_path_lookup_key program = Some basename"
    using assms p
    by (cases "executable_path_lookup_key program") (simp_all add: match_host_executable_rules_def)
  obtain rules where r: "map_of (pol_rules pol) basename = Some rules"
    using assms p b
    by (cases "map_of (pol_rules pol) basename") (simp_all add: match_host_executable_rules_def)
  have g: "case pol_hosts pol basename of Some paths \<Rightarrow> program \<in> set paths | None \<Rightarrow> True"
    using assms p b r
    by (cases "pol_hosts pol basename")
      (simp_all add: match_host_executable_rules_def split: if_splits)
  then have "m \<in> set (map (\<lambda>m. with_resolved_program m program)
      (List.map_filter (\<lambda>r. rule_matches r (basename # args)) rules))"
    using assms p b r
    by (cases "pol_hosts pol basename") (simp_all add: match_host_executable_rules_def)
  then obtain r' m' where "r' \<in> set rules" "rule_matches r' (basename # args) = Some m'"
    "m = with_resolved_program m' program"
    by (auto simp: set_map_filter)
  with p b r g show ?thesis
    by (intro exI [of _ program] exI [of _ basename] exI [of _ r'] exI [of _ m'])
      (simp add: mm_get_def)
qed

lemma matches_from:
  "m \<in> set (matches_for_command_with_options pe pol cmd None resolve) \<Longrightarrow>
     (\<exists>ms. match_exact_rules pol cmd = Some ms \<and> m \<in> set ms)
     \<or> m \<in> set (match_host_executable_rules pe pol cmd)"
  by (auto simp: matches_for_command_with_options_def Let_def
      split: list.splits option.splits if_splits)

end
