(* ===== verification/Text_Lines.thy ===== *)
theory Text_Lines
  imports Prelude
begin

text \<open>
  Lines of a string, as \<open>str::split_inclusive\<close> and \<open>str::lines\<close> give them.
\<close>

abbreviation lf :: char where "lf \<equiv> CHR 0x0A"
abbreviation cr :: char where "cr \<equiv> CHR 0x0D"

fun split_inclusive :: "string \<Rightarrow> string list" where
  "split_inclusive [] = []"
| "split_inclusive (c # cs) =
     (if c = lf then [c] # split_inclusive cs
      else (case split_inclusive cs of [] \<Rightarrow> [[c]] | l # ls \<Rightarrow> (c # l) # ls))"

definition strip_suffix_char :: "char \<Rightarrow> string \<Rightarrow> string option" where
  "strip_suffix_char c s = (if s \<noteq> [] \<and> last s = c then Some (butlast s) else None)"

definition line_of :: "string \<Rightarrow> string" where
  "line_of s =
     (case strip_suffix_char lf s of
        None \<Rightarrow> s
      | Some l \<Rightarrow> (case strip_suffix_char cr l of None \<Rightarrow> l | Some l' \<Rightarrow> l'))"

definition str_lines :: "string \<Rightarrow> string list" where
  "str_lines s = map line_of (split_inclusive s)"

lemma concat_split_inclusive [simp]: "concat (split_inclusive s) = s"
  by (induction s) (auto split: list.split)

lemma split_inclusive_nonempty: "l \<in> set (split_inclusive s) \<Longrightarrow> l \<noteq> []"
  by (induction s arbitrary: l) (auto split: list.splits if_splits)

lemma split_inclusive_eq_Nil [simp]: "split_inclusive s = [] \<longleftrightarrow> s = []"
  by (cases s) (auto split: list.split)

lemma split_inclusive_line:
  "lf \<notin> set l \<Longrightarrow> split_inclusive (l @ lf # rest) = (l @ [lf]) # split_inclusive rest"
  by (induction l) auto

lemma split_inclusive_plain: "lf \<notin> set l \<Longrightarrow> l \<noteq> [] \<Longrightarrow> split_inclusive l = [l]"
proof (induction l)
  case (Cons c cs)
  then show ?case by (cases cs) auto
qed simp

text \<open>After text that ends a line (or nothing), the pieces of what follows come next.\<close>

lemma split_inclusive_append:
  "s = [] \<or> last s = lf \<Longrightarrow> split_inclusive (s @ t) = split_inclusive s @ split_inclusive t"
proof (induction s)
  case (Cons c cs)
  show ?case
  proof (cases "cs = []")
    case True
    with Cons.prems show ?thesis by simp
  next
    case False
    with Cons.prems have "last cs = lf" by simp
    with Cons.IH have "split_inclusive (cs @ t) = split_inclusive cs @ split_inclusive t" by simp
    moreover obtain l ls where "split_inclusive cs = l # ls"
      using False by (metis list.exhaust split_inclusive_eq_Nil)
    ultimately show ?thesis by simp
  qed
qed simp

text \<open>Ending an unfinished last line with a newline keeps the lines, unless that line ends in a
  carriage return.\<close>

lemma split_inclusive_finish:
  assumes "s \<noteq> []" and "last s \<noteq> lf"
  shows "\<exists>ls l. split_inclusive s = ls @ [l] \<and> split_inclusive (s @ [lf]) = ls @ [l @ [lf]]
    \<and> l \<noteq> [] \<and> last l = last s \<and> lf \<notin> set l"
  using assms
proof (induction s)
  case (Cons c cs)
  show ?case
  proof (cases "cs = []")
    case True
    with Cons.prems show ?thesis by simp
  next
    case False
    with Cons.prems Cons.IH obtain ls l where
      *: "split_inclusive cs = ls @ [l]" "split_inclusive (cs @ [lf]) = ls @ [l @ [lf]]"
        "l \<noteq> []" "last l = last cs" "lf \<notin> set l"
      by auto
    show ?thesis
    proof (cases "c = lf")
      case True
      with * False show ?thesis by (intro exI [of _ "[c] # ls"] exI [of _ l]) simp
    next
      case c: False
      show ?thesis
      proof (cases ls)
        case Nil
        with * False c show ?thesis by (intro exI [of _ "[]"] exI [of _ "c # l"]) simp
      next
        case (Cons a as)
        with * False c show ?thesis by (intro exI [of _ "(c # a) # as"] exI [of _ l]) simp
      qed
    qed
  qed
qed simp

lemma line_of_snoc: "lf \<notin> set l \<Longrightarrow> l = [] \<or> last l \<noteq> cr \<Longrightarrow> line_of (l @ [lf]) = l"
  by (auto simp: line_of_def strip_suffix_char_def)

lemma line_of_plain: "lf \<notin> set l \<Longrightarrow> line_of l = l"
  by (cases l rule: rev_cases) (auto simp: line_of_def strip_suffix_char_def)

lemma str_lines_Nil [simp]: "str_lines [] = []"
  by (simp add: str_lines_def)

lemma str_lines_append:
  "s = [] \<or> last s = lf \<Longrightarrow> str_lines (s @ t) = str_lines s @ str_lines t"
  by (simp add: str_lines_def split_inclusive_append)

lemma str_lines_one:
  "lf \<notin> set l \<Longrightarrow> l = [] \<or> last l \<noteq> cr \<Longrightarrow> str_lines (l @ [lf]) = [l]"
  using split_inclusive_line [of l "[]"] by (simp add: str_lines_def line_of_snoc)

lemma str_lines_finish:
  assumes "s \<noteq> []" and "last s \<noteq> lf" and "last s \<noteq> cr"
  shows "str_lines (s @ [lf]) = str_lines s"
  using split_inclusive_finish [OF assms(1,2)] assms(3)
  by (auto simp: str_lines_def line_of_snoc line_of_plain)

end
