(* ===== verification/Exec_Parser.thy ===== *)
theory Exec_Parser
  imports Exec_Policy Text_Lines
begin

text \<open>
  Loading a policy, from \<open>execpolicy/src/parser.rs\<close> and \<open>load_policies\<close> of
  \<open>execpolicy/src/execpolicycheck.rs\<close>, and amending a policy file, from \<open>execpolicy/src/amend.rs\<close>. The
  Starlark interpreter is the argument \<open>starlark\<close>: of a file it gives a syntax error, or the calls of
  the policy builtins that the evaluation makes, in order, each with its location, and the error the
  script itself ends with, if any. A Starlark value is a string, a list or a value of another type.
  \<open>shlex::split\<close>, the JSON writer of strings and the text of an interpreter error are arguments.
\<close>

datatype sval = SStr string | SList "sval list" | SOther string

fun get_type :: "sval \<Rightarrow> string" where
  "get_type (SStr _) = ''string''"
| "get_type (SList _) = ''list''"
| "get_type (SOther t) = t"

fun unpack_str :: "sval \<Rightarrow> string option" where
  "unpack_str (SStr s) = Some s"
| "unpack_str _ = None"

record pending_example_validation =
  pv_rules :: "prefix_rule list"
  pv_matches :: "string list list"
  pv_not_matches :: "string list list"
  pv_location :: "error_location option"

record policy_builder =
  pb_rules :: multimap
  pb_network :: "network_rule list"
  pb_hosts :: "string \<rightharpoonup> path list"
  pb_pending :: "pending_example_validation list"

definition builder_new :: policy_builder where
  "builder_new = \<lparr>pb_rules = [], pb_network = [], pb_hosts = (\<lambda>_. None), pb_pending = []\<rparr>"

definition add_rule :: "prefix_rule \<Rightarrow> policy_builder \<Rightarrow> policy_builder" where
  "add_rule r b = b\<lparr>pb_rules := mm_insert (rule_program r) r (pb_rules b)\<rparr>"

definition builder_build :: "policy_builder \<Rightarrow> policy" where
  "builder_build b = \<lparr>pol_rules = pb_rules b, pol_network = pb_network b, pol_hosts = pb_hosts b\<rparr>"

subsection \<open>Arguments of the builtins\<close>

definition unpack_strings :: "(string \<Rightarrow> policy_error) \<Rightarrow> sval list \<Rightarrow> policy_error + string list" where
  "unpack_strings err vs =
     collect_results (map (\<lambda>v. case unpack_str v of Some s \<Rightarrow> Inr s | None \<Rightarrow> Inl (err (get_type v))) vs)"

fun parse_pattern_token :: "sval \<Rightarrow> policy_error + pattern_token" where
  "parse_pattern_token (SStr s) = Inr (Single s)"
| "parse_pattern_token (SList vs) =
     result_bind (unpack_strings
       (\<lambda>t. InvalidPattern (''pattern alternative must be a string (got '' @ t @ '')'')) vs)
       (\<lambda>tokens. case tokens of
          [] \<Rightarrow> Inl (InvalidPattern ''pattern alternatives cannot be empty'')
        | [s] \<Rightarrow> Inr (Single s)
        | _ \<Rightarrow> Inr (Alts tokens))"
| "parse_pattern_token (SOther t) =
     Inl (InvalidPattern (''pattern element must be a string or list of strings (got '' @ t @ '')''))"

definition parse_pattern :: "sval list \<Rightarrow> policy_error + pattern_token list" where
  "parse_pattern vs =
     result_bind (collect_results (map parse_pattern_token vs)) (\<lambda>tokens.
       if tokens = [] then Inl (InvalidPattern ''pattern cannot be empty'') else Inr tokens)"

definition parse_string_example ::
  "(string \<Rightarrow> string list option) \<Rightarrow> string \<Rightarrow> policy_error + string list" where
  "parse_string_example shlex_split raw =
     (case shlex_split raw of
        None \<Rightarrow> Inl (InvalidExample ''example string has invalid shell syntax'')
      | Some tokens \<Rightarrow>
          if tokens = [] then Inl (InvalidExample ''example cannot be an empty string'') else Inr tokens)"

definition parse_list_example :: "sval list \<Rightarrow> policy_error + string list" where
  "parse_list_example vs =
     result_bind (unpack_strings
       (\<lambda>t. InvalidExample (''example tokens must be strings (got '' @ t @ '')'')) vs)
       (\<lambda>tokens. if tokens = [] then Inl (InvalidExample ''example cannot be an empty list'')
                 else Inr tokens)"

fun parse_example :: "(string \<Rightarrow> string list option) \<Rightarrow> sval \<Rightarrow> policy_error + string list" where
  "parse_example shlex_split (SStr raw) = parse_string_example shlex_split raw"
| "parse_example shlex_split (SList vs) = parse_list_example vs"
| "parse_example shlex_split (SOther t) =
     Inl (InvalidExample (''example must be a string or list of strings (got '' @ t @ '')''))"

definition parse_examples ::
  "(string \<Rightarrow> string list option) \<Rightarrow> sval list option \<Rightarrow> policy_error + string list list" where
  "parse_examples shlex_split vs =
     (case vs of None \<Rightarrow> Inr [] | Some vs \<Rightarrow> collect_results (map (parse_example shlex_split) vs))"

text \<open>The conversion of a literal absolute path reads no directory and cannot fail, so the text of its
  error is left out of the last message.\<close>

definition parse_literal_absolute_path :: "path_env \<Rightarrow> string \<Rightarrow> policy_error + path" where
  "parse_literal_absolute_path pe raw =
     (if \<not> is_absolute raw
      then Inl (InvalidRule (''host_executable paths must be absolute (got '' @ raw @ '')''))
      else (case from_absolute_path (pe_home pe) (pe_cwd pe) raw of
              Some p \<Rightarrow> Inr p
            | None \<Rightarrow> Inl (InvalidRule (''invalid absolute path `'' @ raw @ ''`''))))"

definition validate_host_executable_name :: "string \<Rightarrow> policy_error + unit" where
  "validate_host_executable_name name =
     (if name = [] then Inl (InvalidRule ''host_executable name cannot be empty'')
      else if length (components name) \<noteq> 1 \<or> last_normal name \<noteq> Some name
      then Inl (InvalidRule (''host_executable name must be a bare executable name (got '' @ name @ '')''))
      else Inr ())"

definition parse_network_rule_decision :: "string \<Rightarrow> policy_error + decision" where
  "parse_network_rule_decision raw = (if raw = ''deny'' then Inr DecForbidden else decision_parse raw)"

definition parse_justification :: "string option \<Rightarrow> policy_error + string option" where
  "parse_justification j =
     (case j of
        Some raw \<Rightarrow> if trim raw = [] then Inl (InvalidRule ''justification cannot be empty'')
                    else Inr (Some raw)
      | None \<Rightarrow> Inr None)"

subsection \<open>The builtins\<close>

datatype builtin_call =
    PrefixRuleCall "sval list" "string option" "sval list option" "sval list option" "string option"
  | NetworkRuleCall string string string "string option"
  | HostExecutableCall string "sval list"

definition prefix_rule_builtin ::
  "(string \<Rightarrow> string list option) \<Rightarrow> error_location option \<Rightarrow> sval list \<Rightarrow> string option
     \<Rightarrow> sval list option \<Rightarrow> sval list option \<Rightarrow> string option \<Rightarrow> policy_builder
     \<Rightarrow> policy_error + policy_builder" where
  "prefix_rule_builtin shlex_split loc pattern d mat not_mat justification b =
     result_bind (case d of Some raw \<Rightarrow> decision_parse raw | None \<Rightarrow> Inr DecAllow) (\<lambda>d.
     result_bind (parse_justification justification) (\<lambda>justification.
     result_bind (parse_pattern pattern) (\<lambda>pattern_tokens.
     result_bind (parse_examples shlex_split mat) (\<lambda>ms.
     result_bind (parse_examples shlex_split not_mat) (\<lambda>nms.
     case pattern_tokens of
       [] \<Rightarrow> Inl (InvalidPattern ''pattern cannot be empty'')
     | first_token # rest \<Rightarrow>
         (let rules = map (\<lambda>head.
            \<lparr>pr_pattern = \<lparr>pat_first = head, pat_rest = rest\<rparr>, pr_decision = d,
             pr_justification = justification\<rparr>) (alternatives first_token)
          in Inr (fold add_rule rules
               (b\<lparr>pb_pending := pb_pending b @
                 [\<lparr>pv_rules = rules, pv_matches = ms, pv_not_matches = nms, pv_location = loc\<rparr>]\<rparr>))))))))"

definition network_rule_builtin ::
  "string \<Rightarrow> string \<Rightarrow> string \<Rightarrow> string option \<Rightarrow> policy_builder \<Rightarrow> policy_error + policy_builder" where
  "network_rule_builtin host protocol d justification b =
     result_bind (protocol_parse protocol) (\<lambda>protocol.
     result_bind (parse_network_rule_decision d) (\<lambda>d.
     result_bind (parse_justification justification) (\<lambda>justification.
     result_bind (normalize_network_rule_host host) (\<lambda>host.
     Inr (b\<lparr>pb_network := pb_network b @
       [\<lparr>nr_host = host, nr_protocol = protocol, nr_decision = d,
         nr_justification = justification\<rparr>]\<rparr>)))))"

fun parse_host_paths ::
  "path_env \<Rightarrow> string \<Rightarrow> sval list \<Rightarrow> path list \<Rightarrow> policy_error + path list" where
  "parse_host_paths pe name [] parsed = Inr parsed"
| "parse_host_paths pe name (v # vs) parsed =
     (case unpack_str v of
        None \<Rightarrow> Inl (InvalidRule (''host_executable paths must be strings (got '' @ get_type v @ '')''))
      | Some raw \<Rightarrow>
          result_bind (parse_literal_absolute_path pe raw) (\<lambda>p.
            if executable_path_lookup_key p \<noteq> Some (executable_lookup_key name)
            then Inl (InvalidRule
              (''host_executable path `'' @ raw @ ''` must have basename `'' @ name @ ''`''))
            else parse_host_paths pe name vs (if p \<in> set parsed then parsed else parsed @ [p])))"

definition host_executable_builtin ::
  "path_env \<Rightarrow> string \<Rightarrow> sval list \<Rightarrow> policy_builder \<Rightarrow> policy_error + policy_builder" where
  "host_executable_builtin pe name paths b =
     result_bind (validate_host_executable_name name) (\<lambda>_.
     result_bind (parse_host_paths pe name paths []) (\<lambda>parsed.
     Inr (b\<lparr>pb_hosts := (pb_hosts b)(executable_lookup_key name \<mapsto> parsed)\<rparr>)))"

fun builtin ::
  "(string \<Rightarrow> string list option) \<Rightarrow> path_env \<Rightarrow> error_location option \<Rightarrow> builtin_call
     \<Rightarrow> policy_builder \<Rightarrow> policy_error + policy_builder" where
  "builtin shlex_split pe loc (PrefixRuleCall p d m n j) b = prefix_rule_builtin shlex_split loc p d m n j b"
| "builtin shlex_split pe loc (NetworkRuleCall h p d j) b = network_rule_builtin h p d j b"
| "builtin shlex_split pe loc (HostExecutableCall n ps) b = host_executable_builtin pe n ps b"

subsection \<open>Parsing a file\<close>

text \<open>What the parser calls outside the crate.\<close>

record parser_env =
  px_starlark :: "string \<Rightarrow> string \<Rightarrow> string + (error_location option \<times> builtin_call) list \<times> string option"
  px_error_text :: "policy_error \<Rightarrow> string"
  px_shlex_split :: "string \<Rightarrow> string list option"
  px_try_join :: "string list \<Rightarrow> string option"
  px_dbg_rule :: "prefix_rule \<Rightarrow> string"
  px_dbg_match :: "rule_match \<Rightarrow> string"
  px_paths :: path_env

text \<open>Evaluation stops at the first call that fails; the builder keeps what was added before.\<close>

fun run_builtins ::
  "parser_env \<Rightarrow> (error_location option \<times> builtin_call) list \<Rightarrow> policy_builder
     \<Rightarrow> policy_error option \<times> policy_builder" where
  "run_builtins px [] b = (None, b)"
| "run_builtins px ((loc, c) # cs) b =
     (case builtin (px_shlex_split px) (px_paths px) loc c b of
        Inl err \<Rightarrow> (Some err, b)
      | Inr b' \<Rightarrow> run_builtins px cs b')"

fun attach_validation_location :: "error_location option \<Rightarrow> policy_error \<Rightarrow> policy_error" where
  "attach_validation_location (Some loc) err = with_location err loc"
| "attach_validation_location None err = err"

definition validate_one ::
  "parser_env \<Rightarrow> policy_builder \<Rightarrow> pending_example_validation \<Rightarrow> policy_error + unit" where
  "validate_one px b v =
     (let pol = \<lparr>pol_rules = fold (\<lambda>r. mm_insert (rule_program r) r) (pv_rules v) [],
                 pol_network = [], pol_hosts = pb_hosts b\<rparr>
      in result_bind (map_err (attach_validation_location (pv_location v))
           (validate_not_match_examples (px_try_join px) (px_dbg_match px) (px_paths px) pol
             (pv_not_matches v))) (\<lambda>_.
         map_err (attach_validation_location (pv_location v))
           (validate_match_examples (px_try_join px) (px_dbg_rule px) (px_paths px) pol (pv_rules v)
             (pv_matches v))))"

fun validate_all ::
  "parser_env \<Rightarrow> policy_builder \<Rightarrow> pending_example_validation list \<Rightarrow> policy_error + unit" where
  "validate_all px b [] = Inr ()"
| "validate_all px b (v # vs) = result_bind (validate_one px b v) (\<lambda>_. validate_all px b vs)"

definition validate_pending_examples_from ::
  "parser_env \<Rightarrow> nat \<Rightarrow> policy_builder \<Rightarrow> policy_error + unit" where
  "validate_pending_examples_from px start b = validate_all px b (drop start (pb_pending b))"

definition policy_parse ::
  "parser_env \<Rightarrow> string \<Rightarrow> string \<Rightarrow> policy_builder \<Rightarrow> (policy_error + unit) \<times> policy_builder" where
  "policy_parse px ident body b =
     (let start = length (pb_pending b)
      in case px_starlark px ident body of
           Inl err \<Rightarrow> (Inl (Starlark err), b)
         | Inr (calls, script_error) \<Rightarrow>
             (case run_builtins px calls b of
                (Some err, b') \<Rightarrow> (Inl (Starlark (px_error_text px err)), b')
              | (None, b') \<Rightarrow>
                  (case script_error of
                     Some err \<Rightarrow> (Inl (Starlark err), b')
                   | None \<Rightarrow> (validate_pending_examples_from px start b', b'))))"

text \<open>Files are given as their contents, \<open>Inl\<close> when they cannot be read.\<close>

datatype load_error = ReadFailed string | ParseFailed string policy_error

fun load_loop ::
  "parser_env \<Rightarrow> (string \<times> (string + string)) list \<Rightarrow> policy_builder \<Rightarrow> load_error + policy_builder" where
  "load_loop px [] b = Inr b"
| "load_loop px ((path, read) # files) b =
     (case read of
        Inl err \<Rightarrow> Inl (ReadFailed path)
      | Inr body \<Rightarrow>
          (case policy_parse px path body b of
             (Inl err, _) \<Rightarrow> Inl (ParseFailed path err)
           | (Inr _, b') \<Rightarrow> load_loop px files b'))"

definition load_policies ::
  "parser_env \<Rightarrow> (string \<times> (string + string)) list \<Rightarrow> load_error + policy" where
  "load_policies px files = result_bind (load_loop px files builder_new) (\<lambda>b. Inr (builder_build b))"

subsection \<open>Amending a policy file\<close>

datatype amend_error =
    EmptyPrefix
  | InvalidNetworkRule string
  | MissingParent path
  | CreatePolicyDir path io_error
  | SerializePrefix string
  | SerializeNetworkRule string
  | OpenPolicyFile path io_error
  | WritePolicyFile path io_error
  | LockPolicyFile path io_error
  | SeekPolicyFile path io_error
  | ReadPolicyFile path io_error

definition amend_then ::
  "(io_error \<Rightarrow> amend_error) \<Rightarrow> (fs \<Rightarrow> (io_error + 'a) \<times> fs) \<Rightarrow> ('a \<Rightarrow> fs \<Rightarrow> (amend_error + 'b) \<times> fs)
     \<Rightarrow> fs \<Rightarrow> (amend_error + 'b) \<times> fs" where
  "amend_then err m k f = (case m f of (Inl e, f') \<Rightarrow> (Inl (err e), f') | (Inr x, f') \<Rightarrow> k x f')"

definition fs_read_to_string :: "path \<Rightarrow> fs \<Rightarrow> (io_error + string) \<times> fs" where
  "fs_read_to_string p f =
     (case fs_fault f (fs_ops f) of
        Some _ \<Rightarrow> (Inl io_fault, fs_tick f)
      | None \<Rightarrow>
          (case fs_files f p of
             None \<Rightarrow> (Inl io_not_found, fs_tick f)
           | Some c \<Rightarrow> (Inr c, fs_tick f)))"

definition append_locked_line :: "path \<Rightarrow> string \<Rightarrow> fs \<Rightarrow> (amend_error + unit) \<times> fs" where
  "append_locked_line policy_path line =
     amend_then (OpenPolicyFile policy_path) (fs_open_append policy_path) (\<lambda>_.
     amend_then (LockPolicyFile policy_path) fs_touch (\<lambda>_.
     amend_then (SeekPolicyFile policy_path) fs_touch (\<lambda>_.
     amend_then (ReadPolicyFile policy_path) (fs_read_to_string policy_path) (\<lambda>body f.
       if line \<in> set (str_lines body) then (Inr (), f)
       else
         amend_then (WritePolicyFile policy_path)
           (if body \<noteq> [] \<and> \<not> ends_with body [lf] then fs_write_all policy_path [lf] else (\<lambda>f. (Inr (), f)))
           (\<lambda>_. amend_then (WritePolicyFile policy_path) (fs_write_all policy_path (line @ [lf]))
             (\<lambda>_ f. (Inr (), f))) f))))"

text \<open>\<open>Path::parent\<close> fails on the empty path and on a root; creating a directory that is there already
  counts as success.\<close>

definition has_parent :: "path \<Rightarrow> bool" where
  "has_parent p \<longleftrightarrow> components p \<noteq> [] \<and> components p \<noteq> [RootDir]"

definition append_rule_line :: "path \<Rightarrow> string \<Rightarrow> fs \<Rightarrow> (amend_error + unit) \<times> fs" where
  "append_rule_line policy_path rule f =
     (if \<not> has_parent policy_path then (Inl (MissingParent policy_path), f)
      else amend_then (CreatePolicyDir (path_dir_prefix policy_path)) fs_touch
        (\<lambda>_. append_locked_line policy_path rule) f)"

fun join_comma :: "string list \<Rightarrow> string" where
  "join_comma [] = []"
| "join_comma [s] = s"
| "join_comma (s # t # ss) = s @ '', '' @ join_comma (t # ss)"

definition blocking_append_allow_prefix_rule ::
  "(string \<Rightarrow> string + string) \<Rightarrow> path \<Rightarrow> string list \<Rightarrow> fs \<Rightarrow> (amend_error + unit) \<times> fs" where
  "blocking_append_allow_prefix_rule json_str policy_path prefix f =
     (if prefix = [] then (Inl EmptyPrefix, f)
      else (case map_err SerializePrefix (collect_results (map json_str prefix)) of
              Inl err \<Rightarrow> (Inl err, f)
            | Inr tokens \<Rightarrow>
                append_rule_line policy_path
                  (''prefix_rule(pattern=['' @ join_comma tokens @ ''], decision='' @ [CHR 0x22]
                    @ ''allow'' @ [CHR 0x22] @ '')'') f))"

fun network_decision_text :: "decision \<Rightarrow> string" where
  "network_decision_text DecAllow = ''allow''"
| "network_decision_text DecPrompt = ''prompt''"
| "network_decision_text DecForbidden = ''deny''"

definition network_rule_line ::
  "(policy_error \<Rightarrow> string) \<Rightarrow> (string \<Rightarrow> string + string) \<Rightarrow> string \<Rightarrow> network_rule_protocol \<Rightarrow> decision
     \<Rightarrow> string option \<Rightarrow> amend_error + string" where
  "network_rule_line error_text json_str host protocol d justification =
     result_bind (map_err (\<lambda>e. InvalidNetworkRule (error_text e)) (normalize_network_rule_host host)) (\<lambda>host.
     if (case justification of Some raw \<Rightarrow> trim raw = [] | None \<Rightarrow> False)
     then Inl (InvalidNetworkRule ''justification cannot be empty'')
     else
       (let ser = (\<lambda>s. map_err SerializeNetworkRule (json_str s))
        in result_bind (ser host) (\<lambda>host.
           result_bind (ser (as_policy_string protocol)) (\<lambda>protocol.
           result_bind (ser (network_decision_text d)) (\<lambda>d.
           result_bind
             (case justification of
                None \<Rightarrow> Inr []
              | Some j \<Rightarrow> result_bind (ser j) (\<lambda>j. Inr [''justification='' @ j])) (\<lambda>js.
           Inr (''network_rule('' @ join_comma
             ([''host='' @ host, ''protocol='' @ protocol, ''decision='' @ d] @ js) @ '')'')))))))"

definition blocking_append_network_rule ::
  "(policy_error \<Rightarrow> string) \<Rightarrow> (string \<Rightarrow> string + string) \<Rightarrow> path \<Rightarrow> string \<Rightarrow> network_rule_protocol
     \<Rightarrow> decision \<Rightarrow> string option \<Rightarrow> fs \<Rightarrow> (amend_error + unit) \<times> fs" where
  "blocking_append_network_rule error_text json_str policy_path host protocol d justification f =
     (case network_rule_line error_text json_str host protocol d justification of
        Inl err \<Rightarrow> (Inl err, f)
      | Inr line \<Rightarrow> append_rule_line policy_path line f)"

subsection \<open>Lemmas\<close>

lemma add_rule_ok: "mm_ok (pb_rules b) \<Longrightarrow> mm_ok (pb_rules (add_rule r b))"
  by (simp add: add_rule_def mm_insert_ok)

lemma add_rules_ok: "mm_ok (pb_rules b) \<Longrightarrow> mm_ok (pb_rules (fold add_rule rs b))"
  by (induction rs arbitrary: b) (simp_all add: add_rule_ok)

lemma builtin_ok: "builtin sh pe loc c b = Inr b' \<Longrightarrow> mm_ok (pb_rules b) \<Longrightarrow> mm_ok (pb_rules b')"
  by (cases c)
    (auto simp: prefix_rule_builtin_def network_rule_builtin_def host_executable_builtin_def Let_def
      add_rules_ok neq_Nil_conv split: list.splits)

lemma run_builtins_ok: "mm_ok (pb_rules b) \<Longrightarrow> mm_ok (pb_rules (snd (run_builtins px cs b)))"
  by (induction px cs b rule: run_builtins.induct) (auto split: sum.split intro: builtin_ok)

lemma policy_parse_ok: "mm_ok (pb_rules b) \<Longrightarrow> mm_ok (pb_rules (snd (policy_parse px ident body b)))"
proof (cases "px_starlark px ident body")
  case (Inr r)
  assume "mm_ok (pb_rules b)"
  then have "mm_ok (pb_rules (snd (run_builtins px (fst r) b)))" by (rule run_builtins_ok)
  then show ?thesis
    by (cases "run_builtins px (fst r) b")
      (auto simp: policy_parse_def Inr Let_def split_beta split: option.split)
qed (simp add: policy_parse_def Let_def)

lemma load_loop_ok: "load_loop px files b = Inr b' \<Longrightarrow> mm_ok (pb_rules b) \<Longrightarrow> mm_ok (pb_rules b')"
proof (induction px files b rule: load_loop.induct)
  case (2 px path read files b)
  then show ?case
    using policy_parse_ok [of b px path]
    by (auto split: sum.splits prod.splits) (metis snd_conv)
qed simp

text \<open>A successful parse has run every example of the file.\<close>

definition examples_hold :: "parser_env \<Rightarrow> policy_builder \<Rightarrow> pending_example_validation \<Rightarrow> bool" where
  "examples_hold px b v \<longleftrightarrow>
     (let pol = \<lparr>pol_rules = fold (\<lambda>r. mm_insert (rule_program r) r) (pv_rules v) [],
                 pol_network = [], pol_hosts = pb_hosts b\<rparr>
      in list_all (\<lambda>e. matches_for_command_with_options (px_paths px) pol e None True \<noteq> []) (pv_matches v)
         \<and> list_all (\<lambda>e. matches_for_command_with_options (px_paths px) pol e None True = []) (pv_not_matches v))"

lemma validate_not_match_iff:
  "validate_not_match_examples tj dbg pe pol es = Inr () \<longleftrightarrow>
     list_all (\<lambda>e. matches_for_command_with_options pe pol e None True = []) es"
  by (induction tj dbg pe pol es rule: validate_not_match_examples.induct) (auto split: list.split)

lemma validate_match_iff:
  "validate_match_examples tj dbg pe pol rules es = Inr () \<longleftrightarrow>
     list_all (\<lambda>e. matches_for_command_with_options pe pol e None True \<noteq> []) es"
  by (auto simp: validate_match_examples_def Let_def list_all_iff filter_empty_conv)

lemma validate_all_iff: "validate_all px b vs = Inr () \<longleftrightarrow> list_all (examples_hold px b) vs"
  by (induction px b vs rule: validate_all.induct)
    (auto simp: validate_one_def examples_hold_def Let_def validate_not_match_iff validate_match_iff)

lemma append_locked_line_ok:
  assumes "fault_free f"
  shows "fst (append_locked_line p line f) = Inr () \<and>
    contents (snd (append_locked_line p line f)) p =
      (if line \<in> set (str_lines (contents f p)) then contents f p
       else contents f p @ (if contents f p \<noteq> [] \<and> \<not> ends_with (contents f p) [lf] then [lf] else [])
         @ line @ [lf]) \<and>
    fault_free (snd (append_locked_line p line f))"
  using assms
  by (auto simp: append_locked_line_def amend_then_def fs_ops_fault_free fs_read_to_string_def
      fault_free_def [THEN iffD1, rule_format] fault_free_def split: option.split)

end
