(* ===== verification/Policy_Properties.thy ===== *)
theory Policy_Properties
  imports Exec_Parser
begin

text \<open>
  What the execution policy guarantees: the strictest matching rule decides, an overlay can only make
  an exactly matched command stricter, basename rules apply to a program path only as the host
  executables allow, the last ruling on a network host stands, a loaded policy has passed its own
  examples, and amending a policy file adds exactly one line, once.
\<close>

subsection \<open>Samples\<close>

definition sample_paths :: path_env where
  "sample_paths = \<lparr>pe_home = Some ''/home/u'', pe_cwd = Some ''/w''\<rparr>"

definition sample_rule :: "string \<Rightarrow> decision \<Rightarrow> prefix_rule" where
  "sample_rule program d =
     \<lparr>pr_pattern = \<lparr>pat_first = program, pat_rest = []\<rparr>, pr_decision = d, pr_justification = None\<rparr>"

definition sample_policy :: "string \<Rightarrow> decision \<Rightarrow> policy" where
  "sample_policy program d =
     \<lparr>pol_rules = [(program, [sample_rule program d])], pol_network = [], pol_hosts = (\<lambda>_. None)\<rparr>"

lemma sample_policy_ok: "mm_ok (pol_rules (sample_policy program d))"
  by (simp add: sample_policy_def sample_rule_def mm_ok_def rule_program_def)

lemma sample_rule_matches:
  "rule_matches (sample_rule program d) (program # args) = Some (PrefixRuleMatch [program] d None None)"
  by (simp add: sample_rule_def rule_matches_def matches_prefix_def)

subsection \<open>Decisions\<close>

text \<open>C16. A check always has a result, and its decision is the strictest one among the rules that
  matched, or the fallback's when none did: one forbidding rule forbids, whatever else matches.\<close>

theorem strictest_match_decides:
  "\<exists>ev. check_with_options pe pol cmd fallback resolve = Some ev \<and>
     ev_matched_rules ev \<noteq> [] \<and>
     ev_decision ev \<in> match_decision ` set (ev_matched_rules ev) \<and>
     list_all (\<lambda>m. match_decision m \<le> ev_decision ev) (ev_matched_rules ev) \<and>
     (if is_match ev then ev_matched_rules ev = matches_for_command_with_options pe pol cmd None resolve
      else ev_matched_rules ev = [HeuristicsRuleMatch cmd (fallback cmd)])"
proof -
  obtain ev where ev: "check_with_options pe pol cmd fallback resolve = Some ev"
    using check_total by blast
  let ?ms = "matches_for_command_with_options pe pol cmd None resolve"
  have spec: "ev_matched_rules ev \<noteq> []" "ev_decision ev \<in> match_decision ` set (ev_matched_rules ev)"
    "\<forall>m\<in>set (ev_matched_rules ev). match_decision m \<le> ev_decision ev"
    "ev_matched_rules ev = (if ?ms = [] then [HeuristicsRuleMatch cmd (fallback cmd)] else ?ms)"
    using ev
    by (auto simp: check_with_options_def from_matches_spec matches_for_command_with_options_def Let_def
        split: list.splits option.splits)
  have pm: "\<exists>a b c d. m = PrefixRuleMatch a b c d" if mem: "m \<in> set ?ms" for m
  proof -
    consider (exact) ms where "match_exact_rules pol cmd = Some ms" "m \<in> set ms"
      | (host) first args where "cmd = first # args" "m \<in> set (match_host_executable_rules pe pol cmd)"
      using matches_from [OF mem] by (cases cmd) (auto simp: match_host_executable_rules_def)
    then show ?thesis
    proof cases
      case exact
      then show ?thesis using exact_match_from by (fastforce simp: rule_matches_def)
    next
      case host
      then show ?thesis using host_match_from [of m pe pol first args] by (auto simp: rule_matches_def)
    qed
  qed
  have "is_match ev \<longleftrightarrow> ?ms \<noteq> []"
  proof (cases "?ms = []")
    case False
    then obtain m where "m \<in> set ?ms" by (cases ?ms) auto
    with pm [of m] False show ?thesis
      by (auto simp: is_match_def spec(4) list_ex_iff intro!: bexI [of _ m])
  qed (simp add: is_match_def spec(4))
  then show ?thesis
    using ev spec by (intro exI [of _ ev]) (simp add: list_all_iff)
qed

lemma exact_merge:
  assumes "mm_ok (pol_rules overlay)"
  shows "match_exact_rules (merge_overlay pol overlay) cmd =
    (case (match_exact_rules pol cmd, match_exact_rules overlay cmd) of
       (Some ms, Some ns) \<Rightarrow> Some (ms @ ns)
     | _ \<Rightarrow> None)"
proof (cases cmd)
  case (Cons first args)
  have "distinct (map fst (pol_rules overlay))" using assms by (simp add: mm_ok_def)
  then have "mm_get (pol_rules (merge_overlay pol overlay)) first =
      mm_get (pol_rules pol) first @ mm_get (pol_rules overlay) first"
    by (simp add: merge_overlay_def mm_get_merge)
  then show ?thesis by (simp add: Cons match_exact_rules_def List.map_filter_def)
qed (simp add: match_exact_rules_def)

text \<open>An overlay never weakens a decision on a command that some rule of the policy below matches
  exactly: the merged policy's decision is at least as strict, so a forbidden command stays forbidden
  whatever the overlay says.\<close>

theorem overlay_never_weakens:
  assumes "mm_ok (pol_rules overlay)" and "match_exact_rules pol cmd = Some (m # ms)"
    and "check_with_options pe pol cmd fallback resolve = Some ev"
    and "check_with_options pe (merge_overlay pol overlay) cmd fallback resolve = Some ev'"
  shows "ev_decision ev \<le> ev_decision ev'"
proof -
  obtain ns where ns: "match_exact_rules overlay cmd = Some ns"
    using assms(2) by (cases cmd) (auto simp: match_exact_rules_def)
  have merged: "match_exact_rules (merge_overlay pol overlay) cmd = Some ((m # ms) @ ns)"
    using exact_merge [OF assms(1), of pol cmd] assms(2) ns by simp
  have rules: "ev_matched_rules ev = m # ms" "ev_matched_rules ev' = (m # ms) @ ns"
    using assms(2-4) merged
    by (auto simp: check_with_options_def from_matches_spec matches_for_command_with_options_def)
  have "ev_decision ev \<in> match_decision ` set (ev_matched_rules ev)"
    using assms(3) by (auto simp: check_with_options_def from_matches_spec)
  then obtain x where "x \<in> set (ev_matched_rules ev')" "match_decision x = ev_decision ev"
    unfolding rules by (metis imageE in_set_conv_decomp append_assoc append_Cons UnI1 set_append)
  then show ?thesis using assms(4) by (auto simp: check_with_options_def from_matches_spec)
qed

text \<open>Witness: an overlay that allows what the policy forbids.\<close>

theorem overlay_never_weakens_witness:
  "\<exists>ev'. check_with_options sample_paths
      (merge_overlay (sample_policy ''rm'' DecForbidden) (sample_policy ''rm'' DecAllow)) [''rm'', ''x'']
      (\<lambda>_. DecPrompt) False = Some ev' \<and> ev_decision ev' = DecForbidden"
proof -
  let ?p = "sample_policy ''rm'' DecForbidden" and ?o = "sample_policy ''rm'' DecAllow"
  let ?m = "PrefixRuleMatch [''rm''] DecForbidden None None"
  have m: "match_exact_rules ?p [''rm'', ''x''] = Some [?m]"
    by (simp add: match_exact_rules_def sample_policy_def mm_get_def sample_rule_matches
        List.map_filter_simps)
  have e: "check_with_options sample_paths ?p [''rm'', ''x''] (\<lambda>_. DecPrompt) False =
      Some \<lparr>ev_decision = DecForbidden, ev_matched_rules = [?m]\<rparr>"
    by (simp add: check_with_options_def matches_for_command_with_options_def m from_matches_def)
  obtain ev' where ev': "check_with_options sample_paths (merge_overlay ?p ?o) [''rm'', ''x'']
      (\<lambda>_. DecPrompt) False = Some ev'"
    using check_total by blast
  show ?thesis
    using overlay_never_weakens [OF sample_policy_ok m e ev'] ev' by auto
qed

subsection \<open>Host executables\<close>

text \<open>A basename rule decides about a program path only through a match of the command with the
  basename in its place, and, where the policy lists the host's executables of that name, only for a
  listed path; and only when no rule matches the command exactly.\<close>

theorem basename_rules_are_gated:
  assumes "m \<in> set (matches_for_command_with_options pe pol (first # args) None True)"
    and "match_exact_rules pol (first # args) = Some []"
  shows "\<exists>program basename r. from_absolute_path (pe_home pe) (pe_cwd pe) first = Some program
    \<and> last_normal program = Some basename
    \<and> (case pol_hosts pol basename of Some paths \<Rightarrow> program \<in> set paths | None \<Rightarrow> True)
    \<and> r \<in> set (mm_get (pol_rules pol) basename)
    \<and> rule_matches r (basename # args) \<noteq> None \<and> match_decision m = pr_decision r"
proof -
  have "m \<in> set (match_host_executable_rules pe pol (first # args))"
    using assms by (auto simp: matches_for_command_with_options_def Let_def split: list.splits)
  from host_match_from [OF this] obtain program basename r m' where *:
    "from_absolute_path (pe_home pe) (pe_cwd pe) first = Some program"
    "executable_path_lookup_key program = Some basename"
    "case pol_hosts pol basename of Some paths \<Rightarrow> program \<in> set paths | None \<Rightarrow> True"
    "r \<in> set (mm_get (pol_rules pol) basename)"
    "rule_matches r (basename # args) = Some m'" "m = with_resolved_program m' program"
    by blast
  have "match_decision m = pr_decision r"
    using *(5,6) by (auto simp: rule_matches_def)
  then show ?thesis
    using * by (intro exI [of _ program] exI [of _ basename] exI [of _ r])
      (auto simp: executable_path_lookup_key_def executable_lookup_key_def)
qed

text \<open>Witness: \<open>/usr/bin/git status\<close> under a policy that lists that path.\<close>

definition git_policy :: policy where
  "git_policy = (sample_policy ''git'' DecAllow)\<lparr>pol_hosts := [''git'' \<mapsto> [''/usr/bin/git'']]\<rparr>"

theorem basename_rules_are_gated_witness:
  "\<exists>program basename r.
    from_absolute_path (pe_home sample_paths) (pe_cwd sample_paths) ''/usr/bin/git'' = Some program
    \<and> last_normal program = Some basename
    \<and> (case pol_hosts git_policy basename of Some paths \<Rightarrow> program \<in> set paths | None \<Rightarrow> True)
    \<and> r \<in> set (mm_get (pol_rules git_policy) basename)"
proof -
  have a: "from_absolute_path (Some ''/home/u'') (Some ''/w'') ''/usr/bin/git'' = Some ''/usr/bin/git''"
    "executable_path_lookup_key ''/usr/bin/git'' = Some ''git''"
    by code_simp+
  have e: "match_exact_rules git_policy [''/usr/bin/git'', ''status''] = Some []"
    by (simp add: match_exact_rules_def git_policy_def sample_policy_def mm_get_def List.map_filter_simps)
  have h: "match_host_executable_rules sample_paths git_policy [''/usr/bin/git'', ''status''] =
      [PrefixRuleMatch [''git''] DecAllow (Some ''/usr/bin/git'') None]"
    by (simp add: match_host_executable_rules_def sample_paths_def a git_policy_def sample_policy_def
        sample_rule_matches List.map_filter_simps)
  have "PrefixRuleMatch [''git''] DecAllow (Some ''/usr/bin/git'') None
      \<in> set (matches_for_command_with_options sample_paths git_policy [''/usr/bin/git'', ''status''] None True)"
    by (simp add: matches_for_command_with_options_def e h)
  from basename_rules_are_gated [OF this e] show ?thesis by blast
qed

lemma segments_dot_slash: "plain_name name \<Longrightarrow> segments (''./'' @ name) = [''.'', name]"
  using segments_append [of "''.''" name] by (simp add: segments_plain plain_name_def)

lemma from_absolute_path_dot_slash:
  assumes "list_all plain_name dirs" and "plain_name name"
  shows "from_absolute_path home (Some (render_abs dirs)) (''./'' @ name) = Some (render_abs (dirs @ [name]))"
proof -
  let ?p = "''./'' @ name"
  have e: "maybe_expand_home_directory home ?p = ?p"
    by (simp add: maybe_expand_home_directory_def strip_prefix_def starts_with_def)
  have j: "path_join (render_abs dirs) ?p = (if dirs = [] then [] else render_abs dirs) @ CHR ''/'' # ''./'' @ name"
  proof (cases dirs rule: rev_cases)
    case (snoc ts t)
    then have "\<not> ends_with (render_abs dirs) ''/''" "render_abs dirs \<noteq> []"
      using assms(1) plain_name_last [of t] by (auto simp: render_abs_snoc_eq ends_with_char)
    then show ?thesis using snoc by (simp add: path_join_def starts_with_def)
  qed (simp add: path_join_def starts_with_def render_abs_def ends_with_def)
  let ?d = "if dirs = [] then [] else render_abs dirs"
  have seg: "segments (?d @ CHR ''/'' # ''./'' @ name) = [] # dirs @ [''.'', name]"
  proof (cases "dirs = []")
    case True
    then show ?thesis
      using segments_append [of "[]" "''./'' @ name"] segments_dot_slash [OF assms(2)] by simp
  next
    case False
    then show ?thesis
      using segments_append [of "render_abs dirs" "''./'' @ name"] segments_dot_slash [OF assms(2)]
        segments_render_abs [OF assms(1)] by simp
  qed
  have abs: "starts_with (?d @ CHR ''/'' # ''./'' @ name) ''/''"
    using render_abs_absolute [of dirs] by (auto simp: starts_with_iff)
  have "filter (\<lambda>s. s \<noteq> [] \<and> s \<noteq> ''.'') dirs = dirs" "\<forall>s\<in>set dirs. s \<noteq> ''..''"
    using assms(1) by (auto simp: list_all_iff plain_name_def filter_id_conv)
  then have comps: "components (?d @ CHR ''/'' # ''./'' @ name) = RootDir # map Normal (dirs @ [name])"
    using abs seg assms(2) by (simp add: components_def inner_components_def plain_name_def)
  have root: "path_join [] ''/'' = render_abs []"
    by (simp add: path_join_def render_abs_def starts_with_def)
  have "fold normalize_step (RootDir # map Normal (dirs @ [name])) [] = render_abs (dirs @ [name])"
    using normalize_fold_Normal [of "[]" "dirs @ [name]"] root assms by simp
  then have "normalize_path (?d @ CHR ''/'' # ''./'' @ name) = render_abs (dirs @ [name])"
    unfolding normalize_path_def comps Let_def by (simp add: render_abs_def)
  then show ?thesis
    unfolding from_absolute_path_def e absolutize_def is_absolute_def
    by (simp add: starts_with_def absolutize_from_def path_with_base_def is_absolute_def j [simplified])
qed

text \<open>Host-executable resolution is not restricted to absolute program tokens: \<open>./name\<close> is resolved
  against the current directory, and where the policy lists no executables of that name, every rule
  for \<open>name\<close> applies to it, an allowing one included.\<close>

theorem relative_program_gets_basename_rules:
  assumes "list_all plain_name dirs" and "plain_name name" and "pe_cwd pe = Some (render_abs dirs)"
    and "pol_hosts pol name = None"
  shows "match_host_executable_rules pe pol ((''./'' @ name) # args) =
    map (\<lambda>m. with_resolved_program m (render_abs (dirs @ [name])))
      (List.map_filter (\<lambda>r. rule_matches r (name # args)) (mm_get (pol_rules pol) name))"
proof -
  have p: "list_all plain_name (dirs @ [name])" using assms(1,2) by simp
  have "from_absolute_path (pe_home pe) (pe_cwd pe) (''./'' @ name) = Some (render_abs (dirs @ [name]))"
    using from_absolute_path_dot_slash assms(1-3) by simp
  moreover have "executable_path_lookup_key (render_abs (dirs @ [name])) = Some name"
    using last_normal_render_abs [OF p]
    by (simp add: executable_path_lookup_key_def executable_lookup_key_def)
  ultimately show ?thesis
    using assms(4)
    by (simp add: match_host_executable_rules_def mm_get_def List.map_filter_simps split: option.split)
qed

text \<open>Witness: \<open>./git\<close> in \<open>/w\<close>, under a policy that allows \<open>git\<close>.\<close>

theorem relative_program_gets_basename_rules_witness:
  "match_host_executable_rules sample_paths (sample_policy ''git'' DecAllow) [''./git'', ''push''] =
     [PrefixRuleMatch [''git''] DecAllow (Some ''/w/git'') None]"
proof -
  have "plain_name ''w''" "plain_name ''git''" by (simp_all add: plain_name_def)
  then show ?thesis
    using relative_program_gets_basename_rules [of "[''w'']" "''git''" sample_paths
        "sample_policy ''git'' DecAllow" "[''push'']"]
    by (simp add: sample_paths_def render_abs_def sample_policy_def mm_get_def sample_rule_matches
        List.map_filter_simps)
qed

subsection \<open>Network rules\<close>

text \<open>The last ruling on a host that allows or forbids it.\<close>

definition last_ruling :: "network_rule list \<Rightarrow> string \<Rightarrow> decision option" where
  "last_ruling rules host =
     (case rev (filter (\<lambda>r. nr_host r = host \<and> nr_decision r \<noteq> DecPrompt) rules) of
        [] \<Rightarrow> None
      | r # _ \<Rightarrow> Some (nr_decision r))"

lemma last_ruling_snoc:
  "last_ruling (rs @ [r]) host =
     (if nr_host r = host \<and> nr_decision r \<noteq> DecPrompt then Some (nr_decision r) else last_ruling rs host)"
  by (simp add: last_ruling_def)

text \<open>The compiled lists of domains follow the last ruling on each host: a host is on the allow
  list exactly when its last ruling allows it, on the deny list exactly when it forbids it, so on at
  most one of them, and neither list has duplicates.\<close>

theorem last_network_ruling_stands:
  "case compiled_network_domains pol of (allowed, denied) \<Rightarrow>
     (host \<in> set allowed) = (last_ruling (pol_network pol) host = Some DecAllow) \<and>
     (host \<in> set denied) = (last_ruling (pol_network pol) host = Some DecForbidden) \<and>
     distinct allowed \<and> distinct denied"
proof -
  have "case fold domain_step rules ([], []) of (allowed, denied) \<Rightarrow>
     (host \<in> set allowed) = (last_ruling rules host = Some DecAllow) \<and>
     (host \<in> set denied) = (last_ruling rules host = Some DecForbidden) \<and>
     distinct allowed \<and> distinct denied" for rules
  proof (induction rules rule: rev_induct)
    case (snoc r rs)
    obtain a d where "fold domain_step rs ([], []) = (a, d)" by fastforce
    with snoc show ?case
      by (cases "nr_decision r") (auto simp: upsert_domain_def last_ruling_snoc)
  qed (simp add: last_ruling_def)
  then show ?thesis by (simp add: compiled_network_domains_def)
qed

lemma set_trim: "set (trim s) \<subseteq> set s"
proof -
  have "set (concat (rev (dropWhile P (rev (dropWhile P gs))))) \<subseteq> set (concat gs)" for P and gs :: "string list"
    by (auto dest!: set_dropWhileD)
  from this [of is_whitespace "utf8_chars s"] show ?thesis by (simp add: trim_def)
qed

lemma split_once_chars: "split_once c s = Some (a, b) \<Longrightarrow> set a \<subseteq> set s \<and> set b \<subseteq> set s"
proof -
  assume "split_once c s = Some (a, b)"
  then have "a = takeWhile (\<lambda>x. x \<noteq> c) s" "b = tl (dropWhile (\<lambda>x. x \<noteq> c) s)"
    by (auto simp: split_once_def split: if_splits)
  moreover have "set (tl xs) \<subseteq> set xs" for xs :: string by (cases xs) auto
  ultimately show ?thesis by (auto dest: set_takeWhileD set_dropWhileD)
qed

lemma host_part_chars:
  assumes "host_part raw host = Inr h"
  shows "set h \<subseteq> set host"
proof (cases "strip_prefix ''['' host")
  case (Some stripped)
  then have "set stripped \<subseteq> set host" by (auto simp: strip_prefix_eq_Some)
  moreover obtain rest where "split_once (CHR '']'') stripped = Some (h, rest)"
    using assms Some by (auto simp: host_part_def Let_def split: option.splits if_splits)
  ultimately show ?thesis using split_once_chars by blast
next
  case None
  then have "h = host \<or> (\<exists>port. rsplit_once (CHR '':'') host = Some (h, port))"
    using assms by (auto simp: host_part_def split: option.splits if_splits)
  then show ?thesis by (auto simp: rsplit_once_def dest!: split_once_chars)
qed

lemma ascii_lower_below: "(of_char d :: nat) < 65 \<Longrightarrow> ascii_lower c = d \<longleftrightarrow> c = d"
proof (cases "65 \<le> (of_char c :: nat) \<and> (of_char c :: nat) \<le> 90")
  case True
  assume d: "(of_char d :: nat) < 65"
  have "(of_char (ascii_lower c) :: nat) = of_char c + 32" using True by (simp add: ascii_lower_def)
  then have "ascii_lower c \<noteq> d" "c \<noteq> d" using True d by auto
  then show ?thesis by simp
qed (auto simp: ascii_lower_def)

lemma ascii_lower_not_upper: "\<not> (65 \<le> (of_char (ascii_lower c) :: nat) \<and> (of_char (ascii_lower c) :: nat) \<le> 90)"
  by (simp add: ascii_lower_def)

text \<open>C17. A host that normalizes is usable as a name to compare: it is not empty, has no scheme, path,
  query or fragment characters, no wildcard, no white space and no upper-case ASCII letter. It need
  not be a fixed point: a bracketed name that ends like a port loses that end when it is read again.\<close>

theorem normalized_host_is_plain:
  assumes "normalize_network_rule_host raw = Inr h"
  shows "h \<noteq> [] \<and> {CHR ''/'', CHR ''?'', CHR ''#'', CHR ''*''} \<inter> set h = {} \<and>
    list_all (\<lambda>g. \<not> is_whitespace g) (utf8_chars h) \<and>
    list_all (\<lambda>c. \<not> (65 \<le> (of_char c :: nat) \<and> (of_char c :: nat) \<le> 90)) h"
proof -
  obtain p where p: "host_part raw (trim raw) = Inr p" and h: "h = to_ascii_lowercase (trim (trim_end_dots p))"
    and ok: "h \<noteq> []" "CHR ''*'' \<notin> set h" "\<not> list_ex is_whitespace (utf8_chars h)"
    "CHR ''/'' \<notin> set (trim raw)" "CHR ''?'' \<notin> set (trim raw)" "CHR ''#'' \<notin> set (trim raw)"
    using assms by (auto simp: normalize_network_rule_host_def Let_def split: if_splits)
  have "set (trim_end_dots p) \<subseteq> set p" by (auto simp: trim_end_dots_def dest: set_dropWhileD)
  then have "set (trim (trim_end_dots p)) \<subseteq> set p" using set_trim [of "trim_end_dots p"] by blast
  then have sub: "set h \<subseteq> ascii_lower ` set (trim raw)"
    using host_part_chars [OF p] by (auto simp: h to_ascii_lowercase_def)
  have "d \<notin> set h" if "(of_char d :: nat) < 65" "d \<notin> set (trim raw)" for d
  proof
    assume "d \<in> set h"
    then obtain c where "c \<in> set (trim raw)" "ascii_lower c = d" using sub by auto
    then show False using that ascii_lower_below [of d c] by simp
  qed
  then have "CHR ''/'' \<notin> set h" "CHR ''?'' \<notin> set h" "CHR ''#'' \<notin> set h"
    using ok(4-6) by simp_all
  moreover have "list_all (\<lambda>c. \<not> (65 \<le> (of_char c :: nat) \<and> (of_char c :: nat) \<le> 90)) h"
    unfolding h to_ascii_lowercase_def using ascii_lower_not_upper
    by (simp only: list_all_iff set_map ball_simps) blast
  ultimately show ?thesis
    using ok(1-3) by (auto simp: list_all_iff list_ex_iff)
qed

text \<open>Witness: a name with a port; and a bracketed name that changes when it is normalized again.\<close>

theorem normalized_host_is_plain_witness:
  "CHR ''/'' \<notin> set ''api.example.com'' \<and>
   normalize_network_rule_host ''API.example.com:443'' = Inr ''api.example.com'' \<and>
   normalize_network_rule_host ''[a:1]'' = Inr ''a:1'' \<and> normalize_network_rule_host ''a:1'' = Inr ''a''"
proof -
  have "normalize_network_rule_host ''API.example.com:443'' = Inr ''api.example.com''"
    "normalize_network_rule_host ''[a:1]'' = Inr ''a:1''" "normalize_network_rule_host ''a:1'' = Inr ''a''"
    by code_simp+
  then show ?thesis using normalized_host_is_plain [of "''API.example.com:443''" "''api.example.com''"]
    by blast
qed

subsection \<open>Loading and amending\<close>

lemma policy_parse_validated:
  assumes "policy_parse px ident body b = (Inr (), b')"
  shows "list_all (examples_hold px b') (drop (length (pb_pending b)) (pb_pending b'))"
  using assms
  by (auto simp: policy_parse_def Let_def validate_pending_examples_from_def validate_all_iff
      split: sum.splits option.splits prod.splits)

text \<open>A policy file that parses has passed its own examples: for every rule it adds, under the host
  executables known at the end of the file, each \<open>match\<close> example is matched by that rule's patterns
  and no \<open>not_match\<close> example is; and every rule stands under its own program, each program once.\<close>

theorem parsed_policy_passes_its_examples:
  assumes "policy_parse px ident body b = (Inr (), b')" and "mm_ok (pb_rules b)"
  shows "list_all (examples_hold px b') (drop (length (pb_pending b)) (pb_pending b'))
    \<and> mm_ok (pol_rules (builder_build b'))"
  using policy_parse_validated [OF assms(1)] policy_parse_ok [OF assms(2), of px ident body] assms(1)
  by (simp add: builder_build_def)

definition sample_parser :: parser_env where
  "sample_parser =
     \<lparr>px_starlark = (\<lambda>_ _. Inr ([(None, PrefixRuleCall [SStr ''git''] None
        (Some [SList [SStr ''git'', SStr ''log'']]) (Some [SList [SStr ''rm'']]) None)], None)),
      px_error_text = (\<lambda>_. []), px_shlex_split = (\<lambda>_. None), px_try_join = (\<lambda>_. None),
      px_dbg_rule = (\<lambda>_. []), px_dbg_match = (\<lambda>_. []), px_paths = sample_paths\<rparr>"

text \<open>Witness: a file with one rule for \<open>git\<close>, an example it matches and one it does not.\<close>

theorem parsed_policy_passes_its_examples_witness:
  "\<exists>b'. policy_parse sample_parser ''f'' [] builder_new = (Inr (), b') \<and>
     length (pb_pending b') = 1 \<and> list_all (examples_hold sample_parser b') (pb_pending b')"
proof -
  let ?r = "\<lparr>pr_pattern = \<lparr>pat_first = ''git'', pat_rest = []\<rparr>, pr_decision = DecAllow, pr_justification = None\<rparr>"
  let ?v = "\<lparr>pv_rules = [?r], pv_matches = [[''git'', ''log'']], pv_not_matches = [[''rm'']], pv_location = None\<rparr>"
  let ?b = "\<lparr>pb_rules = [(''git'', [?r])], pb_network = [], pb_hosts = (\<lambda>_. None), pb_pending = [?v]\<rparr>"
  have run: "run_builtins sample_parser [(None, PrefixRuleCall [SStr ''git''] None
        (Some [SList [SStr ''git'', SStr ''log'']]) (Some [SList [SStr ''rm'']]) None)] builder_new = (None, ?b)"
    by (simp add: prefix_rule_builtin_def parse_pattern_def parse_justification_def parse_examples_def
        parse_list_example_def unpack_strings_def Let_def add_rule_def rule_program_def builder_new_def)
  have star: "px_starlark sample_parser ''f'' [] = Inr ([(None, PrefixRuleCall [SStr ''git''] None
        (Some [SList [SStr ''git'', SStr ''log'']]) (Some [SList [SStr ''rm'']]) None)], None)"
    by (simp add: sample_parser_def)
  have "from_absolute_path (Some ''/home/u'') (Some ''/w'') ''rm'' = Some ''/w/rm''"
    "executable_path_lookup_key ''/w/rm'' = Some ''rm''"
    by code_simp+
  then have "examples_hold sample_parser ?b ?v"
    by (simp add: examples_hold_def Let_def rule_program_def matches_for_command_with_options_def
        match_exact_rules_def mm_get_def rule_matches_def matches_prefix_def List.map_filter_simps
        match_host_executable_rules_def sample_parser_def sample_paths_def)
  then have "policy_parse sample_parser ''f'' [] builder_new = (Inr (), ?b)"
    using run star validate_all_iff [of sample_parser ?b "[?v]"]
    by (simp add: policy_parse_def validate_pending_examples_from_def Let_def del: validate_all.simps
        run_builtins.simps) (simp add: builder_new_def del: validate_all.simps)
  moreover have "mm_ok (pb_rules builder_new)" by (simp add: builder_new_def mm_ok_def)
  ultimately show ?thesis
    using parsed_policy_passes_its_examples [of sample_parser "''f''" "[]" builder_new ?b]
    by (intro exI [of _ ?b]) (simp add: builder_new_def)
qed

lemma append_rule_line_ok:
  assumes "fault_free f" and "has_parent p"
  shows "append_rule_line p line f = append_locked_line p line (fs_tick f)"
  using assms
  by (simp add: append_rule_line_def amend_then_def fs_ops_fault_free)

text \<open>Amending a policy file adds exactly the new rule, once: on a disk that works, a rule line that
  is not there yet becomes the last line after all the old ones (an unfinished last line is ended
  first), and doing it again succeeds and changes nothing.\<close>

theorem amend_appends_once:
  assumes "fault_free f" and "has_parent p" and "lf \<notin> set line" and "line \<noteq> []" and "last line \<noteq> cr"
    and "line \<notin> set (str_lines (contents f p))" and "contents f p = [] \<or> last (contents f p) \<noteq> cr"
    and "append_rule_line p line f = (r, f')"
  shows "r = Inr () \<and> str_lines (contents f' p) = str_lines (contents f p) @ [line] \<and>
    fst (append_rule_line p line f') = Inr () \<and>
    contents (snd (append_rule_line p line f')) p = contents f' p"
proof -
  let ?c = "contents f p"
  let ?pre = "?c @ (if ?c \<noteq> [] \<and> \<not> ends_with ?c [lf] then [lf] else [])"
  have ff: "fault_free (fs_tick f)" using assms(1) by simp
  have r: "r = Inr ()" and f': "f' = snd (append_locked_line p line (fs_tick f))"
    using append_rule_line_ok [OF assms(1,2), of line] append_locked_line_ok [OF ff, of p line] assms(8)
    by (metis fst_conv, metis snd_conv)
  then have c': "contents f' p = ?pre @ line @ [lf]" and ff': "fault_free f'"
    using append_locked_line_ok [OF ff, of p line] assms(6) by simp_all
  have pre: "?pre = [] \<or> last ?pre = lf" by (auto simp: ends_with_iff)
  have "str_lines ?pre = str_lines ?c"
    using assms(7) str_lines_finish [of ?c] by (auto simp: ends_with_iff) (metis append_butlast_last_id)
  moreover have "str_lines (line @ [lf]) = [line]" using assms(3,5) str_lines_one by blast
  ultimately have lines: "str_lines (contents f' p) = str_lines ?c @ [line]"
    unfolding c' using str_lines_append [OF pre, of "line @ [lf]"] by simp
  then have "line \<in> set (str_lines (contents f' p))" by simp
  then show ?thesis
    using r lines append_rule_line_ok [OF ff' assms(2), of line] append_locked_line_ok [of "fs_tick f'" p line] ff'
    by simp
qed

text \<open>Witness: a rule file that does not exist yet.\<close>

theorem amend_appends_once_witness:
  "\<exists>f'. append_rule_line ''/r/x'' ''rule'' \<lparr>fs_files = (\<lambda>_. None), fs_ops = 0, fs_fault = (\<lambda>_. None)\<rparr> = (Inr (), f')
     \<and> str_lines (contents f' ''/r/x'') = [''rule'']"
proof -
  let ?f = "\<lparr>fs_files = (\<lambda>_. None), fs_ops = 0, fs_fault = (\<lambda>_. None)\<rparr> :: fs"
  obtain r f' where e: "append_rule_line ''/r/x'' ''rule'' ?f = (r, f')" by fastforce
  have "has_parent ''/r/x''" by code_simp
  then show ?thesis
    using amend_appends_once [OF _ _ _ _ _ _ _ e] e
    by (simp add: fault_free_def contents_def)
qed

end
