(* ===== verification/Patch_Seek.thy ===== *)
theory Patch_Seek
  imports Prelude
begin

text \<open>
  Locating lines in a file, from \<open>apply-patch/src/seek_sequence.rs\<close>: four passes of decreasing
  strictness over the same range of positions.
\<close>

datatype update_mode = NormalizeToLf | PreserveLineEndings

definition update_mode_default :: update_mode where
  "update_mode_default = NormalizeToLf"

text \<open>Typographic characters, as UTF-8, and their replacements.\<close>

definition normalise_char :: "string \<Rightarrow> string" where
  "normalise_char g =
     (if List.member
          [[CHR 0xE2, CHR 0x80, CHR 0x90], [CHR 0xE2, CHR 0x80, CHR 0x91], [CHR 0xE2, CHR 0x80, CHR 0x92],
           [CHR 0xE2, CHR 0x80, CHR 0x93], [CHR 0xE2, CHR 0x80, CHR 0x94], [CHR 0xE2, CHR 0x80, CHR 0x95],
           [CHR 0xE2, CHR 0x88, CHR 0x92]] g
      then ''-''
      else if List.member
          [[CHR 0xE2, CHR 0x80, CHR 0x98], [CHR 0xE2, CHR 0x80, CHR 0x99], [CHR 0xE2, CHR 0x80, CHR 0x9A],
           [CHR 0xE2, CHR 0x80, CHR 0x9B]] g
      then [CHR 0x27]
      else if List.member
          [[CHR 0xE2, CHR 0x80, CHR 0x9C], [CHR 0xE2, CHR 0x80, CHR 0x9D], [CHR 0xE2, CHR 0x80, CHR 0x9E],
           [CHR 0xE2, CHR 0x80, CHR 0x9F]] g
      then [CHR 0x22]
      else if List.member
          [[CHR 0xC2, CHR 0xA0], [CHR 0xE2, CHR 0x80, CHR 0x82], [CHR 0xE2, CHR 0x80, CHR 0x83],
           [CHR 0xE2, CHR 0x80, CHR 0x84], [CHR 0xE2, CHR 0x80, CHR 0x85], [CHR 0xE2, CHR 0x80, CHR 0x86],
           [CHR 0xE2, CHR 0x80, CHR 0x87], [CHR 0xE2, CHR 0x80, CHR 0x88], [CHR 0xE2, CHR 0x80, CHR 0x89],
           [CHR 0xE2, CHR 0x80, CHR 0x8A], [CHR 0xE2, CHR 0x80, CHR 0xAF], [CHR 0xE2, CHR 0x81, CHR 0x9F],
           [CHR 0xE3, CHR 0x80, CHR 0x80]] g
      then '' ''
      else g)"

definition normalise :: "string \<Rightarrow> string" where
  "normalise s = concat (map normalise_char (utf8_chars (trim s)))"

text \<open>Whether the pattern matches the lines at a position, up to a function on lines.\<close>

definition match_at :: "(string \<Rightarrow> string) \<Rightarrow> string list \<Rightarrow> string list \<Rightarrow> nat \<Rightarrow> bool" where
  "match_at key lines pattern i \<longleftrightarrow>
     list_all (\<lambda>(p_idx, pat). key (lines ! (i + p_idx)) = key pat) (zip [0..<length pattern] pattern)"

definition search :: "(string \<Rightarrow> string) \<Rightarrow> string list \<Rightarrow> string list \<Rightarrow> nat \<Rightarrow> nat option" where
  "search key lines pattern search_start =
     find (match_at key lines pattern) [search_start..<Suc (length lines - length pattern)]"

definition or_else :: "'a option \<Rightarrow> 'a option \<Rightarrow> 'a option" where
  "or_else a b = (case a of Some x \<Rightarrow> Some x | None \<Rightarrow> b)"

definition search_start :: "string list \<Rightarrow> string list \<Rightarrow> nat \<Rightarrow> bool \<Rightarrow> update_mode \<Rightarrow> nat" where
  "search_start lines pattern start eof mode =
     (if eof \<and> length pattern \<le> length lines
      then (let eof_start = length lines - length pattern
            in case mode of NormalizeToLf \<Rightarrow> eof_start | PreserveLineEndings \<Rightarrow> max eof_start start)
      else start)"

definition seek_sequence ::
  "string list \<Rightarrow> string list \<Rightarrow> nat \<Rightarrow> bool \<Rightarrow> update_mode \<Rightarrow> nat option" where
  "seek_sequence lines pattern start eof mode =
     (if pattern = [] then Some start
      else if length lines < length pattern then None
      else
        (let s = search_start lines pattern start eof mode
         in or_else (search (\<lambda>l. l) lines pattern s)
           (or_else (search trim_end lines pattern s)
             (or_else (search trim lines pattern s) (search normalise lines pattern s)))))"

subsection \<open>Lemmas\<close>

lemma match_at_iff:
  "match_at key lines pattern i \<longleftrightarrow> (\<forall>j<length pattern. key (lines ! (i + j)) = key (pattern ! j))"
  by (auto simp: match_at_def list_all_length)

lemma find_upt_Some:
  "find P [a..<b] = Some i \<longleftrightarrow> a \<le> i \<and> i < b \<and> P i \<and> (\<forall>j. a \<le> j \<and> j < i \<longrightarrow> \<not> P j)"
proof (induction "b - a" arbitrary: a)
  case 0
  then show ?case by auto
next
  case (Suc n)
  then have ab: "a < b" and n: "n = b - Suc a" by simp_all
  show ?case
    using Suc(1) [OF n] upt_conv_Cons [OF ab] ab
    by (auto simp: Suc_le_eq) (metis le_neq_implies_less)+
qed

lemma find_upt_None: "find P [a..<b] = None \<longleftrightarrow> (\<forall>j. a \<le> j \<and> j < b \<longrightarrow> \<not> P j)"
  by (auto simp: find_None_iff)

lemma search_Some:
  assumes "search key lines pattern s = Some i" and "length pattern \<le> length lines"
  shows "s \<le> i \<and> i + length pattern \<le> length lines \<and> match_at key lines pattern i
    \<and> (\<forall>j. s \<le> j \<and> j < i \<longrightarrow> \<not> match_at key lines pattern j)"
  using assms by (auto simp: search_def find_upt_Some simp del: upt_Suc)

lemma search_None:
  assumes "search key lines pattern s = None" and "s \<le> i" and "i + length pattern \<le> length lines"
  shows "\<not> match_at key lines pattern i"
  using assms by (auto simp: search_def find_upt_None simp del: upt_Suc)

text \<open>The passes are ordered: a match of one is a match of the next.\<close>

lemma dropWhile_snoc:
  "dropWhile P (xs @ [x]) =
     (if \<forall>y\<in>set xs. P y then if P x then [] else [x] else dropWhile P xs @ [x])"
  by (induction xs) auto

lemma dropWhile_all: "\<forall>y\<in>set xs. P y \<Longrightarrow> dropWhile P xs = []"
  by (induction xs) auto

lemma dropWhile_both_ends:
  "dropWhile P (rev (dropWhile P (rev xs))) = rev (dropWhile P (rev (dropWhile P xs)))"
proof (induction xs)
  case (Cons x xs)
  then show ?case
    by (cases "\<forall>y\<in>set xs. P y") (auto simp: dropWhile_snoc dropWhile_all simp del: dropWhile_eq_Nil_conv)
qed simp

lemma while_split:
  "ys = [] \<or> \<not> P (hd ys) \<Longrightarrow>
     takeWhile P (takeWhile P xs @ ys) = takeWhile P xs \<and> dropWhile P (takeWhile P xs @ ys) = ys"
proof (induction xs)
  case Nil
  then show ?case by (cases ys) auto
next
  case (Cons x xs)
  then show ?case by (cases ys) auto
qed

lemma utf8_chars_prefix: "utf8_chars s = xs @ ys \<Longrightarrow> utf8_chars (concat xs) = xs"
proof (induction s arbitrary: xs rule: utf8_chars.induct)
  case (2 b bs)
  show ?case
  proof (cases xs)
    case (Cons g gs)
    then have g: "g = b # takeWhile is_cont bs" and gs: "utf8_chars (dropWhile is_cont bs) = gs @ ys"
      using 2(2) by simp_all
    have IH: "utf8_chars (concat gs) = gs" using 2(1) gs by simp
    have hd: "concat gs = [] \<or> \<not> is_cont (hd (concat gs))"
    proof (cases gs)
      case (Cons h hs)
      then have "dropWhile is_cont bs \<noteq> []" using gs by (metis append_Cons list.distinct(1) utf8_chars.simps(1))
      then have "\<not> is_cont (hd (dropWhile is_cont bs))" by (rule hd_dropWhile)
      moreover obtain c cs where "dropWhile is_cont bs = c # cs"
        using \<open>dropWhile is_cont bs \<noteq> []\<close> by (cases "dropWhile is_cont bs") auto
      ultimately show ?thesis using gs Cons by auto
    qed simp
    from while_split [where P = is_cont and ys = "concat gs" and xs = bs, OF this]
    show ?thesis using IH by (simp add: Cons g)
  qed simp
qed simp

lemma trim_via_trim_end: "trim s = concat (dropWhile is_whitespace (utf8_chars (trim_end s)))"
proof -
  let ?g = "rev (dropWhile is_whitespace (rev (utf8_chars s)))"
  have "utf8_chars s = ?g @ rev (takeWhile is_whitespace (rev (utf8_chars s)))"
    by (metis rev_append rev_rev_ident takeWhile_dropWhile_id)
  then have "utf8_chars (concat ?g) = ?g" by (rule utf8_chars_prefix)
  then show ?thesis by (simp add: trim_end_def trim_def dropWhile_both_ends)
qed

lemma match_weaken:
  "match_at (\<lambda>l. l) lines pattern i \<Longrightarrow> match_at trim_end lines pattern i"
  "match_at trim_end lines pattern i \<Longrightarrow> match_at trim lines pattern i"
  "match_at trim lines pattern i \<Longrightarrow> match_at normalise lines pattern i"
  by (simp_all add: match_at_iff trim_via_trim_end normalise_def)

text \<open>What a search finds, whichever pass finds it.\<close>

lemma seek_sequence_Some:
  assumes "seek_sequence lines pattern start eof mode = Some i" and "pattern \<noteq> []"
  shows "search_start lines pattern start eof mode \<le> i \<and> i + length pattern \<le> length lines
    \<and> match_at normalise lines pattern i"
proof -
  have len: "length pattern \<le> length lines"
    using assms by (simp add: seek_sequence_def split: if_splits)
  then obtain key where "search key lines pattern (search_start lines pattern start eof mode) = Some i"
    "match_at key lines pattern i \<Longrightarrow> match_at normalise lines pattern i"
    using assms
    by (auto simp: seek_sequence_def or_else_def Let_def match_weaken split: if_splits option.splits)
  then show ?thesis using search_Some [OF _ len] by blast
qed

lemma seek_sequence_None:
  assumes "seek_sequence lines pattern start eof mode = None"
    and "search_start lines pattern start eof mode \<le> i" and "i + length pattern \<le> length lines"
  shows "\<not> match_at normalise lines pattern i"
proof -
  have "search normalise lines pattern (search_start lines pattern start eof mode) = None"
    using assms(1,3) by (auto simp: seek_sequence_def or_else_def Let_def split: if_splits option.splits)
  then show ?thesis using search_None assms(2,3) by blast
qed

lemma seek_sequence_exact:
  assumes "seek_sequence lines pattern start eof mode = Some i" and "pattern \<noteq> []"
    and "search_start lines pattern start eof mode \<le> j" and "j + length pattern \<le> length lines"
    and "match_at (\<lambda>l. l) lines pattern j"
  shows "i \<le> j \<and> match_at (\<lambda>l. l) lines pattern i"
proof -
  let ?s = "search_start lines pattern start eof mode"
  have len: "length pattern \<le> length lines" using assms(4) by simp
  obtain k where k: "search (\<lambda>l. l) lines pattern ?s = Some k"
    using search_None [of "\<lambda>l. l" lines pattern ?s j] assms(3-5) by (cases "search (\<lambda>l. l) lines pattern ?s") auto
  then have "i = k" using assms(1,2) len by (simp add: seek_sequence_def or_else_def Let_def)
  then show ?thesis using search_Some [OF k len] assms(3,5) by (meson leI)
qed

end
