(* ===== verification/Patch_Text.thy ===== *)
theory Patch_Text
  imports Prelude "HOL-Library.Multiset"
begin

text \<open>
  A source file as lines with their endings, from \<open>apply-patch/src/text_file.rs\<close>, and the replacements
  of line ranges. The assertion of \<open>apply_replacements\<close> that replacements come in source order fails as
  the value \<open>None\<close>.
\<close>

datatype line_ending = Lf | CrLf | Cr

fun ending_str :: "line_ending \<Rightarrow> string" where
  "ending_str Lf = [CHR 0x0A]"
| "ending_str CrLf = [CHR 0x0D, CHR 0x0A]"
| "ending_str Cr = [CHR 0x0D]"

record source_line =
  sl_text :: string
  sl_ending :: "line_ending option"

record source_file =
  sf_lines :: "source_line list"
  sf_preferred :: line_ending

type_synonym replacement = "nat \<times> nat \<times> string list"

text \<open>The loop of \<open>parse\<close>: \<open>cur\<close> is the text between \<open>line_start\<close> and \<open>cursor\<close>.\<close>

fun parse_lines :: "string \<Rightarrow> string \<Rightarrow> source_line list" where
  "parse_lines cur [] = (if cur = [] then [] else [\<lparr>sl_text = cur, sl_ending = None\<rparr>])"
| "parse_lines cur (c # cs) =
     (if c = CHR 0x0D \<and> cs \<noteq> [] \<and> hd cs = CHR 0x0A
      then \<lparr>sl_text = cur, sl_ending = Some CrLf\<rparr> # parse_lines [] (tl cs)
      else if c = CHR 0x0D then \<lparr>sl_text = cur, sl_ending = Some Cr\<rparr> # parse_lines [] cs
      else if c = CHR 0x0A then \<lparr>sl_text = cur, sl_ending = Some Lf\<rparr> # parse_lines [] cs
      else parse_lines (cur @ [c]) cs)"

definition source_parse :: "string \<Rightarrow> source_file" where
  "source_parse contents =
     (let lines = parse_lines [] contents
      in \<lparr>sf_lines = lines,
          sf_preferred = (case List.map_filter sl_ending lines of e # _ \<Rightarrow> e | [] \<Rightarrow> Lf)\<rparr>)"

definition line_texts :: "source_file \<Rightarrow> string list" where
  "line_texts f = map sl_text (sf_lines f)"

fun replace_loop ::
  "(string \<Rightarrow> 'a) \<Rightarrow> nat \<Rightarrow> 'a list \<Rightarrow> replacement list \<Rightarrow> 'a list option" where
  "replace_loop mk source_index source_lines [] = Some source_lines"
| "replace_loop mk source_index source_lines ((start_idx, old_len, new_segment) # rs) =
     (if start_idx < source_index then None
      else map_option (\<lambda>tail. take (start_idx - source_index) source_lines @ map mk new_segment @ tail)
        (replace_loop mk (start_idx + old_len)
          (drop old_len (drop (start_idx - source_index) source_lines)) rs))"

definition source_apply_replacements :: "source_file \<Rightarrow> replacement list \<Rightarrow> source_file option" where
  "source_apply_replacements f rs =
     map_option (\<lambda>lines. f\<lparr>sf_lines :=
         map (\<lambda>l. l\<lparr>sl_ending := Some (case sl_ending l of Some e \<Rightarrow> e | None \<Rightarrow> sf_preferred f)\<rparr>) lines\<rparr>)
       (replace_loop (\<lambda>t. \<lparr>sl_text = t, sl_ending = Some (sf_preferred f)\<rparr>) 0 (sf_lines f) rs)"

definition line_contents :: "source_line \<Rightarrow> string" where
  "line_contents l = sl_text l @ (case sl_ending l of Some e \<Rightarrow> ending_str e | None \<Rightarrow> [])"

definition into_contents :: "source_file \<Rightarrow> string" where
  "into_contents f = concat (map line_contents (sf_lines f))"

subsection \<open>Lemmas\<close>

lemma parse_lines_contents: "concat (map line_contents (parse_lines cur s)) = cur @ s"
proof (induction cur s rule: parse_lines.induct)
  case (2 cur c cs)
  show ?case
  proof (cases "c = CHR 0x0D \<and> cs \<noteq> [] \<and> hd cs = CHR 0x0A")
    case True
    then obtain ds where "cs = CHR 0x0A # ds" by (cases cs) auto
    with 2(1) [OF True] True show ?thesis by (simp add: line_contents_def)
  next
    case False
    with 2 show ?thesis by (auto simp: line_contents_def)
  qed
qed (simp add: line_contents_def)

text \<open>No line's text contains a line break.\<close>

lemma parse_lines_texts:
  "l \<in> set (parse_lines cur s) \<Longrightarrow> CHR 0x0A \<notin> set cur \<Longrightarrow> CHR 0x0D \<notin> set cur \<Longrightarrow>
     CHR 0x0A \<notin> set (sl_text l) \<and> CHR 0x0D \<notin> set (sl_text l)"
  by (induction cur s rule: parse_lines.induct) (auto split: if_splits)

text \<open>Replacements in source order, apart and within a file of \<open>n\<close> lines.\<close>

fun rep_end :: "replacement \<Rightarrow> nat" where
  "rep_end (start_idx, old_len, _) = start_idx + old_len"

definition reps_ok :: "nat \<Rightarrow> replacement list \<Rightarrow> bool" where
  "reps_ok n rs \<longleftrightarrow> list_all (\<lambda>r. rep_end r \<le> n) rs \<and> sorted_wrt (\<lambda>r q. rep_end r \<le> fst q) rs"

text \<open>What the replacements make of the lines: the lines between them, and their new lines in their
  place.\<close>

fun splice :: "(string \<Rightarrow> 'a) \<Rightarrow> nat \<Rightarrow> 'a list \<Rightarrow> replacement list \<Rightarrow> 'a list" where
  "splice mk from lines [] = drop from lines"
| "splice mk from lines ((start_idx, old_len, new_segment) # rs) =
     take (start_idx - from) (drop from lines) @ map mk new_segment
       @ splice mk (start_idx + old_len) lines rs"

lemma map_splice: "map g (splice mk from lines rs) = splice (\<lambda>t. g (mk t)) from (map g lines) rs"
  by (induction mk "from" lines rs rule: splice.induct) (simp_all add: take_map drop_map comp_def)

lemma replace_loop_splice:
  assumes "sorted_wrt (\<lambda>r q. rep_end r \<le> fst q) rs" and "\<forall>r\<in>set rs. from \<le> fst r"
  shows "replace_loop mk from (drop from lines) rs = Some (splice mk from lines rs)"
  using assms
proof (induction rs arbitrary: "from")
  case (Cons r rs)
  obtain s ol seg where r: "r = (s, ol, seg)" by (cases r) auto
  have sf: "from \<le> s" using Cons.prems(2) by (simp add: r)
  have "replace_loop mk (s + ol) (drop (s + ol) lines) rs = Some (splice mk (s + ol) lines rs)"
    using Cons.IH [of "s + ol"] Cons.prems(1) by (simp add: r)
  with sf show ?case by (simp add: r add.commute)
qed simp

text \<open>The line an update writes for a line: its own ending, or the preferred one.\<close>

definition with_ending :: "line_ending \<Rightarrow> source_line \<Rightarrow> source_line" where
  "with_ending e l = l\<lparr>sl_ending := Some (case sl_ending l of Some e' \<Rightarrow> e' | None \<Rightarrow> e)\<rparr>"

definition new_line :: "line_ending \<Rightarrow> string \<Rightarrow> source_line" where
  "new_line e t = \<lparr>sl_text = t, sl_ending = Some e\<rparr>"

lemma source_apply_splice:
  assumes "reps_ok n rs"
  shows "source_apply_replacements f rs = Some (f\<lparr>sf_lines :=
    map (with_ending (sf_preferred f)) (splice (new_line (sf_preferred f)) 0 (sf_lines f) rs)\<rparr>)"
  using assms replace_loop_splice [of rs 0 "new_line (sf_preferred f)" "sf_lines f"]
  by (simp add: reps_ok_def source_apply_replacements_def with_ending_def [abs_def] new_line_def [abs_def])

lemma source_apply_texts:
  assumes "source_apply_replacements f rs = Some g" and "reps_ok n rs"
  shows "line_texts g = splice (\<lambda>t. t) 0 (line_texts f) rs"
  using assms(1) source_apply_splice [OF assms(2), of f]
  by (auto simp: line_texts_def map_splice with_ending_def new_line_def comp_def)

end
