(* ===== verification/Patch_Update.thy ===== *)
theory Patch_Update
  imports Patch_Seek Patch_Text
begin

text \<open>
  Applying the chunks of an update to a file, from \<open>apply-patch/src/file_update.rs\<close>, with the chunk type
  of \<open>apply-patch/src/parser.rs\<close>. A panic (an index out of range) is \<open>None\<close>; the contents of the file
  and the text of its path are arguments.
\<close>

record update_file_chunk =
  ch_change_context :: "string option"
  ch_old_lines :: "string list"
  ch_new_lines :: "string list"
  ch_context_line_indices :: "(nat \<times> nat) list"
  ch_is_end_of_file :: bool

definition chunk_default :: update_file_chunk where
  "chunk_default = \<lparr>ch_change_context = None, ch_old_lines = [], ch_new_lines = [],
     ch_context_line_indices = [], ch_is_end_of_file = False\<rparr>"

definition push_context_line :: "string \<Rightarrow> update_file_chunk \<Rightarrow> update_file_chunk" where
  "push_context_line line ch =
     ch\<lparr>ch_context_line_indices :=
          ch_context_line_indices ch @ [(length (ch_old_lines ch), length (ch_new_lines ch))],
        ch_old_lines := ch_old_lines ch @ [line], ch_new_lines := ch_new_lines ch @ [line]\<rparr>"

definition last_is_empty :: "string list \<Rightarrow> bool" where
  "last_is_empty ls \<longleftrightarrow> ls \<noteq> [] \<and> last ls = []"

text \<open>\<open>str::split\<close> at line feeds and \<open>join\<close>.\<close>

fun split_lf :: "string \<Rightarrow> string list" where
  "split_lf [] = [[]]"
| "split_lf (c # cs) =
     (case split_lf cs of
        [] \<Rightarrow> [[c]]
      | l # ls \<Rightarrow> if c = CHR 0x0A then [] # l # ls else (c # l) # ls)"

fun join_lf :: "string list \<Rightarrow> string" where
  "join_lf [] = []"
| "join_lf [l] = l"
| "join_lf (l # m # ls) = l @ CHR 0x0A # join_lf (m # ls)"

text \<open>The loop over the context lines of a matched chunk: the replacements between them, and where the
  last one left off.\<close>

fun context_loop ::
  "nat \<Rightarrow> nat \<Rightarrow> string list \<Rightarrow> nat \<Rightarrow> nat \<Rightarrow> (nat \<times> nat) list \<Rightarrow> (replacement list \<times> nat \<times> nat) option" where
  "context_loop start_idx plen new_slice old_start new_start [] = Some ([], old_start, new_start)"
| "context_loop start_idx plen new_slice old_start new_start ((old_context, new_context) # ctx) =
     (if plen \<le> old_context \<or> length new_slice \<le> new_context then Some ([], old_start, new_start)
      else if old_start \<noteq> old_context \<or> new_start \<noteq> new_context
      then (if old_context < old_start \<or> new_context < new_start then None
            else map_option (\<lambda>(rs, p). ((start_idx + old_start, old_context - old_start,
                   drop new_start (take new_context new_slice)) # rs, p))
              (context_loop start_idx plen new_slice (old_context + 1) (new_context + 1) ctx))
      else context_loop start_idx plen new_slice (old_context + 1) (new_context + 1) ctx)"

definition chunk_replacements ::
  "update_mode \<Rightarrow> nat \<Rightarrow> string list \<Rightarrow> string list \<Rightarrow> (nat \<times> nat) list \<Rightarrow> replacement list option" where
  "chunk_replacements mode start_idx pattern new_slice ctx =
     (case mode of
        NormalizeToLf \<Rightarrow> Some [(start_idx, length pattern, new_slice)]
      | PreserveLineEndings \<Rightarrow>
          (case context_loop start_idx (length pattern) new_slice 0 0 ctx of
             None \<Rightarrow> None
           | Some (rs, old_start, new_start) \<Rightarrow>
               if old_start \<noteq> length pattern \<or> new_start \<noteq> length new_slice
               then (if length pattern < old_start \<or> length new_slice < new_start then None
                     else Some (rs @ [(start_idx + old_start, length pattern - old_start,
                            drop new_start new_slice)]))
               else Some rs))"

text \<open>Locating a chunk's old lines: the position, the pattern and the new lines it was found with.\<close>

definition locate_chunk ::
  "string list \<Rightarrow> nat \<Rightarrow> update_file_chunk \<Rightarrow> update_mode \<Rightarrow> (nat \<times> string list \<times> string list) option" where
  "locate_chunk lines line_index ch mode =
     (case seek_sequence lines (ch_old_lines ch) line_index (ch_is_end_of_file ch) mode of
        Some i \<Rightarrow> Some (i, ch_old_lines ch, ch_new_lines ch)
      | None \<Rightarrow>
          if last_is_empty (ch_old_lines ch)
          then (let pattern = butlast (ch_old_lines ch);
                    new_slice = (if last_is_empty (ch_new_lines ch) then butlast (ch_new_lines ch)
                                 else ch_new_lines ch)
                in map_option (\<lambda>i. (i, pattern, new_slice))
                     (seek_sequence lines pattern line_index (ch_is_end_of_file ch) mode))
          else None)"

text \<open>One chunk: \<open>Inl\<close> is the error, \<open>Inr\<close> the new replacements and the next line index.\<close>

definition chunk_step ::
  "string \<Rightarrow> string list \<Rightarrow> update_mode \<Rightarrow> update_file_chunk \<Rightarrow> nat
     \<Rightarrow> (string + replacement list \<times> nat) option" where
  "chunk_step path lines mode ch line_index =
     (case (case ch_change_context ch of
              None \<Rightarrow> Inr line_index
            | Some ctx_line \<Rightarrow>
                (case seek_sequence lines [ctx_line] line_index False mode of
                   Some idx \<Rightarrow> Inr (idx + 1)
                 | None \<Rightarrow> Inl (''Failed to find context '' @ [CHR 0x27] @ ctx_line @ [CHR 0x27]
                     @ '' in '' @ path))) of
        Inl err \<Rightarrow> Some (Inl err)
      | Inr line_index \<Rightarrow>
          if ch_old_lines ch = []
          then (let insertion_idx =
                  (case mode of
                     NormalizeToLf \<Rightarrow> if last_is_empty lines then length lines - 1 else length lines
                   | PreserveLineEndings \<Rightarrow> length lines)
                in Some (Inr ([(insertion_idx, 0, ch_new_lines ch)], line_index)))
          else
            (case locate_chunk lines line_index ch mode of
               Some (start_idx, pattern, new_slice) \<Rightarrow>
                 map_option (\<lambda>rs. Inr (rs, start_idx + length pattern))
                   (chunk_replacements mode start_idx pattern new_slice (ch_context_line_indices ch))
             | None \<Rightarrow>
                 Some (Inl (''Failed to find expected lines in '' @ path @ '':'' @ [CHR 0x0A]
                   @ join_lf (ch_old_lines ch)))))"

fun chunk_loop ::
  "string \<Rightarrow> string list \<Rightarrow> update_mode \<Rightarrow> update_file_chunk list \<Rightarrow> nat
     \<Rightarrow> (string + replacement list) option" where
  "chunk_loop path lines mode [] line_index = Some (Inr [])"
| "chunk_loop path lines mode (ch # chs) line_index =
     (case chunk_step path lines mode ch line_index of
        None \<Rightarrow> None
      | Some (Inl err) \<Rightarrow> Some (Inl err)
      | Some (Inr (rs, line_index')) \<Rightarrow>
          (case chunk_loop path lines mode chs line_index' of
             None \<Rightarrow> None
           | Some (Inl err) \<Rightarrow> Some (Inl err)
           | Some (Inr rs') \<Rightarrow> Some (Inr (rs @ rs'))))"

definition compute_replacements ::
  "string list \<Rightarrow> string \<Rightarrow> update_file_chunk list \<Rightarrow> update_mode
     \<Rightarrow> (string + replacement list) option" where
  "compute_replacements lines path chunks mode =
     (case chunk_loop path lines mode chunks 0 of
        None \<Rightarrow> None
      | Some (Inl err) \<Rightarrow> Some (Inl err)
      | Some (Inr rs) \<Rightarrow> Some (Inr (sort_key fst rs)))"

fun remove_lines :: "nat \<Rightarrow> nat \<Rightarrow> string list \<Rightarrow> string list" where
  "remove_lines 0 start_idx lines = lines"
| "remove_lines (Suc k) start_idx lines =
     remove_lines k start_idx
       (if start_idx < length lines then take start_idx lines @ drop (Suc start_idx) lines else lines)"

fun insert_lines :: "nat \<Rightarrow> string list \<Rightarrow> string list \<Rightarrow> string list option" where
  "insert_lines at [] lines = Some lines"
| "insert_lines at (l # ls) lines =
     (if length lines < at then None
      else insert_lines (Suc at) ls (take at lines @ l # drop at lines))"

definition apply_replacements :: "string list \<Rightarrow> replacement list \<Rightarrow> string list option" where
  "apply_replacements lines rs =
     foldr (\<lambda>(start_idx, old_len, new_segment) acc.
       Option.bind acc (\<lambda>lines. insert_lines start_idx new_segment (remove_lines old_len start_idx lines)))
       rs (Some lines)"

definition new_contents ::
  "string \<Rightarrow> string \<Rightarrow> update_file_chunk list \<Rightarrow> update_mode \<Rightarrow> (string + string) option" where
  "new_contents original path chunks mode =
     (case mode of
        NormalizeToLf \<Rightarrow>
          (let original_lines = split_lf original;
               original_lines = (if last_is_empty original_lines then butlast original_lines
                                 else original_lines)
           in case compute_replacements original_lines path chunks mode of
                None \<Rightarrow> None
              | Some (Inl err) \<Rightarrow> Some (Inl err)
              | Some (Inr rs) \<Rightarrow>
                  map_option (\<lambda>new_lines. Inr (join_lf
                      (if last_is_empty new_lines then new_lines else new_lines @ [[]])))
                    (apply_replacements original_lines rs))
      | PreserveLineEndings \<Rightarrow>
          (let source_file = source_parse original
           in case compute_replacements (line_texts source_file) path chunks mode of
                None \<Rightarrow> None
              | Some (Inl err) \<Rightarrow> Some (Inl err)
              | Some (Inr rs) \<Rightarrow>
                  map_option (\<lambda>f. Inr (into_contents f)) (source_apply_replacements source_file rs)))"

text \<open>\<open>read\<close> is the outcome of reading the file: the error's text or the contents.\<close>

datatype update_error = UpdateIo string string | ComputeReplacements string

record applied_patch =
  ap_original_contents :: string
  ap_new_contents :: string

definition derive_new_contents_from_chunks ::
  "string + string \<Rightarrow> string \<Rightarrow> update_file_chunk list \<Rightarrow> update_mode
     \<Rightarrow> (update_error + applied_patch) option" where
  "derive_new_contents_from_chunks read path chunks mode =
     (case read of
        Inl err \<Rightarrow> Some (Inl (UpdateIo (''Failed to read file to update '' @ path) err))
      | Inr original \<Rightarrow>
          map_option (\<lambda>r. case r of
              Inl err \<Rightarrow> Inl (ComputeReplacements err)
            | Inr c \<Rightarrow> Inr \<lparr>ap_original_contents = original, ap_new_contents = c\<rparr>)
            (new_contents original path chunks mode))"

subsection \<open>Both ways of applying replacements\<close>

lemma remove_lines_eq: "remove_lines k i lines = take i lines @ drop (i + k) lines"
proof (induction k i lines rule: remove_lines.induct)
  case (2 k i lines)
  then show ?case by (cases "i < length lines") (simp_all add: min_def add.commute [of k i])
qed simp

lemma insert_lines_eq:
  "at \<le> length lines \<Longrightarrow> insert_lines at ls lines = Some (take at lines @ ls @ drop at lines)"
proof (induction at ls lines rule: insert_lines.induct)
  case (2 at l ls lines)
  then show ?case by (simp add: min_def Suc_diff_le)
qed simp

lemma reps_ok_Cons:
  "reps_ok n ((s, ol, seg) # rs) \<longleftrightarrow>
     s + ol \<le> n \<and> (\<forall>q\<in>set rs. s + ol \<le> fst q) \<and> reps_ok n rs"
  by (auto simp: reps_ok_def)

lemma apply_replacements_splice:
  assumes "reps_ok (length lines) rs" and "\<forall>r\<in>set rs. from \<le> fst r" and "from \<le> length lines"
  shows "apply_replacements lines rs = Some (take from lines @ splice (\<lambda>t. t) from lines rs)"
  using assms
proof (induction rs arbitrary: "from")
  case Nil
  then show ?case by (simp add: apply_replacements_def)
next
  case (Cons r rs)
  obtain s ol seg where r: "r = (s, ol, seg)" by (cases r) auto
  have b: "s + ol \<le> length lines" "from \<le> s" "\<forall>q\<in>set rs. s + ol \<le> fst q" "reps_ok (length lines) rs"
    using Cons.prems by (auto simp: r reps_ok_Cons)
  let ?rest = "splice (\<lambda>t. t) (s + ol) lines rs"
  have "apply_replacements lines rs = Some (take (s + ol) lines @ ?rest)"
    using Cons.IH [OF b(4,3,1)] .
  then have "apply_replacements lines (r # rs) =
      insert_lines s seg (remove_lines ol s (take (s + ol) lines @ ?rest))"
    by (simp add: apply_replacements_def r)
  also have "remove_lines ol s (take (s + ol) lines @ ?rest) = take s lines @ ?rest"
    using b(1) by (simp add: remove_lines_eq)
  also have "insert_lines s seg (take s lines @ ?rest) = Some (take s lines @ seg @ ?rest)"
    using b(1) by (subst insert_lines_eq) simp_all
  also have "take s lines = take from lines @ take (s - from) (drop from lines)"
    using b(2) by (metis take_add le_add_diff_inverse)
  finally show ?case by (simp add: r)
qed

subsection \<open>The replacements of an update\<close>

abbreviation apart :: "replacement \<Rightarrow> replacement \<Rightarrow> bool" where
  "apart r q \<equiv> rep_end r \<le> fst q"

text \<open>Context indices in order on both sides.\<close>

fun ctx_ok :: "nat \<Rightarrow> nat \<Rightarrow> (nat \<times> nat) list \<Rightarrow> bool" where
  "ctx_ok old_start new_start [] = True"
| "ctx_ok old_start new_start ((i, j) # ctx) \<longleftrightarrow>
     old_start \<le> i \<and> new_start \<le> j \<and> ctx_ok (i + 1) (j + 1) ctx"

lemma context_loop_ok:
  assumes "ctx_ok os ns ctx" and "os \<le> plen" and "ns \<le> length new_slice"
  shows "\<exists>rs os' ns'. context_loop st plen new_slice os ns ctx = Some (rs, os', ns')
    \<and> os \<le> os' \<and> os' \<le> plen \<and> ns' \<le> length new_slice
    \<and> (\<forall>r\<in>set rs. st + os \<le> fst r \<and> rep_end r \<le> st + os') \<and> sorted_wrt apart rs"
  using assms
proof (induction ctx arbitrary: os ns)
  case (Cons p ctx)
  obtain i j where p: "p = (i, j)" by fastforce
  show ?case
  proof (cases "plen \<le> i \<or> length new_slice \<le> j")
    case True
    then show ?thesis using Cons.prems by (simp add: p)
  next
    case False
    have ij: "os \<le> i" "ns \<le> j" "ctx_ok (i + 1) (j + 1) ctx" using Cons.prems(1) by (simp_all add: p)
    obtain rs os' ns' where IH: "context_loop st plen new_slice (i + 1) (j + 1) ctx = Some (rs, os', ns')"
      "i + 1 \<le> os'" "os' \<le> plen" "ns' \<le> length new_slice"
      "\<forall>r\<in>set rs. st + (i + 1) \<le> fst r \<and> rep_end r \<le> st + os'" "sorted_wrt apart rs"
      using Cons.IH [OF ij(3)] False by auto
    let ?r = "(st + os, i - os, drop ns (take j new_slice))"
    have "rep_end ?r = st + i" using ij(1) by simp
    then have "sorted_wrt apart (?r # rs)" using IH(5,6) by fastforce
    moreover have "\<forall>r\<in>set (?r # rs). st + os \<le> fst r \<and> rep_end r \<le> st + os'"
      using IH(2,5) ij(1) by fastforce
    ultimately show ?thesis
      using False IH ij by (cases "os = i \<and> ns = j") (auto simp: p)
  qed
qed simp

lemma chunk_replacements_ok:
  assumes "ctx_ok 0 0 ctx"
  shows "\<exists>rs. chunk_replacements PreserveLineEndings st pattern new_slice ctx = Some rs
    \<and> (\<forall>r\<in>set rs. st \<le> fst r \<and> rep_end r \<le> st + length pattern) \<and> sorted_wrt apart rs"
proof -
  obtain rs os' ns' where L: "context_loop st (length pattern) new_slice 0 0 ctx = Some (rs, os', ns')"
    "os' \<le> length pattern" "ns' \<le> length new_slice"
    "\<forall>r\<in>set rs. st \<le> fst r \<and> rep_end r \<le> st + os'" "sorted_wrt apart rs"
    using context_loop_ok [OF assms, of "length pattern" new_slice st] by auto
  have "sorted_wrt apart (rs @ [(st + os', length pattern - os', seg)])" for seg
    using L(4,5) by (simp add: sorted_wrt_append)
  moreover have "\<forall>r\<in>set (rs @ [(st + os', length pattern - os', seg)]).
      st \<le> fst r \<and> rep_end r \<le> st + length pattern" for seg
    using L(2,4) by auto
  moreover have "\<forall>r\<in>set rs. st \<le> fst r \<and> rep_end r \<le> st + length pattern"
    using L(2,4) by (meson add_left_mono order_trans)
  ultimately show ?thesis
    using L by (simp add: chunk_replacements_def)
qed

lemma locate_chunk_bounds:
  assumes "locate_chunk lines line_index ch PreserveLineEndings = Some (i, pattern, new_slice)"
    and "line_index \<le> length lines"
  shows "line_index \<le> i \<and> i + length pattern \<le> length lines"
proof -
  have "seek_sequence lines pattern line_index (ch_is_end_of_file ch) PreserveLineEndings = Some i"
    using assms(1) by (auto simp: locate_chunk_def Let_def split: option.splits if_splits)
  then show ?thesis
    using seek_sequence_Some [of lines pattern line_index "ch_is_end_of_file ch" PreserveLineEndings i] assms(2)
    by (cases "pattern = []")
      (auto simp: search_start_def seek_sequence_def Let_def split: if_splits)
qed

text \<open>One chunk adds replacements at or after the line index, or an insertion at the end.\<close>

lemma chunk_step_ok:
  assumes "ctx_ok 0 0 (ch_context_line_indices ch)" and "line_index \<le> length lines"
  shows "\<exists>out. chunk_step path lines PreserveLineEndings ch line_index = Some out
    \<and> (\<forall>rs li. out = Inr (rs, li) \<longrightarrow> line_index \<le> li \<and> li \<le> length lines \<and> sorted_wrt apart rs
        \<and> ((\<forall>r\<in>set rs. line_index \<le> fst r \<and> rep_end r \<le> li) \<or> (\<exists>seg. rs = [(length lines, 0, seg)])))"
proof -
  let ?ctx = "case ch_change_context ch of
              None \<Rightarrow> Inr line_index
            | Some ctx_line \<Rightarrow>
                (case seek_sequence lines [ctx_line] line_index False PreserveLineEndings of
                   Some idx \<Rightarrow> Inr (idx + 1)
                 | None \<Rightarrow> Inl (''Failed to find context '' @ [CHR 0x27] @ ctx_line @ [CHR 0x27]
                     @ '' in '' @ path))"
  show ?thesis
  proof (cases ?ctx)
    case (Inl err)
    then show ?thesis by (simp add: chunk_step_def)
  next
    case (Inr k)
    have k: "line_index \<le> k \<and> k \<le> length lines"
    proof (cases "ch_change_context ch")
      case (Some c)
      then obtain idx where "seek_sequence lines [c] line_index False PreserveLineEndings = Some idx" "k = idx + 1"
        using Inr by (auto split: option.splits)
      then show ?thesis
        using seek_sequence_Some [of lines "[c]" line_index False PreserveLineEndings idx]
        by (simp add: search_start_def)
    qed (use Inr assms(2) in simp)
    show ?thesis
    proof (cases "ch_old_lines ch = []")
      case True
      then show ?thesis using Inr k by (simp add: chunk_step_def)
    next
      case False
      show ?thesis
      proof (cases "locate_chunk lines k ch PreserveLineEndings")
        case None
        then show ?thesis using Inr False by (simp add: chunk_step_def)
      next
        case (Some loc)
        obtain i pattern new_slice where loc: "loc = (i, pattern, new_slice)" by (cases loc) auto
        have b: "k \<le> i \<and> i + length pattern \<le> length lines"
          using locate_chunk_bounds [of lines k ch i pattern new_slice] Some k by (simp add: loc)
        obtain rs where rs: "chunk_replacements PreserveLineEndings i pattern new_slice
            (ch_context_line_indices ch) = Some rs"
          "\<forall>r\<in>set rs. i \<le> fst r \<and> rep_end r \<le> i + length pattern" "sorted_wrt apart rs"
          using chunk_replacements_ok [OF assms(1)] by blast
        have "\<forall>r\<in>set rs. line_index \<le> fst r \<and> rep_end r \<le> i + length pattern"
          using rs(2) b k by force
        then show ?thesis using Inr False Some rs b k by (simp add: chunk_step_def loc)
      qed
    qed
  qed
qed

lemma chunk_loop_ok:
  assumes "\<forall>ch\<in>set chunks. ctx_ok 0 0 (ch_context_line_indices ch)" and "line_index \<le> length lines"
  shows "\<exists>out. chunk_loop path lines PreserveLineEndings chunks line_index = Some out
    \<and> (\<forall>rs. out = Inr rs \<longrightarrow> (\<forall>r\<in>set rs. line_index \<le> fst r \<and> rep_end r \<le> length lines)
        \<and> sorted_wrt (\<lambda>r q. apart r q \<or> fst r = length lines) rs)"
  using assms
proof (induction chunks arbitrary: line_index)
  case (Cons ch chs)
  obtain out where out: "chunk_step path lines PreserveLineEndings ch line_index = Some out"
    "\<forall>rs li. out = Inr (rs, li) \<longrightarrow> line_index \<le> li \<and> li \<le> length lines \<and> sorted_wrt apart rs
      \<and> ((\<forall>r\<in>set rs. line_index \<le> fst r \<and> rep_end r \<le> li) \<or> (\<exists>seg. rs = [(length lines, 0, seg)]))"
    using chunk_step_ok [of ch line_index lines path] Cons.prems by auto
  show ?case
  proof (cases out)
    case (Inl e)
    then show ?thesis using out(1) by simp
  next
    case (Inr rl)
    obtain rs li where rl: "rl = (rs, li)" by fastforce
    have step: "line_index \<le> li" "li \<le> length lines" "sorted_wrt apart rs"
      "(\<forall>r\<in>set rs. line_index \<le> fst r \<and> rep_end r \<le> li) \<or> (\<exists>seg. rs = [(length lines, 0, seg)])"
      using out(2) Inr rl by auto
    obtain out' where rest: "chunk_loop path lines PreserveLineEndings chs li = Some out'"
      "\<forall>rs. out' = Inr rs \<longrightarrow> (\<forall>r\<in>set rs. li \<le> fst r \<and> rep_end r \<le> length lines)
        \<and> sorted_wrt (\<lambda>r q. apart r q \<or> fst r = length lines) rs"
      using Cons.IH [of li] Cons.prems(1) step(2) by auto
    show ?thesis
    proof (cases out')
      case (Inl e)
      then show ?thesis using out(1) Inr rl rest(1) by simp
    next
      case rs': (Inr rs')
      have r': "\<forall>r\<in>set rs'. li \<le> fst r \<and> rep_end r \<le> length lines"
        "sorted_wrt (\<lambda>r q. apart r q \<or> fst r = length lines) rs'"
        using rest(2) rs' by auto
      have "\<forall>r\<in>set (rs @ rs'). line_index \<le> fst r \<and> rep_end r \<le> length lines"
        using step r'(1) Cons.prems(2) by fastforce
      moreover have "sorted_wrt (\<lambda>r q. apart r q \<or> fst r = length lines) rs"
        using step(3) by (rule sorted_wrt_mono_rel [rotated]) simp
      then have "sorted_wrt (\<lambda>r q. apart r q \<or> fst r = length lines) (rs @ rs')"
        using r' step(4) unfolding sorted_wrt_append by fastforce
      ultimately show ?thesis using out(1) Inr rl rest(1) rs' by simp
    qed
  qed
qed simp

lemma sorted_wrt_filter: "sorted_wrt R xs \<Longrightarrow> sorted_wrt R (filter P xs)"
  by (induction xs) auto

lemma filter_parted:
  fixes k :: "nat \<times> 'a"
  shows "filter (\<lambda>x. fst k = fst x) (filter (\<lambda>r. fst r < n) rs @ filter (\<lambda>r. \<not> fst r < n) rs)
    = filter (\<lambda>x. fst k = fst x) rs"
proof (cases "fst k < n")
  case True
  then have "filter (\<lambda>x. fst k = fst x) (filter (\<lambda>r. fst r < n) rs) = filter (\<lambda>x. fst k = fst x) rs"
    by (induction rs) auto
  moreover have "filter (\<lambda>x. fst k = fst x) (filter (\<lambda>r. \<not> fst r < n) rs) = []"
    using True by (induction rs) auto
  ultimately show ?thesis by (simp only: filter_append append_Nil2)
next
  case False
  then have "filter (\<lambda>x. fst k = fst x) (filter (\<lambda>r. \<not> fst r < n) rs) = filter (\<lambda>x. fst k = fst x) rs"
    by (induction rs) auto
  moreover have "filter (\<lambda>x. fst k = fst x) (filter (\<lambda>r. fst r < n) rs) = []"
    using False by (induction rs) auto
  ultimately show ?thesis by (simp only: filter_append append_Nil)
qed

lemma sort_replacements:
  assumes ends: "\<forall>r\<in>set rs. rep_end r \<le> n"
    and srt: "sorted_wrt (\<lambda>r q. apart r q \<or> fst r = n) rs"
  shows "reps_ok n (sort_key fst rs)"
proof -
  define a where "a = filter (\<lambda>r. fst r < n) rs"
  define b where "b = filter (\<lambda>r. \<not> fst r < n) rs"
  have le: "fst r \<le> rep_end r" for r :: replacement by (cases r) simp
  have mem: "set a = {r \<in> set rs. fst r < n}" "set b = {r \<in> set rs. \<not> fst r < n}"
    by (simp_all add: a_def b_def)
  have at_end: "fst r = n \<and> rep_end r = n" if "r \<in> set b" for r
  proof -
    have "rep_end r \<le> n" "\<not> fst r < n" using that ends mem(2) by simp_all
    then show ?thesis using le [of r] by linarith
  qed
  have "sorted_wrt (\<lambda>r q. apart r q \<or> fst r = n) a"
    unfolding a_def using srt by (rule sorted_wrt_filter)
  then have sa: "sorted_wrt apart a"
    by (rule sorted_wrt_mono_rel [rotated]) (use mem(1) in simp)
  have "\<forall>r\<in>set xs. fst r = n \<and> rep_end r = n \<Longrightarrow> sorted_wrt apart xs" for xs
    by (induction xs) simp_all
  then have sb: "sorted_wrt apart b" using at_end by blast
  have "apart r q" if "r \<in> set a" "q \<in> set b" for r q
    using that ends mem(1) at_end [of q] by simp
  then have ab: "sorted_wrt apart (a @ b)"
    using sa sb unfolding sorted_wrt_append by blast
  have "sorted_wrt (\<lambda>r q. fst r \<le> fst q) (a @ b)"
    using ab by (rule sorted_wrt_mono_rel [rotated]) (use le order_trans in blast)
  then have "sorted (map fst (a @ b))" by (simp only: sorted_map)
  moreover have "filter (\<lambda>x. fst k = fst x) (a @ b) = filter (\<lambda>x. fst k = fst x) rs" for k :: replacement
    unfolding a_def b_def by (rule filter_parted)
  moreover have "mset (a @ b) = mset rs"
    by (simp add: a_def b_def flip: multiset_partition)
  ultimately have "sort_key fst rs = a @ b"
    by (intro properties_for_sort_key) auto
  then show ?thesis
    using ab ends mem by (auto simp: reps_ok_def list_all_iff)
qed

lemma compute_replacements_ok:
  assumes "\<forall>ch\<in>set chunks. ctx_ok 0 0 (ch_context_line_indices ch)"
  shows "\<exists>out. compute_replacements lines path chunks PreserveLineEndings = Some out
    \<and> (\<forall>rs. out = Inr rs \<longrightarrow> reps_ok (length lines) rs)"
proof -
  obtain out where out: "chunk_loop path lines PreserveLineEndings chunks 0 = Some out"
    "\<forall>rs. out = Inr rs \<longrightarrow> (\<forall>r\<in>set rs. 0 \<le> fst r \<and> rep_end r \<le> length lines)
        \<and> sorted_wrt (\<lambda>r q. apart r q \<or> fst r = length lines) rs"
    using chunk_loop_ok [OF assms, of 0 lines path] by auto
  then show ?thesis
    by (cases out) (simp_all add: compute_replacements_def sort_replacements)
qed

subsection \<open>What an update makes of the lines\<close>

text \<open>The place of a chunk, given that its step succeeds.\<close>

lemma chunk_step_where:
  assumes "chunk_step path lines PreserveLineEndings ch k = Some (Inr (rs, li))" and "k \<le> length lines"
  shows "\<exists>k'. k \<le> k' \<and> k' \<le> length lines
    \<and> (ch_old_lines ch = [] \<longrightarrow> rs = [(length lines, 0, ch_new_lines ch)])
    \<and> (ch_old_lines ch \<noteq> [] \<longrightarrow> (\<exists>st pattern new. locate_chunk lines k' ch PreserveLineEndings = Some (st, pattern, new)
        \<and> chunk_replacements PreserveLineEndings st pattern new (ch_context_line_indices ch) = Some rs
        \<and> li = st + length pattern))"
proof (cases "ch_change_context ch")
  case None
  then show ?thesis
    using assms by (intro exI [of _ k]) (auto simp: chunk_step_def split: option.splits if_splits)
next
  case (Some c)
  then obtain idx where idx: "seek_sequence lines [c] k False PreserveLineEndings = Some idx"
    using assms(1) by (auto simp: chunk_step_def split: option.splits)
  then have "k \<le> idx + 1 \<and> idx + 1 \<le> length lines"
    using seek_sequence_Some [OF idx] by (simp add: search_start_def)
  then show ?thesis
    using assms(1) Some idx by (intro exI [of _ "idx + 1"]) (auto simp: chunk_step_def split: option.splits if_splits)
qed

text \<open>A matched chunk, written over the lines it matched: a context line is the source's own line, between
  context lines stand the chunk's new lines. \<open>new_start\<close> is the first new line not written yet.\<close>

fun edited :: "(string \<Rightarrow> 'a) \<Rightarrow> 'a list \<Rightarrow> string list \<Rightarrow> nat \<Rightarrow> (nat \<times> nat) list \<Rightarrow> 'a list" where
  "edited mk src new new_start [] = map mk (drop new_start new)"
| "edited mk src new new_start ((i, j) # ctx) =
     (if length src \<le> i \<or> length new \<le> j then map mk (drop new_start new)
      else map mk (drop new_start (take j new)) @ src ! i # edited mk src new (j + 1) ctx)"

text \<open>Where a chunk is placed: its old lines, or all but an empty last one, stand there up to the
  normalisation of the search; a chunk without old lines goes to the end.\<close>

definition placed_at ::
  "string list \<Rightarrow> nat \<Rightarrow> update_file_chunk \<Rightarrow> nat \<times> string list \<times> string list \<Rightarrow> bool" where
  "placed_at lines from ch p \<longleftrightarrow>
     (case p of (st, pattern, new) \<Rightarrow>
        from \<le> st \<and> st + length pattern \<le> length lines \<and> match_at normalise lines pattern st
        \<and> (if ch_old_lines ch = [] then st = length lines \<and> pattern = [] \<and> new = ch_new_lines ch
           else pattern = ch_old_lines ch \<and> new = ch_new_lines ch
             \<or> last_is_empty (ch_old_lines ch) \<and> pattern = butlast (ch_old_lines ch)
               \<and> new = (if last_is_empty (ch_new_lines ch) then butlast (ch_new_lines ch) else ch_new_lines ch)))"

fun placed :: "string list \<Rightarrow> nat \<Rightarrow> update_file_chunk list \<Rightarrow> (nat \<times> string list \<times> string list) list \<Rightarrow> bool" where
  "placed lines from (ch # chs) ((st, pattern, new) # ps) \<longleftrightarrow>
     placed_at lines from ch (st, pattern, new) \<and> placed lines (st + length pattern) chs ps"
| "placed lines from chs ps \<longleftrightarrow> chs = [] \<and> ps = []"

text \<open>The lines with the chunks written where they are placed: everything between them is kept.\<close>

fun rebuild ::
  "(string \<Rightarrow> 'a) \<Rightarrow> 'a list \<Rightarrow> nat \<Rightarrow> update_file_chunk list \<Rightarrow> (nat \<times> string list \<times> string list) list \<Rightarrow> 'a list" where
  "rebuild mk lines from (ch # chs) ((st, pattern, new) # ps) =
     take (st - from) (drop from lines)
     @ edited mk (take (length pattern) (drop st lines)) new 0 (ch_context_line_indices ch)
     @ rebuild mk lines (st + length pattern) chs ps"
| "rebuild mk lines from _ _ = drop from lines"

lemma splice_gap:
  assumes "\<forall>r\<in>set rs. i \<le> fst r" and "k \<le> i" and "i \<le> length lines"
  shows "splice mk k lines rs = take (i - k) (drop k lines) @ splice mk i lines rs"
proof (cases rs)
  case Nil
  have "take (i - k) (drop k lines) @ drop i lines = drop k lines"
    using assms(2) append_take_drop_id [of "i - k" "drop k lines"] by simp
  then show ?thesis by (simp add: Nil)
next
  case (Cons r rs')
  obtain s ol seg where r: "r = (s, ol, seg)" by (cases r) auto
  have "take (s - k) (drop k lines) = take (i - k) (drop k lines) @ take (s - i) (drop i lines)"
    using assms take_add [of "i - k" "s - i" "drop k lines"] by (simp add: Cons r)
  then show ?thesis by (simp add: Cons r)
qed

lemma splice_step:
  assumes "\<forall>r\<in>set rs. Suc k \<le> fst r" and "k < length lines"
  shows "splice mk k lines rs = lines ! k # splice mk (Suc k) lines rs"
  using splice_gap [of rs "Suc k" k lines mk] assms by (simp add: take_Suc_conv_app_nth hd_drop_conv_nth take_Suc)

lemma context_loop_edited:
  assumes "context_loop st plen new os ns ctx = Some (rs, os', ns')"
    and "ctx_ok os ns ctx" and "os \<le> plen" and "ns \<le> length new" and "st + plen \<le> length lines"
    and "\<forall>r\<in>set rest. st + plen \<le> fst r"
    and "tail = (if os' \<noteq> plen \<or> ns' \<noteq> length new then [(st + os', plen - os', drop ns' new)] else [])"
  shows "splice mk (st + os) lines (rs @ tail @ rest) =
    edited mk (take plen (drop st lines)) new ns ctx @ splice mk (st + plen) lines rest"
  using assms(1-4)
proof (induction ctx arbitrary: os ns rs)
  case Nil
  then show ?case by (auto simp: assms(7))
next
  case (Cons p ctx)
  obtain i j where p: "p = (i, j)" by fastforce
  have len: "length (take plen (drop st lines)) = plen" using assms(5) by simp
  show ?case
  proof (cases "plen \<le> i \<or> length new \<le> j")
    case True
    then show ?thesis using Cons.prems by (auto simp: p len assms(7))
  next
    case False
    have ij: "os \<le> i" "ns \<le> j" "ctx_ok (i + 1) (j + 1) ctx" using Cons.prems(2) by (simp_all add: p)
    obtain rs' where rs': "context_loop st plen new (i + 1) (j + 1) ctx = Some (rs', os', ns')"
      "rs = (if os \<noteq> i \<or> ns \<noteq> j then [(st + os, i - os, drop ns (take j new))] else []) @ rs'"
      using Cons.prems(1) False ij by (auto simp: p split: if_splits)
    have ok: "i + 1 \<le> os'" "\<forall>r\<in>set rs'. st + (i + 1) \<le> fst r"
      using context_loop_ok [OF ij(3), of plen new st] rs'(1) False by auto
    let ?more = "rs' @ tail @ rest"
    have "\<forall>r\<in>set ?more. Suc (st + i) \<le> fst r"
      using ok assms(6) False by (fastforce simp: assms(7) split: if_splits)
    then have "splice mk (st + i) lines ?more = lines ! (st + i) # splice mk (st + (i + 1)) lines ?more"
      using splice_step [of ?more "st + i" lines mk] assms(5) False by simp
    also have "splice mk (st + (i + 1)) lines ?more =
        edited mk (take plen (drop st lines)) new (j + 1) ctx @ splice mk (st + plen) lines rest"
      using Cons.IH [OF rs'(1) ij(3)] False by simp
    finally show ?thesis using False ij rs'(2) assms(5) by (auto simp: p len nth_append)
  qed
qed

lemma chunk_replacements_edited:
  assumes "chunk_replacements PreserveLineEndings st pattern new ctx = Some rs" and "ctx_ok 0 0 ctx"
    and "st + length pattern \<le> length lines" and "\<forall>r\<in>set rest. st + length pattern \<le> fst r"
  shows "splice mk st lines (rs @ rest) =
    edited mk (take (length pattern) (drop st lines)) new 0 ctx @ splice mk (st + length pattern) lines rest"
proof -
  obtain rs' os' ns' where c: "context_loop st (length pattern) new 0 0 ctx = Some (rs', os', ns')"
    "rs = rs' @ (if os' \<noteq> length pattern \<or> ns' \<noteq> length new then [(st + os', length pattern - os', drop ns' new)] else [])"
    using assms(1) by (auto simp: chunk_replacements_def split: option.splits if_splits)
  show ?thesis
    using context_loop_edited [OF c(1) assms(2) _ _ assms(3,4) refl, of mk] by (simp add: c(2))
qed

lemma locate_chunk_placed:
  assumes "locate_chunk lines k ch PreserveLineEndings = Some (st, pattern, new)"
    and "k \<le> length lines" and "line_index \<le> k" and "ch_old_lines ch \<noteq> []"
  shows "placed_at lines line_index ch (st, pattern, new)"
proof -
  have seek: "seek_sequence lines pattern k (ch_is_end_of_file ch) PreserveLineEndings = Some st"
    and pat: "pattern = ch_old_lines ch \<and> new = ch_new_lines ch
      \<or> last_is_empty (ch_old_lines ch) \<and> pattern = butlast (ch_old_lines ch)
        \<and> new = (if last_is_empty (ch_new_lines ch) then butlast (ch_new_lines ch) else ch_new_lines ch)"
    using assms(1) by (auto simp: locate_chunk_def Let_def split: option.splits if_splits)
  have "match_at normalise lines pattern st"
    using seek_sequence_Some [OF seek] by (cases "pattern = []") (simp_all add: match_at_def)
  then show ?thesis
    using locate_chunk_bounds [OF assms(1,2)] assms(3,4) pat by (simp add: placed_at_def)
qed

lemma chunk_loop_rebuilds:
  assumes "chunk_loop path lines PreserveLineEndings chunks k = Some (Inr rs)"
    and "\<forall>ch\<in>set chunks. ctx_ok 0 0 (ch_context_line_indices ch)" and "k \<le> length lines"
    and "\<forall>ch\<in>set (butlast chunks). ch_old_lines ch \<noteq> []" and "length src = length lines"
  shows "\<exists>ps. placed lines k chunks ps \<and> splice mk k src rs = rebuild mk src k chunks ps
    \<and> sorted (map fst rs) \<and> (\<forall>r\<in>set rs. k \<le> fst r)"
  using assms(1-4)
proof (induction chunks arbitrary: k rs)
  case (Cons ch chs)
  obtain rs1 li rs2 where step: "chunk_step path lines PreserveLineEndings ch k = Some (Inr (rs1, li))"
    and rest: "chunk_loop path lines PreserveLineEndings chs li = Some (Inr rs2)" and rs: "rs = rs1 @ rs2"
    using Cons.prems(1) by (auto split: option.splits sum.splits prod.splits)
  have ctx: "ctx_ok 0 0 (ch_context_line_indices ch)" using Cons.prems(2) by simp
  have li: "k \<le> li" "li \<le> length lines" using chunk_step_ok [OF ctx Cons.prems(3), of path] step by auto
  obtain k' where k': "k \<le> k'" "k' \<le> length lines"
    "ch_old_lines ch = [] \<Longrightarrow> rs1 = [(length lines, 0, ch_new_lines ch)]"
    "ch_old_lines ch \<noteq> [] \<Longrightarrow> \<exists>st pattern new. locate_chunk lines k' ch PreserveLineEndings = Some (st, pattern, new)
      \<and> chunk_replacements PreserveLineEndings st pattern new (ch_context_line_indices ch) = Some rs1
      \<and> li = st + length pattern"
    using chunk_step_where [OF step Cons.prems(3)] by blast
  show ?case
  proof (cases "ch_old_lines ch = []")
    case True
    then have "chs = []" using Cons.prems(4) by (cases chs) auto
    then have "rs = [(length lines, 0, ch_new_lines ch)]" using k'(3) [OF True] rest rs by simp
    then show ?thesis
      using True \<open>chs = []\<close> Cons.prems(2,3) assms(5)
      by (intro exI [of _ "[(length lines, [], ch_new_lines ch)]"])
        (cases "ch_context_line_indices ch", auto simp: placed_at_def match_at_def)
  next
    case False
    obtain st pattern new where loc: "locate_chunk lines k' ch PreserveLineEndings = Some (st, pattern, new)"
      and rep: "chunk_replacements PreserveLineEndings st pattern new (ch_context_line_indices ch) = Some rs1"
      and li': "li = st + length pattern" using k'(4) [OF False] by blast
    have pl: "placed_at lines k ch (st, pattern, new)" using locate_chunk_placed [OF loc k'(2,1) False] .
    then have b: "k \<le> st" "st + length pattern \<le> length src" using assms(5) by (simp_all add: placed_at_def)
    have r1: "\<forall>r\<in>set rs1. st \<le> fst r \<and> rep_end r \<le> st + length pattern" "sorted_wrt apart rs1"
      using chunk_replacements_ok [OF ctx, of st pattern new] rep by auto
    obtain ps where ps: "placed lines li chs ps" "splice mk li src rs2 = rebuild mk src li chs ps"
      "sorted (map fst rs2)" "\<forall>r\<in>set rs2. li \<le> fst r"
      using Cons.IH [OF rest _ li(2)] Cons.prems(2,4) by (cases chs) auto
    have ge: "\<forall>r\<in>set rs. st \<le> fst r" using r1(1) ps(4) by (auto simp: rs li')
    have "splice mk k src rs = take (st - k) (drop k src) @ splice mk st src (rs1 @ rs2)"
      using splice_gap [OF ge b(1), of src mk] b(2) by (simp add: rs)
    also have "splice mk st src (rs1 @ rs2) =
        edited mk (take (length pattern) (drop st src)) new 0 (ch_context_line_indices ch) @ splice mk li src rs2"
      using chunk_replacements_edited [OF rep ctx b(2), of rs2 mk] ps(4) by (simp add: li')
    finally have eq: "splice mk k src rs = rebuild mk src k (ch # chs) ((st, pattern, new) # ps)"
      using ps(2) by (simp add: li')
    have le: "fst r \<le> rep_end r" for r :: replacement by (cases r) simp
    have "sorted (map fst rs1)"
      unfolding sorted_map using r1(2) by (rule sorted_wrt_mono_rel [rotated]) (use le order_trans in blast)
    moreover have "fst r \<le> fst q" if "r \<in> set rs1" "q \<in> set rs2" for r q
      using that r1(1) ps(4) le [of r] by (fastforce simp: li')
    ultimately have "sorted (map fst rs)" using ps(3) by (auto simp: rs sorted_append)
    then show ?thesis using eq pl ps(1) ge b(1) by (intro exI [of _ "(st, pattern, new) # ps"]) (auto simp: li')
  qed
qed simp

subsection \<open>An update never panics\<close>

text \<open>With LF normalization replacements may overlap, but they start within the file, which is enough
  for applying them from the last to the first.\<close>

lemma apply_replacements_total:
  assumes "sorted (map fst rs)" and "\<forall>r\<in>set rs. k \<le> fst r \<and> fst r \<le> length lines" and "k \<le> length lines"
  shows "\<exists>out. apply_replacements lines rs = Some out \<and> take k out = take k lines \<and> k \<le> length out"
  using assms
proof (induction rs arbitrary: k)
  case Nil
  then show ?case by (simp add: apply_replacements_def)
next
  case (Cons r rs)
  obtain s ol seg where r: "r = (s, ol, seg)" by (cases r) auto
  have ks: "k \<le> s" "s \<le> length lines" using Cons.prems(2) by (simp_all add: r)
  obtain out where out: "apply_replacements lines rs = Some out" "take s out = take s lines" "s \<le> length out"
    using Cons.IH [of s] Cons.prems(1,2) ks(2) by (auto simp: r)
  have "apply_replacements lines (r # rs) = insert_lines s seg (remove_lines ol s out)"
    using out(1) by (simp add: apply_replacements_def r)
  also have "\<dots> = Some (take s out @ seg @ drop (s + ol) out)"
    using out(3) by (subst insert_lines_eq) (simp_all add: remove_lines_eq)
  finally have "apply_replacements lines (r # rs) = Some (take s lines @ seg @ drop (s + ol) out)"
    using out(2) by simp
  then show ?case using ks by (simp add: min_def)
qed

lemma chunk_step_lf:
  assumes "chunk_step path lines NormalizeToLf ch line_index = out" and "line_index \<le> length lines"
  shows "\<exists>e. out = Some (Inl e)
    \<or> (\<exists>rs li. out = Some (Inr (rs, li)) \<and> li \<le> length lines \<and> (\<forall>r\<in>set rs. fst r \<le> length lines))"
proof -
  have seek: "i + length pattern \<le> length lines"
    if "seek_sequence lines pattern k eof NormalizeToLf = Some i" "k \<le> length lines" for pattern k eof i
    using seek_sequence_Some [OF that(1)] that by (cases "pattern = []") (simp_all add: seek_sequence_def)
  have ctx: "idx + 1 \<le> length lines" if "seek_sequence lines [c] line_index False NormalizeToLf = Some idx" for c idx
    using seek [OF that assms(2)] by simp
  have loc: "i + length pattern \<le> length lines"
    if "locate_chunk lines k ch NormalizeToLf = Some (i, pattern, new_slice)" "k \<le> length lines"
    for k i pattern new_slice
    using that seek [of _ k] by (auto simp: locate_chunk_def Let_def split: option.splits if_splits)
  show ?thesis
  proof (cases "ch_change_context ch")
    case None
    then show ?thesis
      using assms loc [of line_index]
      by (fastforce simp: chunk_step_def chunk_replacements_def Let_def split: option.splits if_splits prod.splits)
  next
    case (Some c)
    then show ?thesis
      using assms(1) ctx [of c] loc
      by (cases "seek_sequence lines [c] line_index False NormalizeToLf")
        (fastforce simp: chunk_step_def chunk_replacements_def Let_def split: option.splits if_splits prod.splits)+
  qed
qed

lemma chunk_loop_lf:
  assumes "line_index \<le> length lines"
  shows "\<exists>out. chunk_loop path lines NormalizeToLf chunks line_index = Some out
    \<and> (\<forall>rs. out = Inr rs \<longrightarrow> (\<forall>r\<in>set rs. fst r \<le> length lines))"
  using assms
proof (induction chunks arbitrary: line_index)
  case (Cons ch chs)
  show ?case
  proof (cases "\<exists>e. chunk_step path lines NormalizeToLf ch line_index = Some (Inl e)")
    case False
    then obtain rs li where step: "chunk_step path lines NormalizeToLf ch line_index = Some (Inr (rs, li))"
      "li \<le> length lines" "\<forall>r\<in>set rs. fst r \<le> length lines"
      using chunk_step_lf [OF refl Cons.prems] by blast
    obtain out where "chunk_loop path lines NormalizeToLf chs li = Some out"
      "\<forall>rs. out = Inr rs \<longrightarrow> (\<forall>r\<in>set rs. fst r \<le> length lines)"
      using Cons.IH [OF step(2)] by blast
    then show ?thesis using step by (cases out) auto
  qed auto
qed simp

lemma new_contents_total:
  assumes "\<forall>ch\<in>set chunks. ctx_ok 0 0 (ch_context_line_indices ch)"
  shows "\<exists>out. new_contents original path chunks mode = Some out"
proof (cases mode)
  case NormalizeToLf
  define lines where "lines = (if last_is_empty (split_lf original) then butlast (split_lf original)
    else split_lf original)"
  obtain out where out: "chunk_loop path lines NormalizeToLf chunks 0 = Some out"
    "\<forall>rs. out = Inr rs \<longrightarrow> (\<forall>r\<in>set rs. fst r \<le> length lines)"
    using chunk_loop_lf [of 0 lines path chunks] by auto
  have "\<exists>ls. apply_replacements lines (sort_key fst rs) = Some ls" if "out = Inr rs" for rs
    using apply_replacements_total [of "sort_key fst rs" 0 lines] out(2) that by auto
  then show ?thesis
    using out(1) NormalizeToLf
    by (cases out) (auto simp: new_contents_def compute_replacements_def Let_def lines_def [symmetric])
next
  case PreserveLineEndings
  obtain out where out: "compute_replacements (line_texts (source_parse original)) path chunks
      PreserveLineEndings = Some out"
    "\<forall>rs. out = Inr rs \<longrightarrow> reps_ok (length (line_texts (source_parse original))) rs"
    using compute_replacements_ok [OF assms] by blast
  then show ?thesis
    using source_apply_splice PreserveLineEndings
    by (cases out) (force simp: new_contents_def Let_def)+
qed

end
