(* ===== verification/Patch_Parser.thy ===== *)
theory Patch_Parser
  imports Patch_Update Text_Lines
begin

text \<open>
  The patch language, from \<open>apply-patch/src/streaming_parser.rs\<close> and \<open>apply-patch/src/parser.rs\<close>: a
  parser that takes the text in pieces of any size, line by line, and its use on a whole text. The
  parser's state is the record \<open>streaming_parser\<close>; a line either gives an error, which leaves the
  state alone, or the next state.
\<close>

datatype parse_error = InvalidPatchError string | InvalidHunkError string nat

datatype hunk =
    AddFile path string
  | DeleteFile path
  | UpdateFile path "path option" "update_file_chunk list"

fun hunk_path :: "hunk \<Rightarrow> path" where
  "hunk_path (AddFile p contents) = p"
| "hunk_path (DeleteFile p) = p"
| "hunk_path (UpdateFile p (Some move_path) chunks) = move_path"
| "hunk_path (UpdateFile p None chunks) = p"

definition BEGIN_PATCH_MARKER :: string where "BEGIN_PATCH_MARKER = ''*** Begin Patch''"
definition END_PATCH_MARKER :: string where "END_PATCH_MARKER = ''*** End Patch''"
definition ADD_FILE_MARKER :: string where "ADD_FILE_MARKER = ''*** Add File: ''"
definition DELETE_FILE_MARKER :: string where "DELETE_FILE_MARKER = ''*** Delete File: ''"
definition UPDATE_FILE_MARKER :: string where "UPDATE_FILE_MARKER = ''*** Update File: ''"
definition MOVE_TO_MARKER :: string where "MOVE_TO_MARKER = ''*** Move to: ''"
definition EOF_MARKER :: string where "EOF_MARKER = ''*** End of File''"
definition CHANGE_CONTEXT_MARKER :: string where "CHANGE_CONTEXT_MARKER = ''@@ ''"
definition EMPTY_CHANGE_CONTEXT_MARKER :: string where "EMPTY_CHANGE_CONTEXT_MARKER = ''@@''"
definition ENVIRONMENT_ID_MARKER :: string where "ENVIRONMENT_ID_MARKER = ''*** Environment ID:''"

datatype parser_mode =
  NotStarted | StartedPatch | InAddFile | InDeleteFile | InUpdateFile nat | EndedPatch

record streaming_parser =
  sp_line_buffer :: string
  sp_line_number :: nat
  sp_mode :: parser_mode
  sp_hunks :: "hunk list"
  sp_environment_id :: "string option"

definition parser_default :: streaming_parser where
  "parser_default = \<lparr>sp_line_buffer = [], sp_line_number = 0, sp_mode = NotStarted, sp_hunks = [],
     sp_environment_id = None\<rparr>"

definition quoted :: "string \<Rightarrow> string" where
  "quoted s = CHR 0x27 # s @ [CHR 0x27]"

definition unexpected_line :: "string \<Rightarrow> string" where
  "unexpected_line line = ''Unexpected line found in update hunk: '' @ quoted line
     @ ''. Every line should start with '' @ quoted '' '' @ '' (context line), '' @ quoted ''+''
     @ '' (added line), or '' @ quoted ''-'' @ '' (removed line)''"

definition expected_context :: "string \<Rightarrow> string" where
  "expected_context line =
     ''Expected update hunk to start with a @@ context marker, got: '' @ quoted line"

definition not_a_header :: "string \<Rightarrow> string" where
  "not_a_header trimmed = quoted trimmed @ '' is not a valid hunk header. Valid hunk headers: ''
     @ quoted ''*** Add File: {path}'' @ '', '' @ quoted ''*** Delete File: {path}'' @ '', ''
     @ quoted ''*** Update File: {path}''"

definition last_line_message :: string where
  "last_line_message = ''The last line of the patch must be '' @ quoted ''*** End Patch''"

definition first_line_message :: string where
  "first_line_message = ''The first line of the patch must be '' @ quoted ''*** Begin Patch''"

subsection \<open>Lines\<close>

definition no_lines :: "update_file_chunk \<Rightarrow> bool" where
  "no_lines ch \<longleftrightarrow> ch_old_lines ch = [] \<and> ch_new_lines ch = []"

definition last_chunk :: "(update_file_chunk \<Rightarrow> bool) \<Rightarrow> update_file_chunk list \<Rightarrow> bool" where
  "last_chunk P chunks \<longleftrightarrow> chunks \<noteq> [] \<and> P (last chunks)"

definition on_last_chunk ::
  "(update_file_chunk \<Rightarrow> update_file_chunk) \<Rightarrow> update_file_chunk list \<Rightarrow> update_file_chunk list" where
  "on_last_chunk f chunks = (if chunks = [] then [] else butlast chunks @ [f (last chunks)])"

definition add_to_chunks ::
  "(update_file_chunk \<Rightarrow> update_file_chunk) \<Rightarrow> update_file_chunk list \<Rightarrow> update_file_chunk list" where
  "add_to_chunks f chunks = on_last_chunk f (if chunks = [] then [chunk_default] else chunks)"

definition ensure_update_hunk_is_not_empty ::
  "string \<Rightarrow> streaming_parser \<Rightarrow> parse_error option" where
  "ensure_update_hunk_is_not_empty line p =
     (if sp_hunks p = [] then None
      else case last (sp_hunks p) of
        UpdateFile path _ chunks \<Rightarrow>
          (case (chunks = [], sp_mode p) of
             (True, InUpdateFile hunk_line_number) \<Rightarrow>
               Some (InvalidHunkError (''Update file hunk for path '' @ quoted path @ '' is empty'')
                 hunk_line_number)
           | _ \<Rightarrow>
               if last_chunk no_lines chunks
               then Some (InvalidHunkError
                 (if line = END_PATCH_MARKER then ''Update hunk does not contain any lines''
                  else unexpected_line line) (sp_line_number p))
               else None)
      | _ \<Rightarrow> None)"

definition push_hunk :: "hunk \<Rightarrow> parser_mode \<Rightarrow> streaming_parser \<Rightarrow> streaming_parser" where
  "push_hunk h mode p = p\<lparr>sp_hunks := sp_hunks p @ [h], sp_mode := mode\<rparr>"

text \<open>\<open>Inr None\<close> is the answer false: the line is no header.\<close>

definition if_not_empty ::
  "string \<Rightarrow> streaming_parser \<Rightarrow> streaming_parser \<Rightarrow> parse_error + streaming_parser option" where
  "if_not_empty line p p' =
     (case ensure_update_hunk_is_not_empty line p of Some err \<Rightarrow> Inl err | None \<Rightarrow> Inr (Some p'))"

definition environment_id_line ::
  "string \<Rightarrow> streaming_parser \<Rightarrow> parse_error + streaming_parser option" where
  "environment_id_line raw p =
     (if sp_environment_id p \<noteq> None
      then Inl (InvalidPatchError ''apply_patch environment_id cannot be specified more than once'')
      else if trim raw = []
      then Inl (InvalidPatchError ''apply_patch environment_id cannot be empty'')
      else Inr (Some (p\<lparr>sp_environment_id := Some (trim raw)\<rparr>)))"

definition handle_hunk_headers_and_end_patch ::
  "string \<Rightarrow> streaming_parser \<Rightarrow> parse_error + streaming_parser option" where
  "handle_hunk_headers_and_end_patch trimmed p =
     (case (if sp_mode p = StartedPatch then strip_prefix ENVIRONMENT_ID_MARKER trimmed else None) of
        Some environment_id \<Rightarrow> environment_id_line environment_id p
      | None \<Rightarrow>
          if trimmed = END_PATCH_MARKER
          then if_not_empty trimmed p (p\<lparr>sp_mode := EndedPatch\<rparr>)
          else (case strip_prefix ADD_FILE_MARKER trimmed of
             Some path \<Rightarrow> if_not_empty trimmed p (push_hunk (AddFile path []) InAddFile p)
           | None \<Rightarrow>
          (case strip_prefix DELETE_FILE_MARKER trimmed of
             Some path \<Rightarrow> if_not_empty trimmed p (push_hunk (DeleteFile path) InDeleteFile p)
           | None \<Rightarrow>
          (case strip_prefix UPDATE_FILE_MARKER trimmed of
             Some path \<Rightarrow>
               if_not_empty trimmed p
                 (push_hunk (UpdateFile path None []) (InUpdateFile (sp_line_number p)) p)
           | None \<Rightarrow> Inr None))))"

text \<open>A line inside an update: the new move target and chunks.\<close>

definition process_update_line ::
  "string \<Rightarrow> nat \<Rightarrow> path option \<Rightarrow> update_file_chunk list
     \<Rightarrow> parse_error + path option \<times> update_file_chunk list" where
  "process_update_line line line_number move_path chunks =
     (let update_line = trim_end line;
          context = update_line = EMPTY_CHANGE_CONTEXT_MARKER
            \<or> starts_with update_line CHANGE_CONTEXT_MARKER
      in
      if last_chunk ch_is_end_of_file chunks \<and> update_line = [] then Inr (move_path, chunks)
      else if last_chunk ch_is_end_of_file chunks \<and> \<not> context
      then Inl (InvalidHunkError (expected_context line) line_number)
      else if chunks = [] \<and> move_path = None \<and> starts_with update_line MOVE_TO_MARKER
      then Inr (Some (drop (length MOVE_TO_MARKER) update_line), chunks)
      else if context \<and> last_chunk no_lines chunks
      then Inl (InvalidHunkError (unexpected_line line) line_number)
      else if update_line = EMPTY_CHANGE_CONTEXT_MARKER then Inr (move_path, chunks @ [chunk_default])
      else (case strip_prefix CHANGE_CONTEXT_MARKER update_line of
         Some change_context \<Rightarrow>
           Inr (move_path, chunks @ [chunk_default\<lparr>ch_change_context := Some change_context\<rparr>])
       | None \<Rightarrow>
      if update_line = EOF_MARKER
      then (if last_chunk no_lines chunks
            then Inl (InvalidHunkError ''Update hunk does not contain any lines'' line_number)
            else Inr (move_path, on_last_chunk (\<lambda>ch. ch\<lparr>ch_is_end_of_file := True\<rparr>) chunks))
      else
      (case line of
         [] \<Rightarrow> Inr (move_path, add_to_chunks (push_context_line []) chunks)
       | c # l \<Rightarrow>
           if c = CHR '' '' then Inr (move_path, add_to_chunks (push_context_line l) chunks)
           else if c = CHR ''+''
           then Inr (move_path,
             add_to_chunks (\<lambda>ch. ch\<lparr>ch_new_lines := ch_new_lines ch @ [l]\<rparr>) chunks)
           else if c = CHR ''-''
           then Inr (move_path,
             add_to_chunks (\<lambda>ch. ch\<lparr>ch_old_lines := ch_old_lines ch @ [l]\<rparr>) chunks)
           else if last_chunk (\<lambda>ch. \<not> no_lines ch) chunks
           then Inl (InvalidHunkError (expected_context line) line_number)
           else Inl (InvalidHunkError (unexpected_line line) line_number))))"

definition replace_last_hunk :: "hunk \<Rightarrow> streaming_parser \<Rightarrow> streaming_parser" where
  "replace_last_hunk h p = p\<lparr>sp_hunks := butlast (sp_hunks p) @ [h]\<rparr>"

definition header_or ::
  "string \<Rightarrow> streaming_parser \<Rightarrow> parse_error + streaming_parser \<Rightarrow> parse_error + streaming_parser" where
  "header_or trimmed p other =
     (case handle_hunk_headers_and_end_patch trimmed p of
        Inl err \<Rightarrow> Inl err
      | Inr (Some p') \<Rightarrow> Inr p'
      | Inr None \<Rightarrow> other)"

definition process_line :: "string \<Rightarrow> streaming_parser \<Rightarrow> parse_error + streaming_parser" where
  "process_line line p =
     (let trimmed = trim line;
          no_header = Inl (InvalidHunkError (not_a_header trimmed) (sp_line_number p))
      in case sp_mode p of
        NotStarted \<Rightarrow>
          if trimmed = BEGIN_PATCH_MARKER then Inr (p\<lparr>sp_mode := StartedPatch\<rparr>)
          else Inl (InvalidPatchError first_line_message)
      | StartedPatch \<Rightarrow> header_or trimmed p no_header
      | InAddFile \<Rightarrow>
          header_or trimmed p
            (case (strip_prefix ''+'' line, sp_hunks p) of
               (Some line_to_add, h # hs) \<Rightarrow>
                 (case last (h # hs) of
                    AddFile path contents \<Rightarrow>
                      Inr (replace_last_hunk (AddFile path (contents @ line_to_add @ [lf])) p)
                  | _ \<Rightarrow> no_header)
             | _ \<Rightarrow> no_header)
      | InDeleteFile \<Rightarrow> header_or trimmed p no_header
      | InUpdateFile hunk_line_number \<Rightarrow>
          header_or (trim_end line) p
            (case sp_hunks p of
               [] \<Rightarrow> Inl (InvalidHunkError (unexpected_line line) (sp_line_number p))
             | h # hs \<Rightarrow>
                 (case last (h # hs) of
                    UpdateFile path move_path chunks \<Rightarrow>
                      result_bind (process_update_line line (sp_line_number p) move_path chunks)
                        (\<lambda>(move_path, chunks).
                          Inr (replace_last_hunk (UpdateFile path move_path chunks) p))
                  | _ \<Rightarrow> Inl (InvalidHunkError (unexpected_line line) (sp_line_number p))))
      | EndedPatch \<Rightarrow>
          if trimmed = [] then Inr p else Inl (InvalidPatchError last_line_message))"

subsection \<open>Text\<close>

definition strip_cr :: "string \<Rightarrow> string" where
  "strip_cr line = (case strip_suffix_char cr line of Some l \<Rightarrow> l | None \<Rightarrow> line)"

definition next_line :: "streaming_parser \<Rightarrow> streaming_parser" where
  "next_line p = p\<lparr>sp_line_buffer := [], sp_line_number := sp_line_number p + 1\<rparr>"

fun push_chars :: "string \<Rightarrow> streaming_parser \<Rightarrow> parse_error option \<times> streaming_parser" where
  "push_chars [] p = (None, p)"
| "push_chars (c # cs) p =
     (if c = lf
      then (case process_line (strip_cr (sp_line_buffer p)) (next_line p) of
              Inl err \<Rightarrow> (Some err, next_line p)
            | Inr p' \<Rightarrow> push_chars cs p')
      else push_chars cs (p\<lparr>sp_line_buffer := sp_line_buffer p @ [c]\<rparr>))"

definition push_delta ::
  "string \<Rightarrow> streaming_parser \<Rightarrow> (parse_error + hunk list) \<times> streaming_parser" where
  "push_delta delta p =
     (case push_chars delta p of
        (Some err, p') \<Rightarrow> (Inl err, p')
      | (None, p') \<Rightarrow> (Inr (sp_hunks p'), p'))"

definition finish_line :: "streaming_parser \<Rightarrow> parse_error + streaming_parser" where
  "finish_line p =
     (if sp_line_buffer p = [] then Inr p
      else (let line = sp_line_buffer p; p = next_line p
            in if trim line = END_PATCH_MARKER
               then (case ensure_update_hunk_is_not_empty (trim line) p of
                       Some err \<Rightarrow> Inl err
                     | None \<Rightarrow> Inr (p\<lparr>sp_mode := EndedPatch\<rparr>))
               else process_line line p))"

definition finish :: "streaming_parser \<Rightarrow> parse_error + streaming_parser" where
  "finish p =
     result_bind (finish_line p) (\<lambda>p.
       if sp_mode p = EndedPatch then Inr p else Inl (InvalidPatchError last_line_message))"

subsection \<open>Whole patches\<close>

datatype parse_mode = Strict | Lenient

record apply_patch_args =
  pa_hunks :: "hunk list"
  pa_patch :: string
  pa_workdir :: "string option"
  pa_environment_id :: "string option"

definition check_start_and_end_lines_strict ::
  "string option \<Rightarrow> string option \<Rightarrow> parse_error option" where
  "check_start_and_end_lines_strict first_line last_line =
     (case (map_option trim first_line, map_option trim last_line) of
        (Some first, last') \<Rightarrow>
          if first = BEGIN_PATCH_MARKER \<and> last' = Some END_PATCH_MARKER then None
          else if first \<noteq> BEGIN_PATCH_MARKER then Some (InvalidPatchError first_line_message)
          else Some (InvalidPatchError last_line_message)
      | _ \<Rightarrow> Some (InvalidPatchError last_line_message))"

definition check_patch_boundaries_strict :: "string list \<Rightarrow> parse_error + string list" where
  "check_patch_boundaries_strict lines =
     (case (if lines = [] then check_start_and_end_lines_strict None None
            else check_start_and_end_lines_strict (Some (hd lines)) (Some (last lines))) of
        Some err \<Rightarrow> Inl err
      | None \<Rightarrow> Inr lines)"

definition check_patch_boundaries_lenient :: "string list \<Rightarrow> parse_error + string list" where
  "check_patch_boundaries_lenient original_lines =
     (case check_patch_boundaries_strict original_lines of
        Inr lines \<Rightarrow> Inr lines
      | Inl original_parse_error \<Rightarrow>
          if length original_lines \<ge> 4
             \<and> (hd original_lines = ''<<EOF'' \<or> hd original_lines = ''<<'' @ quoted ''EOF''
                \<or> hd original_lines = ''<<'' @ [CHR 0x22] @ ''EOF'' @ [CHR 0x22])
             \<and> ends_with (last original_lines) ''EOF''
          then check_patch_boundaries_strict (butlast (tl original_lines))
          else Inl original_parse_error)"

definition parse_patch_text :: "string \<Rightarrow> parse_mode \<Rightarrow> parse_error + apply_patch_args" where
  "parse_patch_text patch mode =
     (let lines = str_lines (trim patch)
      in result_bind
        (case mode of
           Strict \<Rightarrow> check_patch_boundaries_strict lines
         | Lenient \<Rightarrow> check_patch_boundaries_lenient lines)
        (\<lambda>patch_lines.
          let patch = join_lf patch_lines
          in (case push_delta patch parser_default of
                (Inl err, _) \<Rightarrow> Inl err
              | (Inr _, p) \<Rightarrow>
                  result_bind (finish p) (\<lambda>p.
                    Inr \<lparr>pa_hunks = sp_hunks p, pa_patch = patch, pa_workdir = None,
                         pa_environment_id = sp_environment_id p\<rparr>))))"

definition PARSE_IN_STRICT_MODE :: bool where "PARSE_IN_STRICT_MODE = False"

definition parse_patch :: "string \<Rightarrow> parse_error + apply_patch_args" where
  "parse_patch patch = parse_patch_text patch (if PARSE_IN_STRICT_MODE then Strict else Lenient)"

subsection \<open>What the parser keeps\<close>

text \<open>Context indices are in order and point to equal lines.\<close>

definition chunk_ok :: "update_file_chunk \<Rightarrow> bool" where
  "chunk_ok ch \<longleftrightarrow> ctx_ok 0 0 (ch_context_line_indices ch)
     \<and> (\<forall>(i, j)\<in>set (ch_context_line_indices ch). i < length (ch_old_lines ch)
          \<and> j < length (ch_new_lines ch) \<and> ch_old_lines ch ! i = ch_new_lines ch ! j)"

definition chunks_open :: "update_file_chunk list \<Rightarrow> bool" where
  "chunks_open chunks \<longleftrightarrow>
     (\<forall>ch\<in>set chunks. chunk_ok ch) \<and> (\<forall>ch\<in>set (butlast chunks). \<not> no_lines ch)"

fun hunk_open :: "hunk \<Rightarrow> bool" where
  "hunk_open (UpdateFile _ _ chunks) = chunks_open chunks"
| "hunk_open _ = True"

fun hunk_ok :: "hunk \<Rightarrow> bool" where
  "hunk_ok (UpdateFile _ _ chunks) \<longleftrightarrow>
     chunks \<noteq> [] \<and> (\<forall>ch\<in>set chunks. chunk_ok ch \<and> \<not> no_lines ch)"
| "hunk_ok _ = True"

fun mode_ok :: "parser_mode \<Rightarrow> hunk list \<Rightarrow> bool" where
  "mode_ok NotStarted hunks \<longleftrightarrow> hunks = []"
| "mode_ok StartedPatch hunks \<longleftrightarrow> hunks = []"
| "mode_ok InAddFile hunks \<longleftrightarrow> hunks \<noteq> [] \<and> (\<exists>p c. last hunks = AddFile p c)"
| "mode_ok InDeleteFile hunks \<longleftrightarrow> hunks \<noteq> [] \<and> (\<exists>p. last hunks = DeleteFile p)"
| "mode_ok (InUpdateFile _) hunks \<longleftrightarrow> hunks \<noteq> [] \<and> (\<exists>p m c. last hunks = UpdateFile p m c)"
| "mode_ok EndedPatch hunks \<longleftrightarrow> (\<forall>h\<in>set hunks. hunk_ok h)"

definition parser_ok :: "streaming_parser \<Rightarrow> bool" where
  "parser_ok p \<longleftrightarrow> (\<forall>h\<in>set (butlast (sp_hunks p)). hunk_ok h)
     \<and> (sp_hunks p \<noteq> [] \<longrightarrow> hunk_open (last (sp_hunks p))) \<and> mode_ok (sp_mode p) (sp_hunks p)"

lemma ctx_ok_snoc:
  "ctx_ok a b xs \<Longrightarrow> \<forall>(i, j)\<in>set xs. i < m \<and> j < n \<Longrightarrow> a \<le> m \<Longrightarrow> b \<le> n \<Longrightarrow> ctx_ok a b (xs @ [(m, n)])"
  by (induction a b xs rule: ctx_ok.induct) auto

lemma chunk_ok_default [simp]: "chunk_ok chunk_default" "chunk_ok (chunk_default\<lparr>ch_change_context := c\<rparr>)"
  by (simp_all add: chunk_ok_def chunk_default_def)

lemma chunk_ok_context: "chunk_ok ch \<Longrightarrow> chunk_ok (push_context_line l ch)"
  unfolding chunk_ok_def push_context_line_def
  by (auto simp: nth_append intro!: ctx_ok_snoc)

lemma chunk_ok_new: "chunk_ok ch \<Longrightarrow> chunk_ok (ch\<lparr>ch_new_lines := ch_new_lines ch @ [l]\<rparr>)"
  unfolding chunk_ok_def by (auto simp: nth_append)

lemma chunk_ok_old: "chunk_ok ch \<Longrightarrow> chunk_ok (ch\<lparr>ch_old_lines := ch_old_lines ch @ [l]\<rparr>)"
  unfolding chunk_ok_def by (auto simp: nth_append)

lemma chunk_ok_eof: "chunk_ok ch \<Longrightarrow> chunk_ok (ch\<lparr>ch_is_end_of_file := b\<rparr>)"
  by (simp add: chunk_ok_def)

lemma chunks_open_last:
  assumes "chunks_open chunks" and "\<And>ch. chunk_ok ch \<Longrightarrow> chunk_ok (f ch)"
  shows "chunks_open (on_last_chunk f chunks)"
  using assms by (cases chunks rule: rev_cases) (auto simp: chunks_open_def on_last_chunk_def)

lemma chunks_open_add:
  assumes "chunks_open chunks" and "\<And>ch. chunk_ok ch \<Longrightarrow> chunk_ok (f ch)"
  shows "chunks_open (add_to_chunks f chunks)"
proof -
  have "chunks_open (if chunks = [] then [chunk_default] else chunks)"
    using assms(1) by (simp add: chunks_open_def)
  then show ?thesis unfolding add_to_chunks_def using assms(2) by (rule chunks_open_last)
qed

lemma chunks_open_snoc:
  assumes "chunks_open chunks" and "\<not> last_chunk no_lines chunks" and "chunk_ok ch"
  shows "chunks_open (chunks @ [ch])"
  using assms by (cases chunks rule: rev_cases) (auto simp: chunks_open_def last_chunk_def butlast_append)

lemma process_update_line_open:
  assumes "process_update_line line n mv chunks = Inr (mv', chunks')" and "chunks_open chunks"
  shows "chunks_open chunks'"
proof -
  have adds: "chunks_open (add_to_chunks (push_context_line l) chunks)"
    "chunks_open (add_to_chunks (\<lambda>ch. ch\<lparr>ch_new_lines := ch_new_lines ch @ [l]\<rparr>) chunks)"
    "chunks_open (add_to_chunks (\<lambda>ch. ch\<lparr>ch_old_lines := ch_old_lines ch @ [l]\<rparr>) chunks)"
    "chunks_open (on_last_chunk (\<lambda>ch. ch\<lparr>ch_is_end_of_file := True\<rparr>) chunks)" for l
    using assms(2)
    by (simp_all add: chunks_open_add chunks_open_last chunk_ok_context chunk_ok_new chunk_ok_old chunk_ok_eof)
  have default: "chunks_open (chunks @ [chunk_default])"
    "chunks_open (chunks @ [chunk_default\<lparr>ch_change_context := c\<rparr>])" if "\<not> last_chunk no_lines chunks" for c
    using that assms(2) by (simp_all add: chunks_open_snoc)
  show ?thesis
    using assms
    by (auto simp: process_update_line_def Let_def strip_prefix_def adds default
        split: if_splits list.splits)
qed

lemma all_hunks_ok:
  assumes "parser_ok p" and "ensure_update_hunk_is_not_empty line p = None"
  shows "\<forall>h\<in>set (sp_hunks p). hunk_ok h"
proof (cases "sp_hunks p" rule: rev_cases)
  case (snoc hs h)
  have "hunk_ok h"
  proof (cases h)
    case (UpdateFile path mv chunks)
    show ?thesis
    proof (cases "sp_mode p")
      case (InUpdateFile n)
      then have "chunks \<noteq> []" "\<not> last_chunk no_lines chunks" "chunks_open chunks"
        using assms snoc UpdateFile
        by (auto simp: ensure_update_hunk_is_not_empty_def parser_ok_def split: if_splits bool.splits)
      then show ?thesis
        unfolding UpdateFile
        by (cases chunks rule: rev_cases) (auto simp: chunks_open_def last_chunk_def)
    qed (use assms(1) snoc UpdateFile in \<open>auto simp: parser_ok_def\<close>)
  qed simp_all
  then show ?thesis using assms(1) snoc by (auto simp: parser_ok_def)
qed simp

lemma parser_ok_default [simp]: "parser_ok parser_default"
  by (simp add: parser_ok_def parser_default_def)

lemma parser_ok_buffer [simp]:
  "parser_ok (p\<lparr>sp_line_buffer := b\<rparr>) = parser_ok p" "parser_ok (next_line p) = parser_ok p"
  by (simp_all add: parser_ok_def next_line_def)

lemma parser_ok_push_hunk:
  assumes "\<forall>h\<in>set (sp_hunks p). hunk_ok h" and "hunk_open h" and "mode_ok mode (sp_hunks p @ [h])"
  shows "parser_ok (push_hunk h mode p)"
  using assms by (simp add: parser_ok_def push_hunk_def)

lemma if_not_empty_Some:
  assumes "if_not_empty line p q = Inr (Some p')" and "parser_ok p"
  shows "p' = q \<and> (\<forall>h\<in>set (sp_hunks p). hunk_ok h)"
  using assms all_hunks_ok [OF assms(2), of line] by (simp add: if_not_empty_def split: option.splits)

lemma parser_ok_ended: "\<forall>h\<in>set (sp_hunks p). hunk_ok h \<Longrightarrow> parser_ok p \<Longrightarrow> parser_ok (p\<lparr>sp_mode := EndedPatch\<rparr>)"
  by (simp add: parser_ok_def)

lemma environment_id_line_ok:
  "environment_id_line raw p = Inr (Some p') \<Longrightarrow> parser_ok p \<Longrightarrow> parser_ok p'"
  by (auto simp: environment_id_line_def parser_ok_def split: if_splits)

lemma header_ok:
  assumes "handle_hunk_headers_and_end_patch line p = Inr (Some p')" and "parser_ok p"
  shows "parser_ok p'"
proof -
  have push: "parser_ok p'" if "if_not_empty line p q = Inr (Some p')"
    "\<forall>h\<in>set (sp_hunks p). hunk_ok h \<Longrightarrow> parser_ok q" for q
    using if_not_empty_Some [OF that(1) assms(2)] that(2) by simp
  have qs: "\<forall>h\<in>set (sp_hunks p). hunk_ok h \<Longrightarrow> parser_ok (p\<lparr>sp_mode := EndedPatch\<rparr>)"
    "\<forall>h\<in>set (sp_hunks p). hunk_ok h \<Longrightarrow> parser_ok (push_hunk (AddFile f []) InAddFile p)"
    "\<forall>h\<in>set (sp_hunks p). hunk_ok h \<Longrightarrow> parser_ok (push_hunk (DeleteFile f) InDeleteFile p)"
    "\<forall>h\<in>set (sp_hunks p). hunk_ok h \<Longrightarrow> parser_ok (push_hunk (UpdateFile f None []) (InUpdateFile n) p)" for f n
    using parser_ok_ended [OF _ assms(2)] by (auto intro!: parser_ok_push_hunk simp: chunks_open_def)
  show ?thesis
    using assms(1) push [OF _ qs(1)] push [OF _ qs(2)] push [OF _ qs(3)] push [OF _ qs(4)]
      environment_id_line_ok [OF _ assms(2)]
    by (auto simp: handle_hunk_headers_and_end_patch_def split: option.splits if_splits)
qed

lemma replace_last_ok:
  assumes "parser_ok p" and "sp_hunks p \<noteq> []" and "hunk_open h"
    and "mode_ok (sp_mode p) (butlast (sp_hunks p) @ [h])"
  shows "parser_ok (replace_last_hunk h p)"
  using assms by (simp add: parser_ok_def replace_last_hunk_def)

lemma header_or_ok:
  assumes "header_or trimmed p other = Inr p'" and "parser_ok p"
    and "other = Inr p' \<Longrightarrow> parser_ok p'"
  shows "parser_ok p'"
  using assms header_ok [of trimmed p p'] by (auto simp: header_or_def split: sum.splits option.splits)

lemma process_line_ok:
  assumes "process_line line p = Inr p'" and "parser_ok p"
  shows "parser_ok p'"
proof (cases "sp_mode p")
  case InAddFile
  then obtain h where h: "header_or (trim line) p h = Inr p'"
    and other: "h = Inr p' \<Longrightarrow> \<exists>f c. sp_hunks p \<noteq> [] \<and> p' = replace_last_hunk (AddFile f c) p"
    using assms(1)
    by (fastforce simp: process_line_def Let_def split: option.splits list.splits hunk.splits)
  have "parser_ok p'" if "h = Inr p'"
    using other [OF that] assms(2) InAddFile by (auto intro!: replace_last_ok)
  then show ?thesis using header_or_ok [OF h assms(2)] by blast
next
  case (InUpdateFile n)
  then obtain h where h: "header_or (trim_end line) p h = Inr p'"
    and other: "h = Inr p' \<Longrightarrow> \<exists>f mv chunks mv' chunks'. sp_hunks p \<noteq> []
      \<and> last (sp_hunks p) = UpdateFile f mv chunks
      \<and> process_update_line line (sp_line_number p) mv chunks = Inr (mv', chunks')
      \<and> p' = replace_last_hunk (UpdateFile f mv' chunks') p"
    using assms(1)
    by (fastforce simp: process_line_def Let_def result_bind_eq_Inr split: list.splits hunk.splits)
  have "parser_ok p'" if eq: "h = Inr p'"
  proof -
    obtain f mv chunks mv' chunks' where u: "sp_hunks p \<noteq> []" "last (sp_hunks p) = UpdateFile f mv chunks"
      "process_update_line line (sp_line_number p) mv chunks = Inr (mv', chunks')"
      "p' = replace_last_hunk (UpdateFile f mv' chunks') p"
      using other [OF eq] by blast
    have "chunks_open chunks" using assms(2) u(1,2) by (simp add: parser_ok_def)
    then have "hunk_open (UpdateFile f mv' chunks')" using process_update_line_open [OF u(3)] by simp
    then show ?thesis using replace_last_ok [OF assms(2) u(1)] InUpdateFile u(4) by simp
  qed
  then show ?thesis using header_or_ok [OF h assms(2)] by blast
next
  case StartedPatch
  then obtain e where "header_or (trim line) p (Inl e) = Inr p'"
    using assms(1) by (auto simp: process_line_def Let_def)
  then show ?thesis using header_or_ok [OF _ assms(2)] by blast
next
  case InDeleteFile
  then obtain e where "header_or (trim line) p (Inl e) = Inr p'"
    using assms(1) by (auto simp: process_line_def Let_def)
  then show ?thesis using header_or_ok [OF _ assms(2)] by blast
next
  case NotStarted
  then show ?thesis using assms by (auto simp: process_line_def parser_ok_def split: if_splits)
next
  case EndedPatch
  then show ?thesis using assms by (auto simp: process_line_def split: if_splits)
qed

lemma push_chars_ok: "push_chars cs p = (r, p') \<Longrightarrow> parser_ok p \<Longrightarrow> parser_ok p'"
proof (induction cs p rule: push_chars.induct)
  case (2 c cs p)
  show ?case
  proof (cases "c = lf")
    case True
    then show ?thesis
      using 2(1) [OF True] 2(3,4) process_line_ok [of "strip_cr (sp_line_buffer p)" "next_line p"]
      by (auto split: sum.splits)
  next
    case False
    then show ?thesis using 2(2) [OF False] 2(3,4) by simp
  qed
qed simp

lemma finish_ok:
  assumes "finish p = Inr p'" and "parser_ok p"
  shows "\<forall>h\<in>set (sp_hunks p'). hunk_ok h"
proof -
  obtain q where q: "finish_line p = Inr q" "sp_mode q = EndedPatch" "p' = q"
    using assms(1) by (auto simp: finish_def result_bind_eq_Inr split: if_splits)
  have "parser_ok q"
    using q(1) assms(2) process_line_ok [of "sp_line_buffer p" "next_line p" q]
      parser_ok_ended [OF all_hunks_ok [of "next_line p" "trim (sp_line_buffer p)"]]
    by (auto simp: finish_line_def Let_def split: if_splits option.splits)
  then show ?thesis using q(2,3) by (simp add: parser_ok_def)
qed

lemma parse_patch_hunks_ok:
  assumes "parse_patch_text patch mode = Inr args"
  shows "\<forall>h\<in>set (pa_hunks args). hunk_ok h"
proof -
  obtain ls where ls: "(case push_delta (join_lf ls) parser_default of (Inl err, _) \<Rightarrow> Inl err
      | (Inr _, p) \<Rightarrow> result_bind (finish p) (\<lambda>p. Inr \<lparr>pa_hunks = sp_hunks p, pa_patch = join_lf ls,
          pa_workdir = None, pa_environment_id = sp_environment_id p\<rparr>)) = Inr args"
    using assms by (auto simp: parse_patch_text_def Let_def)
  obtain r p where rp: "push_chars (join_lf ls) parser_default = (r, p)" by fastforce
  then obtain p' where p: "r = None" "finish p = Inr p'" "pa_hunks args = sp_hunks p'"
    using ls by (cases r) (auto simp: push_delta_def)
  then show ?thesis using finish_ok push_chars_ok [OF rp] by simp
qed

subsection \<open>Lines and pieces\<close>

text \<open>The reference: the complete lines, one after the other.\<close>

fun run_lines :: "string list \<Rightarrow> streaming_parser \<Rightarrow> parse_error + streaming_parser" where
  "run_lines [] p = Inr p"
| "run_lines (l # ls) p = result_bind (process_line (strip_cr l) (next_line p)) (run_lines ls)"

text \<open>Pieces pushed one after the other, up to the first error.\<close>

fun feed :: "string list \<Rightarrow> streaming_parser \<Rightarrow> parse_error + streaming_parser" where
  "feed [] p = Inr p"
| "feed (d # ds) p = (case push_delta d p of (Inl err, _) \<Rightarrow> Inl err | (Inr _, p') \<Rightarrow> feed ds p')"

lemma push_chars_append:
  "push_chars (s @ t) p = (case push_chars s p of (None, p') \<Rightarrow> push_chars t p' | r \<Rightarrow> r)"
  by (induction s p rule: push_chars.induct) (auto split: sum.splits)

lemma feed_concat:
  "feed ds p = (case push_chars (concat ds) p of (None, p') \<Rightarrow> Inr p' | (Some err, _) \<Rightarrow> Inl err)"
  by (induction ds p rule: feed.induct)
    (auto simp: push_delta_def push_chars_append split: prod.splits option.splits)

lemma split_lf_nonempty [simp]: "split_lf s \<noteq> []"
  by (cases s) (auto split: list.split)

lemma process_line_buffer:
  assumes "process_line line p = Inr p'"
  shows "sp_line_buffer p' = sp_line_buffer p"
proof -
  have hdr: "sp_line_buffer q = sp_line_buffer p" if "handle_hunk_headers_and_end_patch l p = Inr (Some q)" for l q
    using that
    by (auto simp: handle_hunk_headers_and_end_patch_def if_not_empty_def environment_id_line_def push_hunk_def
        split: option.splits if_splits)
  have hor: "other = Inr p' \<and> handle_hunk_headers_and_end_patch l p = Inr None \<or> sp_line_buffer p' = sp_line_buffer p"
    if "header_or l p other = Inr p'" for l other
    using that hdr [of l p'] by (auto simp: header_or_def split: sum.splits option.splits)
  show ?thesis
    using assms hor
    by (cases "sp_mode p")
      (fastforce simp: process_line_def Let_def replace_last_hunk_def
        split: if_splits option.splits list.splits hunk.splits)+
qed

lemma push_chars_lines:
  "(case push_chars s p of (None, p') \<Rightarrow> Inr p' | (Some err, _) \<Rightarrow> Inl err) =
     (case split_lf s of
        [] \<Rightarrow> Inr p
      | l # ls \<Rightarrow>
          if ls = [] then Inr (p\<lparr>sp_line_buffer := sp_line_buffer p @ l\<rparr>)
          else result_bind (run_lines ((sp_line_buffer p @ l) # butlast ls) p)
            (\<lambda>p'. Inr (p'\<lparr>sp_line_buffer := last ls\<rparr>)))"
proof (induction s p rule: push_chars.induct)
  case (2 c cs p)
  obtain l ls where sp: "split_lf cs = l # ls" using split_lf_nonempty by (meson list.exhaust)
  show ?case
  proof (cases "c = lf")
    case True
    show ?thesis
    proof (cases "process_line (strip_cr (sp_line_buffer p)) (next_line p)")
      case (Inl e)
      then show ?thesis using True sp by simp
    next
      case (Inr p')
      have "sp_line_buffer p' = []" using process_line_buffer [OF Inr] by (simp add: next_line_def)
      then show ?thesis using 2(1) [OF True Inr] True Inr sp by (cases "ls = []") simp_all
    qed
  next
    case False
    then show ?thesis using 2(2) [OF False] sp by (cases "ls = []") (simp_all add: next_line_def)
  qed
qed simp

end
