(* ===== verification/Patch_Properties.thy ===== *)
theory Patch_Properties
  imports Patch_Parser
begin

text \<open>
  The properties of the patch tool: where lines are found, what an update does to a file in both modes,
  and what the parser promises to the code that applies its hunks.
\<close>

subsection \<open>A sample patch\<close>

definition sample_patch :: string where
  "sample_patch = concat (map (\<lambda>l. l @ [lf])
     [''*** Begin Patch'', ''*** Update File: f'', ''-a'', ''-b'', ''+x'', ''@@'', ''-b'', ''+y'',
      ''*** End of File'', ''*** End Patch''])"

definition first_chunk :: "string \<Rightarrow> update_file_chunk" where
  "first_chunk x = chunk_default\<lparr>ch_old_lines := [''a'', ''b''], ch_new_lines := [x]\<rparr>"

definition second_chunk :: "string \<Rightarrow> update_file_chunk" where
  "second_chunk y = chunk_default\<lparr>ch_old_lines := [''b''], ch_new_lines := [y], ch_is_end_of_file := True\<rparr>"

definition sample_args :: apply_patch_args where
  "sample_args = \<lparr>pa_hunks = [UpdateFile ''f'' None [first_chunk ''x'', second_chunk ''y'']],
     pa_patch = butlast sample_patch, pa_workdir = None, pa_environment_id = None\<rparr>"

lemma parse_sample: "parse_patch sample_patch = Inr sample_args"
  unfolding sample_args_def sample_patch_def first_chunk_def second_chunk_def by code_simp

subsection \<open>Locating lines\<close>

text \<open>A search for lines is sound, complete and prefers exact matches: a position it gives is within
  the file, at or after the start of the search (at the end of the file for an end-of-file chunk), and its
  lines equal the pattern up to surrounding white space and typographic characters; if some position in
  range matches exactly, the answer is the first of those; and there is no answer exactly when no
  position in range matches even leniently.\<close>

theorem seek_sequence_finds:
  assumes "pattern \<noteq> []"
  shows "(\<forall>i. seek_sequence lines pattern start eof mode = Some i \<longrightarrow>
      search_start lines pattern start eof mode \<le> i \<and> i + length pattern \<le> length lines
      \<and> match_at normalise lines pattern i
      \<and> (\<forall>j. search_start lines pattern start eof mode \<le> j \<and> j + length pattern \<le> length lines
          \<and> match_at (\<lambda>l. l) lines pattern j \<longrightarrow> i \<le> j \<and> match_at (\<lambda>l. l) lines pattern i))
    \<and> (seek_sequence lines pattern start eof mode = None \<longleftrightarrow>
        \<not> (\<exists>j. search_start lines pattern start eof mode \<le> j \<and> j + length pattern \<le> length lines
            \<and> match_at normalise lines pattern j))"
  using seek_sequence_Some [OF _ assms] seek_sequence_exact [OF _ assms]
    seek_sequence_None [of lines pattern start eof mode]
  by (cases "seek_sequence lines pattern start eof mode") (simp, blast)+

theorem seek_sequence_finds_witness:
  "seek_sequence [''b '', ''a'', ''b''] [''b''] 0 False NormalizeToLf = Some 2
   \<and> match_at (\<lambda>l. l) [''b '', ''a'', ''b''] [''b''] 2
   \<and> seek_sequence [''b '', ''a''] [''b''] 0 False NormalizeToLf = Some 0
   \<and> \<not> match_at normalise [''b '', ''a''] [''b''] 1"
proof -
  have e: "seek_sequence [''b '', ''a'', ''b''] [''b''] 0 False NormalizeToLf = Some 2"
    "seek_sequence [''b '', ''a''] [''b''] 0 False NormalizeToLf = Some 0"
    "match_at (\<lambda>l. l) [''b '', ''a'', ''b''] [''b''] 2" "\<not> match_at normalise [''b '', ''a''] [''b''] 1"
    by code_simp+
  have "[''b''] \<noteq> ([] :: string list)" by simp
  from seek_sequence_finds [OF this, of "[''b '', ''a'', ''b'']" 0 False NormalizeToLf] e show ?thesis by blast
qed

subsection \<open>Updating a file\<close>

text \<open>The two ways of applying replacements agree: on replacements that are in order, apart and
  within the file, removing and inserting lines from the last to the first, and rebuilding the file from
  the first to the last, both give the lines between the replacements with the new lines in their
  place. The rebuilt file keeps the ending of every line it keeps; a new line, and a last line without
  an ending, gets the file's preferred one.\<close>

theorem both_modes_splice:
  assumes "reps_ok (length (sf_lines f)) rs"
  shows "apply_replacements (line_texts f) rs = Some (splice (\<lambda>t. t) 0 (line_texts f) rs)
    \<and> source_apply_replacements f rs = Some (f\<lparr>sf_lines :=
        map (with_ending (sf_preferred f)) (splice (new_line (sf_preferred f)) 0 (sf_lines f) rs)\<rparr>)
    \<and> map_option line_texts (source_apply_replacements f rs) = apply_replacements (line_texts f) rs"
proof -
  have "apply_replacements (line_texts f) rs = Some (splice (\<lambda>t. t) 0 (line_texts f) rs)"
    using apply_replacements_splice [of "line_texts f" rs 0] assms by (simp add: line_texts_def)
  then show ?thesis using source_apply_splice [OF assms] source_apply_texts [OF _ assms] by simp
qed

theorem both_modes_splice_witness:
  "map_option into_contents (source_apply_replacements (source_parse (''a'' @ [cr, lf] @ ''b'')) [(1, 0, [''x''])])
     = Some (''a'' @ [cr, lf] @ ''x'' @ [cr, lf] @ ''b'' @ [cr, lf])
   \<and> apply_replacements [''a'', ''b''] [(1, 0, [''x''])] = Some [''a'', ''x'', ''b'']"
proof -
  let ?f = "source_parse (''a'' @ [cr, lf] @ ''b'')"
  have f: "?f = \<lparr>sf_lines = [\<lparr>sl_text = ''a'', sl_ending = Some CrLf\<rparr>, \<lparr>sl_text = ''b'', sl_ending = None\<rparr>],
      sf_preferred = CrLf\<rparr>"
    by code_simp
  have "reps_ok (length (sf_lines ?f)) [(1, 0, [''x''])]"
    unfolding f by (simp add: reps_ok_def)
  from both_modes_splice [OF this] show ?thesis
    unfolding f by (simp add: line_texts_def into_contents_def line_contents_def with_ending_def new_line_def)
qed

text \<open>C18. What an update that preserves line endings writes, for chunks whose context indices are in
  order and point to equal lines (as the parser makes them) and of which only the last may be without
  old lines. The chunks have places in the file, in order and apart, where their old lines stand (all of
  them, or all but an empty last one; up to the normalisation of the search; a chunk without old lines
  stands at the end). The new file is the old one in which, at each place, the context lines are the
  file's own lines and every other old line gives way to the chunk's new lines; all lines between the
  places are the file's own. Every line of the file that is kept keeps its ending; new lines, and a kept
  last line that had none, get the preferred ending of the file. Reading the file into lines loses
  nothing.\<close>

theorem preserving_update_is_a_splice:
  assumes "\<forall>ch\<in>set chunks. chunk_ok ch" and "\<forall>ch\<in>set (butlast chunks). ch_old_lines ch \<noteq> []"
    and "new_contents original path chunks PreserveLineEndings = Some (Inr updated)"
    and "f = source_parse original"
  shows "into_contents f = original
    \<and> (\<exists>ps. placed (line_texts f) 0 chunks ps
        \<and> updated = concat (map (\<lambda>l. line_contents (with_ending (sf_preferred f) l))
            (rebuild (new_line (sf_preferred f)) (sf_lines f) 0 chunks ps)))"
proof -
  have ctx: "\<forall>ch\<in>set chunks. ctx_ok 0 0 (ch_context_line_indices ch)"
    using assms(1) by (simp add: chunk_ok_def)
  have len: "length (line_texts f) = length (sf_lines f)" by (simp add: line_texts_def)
  obtain rs where rs: "chunk_loop path (line_texts f) PreserveLineEndings chunks 0 = Some (Inr rs)"
    "map_option into_contents (source_apply_replacements f (sort_key fst rs)) = Some updated"
    using assms(3,4) by (auto simp: new_contents_def compute_replacements_def Let_def split: option.splits sum.splits)
  then have ok: "reps_ok (length (sf_lines f)) (sort_key fst rs)"
    using compute_replacements_ok [OF ctx, of "line_texts f" path] len by (auto simp: compute_replacements_def)
  obtain ps where ps: "placed (line_texts f) 0 chunks ps"
    "splice (new_line (sf_preferred f)) 0 (sf_lines f) rs = rebuild (new_line (sf_preferred f)) (sf_lines f) 0 chunks ps"
    "sorted (map fst rs)"
    using chunk_loop_rebuilds [OF rs(1) ctx _ assms(2) len [symmetric], of "new_line (sf_preferred f)"] by auto
  have "sort_key fst rs = rs" using ps(3) by (rule sort_key_id_if_sorted)
  moreover have "into_contents f = original"
    by (simp add: assms(4) into_contents_def source_parse_def Let_def parse_lines_contents)
  ultimately show ?thesis
    using ps(1,2) rs(2) source_apply_splice [OF ok, of f] by (auto simp: into_contents_def comp_def)
qed

text \<open>Witness: a file of mixed endings whose last line has none; the first old line is replaced, the last
  line is context.\<close>

definition mixed_chunk :: update_file_chunk where
  "mixed_chunk = chunk_default\<lparr>ch_old_lines := [''b'', ''c''], ch_new_lines := [''y'', ''c''],
     ch_context_line_indices := [(1, 1)]\<rparr>"

theorem preserving_update_is_a_splice_witness:
  "new_contents (''a'' @ [cr, lf] @ ''b'' @ [lf] @ ''c'') ''f'' [mixed_chunk] PreserveLineEndings
     = Some (Inr (''a'' @ [cr, lf] @ ''y'' @ [cr, lf] @ ''c'' @ [cr, lf]))
   \<and> (\<exists>ps. placed [''a'', ''b'', ''c''] 0 [mixed_chunk] ps)"
proof -
  have e: "new_contents (''a'' @ [cr, lf] @ ''b'' @ [lf] @ ''c'') ''f'' [mixed_chunk] PreserveLineEndings
     = Some (Inr (''a'' @ [cr, lf] @ ''y'' @ [cr, lf] @ ''c'' @ [cr, lf]))"
    by code_simp
  have t: "line_texts (source_parse (''a'' @ [cr, lf] @ ''b'' @ [lf] @ ''c'')) = [''a'', ''b'', ''c'']" by code_simp
  have "\<forall>ch\<in>set [mixed_chunk]. chunk_ok ch" "\<forall>ch\<in>set (butlast [mixed_chunk]). ch_old_lines ch \<noteq> []"
    by (simp_all add: chunk_ok_def mixed_chunk_def)
  from preserving_update_is_a_splice [OF this e refl] e t show ?thesis by auto
qed

subsection \<open>Parsing\<close>

text \<open>C19. The parser does not depend on how the text arrives: pushing it in any pieces gives the same
  state, or the same error, as running the complete lines of the whole text one after the other, and
  keeps what follows the last line end for later.\<close>

theorem pieces_do_not_matter:
  "feed pieces parser_default =
     result_bind (run_lines (butlast (split_lf (concat pieces))) parser_default)
       (\<lambda>p. Inr (p\<lparr>sp_line_buffer := last (split_lf (concat pieces))\<rparr>))"
proof -
  obtain l ls where "split_lf (concat pieces) = l # ls" using split_lf_nonempty by (meson list.exhaust)
  then show ?thesis
    using push_chars_lines [of "concat pieces" parser_default]
    by (cases "ls = []") (simp_all add: feed_concat parser_default_def)
qed

text \<open>C20. A parsed patch can be applied without a panic: every update in it has chunks, each with lines
  on some side and context lines that are in order and equal on both sides; and on any file, in both
  modes, applying them ends with new contents or an error.\<close>

theorem parsed_updates_apply:
  assumes "parse_patch patch = Inr args" and "UpdateFile file move_path chunks \<in> set (pa_hunks args)"
  shows "chunks \<noteq> [] \<and> (\<forall>ch\<in>set chunks. chunk_ok ch \<and> \<not> no_lines ch)
    \<and> (\<exists>out. derive_new_contents_from_chunks read path chunks mode = Some out)"
proof -
  have ok: "chunks \<noteq> [] \<and> (\<forall>ch\<in>set chunks. chunk_ok ch \<and> \<not> no_lines ch)"
    using parse_patch_hunks_ok assms by (force simp: parse_patch_def)
  then have "\<forall>ch\<in>set chunks. ctx_ok 0 0 (ch_context_line_indices ch)" by (simp add: chunk_ok_def)
  from new_contents_total [OF this] obtain out where "\<And>original. \<exists>out. new_contents original path chunks mode = Some out"
    by blast
  then have "\<exists>out. derive_new_contents_from_chunks read path chunks mode = Some out"
    by (cases read) (force simp: derive_new_contents_from_chunks_def)+
  with ok show ?thesis by blast
qed

theorem parsed_updates_apply_witness:
  "\<exists>out. derive_new_contents_from_chunks (Inr (''a'' @ [lf] @ ''b'' @ [lf])) ''f''
     [first_chunk ''x'', second_chunk ''y''] PreserveLineEndings = Some out"
proof -
  have "UpdateFile ''f'' None [first_chunk ''x'', second_chunk ''y''] \<in> set (pa_hunks sample_args)"
    by (simp add: sample_args_def)
  from parsed_updates_apply [OF parse_sample this] show ?thesis by blast
qed

text \<open>With LF normalization an end-of-file chunk is searched from the end of the file, wherever the
  chunk before it ended, so the two may overlap, and then the later edit is lost without an error: after
  a chunk that replaces both lines of a file, whatever a second chunk for its last line puts there is
  not in the result. With preserved line endings the same patch is refused.\<close>

theorem overlapping_edit_is_lost:
  assumes "x \<noteq> []"
  shows "new_contents (''a'' @ [lf] @ ''b'' @ [lf]) path [first_chunk x, second_chunk y] NormalizeToLf
      = Some (Inr (x @ [lf]))
    \<and> (\<exists>err. new_contents (''a'' @ [lf] @ ''b'' @ [lf]) path [first_chunk x, second_chunk y]
        PreserveLineEndings = Some (Inl err))"
proof -
  have seek1: "seek_sequence [''a'', ''b''] [''a'', ''b''] 0 False m = Some 0" for m
    by (cases m) code_simp+
  have seek2: "seek_sequence [''a'', ''b''] [''b''] (Suc (Suc 0)) True NormalizeToLf = Some 1"
    "seek_sequence [''a'', ''b''] [''b''] (Suc (Suc 0)) True PreserveLineEndings = None"
    by code_simp+
  have src: "source_parse [CHR ''a'', lf, CHR ''b'', lf] =
      \<lparr>sf_lines = [\<lparr>sl_text = ''a'', sl_ending = Some Lf\<rparr>, \<lparr>sl_text = ''b'', sl_ending = Some Lf\<rparr>],
       sf_preferred = Lf\<rparr>"
    by code_simp
  have lf_mode: "compute_replacements [''a'', ''b''] path [first_chunk x, second_chunk y] NormalizeToLf
      = Some (Inr [(0, 2, [x]), (1, 1, [y])])"
    by (simp add: compute_replacements_def chunk_step_def locate_chunk_def chunk_replacements_def
        first_chunk_def second_chunk_def chunk_default_def seek1 seek2)
  have "\<exists>err. compute_replacements [''a'', ''b''] path [first_chunk x, second_chunk y] PreserveLineEndings
      = Some (Inl err)"
    by (simp add: compute_replacements_def chunk_step_def locate_chunk_def chunk_replacements_def
        first_chunk_def second_chunk_def chunk_default_def seek1 seek2 last_is_empty_def)
  then show ?thesis
    using assms
    by (auto simp: new_contents_def src line_texts_def lf_mode last_is_empty_def
        apply_replacements_def numeral_2_eq_2 split: sum.splits)
qed

theorem overlapping_edit_is_lost_witness:
  "(case parse_patch sample_patch of
      Inr args \<Rightarrow> pa_hunks args = [UpdateFile ''f'' None [first_chunk ''x'', second_chunk ''y'']]
    | Inl _ \<Rightarrow> False)
   \<and> new_contents (''a'' @ [lf] @ ''b'' @ [lf]) ''f'' [first_chunk ''x'', second_chunk ''y''] NormalizeToLf
     = Some (Inr (''x'' @ [lf]))"
proof -
  have "''x'' \<noteq> []" by simp
  from overlapping_edit_is_lost [OF this, of "''f''" "''y''"] show ?thesis
    by (simp add: parse_sample sample_args_def)
qed

end
