(* ===== verification/Exec_Files.thy ===== *)
theory Exec_Files
  imports Files "HOL-Library.AList"
begin

text \<open>
  The file system that patches are applied to: the trait \<open>ExecutorFileSystem\<close> of
  \<open>file-system/src/lib.rs\<close> as a record of operations over a world, and its implementation
  \<open>DirectFileSystem\<close> of \<open>exec-server/src/local_file_system.rs\<close> over a disk, with symbolic links followed
  and without a sandbox context (the path of a \<open>PathUri\<close> is the path itself). The disk has files,
  directories and no symbolic links, and a schedule of faults: any operation may fail, and a failed write
  may have written a part.
\<close>

datatype io_kind = NotFound | InvalidInput | InvalidData | OtherKind

record exec_error =
  ee_kind :: io_kind
  ee_text :: string

record file_metadata =
  fm_is_directory :: bool
  fm_is_file :: bool
  fm_is_symlink :: bool
  fm_size :: nat

record 'w efs =
  ef_get_metadata :: "path \<Rightarrow> 'w \<Rightarrow> (exec_error + file_metadata) \<times> 'w"
  ef_read_file_text :: "path \<Rightarrow> 'w \<Rightarrow> (exec_error + string) \<times> 'w"
  ef_write_file :: "path \<Rightarrow> string \<Rightarrow> 'w \<Rightarrow> (exec_error + unit) \<times> 'w"
  ef_create_directory :: "path \<Rightarrow> 'w \<Rightarrow> (exec_error + unit) \<times> 'w"
  ef_remove :: "path \<Rightarrow> 'w \<Rightarrow> (exec_error + unit) \<times> 'w"

subsection \<open>UTF-8\<close>

text \<open>What \<open>String::from_utf8\<close> accepts: the well-formed byte sequences of the Unicode standard.\<close>

definition byte_in :: "nat \<Rightarrow> nat \<Rightarrow> char \<Rightarrow> bool" where
  "byte_in lo hi c \<longleftrightarrow> lo \<le> of_char c \<and> of_char c \<le> hi"

fun utf8_valid :: "string \<Rightarrow> bool" where
  "utf8_valid [] = True"
| "utf8_valid (a # s) =
     (if byte_in 0 127 a then utf8_valid s
      else case s of
        b # t \<Rightarrow>
          if byte_in 194 223 a then byte_in 128 191 b \<and> utf8_valid t
          else (case t of
            c # u \<Rightarrow>
              if byte_in 224 239 a
              then byte_in (if a = CHR 0xE0 then 160 else 128) (if a = CHR 0xED then 159 else 191) b
                \<and> byte_in 128 191 c \<and> utf8_valid u
              else (case u of
                d # v \<Rightarrow>
                  byte_in 240 244 a
                    \<and> byte_in (if a = CHR 0xF0 then 144 else 128) (if a = CHR 0xF4 then 143 else 191) b
                    \<and> byte_in 128 191 c \<and> byte_in 128 191 d \<and> utf8_valid v
              | [] \<Rightarrow> False)
          | [] \<Rightarrow> False)
      | [] \<Rightarrow> False)"

subsection \<open>The disk\<close>

datatype disk_node = FileNode string | DirNode

record disk =
  dk_nodes :: "(path \<times> disk_node) list"
  dk_ops :: nat
  dk_fault :: "nat \<Rightarrow> nat option"

definition disk_at :: "disk \<Rightarrow> path \<Rightarrow> disk_node option" where
  "disk_at d p = map_of (dk_nodes d) p"

definition disk_put :: "path \<Rightarrow> disk_node \<Rightarrow> disk \<Rightarrow> disk" where
  "disk_put p n d = d\<lparr>dk_nodes := AList.update p n (dk_nodes d)\<rparr>"

definition disk_drop :: "path \<Rightarrow> disk \<Rightarrow> disk" where
  "disk_drop p d = d\<lparr>dk_nodes := AList.delete p (dk_nodes d)\<rparr>"

definition disk_files :: "disk \<Rightarrow> path \<Rightarrow> string option" where
  "disk_files d p = (case disk_at d p of Some (FileNode c) \<Rightarrow> Some c | _ \<Rightarrow> None)"

definition other_error :: exec_error where
  "other_error = \<lparr>ee_kind = OtherKind, ee_text = ''input/output error''\<rparr>"

definition not_found_error :: exec_error where
  "not_found_error = \<lparr>ee_kind = NotFound, ee_text = ''entity not found''\<rparr>"

definition disk_tick :: "disk \<Rightarrow> disk" where
  "disk_tick d = d\<lparr>dk_ops := Suc (dk_ops d)\<rparr>"

definition disk_fault :: "disk \<Rightarrow> nat option" where
  "disk_fault d = dk_fault d (dk_ops d)"

text \<open>The parent of an absolute path: none for the root.\<close>

definition parent_path :: "path \<Rightarrow> path option" where
  "parent_path p =
     (if path_file_name p = [] then None
      else (let d = path_dir_prefix p in if d = ''/'' then Some d else Some (butlast d)))"

fun ancestors_upto :: "nat \<Rightarrow> path \<Rightarrow> path list" where
  "ancestors_upto 0 p = [p]"
| "ancestors_upto (Suc n) p = p # (case parent_path p of None \<Rightarrow> [] | Some q \<Rightarrow> ancestors_upto n q)"

definition ancestors :: "path \<Rightarrow> path list" where
  "ancestors p = ancestors_upto (length p) p"

definition MAX_READ_FILE_BYTES :: int where
  "MAX_READ_FILE_BYTES = 512 * 1024 * 1024"

definition file_too_large_error :: exec_error where
  "file_too_large_error = \<lparr>ee_kind = InvalidInput,
     ee_text = ''file is too large to read: limit is '' @ int_to_string MAX_READ_FILE_BYTES @ '' bytes''\<rparr>"

definition direct_get_metadata :: "path \<Rightarrow> disk \<Rightarrow> (exec_error + file_metadata) \<times> disk" where
  "direct_get_metadata p d =
     (case disk_fault d of
        Some _ \<Rightarrow> (Inl other_error, disk_tick d)
      | None \<Rightarrow>
          (case disk_at d p of
             Some DirNode \<Rightarrow>
               Inr \<lparr>fm_is_directory = True, fm_is_file = False, fm_is_symlink = False, fm_size = 0\<rparr>
           | Some (FileNode c) \<Rightarrow>
               Inr \<lparr>fm_is_directory = False, fm_is_file = True, fm_is_symlink = False, fm_size = length c\<rparr>
           | None \<Rightarrow> Inl not_found_error, disk_tick d))"

definition direct_read_file :: "path \<Rightarrow> disk \<Rightarrow> (exec_error + string) \<times> disk" where
  "direct_read_file p d =
     (case disk_fault d of
        Some _ \<Rightarrow> (Inl other_error, disk_tick d)
      | None \<Rightarrow>
          (case disk_at d p of
             Some DirNode \<Rightarrow>
               Inl \<lparr>ee_kind = InvalidInput, ee_text = ''path `'' @ p @ ''` is not a file''\<rparr>
           | None \<Rightarrow> Inl not_found_error
           | Some (FileNode c) \<Rightarrow>
               if MAX_READ_FILE_BYTES < int (length c) then Inl file_too_large_error else Inr c, disk_tick d))"

definition direct_read_file_text :: "path \<Rightarrow> disk \<Rightarrow> (exec_error + string) \<times> disk" where
  "direct_read_file_text p d =
     (let (r, d) = direct_read_file p d
      in (result_bind r (\<lambda>bytes.
            if utf8_valid bytes then Inr bytes
            else Inl \<lparr>ee_kind = InvalidData, ee_text = ''invalid utf-8 sequence''\<rparr>), d))"

text \<open>\<open>tokio::fs::write\<close>: create or truncate, then write all; the two are separate operations.\<close>

definition direct_write_file :: "path \<Rightarrow> string \<Rightarrow> disk \<Rightarrow> (exec_error + unit) \<times> disk" where
  "direct_write_file p bytes d =
     (case disk_fault d of
        Some _ \<Rightarrow> (Inl other_error, disk_tick d)
      | None \<Rightarrow>
          if disk_at d p = Some DirNode then (Inl other_error, disk_tick d)
          else if (case parent_path p of None \<Rightarrow> False | Some q \<Rightarrow> disk_at d q = None)
          then (Inl not_found_error, disk_tick d)
          else if (case parent_path p of None \<Rightarrow> False | Some q \<Rightarrow> disk_at d q \<noteq> Some DirNode)
          then (Inl other_error, disk_tick d)
          else
            (let d = disk_put p (FileNode []) (disk_tick d)
             in case disk_fault d of
                  Some k \<Rightarrow> (Inl other_error, disk_put p (FileNode (take k bytes)) (disk_tick d))
                | None \<Rightarrow> (Inr (), disk_put p (FileNode bytes) (disk_tick d))))"

text \<open>\<open>tokio::fs::create_dir_all\<close>: it fails at a file on the way.\<close>

definition direct_create_directory :: "path \<Rightarrow> disk \<Rightarrow> (exec_error + unit) \<times> disk" where
  "direct_create_directory p d =
     (case disk_fault d of
        Some _ \<Rightarrow> (Inl other_error, disk_tick d)
      | None \<Rightarrow>
          if list_ex (\<lambda>q. disk_files d q \<noteq> None) (ancestors p) then (Inl other_error, disk_tick d)
          else (Inr (), fold (\<lambda>q. disk_put q DirNode) (ancestors p) (disk_tick d)))"

text \<open>\<open>remove\<close> with \<open>recursive\<close> and \<open>force\<close> off: a directory goes only when it is empty.\<close>

definition direct_remove :: "path \<Rightarrow> disk \<Rightarrow> (exec_error + unit) \<times> disk" where
  "direct_remove p d =
     (case disk_fault d of
        Some _ \<Rightarrow> (Inl other_error, disk_tick d)
      | None \<Rightarrow>
          (case disk_at d p of
             None \<Rightarrow> (Inl not_found_error, disk_tick d)
           | Some DirNode \<Rightarrow>
               if list_ex (\<lambda>(q, _). parent_path q = Some p) (dk_nodes d) then (Inl other_error, disk_tick d)
               else (Inr (), disk_drop p (disk_tick d))
           | Some (FileNode _) \<Rightarrow> (Inr (), disk_drop p (disk_tick d))))"

definition direct_fs :: "disk efs" where
  "direct_fs = \<lparr>ef_get_metadata = direct_get_metadata, ef_read_file_text = direct_read_file_text,
     ef_write_file = direct_write_file, ef_create_directory = direct_create_directory,
     ef_remove = direct_remove\<rparr>"

subsection \<open>The contract\<close>

text \<open>What the code that applies patches relies on. \<open>files\<close> is the text each path holds: reading and
  asking do not change it, a read gives it, a success of an operation is its effect, and a failed
  operation leaves the other paths alone.\<close>

locale text_files =
  fixes fs :: "'w efs" and files :: "'w \<Rightarrow> path \<Rightarrow> string option"
  assumes metadata_files [simp]: "files (snd (ef_get_metadata fs p w)) = files w"
    and read_files [simp]: "files (snd (ef_read_file_text fs p w)) = files w"
    and read_text: "fst (ef_read_file_text fs p w) = Inr c \<Longrightarrow> files w p = Some c"
    and read_missing:
      "fst (ef_read_file_text fs p w) = Inl e \<Longrightarrow> ee_kind e = NotFound \<Longrightarrow> files w p = None"
    and write_done: "fst (ef_write_file fs p c w) = Inr () \<Longrightarrow>
      files (snd (ef_write_file fs p c w)) = (files w)(p \<mapsto> c)"
    and write_failed: "fst (ef_write_file fs p c w) = Inl e \<Longrightarrow> q \<noteq> p \<Longrightarrow>
      files (snd (ef_write_file fs p c w)) q = files w q"
    and directory_files [simp]: "files (snd (ef_create_directory fs p w)) = files w"
    and remove_done: "fst (ef_remove fs p w) = Inr () \<Longrightarrow>
      files (snd (ef_remove fs p w)) = (files w)(p := None)"
    and remove_failed: "fst (ef_remove fs p w) = Inl e \<Longrightarrow> q \<noteq> p \<Longrightarrow>
      files (snd (ef_remove fs p w)) q = files w q"

lemma disk_files_simps [simp]:
  "disk_files (disk_tick d) = disk_files d"
  "disk_files (disk_put p (FileNode c) d) = (disk_files d)(p \<mapsto> c)"
  "disk_files (disk_put p DirNode d) = (disk_files d)(p := None)"
  "disk_files (disk_drop p d) = (disk_files d)(p := None)"
  by (auto simp: fun_eq_iff disk_files_def disk_at_def disk_tick_def disk_put_def disk_drop_def
      update_conv' delete_conv')

lemma disk_files_dirs:
  "\<forall>q\<in>set qs. disk_files d q = None \<Longrightarrow> disk_files (fold (\<lambda>q. disk_put q DirNode) qs d) = disk_files d"
proof (induction qs arbitrary: d)
  case (Cons q qs)
  then have "disk_files (disk_put q DirNode d) = disk_files d" by (simp add: fun_upd_idem)
  with Cons show ?case by simp
qed simp

interpretation direct: text_files direct_fs disk_files
proof unfold_locales
  fix p c d e
  show "fst (ef_read_file_text direct_fs p d) = Inr c \<Longrightarrow> disk_files d p = Some c"
    by (auto simp: direct_fs_def direct_read_file_text_def direct_read_file_def disk_files_def
        split: option.splits disk_node.splits if_splits)
  show "fst (ef_read_file_text direct_fs p d) = Inl e \<Longrightarrow> ee_kind e = NotFound \<Longrightarrow> disk_files d p = None"
    by (auto simp: direct_fs_def direct_read_file_text_def direct_read_file_def disk_files_def other_error_def
        file_too_large_error_def split: option.splits disk_node.splits if_splits)
  show "disk_files (snd (ef_create_directory direct_fs p d)) = disk_files d"
    by (auto simp: direct_fs_def direct_create_directory_def disk_files_dirs list_ex_iff split: option.splits)
qed (auto simp: direct_fs_def direct_get_metadata_def direct_read_file_text_def direct_read_file_def
      direct_write_file_def direct_remove_def Let_def split: option.splits disk_node.splits if_splits)

end
