(* ===== verification/Patch_Apply.thy ===== *)
theory Patch_Apply
  imports Patch_Parser Exec_Files
begin

text \<open>
  Carrying out the hunks of a patch, from \<open>apply-patch/src/lib.rs\<close>: the file system is any
  \<open>ExecutorFileSystem\<close>, \<open>resolve\<close> is \<open>cwd.join\<close> (a path or its error), \<open>native\<close> the spelling of a path in
  messages and \<open>parent\<close> the parent of a path. The delta lists the changes that were committed, and says
  whether that list is exact. \<open>None\<close> is a panic.
\<close>

record apply_patch_options =
  op_update_file_mode :: update_mode
  op_follow_symlinks :: bool

definition options_default :: apply_patch_options where
  "options_default = \<lparr>op_update_file_mode = update_mode_default, op_follow_symlinks = True\<rparr>"

definition update_mode_from_env :: "string option \<Rightarrow> update_mode" where
  "update_mode_from_env var = (if var = Some ''1'' then PreserveLineEndings else NormalizeToLf)"

datatype applied_file_change =
    ChangeAdd string "string option"
  | ChangeDelete string
  | ChangeUpdate "path option" string "string option" string

record applied_change =
  ac_path :: path
  ac_change :: applied_file_change

record applied_delta =
  ad_changes :: "applied_change list"
  ad_exact :: bool

definition delta_empty :: applied_delta where
  "delta_empty = \<lparr>ad_changes = [], ad_exact = True\<rparr>"

definition delta_append :: "applied_delta \<Rightarrow> applied_delta \<Rightarrow> applied_delta" where
  "delta_append d e = \<lparr>ad_changes = ad_changes d @ ad_changes e, ad_exact = (ad_exact d \<and> ad_exact e)\<rparr>"

definition push_change :: "path \<Rightarrow> applied_file_change \<Rightarrow> applied_delta \<Rightarrow> applied_delta" where
  "push_change p c d = d\<lparr>ad_changes := ad_changes d @ [\<lparr>ac_path = p, ac_change = c\<rparr>]\<rparr>"

definition and_exact :: "bool \<Rightarrow> applied_delta \<Rightarrow> applied_delta" where
  "and_exact b d = d\<lparr>ad_exact := (ad_exact d \<and> b)\<rparr>"

datatype apply_error =
    NoFilesModified
  | PathUriError string
  | IoContext string exec_error
  | ComputeFailed string

record path_lib =
  pl_resolve :: "path \<Rightarrow> string + path"
  pl_native :: "path \<Rightarrow> string"
  pl_parent :: "path \<Rightarrow> path option"

record affected_paths =
  af_added :: "path list"
  af_modified :: "path list"
  af_deleted :: "path list"

datatype affected = Added path | Modified path | Deleted path

subsection \<open>Helpers\<close>

definition ensure_not_directory :: "'w efs \<Rightarrow> path \<Rightarrow> 'w \<Rightarrow> (exec_error + unit) \<times> 'w" where
  "ensure_not_directory fs p w =
     (case ef_get_metadata fs p w of
        (Inl err, w) \<Rightarrow> (Inl err, w)
      | (Inr m, w) \<Rightarrow>
          (if fm_is_directory m then Inl \<lparr>ee_kind = InvalidInput, ee_text = ''path is a directory''\<rparr>
           else Inr (), w))"

definition remove_failure_was_side_effect_free ::
  "'w efs \<Rightarrow> path \<Rightarrow> string option \<Rightarrow> 'w \<Rightarrow> bool \<times> 'w" where
  "remove_failure_was_side_effect_free fs p expected w =
     (case expected of
        None \<Rightarrow> (False, w)
      | Some c \<Rightarrow> (let (r, w) = ef_read_file_text fs p w in (r = Inr c, w)))"

definition note_existing_path_delta_support ::
  "'w efs \<Rightarrow> path \<Rightarrow> applied_delta \<Rightarrow> 'w \<Rightarrow> applied_delta \<times> 'w" where
  "note_existing_path_delta_support fs p d w =
     (case ef_get_metadata fs p w of
        (Inr m, w) \<Rightarrow> (and_exact (fm_is_file m \<and> \<not> fm_is_symlink m) d, w)
      | (Inl e, w) \<Rightarrow> (and_exact (ee_kind e = NotFound) d, w))"

definition read_optional_file_text_for_delta ::
  "'w efs \<Rightarrow> path \<Rightarrow> applied_delta \<Rightarrow> 'w \<Rightarrow> string option \<times> applied_delta \<times> 'w" where
  "read_optional_file_text_for_delta fs p d w =
     (let (d, w) = note_existing_path_delta_support fs p d w
      in case ef_read_file_text fs p w of
           (Inr c, w) \<Rightarrow> (Some c, d, w)
         | (Inl e, w) \<Rightarrow> (None, and_exact (ee_kind e = NotFound) d, w))"

definition write_failure :: "path_lib \<Rightarrow> path \<Rightarrow> exec_error \<Rightarrow> apply_error" where
  "write_failure pl p e = IoContext (''Failed to write file '' @ pl_native pl p) e"

definition write_file_with_missing_parent_retry ::
  "path_lib \<Rightarrow> 'w efs \<Rightarrow> path \<Rightarrow> string \<Rightarrow> 'w \<Rightarrow> (apply_error + unit) \<times> 'w" where
  "write_file_with_missing_parent_retry pl fs p bytes w =
     (case ef_write_file fs p bytes w of
        (Inr _, w) \<Rightarrow> (Inr (), w)
      | (Inl e, w) \<Rightarrow>
          if ee_kind e = NotFound
          then
            (case (case pl_parent pl p of None \<Rightarrow> (Inr (), w) | Some q \<Rightarrow> ef_create_directory fs q w) of
               (Inl e, w) \<Rightarrow>
                 (Inl (IoContext (''Failed to create parent directories for '' @ pl_native pl p) e), w)
             | (Inr _, w) \<Rightarrow>
                 (let (r, w) = ef_write_file fs p bytes w in (map_err (write_failure pl p) r, w)))
          else (Inl (write_failure pl p e), w))"

subsection \<open>Hunks\<close>

text \<open>Removing a path after the check that it is no directory, with the expected content for the
  judgement on a failed removal.\<close>

definition remove_checked ::
  "'w efs \<Rightarrow> string \<Rightarrow> path \<Rightarrow> string option \<Rightarrow> applied_delta \<Rightarrow> 'w
     \<Rightarrow> apply_error option \<times> applied_delta \<times> 'w" where
  "remove_checked fs context p expected d w =
     (case ensure_not_directory fs p w of
        (Inl e, w) \<Rightarrow> (Some (IoContext context e), d, w)
      | (Inr _, w) \<Rightarrow>
          (case ef_remove fs p w of
             (Inr _, w) \<Rightarrow> (None, d, w)
           | (Inl e, w) \<Rightarrow>
               (let (ok, w) = remove_failure_was_side_effect_free fs p expected w
                in (Some (IoContext context e), and_exact ok d, w))))"

definition apply_add_hunk ::
  "path_lib \<Rightarrow> 'w efs \<Rightarrow> path \<Rightarrow> path \<Rightarrow> string \<Rightarrow> applied_delta \<Rightarrow> 'w
     \<Rightarrow> (apply_error + affected) \<times> applied_delta \<times> 'w" where
  "apply_add_hunk pl fs shown p bytes d w =
     (let (overwritten, d, w) = read_optional_file_text_for_delta fs p d w
      in case write_file_with_missing_parent_retry pl fs p bytes w of
           (Inl err, w) \<Rightarrow> (Inl err, and_exact False d, w)
         | (Inr _, w) \<Rightarrow> (Inr (Added shown), push_change p (ChangeAdd bytes overwritten) d, w))"

definition apply_delete_hunk ::
  "path_lib \<Rightarrow> 'w efs \<Rightarrow> path \<Rightarrow> path \<Rightarrow> applied_delta \<Rightarrow> 'w
     \<Rightarrow> (apply_error + affected) \<times> applied_delta \<times> 'w" where
  "apply_delete_hunk pl fs shown p d w =
     (let (d, w) = note_existing_path_delta_support fs p d w;
          (r, w) = ef_read_file_text fs p w;
          deleted_content = (case r of Inr c \<Rightarrow> Some c | Inl _ \<Rightarrow> None);
          d = and_exact (deleted_content \<noteq> None) d
      in case remove_checked fs (''Failed to delete file '' @ pl_native pl p) p deleted_content d w of
           (Some err, d, w) \<Rightarrow> (Inl err, d, w)
         | (None, d, w) \<Rightarrow>
             (Inr (Deleted shown),
              (case deleted_content of Some c \<Rightarrow> push_change p (ChangeDelete c) d | None \<Rightarrow> d), w))"

definition apply_move ::
  "path_lib \<Rightarrow> 'w efs \<Rightarrow> path \<Rightarrow> path \<Rightarrow> path \<Rightarrow> string \<Rightarrow> string \<Rightarrow> applied_delta \<Rightarrow> 'w
     \<Rightarrow> (apply_error + affected) \<times> applied_delta \<times> 'w" where
  "apply_move pl fs shown p dest original updated d w =
     (let (overwritten, d, w) = read_optional_file_text_for_delta fs dest d w
      in case write_file_with_missing_parent_retry pl fs dest updated w of
           (Inl err, w) \<Rightarrow> (Inl err, and_exact False d, w)
         | (Inr _, w) \<Rightarrow>
             (case remove_checked fs (''Failed to remove original '' @ pl_native pl p) p (Some original)
                     (push_change dest (ChangeAdd updated overwritten) d) w of
                (Some err, d, w) \<Rightarrow> (Inl err, d, w)
              | (None, d', w) \<Rightarrow>
                  (Inr (Modified shown),
                   push_change p (ChangeUpdate (Some dest) original overwritten updated) d, w)))"

definition apply_update_hunk ::
  "path_lib \<Rightarrow> 'w efs \<Rightarrow> update_mode \<Rightarrow> path \<Rightarrow> path \<Rightarrow> path option \<Rightarrow> update_file_chunk list
     \<Rightarrow> applied_delta \<Rightarrow> 'w \<Rightarrow> ((apply_error + affected) \<times> applied_delta \<times> 'w) option" where
  "apply_update_hunk pl fs mode shown p move_path chunks d w =
     (let (d, w) = note_existing_path_delta_support fs p d w;
          (r, w) = ef_read_file_text fs p w
      in case derive_new_contents_from_chunks (map_err ee_text r) (pl_native pl p) chunks mode of
           None \<Rightarrow> None
         | Some (Inl (UpdateIo context _)) \<Rightarrow>
             Some (Inl (IoContext context (case r of Inl e \<Rightarrow> e | Inr _ \<Rightarrow> other_error)), d, w)
         | Some (Inl (ComputeReplacements m)) \<Rightarrow> Some (Inl (ComputeFailed m), d, w)
         | Some (Inr applied) \<Rightarrow>
             (case move_path of
                Some dest \<Rightarrow>
                  (case pl_resolve pl dest of
                     Inl err \<Rightarrow> Some (Inl (PathUriError err), d, w)
                   | Inr dest_uri \<Rightarrow>
                       Some (apply_move pl fs shown p dest_uri (ap_original_contents applied)
                         (ap_new_contents applied) d w))
              | None \<Rightarrow>
                  Some (case ef_write_file fs p (ap_new_contents applied) w of
                          (Inl e, w) \<Rightarrow> (Inl (write_failure pl p e), and_exact False d, w)
                        | (Inr _, w) \<Rightarrow>
                            (Inr (Modified shown),
                             push_change p (ChangeUpdate None (ap_original_contents applied) None
                               (ap_new_contents applied)) d, w))))"

fun hunk_source :: "hunk \<Rightarrow> path" where
  "hunk_source (AddFile p bytes) = p"
| "hunk_source (DeleteFile p) = p"
| "hunk_source (UpdateFile p move_path chunks) = p"

definition apply_hunk ::
  "path_lib \<Rightarrow> 'w efs \<Rightarrow> update_mode \<Rightarrow> hunk \<Rightarrow> applied_delta \<Rightarrow> 'w
     \<Rightarrow> ((apply_error + affected) \<times> applied_delta \<times> 'w) option" where
  "apply_hunk pl fs mode h d w =
     (case pl_resolve pl (hunk_source h) of
        Inl err \<Rightarrow> Some (Inl (PathUriError err), d, w)
      | Inr p \<Rightarrow>
          (case h of
             AddFile _ bytes \<Rightarrow> Some (apply_add_hunk pl fs (hunk_path h) p bytes d w)
           | DeleteFile _ \<Rightarrow> Some (apply_delete_hunk pl fs (hunk_path h) p d w)
           | UpdateFile _ move_path chunks \<Rightarrow>
               apply_update_hunk pl fs mode (hunk_path h) p move_path chunks d w))"

fun note_affected :: "affected \<Rightarrow> affected_paths \<Rightarrow> affected_paths" where
  "note_affected (Added p) a = a\<lparr>af_added := af_added a @ [p]\<rparr>"
| "note_affected (Modified p) a = a\<lparr>af_modified := af_modified a @ [p]\<rparr>"
| "note_affected (Deleted p) a = a\<lparr>af_deleted := af_deleted a @ [p]\<rparr>"

fun apply_hunk_loop ::
  "path_lib \<Rightarrow> 'w efs \<Rightarrow> update_mode \<Rightarrow> hunk list \<Rightarrow> affected_paths \<Rightarrow> applied_delta \<Rightarrow> 'w
     \<Rightarrow> ((apply_error + affected_paths) \<times> applied_delta \<times> 'w) option" where
  "apply_hunk_loop pl fs mode [] a d w = Some (Inr a, d, w)"
| "apply_hunk_loop pl fs mode (h # hs) a d w =
     (case apply_hunk pl fs mode h d w of
        None \<Rightarrow> None
      | Some (Inl err, d, w) \<Rightarrow> Some (Inl err, d, w)
      | Some (Inr aff, d, w) \<Rightarrow> apply_hunk_loop pl fs mode hs (note_affected aff a) d w)"

definition apply_hunks_to_files ::
  "path_lib \<Rightarrow> 'w efs \<Rightarrow> update_mode \<Rightarrow> hunk list \<Rightarrow> applied_delta \<Rightarrow> 'w
     \<Rightarrow> ((apply_error + affected_paths) \<times> applied_delta \<times> 'w) option" where
  "apply_hunks_to_files pl fs mode hunks d w =
     (if hunks = [] then Some (Inl NoFilesModified, d, w)
      else apply_hunk_loop pl fs mode hunks \<lparr>af_added = [], af_modified = [], af_deleted = []\<rparr> d w)"

subsection \<open>Whole patches\<close>

definition print_summary :: "affected_paths \<Rightarrow> string" where
  "print_summary a =
     concat (map (\<lambda>l. l @ [lf])
       (''Success. Updated the following files:'' # map (\<lambda>p. ''A '' @ p) (af_added a)
         @ map (\<lambda>p. ''M '' @ p) (af_modified a) @ map (\<lambda>p. ''D '' @ p) (af_deleted a)))"

datatype patch_failure =
    OutputFailed exec_error applied_delta
  | ParseFailed parse_error
  | ApplyFailed apply_error applied_delta

text \<open>\<open>stdout\<close> and \<open>stderr\<close> say whether writing to that stream fails.\<close>

definition apply_hunks_with_options ::
  "path_lib \<Rightarrow> 'w efs \<Rightarrow> exec_error option \<Rightarrow> exec_error option \<Rightarrow> apply_patch_options \<Rightarrow> hunk list \<Rightarrow> 'w
     \<Rightarrow> ((patch_failure + applied_delta) \<times> 'w) option" where
  "apply_hunks_with_options pl fs stdout stderr options hunks w =
     map_option (\<lambda>(r, d, w).
       (case r of
          Inr a \<Rightarrow> (case stdout of None \<Rightarrow> Inr d | Some e \<Rightarrow> Inl (OutputFailed e d))
        | Inl err \<Rightarrow>
            (case stderr of None \<Rightarrow> Inl (ApplyFailed err d) | Some e \<Rightarrow> Inl (OutputFailed e d)), w))
       (apply_hunks_to_files pl fs (op_update_file_mode options) hunks delta_empty w)"

definition apply_patch_with_options ::
  "path_lib \<Rightarrow> 'w efs \<Rightarrow> exec_error option \<Rightarrow> exec_error option \<Rightarrow> apply_patch_options \<Rightarrow> string \<Rightarrow> 'w
     \<Rightarrow> ((patch_failure + applied_delta) \<times> 'w) option" where
  "apply_patch_with_options pl fs stdout stderr options patch w =
     (case parse_patch patch of
        Inr source \<Rightarrow> apply_hunks_with_options pl fs stdout stderr options (pa_hunks source) w
      | Inl e \<Rightarrow>
          Some (Inl (case stderr of
                       None \<Rightarrow> ParseFailed e
                     | Some io \<Rightarrow> OutputFailed io delta_empty), w))"

fun failure_delta :: "patch_failure \<Rightarrow> applied_delta" where
  "failure_delta (OutputFailed _ d) = d"
| "failure_delta (ParseFailed _) = delta_empty"
| "failure_delta (ApplyFailed _ d) = d"

subsection \<open>What a delta says\<close>

text \<open>The effect of a committed change on the texts of paths, and whether what it says of the texts
  before is right.\<close>

fun replay_change :: "path \<Rightarrow> applied_file_change \<Rightarrow> (path \<Rightarrow> string option) \<Rightarrow> path \<Rightarrow> string option" where
  "replay_change p (ChangeAdd c _) f = f(p \<mapsto> c)"
| "replay_change p (ChangeDelete _) f = f(p := None)"
| "replay_change p (ChangeUpdate None _ _ c) f = f(p \<mapsto> c)"
| "replay_change p (ChangeUpdate (Some dest) _ _ c) f = f(dest \<mapsto> c, p := None)"

fun change_fits :: "path \<Rightarrow> applied_file_change \<Rightarrow> (path \<Rightarrow> string option) \<Rightarrow> bool" where
  "change_fits p (ChangeAdd _ overwritten) f \<longleftrightarrow> f p = overwritten"
| "change_fits p (ChangeDelete c) f \<longleftrightarrow> f p = Some c"
| "change_fits p (ChangeUpdate None old _ _) f \<longleftrightarrow> f p = Some old"
| "change_fits p (ChangeUpdate (Some dest) old overwritten _) f \<longleftrightarrow>
     f p = Some old \<and> f dest = overwritten \<and> dest \<noteq> p"

fun explains :: "(path \<Rightarrow> string option) \<Rightarrow> applied_change list \<Rightarrow> (path \<Rightarrow> string option) \<Rightarrow> bool" where
  "explains f [] g \<longleftrightarrow> g = f"
| "explains f (c # cs) g \<longleftrightarrow>
     change_fits (ac_path c) (ac_change c) f \<and> explains (replay_change (ac_path c) (ac_change c) f) cs g"

lemma explains_append: "explains f cs g \<Longrightarrow> explains g ds h \<Longrightarrow> explains f (cs @ ds) h"
  by (induction f cs g rule: explains.induct) auto

text \<open>A delta that is exact explains what happened since an earlier one.\<close>

definition delta_step ::
  "applied_delta \<Rightarrow> (path \<Rightarrow> string option) \<Rightarrow> applied_delta \<Rightarrow> (path \<Rightarrow> string option) \<Rightarrow> bool" where
  "delta_step d f d' f' \<longleftrightarrow>
     (ad_exact d' \<longrightarrow> ad_exact d \<and> (\<exists>cs. ad_changes d' = ad_changes d @ cs \<and> explains f cs f'))"

lemma delta_step_refl [simp]: "delta_step d f d f"
  by (simp add: delta_step_def exI [of _ "[]"])

lemma delta_step_trans: "delta_step d f e g \<Longrightarrow> delta_step e g e' h \<Longrightarrow> delta_step d f e' h"
  unfolding delta_step_def using explains_append by fastforce

lemma delta_step_and_exact: "(b \<Longrightarrow> delta_step d f e g) \<Longrightarrow> delta_step d f (and_exact b e) g"
  by (cases b) (simp_all add: delta_step_def and_exact_def)

lemma delta_step_push:
  "change_fits p c f \<Longrightarrow> g = replay_change p c f \<Longrightarrow> delta_step d f (push_change p c d) g"
  by (auto simp: delta_step_def push_change_def)

lemma delta_stepI: "(ad_exact e \<Longrightarrow> delta_step d f e g) \<Longrightarrow> delta_step d f e g"
  by (simp add: delta_step_def)

lemma exact_simps [simp]:
  "ad_exact (push_change p c d) = ad_exact d" "ad_exact (and_exact b d) \<longleftrightarrow> ad_exact d \<and> b"
  by (simp_all add: push_change_def and_exact_def)

definition self_move :: "path_lib \<Rightarrow> hunk \<Rightarrow> bool" where
  "self_move pl h \<longleftrightarrow>
     (case h of
        UpdateFile p (Some dest) _ \<Rightarrow>
          (case (pl_resolve pl p, pl_resolve pl dest) of (Inr q, Inr r) \<Rightarrow> q = r | _ \<Rightarrow> False)
      | _ \<Rightarrow> False)"

lemma derive_original:
  assumes "derive_new_contents_from_chunks read p chunks mode = Some (Inr applied)"
  shows "read = Inr (ap_original_contents applied)"
proof (cases read)
  case (Inr c)
  obtain z where z: "new_contents c p chunks mode = Some z"
    using assms Inr by (auto simp: derive_new_contents_from_chunks_def)
  show ?thesis using assms Inr z by (cases z) (auto simp: derive_new_contents_from_chunks_def)
qed (use assms in \<open>simp add: derive_new_contents_from_chunks_def\<close>)

context text_files
begin

lemma same_files:
  "ef_get_metadata fs p w = (m, w') \<Longrightarrow> files w' = files w"
  "ef_read_file_text fs p w = (t, w') \<Longrightarrow> files w' = files w"
  "ef_create_directory fs p w = (u, w') \<Longrightarrow> files w' = files w"
  using metadata_files [of p w] read_files [of p w] directory_files [of p w] by simp_all

lemma note_step:
  assumes "note_existing_path_delta_support fs p d w = (d', w')"
  shows "files w' = files w \<and> delta_step d f d' f"
  using assms
  by (auto simp: note_existing_path_delta_support_def same_files(1) intro!: delta_step_and_exact
      split: prod.splits sum.splits)

lemma read_optional_step:
  assumes "read_optional_file_text_for_delta fs p d w = (ov, d', w')"
  shows "files w' = files w \<and> delta_step d f d' f \<and> (ad_exact d' \<longrightarrow> files w p = ov)"
proof -
  obtain d1 w1 where n: "note_existing_path_delta_support fs p d w = (d1, w1)" by fastforce
  obtain r w2 where r: "ef_read_file_text fs p w1 = (r, w2)" by fastforce
  have n': "files w1 = files w" "delta_step d f d1 f" using note_step [OF n] by auto
  have w2: "files w2 = files w1" using same_files(2) [OF r] .
  show ?thesis
  proof (cases r)
    case (Inr c)
    then show ?thesis
      using assms n r n' w2 read_text [of p w1 c] by (simp add: read_optional_file_text_for_delta_def)
  next
    case (Inl e)
    then have eq: "ov = None" "d' = and_exact (ee_kind e = NotFound) d1" "w' = w2"
      using assms n r by (simp_all add: read_optional_file_text_for_delta_def)
    have "ad_exact d' \<longrightarrow> files w p = None"
      using read_missing [of p w1 e] r Inl n'(1) by (auto simp: eq and_exact_def)
    then show ?thesis using eq n' w2 delta_step_and_exact [of "ee_kind e = NotFound" d f d1 f] by simp
  qed
qed

lemma write_retry_done:
  assumes "write_file_with_missing_parent_retry pl fs p c w = (Inr (), w')"
  shows "files w' = (files w)(p \<mapsto> c)"
proof -
  obtain r w1 where r: "ef_write_file fs p c w = (r, w1)" by fastforce
  show ?thesis
  proof (cases r)
    case (Inr u)
    then show ?thesis
      using assms r write_done [of p c w] by (simp add: write_file_with_missing_parent_retry_def)
  next
    case (Inl e)
    have same: "q \<noteq> p \<Longrightarrow> files w1 q = files w q" for q using write_failed [of p c w e q] r Inl by simp
    define mk where "mk = (case pl_parent pl p of None \<Rightarrow> (Inr (), w1) | Some q \<Rightarrow> ef_create_directory fs q w1)"
    obtain m w2 where m: "mk = (m, w2)" by fastforce
    have w2: "files w2 = files w1"
      using m by (auto simp: mk_def same_files(3) split: option.splits)
    obtain s w3 where s: "ef_write_file fs p c w2 = (s, w3)" by fastforce
    have "ee_kind e = NotFound" "m = Inr ()" "s = Inr ()" "w' = w3"
      using assms r Inl m s
      by (auto simp: write_file_with_missing_parent_retry_def mk_def [symmetric] split: if_splits sum.splits)
    then have "files w' = (files w2)(p \<mapsto> c)" using write_done [of p c w2] s by simp
    then show ?thesis using w2 same by (auto simp: fun_eq_iff)
  qed
qed

lemma ensure_files: "ensure_not_directory fs p w = (e, w') \<Longrightarrow> files w' = files w"
  by (auto simp: ensure_not_directory_def same_files(1) split: prod.splits sum.splits)

lemma remove_checked_step:
  assumes "remove_checked fs context p expected d w = (r, d', w')"
  shows "(r = None \<longrightarrow> d' = d \<and> files w' = (files w)(p := None))
    \<and> (r \<noteq> None \<longrightarrow> (ad_exact d' \<longrightarrow> files w' = files w \<or> files w' = (files w)(p := expected))
        \<and> (\<exists>b. d' = and_exact b d))"
proof -
  obtain e w1 where e: "ensure_not_directory fs p w = (e, w1)" by fastforce
  have w1: "files w1 = files w" using ensure_files [OF e] .
  obtain s w2 where s: "ef_remove fs p w1 = (s, w2)" by fastforce
  have same: "d = and_exact True d" by (simp add: and_exact_def)
  show ?thesis
  proof (cases e)
    case (Inl err)
    then show ?thesis using assms e w1 same by (auto simp: remove_checked_def)
  next
    case (Inr u)
    show ?thesis
    proof (cases s)
      case Inr': (Inr u')
      then show ?thesis
        using assms e s Inr w1 remove_done [of p w1] by (auto simp: remove_checked_def)
    next
      case (Inl err)
      obtain ok w3 where k: "remove_failure_was_side_effect_free fs p expected w2 = (ok, w3)" by fastforce
      have eq: "r = Some (IoContext context err)" "d' = and_exact ok d" "w' = w3"
        using assms e s Inr Inl k by (auto simp: remove_checked_def)
      have "files w3 = (files w)(p := expected)" if holds: "ok"
      proof -
        obtain c where c: "expected = Some c"
          using k holds by (cases expected) (simp_all add: remove_failure_was_side_effect_free_def)
        then have t: "ef_read_file_text fs p w2 = (Inr c, w3)"
          using k holds by (cases "ef_read_file_text fs p w2") (simp add: remove_failure_was_side_effect_free_def)
        have "files w3 = files w2" "files w2 p = Some c"
          using same_files(2) [OF t] read_text [of p w2 c] t by simp_all
        then show ?thesis
          using remove_failed [of p w1 err] s Inl w1 c by (auto simp: fun_eq_iff)
      qed
      then show ?thesis using eq by (auto simp: and_exact_def)
    qed
  qed
qed

lemma add_hunk_step:
  assumes "apply_add_hunk pl fs shown p c d w = (r, d', w')"
  shows "delta_step d (files w) d' (files w')"
proof -
  obtain ov d1 w1 where o: "read_optional_file_text_for_delta fs p d w = (ov, d1, w1)" by (metis prod_cases3)
  obtain u w2 where u: "write_file_with_missing_parent_retry pl fs p c w1 = (u, w2)" by fastforce
  note step = read_optional_step [OF o, of "files w"]
  show ?thesis
  proof (cases u)
    case (Inl err)
    then have "d' = and_exact False d1" using assms o u by (simp add: apply_add_hunk_def)
    then show ?thesis by (simp add: delta_step_def and_exact_def)
  next
    case (Inr v)
    then have eq: "d' = push_change p (ChangeAdd c ov) d1" "w' = w2"
      using assms o u by (simp_all add: apply_add_hunk_def)
    have w2: "files w2 = (files w)(p \<mapsto> c)" using write_retry_done u Inr step by simp
    show ?thesis
    proof (rule delta_stepI)
      assume "ad_exact d'"
      then have "files w p = ov" using step eq by simp
      then have "delta_step d1 (files w) d' (files w2)" unfolding eq w2 by (intro delta_step_push) simp_all
      then show "delta_step d (files w) d' (files w')" using step delta_step_trans eq by blast
    qed
  qed
qed

lemma delete_hunk_step:
  assumes "apply_delete_hunk pl fs shown p d w = (r, d', w')"
  shows "delta_step d (files w) d' (files w')"
proof (rule delta_stepI)
  assume ex: "ad_exact d'"
  obtain d1 w1 where n: "note_existing_path_delta_support fs p d w = (d1, w1)" by fastforce
  obtain t w2 where t: "ef_read_file_text fs p w1 = (t, w2)" by fastforce
  define content where "content = (case t of Inr c \<Rightarrow> Some c | Inl _ \<Rightarrow> None)"
  define d2 where "d2 = and_exact (content \<noteq> None) d1"
  obtain q d3 w3 where q: "remove_checked fs (''Failed to delete file '' @ pl_native pl p) p content d2 w2 = (q, d3, w3)"
    by (metis prod_cases3)
  have fw: "files w2 = files w" "delta_step d (files w) d1 (files w)"
    using note_step [OF n] same_files(2) [OF t] by auto
  note rem = remove_checked_step [OF q]
  have eq: "w' = w3" "d' = (case q of Some _ \<Rightarrow> d3 | None \<Rightarrow> (case content of Some c \<Rightarrow> push_change p (ChangeDelete c) d3 | None \<Rightarrow> d3))"
    using assms n t q by (auto simp: apply_delete_hunk_def content_def d2_def split: option.splits)
  have "ad_exact d2" using ex eq(2) rem by (auto split: option.splits)
  then obtain c where c: "content = Some c" "d2 = d1" by (auto simp: d2_def and_exact_def)
  then have p: "files w p = Some c"
    using t read_text [of p w1 c] fw(1) same_files(2) [OF t] by (auto simp: content_def split: sum.splits)
  show "delta_step d (files w) d' (files w')"
  proof (cases q)
    case None
    then have "d' = push_change p (ChangeDelete c) d1" "files w' = (files w)(p := None)"
      using eq c rem fw(1) by simp_all
    then have "delta_step d1 (files w) d' (files w')" using p by (simp add: delta_step_push)
    then show ?thesis using fw(2) delta_step_trans by blast
  next
    case (Some err)
    then have "d' = d3" "files w3 = files w" using rem ex eq c p fw(1) by (auto simp: fun_upd_idem)
    moreover obtain b where "d3 = and_exact b d1" using rem Some c by auto
    ultimately show ?thesis using eq fw(2) ex by (auto intro: delta_step_and_exact)
  qed
qed

lemma move_step:
  assumes "apply_move pl fs shown p dest original updated d w = (r, d', w')"
    and "files w p = Some original" and "dest \<noteq> p"
  shows "delta_step d (files w) d' (files w')"
proof (rule delta_stepI)
  assume ex: "ad_exact d'"
  obtain ov d1 w1 where o: "read_optional_file_text_for_delta fs dest d w = (ov, d1, w1)" by (metis prod_cases3)
  obtain u w2 where u: "write_file_with_missing_parent_retry pl fs dest updated w1 = (u, w2)" by fastforce
  define d2 where "d2 = push_change dest (ChangeAdd updated ov) d1"
  obtain q d3 w3 where q: "remove_checked fs (''Failed to remove original '' @ pl_native pl p) p (Some original) d2 w2 = (q, d3, w3)"
    by (metis prod_cases3)
  note step = read_optional_step [OF o, of "files w"] and rem = remove_checked_step [OF q]
  obtain v where v: "u = Inr v" using assms(1) o u ex by (cases u) (auto simp: apply_move_def)
  have w2: "files w2 = (files w)(dest \<mapsto> updated)" using write_retry_done u v step by simp
  show "delta_step d (files w) d' (files w')"
  proof (cases q)
    case None
    then have eq: "d' = push_change p (ChangeUpdate (Some dest) original ov updated) d1" "w' = w3"
      using assms(1) o u v q by (simp_all add: apply_move_def d2_def)
    have "files w dest = ov" using step ex eq(1) by simp
    then have "delta_step d1 (files w) d' (files w')"
      unfolding eq using rem None w2 assms(2,3) by (intro delta_step_push) simp_all
    then show ?thesis using step delta_step_trans by blast
  next
    case (Some err)
    then have eq: "d' = d3" "w' = w3" using assms(1) o u v q by (simp_all add: apply_move_def d2_def)
    obtain b where b: "d3 = and_exact b d2" using rem Some by auto
    have "files w3 = files w2" using rem Some ex eq w2 assms(2,3) by (auto simp: fun_upd_idem)
    moreover have "files w dest = ov" using step ex eq b by (simp add: d2_def)
    then have "delta_step d1 (files w) d2 (files w2)" unfolding d2_def w2 by (intro delta_step_push) simp_all
    then have "delta_step d (files w) d2 (files w2)" using step delta_step_trans by blast
    ultimately show ?thesis using eq b by (simp add: delta_step_and_exact)
  qed
qed

lemma update_hunk_step:
  assumes "apply_update_hunk pl fs mode shown p move_path chunks d w = Some (r, d', w')"
    and "\<And>dest. move_path = Some dest \<Longrightarrow> pl_resolve pl dest \<noteq> Inr p"
  shows "delta_step d (files w) d' (files w')"
proof -
  obtain d1 w1 where n: "note_existing_path_delta_support fs p d w = (d1, w1)" by fastforce
  obtain t w2 where t: "ef_read_file_text fs p w1 = (t, w2)" by fastforce
  have fw: "files w1 = files w" "files w2 = files w" "delta_step d (files w) d1 (files w)"
    using note_step [OF n] same_files(2) [OF t] by auto
  obtain out where out: "derive_new_contents_from_chunks (map_err ee_text t) (pl_native pl p) chunks mode = Some out"
    using assms(1) n t by (auto simp: apply_update_hunk_def split: option.splits)
  show ?thesis
  proof (cases "\<exists>applied. out = Inr applied \<and> (move_path = None \<or> (\<exists>dest q. move_path = Some dest \<and> pl_resolve pl dest = Inr q))")
    case False
    then have "d' = d1" "w' = w2"
      using assms(1) n t out
      by (auto simp: apply_update_hunk_def split: sum.splits option.splits update_error.splits)
    then show ?thesis using fw by simp
  next
    case True
    then obtain applied where a: "out = Inr applied" by blast
    obtain original where t': "t = Inr original" "ap_original_contents applied = original"
      using derive_original [of "map_err ee_text t"] out a by (cases t) auto
    have p: "files w p = Some original" "files w2 p = Some original"
      using read_text [of p w1 original] t t' fw by simp_all
    show ?thesis
    proof (cases move_path)
      case (Some dest)
      with True obtain q where q: "pl_resolve pl dest = Inr q" by auto
      have "apply_move pl fs shown p q original (ap_new_contents applied) d1 w2 = (r, d', w')"
        using assms(1) n t out a Some q t' by (simp add: apply_update_hunk_def)
      from move_step [OF this p(2)] have "delta_step d1 (files w) d' (files w')"
        using assms(2) [OF Some] q fw by auto
      then show ?thesis using fw(3) delta_step_trans by blast
    next
      case None
      obtain u w3 where u: "ef_write_file fs p (ap_new_contents applied) w2 = (u, w3)" by fastforce
      show ?thesis
      proof (cases u)
        case (Inl e)
        then have "d' = and_exact False d1" using assms(1) n t out a None u by (simp add: apply_update_hunk_def)
        then show ?thesis by (simp add: delta_step_def)
      next
        case (Inr v)
        then have "d' = push_change p (ChangeUpdate None original None (ap_new_contents applied)) d1" "w' = w3"
          using assms(1) n t out a None u t' by (simp_all add: apply_update_hunk_def)
        moreover have "files w3 = (files w)(p \<mapsto> ap_new_contents applied)"
          using write_done [of p "ap_new_contents applied" w2] u Inr fw by simp
        ultimately have "delta_step d1 (files w) d' (files w')" using p by (simp add: delta_step_push)
        then show ?thesis using fw(3) delta_step_trans by blast
      qed
    qed
  qed
qed

lemma apply_hunk_step:
  assumes "apply_hunk pl fs mode h d w = Some (r, d', w')" and "\<not> self_move pl h"
  shows "delta_step d (files w) d' (files w')"
proof (cases "pl_resolve pl (hunk_source h)")
  case (Inl err)
  then show ?thesis using assms(1) by (simp add: apply_hunk_def)
next
  case (Inr p)
  show ?thesis
  proof (cases h)
    case (AddFile f c)
    then show ?thesis using assms(1) Inr by (auto simp: apply_hunk_def intro: add_hunk_step)
  next
    case (DeleteFile f)
    then show ?thesis using assms(1) Inr by (auto simp: apply_hunk_def intro: delete_hunk_step)
  next
    case (UpdateFile f mv chunks)
    have "pl_resolve pl dest \<noteq> Inr p" if "mv = Some dest" for dest
      using assms(2) Inr UpdateFile that by (auto simp: self_move_def split: sum.splits)
    then show ?thesis
      using assms(1) Inr UpdateFile by (auto simp: apply_hunk_def intro: update_hunk_step)
  qed
qed

lemma apply_hunk_loop_step:
  assumes "apply_hunk_loop pl fs mode hs a d w = Some (r, d', w')" and "\<forall>h\<in>set hs. \<not> self_move pl h"
  shows "delta_step d (files w) d' (files w')"
  using assms
proof (induction hs arbitrary: a d w)
  case (Cons h hs)
  obtain r1 d1 w1 where h: "apply_hunk pl fs mode h d w = Some (r1, d1, w1)"
    using Cons.prems(1) by (auto split: option.splits)
  have step: "delta_step d (files w) d1 (files w1)" using apply_hunk_step [OF h] Cons.prems(2) by simp
  show ?case
  proof (cases r1)
    case (Inl err)
    then show ?thesis using Cons.prems(1) h step by simp
  next
    case (Inr aff)
    then have "delta_step d1 (files w1) d' (files w')" using Cons.IH Cons.prems h by simp
    then show ?thesis using step delta_step_trans by blast
  qed
qed simp

end

subsection \<open>A parsed patch never panics\<close>

lemma apply_update_hunk_total:
  assumes "\<forall>ch\<in>set chunks. chunk_ok ch"
  shows "apply_update_hunk pl fs mode shown p mv chunks d w \<noteq> None"
proof -
  obtain d1 w1 where n: "note_existing_path_delta_support fs p d w = (d1, w1)" by fastforce
  obtain t w2 where t: "ef_read_file_text fs p w1 = (t, w2)" by fastforce
  have "\<exists>out. new_contents original (pl_native pl p) chunks mode = Some out" for original
    using new_contents_total assms by (simp add: chunk_ok_def)
  then obtain out where "derive_new_contents_from_chunks (map_err ee_text t) (pl_native pl p) chunks mode = Some out"
    by (cases t) (force simp: derive_new_contents_from_chunks_def)+
  then show ?thesis
    using n t
    by (auto simp: apply_update_hunk_def simp del: not_None_eq
        split: sum.splits option.splits update_error.splits)
qed

lemma apply_hunk_loop_total:
  "\<forall>h\<in>set hs. hunk_ok h \<Longrightarrow> \<exists>out. apply_hunk_loop pl fs mode hs a d w = Some out"
proof (induction hs arbitrary: a d w)
  case (Cons h hs)
  have "apply_hunk pl fs mode h d w \<noteq> None"
    using Cons.prems by (cases h) (simp_all add: apply_hunk_def apply_update_hunk_total del: not_None_eq split: sum.split)
  then obtain r d' w' where h: "apply_hunk pl fs mode h d w = Some (r, d', w')"
    by (metis not_Some_eq prod_cases3)
  show ?case using h Cons by (cases r) auto
qed simp

end
