(* ===== verification/Diff_Tracker.thy ===== *)
theory Diff_Tracker
  imports Patch_Apply "HOL-Library.Char_ord" "HOL-Library.List_Lexorder"
begin

text \<open>
  The net diff of a turn, from \<open>core/src/turn_diff_tracker.rs\<close>, with the attempts of the patch tool that
  feed it (\<open>core/src/tools/runtimes/apply_patch.rs\<close>, \<open>core/src/tools/events.rs\<close>). A hash map is an
  association list in some order. Paths relative to a root, native spellings, object ids and the diff of
  two texts come from other crates and are the record \<open>diff_lib\<close>.
\<close>

type_synonym tracked_path = "string \<times> path"

record tracked_content =
  tk_content :: string
  tk_revision :: nat

record diff_cache_key =
  ck_left_path :: tracked_path
  ck_left_revision :: "nat option"
  ck_right_path :: tracked_path
  ck_right_revision :: "nat option"

record diff_lib =
  dl_relative :: "path \<Rightarrow> path \<Rightarrow> string option"
  dl_native :: "path \<Rightarrow> string"
  dl_oid :: "string \<Rightarrow> string"
  dl_unified :: "string \<Rightarrow> string \<Rightarrow> string \<Rightarrow> string \<Rightarrow> string"

record turn_diff_tracker =
  td_valid :: bool
  td_roots :: "(string \<times> path) list"
  td_baseline :: "(tracked_path \<times> tracked_content) list"
  td_current :: "(tracked_path \<times> tracked_content) list"
  td_origin :: "(tracked_path \<times> tracked_path) list"
  td_next_revision :: nat
  td_rendered :: "(diff_cache_key \<times> string option) list"
  td_unified_diff :: "string option"

definition tracker_new :: turn_diff_tracker where
  "tracker_new = \<lparr>td_valid = True, td_roots = [], td_baseline = [], td_current = [], td_origin = [],
     td_next_revision = 0, td_rendered = [], td_unified_diff = None\<rparr>"

definition with_environment_display_roots :: "(string \<times> path) list \<Rightarrow> turn_diff_tracker" where
  "with_environment_display_roots roots = tracker_new\<lparr>td_roots := roots\<rparr>"

definition invalidate :: "turn_diff_tracker \<Rightarrow> turn_diff_tracker" where
  "invalidate t = t\<lparr>td_valid := False, td_rendered := [], td_unified_diff := None\<rparr>"

subsection \<open>Changes\<close>

text \<open>\<open>tracked_content\<close> gives the text a fresh revision.\<close>

definition set_baseline :: "tracked_path \<Rightarrow> string \<Rightarrow> turn_diff_tracker \<Rightarrow> turn_diff_tracker" where
  "set_baseline p c t = t\<lparr>td_next_revision := td_next_revision t + 1,
     td_baseline := AList.update p \<lparr>tk_content = c, tk_revision = td_next_revision t\<rparr> (td_baseline t)\<rparr>"

definition set_current :: "tracked_path \<Rightarrow> string \<Rightarrow> turn_diff_tracker \<Rightarrow> turn_diff_tracker" where
  "set_current p c t = t\<lparr>td_next_revision := td_next_revision t + 1,
     td_current := AList.update p \<lparr>tk_content = c, tk_revision = td_next_revision t\<rparr> (td_current t)\<rparr>"

definition drop_current :: "tracked_path \<Rightarrow> turn_diff_tracker \<Rightarrow> turn_diff_tracker" where
  "drop_current p t = t\<lparr>td_current := AList.delete p (td_current t)\<rparr>"

definition drop_origin :: "tracked_path \<Rightarrow> turn_diff_tracker \<Rightarrow> turn_diff_tracker" where
  "drop_origin p t = t\<lparr>td_origin := AList.delete p (td_origin t)\<rparr>"

definition untracked :: "tracked_path \<Rightarrow> turn_diff_tracker \<Rightarrow> bool" where
  "untracked p t \<longleftrightarrow> map_of (td_current t) p = None \<and> map_of (td_baseline t) p = None"

definition note_baseline :: "tracked_path \<Rightarrow> string option \<Rightarrow> turn_diff_tracker \<Rightarrow> turn_diff_tracker" where
  "note_baseline p before t =
     (case before of
        Some c \<Rightarrow> if untracked p t then set_baseline p c t else t
      | None \<Rightarrow> t)"

definition apply_add ::
  "tracked_path \<Rightarrow> string \<Rightarrow> string option \<Rightarrow> turn_diff_tracker \<Rightarrow> turn_diff_tracker" where
  "apply_add p c overwritten t = set_current p c (note_baseline p overwritten (drop_origin p t))"

definition apply_delete :: "tracked_path \<Rightarrow> string \<Rightarrow> turn_diff_tracker \<Rightarrow> turn_diff_tracker" where
  "apply_delete p c t =
     drop_origin p
       (if untracked p t then set_baseline p c (drop_current p t) else drop_current p t)"

definition apply_update ::
  "tracked_path \<Rightarrow> tracked_path option \<Rightarrow> string \<Rightarrow> string option \<Rightarrow> string \<Rightarrow> turn_diff_tracker
     \<Rightarrow> turn_diff_tracker" where
  "apply_update source move_path old overwritten_move c t =
     (let t = note_baseline source (Some old) t
      in case move_path of
           None \<Rightarrow> set_current source c t
         | Some dest \<Rightarrow>
             (let t = note_baseline dest overwritten_move t;
                  origin = (case map_of (td_origin t) source of Some first \<Rightarrow> first | None \<Rightarrow> source);
                  t = drop_origin dest (set_current dest c (drop_current source (drop_origin source t)))
              in if dest \<noteq> origin then t\<lparr>td_origin := AList.update dest origin (td_origin t)\<rparr> else t))"

fun apply_change :: "string \<Rightarrow> path \<Rightarrow> applied_file_change \<Rightarrow> turn_diff_tracker \<Rightarrow> turn_diff_tracker" where
  "apply_change env p (ChangeAdd c overwritten) t = apply_add (env, p) c overwritten t"
| "apply_change env p (ChangeDelete c) t = apply_delete (env, p) c t"
| "apply_change env p (ChangeUpdate move_path old overwritten c) t =
     apply_update (env, p) (map_option (\<lambda>dest. (env, dest)) move_path) old overwritten c t"

subsection \<open>The diff\<close>

definition rename_pairs :: "turn_diff_tracker \<Rightarrow> (tracked_path \<times> tracked_path) list" where
  "rename_pairs t =
     fold (\<lambda>(dest, origin) ps.
       if dest = origin \<or> map_of (td_current t) origin \<noteq> None \<or> map_of (td_current t) dest = None
          \<or> map_of (td_baseline t) origin = None \<or> map_of (td_baseline t) dest \<noteq> None
       then ps else AList.update origin dest ps) (td_origin t) []"

definition display_path :: "diff_lib \<Rightarrow> turn_diff_tracker \<Rightarrow> tracked_path \<Rightarrow> string" where
  "display_path lib t p =
     (let display =
        (case Option.bind (map_of (td_roots t) (fst p)) (\<lambda>root. dl_relative lib (snd p) root) of
           Some s \<Rightarrow> s
         | None \<Rightarrow> dl_native lib (snd p))
      in if 1 < length (td_roots t) \<and> fst p \<noteq> [] then fst p @ ''/'' @ display else display)"

definition ZERO_OID :: string where "ZERO_OID = replicate 40 (CHR ''0'')"
definition DEV_NULL :: string where "DEV_NULL = ''/dev/null''"
definition REGULAR_FILE_MODE :: string where "REGULAR_FILE_MODE = ''100644''"

definition slashes :: "string \<Rightarrow> string" where
  "slashes s = map (\<lambda>c. if c = CHR 0x5C then CHR ''/'' else c) s"

definition render_diff ::
  "diff_lib \<Rightarrow> turn_diff_tracker \<Rightarrow> tracked_path \<Rightarrow> string option \<Rightarrow> tracked_path \<Rightarrow> string option
     \<Rightarrow> string option" where
  "render_diff lib t left_path left_content right_path right_content =
     (if left_content = right_content then None
      else
        (let left_display = slashes (display_path lib t left_path);
             right_display = slashes (display_path lib t right_path);
             oid = (\<lambda>c. case c of None \<Rightarrow> ZERO_OID | Some s \<Rightarrow> dl_oid lib s);
             old_header = (if left_content = None then DEV_NULL else ''a/'' @ left_display);
             new_header = (if right_content = None then DEV_NULL else ''b/'' @ right_display);
             body = (\<lambda>c. case c of None \<Rightarrow> [] | Some s \<Rightarrow> s)
         in Some (''diff --git a/'' @ left_display @ '' b/'' @ right_display @ [lf]
              @ (if left_content = None then ''new file mode '' @ REGULAR_FILE_MODE @ [lf]
                 else if right_content = None then ''deleted file mode '' @ REGULAR_FILE_MODE @ [lf]
                 else [])
              @ ''index '' @ oid left_content @ ''..'' @ oid right_content @ [lf]
              @ dl_unified lib (body left_content) (body right_content) old_header new_header)))"

definition push_diff :: "string option \<Rightarrow> string \<Rightarrow> string" where
  "push_diff rendered aggregated =
     (case rendered of
        None \<Rightarrow> aggregated
      | Some diff \<Rightarrow> (let a = aggregated @ diff in if ends_with a [lf] then a else a @ [lf]))"

definition cache_key ::
  "turn_diff_tracker \<Rightarrow> tracked_path \<Rightarrow> tracked_path \<Rightarrow> diff_cache_key" where
  "cache_key t l r = \<lparr>ck_left_path = l,
     ck_left_revision = map_option tk_revision (map_of (td_baseline t) l), ck_right_path = r,
     ck_right_revision = map_option tk_revision (map_of (td_current t) r)\<rparr>"

definition fresh_diff :: "diff_lib \<Rightarrow> turn_diff_tracker \<Rightarrow> tracked_path \<Rightarrow> tracked_path \<Rightarrow> string option" where
  "fresh_diff lib t l r =
     render_diff lib t l (map_option tk_content (map_of (td_baseline t) l))
       r (map_option tk_content (map_of (td_current t) r))"

fun refresh_loop ::
  "diff_lib \<Rightarrow> turn_diff_tracker \<Rightarrow> (tracked_path \<times> tracked_path) list \<Rightarrow> tracked_path list
     \<Rightarrow> tracked_path list \<Rightarrow> (diff_cache_key \<times> string option) list
     \<Rightarrow> (diff_cache_key \<times> string option) list \<Rightarrow> string
     \<Rightarrow> (diff_cache_key \<times> string option) list \<times> string" where
  "refresh_loop lib t pairs [] handled previous rendered aggregated = (rendered, aggregated)"
| "refresh_loop lib t pairs (path # paths) handled previous rendered aggregated =
     (if path \<in> set handled then refresh_loop lib t pairs paths handled previous rendered aggregated
      else if path \<in> set (map snd pairs)
      then refresh_loop lib t pairs paths (path # handled) previous rendered aggregated
      else
        (let (right, handled) =
           (case map_of pairs path of
              Some dest \<Rightarrow> (dest, dest # path # handled)
            | None \<Rightarrow> (path, path # handled));
             key = cache_key t path right;
             diff = (case map_of previous key of Some d \<Rightarrow> d | None \<Rightarrow> fresh_diff lib t path right)
         in refresh_loop lib t pairs paths handled (AList.delete key previous)
              (AList.update key diff rendered) (push_diff diff aggregated)))"

definition refresh_paths :: "diff_lib \<Rightarrow> turn_diff_tracker \<Rightarrow> tracked_path list" where
  "refresh_paths lib t =
     remdups_adj (sort_key (display_path lib t) (map fst (td_baseline t) @ map fst (td_current t)))"

definition refresh_unified_diff :: "diff_lib \<Rightarrow> turn_diff_tracker \<Rightarrow> turn_diff_tracker" where
  "refresh_unified_diff lib t =
     (let (rendered, aggregated) =
        refresh_loop lib t (rename_pairs t) (refresh_paths lib t) [] (td_rendered t) [] []
      in t\<lparr>td_rendered := rendered,
           td_unified_diff := (if aggregated = [] then None else Some aggregated)\<rparr>)"

definition track_delta :: "diff_lib \<Rightarrow> string \<Rightarrow> applied_delta \<Rightarrow> turn_diff_tracker \<Rightarrow> turn_diff_tracker" where
  "track_delta lib env delta t =
     (if \<not> td_valid t then t
      else if \<not> ad_exact delta then invalidate t
      else refresh_unified_diff lib
        (fold (\<lambda>c. apply_change env (ac_path c) (ac_change c)) (ad_changes delta) t))"

subsection \<open>The patch tool\<close>

text \<open>One attempt adds what it committed, whether it succeeds or not; an attempt that a sandbox denied is
  followed by another.\<close>

definition run_attempt ::
  "path_lib \<Rightarrow> 'w efs \<Rightarrow> apply_patch_options \<Rightarrow> string \<Rightarrow> applied_delta \<Rightarrow> 'w \<Rightarrow> (bool \<times> applied_delta \<times> 'w) option" where
  "run_attempt pl fs options patch committed w =
     map_option (\<lambda>(r, w).
       case r of
         Inr d \<Rightarrow> (True, delta_append committed d, w)
       | Inl failure \<Rightarrow> (False, delta_append committed (failure_delta failure), w))
       (apply_patch_with_options pl fs None None options patch w)"

text \<open>How a patch call can end, the stage of the call's last event that the end is mapped to, and what
  the stage does to the tracker.\<close>

record exec_output =
  eo_exit_code :: int
  eo_stdout :: string
  eo_stderr :: string

datatype tool_outcome =
    ToolOutput exec_output
  | SandboxTimeout exec_output
  | SandboxDenied exec_output
  | OtherError string
  | RejectedCall string

datatype tool_event_stage =
    StageSuccess exec_output "applied_delta option"
  | FailureOutput exec_output
  | FailureMessage string
  | FailureRejected string "applied_delta option"

datatype patch_apply_status = PatchCompleted | PatchFailed | PatchDeclined

datatype tracker_update =
    Track "string option" applied_delta
  | Invalidate
  | NoUpdate

definition tracker_update_for_known_delta :: "string option \<Rightarrow> applied_delta \<Rightarrow> tracker_update" where
  "tracker_update_for_known_delta env delta =
     (if ad_exact delta \<and> ad_changes delta = [] then NoUpdate else Track env delta)"

text \<open>The messages of \<open>OtherError\<close> and \<open>RejectedCall\<close> are those after formatting and truncation.\<close>

fun finish_stage :: "tool_outcome \<Rightarrow> applied_delta option \<Rightarrow> tool_event_stage" where
  "finish_stage (ToolOutput out) delta = StageSuccess out delta"
| "finish_stage (SandboxTimeout out) delta = FailureOutput out"
| "finish_stage (SandboxDenied out) delta =
     (case delta of Some d \<Rightarrow> StageSuccess out (Some d) | None \<Rightarrow> FailureOutput out)"
| "finish_stage (OtherError message) delta = FailureMessage message"
| "finish_stage (RejectedCall message) delta = FailureRejected message delta"

definition output_status :: "exec_output \<Rightarrow> patch_apply_status" where
  "output_status out = (if eo_exit_code out = 0 then PatchCompleted else PatchFailed)"

fun stage_end :: "string option \<Rightarrow> tool_event_stage \<Rightarrow> string \<times> string \<times> patch_apply_status \<times> tracker_update" where
  "stage_end env (StageSuccess out delta) =
     (eo_stdout out, eo_stderr out, output_status out,
      (case delta of Some d \<Rightarrow> tracker_update_for_known_delta env d | None \<Rightarrow> Invalidate))"
| "stage_end env (FailureOutput out) = (eo_stdout out, eo_stderr out, output_status out, Invalidate)"
| "stage_end env (FailureMessage message) = ([], message, PatchFailed, NoUpdate)"
| "stage_end env (FailureRejected message delta) =
     ([], message, PatchDeclined,
      (case delta of Some d \<Rightarrow> tracker_update_for_known_delta env d | None \<Rightarrow> NoUpdate))"

text \<open>The diff announced at the end of a patch, if any, and the tracker afterwards.\<close>

definition emit_patch_end ::
  "diff_lib \<Rightarrow> tracker_update \<Rightarrow> turn_diff_tracker \<Rightarrow> string option \<times> turn_diff_tracker" where
  "emit_patch_end lib update t =
     (let (changed, t') =
        (case update of
           Track env delta \<Rightarrow> (True, track_delta lib (case env of Some e \<Rightarrow> e | None \<Rightarrow> []) delta t)
         | Invalidate \<Rightarrow> (True, invalidate t)
         | NoUpdate \<Rightarrow> (False, t))
      in (if changed \<and> (td_unified_diff t \<noteq> None \<or> td_unified_diff t' \<noteq> None)
          then Some (case td_unified_diff t' of Some d \<Rightarrow> d | None \<Rightarrow> []) else None, t'))"

subsection \<open>The tracker knows the files\<close>

text \<open>\<open>before\<close> and \<open>now\<close> are the texts of all paths at the start of the turn and now.\<close>

fun path_known :: "tracked_content option \<Rightarrow> tracked_content option \<Rightarrow> string option \<Rightarrow> string option \<Rightarrow> bool" where
  "path_known None None before now \<longleftrightarrow> now = before"
| "path_known (Some b) None before now \<longleftrightarrow> before = Some (tk_content b) \<and> now = None"
| "path_known None (Some c) before now \<longleftrightarrow> before = None \<and> now = Some (tk_content c)"
| "path_known (Some b) (Some c) before now \<longleftrightarrow> before = Some (tk_content b) \<and> now = Some (tk_content c)"

definition knows ::
  "turn_diff_tracker \<Rightarrow> (tracked_path \<Rightarrow> string option) \<Rightarrow> (tracked_path \<Rightarrow> string option) \<Rightarrow> bool" where
  "knows t before now \<longleftrightarrow>
     (\<forall>p. path_known (map_of (td_baseline t) p) (map_of (td_current t) p) (before p) (now p))"

definition on_env ::
  "string \<Rightarrow> (path \<Rightarrow> string option) \<Rightarrow> (tracked_path \<Rightarrow> string option) \<Rightarrow> tracked_path \<Rightarrow> string option" where
  "on_env env f now = (\<lambda>p. if fst p = env then f (snd p) else now p)"

lemma tracker_maps [simp]:
  "map_of (td_baseline (set_baseline p c t)) =
     (map_of (td_baseline t))(p \<mapsto> \<lparr>tk_content = c, tk_revision = td_next_revision t\<rparr>)"
  "map_of (td_current (set_baseline p c t)) = map_of (td_current t)"
  "map_of (td_current (set_current p c t)) =
     (map_of (td_current t))(p \<mapsto> \<lparr>tk_content = c, tk_revision = td_next_revision t\<rparr>)"
  "map_of (td_baseline (set_current p c t)) = map_of (td_baseline t)"
  "map_of (td_current (drop_current p t)) = (map_of (td_current t))(p := None)"
  "td_baseline (drop_current p t) = td_baseline t"
  "td_baseline (drop_origin p t) = td_baseline t" "td_current (drop_origin p t) = td_current t"
  by (simp_all add: set_baseline_def set_current_def drop_current_def drop_origin_def update_conv' delete_conv')

lemma knows_drop_origin [simp]: "knows (drop_origin p t) = knows t"
  by (simp add: knows_def fun_eq_iff)

lemma knows_new [simp]: "knows tracker_new f f" "knows (tracker_new\<lparr>td_roots := r\<rparr>) f f"
  by (simp_all add: knows_def tracker_new_def)

lemma knowsD:
  "knows t before now \<Longrightarrow> path_known (map_of (td_baseline t) p) (map_of (td_current t) p) (before p) (now p)"
  by (simp add: knows_def del: split_paired_All)

text \<open>Between the steps of a change some paths are pending: their baseline is right, their current text
  is yet to be set.\<close>

definition knows_off ::
  "tracked_path set \<Rightarrow> turn_diff_tracker \<Rightarrow> (tracked_path \<Rightarrow> string option) \<Rightarrow> (tracked_path \<Rightarrow> string option) \<Rightarrow> bool" where
  "knows_off A t before now \<longleftrightarrow>
     (\<forall>p. if p \<in> A then map_option tk_content (map_of (td_baseline t) p) = before p
          else path_known (map_of (td_baseline t) p) (map_of (td_current t) p) (before p) (now p))"

lemma knows_off_empty: "knows_off {} = knows"
  by (simp add: fun_eq_iff knows_off_def knows_def)

lemma knows_offI:
  assumes "knows_off A t before now" and "\<And>q. q \<noteq> p \<Longrightarrow> map_of (td_baseline t') q = map_of (td_baseline t) q"
    and "\<And>q. q \<noteq> p \<Longrightarrow> map_of (td_current t') q = map_of (td_current t) q" and "\<And>q. q \<noteq> p \<Longrightarrow> now' q = now q"
    and "\<And>q. q \<noteq> p \<Longrightarrow> q \<in> B \<longleftrightarrow> q \<in> A"
    and "if p \<in> B then map_option tk_content (map_of (td_baseline t') p) = before p
          else path_known (map_of (td_baseline t') p) (map_of (td_current t') p) (before p) (now' p)"
  shows "knows_off B t' before now'"
  unfolding knows_off_def
proof
  fix q
  show "if q \<in> B then map_option tk_content (map_of (td_baseline t') q) = before q
    else path_known (map_of (td_baseline t') q) (map_of (td_current t') q) (before q) (now' q)"
  proof (cases "q = p")
    case False
    then show ?thesis
      using assms(1) [unfolded knows_off_def, rule_format, of q] assms(2-5) [OF False] by simp
  qed (use assms(6) in simp)
qed

lemma note_baseline_off:
  assumes "knows_off A t before now" and "now p = b" and "p \<notin> A"
  shows "knows_off (insert p A) (note_baseline p b t) before now"
proof -
  have "path_known (map_of (td_baseline t) p) (map_of (td_current t) p) (before p) (now p)"
    using assms(1) [unfolded knows_off_def, rule_format, of p] assms(3) by simp
  then have "map_option tk_content (map_of (td_baseline (note_baseline p b t)) p) = before p"
    using assms(2)
    by (cases "map_of (td_baseline t) p"; cases "map_of (td_current t) p")
      (auto simp: note_baseline_def untracked_def split: option.split)
  then show ?thesis
    by (intro knows_offI [OF assms(1), where p = p]) (auto simp: note_baseline_def split: option.split)
qed

lemma path_known_set:
  "map_option tk_content b = before \<Longrightarrow> path_known b c before (map_option tk_content c)"
  by (cases b; cases c) auto

lemma set_current_off:
  assumes "knows_off (insert p A) t before now" and "p \<notin> A"
  shows "knows_off A (set_current p c t) before (now(p \<mapsto> c))"
proof -
  have "map_option tk_content (map_of (td_baseline t) p) = before p"
    using assms(1) [unfolded knows_off_def, rule_format, of p] by simp
  from path_known_set [OF this, of "Some \<lparr>tk_content = c, tk_revision = td_next_revision t\<rparr>"] show ?thesis
    using assms(2) by (intro knows_offI [OF assms(1), where p = p]) auto
qed

lemma drop_current_off:
  assumes "knows_off (insert p A) t before now" and "p \<notin> A"
  shows "knows_off A (drop_current p t) before (now(p := None))"
proof -
  have "map_option tk_content (map_of (td_baseline t) p) = before p"
    using assms(1) [unfolded knows_off_def, rule_format, of p] by simp
  from path_known_set [OF this, of None] show ?thesis
    using assms(2) by (intro knows_offI [OF assms(1), where p = p]) auto
qed

lemma knows_off_cong:
  "map_of (td_baseline t') = map_of (td_baseline t) \<Longrightarrow> map_of (td_current t') = map_of (td_current t) \<Longrightarrow>
     knows_off A t' = knows_off A t"
  by (simp add: fun_eq_iff knows_off_def)

lemma drop_origin_off [simp]: "knows_off A (drop_origin p t) = knows_off A t"
  by (rule knows_off_cong) simp_all

lemma apply_add_knows:
  assumes "knows t before now" and "now p = overwritten"
  shows "knows (apply_add p c overwritten t) before (now(p \<mapsto> c))"
  using set_current_off [OF note_baseline_off [of "{}" "drop_origin p t" before now p overwritten]] assms
  by (simp add: apply_add_def knows_off_empty)

lemma apply_delete_knows:
  assumes "knows t before now" and "now p = Some c"
  shows "knows (apply_delete p c t) before (now(p := None))"
proof -
  have "knows_off {} (drop_current p (note_baseline p (Some c) t)) before (now(p := None))"
    using drop_current_off [OF note_baseline_off [of "{}" t before now p "Some c"]] assms by (simp add: knows_off_empty)
  then have "knows_off {} (apply_delete p c t) before (now(p := None))"
    by (subst knows_off_cong [of _ "drop_current p (note_baseline p (Some c) t)"])
      (simp_all add: apply_delete_def note_baseline_def set_baseline_def drop_current_def)
  then show ?thesis by (simp add: knows_off_empty)
qed

lemma apply_update_knows:
  assumes "knows t before now" and "now p = Some old"
  shows "knows (apply_update p None old ov c t) before (now(p \<mapsto> c))"
  using set_current_off [OF note_baseline_off [of "{}" t before now p "Some old"]] assms
  by (simp add: apply_update_def knows_off_empty)

lemma apply_move_knows:
  assumes "knows t before now" and "now p = Some old" and "now dest = ov" and "dest \<noteq> p"
  shows "knows (apply_update p (Some dest) old ov c t) before (now(dest \<mapsto> c, p := None))"
proof -
  define t2 where "t2 = note_baseline dest ov (note_baseline p (Some old) t)"
  have "knows_off {dest, p} t2 before now"
    using note_baseline_off [OF note_baseline_off [of "{}" t before now p "Some old"], of dest ov] assms
    by (simp add: t2_def knows_off_empty)
  then have "knows_off (insert p {dest}) (drop_origin p t2) before now" by (simp add: insert_commute)
  from drop_current_off [OF this] have "knows_off {dest} (drop_current p (drop_origin p t2)) before (now(p := None))"
    using assms(4) by simp
  from set_current_off [OF this, of c]
  have k: "knows_off {} (set_current dest c (drop_current p (drop_origin p t2))) before (now(p := None, dest \<mapsto> c))"
    by simp
  have "knows_off {} (apply_update p (Some dest) old ov c t) =
      knows_off {} (set_current dest c (drop_current p (drop_origin p t2)))"
    by (rule knows_off_cong) (simp_all add: apply_update_def Let_def t2_def)
  then show ?thesis using k fun_upd_twist [OF assms(4), of now "Some c" None] by (simp add: knows_off_empty)
qed

lemma apply_change_knows:
  assumes "knows t before now" and "change_fits p c (\<lambda>q. now (env, q))"
  shows "knows (apply_change env p c t) before (on_env env (replay_change p c (\<lambda>q. now (env, q))) now)"
proof -
  have upd: "on_env env ((\<lambda>q. now (env, q))(q := v)) now = now((env, q) := v)" for q v
    by (auto simp: on_env_def fun_eq_iff)
  have upd2: "on_env env ((\<lambda>q. now (env, q))(q := v, r := u)) now = now((env, q) := v, (env, r) := u)" for q v r u
    by (auto simp: on_env_def fun_eq_iff)
  show ?thesis
  proof (cases c)
    case (ChangeAdd b ov)
    then show ?thesis using assms by (simp add: upd apply_add_knows)
  next
    case (ChangeDelete b)
    then show ?thesis using assms by (simp add: upd apply_delete_knows)
  next
    case (ChangeUpdate mv old ov b)
    then show ?thesis
      using assms apply_update_knows [of t before now "(env, p)"] apply_move_knows [of t before now "(env, p)"]
      by (cases mv) (simp_all add: upd upd2)
  qed
qed

lemma on_env_twice: "on_env env f (on_env env g now) = on_env env f now"
  by (simp add: on_env_def fun_eq_iff)

lemma on_env_same: "on_env env (\<lambda>q. now (env, q)) now = now"
  by (auto simp: on_env_def fun_eq_iff)

lemma apply_changes_knows:
  assumes "explains f cs g" and "knows t before (on_env env f now)"
  shows "knows (fold (\<lambda>c. apply_change env (ac_path c) (ac_change c)) cs t) before (on_env env g now)"
  using assms
proof (induction f cs g arbitrary: t rule: explains.induct)
  case (2 f c cs g)
  have e: "(\<lambda>q. on_env env f now (env, q)) = f" by (simp add: on_env_def)
  have "knows (apply_change env (ac_path c) (ac_change c) t) before
      (on_env env (replay_change (ac_path c) (ac_change c) f) now)"
    using apply_change_knows [OF 2(3), of "ac_path c" "ac_change c" env] 2(2) by (simp add: e on_env_twice)
  then show ?case using 2 by simp
qed simp

subsection \<open>The cache of rendered diffs\<close>

text \<open>The reference: every pair of paths the walk visits is rendered anew.\<close>

fun diff_walk ::
  "(tracked_path \<times> tracked_path) list \<Rightarrow> tracked_path list \<Rightarrow> tracked_path list
     \<Rightarrow> (tracked_path \<times> tracked_path) list" where
  "diff_walk pairs [] handled = []"
| "diff_walk pairs (path # paths) handled =
     (if path \<in> set handled then diff_walk pairs paths handled
      else if path \<in> set (map snd pairs) then diff_walk pairs paths (path # handled)
      else case map_of pairs path of
             Some dest \<Rightarrow> (path, dest) # diff_walk pairs paths (dest # path # handled)
           | None \<Rightarrow> (path, path) # diff_walk pairs paths (path # handled))"

definition unified_reference :: "diff_lib \<Rightarrow> turn_diff_tracker \<Rightarrow> string option" where
  "unified_reference lib t =
     (let a = fold (\<lambda>(l, r). push_diff (fresh_diff lib t l r))
            (diff_walk (rename_pairs t) (refresh_paths lib t) []) []
      in if a = [] then None else Some a)"

text \<open>A revision stands for one text, and a cached diff is the diff of the texts its revisions stand
  for.\<close>

definition revisions_ok :: "(nat \<Rightarrow> string) \<Rightarrow> turn_diff_tracker \<Rightarrow> bool" where
  "revisions_ok txt_of t \<longleftrightarrow>
     (\<forall>p c. map_of (td_baseline t) p = Some c \<or> map_of (td_current t) p = Some c \<longrightarrow>
        txt_of (tk_revision c) = tk_content c \<and> tk_revision c < td_next_revision t)"

definition entry_ok :: "diff_lib \<Rightarrow> turn_diff_tracker \<Rightarrow> (nat \<Rightarrow> string) \<Rightarrow> diff_cache_key \<Rightarrow> string option \<Rightarrow> bool" where
  "entry_ok lib t txt_of k v \<longleftrightarrow>
     (\<forall>n. ck_left_revision k = Some n \<or> ck_right_revision k = Some n \<longrightarrow> n < td_next_revision t)
     \<and> v = render_diff lib t (ck_left_path k) (map_option txt_of (ck_left_revision k))
         (ck_right_path k) (map_option txt_of (ck_right_revision k))"

definition entries_ok ::
  "diff_lib \<Rightarrow> turn_diff_tracker \<Rightarrow> (nat \<Rightarrow> string) \<Rightarrow> (diff_cache_key \<times> string option) list \<Rightarrow> bool" where
  "entries_ok lib t txt_of m \<longleftrightarrow> (\<forall>k v. map_of m k = Some v \<longrightarrow> entry_ok lib t txt_of k v)"

definition cache_ok :: "diff_lib \<Rightarrow> turn_diff_tracker \<Rightarrow> bool" where
  "cache_ok lib t \<longleftrightarrow> (\<exists>txt_of. revisions_ok txt_of t \<and> entries_ok lib t txt_of (td_rendered t))"

lemma render_diff_roots: "td_roots t' = td_roots t \<Longrightarrow> render_diff lib t' = render_diff lib t"
  by (simp add: fun_eq_iff render_diff_def display_path_def)

lemma revisionsD:
  assumes "revisions_ok txt_of t"
  shows "map_of (td_baseline t) p = Some c \<Longrightarrow> txt_of (tk_revision c) = tk_content c \<and> tk_revision c < td_next_revision t"
    and "map_of (td_current t) p = Some c \<Longrightarrow> txt_of (tk_revision c) = tk_content c \<and> tk_revision c < td_next_revision t"
  using assms unfolding revisions_ok_def by blast+

lemma text_of_revision:
  assumes "revisions_ok txt_of t"
  shows "map_option txt_of (map_option tk_revision (map_of (td_baseline t) p)) = map_option tk_content (map_of (td_baseline t) p)"
    and "map_option txt_of (map_option tk_revision (map_of (td_current t) p)) = map_option tk_content (map_of (td_current t) p)"
proof -
  show "map_option txt_of (map_option tk_revision (map_of (td_baseline t) p)) = map_option tk_content (map_of (td_baseline t) p)"
    using revisionsD(1) [OF assms, of p] by (cases "map_of (td_baseline t) p") simp_all
  show "map_option txt_of (map_option tk_revision (map_of (td_current t) p)) = map_option tk_content (map_of (td_current t) p)"
    using revisionsD(2) [OF assms, of p] by (cases "map_of (td_current t) p") simp_all
qed

lemma fresh_entry_ok:
  assumes "revisions_ok txt_of t"
  shows "entry_ok lib t txt_of (cache_key t l r) v \<longleftrightarrow> v = fresh_diff lib t l r"
  using text_of_revision(1) [OF assms, of l] text_of_revision(2) [OF assms, of r]
    revisionsD(1) [OF assms, of l] revisionsD(2) [OF assms, of r]
  by (auto simp: entry_ok_def cache_key_def fresh_diff_def)

lemma refresh_loop_fresh:
  assumes "revisions_ok txt_of t" and "entries_ok lib t txt_of previous" and "entries_ok lib t txt_of rendered"
  shows "\<exists>rendered'. refresh_loop lib t pairs paths handled previous rendered aggregated =
      (rendered', fold (\<lambda>(l, r). push_diff (fresh_diff lib t l r)) (diff_walk pairs paths handled) aggregated)
    \<and> entries_ok lib t txt_of rendered'"
  using assms(2,3)
proof (induction paths arbitrary: handled previous rendered aggregated)
  case (Cons path paths)
  have step: "\<exists>rendered'. refresh_loop lib t pairs paths h (AList.delete (cache_key t path r) previous)
        (AList.update (cache_key t path r) d rendered) (push_diff d aggregated) =
      (rendered', fold (\<lambda>(l, r). push_diff (fresh_diff lib t l r)) (diff_walk pairs paths h)
        (push_diff (fresh_diff lib t path r) aggregated)) \<and> entries_ok lib t txt_of rendered'"
    if d: "d = (case map_of previous (cache_key t path r) of Some d \<Rightarrow> d | None \<Rightarrow> fresh_diff lib t path r)" for h r d
  proof -
    have "d = fresh_diff lib t path r"
      using Cons.prems(1) fresh_entry_ok [OF assms(1), of lib path r]
      by (auto simp: d entries_ok_def split: option.splits)
    moreover have "entries_ok lib t txt_of (AList.delete (cache_key t path r) previous)"
      using Cons.prems(1) by (simp add: entries_ok_def delete_conv')
    moreover have "entries_ok lib t txt_of (AList.update (cache_key t path r) (fresh_diff lib t path r) rendered)"
      using Cons.prems(2) fresh_entry_ok [OF assms(1), of lib path r] by (simp add: entries_ok_def update_conv')
    ultimately show ?thesis using Cons.IH by simp
  qed
  show ?case
    using Cons.IH [OF Cons.prems] step [OF refl]
    by (cases "map_of pairs path") (simp_all add: Let_def)
qed simp

lemma refresh_ok:
  assumes "cache_ok lib t"
  shows "cache_ok lib (refresh_unified_diff lib t)
    \<and> td_unified_diff (refresh_unified_diff lib t) = unified_reference lib (refresh_unified_diff lib t)"
proof -
  obtain txt_of where ok: "revisions_ok txt_of t" "entries_ok lib t txt_of (td_rendered t)"
    using assms by (auto simp: cache_ok_def)
  obtain rendered' where r: "refresh_loop lib t (rename_pairs t) (refresh_paths lib t) [] (td_rendered t) [] [] =
      (rendered', fold (\<lambda>(l, r). push_diff (fresh_diff lib t l r)) (diff_walk (rename_pairs t) (refresh_paths lib t) []) [])"
    "entries_ok lib t txt_of rendered'"
    using refresh_loop_fresh [OF ok, of "[]" "rename_pairs t" "refresh_paths lib t" "[]" "[]"]
    by (auto simp: entries_ok_def)
  define t' where "t' = refresh_unified_diff lib t"
  have t': "td_roots t' = td_roots t" "td_baseline t' = td_baseline t" "td_current t' = td_current t"
    "td_origin t' = td_origin t" "td_next_revision t' = td_next_revision t" "td_rendered t' = rendered'"
    by (simp_all add: t'_def refresh_unified_diff_def r(1) Let_def)
  have eq: "rename_pairs t' = rename_pairs t" "refresh_paths lib t' = refresh_paths lib t"
    "fresh_diff lib t' = fresh_diff lib t"
    using t' render_diff_roots [OF t'(1), of lib]
    by (simp_all add: rename_pairs_def refresh_paths_def display_path_def [abs_def] fresh_diff_def [abs_def])
  have "cache_ok lib t'"
    unfolding cache_ok_def
    using ok(1) r(2) t' render_diff_roots [OF t'(1)]
    by (intro exI [of _ txt_of]) (simp add: revisions_ok_def entries_ok_def entry_ok_def)
  moreover have "td_unified_diff t' = unified_reference lib t'"
    by (simp add: unified_reference_def eq) (simp add: t'_def refresh_unified_diff_def r(1) Let_def)
  ultimately show ?thesis by (simp add: t'_def)
qed

lemma cache_ok_fresh:
  assumes "cache_ok lib t" and "td_roots t' = td_roots t" and "td_rendered t' = td_rendered t"
    and "td_next_revision t' = Suc (td_next_revision t)"
    and "\<And>p b. map_of (td_baseline t') p = Some b \<Longrightarrow> map_of (td_baseline t) p = Some b \<or> b = \<lparr>tk_content = c, tk_revision = td_next_revision t\<rparr>"
    and "\<And>p b. map_of (td_current t') p = Some b \<Longrightarrow> map_of (td_current t) p = Some b \<or> b = \<lparr>tk_content = c, tk_revision = td_next_revision t\<rparr>"
  shows "cache_ok lib t'"
proof -
  obtain txt_of where ok: "revisions_ok txt_of t" "entries_ok lib t txt_of (td_rendered t)"
    using assms(1) by (auto simp: cache_ok_def)
  let ?T = "txt_of(td_next_revision t := c)"
  have "revisions_ok ?T t'"
    unfolding revisions_ok_def
    using assms(4-6) revisionsD [OF ok(1)] by (metis fun_upd_other fun_upd_same less_SucI less_irrefl lessI tracked_content.select_convs)
  moreover have "map_option ?T r = map_option txt_of r" if "\<And>n. r = Some n \<Longrightarrow> n < td_next_revision t" for r
    using that by (cases r) auto
  then have "entry_ok lib t' ?T k v" if "entry_ok lib t txt_of k v" for k v
    using that render_diff_roots [OF assms(2), of lib] assms(4)
    by (auto simp: entry_ok_def less_SucI)
  then have "entries_ok lib t' ?T (td_rendered t')"
    using ok(2) assms(3) by (simp add: entries_ok_def)
  ultimately show ?thesis unfolding cache_ok_def by blast
qed

lemma cache_ok_less:
  assumes "cache_ok lib t" and "td_roots t' = td_roots t" and "td_rendered t' = td_rendered t"
    and "td_next_revision t' = td_next_revision t" and "td_baseline t' = td_baseline t"
    and "\<And>p b. map_of (td_current t') p = Some b \<Longrightarrow> map_of (td_current t) p = Some b"
  shows "cache_ok lib t'"
proof -
  obtain txt_of where ok: "revisions_ok txt_of t" "entries_ok lib t txt_of (td_rendered t)"
    using assms(1) by (auto simp: cache_ok_def)
  have "revisions_ok txt_of t'"
    unfolding revisions_ok_def using assms(4-6) revisionsD [OF ok(1)] by metis
  moreover have "entries_ok lib t' txt_of (td_rendered t')"
    using ok(2) assms(3,4) render_diff_roots [OF assms(2), of lib] by (simp add: entries_ok_def entry_ok_def)
  ultimately show ?thesis unfolding cache_ok_def by blast
qed

lemma cache_ok_steps:
  assumes "cache_ok lib t"
  shows "cache_ok lib (set_baseline p c t)" "cache_ok lib (set_current p c t)" "cache_ok lib (drop_current p t)"
    "cache_ok lib (drop_origin p t)" "cache_ok lib (t\<lparr>td_origin := orgs\<rparr>)"
proof -
  show "cache_ok lib (set_baseline p c t)"
    by (rule cache_ok_fresh [OF assms, where c = c])
      (auto simp: set_baseline_def update_conv' split: if_splits)
  show "cache_ok lib (set_current p c t)"
    by (rule cache_ok_fresh [OF assms, where c = c])
      (auto simp: set_current_def update_conv' split: if_splits)
  show "cache_ok lib (drop_current p t)"
    by (rule cache_ok_less [OF assms]) (auto simp: drop_current_def delete_conv' split: if_splits)
  show "cache_ok lib (drop_origin p t)"
    by (rule cache_ok_less [OF assms]) (simp_all add: drop_origin_def)
  show "cache_ok lib (t\<lparr>td_origin := orgs\<rparr>)"
    by (rule cache_ok_less [OF assms]) simp_all
qed

lemma note_baseline_cache: "cache_ok lib t \<Longrightarrow> cache_ok lib (note_baseline p b t)"
  by (simp add: note_baseline_def cache_ok_steps split: option.split)

lemma apply_change_cache: "cache_ok lib t \<Longrightarrow> cache_ok lib (apply_change env p c t)"
  by (cases c)
    (simp_all add: apply_add_def apply_delete_def apply_update_def Let_def cache_ok_steps note_baseline_cache
      split: option.split)

lemma apply_changes_cache:
  "cache_ok lib t \<Longrightarrow> cache_ok lib (fold (\<lambda>c. apply_change env (ac_path c) (ac_change c)) cs t)"
  by (induction cs arbitrary: t) (simp_all add: apply_change_cache)

lemma cache_ok_new: "cache_ok lib (with_environment_display_roots roots)"
  by (auto simp: cache_ok_def revisions_ok_def entries_ok_def with_environment_display_roots_def tracker_new_def)

subsection \<open>A tracker in use\<close>

text \<open>The tracker's promise: while it is valid, it knows every path's text at the start and now, and the
  diff it shows is the one rendered from these; otherwise it shows nothing.\<close>

definition tracker_ok ::
  "diff_lib \<Rightarrow> (tracked_path \<Rightarrow> string option) \<Rightarrow> (tracked_path \<Rightarrow> string option) \<Rightarrow> turn_diff_tracker \<Rightarrow> bool" where
  "tracker_ok lib before now t \<longleftrightarrow>
     (if td_valid t then cache_ok lib t \<and> knows t before now \<and> td_unified_diff t = unified_reference lib t
      else td_unified_diff t = None)"

lemma tracker_ok_new: "tracker_ok lib f f (with_environment_display_roots roots)"
proof -
  have "td_unified_diff (with_environment_display_roots roots) = unified_reference lib (with_environment_display_roots roots)"
    by (simp add: with_environment_display_roots_def tracker_new_def unified_reference_def rename_pairs_def refresh_paths_def)
  moreover have "knows (with_environment_display_roots roots) f f" "td_valid (with_environment_display_roots roots)"
    by (simp_all add: with_environment_display_roots_def) (simp add: tracker_new_def)
  ultimately show ?thesis using cache_ok_new [of lib roots] by (simp add: tracker_ok_def)
qed

lemma valid_steps [simp]:
  "td_valid (set_baseline p c t) = td_valid t" "td_valid (set_current p c t) = td_valid t"
  "td_valid (drop_current p t) = td_valid t" "td_valid (drop_origin p t) = td_valid t"
  "td_valid (note_baseline p b t) = td_valid t" "td_valid (refresh_unified_diff lib t) = td_valid t"
  by (simp_all add: set_baseline_def set_current_def drop_current_def drop_origin_def note_baseline_def
      refresh_unified_diff_def split: option.split prod.split)

lemma valid_changes [simp]:
  "td_valid (fold (\<lambda>c. apply_change env (ac_path c) (ac_change c)) cs t) = td_valid t"
proof (induction cs arbitrary: t)
  case (Cons c cs)
  have "td_valid (apply_change env p ch t) = td_valid t" for p ch
    by (cases ch) (simp_all add: apply_add_def apply_delete_def apply_update_def Let_def split: option.split)
  with Cons show ?case by simp
qed simp

lemma knows_refresh [simp]: "knows (refresh_unified_diff lib t) = knows t"
  by (simp add: fun_eq_iff knows_def refresh_unified_diff_def split: prod.split)

lemma track_delta_ok:
  assumes "tracker_ok lib before (on_env env f now) t"
    and "ad_exact delta \<longrightarrow> explains f (ad_changes delta) g"
  shows "tracker_ok lib before (on_env env g now) (track_delta lib env delta t)"
proof (cases "td_valid t \<and> ad_exact delta")
  case True
  define t1 where "t1 = fold (\<lambda>c. apply_change env (ac_path c) (ac_change c)) (ad_changes delta) t"
  have ok: "cache_ok lib t" "knows t before (on_env env f now)" using assms(1) True by (simp_all add: tracker_ok_def)
  have "knows t1 before (on_env env g now)"
    unfolding t1_def using apply_changes_knows [OF _ ok(2)] assms(2) True by simp
  moreover have "cache_ok lib t1" using ok(1) by (simp add: t1_def apply_changes_cache)
  moreover have "track_delta lib env delta t = refresh_unified_diff lib t1" "td_valid t1"
    using True by (simp_all add: track_delta_def t1_def)
  ultimately show ?thesis using refresh_ok [of lib t1] by (simp add: tracker_ok_def)
next
  case False
  then show ?thesis using assms(1) by (auto simp: tracker_ok_def track_delta_def invalidate_def)
qed

subsection \<open>Patches of a turn\<close>

text \<open>The attempts of one patch call that took place, with their options, and the calls of a turn in one
  environment: each with its patch, its attempts and how it ended.\<close>

fun run_attempts ::
  "path_lib \<Rightarrow> 'w efs \<Rightarrow> string \<Rightarrow> apply_patch_options list \<Rightarrow> applied_delta \<Rightarrow> 'w \<Rightarrow> (applied_delta \<times> 'w) option" where
  "run_attempts pl fs patch [] committed w = Some (committed, w)"
| "run_attempts pl fs patch (o1 # os) committed w =
     (case run_attempt pl fs o1 patch committed w of
        None \<Rightarrow> None
      | Some (_, committed, w) \<Rightarrow> run_attempts pl fs patch os committed w)"

type_synonym patch_call = "string \<times> apply_patch_options list \<times> tool_outcome"

definition end_patch ::
  "diff_lib \<Rightarrow> string \<Rightarrow> tool_outcome \<Rightarrow> applied_delta \<Rightarrow> turn_diff_tracker \<Rightarrow> string option \<times> turn_diff_tracker" where
  "end_patch lib env outcome delta t =
     (let (_, _, _, update) = stage_end (Some env) (finish_stage outcome (Some delta))
      in emit_patch_end lib update t)"

fun run_turn ::
  "diff_lib \<Rightarrow> path_lib \<Rightarrow> 'w efs \<Rightarrow> string \<Rightarrow> patch_call list \<Rightarrow> turn_diff_tracker \<Rightarrow> 'w
     \<Rightarrow> (turn_diff_tracker \<times> 'w) option" where
  "run_turn lib pl fs env [] t w = Some (t, w)"
| "run_turn lib pl fs env ((patch, attempts, outcome) # calls) t w =
     (case run_attempts pl fs patch attempts delta_empty w of
        None \<Rightarrow> None
      | Some (delta, w) \<Rightarrow> run_turn lib pl fs env calls (snd (end_patch lib env outcome delta t)) w)"

text \<open>The ends that leave the tracker in step with the files: an error other than a denial, a timeout or a
  rejection is one that no attempt came before.\<close>

definition reported :: "patch_call \<Rightarrow> bool" where
  "reported call = (case call of (_, attempts, OtherError _) \<Rightarrow> attempts = [] | _ \<Rightarrow> True)"

definition no_self_moves :: "path_lib \<Rightarrow> string \<Rightarrow> bool" where
  "no_self_moves pl patch \<longleftrightarrow>
     (case parse_patch patch of Inl _ \<Rightarrow> True | Inr args \<Rightarrow> list_all (\<lambda>h. \<not> self_move pl h) (pa_hunks args))"

lemma run_attempt_total: "\<exists>b d' w'. run_attempt pl fs options patch d w = Some (b, d', w')"
proof -
  have "apply_hunks_with_options pl fs None None options (pa_hunks args) w \<noteq> None" if "parse_patch patch = Inr args" for args
    using apply_hunk_loop_total [of "pa_hunks args"] parse_patch_hunks_ok that
    by (force simp: apply_hunks_with_options_def apply_hunks_to_files_def parse_patch_def)
  then have "apply_patch_with_options pl fs None None options patch w \<noteq> None"
    by (simp add: apply_patch_with_options_def split: sum.split)
  then obtain r w' where "apply_patch_with_options pl fs None None options patch w = Some (r, w')" by auto
  then show ?thesis by (cases r) (auto simp: run_attempt_def)
qed

lemma delta_append_step: "delta_step delta_empty f d g \<Longrightarrow> delta_step e f (delta_append e d) g"
  by (auto simp: delta_step_def delta_append_def delta_empty_def)

context text_files
begin

lemma run_attempt_step:
  assumes "run_attempt pl fs options patch d w = Some (b, d', w')" and "no_self_moves pl patch"
  shows "delta_step d (files w) d' (files w')"
proof (cases "parse_patch patch")
  case (Inl e)
  then show ?thesis
    using assms(1) by (auto simp: run_attempt_def apply_patch_with_options_def intro: delta_append_step)
next
  case (Inr args)
  obtain r d1 w1 where h:
    "apply_hunks_to_files pl fs (op_update_file_mode options) (pa_hunks args) delta_empty w = Some (r, d1, w1)"
    using assms(1) Inr
    by (cases "apply_hunks_to_files pl fs (op_update_file_mode options) (pa_hunks args) delta_empty w")
      (auto simp: run_attempt_def apply_patch_with_options_def apply_hunks_with_options_def)
  then have "d' = delta_append d d1 \<and> w' = w1"
    using assms(1) Inr
    by (cases r) (auto simp: run_attempt_def apply_patch_with_options_def apply_hunks_with_options_def)
  then have r: "apply_hunks_to_files pl fs (op_update_file_mode options) (pa_hunks args) delta_empty w = Some (r, d1, w')"
    "d' = delta_append d d1" using h by simp_all
  have "delta_step delta_empty (files w) d1 (files w')"
    using r(1) apply_hunk_loop_step assms(2) Inr
    by (fastforce simp: apply_hunks_to_files_def no_self_moves_def list_all_iff split: if_splits)
  then show ?thesis using r(2) delta_append_step by simp
qed

lemma run_attempts_step:
  assumes "no_self_moves pl patch"
  shows "\<exists>d' w'. run_attempts pl fs patch attempts d w = Some (d', w') \<and> delta_step d (files w) d' (files w')"
proof (induction attempts arbitrary: d w)
  case (Cons o1 os)
  obtain b d1 w1 where r: "run_attempt pl fs o1 patch d w = Some (b, d1, w1)" using run_attempt_total [of pl fs o1 patch d w] by blast
  obtain d' w' where "run_attempts pl fs patch os d1 w1 = Some (d', w')" "delta_step d1 (files w1) d' (files w')"
    using Cons by blast
  then show ?case using r run_attempt_step [OF r assms] delta_step_trans by fastforce
qed simp

lemma end_patch_ok:
  assumes "tracker_ok lib before (on_env env (files w) now) t" and "delta_step delta_empty (files w) d (files w')"
    and "(\<exists>m. outcome = OtherError m) \<Longrightarrow> files w' = files w"
  shows "tracker_ok lib before (on_env env (files w') now) (snd (end_patch lib env outcome d t))"
proof -
  have ex: "ad_exact d \<longrightarrow> explains (files w) (ad_changes d) (files w')"
    using assms(2) by (auto simp: delta_step_def delta_empty_def)
  have known: "tracker_ok lib before (on_env env (files w') now)
    (snd (emit_patch_end lib (tracker_update_for_known_delta (Some env) d) t))"
    using track_delta_ok [OF assms(1) ex] assms(1) ex
    by (auto simp: emit_patch_end_def tracker_update_for_known_delta_def)
  show ?thesis
    using known assms(1,3)
    by (cases outcome) (auto simp: end_patch_def emit_patch_end_def tracker_ok_def invalidate_def)
qed

lemma run_turn_ok:
  assumes "\<forall>call\<in>set calls. no_self_moves pl (fst call) \<and> reported call"
    and "tracker_ok lib before (on_env env (files w) now) t"
  shows "\<exists>t' w'. run_turn lib pl fs env calls t w = Some (t', w')
    \<and> tracker_ok lib before (on_env env (files w') now) t'"
  using assms
proof (induction calls arbitrary: t w)
  case (Cons call calls)
  obtain patch attempts outcome where call: "call = (patch, attempts, outcome)" by (metis prod_cases3)
  obtain d w1 where a: "run_attempts pl fs patch attempts delta_empty w = Some (d, w1)"
    "delta_step delta_empty (files w) d (files w1)"
    using run_attempts_step Cons.prems(1) call by fastforce
  have "files w1 = files w" if "\<exists>m. outcome = OtherError m"
    using that a(1) Cons.prems(1) call by (auto simp: reported_def)
  then have "tracker_ok lib before (on_env env (files w1) now) (snd (end_patch lib env outcome d t))"
    using end_patch_ok [OF Cons.prems(2) a(2)] by blast
  then show ?case using Cons.IH [of w1] Cons.prems(1) a(1) call by simp
qed simp

end

end
