(* ===== verification/Turn_Diff_Properties.thy ===== *)
theory Turn_Diff_Properties
  imports Diff_Tracker Patch_Properties
begin

text \<open>
  What holds of a patch that is carried out and of the diff a turn shows: the committed changes that are
  reported explain the files, and the diff is the net change of the turn.
\<close>

subsection \<open>A sample turn\<close>

definition work_lib :: path_lib where
  "work_lib = \<lparr>pl_resolve = (\<lambda>p. Inr (''/w/'' @ p)), pl_native = (\<lambda>p. p), pl_parent = parent_path\<rparr>"

definition work_disk :: "(nat \<Rightarrow> nat option) \<Rightarrow> disk" where
  "work_disk faults = \<lparr>dk_nodes = [(''/'', DirNode), (''/w'', DirNode), (''/w/f'', FileNode (''a'' @ [lf] @ ''b'' @ [lf]))],
     dk_ops = 0, dk_fault = faults\<rparr>"

definition sample_diff_lib :: diff_lib where
  "sample_diff_lib = \<lparr>dl_relative = (\<lambda>p root. Some (drop (Suc (length root)) p)), dl_native = (\<lambda>p. p), dl_oid = (\<lambda>s. s),
     dl_unified = (\<lambda>a b l r. l @ [lf] @ r @ [lf] @ a @ b)\<rparr>"

lemma sample_no_self_moves: "no_self_moves work_lib sample_patch"
  by (simp add: no_self_moves_def parse_sample sample_args_def self_move_def)

subsection \<open>Committed changes\<close>

text \<open>C21. The delta a patch reports is exact when it says so: whether the patch succeeds, fails halfway
  or an operation of the file system fails under it, an exact delta lists changes that, replayed in order
  from the texts before, give the texts after, and every text it records as replaced or removed is the
  text that was there. A patch never panics. (No hunk moves a file onto itself.)\<close>

theorem applied_delta_is_exact:
  assumes "no_self_moves pl patch"
  shows "\<exists>ok delta w'. run_attempt pl direct_fs options patch delta_empty w = Some (ok, delta, w')
    \<and> (ad_exact delta \<longrightarrow> explains (disk_files w) (ad_changes delta) (disk_files w'))"
proof -
  obtain ok delta w' where r: "run_attempt pl direct_fs options patch delta_empty w = Some (ok, delta, w')"
    using run_attempt_total [of pl direct_fs options patch delta_empty w] by blast
  have "ad_exact delta \<longrightarrow> explains (disk_files w) (ad_changes delta) (disk_files w')"
    using direct.run_attempt_step [OF r assms] by (auto simp: delta_step_def delta_empty_def)
  with r show ?thesis by blast
qed

theorem applied_delta_is_exact_witness:
  "\<exists>ok delta w'. run_attempt work_lib direct_fs options_default sample_patch delta_empty (work_disk (\<lambda>n. if n = 3 then Some 1 else None))
      = Some (ok, delta, w')
    \<and> (ad_exact delta \<longrightarrow>
        explains (disk_files (work_disk (\<lambda>n. if n = 3 then Some 1 else None))) (ad_changes delta) (disk_files w'))"
  using applied_delta_is_exact [OF sample_no_self_moves] by blast

subsection \<open>The diff of a turn\<close>

text \<open>C22. Over a turn of patches, with retries after a denied attempt and rejected, denied and timed out
  calls, in which no hunk moves a file onto itself and no call ends in another error after it has made an
  attempt, the tracker never shows a wrong diff: nothing panics, and at the end it has either given up and
  shows nothing, or it holds for every path the text at the start of the turn and the text now (a path it
  does not hold is unchanged) and shows the diff rendered afresh from exactly these texts, whatever it
  cached on the way. The disk has files and directories and no links.\<close>

theorem turn_diff_is_the_net_change:
  assumes "\<forall>call\<in>set calls. no_self_moves pl (fst call) \<and> reported call"
  shows "\<exists>t w'. run_turn lib pl direct_fs env calls (with_environment_display_roots roots) w = Some (t, w')
    \<and> (if td_valid t
        then (\<forall>p. path_known (map_of (td_baseline t) (env, p)) (map_of (td_current t) (env, p))
                (disk_files w p) (disk_files w' p))
          \<and> td_unified_diff t = unified_reference lib t
        else td_unified_diff t = None)"
proof -
  have "tracker_ok lib (on_env env (disk_files w) Map.empty) (on_env env (disk_files w) Map.empty)
    (with_environment_display_roots roots)" by (rule tracker_ok_new)
  from direct.run_turn_ok [OF assms this] obtain t w' where
    r: "run_turn lib pl direct_fs env calls (with_environment_display_roots roots) w = Some (t, w')" and
    ok: "tracker_ok lib (on_env env (disk_files w) Map.empty) (on_env env (disk_files w') Map.empty) t"
    by blast
  have "path_known (map_of (td_baseline t) (env, p)) (map_of (td_current t) (env, p)) (disk_files w p) (disk_files w' p)"
    if "td_valid t" for p
    using ok that knowsD [of t _ _ "(env, p)"] by (fastforce simp: tracker_ok_def on_env_def)
  with r ok show ?thesis by (auto simp: tracker_ok_def)
qed

theorem turn_diff_is_the_net_change_witness:
  "\<exists>t w'. run_turn sample_diff_lib work_lib direct_fs ''local''
      [(sample_patch, [options_default], RejectedCall ''no''), (sample_patch, [], OtherError ''aborted'')]
      (with_environment_display_roots [(''local'', ''/w'')]) (work_disk (\<lambda>_. None)) = Some (t, w')
    \<and> (if td_valid t
        then (\<forall>p. path_known (map_of (td_baseline t) (''local'', p)) (map_of (td_current t) (''local'', p))
                (disk_files (work_disk (\<lambda>_. None)) p) (disk_files w' p))
          \<and> td_unified_diff t = unified_reference sample_diff_lib t
        else td_unified_diff t = None)"
  by (rule turn_diff_is_the_net_change) (simp add: sample_no_self_moves reported_def)

subsection \<open>A file moved onto itself\<close>

lemma disk_at_simps [simp]:
  "disk_at (disk_tick d) = disk_at d" "disk_at (disk_put p n d) = (disk_at d)(p \<mapsto> n)"
  "disk_at (disk_drop p d) = (disk_at d)(p := None)"
  "dk_fault (disk_tick d) = dk_fault d" "dk_fault (disk_put p n d) = dk_fault d" "dk_fault (disk_drop p d) = dk_fault d"
  by (simp_all add: fun_eq_iff disk_at_def disk_tick_def disk_put_def disk_drop_def update_conv' delete_conv')

lemma calm_file:
  assumes "dk_fault d = (\<lambda>_. None)" and "disk_at d p = Some (FileNode c)"
  shows "direct_get_metadata p d =
      (Inr \<lparr>fm_is_directory = False, fm_is_file = True, fm_is_symlink = False, fm_size = length c\<rparr>, disk_tick d)"
    and "utf8_valid c \<Longrightarrow> int (length c) \<le> MAX_READ_FILE_BYTES \<Longrightarrow> direct_read_file_text p d = (Inr c, disk_tick d)"
    and "direct_remove p d = (Inr (), disk_drop p (disk_tick d))"
    and "(case parent_path p of None \<Rightarrow> True | Some q \<Rightarrow> disk_at d q = Some DirNode) \<Longrightarrow>
      \<exists>d'. direct_write_file p c' d = (Inr (), d') \<and> dk_fault d' = (\<lambda>_. None) \<and> disk_at d' = (disk_at d)(p \<mapsto> FileNode c')
        \<and> disk_files d' = (disk_files d)(p \<mapsto> c')"
  using assms
  by (auto simp: direct_get_metadata_def direct_read_file_text_def direct_read_file_def direct_remove_def
      direct_write_file_def disk_fault_def Let_def split: option.splits)

text \<open>An update that moves a file to its own path loses the file: the new text is written, then the
  path is removed as the original of the move, and the patch reports the file as modified with an exact
  delta. The turn's tracker then holds the new text as the file's current text.\<close>

theorem move_onto_itself_deletes:
  assumes "dk_fault w = (\<lambda>_. None)" and "disk_at w p = Some (FileNode c)"
    and "utf8_valid c" and "int (length c) \<le> MAX_READ_FILE_BYTES"
    and "case parent_path p of None \<Rightarrow> True | Some q \<Rightarrow> disk_at w q = Some DirNode"
    and "pl_resolve pl source = Inr p" and "pl_resolve pl dest = Inr p"
    and "new_contents c (pl_native pl p) chunks mode = Some (Inr c')"
  shows "\<exists>delta w'. apply_hunks_to_files pl direct_fs mode [UpdateFile source (Some dest) chunks] delta_empty w
      = Some (Inr \<lparr>af_added = [], af_modified = [dest], af_deleted = []\<rparr>, delta, w')
    \<and> ad_exact delta \<and> disk_files w' = (disk_files w)(p := None)
    \<and> map_option tk_content (map_of (td_current (track_delta lib env delta (with_environment_display_roots roots))) (env, p))
      = Some c'"
proof -
  define e where "e = disk_tick (disk_tick w)"
  define d1 where "d1 = and_exact True delta_empty"
  define d2 where "d2 = and_exact True d1"
  have ticks: "dk_fault (disk_tick e) = (\<lambda>_. None)" "dk_fault e = (\<lambda>_. None)" "dk_fault (disk_tick w) = (\<lambda>_. None)"
    "disk_at (disk_tick e) p = Some (FileNode c)" "disk_at e p = Some (FileNode c)" "disk_at (disk_tick w) p = Some (FileNode c)"
    using assms(1,2) by (simp_all add: e_def)
  obtain d where d: "direct_write_file p c' (disk_tick (disk_tick e)) = (Inr (), d)" "dk_fault d = (\<lambda>_. None)"
    "disk_at d = (disk_at w)(p \<mapsto> FileNode c')" "disk_files d = (disk_files w)(p \<mapsto> c')"
    using calm_file(4) [of "disk_tick (disk_tick e)" p c c'] assms(1,2,5) ticks by (auto simp: e_def cong: option.case_cong)
  have opt: "read_optional_file_text_for_delta direct_fs p d1 e = (Some c, d2, disk_tick (disk_tick e))"
    using calm_file(1,2) ticks assms(3,4)
    by (simp add: read_optional_file_text_for_delta_def note_existing_path_delta_support_def direct_fs_def d2_def)
  have move: "apply_move pl direct_fs dest p p c c' d1 e =
    (Inr (Modified dest), push_change p (ChangeUpdate (Some p) c (Some c) c') d2, disk_drop p (disk_tick (disk_tick d)))"
    unfolding apply_move_def opt
    using d(1-3) calm_file(1,3) [of "disk_tick d"] calm_file(1) [of d]
    by (simp add: write_file_with_missing_parent_retry_def remove_checked_def ensure_not_directory_def direct_fs_def)
  have up: "apply_update_hunk pl direct_fs mode dest p (Some dest) chunks delta_empty w =
    Some (apply_move pl direct_fs dest p p c c' d1 e)"
    using calm_file(1) [OF assms(1,2)] calm_file(2) [OF ticks(3,6) assms(3,4)] assms(7,8)
    by (simp add: apply_update_hunk_def note_existing_path_delta_support_def direct_fs_def
        derive_new_contents_from_chunks_def d1_def e_def)
  let ?delta = "push_change p (ChangeUpdate (Some p) c (Some c) c') d2"
  have run: "apply_hunks_to_files pl direct_fs mode [UpdateFile source (Some dest) chunks] delta_empty w =
    Some (Inr \<lparr>af_added = [], af_modified = [dest], af_deleted = []\<rparr>, ?delta, disk_drop p (disk_tick (disk_tick d)))"
    using assms(6) by (simp add: apply_hunks_to_files_def apply_hunk_def up move)
  have files: "disk_files (disk_drop p (disk_tick (disk_tick d))) = (disk_files w)(p := None)" using d(4) by simp
  have d2: "d2 = delta_empty" by (simp add: d2_def d1_def delta_empty_def and_exact_def)
  have "map_option tk_content (map_of (td_current (track_delta lib env ?delta (with_environment_display_roots roots))) (env, p)) = Some c'"
    by (simp add: track_delta_def d2 delta_empty_def push_change_def with_environment_display_roots_def tracker_new_def
        refresh_unified_diff_def apply_update_def note_baseline_def untracked_def set_baseline_def set_current_def
        drop_current_def drop_origin_def Let_def split: prod.split)
  then show ?thesis using run files d2 by (auto simp: delta_empty_def)
qed

theorem move_onto_itself_deletes_witness:
  "\<exists>delta w'. apply_hunks_to_files work_lib direct_fs NormalizeToLf [UpdateFile ''f'' (Some ''f'') [first_chunk ''x'']] delta_empty
      (work_disk (\<lambda>_. None)) = Some (Inr \<lparr>af_added = [], af_modified = [''f''], af_deleted = []\<rparr>, delta, w')
    \<and> ad_exact delta \<and> disk_files w' ''/w/f'' = None"
proof -
  have new: "new_contents (''a'' @ [lf] @ ''b'' @ [lf]) (pl_native work_lib ''/w/f'') [first_chunk ''x''] NormalizeToLf = Some (Inr (''x'' @ [lf]))"
    unfolding first_chunk_def work_lib_def by code_simp
  have at: "disk_at (work_disk (\<lambda>_. None)) ''/w/f'' = Some (FileNode (''a'' @ [lf] @ ''b'' @ [lf]))"
    by (simp add: disk_at_def work_disk_def)
  have parent: "case parent_path ''/w/f'' of None \<Rightarrow> True | Some q \<Rightarrow> disk_at (work_disk (\<lambda>_. None)) q = Some DirNode"
    by code_simp
  have small: "utf8_valid (''a'' @ [lf] @ ''b'' @ [lf])" "int (length (''a'' @ [lf] @ ''b'' @ [lf])) \<le> MAX_READ_FILE_BYTES"
    by (code_simp, simp add: MAX_READ_FILE_BYTES_def)
  have "dk_fault (work_disk (\<lambda>_. None)) = (\<lambda>_. None)" "pl_resolve work_lib ''f'' = Inr ''/w/f''"
    by (simp_all add: work_disk_def work_lib_def)
  from move_onto_itself_deletes [OF this(1) at small parent this(2) this(2) new] show ?thesis by fastforce
qed

end
