(* ===== verification/Patch_Verify.thy ===== *)
theory Patch_Verify
  imports Patch_Apply Exec_Rule
begin

text \<open>
  Recognising a patch in a command and verifying it against the files, from
  \<open>apply-patch/src/invocation.rs\<close> and the end of \<open>apply-patch/src/file_update.rs\<close>. The result of a
  verification, the action, is what is shown for approval. Path URIs (\<open>uri_lib\<close>), the matches of the
  tree-sitter query on a script, and the line diff are arguments.
\<close>

record uri_lib =
  ul_join :: "path \<Rightarrow> path \<Rightarrow> string + path"
  ul_native :: "path \<Rightarrow> string"
  ul_parent :: "path \<Rightarrow> path option"

definition lib_at :: "uri_lib \<Rightarrow> path \<Rightarrow> path_lib" where
  "lib_at ul cwd = \<lparr>pl_resolve = ul_join ul cwd, pl_native = ul_native ul, pl_parent = ul_parent ul\<rparr>"

subsection \<open>Commands\<close>

datatype path_convention = Posix | Windows

text \<open>\<open>str::split\<close> at the separators of the convention.\<close>

fun path_segments :: "path_convention \<Rightarrow> string \<Rightarrow> string list" where
  "path_segments conv [] = [[]]"
| "path_segments conv (c # cs) =
     (case path_segments conv cs of
        [] \<Rightarrow> [[c]]
      | s # ss \<Rightarrow>
          if c = CHR ''/'' \<or> conv = Windows \<and> c = CHR 0x5C then [] # s # ss else (c # s) # ss)"

definition APPLY_PATCH_COMMANDS :: "string list" where
  "APPLY_PATCH_COMMANDS = [''apply_patch'', ''applypatch'']"

datatype apply_patch_shell = UnixShell | PowerShell | CmdShell

datatype extract_heredoc_error =
    CommandDidNotStartWithApplyPatch
  | FailedToLoadBashGrammar
  | HeredocNotUtf8
  | FailedToParsePatchIntoAst
  | FailedToFindHeredocBody

definition eq_ignore_ascii_case :: "string \<Rightarrow> string \<Rightarrow> bool" where
  "eq_ignore_ascii_case s t \<longleftrightarrow> to_ascii_lowercase s = to_ascii_lowercase t"

definition classify_shell_name :: "path_convention \<Rightarrow> string \<Rightarrow> string" where
  "classify_shell_name conv shell =
     (let basename = last (path_segments conv shell)
      in to_ascii_lowercase
           (case rsplit_once (CHR ''.'') basename of
              Some (stem, _) \<Rightarrow> if stem \<noteq> [] then stem else basename
            | None \<Rightarrow> basename))"

definition classify_shell :: "path_convention \<Rightarrow> string \<Rightarrow> string \<Rightarrow> apply_patch_shell option" where
  "classify_shell conv shell flag =
     (let name = classify_shell_name conv shell
      in if name \<in> {''bash'', ''zsh'', ''sh''} \<and> flag \<in> {''-lc'', ''-c''} then Some UnixShell
         else if name \<in> {''pwsh'', ''powershell''} \<and> eq_ignore_ascii_case flag ''-command''
         then Some PowerShell
         else if name = ''cmd'' \<and> eq_ignore_ascii_case flag ''/c'' then Some CmdShell
         else None)"

definition can_skip_flag :: "path_convention \<Rightarrow> string \<Rightarrow> string \<Rightarrow> bool" where
  "can_skip_flag conv shell flag \<longleftrightarrow>
     classify_shell_name conv shell \<in> {''pwsh'', ''powershell''} \<and> eq_ignore_ascii_case flag ''-noprofile''"

fun parse_shell_script ::
  "path_convention option \<Rightarrow> string list \<Rightarrow> (apply_patch_shell \<times> string) option" where
  "parse_shell_script None argv = None"
| "parse_shell_script (Some conv) [shell, flag, script] =
     map_option (\<lambda>s. (s, script)) (classify_shell conv shell flag)"
| "parse_shell_script (Some conv) [shell, skip_flag, flag, script] =
     (if \<not> can_skip_flag conv shell skip_flag then None
      else map_option (\<lambda>s. (s, script)) (classify_shell conv shell flag))"
| "parse_shell_script (Some conv) _ = None"

text \<open>A match of the query is its captures: the name and the text of each, \<open>None\<close> when it is not UTF-8.
  The grammar may fail to load (\<open>Inl True\<close>) or to parse (\<open>Inl False\<close>).\<close>

type_synonym query_match = "(string \<times> string option) list"

definition trim_end_lf :: "string \<Rightarrow> string" where
  "trim_end_lf s = rev (dropWhile (\<lambda>c. c = lf) (rev s))"

definition unquote :: "string \<Rightarrow> string" where
  "unquote raw =
     (case strip_prefix [CHR 0x27] raw of
        Some s \<Rightarrow> (case strip_suffix_char (CHR 0x27) s of Some t \<Rightarrow> t | None \<Rightarrow> raw)
      | None \<Rightarrow> raw)"

fun read_captures ::
  "query_match \<Rightarrow> string option \<Rightarrow> string option \<Rightarrow> extract_heredoc_error + (string option \<times> string option)" where
  "read_captures [] heredoc cd = Inr (heredoc, cd)"
| "read_captures ((name, node) # captures) heredoc cd =
     (if name \<in> {''heredoc'', ''cd_path'', ''cd_raw_string''}
      then (case node of
              None \<Rightarrow> Inl HeredocNotUtf8
            | Some t \<Rightarrow>
                if name = ''heredoc'' then read_captures captures (Some (trim_end_lf t)) cd
                else if name = ''cd_path'' then read_captures captures heredoc (Some t)
                else read_captures captures heredoc (Some (unquote t)))
      else read_captures captures heredoc cd)"

fun first_heredoc :: "query_match list \<Rightarrow> extract_heredoc_error + (string \<times> string option)" where
  "first_heredoc [] = Inl CommandDidNotStartWithApplyPatch"
| "first_heredoc (m # ms) =
     result_bind (read_captures m None None)
       (\<lambda>(heredoc, cd). case heredoc of Some h \<Rightarrow> Inr (h, cd) | None \<Rightarrow> first_heredoc ms)"

definition extract_apply_patch_from_bash ::
  "(string \<Rightarrow> bool + query_match list) \<Rightarrow> string \<Rightarrow> extract_heredoc_error + (string \<times> string option)" where
  "extract_apply_patch_from_bash query src =
     (case query src of
        Inl load \<Rightarrow> Inl (if load then FailedToLoadBashGrammar else FailedToParsePatchIntoAst)
      | Inr ms \<Rightarrow> first_heredoc ms)"

datatype maybe_apply_patch =
    Body apply_patch_args
  | ShellParseError extract_heredoc_error
  | PatchParseError parse_error
  | NotApplyPatch

definition maybe_parse_apply_patch ::
  "(string \<Rightarrow> bool + query_match list) \<Rightarrow> path_convention option \<Rightarrow> string list \<Rightarrow> maybe_apply_patch" where
  "maybe_parse_apply_patch query conv argv =
     (let shell_form =
        (case parse_shell_script conv argv of
           None \<Rightarrow> NotApplyPatch
         | Some (shell, script) \<Rightarrow>
             (case extract_apply_patch_from_bash query script of
                Inr (body, workdir) \<Rightarrow>
                  (case parse_patch body of
                     Inr source \<Rightarrow> Body (source\<lparr>pa_workdir := workdir\<rparr>)
                   | Inl e \<Rightarrow> PatchParseError e)
              | Inl CommandDidNotStartWithApplyPatch \<Rightarrow> NotApplyPatch
              | Inl e \<Rightarrow> ShellParseError e))
      in case argv of
           [cmd, body] \<Rightarrow>
             if cmd \<in> set APPLY_PATCH_COMMANDS
             then (case parse_patch body of Inr source \<Rightarrow> Body source | Inl e \<Rightarrow> PatchParseError e)
             else shell_form
         | _ \<Rightarrow> shell_form)"

subsection \<open>Verification\<close>

datatype patch_file_change =
    FileAdd string
  | FileDelete string
  | FileUpdate string "path option" string

text \<open>The hash map of changes is an association list in the order of insertion.\<close>

record apply_patch_action =
  aa_changes :: "(path \<times> patch_file_change) list"
  aa_update_file_mode :: update_mode
  aa_patch :: string
  aa_cwd :: path

datatype verify_error =
    VerifyParse parse_error
  | VerifyApply apply_error
  | ImplicitInvocation

record apply_patch_file_update =
  fu_unified_diff :: string
  fu_original_content :: string
  fu_content :: string

text \<open>The diff has one line of context.\<close>

definition unified_diff_from_chunks_with_mode ::
  "(nat \<Rightarrow> string \<Rightarrow> string \<Rightarrow> string) \<Rightarrow> path_lib \<Rightarrow> 'w efs \<Rightarrow> path \<Rightarrow> update_file_chunk list \<Rightarrow> update_mode \<Rightarrow> 'w
     \<Rightarrow> ((apply_error + apply_patch_file_update) \<times> 'w) option" where
  "unified_diff_from_chunks_with_mode diff pl fs p chunks mode w =
     (let (r, w) = ef_read_file_text fs p w
      in map_option (\<lambda>res.
           ((case res of
               Inl (UpdateIo context _) \<Rightarrow> Inl (IoContext context (case r of Inl e \<Rightarrow> e | Inr _ \<Rightarrow> other_error))
             | Inl (ComputeReplacements m) \<Rightarrow> Inl (ComputeFailed m)
             | Inr applied \<Rightarrow>
                 Inr \<lparr>fu_unified_diff = diff 1 (ap_original_contents applied) (ap_new_contents applied),
                      fu_original_content = ap_original_contents applied,
                      fu_content = ap_new_contents applied\<rparr>), w))
           (derive_new_contents_from_chunks (map_err ee_text r) (pl_native pl p) chunks mode))"

definition verify_hunk ::
  "(nat \<Rightarrow> string \<Rightarrow> string \<Rightarrow> string) \<Rightarrow> path_lib \<Rightarrow> 'w efs \<Rightarrow> update_mode \<Rightarrow> path \<Rightarrow> hunk \<Rightarrow> 'w
     \<Rightarrow> ((verify_error + patch_file_change) \<times> 'w) option" where
  "verify_hunk diff pl fs mode p h w =
     (case h of
        AddFile _ bytes \<Rightarrow> Some (Inr (FileAdd bytes), w)
      | DeleteFile _ \<Rightarrow>
          Some (case ef_read_file_text fs p w of
                  (Inl e, w) \<Rightarrow> (Inl (VerifyApply (IoContext (''Failed to read '' @ pl_native pl p) e)), w)
                | (Inr c, w) \<Rightarrow> (Inr (FileDelete c), w))
      | UpdateFile _ move_path chunks \<Rightarrow>
          map_option (\<lambda>(r, w).
            (case r of
               Inl e \<Rightarrow> Inl (VerifyApply e)
             | Inr u \<Rightarrow>
                 (case move_path of
                    None \<Rightarrow> Inr (FileUpdate (fu_unified_diff u) None (fu_content u))
                  | Some dest \<Rightarrow>
                      (case pl_resolve pl dest of
                         Inl e \<Rightarrow> Inl (VerifyApply (PathUriError e))
                       | Inr d \<Rightarrow> Inr (FileUpdate (fu_unified_diff u) (Some d) (fu_content u)))), w))
            (unified_diff_from_chunks_with_mode diff pl fs p chunks mode w))"

fun verify_loop ::
  "(nat \<Rightarrow> string \<Rightarrow> string \<Rightarrow> string) \<Rightarrow> path_lib \<Rightarrow> 'w efs \<Rightarrow> update_mode \<Rightarrow> hunk list
     \<Rightarrow> (path \<times> patch_file_change) list \<Rightarrow> 'w
     \<Rightarrow> ((verify_error + (path \<times> patch_file_change) list) \<times> 'w) option" where
  "verify_loop diff pl fs mode [] changes w = Some (Inr changes, w)"
| "verify_loop diff pl fs mode (h # hs) changes w =
     (case pl_resolve pl (hunk_source h) of
        Inl e \<Rightarrow> Some (Inl (VerifyApply (PathUriError e)), w)
      | Inr p \<Rightarrow>
          if p \<in> set (map fst changes)
          then Some (Inl (VerifyParse (InvalidPatchError (''multiple operations target '' @ pl_native pl p))), w)
          else (case verify_hunk diff pl fs mode p h w of
                  None \<Rightarrow> None
                | Some (Inl e, w) \<Rightarrow> Some (Inl e, w)
                | Some (Inr c, w) \<Rightarrow> verify_loop diff pl fs mode hs (changes @ [(p, c)]) w))"

definition try_verify_apply_patch_args ::
  "(nat \<Rightarrow> string \<Rightarrow> string \<Rightarrow> string) \<Rightarrow> uri_lib \<Rightarrow> 'w efs \<Rightarrow> path \<Rightarrow> update_mode \<Rightarrow> apply_patch_args \<Rightarrow> 'w
     \<Rightarrow> ((verify_error + apply_patch_action) \<times> 'w) option" where
  "try_verify_apply_patch_args diff ul fs cwd mode args w =
     (case (case pa_workdir args of None \<Rightarrow> Inr cwd | Some dir \<Rightarrow> ul_join ul cwd dir) of
        Inl e \<Rightarrow> Some (Inl (VerifyApply (PathUriError e)), w)
      | Inr effective_cwd \<Rightarrow>
          map_option (\<lambda>(r, w).
            (case r of
               Inl e \<Rightarrow> Inl e
             | Inr changes \<Rightarrow>
                 Inr \<lparr>aa_changes = changes, aa_update_file_mode = mode, aa_patch = pa_patch args,
                      aa_cwd = effective_cwd\<rparr>, w))
            (verify_loop diff (lib_at ul effective_cwd) fs mode (pa_hunks args) [] w))"

datatype maybe_verified =
    VerifiedBody apply_patch_action
  | VerifiedShellParseError extract_heredoc_error
  | CorrectnessError verify_error
  | VerifiedNotApplyPatch

definition verify_apply_patch_args_with_mode ::
  "(nat \<Rightarrow> string \<Rightarrow> string \<Rightarrow> string) \<Rightarrow> uri_lib \<Rightarrow> 'w efs \<Rightarrow> path \<Rightarrow> update_mode \<Rightarrow> apply_patch_args \<Rightarrow> 'w
     \<Rightarrow> (maybe_verified \<times> 'w) option" where
  "verify_apply_patch_args_with_mode diff ul fs cwd mode args w =
     map_option (\<lambda>(r, w). (case r of Inr action \<Rightarrow> VerifiedBody action | Inl e \<Rightarrow> CorrectnessError e, w))
       (try_verify_apply_patch_args diff ul fs cwd mode args w)"

definition maybe_parse_apply_patch_verified_with_mode ::
  "(nat \<Rightarrow> string \<Rightarrow> string \<Rightarrow> string) \<Rightarrow> (string \<Rightarrow> bool + query_match list) \<Rightarrow> path_convention option \<Rightarrow> uri_lib
     \<Rightarrow> 'w efs \<Rightarrow> path \<Rightarrow> update_mode \<Rightarrow> string list \<Rightarrow> 'w \<Rightarrow> (maybe_verified \<times> 'w) option" where
  "maybe_parse_apply_patch_verified_with_mode diff query conv ul fs cwd mode argv w =
     (if (case argv of [body] \<Rightarrow> \<not> isl (parse_patch body) | _ \<Rightarrow> False)
      then Some (CorrectnessError ImplicitInvocation, w)
      else if (case parse_shell_script conv argv of
                 Some (_, script) \<Rightarrow> \<not> isl (parse_patch script)
               | None \<Rightarrow> False)
      then Some (CorrectnessError ImplicitInvocation, w)
      else (case maybe_parse_apply_patch query conv argv of
              Body args \<Rightarrow> verify_apply_patch_args_with_mode diff ul fs cwd mode args w
            | ShellParseError e \<Rightarrow> Some (VerifiedShellParseError e, w)
            | PatchParseError e \<Rightarrow> Some (CorrectnessError (VerifyParse e), w)
            | NotApplyPatch \<Rightarrow> Some (VerifiedNotApplyPatch, w)))"

subsection \<open>What is approved and what is done\<close>

text \<open>The effect of an approved change on the texts of paths, the paths it may touch, and the change a hunk
  should give when the files hold \<open>f\<close>.\<close>

fun perform :: "path \<times> patch_file_change \<Rightarrow> (path \<Rightarrow> string option) \<Rightarrow> path \<Rightarrow> string option" where
  "perform (p, FileAdd c) f = f(p \<mapsto> c)"
| "perform (p, FileDelete _) f = f(p := None)"
| "perform (p, FileUpdate _ None c) f = f(p \<mapsto> c)"
| "perform (p, FileUpdate _ (Some dest) c) f = f(dest \<mapsto> c, p := None)"

fun move_target :: "patch_file_change \<Rightarrow> path option" where
  "move_target (FileUpdate _ dest _) = dest"
| "move_target _ = None"

definition change_paths :: "path \<times> patch_file_change \<Rightarrow> path set" where
  "change_paths pc = insert (fst pc) (set_option (move_target (snd pc)))"

fun approves :: "path_lib \<Rightarrow> update_mode \<Rightarrow> (path \<Rightarrow> string option) \<Rightarrow> hunk \<Rightarrow> path \<times> patch_file_change \<Rightarrow> bool" where
  "approves pl mode f (AddFile a bytes) (p, c) \<longleftrightarrow> pl_resolve pl a = Inr p \<and> c = FileAdd bytes"
| "approves pl mode f (DeleteFile a) (p, c) \<longleftrightarrow>
     pl_resolve pl a = Inr p \<and> (\<exists>t. f p = Some t \<and> c = FileDelete t)"
| "approves pl mode f (UpdateFile a move_path chunks) (p, c) \<longleftrightarrow>
     pl_resolve pl a = Inr p
     \<and> (\<exists>t d new. f p = Some t \<and> new_contents t (pl_native pl p) chunks mode = Some (Inr new)
          \<and> (case move_path of
                None \<Rightarrow> c = FileUpdate d None new
              | Some m \<Rightarrow> \<exists>dest. pl_resolve pl m = Inr dest \<and> c = FileUpdate d (Some dest) new))"

text \<open>No file is moved to a path that is itself or that a later hunk works on.\<close>

fun moves_clear :: "(path \<times> patch_file_change) list \<Rightarrow> bool" where
  "moves_clear [] = True"
| "moves_clear (pc # pcs) \<longleftrightarrow>
     (case move_target (snd pc) of None \<Rightarrow> True | Some dest \<Rightarrow> dest \<notin> set (map fst (pc # pcs))) \<and> moves_clear pcs"

lemma derive_new:
  assumes "derive_new_contents_from_chunks (Inr t) p chunks mode = Some (Inr applied)"
  shows "ap_original_contents applied = t \<and> new_contents t p chunks mode = Some (Inr (ap_new_contents applied))"
proof -
  obtain z where "new_contents t p chunks mode = Some z"
    using assms by (auto simp: derive_new_contents_from_chunks_def)
  then show ?thesis using assms by (cases z) (auto simp: derive_new_contents_from_chunks_def)
qed

context text_files
begin

lemma verify_hunk_approves:
  assumes "verify_hunk diff pl fs mode p h w = Some (Inr c, w')" and "pl_resolve pl (hunk_source h) = Inr p"
  shows "files w' = files w \<and> approves pl mode (files w) h (p, c)"
proof (cases h)
  case (AddFile a bytes)
  then show ?thesis using assms by (simp add: verify_hunk_def)
next
  case (DeleteFile a)
  then show ?thesis
    using assms same_files(2) [of p w] read_text [of p w]
    by (auto simp: verify_hunk_def split: prod.splits sum.splits)
next
  case (UpdateFile a move_path chunks)
  obtain r w1 where r: "ef_read_file_text fs p w = (r, w1)" by fastforce
  obtain res where res: "derive_new_contents_from_chunks (map_err ee_text r) (pl_native pl p) chunks mode = Some res"
    using assms(1) UpdateFile r by (auto simp: verify_hunk_def unified_diff_from_chunks_with_mode_def)
  then obtain applied where a: "res = Inr applied"
    using assms(1) UpdateFile r
    by (cases res) (auto simp: verify_hunk_def unified_diff_from_chunks_with_mode_def split: update_error.splits)
  define u where "u = \<lparr>fu_unified_diff = diff 1 (ap_original_contents applied) (ap_new_contents applied),
    fu_original_content = ap_original_contents applied, fu_content = ap_new_contents applied\<rparr>"
  have u: "unified_diff_from_chunks_with_mode diff pl fs p chunks mode w = Some (Inr u, w1)"
    using r res a by (simp add: unified_diff_from_chunks_with_mode_def u_def)
  then have w': "w' = w1" using assms(1) UpdateFile by (simp add: verify_hunk_def)
  have c: "case move_path of None \<Rightarrow> c = FileUpdate (fu_unified_diff u) None (fu_content u)
      | Some m \<Rightarrow> \<exists>dest. pl_resolve pl m = Inr dest \<and> c = FileUpdate (fu_unified_diff u) (Some dest) (fu_content u)"
    using assms(1) UpdateFile u by (auto simp: verify_hunk_def split: option.splits sum.splits)
  obtain t where t: "r = Inr t" using derive_original [OF res [unfolded a]] by (cases r) auto
  have "files w p = Some t" using read_text [of p w t] r t by simp
  moreover have "new_contents t (pl_native pl p) chunks mode = Some (Inr (fu_content u))"
    using derive_new res a t by (simp add: u_def)
  ultimately show ?thesis
    using UpdateFile assms(2) c w' same_files(2) [OF r] by (cases move_path) auto
qed

lemma verify_loop_approves:
  assumes "verify_loop diff pl fs mode hs changes w = Some (Inr changes', w')"
  shows "files w' = files w \<and> (\<exists>new. changes' = changes @ new \<and> list_all2 (approves pl mode (files w)) hs new)
    \<and> (distinct (map fst changes) \<longrightarrow> distinct (map fst changes'))"
  using assms
proof (induction hs arbitrary: changes w)
  case (Cons h hs)
  obtain p c w1 where h: "pl_resolve pl (hunk_source h) = Inr p" "p \<notin> set (map fst changes)"
    "verify_hunk diff pl fs mode p h w = Some (Inr c, w1)"
    "verify_loop diff pl fs mode hs (changes @ [(p, c)]) w1 = Some (Inr changes', w')"
    using Cons.prems by (auto split: sum.splits if_splits option.splits)
  from verify_hunk_approves [OF h(3,1)] Cons.IH [OF h(4)] h(2) show ?case by auto
qed simp

text \<open>A hunk that is carried out, in full.\<close>

lemma add_done:
  assumes "apply_add_hunk pl fs shown p c d w = (Inr aff, d', w')"
  shows "files w' = (files w)(p \<mapsto> c)"
proof -
  obtain ov d1 w1 where o: "read_optional_file_text_for_delta fs p d w = (ov, d1, w1)" by (metis prod_cases3)
  obtain u w2 where u: "write_file_with_missing_parent_retry pl fs p c w1 = (u, w2)" by fastforce
  have "u = Inr ()" "w2 = w'" using assms o u by (cases u; simp add: apply_add_hunk_def)+
  then show ?thesis using write_retry_done u read_optional_step [OF o] by simp
qed

lemma delete_done:
  assumes "apply_delete_hunk pl fs shown p d w = (Inr aff, d', w')"
  shows "files w' = (files w)(p := None)"
proof -
  obtain d1 w1 where n: "note_existing_path_delta_support fs p d w = (d1, w1)" by fastforce
  obtain t w2 where t: "ef_read_file_text fs p w1 = (t, w2)" by fastforce
  define content where "content = (case t of Inr c \<Rightarrow> Some c | Inl _ \<Rightarrow> None)"
  obtain q d3 w3 where q: "remove_checked fs (''Failed to delete file '' @ pl_native pl p) p content
      (and_exact (content \<noteq> None) d1) w2 = (q, d3, w3)"
    by (metis prod_cases3)
  have "q = None" "w3 = w'"
    using assms n t q by (cases q; simp add: apply_delete_hunk_def content_def)+
  then show ?thesis using remove_checked_step [OF q] note_step [OF n] same_files(2) [OF t] by simp
qed

lemma move_done:
  assumes "apply_move pl fs shown p dest original updated d w = (Inr aff, d', w')"
  shows "files w' = (files w)(dest \<mapsto> updated, p := None)"
proof -
  obtain ov d1 w1 where o: "read_optional_file_text_for_delta fs dest d w = (ov, d1, w1)" by (metis prod_cases3)
  obtain u w2 where u: "write_file_with_missing_parent_retry pl fs dest updated w1 = (u, w2)" by fastforce
  obtain q d3 w3 where q: "remove_checked fs (''Failed to remove original '' @ pl_native pl p) p (Some original)
      (push_change dest (ChangeAdd updated ov) d1) w2 = (q, d3, w3)"
    by (metis prod_cases3)
  have v: "u = Inr ()" using assms o u by (cases u) (simp_all add: apply_move_def)
  then have "q = None" "w3 = w'" using assms o u q by (cases q; simp add: apply_move_def)+
  then show ?thesis using remove_checked_step [OF q] write_retry_done u v read_optional_step [OF o] by simp
qed

lemma update_done:
  assumes "apply_update_hunk pl fs mode shown p move_path chunks d w = Some (Inr aff, d', w')"
    and "files w p = Some t" and "new_contents t (pl_native pl p) chunks mode = Some (Inr new)"
  shows "case move_path of
      None \<Rightarrow> files w' = (files w)(p \<mapsto> new)
    | Some m \<Rightarrow> \<forall>dest. pl_resolve pl m = Inr dest \<longrightarrow> files w' = (files w)(dest \<mapsto> new, p := None)"
proof -
  obtain d1 w1 where n: "note_existing_path_delta_support fs p d w = (d1, w1)" by fastforce
  obtain r w2 where r: "ef_read_file_text fs p w1 = (r, w2)" by fastforce
  have fw: "files w1 = files w" "files w2 = files w" using note_step [OF n] same_files(2) [OF r] by simp_all
  obtain res where res: "derive_new_contents_from_chunks (map_err ee_text r) (pl_native pl p) chunks mode = Some res"
    using assms(1) n r by (auto simp: apply_update_hunk_def split: option.splits)
  obtain applied where a: "res = Inr applied"
    using assms(1) n r res by (cases res) (auto simp: apply_update_hunk_def split: update_error.splits)
  obtain c where c: "r = Inr c" using derive_original [OF res [unfolded a]] by (cases r) auto
  have "c = t" using read_text [of p w1 c] r c fw(1) assms(2) by simp
  then have new: "ap_new_contents applied = new" using derive_new [of c] res a c assms(3) by simp
  show ?thesis
  proof (cases move_path)
    case None
    obtain u w3 where u: "ef_write_file fs p new w2 = (u, w3)" by fastforce
    have "u = Inr ()" "w3 = w'"
      using assms(1) n r res a c new None u by (cases u; simp add: apply_update_hunk_def)+
    then show ?thesis using write_done [of p new w2] u fw(2) None by simp
  next
    case (Some m)
    have "files w' = (files w)(dest \<mapsto> new, p := None)" if "pl_resolve pl m = Inr dest" for dest
    proof -
      have "apply_move pl fs shown p dest (ap_original_contents applied) new d1 w2 = (Inr aff, d', w')"
        using assms(1) n r res a c new Some that by (simp add: apply_update_hunk_def)
      then show ?thesis using move_done fw(2) by simp
    qed
    then show ?thesis using Some by simp
  qed
qed

lemma hunk_performs:
  assumes "apply_hunk pl fs mode h d w = Some (Inr aff, d', w')" and "approves pl mode f h pc"
    and "files w (fst pc) = f (fst pc)"
  shows "files w' = perform pc (files w)"
proof (cases pc)
  case (Pair p c)
  show ?thesis
  proof (cases h)
    case (AddFile a bytes)
    then show ?thesis using assms add_done Pair by (auto simp: apply_hunk_def)
  next
    case (DeleteFile a)
    then show ?thesis using assms delete_done Pair by (auto simp: apply_hunk_def)
  next
    case (UpdateFile a move_path chunks)
    obtain t dd new where ap: "pl_resolve pl a = Inr p" "files w p = Some t"
      "new_contents t (pl_native pl p) chunks mode = Some (Inr new)"
      "case move_path of None \<Rightarrow> c = FileUpdate dd None new
        | Some m \<Rightarrow> \<exists>dest. pl_resolve pl m = Inr dest \<and> c = FileUpdate dd (Some dest) new"
      using assms(2,3) Pair UpdateFile by auto
    have "apply_update_hunk pl fs mode (hunk_path h) p move_path chunks d w = Some (Inr aff, d', w')"
      using assms(1) UpdateFile ap(1) by (simp add: apply_hunk_def)
    from update_done [OF this ap(2,3)] ap(4) show ?thesis by (cases move_path) (auto simp: Pair)
  qed
qed

lemma loop_performs:
  assumes "apply_hunk_loop pl fs mode hs a d w = Some (Inr a', d', w')"
    and "list_all2 (approves pl mode f) hs pcs" and "\<forall>p\<in>set (map fst pcs). files w p = f p"
    and "distinct (map fst pcs)" and "moves_clear pcs"
  shows "files w' = fold perform pcs (files w)"
  using assms
proof (induction hs arbitrary: pcs a d w)
  case (Cons h hs)
  obtain pc pcs' where pcs: "pcs = pc # pcs'" "approves pl mode f h pc" "list_all2 (approves pl mode f) hs pcs'"
    using Cons.prems(2) by (auto simp: list_all2_Cons1)
  obtain aff d1 w1 where h: "apply_hunk pl fs mode h d w = Some (Inr aff, d1, w1)"
    "apply_hunk_loop pl fs mode hs (note_affected aff a) d1 w1 = Some (Inr a', d', w')"
    using Cons.prems(1) by (auto split: option.splits sum.splits)
  have w1: "files w1 = perform pc (files w)" using hunk_performs [OF h(1) pcs(2)] Cons.prems(3) pcs(1) by simp
  have "files w1 p = f p" if "p \<in> set (map fst pcs')" for p
  proof -
    have "p \<noteq> fst pc" "move_target (snd pc) \<noteq> Some p" "files w p = f p"
      using that Cons.prems(3-5) pcs(1) by (force split: option.splits)+
    then show ?thesis unfolding w1 by (cases pc; cases "snd pc"; cases "move_target (snd pc)") auto
  qed
  then show ?case using Cons.IH [OF h(2) pcs(3)] Cons.prems(4,5) pcs(1) w1 by simp
qed simp

text \<open>Whatever happens to a hunk, it leaves the paths alone that it is not about.\<close>

lemma write_frame: "ef_write_file fs p c w = (u, w') \<Longrightarrow> q \<noteq> p \<Longrightarrow> files w' q = files w q"
  using write_done [of p c w] write_failed [of p c w _ q] by (cases u) simp_all

lemma write_retry_frame:
  assumes "write_file_with_missing_parent_retry pl fs p c w = (r, w')" and "q \<noteq> p"
  shows "files w' q = files w q"
proof -
  obtain u w1 where u: "ef_write_file fs p c w = (u, w1)" by fastforce
  define mk where "mk = (case pl_parent pl p of None \<Rightarrow> (Inr (), w1) | Some q \<Rightarrow> ef_create_directory fs q w1)"
  obtain m w2 where m: "mk = (m, w2)" by fastforce
  have w2: "files w2 = files w1" using m by (auto simp: mk_def same_files(3) split: option.splits)
  obtain s w3 where s: "ef_write_file fs p c w2 = (s, w3)" by fastforce
  have "w' \<in> {w1, w2, w3}"
    using assms(1) u m s
    by (auto simp: write_file_with_missing_parent_retry_def mk_def [symmetric] split: if_splits sum.splits)
  then show ?thesis using write_frame [OF u assms(2)] write_frame [OF s assms(2)] w2 by auto
qed

lemma remove_checked_frame:
  assumes "remove_checked fs context p expected d w = (r, d', w')" and "q \<noteq> p"
  shows "files w' q = files w q"
proof -
  obtain e w1 where e: "ensure_not_directory fs p w = (e, w1)" by fastforce
  obtain s w2 where s: "ef_remove fs p w1 = (s, w2)" by fastforce
  obtain ok w3 where k: "remove_failure_was_side_effect_free fs p expected w2 = (ok, w3)" by fastforce
  have w3: "files w3 = files w2"
    using k same_files(2) [of p w2]
    by (cases expected) (auto simp: remove_failure_was_side_effect_free_def split: prod.splits)
  have w2: "files w2 q = files w1 q"
    using s assms(2) remove_done [of p w1] remove_failed [of p w1 _ q] by (cases s) simp_all
  have "w' \<in> {w1, w2, w3}" using assms(1) e s k by (auto simp: remove_checked_def split: sum.splits)
  then show ?thesis using ensure_files [OF e] w2 w3 by auto
qed

lemma move_frame:
  assumes "apply_move pl fs shown p dest original updated d w = (r, d', w')" and "q \<noteq> p" and "q \<noteq> dest"
  shows "files w' q = files w q"
proof -
  obtain ov d1 w1 where o: "read_optional_file_text_for_delta fs dest d w = (ov, d1, w1)" by (metis prod_cases3)
  obtain u w2 where u: "write_file_with_missing_parent_retry pl fs dest updated w1 = (u, w2)" by fastforce
  obtain e d3 w3 where rc: "remove_checked fs (''Failed to remove original '' @ pl_native pl p) p (Some original)
      (push_change dest (ChangeAdd updated ov) d1) w2 = (e, d3, w3)"
    by (metis prod_cases3)
  have "w' \<in> {w2, w3}" using assms(1) o u rc by (auto simp: apply_move_def split: sum.splits option.splits)
  then show ?thesis
    using read_optional_step [OF o] write_retry_frame [OF u assms(3)] remove_checked_frame [OF rc assms(2)] by auto
qed

lemma update_frame:
  assumes "apply_update_hunk pl fs mode shown p move_path chunks d w = Some (r, d', w')" and "q \<noteq> p"
    and "\<And>m. move_path = Some m \<Longrightarrow> pl_resolve pl m \<noteq> Inr q"
  shows "files w' q = files w q"
proof -
  obtain d1 w1 where n: "note_existing_path_delta_support fs p d w = (d1, w1)" by fastforce
  obtain t w2 where t: "ef_read_file_text fs p w1 = (t, w2)" by fastforce
  have fw: "files w2 = files w" using note_step [OF n] same_files(2) [OF t] by simp
  obtain res where res: "derive_new_contents_from_chunks (map_err ee_text t) (pl_native pl p) chunks mode = Some res"
    using assms(1) n t by (auto simp: apply_update_hunk_def split: option.splits)
  show ?thesis
  proof (cases res)
    case (Inl e)
    then have "w' = w2" using assms(1) n t res by (cases e) (auto simp: apply_update_hunk_def)
    then show ?thesis using fw by simp
  next
    case (Inr applied)
    show ?thesis
    proof (cases move_path)
      case None
      obtain u w3 where u: "ef_write_file fs p (ap_new_contents applied) w2 = (u, w3)" by fastforce
      then have "w' = w3"
        using assms(1) n t res Inr None by (cases u) (simp_all add: apply_update_hunk_def)
      then show ?thesis using write_frame [OF u assms(2)] fw by simp
    next
      case (Some m)
      show ?thesis
      proof (cases "pl_resolve pl m")
        case (Inl e)
        then show ?thesis using assms(1) n t res Inr Some fw by (simp add: apply_update_hunk_def)
      next
        case dest: (Inr dest)
        have "apply_move pl fs shown p dest (ap_original_contents applied) (ap_new_contents applied) d1 w2 = (r, d', w')"
          using assms(1) n t res Inr Some dest by (simp add: apply_update_hunk_def)
        from move_frame [OF this assms(2)] assms(3) [OF Some] dest fw show ?thesis by auto
      qed
    qed
  qed
qed

lemma hunk_frame:
  assumes "apply_hunk pl fs mode h d w = Some (r, d', w')" and "approves pl mode f h pc" and "q \<notin> change_paths pc"
  shows "files w' q = files w q"
proof (cases pc)
  case (Pair p c)
  have q: "q \<noteq> p" "move_target c \<noteq> Some q" using assms(3) Pair by (auto simp: change_paths_def)
  show ?thesis
  proof (cases h)
    case (AddFile a bytes)
    obtain ov d1 w1 where o: "read_optional_file_text_for_delta fs p d w = (ov, d1, w1)" by (metis prod_cases3)
    obtain u w2 where u: "write_file_with_missing_parent_retry pl fs p bytes w1 = (u, w2)" by fastforce
    have "w' = w2"
      using assms(1,2) Pair AddFile o u by (auto simp: apply_hunk_def apply_add_hunk_def split: sum.splits)
    then show ?thesis using read_optional_step [OF o] write_retry_frame [OF u q(1)] by simp
  next
    case (DeleteFile a)
    obtain d1 w1 where n: "note_existing_path_delta_support fs p d w = (d1, w1)" by fastforce
    obtain t w2 where t: "ef_read_file_text fs p w1 = (t, w2)" by fastforce
    define content where "content = (case t of Inr c \<Rightarrow> Some c | Inl _ \<Rightarrow> None)"
    obtain e d3 w3 where rc: "remove_checked fs (''Failed to delete file '' @ pl_native pl p) p content
        (and_exact (content \<noteq> None) d1) w2 = (e, d3, w3)"
      by (metis prod_cases3)
    have "w' = w3"
      using assms(1,2) Pair DeleteFile n t rc
      by (auto simp: apply_hunk_def apply_delete_hunk_def content_def split: option.splits)
    then show ?thesis using note_step [OF n] same_files(2) [OF t] remove_checked_frame [OF rc q(1)] by simp
  next
    case (UpdateFile a move_path chunks)
    then have "apply_update_hunk pl fs mode (hunk_path h) p move_path chunks d w = Some (r, d', w')"
      using assms(1,2) Pair by (simp add: apply_hunk_def)
    then show ?thesis
      by (rule update_frame) (use assms(2) q Pair UpdateFile in \<open>auto split: option.splits\<close>)
  qed
qed

lemma loop_frame:
  assumes "apply_hunk_loop pl fs mode hs a d w = Some (r, d', w')" and "list_all2 (approves pl mode f) hs pcs"
    and "\<forall>pc\<in>set pcs. q \<notin> change_paths pc"
  shows "files w' q = files w q"
  using assms
proof (induction hs arbitrary: pcs a d w)
  case (Cons h hs)
  obtain pc pcs' where pcs: "pcs = pc # pcs'" "approves pl mode f h pc" "list_all2 (approves pl mode f) hs pcs'"
    using Cons.prems(2) by (auto simp: list_all2_Cons1)
  obtain x d1 w1 where h: "apply_hunk pl fs mode h d w = Some (x, d1, w1)"
    using Cons.prems(1) by (auto split: option.splits)
  have w1: "files w1 q = files w q" using hunk_frame [OF h pcs(2)] Cons.prems(3) pcs(1) by simp
  show ?case
  proof (cases x)
    case (Inl e)
    then show ?thesis using Cons.prems(1) h w1 by simp
  next
    case (Inr aff)
    then have "apply_hunk_loop pl fs mode hs (note_affected aff a) d1 w1 = Some (r, d', w')"
      using Cons.prems(1) h by simp
    from Cons.IH [OF this pcs(3)] Cons.prems(3) pcs(1) w1 show ?thesis by simp
  qed
qed simp

end

end
