(* ===== verification/Patch_Reparse.thy ===== *)
theory Patch_Reparse
  imports Patch_Parser
begin

text \<open>
  The text an accepted patch is kept as (\<open>ApplyPatchArgs::patch\<close>) reads back as the same hunks. The
  file holds what this needs of trimming and of joined lines.
\<close>

subsection \<open>Characters and trimming\<close>

lemma utf8_chars_suffix: "utf8_chars s = xs @ ys \<Longrightarrow> utf8_chars (concat ys) = ys"
proof (induction s arbitrary: xs rule: utf8_chars.induct)
  case (2 b bs)
  show ?case
  proof (cases xs)
    case Nil
    then have "concat ys = b # bs" using 2(2) concat_utf8_chars [of "b # bs"] by simp
    then show ?thesis using 2(2) Nil by simp
  next
    case (Cons g gs)
    then show ?thesis using 2 by simp
  qed
qed simp

lemma dropWhile_idem [simp]: "dropWhile P (dropWhile P xs) = dropWhile P xs"
  by (induction xs) auto

lemma trim_trim_start: "trim (trim_start s) = trim s"
proof -
  have "utf8_chars s = takeWhile is_whitespace (utf8_chars s) @ dropWhile is_whitespace (utf8_chars s)" by simp
  from utf8_chars_suffix [OF this] show ?thesis by (simp add: trim_def trim_start_def)
qed

lemma trim_trim_end: "trim (trim_end s) = trim s"
proof -
  let ?g = "rev (dropWhile is_whitespace (rev (utf8_chars s)))"
  have "utf8_chars s = ?g @ rev (takeWhile is_whitespace (rev (utf8_chars s)))"
    by (metis rev_append rev_rev_ident takeWhile_dropWhile_id)
  then have "utf8_chars (concat ?g) = ?g" by (rule utf8_chars_prefix)
  then have "trim_end (trim_end s) = trim_end s" by (simp add: trim_end_def)
  then show ?thesis by (simp add: trim_via_trim_end)
qed

lemma trim_nonempty: "trim s \<noteq> [] \<Longrightarrow> \<exists>g\<in>set (utf8_chars s). \<not> is_whitespace g"
  by (rule ccontr) (simp add: trim_def dropWhile_all)

lemma trim_middle:
  assumes "utf8_chars s = a @ m @ b" and "g \<in> set a" "\<not> is_whitespace g" and "h \<in> set b" "\<not> is_whitespace h"
  shows "trim s = concat (dropWhile is_whitespace a) @ concat m @ concat (rev (dropWhile is_whitespace (rev b)))"
proof -
  have "dropWhile is_whitespace (a @ m @ b) = dropWhile is_whitespace a @ m @ b"
    using assms(2,3) by (rule dropWhile_append1)
  moreover have "dropWhile is_whitespace (rev b @ rev m @ rev (dropWhile is_whitespace a)) =
    dropWhile is_whitespace (rev b) @ rev m @ rev (dropWhile is_whitespace a)"
    using assms(4,5) by (intro dropWhile_append1 [where x = h]) simp_all
  ultimately show ?thesis by (simp add: trim_def assms(1))
qed

lemma whitespace_not_cont: "is_cont c \<Longrightarrow> \<not> is_whitespace (c # g)"
  by (auto simp: is_whitespace_def white_space_def is_cont_def)

lemma trim_cont:
  assumes "is_cont c"
  shows "\<exists>t. trim (c # s) = c # t"
proof -
  define g R where "g = c # takeWhile is_cont s" and "R = utf8_chars (dropWhile is_cont s)"
  have g: "\<not> is_whitespace g" unfolding g_def using assms by (rule whitespace_not_cont)
  have "\<exists>xs. dropWhile is_whitespace (rev R @ [g]) = xs @ [g]"
    using g by (induction "rev R") (metis dropWhile_append append_Nil dropWhile.simps)+
  then obtain xs where "dropWhile is_whitespace (rev R @ [g]) = xs @ [g]" by blast
  then have "trim (c # s) = concat (g # rev xs)" using g by (simp add: trim_def g_def R_def)
  then show ?thesis by (simp add: g_def)
qed

lemma set_trim_start: "set (trim_start s) \<subseteq> set s"
proof -
  have "set (concat (dropWhile P gs)) \<subseteq> set (concat gs)" for P and gs :: "string list"
    by (auto dest: set_dropWhileD)
  from this [of is_whitespace "utf8_chars s"] show ?thesis by (simp add: trim_start_def)
qed

lemma set_trim_end: "set (trim_end s) \<subseteq> set s"
proof -
  have "set (concat (rev (dropWhile P (rev gs)))) \<subseteq> set (concat gs)" for P and gs :: "string list"
    by (auto dest!: set_dropWhileD)
  from this [of is_whitespace "utf8_chars s"] show ?thesis by (simp add: trim_end_def)
qed

subsection \<open>Joined lines\<close>

lemma join_lf_ends: "join_lf (a # mid @ [b]) = a @ (lf # concat (map (\<lambda>l. l @ [lf]) mid)) @ b"
  by (induction mid arbitrary: a) simp_all

lemma set_join_lf: "l \<in> set ls \<Longrightarrow> set l \<subseteq> set (join_lf ls)"
  by (induction ls rule: join_lf.induct) auto

lemma split_lf_line: "lf \<notin> set l \<Longrightarrow> split_lf (l @ lf # s) = l # split_lf s"
proof (induction l)
  case Nil
  show ?case by (cases "split_lf s") auto
qed auto

lemma split_lf_plain: "lf \<notin> set l \<Longrightarrow> split_lf l = [l]"
  by (induction l) auto

lemma split_join_lf: "ls \<noteq> [] \<Longrightarrow> \<forall>l\<in>set ls. lf \<notin> set l \<Longrightarrow> split_lf (join_lf ls) = ls"
  by (induction ls rule: join_lf.induct) (auto simp: split_lf_line split_lf_plain)

lemma str_lines_join:
  assumes "ls \<noteq> []" and "last ls \<noteq> []" and "\<forall>l\<in>set ls. lf \<notin> set l \<and> cr \<notin> set l"
  shows "str_lines (join_lf ls) = ls"
  using assms
proof (induction ls rule: join_lf.induct)
  case (2 l)
  then show ?case by (simp add: str_lines_def split_inclusive_plain line_of_plain)
next
  case (3 l m ls)
  then have "l = [] \<or> last l \<noteq> cr" by (metis last_in_set list.set_intros(1))
  then have "line_of (l @ [lf]) = l" using 3(4) by (simp add: line_of_snoc)
  then show ?case using 3 by (simp add: str_lines_def split_inclusive_line)
qed simp

lemma split_inclusive_butlast: "l \<in> set (split_inclusive s) \<Longrightarrow> lf \<notin> set (butlast l)"
proof (induction s arbitrary: l)
  case (Cons c cs)
  then show ?case by (auto split: if_splits list.splits)
qed simp

lemma str_lines_no_lf: "l \<in> set (str_lines s) \<Longrightarrow> lf \<notin> set l"
proof -
  assume "l \<in> set (str_lines s)"
  then obtain p where p: "p \<in> set (split_inclusive s)" "l = line_of p" by (auto simp: str_lines_def)
  have "lf \<notin> set (butlast p)" using split_inclusive_butlast p(1) .
  then show ?thesis
    using p(2) by (cases p rule: rev_cases)
      (auto simp: line_of_def strip_suffix_char_def dest: in_set_butlastD split: if_splits)
qed

subsection \<open>Reading the kept text\<close>

definition framed :: "string list \<Rightarrow> bool" where
  "framed ls \<longleftrightarrow> ls \<noteq> [] \<and> trim (hd ls) = BEGIN_PATCH_MARKER \<and> trim (last ls) = END_PATCH_MARKER"

lemma strict_framed: "check_patch_boundaries_strict ls = Inr ls' \<longleftrightarrow> ls' = ls \<and> framed ls"
  by (auto simp: check_patch_boundaries_strict_def check_start_and_end_lines_strict_def framed_def)

lemma lenient_framed:
  assumes "check_patch_boundaries_lenient ls = Inr ls'"
  shows "framed ls' \<and> set ls' \<subseteq> set ls"
proof (cases "check_patch_boundaries_strict ls")
  case (Inl e)
  then have "check_patch_boundaries_strict (butlast (tl ls)) = Inr ls'"
    using assms by (auto simp: check_patch_boundaries_lenient_def split: if_splits)
  then show ?thesis by (cases ls) (auto simp: strict_framed dest: in_set_butlastD)
next
  case (Inr l)
  then have "ls' = l" using assms by (simp add: check_patch_boundaries_lenient_def)
  then show ?thesis using Inr by (simp add: strict_framed)
qed

lemma framed_ends:
  assumes "framed ls"
  obtains a mid b where "ls = a # mid @ [b]" "trim a = BEGIN_PATCH_MARKER" "trim b = END_PATCH_MARKER"
proof (cases ls)
  case (Cons a rest)
  have "rest \<noteq> []"
    using assms Cons by (auto simp: framed_def BEGIN_PATCH_MARKER_def END_PATCH_MARKER_def)
  then obtain mid b where "rest = mid @ [b]" by (cases rest rule: rev_cases) auto
  then show ?thesis using that [of a mid b] assms Cons by (simp add: framed_def)
qed (use assms in \<open>simp add: framed_def\<close>)

text \<open>Trimming the joined lines trims the first and the last.\<close>

lemma trim_join:
  assumes "trim a = BEGIN_PATCH_MARKER" and "trim b = END_PATCH_MARKER"
  shows "trim (join_lf (a # mid @ [b])) = join_lf (trim_start a # mid @ [trim_end b])"
proof -
  let ?m = "lf # concat (map (\<lambda>l. l @ [lf]) mid)"
  have "\<not> is_cont (hd b)" if nb: "b \<noteq> []"
  proof
    assume "is_cont (hd b)"
    then obtain t where "trim b = hd b # t" using trim_cont [of "hd b" "tl b"] nb by auto
    then have "hd b = CHR ''*''" using assms(2) by (simp add: END_PATCH_MARKER_def)
    with \<open>is_cont (hd b)\<close> show False by (simp add: is_cont_def)
  qed
  then have "utf8_chars (?m @ b) = utf8_chars ?m @ utf8_chars b" by (intro utf8_chars_append) blast
  moreover have "utf8_chars (a @ ?m @ b) = utf8_chars a @ utf8_chars (?m @ b)"
    by (rule utf8_chars_append) (simp add: is_cont_def)
  ultimately have u: "utf8_chars (a @ ?m @ b) = utf8_chars a @ utf8_chars ?m @ utf8_chars b" by simp
  obtain g where g: "g \<in> set (utf8_chars a)" "\<not> is_whitespace g"
    using trim_nonempty [of a] assms(1) by (auto simp: BEGIN_PATCH_MARKER_def)
  obtain h where h: "h \<in> set (utf8_chars b)" "\<not> is_whitespace h"
    using trim_nonempty [of b] assms(2) by (auto simp: END_PATCH_MARKER_def)
  show ?thesis
    unfolding join_lf_ends using trim_middle [OF u g h] by (simp add: trim_start_def trim_end_def)
qed

text \<open>The parser looks at the first and the last line only up to white space.\<close>

lemma process_first_line:
  assumes "trim a = trim a'"
  shows "process_line a (next_line parser_default) = process_line a' (next_line parser_default)"
  using assms by (simp add: process_line_def next_line_def parser_default_def Let_def)

lemma finish_last_line:
  assumes "trim b = END_PATCH_MARKER" and "trim b' = END_PATCH_MARKER"
  shows "finish (p\<lparr>sp_line_buffer := b\<rparr>) = finish (p\<lparr>sp_line_buffer := b'\<rparr>)"
proof -
  have "b \<noteq> []" "b' \<noteq> []" using assms by (auto simp: trim_def END_PATCH_MARKER_def)
  then show ?thesis
    using assms by (simp add: finish_def finish_line_def next_line_def Let_def)
qed

definition parse_lines_of :: "string list \<Rightarrow> parse_error + streaming_parser" where
  "parse_lines_of ls =
     (case push_delta (join_lf ls) parser_default of (Inl err, _) \<Rightarrow> Inl err | (Inr _, p) \<Rightarrow> finish p)"

lemma parse_lines_of_ends:
  assumes "\<forall>l\<in>set (a # mid @ [b]). lf \<notin> set l"
  shows "parse_lines_of (a # mid @ [b]) =
    result_bind (run_lines (a # mid) parser_default) (\<lambda>p. finish (p\<lparr>sp_line_buffer := b\<rparr>))"
proof -
  have sp: "split_lf (join_lf (a # mid @ [b])) = a # mid @ [b]" using split_join_lf assms by blast
  have "(case push_chars (join_lf (a # mid @ [b])) parser_default of (None, p') \<Rightarrow> Inr p' | (Some err, _) \<Rightarrow> Inl err) =
    result_bind (run_lines (a # mid) parser_default) (\<lambda>p. Inr (p\<lparr>sp_line_buffer := b\<rparr>))"
    using push_chars_lines [of "join_lf (a # mid @ [b])" parser_default] unfolding sp
    by (simp add: parser_default_def)
  then show ?thesis
    by (cases "run_lines (a # mid) parser_default"; cases "push_chars (join_lf (a # mid @ [b])) parser_default")
      (auto simp: parse_lines_of_def push_delta_def split: option.splits)
qed

lemma parse_patch_via_lines:
  "parse_patch patch = result_bind (check_patch_boundaries_lenient (str_lines (trim patch)))
     (\<lambda>ls. result_bind (parse_lines_of ls) (\<lambda>p. Inr \<lparr>pa_hunks = sp_hunks p, pa_patch = join_lf ls,
        pa_workdir = None, pa_environment_id = sp_environment_id p\<rparr>))"
proof -
  have "(case push_delta (join_lf ls) parser_default of (Inl err, _) \<Rightarrow> Inl err | (Inr _, p) \<Rightarrow> result_bind (finish p) k) =
    result_bind (parse_lines_of ls) k" for ls and k :: "streaming_parser \<Rightarrow> parse_error + apply_patch_args"
    by (simp add: parse_lines_of_def split: prod.split sum.split)
  then show ?thesis by (simp add: parse_patch_def parse_patch_text_def PARSE_IN_STRICT_MODE_def Let_def)
qed

lemma reparse:
  assumes "parse_patch patch = Inr args" and "cr \<notin> set (pa_patch args)"
  shows "\<exists>args'. parse_patch (pa_patch args) = Inr args' \<and> pa_hunks args' = pa_hunks args
    \<and> pa_environment_id args' = pa_environment_id args"
proof -
  obtain ls p where ls: "check_patch_boundaries_lenient (str_lines (trim patch)) = Inr ls"
    and p: "parse_lines_of ls = Inr p"
    and args: "pa_hunks args = sp_hunks p" "pa_patch args = join_lf ls" "pa_environment_id args = sp_environment_id p"
    using assms(1) by (auto simp: parse_patch_via_lines result_bind_eq_Inr)
  obtain a mid b where ab: "ls = a # mid @ [b]" "trim a = BEGIN_PATCH_MARKER" "trim b = END_PATCH_MARKER"
    using framed_ends lenient_framed [OF ls] by blast
  define ls' where "ls' = trim_start a # mid @ [trim_end b]"
  have plain: "\<forall>l\<in>set ls. lf \<notin> set l \<and> cr \<notin> set l"
    using lenient_framed [OF ls] str_lines_no_lf set_join_lf [of _ ls] assms(2) args(2) by (metis subsetD)
  then have plain': "\<forall>l\<in>set ls'. lf \<notin> set l \<and> cr \<notin> set l"
    using set_trim_start [of a] set_trim_end [of b] by (auto simp: ls'_def ab(1))
  have ends': "trim (trim_start a) = BEGIN_PATCH_MARKER" "trim (trim_end b) = END_PATCH_MARKER"
    using ab by (simp_all add: trim_trim_start trim_trim_end)
  have "trim_end b \<noteq> []" using ends'(2) by (auto simp: trim_def END_PATCH_MARKER_def)
  then have "str_lines (trim (pa_patch args)) = ls'"
    using str_lines_join [of ls'] plain' trim_join [OF ab(2,3)] by (simp add: args(2) ab(1) ls'_def)
  moreover have "framed ls'" using ends' by (simp add: framed_def ls'_def)
  then have "check_patch_boundaries_lenient ls' = Inr ls'"
    using strict_framed [of ls' ls'] by (simp add: check_patch_boundaries_lenient_def)
  moreover have "strip_cr l = l" if "cr \<notin> set l" for l
    using that by (cases l rule: rev_cases) (auto simp: strip_cr_def strip_suffix_char_def)
  then have "run_lines (a # mid) parser_default = run_lines (trim_start a # mid) parser_default"
    using process_first_line [of a "trim_start a"] plain plain' by (simp add: trim_trim_start ab(1) ls'_def)
  then have "parse_lines_of ls' = parse_lines_of ls"
    using parse_lines_of_ends [of a mid b] parse_lines_of_ends [of "trim_start a" mid "trim_end b"] plain plain'
      finish_last_line [OF ab(3) ends'(2)] by (simp add: ab(1) ls'_def)
  ultimately show ?thesis using p args by (simp add: parse_patch_via_lines)
qed

end
