(* ===== verification/Fs_Policy.thy ===== *)
theory Fs_Policy
  imports Abs_Path Exec_Rule "HOL-Library.Product_Lexorder"
begin

text \<open>
  File system sandbox policies on Unix, from \<open>protocol/src/permissions.rs\<close>: entries that give or deny
  access below a path, the access of a path, the protected metadata directories, and the operations that
  change a policy. What a policy asks of its surroundings is the record \<open>fs_env\<close>: the home and current
  directories, the variable \<open>TMPDIR\<close>, whether \<open>/tmp\<close> is a directory, and the conversions between path URIs
  and absolute paths.
\<close>

datatype access_mode = ReadAccess | WriteAccess | DenyAccess

fun access_rank :: "access_mode \<Rightarrow> nat" where
  "access_rank ReadAccess = 0"
| "access_rank WriteAccess = 1"
| "access_rank DenyAccess = 2"

lemma access_rank_inject [simp]: "access_rank a = access_rank b \<longleftrightarrow> a = b"
  by (cases a; cases b) simp_all

instantiation access_mode :: linorder
begin

definition less_eq_access_mode :: "access_mode \<Rightarrow> access_mode \<Rightarrow> bool" where
  "a \<le> b \<longleftrightarrow> access_rank a \<le> access_rank b"

definition less_access_mode :: "access_mode \<Rightarrow> access_mode \<Rightarrow> bool" where
  "a < b \<longleftrightarrow> access_rank a < access_rank b"

instance
  by standard (auto simp: less_eq_access_mode_def less_access_mode_def)

end

fun can_read :: "access_mode \<Rightarrow> bool" where
  "can_read DenyAccess = False"
| "can_read _ = True"

fun can_write :: "access_mode \<Rightarrow> bool" where
  "can_write WriteAccess = True"
| "can_write _ = False"

datatype special_path =
    RootPath
  | MinimalPath
  | ProjectRoots "string option"
  | TmpdirPath
  | SlashTmpPath
  | UnknownPath string "string option"

datatype file_system_path =
    PathEntry path
  | GlobEntry string
  | SpecialEntry special_path

record sandbox_entry =
  se_path :: file_system_path
  se_access :: access_mode
  se_skip_missing :: bool

definition entry_new :: "file_system_path \<Rightarrow> access_mode \<Rightarrow> sandbox_entry" where
  "entry_new p a = \<lparr>se_path = p, se_access = a, se_skip_missing = False\<rparr>"

definition entry_skip_missing_path :: "file_system_path \<Rightarrow> access_mode \<Rightarrow> sandbox_entry" where
  "entry_skip_missing_path p a = \<lparr>se_path = p, se_access = a, se_skip_missing = True\<rparr>"

datatype sandbox_kind = Restricted | Unrestricted | ExternalSandbox

record sandbox_policy =
  pol_kind :: sandbox_kind
  pol_glob_scan_max_depth :: "nat option"
  pol_entries :: "sandbox_entry list"

record resolved_entry =
  re_path :: path
  re_access :: access_mode

record fs_env =
  fe_home :: "path option"
  fe_current_dir :: "path option"
  fe_tmpdir :: "string option"
  fe_slash_tmp_is_dir :: bool
  fe_to_abs :: "path \<Rightarrow> path option"
  fe_to_uri :: "path \<Rightarrow> path"

definition PROTECTED_METADATA_PATH_NAMES :: "string list" where
  "PROTECTED_METADATA_PATH_NAMES = [''.git'', ''.agents'', ''.codex'']"

definition PROJECT_ROOTS_GLOB_PATTERN_PREFIX :: string where
  "PROJECT_ROOTS_GLOB_PATTERN_PREFIX = ''codex-project-roots://''"

subsection \<open>Paths\<close>

text \<open>\<open>Path::starts_with\<close> and \<open>Path::strip_prefix\<close> compare components.\<close>

definition path_starts_with :: "path \<Rightarrow> path \<Rightarrow> bool" where
  "path_starts_with p base \<longleftrightarrow> take (length (components base)) (components p) = components base"

definition path_strip_prefix :: "path \<Rightarrow> path \<Rightarrow> component list option" where
  "path_strip_prefix p base =
     (if path_starts_with p base then Some (drop (length (components base)) (components p)) else None)"

definition env_absolute :: "fs_env \<Rightarrow> path \<Rightarrow> path option" where
  "env_absolute env p = from_absolute_path (fe_home env) (fe_current_dir env) p"

definition env_join :: "fs_env \<Rightarrow> path \<Rightarrow> path \<Rightarrow> path" where
  "env_join env base p = resolve_path_against_base (fe_home env) p base"

definition resolve_candidate_path :: "fs_env \<Rightarrow> path \<Rightarrow> path \<Rightarrow> path option" where
  "resolve_candidate_path env p cwd =
     (if is_absolute p then env_absolute env p
      else map_option (\<lambda>c. env_join env c p) (env_absolute env cwd))"

definition absolute_root_path_for_cwd :: "path \<Rightarrow> path" where
  "absolute_root_path_for_cwd cwd = ''/''"

definition resolve_file_system_special_path :: "fs_env \<Rightarrow> special_path \<Rightarrow> path option \<Rightarrow> path option" where
  "resolve_file_system_special_path env value cwd =
     (case value of
        ProjectRoots subpath \<Rightarrow>
          map_option (\<lambda>c. case subpath of Some s \<Rightarrow> env_join env c s | None \<Rightarrow> c) cwd
      | TmpdirPath \<Rightarrow>
          (case fe_tmpdir env of
             Some t \<Rightarrow> if t = [] then None else env_absolute env t
           | None \<Rightarrow> None)
      | SlashTmpPath \<Rightarrow> if fe_slash_tmp_is_dir env then Some ''/tmp'' else None
      | _ \<Rightarrow> None)"

definition resolve_file_system_path :: "fs_env \<Rightarrow> file_system_path \<Rightarrow> path option \<Rightarrow> path option" where
  "resolve_file_system_path env p cwd =
     (case p of
        PathEntry u \<Rightarrow> fe_to_abs env u
      | GlobEntry _ \<Rightarrow> None
      | SpecialEntry value \<Rightarrow> resolve_file_system_special_path env value cwd)"

definition resolve_entry_path :: "fs_env \<Rightarrow> file_system_path \<Rightarrow> path option \<Rightarrow> path option" where
  "resolve_entry_path env p cwd =
     (case p of
        SpecialEntry RootPath \<Rightarrow> map_option absolute_root_path_for_cwd cwd
      | _ \<Rightarrow> resolve_file_system_path env p cwd)"

definition resolved_entries_with_cwd :: "fs_env \<Rightarrow> sandbox_policy \<Rightarrow> path \<Rightarrow> resolved_entry list" where
  "resolved_entries_with_cwd env pol cwd =
     List.map_filter (\<lambda>e. map_option (\<lambda>p. \<lparr>re_path = p, re_access = se_access e\<rparr>)
       (resolve_entry_path env (se_path e) (env_absolute env cwd))) (pol_entries pol)"

subsection \<open>Access\<close>

text \<open>\<open>Iterator::max_by_key\<close> gives the last of the greatest.\<close>

fun max_by_key :: "('a \<Rightarrow> 'k::linorder) \<Rightarrow> 'a list \<Rightarrow> 'a option" where
  "max_by_key key [] = None"
| "max_by_key key (x # xs) =
     (case max_by_key key xs of
        None \<Rightarrow> Some x
      | Some y \<Rightarrow> if key x \<le> key y then Some y else Some x)"

definition resolved_entry_precedence :: "resolved_entry \<Rightarrow> nat \<times> access_mode" where
  "resolved_entry_precedence e = (length (components (re_path e)), re_access e)"

definition resolve_access_with_cwd :: "fs_env \<Rightarrow> sandbox_policy \<Rightarrow> path \<Rightarrow> path \<Rightarrow> access_mode" where
  "resolve_access_with_cwd env pol p cwd =
     (if pol_kind pol \<noteq> Restricted then WriteAccess
      else case resolve_candidate_path env p cwd of
        None \<Rightarrow> DenyAccess
      | Some q \<Rightarrow>
          (case max_by_key resolved_entry_precedence
                  (filter (\<lambda>e. path_starts_with q (re_path e)) (resolved_entries_with_cwd env pol cwd)) of
             Some e \<Rightarrow> re_access e
           | None \<Rightarrow> DenyAccess))"

definition can_read_path_with_cwd :: "fs_env \<Rightarrow> sandbox_policy \<Rightarrow> path \<Rightarrow> path \<Rightarrow> bool" where
  "can_read_path_with_cwd env pol p cwd = can_read (resolve_access_with_cwd env pol p cwd)"

definition metadata_path_name :: "string \<Rightarrow> string option" where
  "metadata_path_name name = find (\<lambda>m. name = m) PROTECTED_METADATA_PATH_NAMES"

definition metadata_child :: "fs_env \<Rightarrow> path \<Rightarrow> resolved_entry \<Rightarrow> (path \<times> string) option" where
  "metadata_child env target e =
     (case path_strip_prefix target (re_path e) of
        Some (c # _) \<Rightarrow> map_option (\<lambda>m. (env_join env (re_path e) m, m)) (metadata_path_name (component_str c))
      | _ \<Rightarrow> None)"

definition metadata_child_of_writable_root ::
  "fs_env \<Rightarrow> sandbox_policy \<Rightarrow> path \<Rightarrow> path \<Rightarrow> (path \<times> string) option" where
  "metadata_child_of_writable_root env pol target cwd =
     (case List.map_filter (metadata_child env target)
             (filter (\<lambda>e. can_write (re_access e)) (resolved_entries_with_cwd env pol cwd)) of
        [] \<Rightarrow> None
      | m # _ \<Rightarrow> Some m)"

definition has_explicit_write_entry_for_metadata_path ::
  "fs_env \<Rightarrow> sandbox_policy \<Rightarrow> path \<Rightarrow> path \<Rightarrow> path \<Rightarrow> bool" where
  "has_explicit_write_entry_for_metadata_path env pol protected target cwd =
     list_ex (\<lambda>e. can_write (re_access e) \<and> path_starts_with target (re_path e)
       \<and> path_starts_with (re_path e) protected) (resolved_entries_with_cwd env pol cwd)"

definition is_metadata_write_denied :: "fs_env \<Rightarrow> sandbox_policy \<Rightarrow> path \<Rightarrow> path \<Rightarrow> bool" where
  "is_metadata_write_denied env pol p cwd =
     (if pol_kind pol \<noteq> Restricted then False
      else case resolve_candidate_path env p cwd of
        None \<Rightarrow> True
      | Some target \<Rightarrow>
          (case metadata_child_of_writable_root env pol target cwd of
             None \<Rightarrow> False
           | Some (protected, _) \<Rightarrow>
               \<not> has_explicit_write_entry_for_metadata_path env pol protected target cwd))"

subsection \<open>Whole-disk access\<close>

definition has_root_access :: "(access_mode \<Rightarrow> bool) \<Rightarrow> sandbox_policy \<Rightarrow> bool" where
  "has_root_access P pol \<longleftrightarrow>
     pol_kind pol = Restricted \<and> list_ex (\<lambda>e. se_path e = SpecialEntry RootPath \<and> P (se_access e)) (pol_entries pol)"

definition has_denied_read_restrictions :: "sandbox_policy \<Rightarrow> bool" where
  "has_denied_read_restrictions pol \<longleftrightarrow>
     pol_kind pol = Restricted \<and> list_ex (\<lambda>e. se_access e = DenyAccess) (pol_entries pol)"

definition special_path_matches_absolute_path :: "special_path \<Rightarrow> path \<Rightarrow> bool" where
  "special_path_matches_absolute_path value p =
     (case value of
        RootPath \<Rightarrow> components p = [RootDir]
      | SlashTmpPath \<Rightarrow> components p = components ''/tmp''
      | _ \<Rightarrow> False)"

fun file_system_paths_share_target :: "fs_env \<Rightarrow> file_system_path \<Rightarrow> file_system_path \<Rightarrow> bool" where
  "file_system_paths_share_target env (PathEntry l) (PathEntry r) \<longleftrightarrow> l = r"
| "file_system_paths_share_target env (SpecialEntry l) (SpecialEntry r) \<longleftrightarrow> l = r"
| "file_system_paths_share_target env (PathEntry p) (SpecialEntry value) \<longleftrightarrow>
     (case fe_to_abs env p of Some q \<Rightarrow> special_path_matches_absolute_path value q | None \<Rightarrow> False)"
| "file_system_paths_share_target env (SpecialEntry value) (PathEntry p) \<longleftrightarrow>
     (case fe_to_abs env p of Some q \<Rightarrow> special_path_matches_absolute_path value q | None \<Rightarrow> False)"
| "file_system_paths_share_target env (GlobEntry l) (GlobEntry r) \<longleftrightarrow> l = r"
| "file_system_paths_share_target env _ _ \<longleftrightarrow> False"

definition has_same_target_write_override :: "fs_env \<Rightarrow> sandbox_policy \<Rightarrow> sandbox_entry \<Rightarrow> bool" where
  "has_same_target_write_override env pol entry =
     list_ex (\<lambda>candidate. can_write (se_access candidate) \<and> se_access entry < se_access candidate
       \<and> file_system_paths_share_target env (se_path candidate) (se_path entry)) (pol_entries pol)"

definition narrows_write :: "fs_env \<Rightarrow> sandbox_policy \<Rightarrow> sandbox_entry \<Rightarrow> bool" where
  "narrows_write env pol entry =
     (if can_write (se_access entry) then False
      else case se_path entry of
        PathEntry _ \<Rightarrow> \<not> has_same_target_write_override env pol entry
      | GlobEntry _ \<Rightarrow> True
      | SpecialEntry RootPath \<Rightarrow> se_access entry = DenyAccess
      | SpecialEntry MinimalPath \<Rightarrow> False
      | SpecialEntry (UnknownPath _ _) \<Rightarrow> False
      | SpecialEntry _ \<Rightarrow> \<not> has_same_target_write_override env pol entry)"

definition has_write_narrowing_entries :: "fs_env \<Rightarrow> sandbox_policy \<Rightarrow> bool" where
  "has_write_narrowing_entries env pol \<longleftrightarrow> pol_kind pol = Restricted \<and> list_ex (narrows_write env pol) (pol_entries pol)"

definition has_full_disk_read_access :: "sandbox_policy \<Rightarrow> bool" where
  "has_full_disk_read_access pol =
     (case pol_kind pol of
        Restricted \<Rightarrow> has_root_access can_read pol \<and> \<not> has_denied_read_restrictions pol
      | _ \<Rightarrow> True)"

definition has_full_disk_write_access :: "fs_env \<Rightarrow> sandbox_policy \<Rightarrow> bool" where
  "has_full_disk_write_access env pol =
     (case pol_kind pol of
        Restricted \<Rightarrow> has_root_access can_write pol \<and> \<not> has_write_narrowing_entries env pol
      | _ \<Rightarrow> True)"

definition include_platform_defaults :: "sandbox_policy \<Rightarrow> bool" where
  "include_platform_defaults pol \<longleftrightarrow>
     \<not> has_full_disk_read_access pol \<and> pol_kind pol = Restricted
     \<and> list_ex (\<lambda>e. se_path e = SpecialEntry MinimalPath \<and> can_read (se_access e)) (pol_entries pol)"

definition can_write_path_with_cwd :: "fs_env \<Rightarrow> sandbox_policy \<Rightarrow> path \<Rightarrow> path \<Rightarrow> bool" where
  "can_write_path_with_cwd env pol p cwd =
     (if \<not> can_write (resolve_access_with_cwd env pol p cwd) then False
      else if has_full_disk_write_access env pol then True
      else \<not> is_metadata_write_denied env pol p cwd)"

definition has_writable_roots_with_cwd :: "fs_env \<Rightarrow> sandbox_policy \<Rightarrow> path \<Rightarrow> bool" where
  "has_writable_roots_with_cwd env pol cwd \<longleftrightarrow>
     \<not> has_full_disk_write_access env pol
     \<and> list_ex (\<lambda>e. can_write (re_access e) \<and> can_write_path_with_cwd env pol (re_path e) cwd)
         (resolved_entries_with_cwd env pol cwd)"

definition has_explicit_non_write_entry_for_path_with_cwd ::
  "fs_env \<Rightarrow> sandbox_policy \<Rightarrow> path \<Rightarrow> path \<Rightarrow> bool" where
  "has_explicit_non_write_entry_for_path_with_cwd env pol p cwd =
     (case resolve_candidate_path env p cwd of
        None \<Rightarrow> False
      | Some q \<Rightarrow>
          list_ex (\<lambda>e. \<not> se_skip_missing e \<and> \<not> can_write (se_access e)
            \<and> resolve_entry_path env (se_path e) (env_absolute env cwd) = Some q) (pol_entries pol))"

definition forbidden_agent_metadata_write :: "fs_env \<Rightarrow> path \<Rightarrow> path \<Rightarrow> sandbox_policy \<Rightarrow> string option" where
  "forbidden_agent_metadata_write env p cwd pol =
     (if pol_kind pol \<noteq> Restricted then None
      else Option.bind (resolve_candidate_path env p cwd) (\<lambda>target.
        Option.bind (metadata_child_of_writable_root env pol target cwd) (\<lambda>(protected, name).
          if has_explicit_write_entry_for_metadata_path env pol protected target cwd then None
          else if \<not> can_write_path_with_cwd env pol target cwd then Some name
          else None)))"

subsection \<open>Policies\<close>

definition policy_restricted :: "sandbox_entry list \<Rightarrow> sandbox_policy" where
  "policy_restricted entries = \<lparr>pol_kind = Restricted, pol_glob_scan_max_depth = None, pol_entries = entries\<rparr>"

definition policy_read_only :: sandbox_policy where
  "policy_read_only = policy_restricted [entry_new (SpecialEntry RootPath) ReadAccess]"

definition policy_unrestricted :: sandbox_policy where
  "policy_unrestricted = \<lparr>pol_kind = Unrestricted, pol_glob_scan_max_depth = None, pol_entries = []\<rparr>"

definition policy_external_sandbox :: sandbox_policy where
  "policy_external_sandbox = \<lparr>pol_kind = ExternalSandbox, pol_glob_scan_max_depth = None, pol_entries = []\<rparr>"

definition remove_skip_missing_path_entries :: "sandbox_policy \<Rightarrow> sandbox_policy" where
  "remove_skip_missing_path_entries pol = pol\<lparr>pol_entries := filter (\<lambda>e. \<not> se_skip_missing e) (pol_entries pol)\<rparr>"

definition push_missing :: "sandbox_entry \<Rightarrow> sandbox_entry list \<Rightarrow> sandbox_entry list" where
  "push_missing e entries = (if e \<in> set entries then entries else entries @ [e])"

definition preserve_deny_read_restrictions_from :: "sandbox_policy \<Rightarrow> sandbox_policy \<Rightarrow> sandbox_policy" where
  "preserve_deny_read_restrictions_from existing pol =
     (let denies = filter (\<lambda>e. se_access e = DenyAccess) (pol_entries existing);
          pol = (if pol_kind pol = Unrestricted \<and> denies \<noteq> []
                 then policy_restricted [entry_new (SpecialEntry RootPath) WriteAccess] else pol)
      in if pol_kind pol \<noteq> Restricted then pol
         else pol\<lparr>pol_glob_scan_max_depth :=
                  (case pol_glob_scan_max_depth pol of None \<Rightarrow> pol_glob_scan_max_depth existing | d \<Rightarrow> d),
                pol_entries := fold push_missing denies (pol_entries pol)\<rparr>)"

definition with_additional_readable_roots :: "fs_env \<Rightarrow> path \<Rightarrow> path list \<Rightarrow> sandbox_policy \<Rightarrow> sandbox_policy" where
  "with_additional_readable_roots env cwd roots pol =
     (if has_full_disk_read_access pol then pol
      else fold (\<lambda>p pol.
        if can_read_path_with_cwd env pol p cwd then pol
        else pol\<lparr>pol_entries := pol_entries pol @ [entry_new (PathEntry (fe_to_uri env p)) ReadAccess]\<rparr>) roots pol)"

definition with_additional_writable_roots :: "fs_env \<Rightarrow> path \<Rightarrow> path list \<Rightarrow> sandbox_policy \<Rightarrow> sandbox_policy" where
  "with_additional_writable_roots env cwd roots pol =
     fold (\<lambda>p pol.
       if can_write_path_with_cwd env pol p cwd then pol
       else pol\<lparr>pol_entries := pol_entries pol @ [entry_new (PathEntry (fe_to_uri env p)) WriteAccess]\<rparr>) roots pol"

definition parse_project_roots_glob_pattern :: "string \<Rightarrow> string option" where
  "parse_project_roots_glob_pattern pattern = strip_prefix PROJECT_ROOTS_GLOB_PATTERN_PREFIX pattern"

definition materialize_entry :: "fs_env \<Rightarrow> path option \<Rightarrow> sandbox_entry \<Rightarrow> sandbox_entry" where
  "materialize_entry env cwd e =
     (case se_path e of
        SpecialEntry (ProjectRoots _) \<Rightarrow>
          (case resolve_file_system_path env (se_path e) cwd of
             Some p \<Rightarrow> e\<lparr>se_path := PathEntry (fe_to_uri env p)\<rparr>
           | None \<Rightarrow> e)
      | GlobEntry pattern \<Rightarrow>
          (case (cwd, parse_project_roots_glob_pattern pattern) of
             (Some c, Some subpath) \<Rightarrow> e\<lparr>se_path := GlobEntry (env_join env c subpath)\<rparr>
           | _ \<Rightarrow> e)
      | _ \<Rightarrow> e)"

definition materialize_project_roots_with_cwd :: "fs_env \<Rightarrow> path \<Rightarrow> sandbox_policy \<Rightarrow> sandbox_policy" where
  "materialize_project_roots_with_cwd env cwd pol =
     pol\<lparr>pol_entries := map (materialize_entry env (env_absolute env cwd)) (pol_entries pol)\<rparr>"

end
