(* ===== verification/Fs_Access.thy ===== *)
theory Fs_Access
  imports Fs_Policy "HOL-Library.Sublist"
begin

text \<open>
  Laws of the file system policy: covering as a prefix of names, the entry that decides about a path, and
  what an environment has to give (\<open>env_ok\<close>): an absolute current directory, and path URIs that convert to
  normalized absolute paths.
\<close>

definition normal_path :: "path \<Rightarrow> bool" where
  "normal_path p \<longleftrightarrow> is_absolute p \<and> normalize_path p = p"

definition env_ok :: "fs_env \<Rightarrow> bool" where
  "env_ok env \<longleftrightarrow> (\<forall>d. fe_current_dir env = Some d \<longrightarrow> is_absolute d)
     \<and> (\<forall>u p. fe_to_abs env u = Some p \<longrightarrow> normal_path p)"

subsection \<open>Normal paths\<close>

lemma normal_path_render: "list_all plain_name ss \<Longrightarrow> normal_path (render_abs ss)"
proof -
  assume ss: "list_all plain_name ss"
  have "path_join [] ''/'' = render_abs []" by (simp add: path_join_def render_abs_def starts_with_def)
  then have "fold normalize_step (components (render_abs ss)) [] = render_abs ss"
    using normalize_fold_Normal [of "[]" ss] ss by (simp add: components_render_abs)
  moreover have "render_abs ss \<noteq> []" by (cases ss) (simp_all add: render_abs_def)
  ultimately show ?thesis by (simp add: normal_path_def normalize_path_def is_absolute_def)
qed

lemma normal_path_iff: "normal_path p \<longleftrightarrow> (\<exists>ss. list_all plain_name ss \<and> p = render_abs ss)"
  by (metis normal_path_def normalize_absolute normal_path_render)

lemma normal_path_components:
  "normal_path p \<Longrightarrow> \<exists>ss. list_all plain_name ss \<and> p = render_abs ss \<and> components p = RootDir # map Normal ss"
  by (auto simp: normal_path_iff components_render_abs)

lemma normal_path_eq:
  assumes "normal_path p" and "normal_path q"
  shows "components p = components q \<longleftrightarrow> p = q"
proof -
  obtain ss ts where "p = render_abs ss" "components p = RootDir # map Normal ss"
    "q = render_abs ts" "components q = RootDir # map Normal ts"
    using normal_path_components [OF assms(1)] normal_path_components [OF assms(2)] by blast
  moreover have "map Normal ss = map Normal ts \<Longrightarrow> ss = ts"
    by (simp add: inj_map_eq_map inj_def)
  ultimately show ?thesis by auto
qed

lemma path_starts_with_prefix: "path_starts_with p base \<longleftrightarrow> prefix (components base) (components p)"
  by (auto simp: path_starts_with_def prefix_def) (metis append_take_drop_id)

lemma path_starts_with_refl [simp]: "path_starts_with p p"
  by (simp add: path_starts_with_prefix)

lemma path_starts_with_trans: "path_starts_with p q \<Longrightarrow> path_starts_with q r \<Longrightarrow> path_starts_with p r"
  by (auto simp: path_starts_with_prefix intro: prefix_order.trans)

lemma path_starts_with_chain:
  "path_starts_with q a \<Longrightarrow> path_starts_with q b \<Longrightarrow> length (components a) \<le> length (components b) \<Longrightarrow> path_starts_with b a"
  by (auto simp: path_starts_with_prefix intro: prefix_length_prefix)

lemma path_starts_with_length: "path_starts_with q a \<Longrightarrow> length (components a) \<le> length (components q)"
  by (auto simp: path_starts_with_prefix dest: prefix_length_le)

lemma path_starts_with_antisym:
  "normal_path a \<Longrightarrow> normal_path b \<Longrightarrow> path_starts_with a b \<Longrightarrow> length (components a) \<le> length (components b) \<Longrightarrow> a = b"
  using normal_path_eq [of a b] by (auto simp: path_starts_with_prefix prefix_def)

lemma normal_path_under_root: "normal_path p \<Longrightarrow> path_starts_with p ''/''"
  using components_render_abs [of "[]"] normal_path_components [of p]
  by (auto simp: path_starts_with_prefix render_abs_def)

lemma normal_root [simp]: "normal_path ''/''"
  by (auto simp: normal_path_iff render_abs_def intro!: exI [of _ "[]"])

lemma components_root: "components ''/'' = [RootDir]"
  using components_render_abs [of "[]"] by (simp add: render_abs_def)

lemma normal_path_length: "normal_path p \<Longrightarrow> 1 \<le> length (components p)"
  using normal_path_components [of p] by auto

subsection \<open>Resolving\<close>

lemma env_absolute_normal: "env_ok env \<Longrightarrow> env_absolute env p = Some q \<Longrightarrow> normal_path q"
  by (auto simp: env_ok_def env_absolute_def normal_path_iff dest: from_absolute_path_normal [rotated])

lemma env_join_normal:
  assumes "normal_path base"
  shows "normal_path (env_join env base p)"
proof -
  have "is_absolute base" using assms by (simp add: normal_path_def)
  then have "is_absolute (path_with_base (maybe_expand_home_directory (fe_home env) p) base)"
    by (rule absolute_join)
  then show ?thesis
    by (auto simp: env_join_def resolve_path_against_base_def absolutize_from_def normal_path_iff
        dest: normalize_absolute)
qed

lemma candidate_normal:
  assumes "env_ok env" and "resolve_candidate_path env p cwd = Some q"
  shows "normal_path q"
  using assms env_absolute_normal env_join_normal
  by (auto simp: resolve_candidate_path_def split: if_splits)

lemma candidate_of_normal [simp]:
  assumes "normal_path p"
  shows "resolve_candidate_path env p cwd = Some p"
proof -
  obtain c where "p = CHR ''/'' # c"
    using assms by (cases p) (auto simp: normal_path_def is_absolute_def starts_with_def)
  then have "maybe_expand_home_directory (fe_home env) p = p"
    by (simp add: maybe_expand_home_directory_def strip_prefix_def starts_with_def)
  then show ?thesis
    using assms by (simp add: resolve_candidate_path_def env_absolute_def from_absolute_path_def absolutize_def normal_path_def)
qed

lemma slash_tmp_normal: "normal_path ''/tmp''"
  by (auto simp: normal_path_iff render_abs_def plain_name_def intro!: exI [of _ "[''tmp'']"])

lemma entry_path_normal:
  assumes "env_ok env" and "resolve_entry_path env p (env_absolute env cwd) = Some q"
  shows "normal_path q"
  using assms env_absolute_normal [OF assms(1)] env_join_normal [of _ env] slash_tmp_normal
  by (auto simp: resolve_entry_path_def resolve_file_system_path_def resolve_file_system_special_path_def
      absolute_root_path_for_cwd_def env_ok_def
      split: file_system_path.splits special_path.splits option.splits if_splits)

lemma in_resolved_entries:
  "r \<in> set (resolved_entries_with_cwd env pol cwd) \<longleftrightarrow>
     (\<exists>e\<in>set (pol_entries pol). resolve_entry_path env (se_path e) (env_absolute env cwd) = Some (re_path r)
        \<and> re_access r = se_access e)"
  by (cases r) (auto simp: resolved_entries_with_cwd_def List.map_filter_def image_iff split: option.splits)

lemma resolved_entry_normal:
  "env_ok env \<Longrightarrow> r \<in> set (resolved_entries_with_cwd env pol cwd) \<Longrightarrow> normal_path (re_path r)"
  using entry_path_normal by (auto simp: in_resolved_entries)

subsection \<open>The entry that decides\<close>

definition covering :: "fs_env \<Rightarrow> sandbox_policy \<Rightarrow> path \<Rightarrow> path \<Rightarrow> resolved_entry set" where
  "covering env pol cwd q = {r \<in> set (resolved_entries_with_cwd env pol cwd). path_starts_with q (re_path r)}"

lemma covering_finite [simp]: "finite (covering env pol cwd q)"
  by (simp add: covering_def)

lemma coveringD:
  "r \<in> covering env pol cwd q \<Longrightarrow> r \<in> set (resolved_entries_with_cwd env pol cwd) \<and> path_starts_with q (re_path r)"
  by (simp add: covering_def)

lemma covering_mono: "path_starts_with q p \<Longrightarrow> covering env pol cwd p \<subseteq> covering env pol cwd q"
  by (auto simp: covering_def intro: path_starts_with_trans)

lemma max_by_key_None [simp]: "max_by_key key xs = None \<longleftrightarrow> xs = []"
  by (cases xs) (auto split: option.splits)

lemma max_by_key_Some:
  "max_by_key key xs = Some m \<Longrightarrow> m \<in> set xs \<and> (\<forall>x\<in>set xs. key x \<le> key m)"
  by (induction xs arbitrary: m) (auto split: option.splits if_splits intro: order.trans)

lemma access_unmanaged: "pol_kind pol \<noteq> Restricted \<Longrightarrow> resolve_access_with_cwd env pol p cwd = WriteAccess"
  by (simp add: resolve_access_with_cwd_def)

lemma access_no_entry:
  "pol_kind pol = Restricted \<Longrightarrow> resolve_candidate_path env p cwd = Some q \<Longrightarrow> covering env pol cwd q = {}
    \<Longrightarrow> resolve_access_with_cwd env pol p cwd = DenyAccess"
proof -
  assume a: "pol_kind pol = Restricted" "resolve_candidate_path env p cwd = Some q" "covering env pol cwd q = {}"
  then have "filter (\<lambda>e. path_starts_with q (re_path e)) (resolved_entries_with_cwd env pol cwd) = []"
    by (auto simp: covering_def filter_empty_conv)
  with a show ?thesis by (simp add: resolve_access_with_cwd_def)
qed

lemma access_obtains:
  assumes "pol_kind pol = Restricted" and "resolve_candidate_path env p cwd = Some q" and "covering env pol cwd q \<noteq> {}"
  obtains m where "m \<in> covering env pol cwd q" and "resolve_access_with_cwd env pol p cwd = re_access m"
    and "\<And>r. r \<in> covering env pol cwd q \<Longrightarrow> resolved_entry_precedence r \<le> resolved_entry_precedence m"
proof -
  let ?xs = "filter (\<lambda>e. path_starts_with q (re_path e)) (resolved_entries_with_cwd env pol cwd)"
  have set_xs: "set ?xs = covering env pol cwd q" by (auto simp: covering_def)
  then have "?xs \<noteq> []" using assms(3) by (metis set_empty2)
  then obtain m where m: "max_by_key resolved_entry_precedence ?xs = Some m"
    by (cases "max_by_key resolved_entry_precedence ?xs") simp_all
  show thesis
  proof (rule that [of m])
    show "m \<in> covering env pol cwd q" using max_by_key_Some [OF m] set_xs by blast
    show "resolve_access_with_cwd env pol p cwd = re_access m"
      using assms(1,2) m by (simp add: resolve_access_with_cwd_def)
    show "resolved_entry_precedence r \<le> resolved_entry_precedence m" if r: "r \<in> covering env pol cwd q" for r
      using max_by_key_Some [OF m] set_xs r by blast
  qed
qed

text \<open>Whoever has the greatest precedence gives the access.\<close>

lemma access_of_greatest:
  assumes "pol_kind pol = Restricted" and "resolve_candidate_path env p cwd = Some q" and "m \<in> covering env pol cwd q"
    and "\<And>r. r \<in> covering env pol cwd q \<Longrightarrow> resolved_entry_precedence r \<le> resolved_entry_precedence m"
  shows "resolve_access_with_cwd env pol p cwd = re_access m"
proof -
  obtain n where n: "n \<in> covering env pol cwd q" "resolve_access_with_cwd env pol p cwd = re_access n"
    "resolved_entry_precedence m \<le> resolved_entry_precedence n"
    using access_obtains [OF assms(1,2)] assms(3) by (metis empty_iff)
  then have "resolved_entry_precedence m = resolved_entry_precedence n" using assms(4) by fastforce
  then show ?thesis using n by (simp add: resolved_entry_precedence_def)
qed

lemma precedence_le:
  "resolved_entry_precedence r \<le> resolved_entry_precedence m \<longleftrightarrow>
     length (components (re_path r)) < length (components (re_path m))
     \<or> length (components (re_path r)) = length (components (re_path m)) \<and> re_access r \<le> re_access m"
  by (auto simp: resolved_entry_precedence_def less_eq_prod_def)

lemma access_order [simp]:
  "ReadAccess \<le> a" "a \<le> DenyAccess" "WriteAccess \<le> a \<longleftrightarrow> a \<noteq> ReadAccess" "ReadAccess < a \<longleftrightarrow> a \<noteq> ReadAccess"
  "a < WriteAccess \<longleftrightarrow> a = ReadAccess" "a \<le> WriteAccess \<longleftrightarrow> a \<noteq> DenyAccess" "DenyAccess \<le> a \<longleftrightarrow> a = DenyAccess"
  by (cases a; simp add: less_eq_access_mode_def less_access_mode_def)+

lemma can_write_iff [simp]: "can_write a \<longleftrightarrow> a = WriteAccess"
  by (cases a) simp_all

lemma can_read_iff [simp]: "can_read a \<longleftrightarrow> a \<noteq> DenyAccess"
  by (cases a) simp_all

text \<open>The entry that decides about a path decides about itself.\<close>

lemma access_of_decider:
  assumes "env_ok env" and "pol_kind pol = Restricted" and "m \<in> covering env pol cwd q"
    and "\<And>r. r \<in> covering env pol cwd q \<Longrightarrow> resolved_entry_precedence r \<le> resolved_entry_precedence m"
  shows "resolve_access_with_cwd env pol (re_path m) cwd = re_access m"
proof (rule access_of_greatest [OF assms(2)])
  have "normal_path (re_path m)" using assms(1,3) resolved_entry_normal by (auto dest: coveringD)
  then show "resolve_candidate_path env (re_path m) cwd = Some (re_path m)" by simp
  show "m \<in> covering env pol cwd (re_path m)" using assms(3) by (simp add: covering_def)
  show "resolved_entry_precedence r \<le> resolved_entry_precedence m" if "r \<in> covering env pol cwd (re_path m)" for r
    using assms(3,4) covering_mono that by (meson coveringD subsetD)
qed

subsection \<open>Protected metadata\<close>

lemma metadata_name_plain:
  "m \<in> set PROTECTED_METADATA_PATH_NAMES \<Longrightarrow> plain_name m \<and> hd m = CHR ''.''"
  by (auto simp: PROTECTED_METADATA_PATH_NAMES_def plain_name_def)

lemma env_join_plain:
  assumes "normal_path root" and "plain_name m" and "hd m \<noteq> CHR ''~''"
  shows "components (env_join env root m) = components root @ [Normal m] \<and> normal_path (env_join env root m)"
proof -
  obtain ss where ss: "list_all plain_name ss" "root = render_abs ss"
    using assms(1) by (auto simp: normal_path_iff)
  obtain c cs where "m = c # cs" "c \<noteq> CHR ''/''" "c \<noteq> CHR ''~''"
    using assms(2,3) by (cases m) (auto simp: plain_name_def)
  then have m: "\<not> is_absolute m" "maybe_expand_home_directory (fe_home env) m = m"
    by (simp_all add: is_absolute_def starts_with_def maybe_expand_home_directory_def strip_prefix_def)
  have all: "list_all plain_name (ss @ [m])" using ss assms(2) by simp
  have "env_join env root m = render_abs (ss @ [m])"
    using m normal_path_render [OF all] join_render_abs [OF ss(1) assms(2)]
    by (simp add: env_join_def resolve_path_against_base_def absolutize_from_def path_with_base_def ss(2) normal_path_def)
  then show ?thesis
    using components_render_abs [OF all] normal_path_render [OF all] components_render_abs [OF ss(1)] by (simp add: ss(2))
qed

lemma metadata_path_name_Some:
  "metadata_path_name s = Some m \<longleftrightarrow> s = m \<and> m \<in> set PROTECTED_METADATA_PATH_NAMES"
  by (auto simp: metadata_path_name_def PROTECTED_METADATA_PATH_NAMES_def)

text \<open>The metadata child of a root above a path is the protected directory the path lies in.\<close>

lemma metadata_child_Some:
  assumes "normal_path (re_path e)" and "normal_path target"
  shows "metadata_child env target e = Some (p, m) \<longleftrightarrow>
    m \<in> set PROTECTED_METADATA_PATH_NAMES \<and> p = env_join env (re_path e) m \<and> path_starts_with target p"
proof -
  have join: "components (env_join env (re_path e) m) = components (re_path e) @ [Normal m]"
    if "m \<in> set PROTECTED_METADATA_PATH_NAMES" for m
    using env_join_plain [OF assms(1), of m env] metadata_name_plain [OF that] by simp
  obtain ts where ts: "components target = RootDir # map Normal ts" "list_all plain_name ts"
    using normal_path_components [OF assms(2)] by blast
  obtain ss where ss: "components (re_path e) = RootDir # map Normal ss"
    using normal_path_components [OF assms(1)] by blast
  have c: "c = Normal m" if "components target = components (re_path e) @ c # cs" "component_str c = m" for c cs m
  proof -
    have "c \<in> set (map Normal ts)" using that(1) unfolding ts(1) ss by (auto simp: Cons_eq_append_conv)
    then show ?thesis using that(2) by auto
  qed
  show ?thesis
  proof
    assume "metadata_child env target e = Some (p, m)"
    then obtain cs where cs: "m \<in> set PROTECTED_METADATA_PATH_NAMES" "p = env_join env (re_path e) m"
      "\<exists>c. drop (length (components (re_path e))) (components target) = c # cs \<and> component_str c = m"
      "path_starts_with target (re_path e)"
      by (auto simp: metadata_child_def path_strip_prefix_def metadata_path_name_Some split: option.splits list.splits if_splits)
    then have "components target = components (re_path e) @ Normal m # cs"
      using c by (auto simp: path_starts_with_def) (metis append_take_drop_id)
    then show "m \<in> set PROTECTED_METADATA_PATH_NAMES \<and> p = env_join env (re_path e) m \<and> path_starts_with target p"
      using cs(1,2) join [OF cs(1)] by (simp add: path_starts_with_prefix)
  next
    assume a: "m \<in> set PROTECTED_METADATA_PATH_NAMES \<and> p = env_join env (re_path e) m \<and> path_starts_with target p"
    then obtain cs where "components target = components (re_path e) @ Normal m # cs"
      using join by (auto simp: path_starts_with_prefix prefix_def)
    then show "metadata_child env target e = Some (p, m)"
      using a by (simp add: metadata_child_def path_strip_prefix_def path_starts_with_def metadata_path_name_Some)
  qed
qed

lemma map_filter_hd:
  "(case List.map_filter f xs of [] \<Rightarrow> None | y # _ \<Rightarrow> Some y) = Some z \<Longrightarrow> \<exists>x\<in>set xs. f x = Some z"
  by (induction xs) (auto simp: List.map_filter_simps split: option.splits)

lemma map_filter_hd_None:
  "(case List.map_filter f xs of [] \<Rightarrow> None | y # _ \<Rightarrow> Some y) = None \<longleftrightarrow> (\<forall>x\<in>set xs. f x = None)"
  by (induction xs) (auto simp: List.map_filter_simps split: option.splits)

text \<open>The paths that give write access.\<close>

definition write_paths :: "fs_env \<Rightarrow> sandbox_policy \<Rightarrow> path \<Rightarrow> path set" where
  "write_paths env pol cwd =
     re_path ` {r \<in> set (resolved_entries_with_cwd env pol cwd). re_access r = WriteAccess}"

lemma metadata_child_of_writable_root_Some:
  assumes "env_ok env" and "normal_path target" and "metadata_child_of_writable_root env pol target cwd = Some (p, m)"
  shows "\<exists>root\<in>write_paths env pol cwd. m \<in> set PROTECTED_METADATA_PATH_NAMES \<and> p = env_join env root m
    \<and> path_starts_with target p"
  using map_filter_hd [OF assms(3) [unfolded metadata_child_of_writable_root_def]] resolved_entry_normal [OF assms(1)]
    metadata_child_Some [OF _ assms(2)]
  by (auto simp: write_paths_def)

lemma metadata_child_of_writable_root_None:
  assumes "env_ok env" and "normal_path target" and "metadata_child_of_writable_root env pol target cwd = None"
    and "root \<in> write_paths env pol cwd" and "m \<in> set PROTECTED_METADATA_PATH_NAMES"
  shows "\<not> path_starts_with target (env_join env root m)"
proof -
  obtain e where e: "e \<in> set (resolved_entries_with_cwd env pol cwd)" "re_access e = WriteAccess" "re_path e = root"
    using assms(4) by (auto simp: write_paths_def)
  then have "metadata_child env target e = None"
    using assms(3) unfolding metadata_child_of_writable_root_def map_filter_hd_None by simp
  then have "metadata_child env target e \<noteq> Some (env_join env root m, m)" by simp
  then show ?thesis
    using assms(5) e(3) unfolding metadata_child_Some [OF resolved_entry_normal [OF assms(1) e(1)] assms(2)] by simp
qed

lemma has_explicit_write_entry_iff:
  "has_explicit_write_entry_for_metadata_path env pol protected target cwd \<longleftrightarrow>
     (\<exists>w\<in>write_paths env pol cwd. path_starts_with target w \<and> path_starts_with w protected)"
  by (auto simp: has_explicit_write_entry_for_metadata_path_def list_ex_iff write_paths_def)

subsection \<open>Adding an entry\<close>

definition env_roundtrip :: "fs_env \<Rightarrow> bool" where
  "env_roundtrip env \<longleftrightarrow> (\<forall>p. normal_path p \<longrightarrow> fe_to_abs env (fe_to_uri env p) = Some p)"

definition add_entry :: "fs_env \<Rightarrow> access_mode \<Rightarrow> path \<Rightarrow> sandbox_policy \<Rightarrow> sandbox_policy" where
  "add_entry env a r pol = pol\<lparr>pol_entries := pol_entries pol @ [entry_new (PathEntry (fe_to_uri env r)) a]\<rparr>"

lemma add_entry_kind [simp]: "pol_kind (add_entry env a r pol) = pol_kind pol"
  by (simp add: add_entry_def)

lemma resolved_add_entry:
  "env_roundtrip env \<Longrightarrow> normal_path r \<Longrightarrow>
    set (resolved_entries_with_cwd env (add_entry env a r pol) cwd) =
      insert \<lparr>re_path = r, re_access = a\<rparr> (set (resolved_entries_with_cwd env pol cwd))"
  by (auto simp: add_entry_def env_roundtrip_def resolved_entries_with_cwd_def List.map_filter_def entry_new_def
      resolve_entry_path_def resolve_file_system_path_def)

lemma covering_add_entry:
  "env_roundtrip env \<Longrightarrow> normal_path r \<Longrightarrow> covering env (add_entry env a r pol) cwd q =
    (if path_starts_with q r then insert \<lparr>re_path = r, re_access = a\<rparr> (covering env pol cwd q) else covering env pol cwd q)"
  by (auto simp: covering_def resolved_add_entry)

lemma access_covering:
  assumes "pol_kind pol = pol_kind pol'" and "resolve_candidate_path env p cwd = Some q"
    and "resolve_candidate_path env p' cwd = Some q'" and "covering env pol cwd q = covering env pol' cwd q'"
  shows "resolve_access_with_cwd env pol p cwd = resolve_access_with_cwd env pol' p' cwd"
proof (cases "pol_kind pol = Restricted \<and> covering env pol cwd q \<noteq> {}")
  case True
  then obtain m where "m \<in> covering env pol cwd q" "resolve_access_with_cwd env pol p cwd = re_access m"
    "\<And>r. r \<in> covering env pol cwd q \<Longrightarrow> resolved_entry_precedence r \<le> resolved_entry_precedence m"
    using access_obtains [OF _ assms(2)] by blast
  then show ?thesis using access_of_greatest [OF _ assms(3), of pol' m] True assms(1,4) by simp
next
  case False
  then show ?thesis
    using assms access_no_entry [OF _ assms(2), of pol] access_no_entry [OF _ assms(3), of pol']
      access_unmanaged [of pol] access_unmanaged [of pol'] by metis
qed

text \<open>A new entry decides only below its path, and only where no entry for a longer path, and no stronger
  entry for the same one, does.\<close>

lemma access_add_entry:
  assumes "env_ok env" and "env_roundtrip env" and "normal_path r" and "resolve_candidate_path env p cwd = Some q"
  shows "resolve_access_with_cwd env (add_entry env a r pol) p cwd = resolve_access_with_cwd env pol p cwd
    \<or> pol_kind pol = Restricted \<and> path_starts_with q r \<and> resolve_access_with_cwd env (add_entry env a r pol) p cwd = a
      \<and> covering env pol cwd q = covering env pol cwd r"
proof (cases "pol_kind pol = Restricted \<and> path_starts_with q r")
  case True
  let ?pol = "add_entry env a r pol" and ?new = "\<lparr>re_path = r, re_access = a\<rparr>"
  have cov: "covering env ?pol cwd q = insert ?new (covering env pol cwd q)"
    using True covering_add_entry [OF assms(2,3)] by simp
  obtain m where m: "m \<in> covering env ?pol cwd q" "resolve_access_with_cwd env ?pol p cwd = re_access m"
    "\<And>e. e \<in> covering env ?pol cwd q \<Longrightarrow> resolved_entry_precedence e \<le> resolved_entry_precedence m"
    using access_obtains [OF _ assms(4), of ?pol] True cov by auto
  show ?thesis
  proof (cases "m \<in> covering env pol cwd q")
    case old: True
    then show ?thesis
      using access_of_greatest [OF _ assms(4) old] True m cov by auto
  next
    case False
    then have new: "m = ?new" using m(1) cov by simp
    have "path_starts_with r (re_path e)" if e: "e \<in> covering env pol cwd q" for e
    proof (rule path_starts_with_chain [of q])
      have "resolved_entry_precedence e \<le> resolved_entry_precedence ?new" using m(3) [of e] e cov new by simp
      then show "length (components (re_path e)) \<le> length (components r)" by (auto simp: precedence_le)
    qed (use True coveringD [OF e] in simp_all)
    then have "covering env pol cwd q = covering env pol cwd r"
      using True by (auto simp: covering_def intro: path_starts_with_trans)
    then show ?thesis using True m(2) new by simp
  qed
next
  case False
  then show ?thesis
    using access_covering [OF _ assms(4,4), of "add_entry env a r pol" pol] covering_add_entry [OF assms(2,3)]
      access_unmanaged [of pol] access_unmanaged [of "add_entry env a r pol"] by auto
qed

subsection \<open>A sample environment\<close>

definition plain_env :: fs_env where
  "plain_env = \<lparr>fe_home = None, fe_current_dir = Some ''/'', fe_tmpdir = None, fe_slash_tmp_is_dir = True,
     fe_to_abs = (\<lambda>u. if normal_path u then Some u else None), fe_to_uri = (\<lambda>p. p)\<rparr>"

lemma plain_env_ok: "env_ok plain_env"
  by (simp add: env_ok_def plain_env_def is_absolute_def starts_with_def)

lemma plain_env_roundtrip: "env_roundtrip plain_env"
  by (simp add: env_roundtrip_def plain_env_def)

end
