(* ===== verification/Permissions.thy ===== *)
theory Permissions
  imports Fs_Access
begin

text \<open>
  When to ask for approval (\<open>AskForApproval\<close> of \<open>protocol/src/protocol.rs\<close>) and what a turn may do
  (\<open>PermissionProfile\<close> of \<open>protocol/src/models.rs\<close>, its network side left out).
\<close>

record granular_approval_config =
  ga_sandbox_approval :: bool
  ga_rules :: bool
  ga_skill_approval :: bool
  ga_request_permissions :: bool
  ga_mcp_elicitations :: bool

datatype approval_policy =
    AskUnlessTrusted
  | AskOnRequest
  | AskGranular granular_approval_config
  | AskNever

datatype managed_file_system = ManagedRestricted "sandbox_entry list" "nat option" | ManagedUnrestricted

datatype permission_profile = ManagedProfile managed_file_system | DisabledProfile | ExternalProfile

fun is_managed :: "permission_profile \<Rightarrow> bool" where
  "is_managed (ManagedProfile _) = True"
| "is_managed _ = False"

fun to_sandbox_policy :: "managed_file_system \<Rightarrow> sandbox_policy" where
  "to_sandbox_policy (ManagedRestricted entries depth) =
     \<lparr>pol_kind = Restricted, pol_glob_scan_max_depth = depth, pol_entries = entries\<rparr>"
| "to_sandbox_policy ManagedUnrestricted = policy_unrestricted"

fun file_system_sandbox_policy :: "permission_profile \<Rightarrow> sandbox_policy" where
  "file_system_sandbox_policy (ManagedProfile file_system) = to_sandbox_policy file_system"
| "file_system_sandbox_policy DisabledProfile = policy_unrestricted"
| "file_system_sandbox_policy ExternalProfile = policy_external_sandbox"

end
