(* ===== verification/Patch_Safety.thy ===== *)
theory Patch_Safety
  imports Patch_Verify Patch_Reparse Permissions
begin

text \<open>
  Whether a verified patch may run without asking, from \<open>core/src/safety.rs\<close>, \<open>core/src/apply_patch.rs\<close>
  and \<open>core/src/tools/handlers/apply_patch.rs\<close>, over the file system policy.
\<close>

datatype safety_check =
    AutoApprove
  | AskUser
  | RejectPatch string

definition PATCH_REJECTED_OUTSIDE_PROJECT_REASON :: string where
  "PATCH_REJECTED_OUTSIDE_PROJECT_REASON = ''writing outside of the project; rejected by user approval settings''"

definition PATCH_REJECTED_READ_ONLY_REASON :: string where
  "PATCH_REJECTED_READ_ONLY_REASON = ''writing is blocked by read-only sandbox; rejected by user approval settings''"

definition safety_normalize :: "path \<Rightarrow> path" where
  "safety_normalize p = fold normalize_step (components p) []"

definition is_path_writable :: "fs_env \<Rightarrow> sandbox_policy \<Rightarrow> path \<Rightarrow> path \<Rightarrow> bool" where
  "is_path_writable env policy native_cwd p =
     (case fe_to_abs env p of
        None \<Rightarrow> False
      | Some native \<Rightarrow> can_write_path_with_cwd env policy (safety_normalize native) native_cwd)"

definition is_write_patch_constrained_to_writable_paths ::
  "fs_env \<Rightarrow> apply_patch_action \<Rightarrow> sandbox_policy \<Rightarrow> path \<Rightarrow> bool" where
  "is_write_patch_constrained_to_writable_paths env action policy cwd =
     (if has_full_disk_write_access env policy then True
      else case fe_to_abs env cwd of
        None \<Rightarrow> False
      | Some native_cwd \<Rightarrow>
          list_all (\<lambda>(p, change).
            case change of
              FileUpdate _ move_path _ \<Rightarrow>
                is_path_writable env policy native_cwd p
                \<and> (case move_path of None \<Rightarrow> True | Some dest \<Rightarrow> is_path_writable env policy native_cwd dest)
            | _ \<Rightarrow> is_path_writable env policy native_cwd p)
            (aa_changes action))"

definition patch_rejection_reason ::
  "fs_env \<Rightarrow> permission_profile \<Rightarrow> sandbox_policy \<Rightarrow> path \<Rightarrow> string" where
  "patch_rejection_reason env profile policy cwd =
     (let has_no_writable_roots = (case fe_to_abs env cwd of None \<Rightarrow> False | Some c \<Rightarrow> \<not> has_writable_roots_with_cwd env policy c)
      in if is_managed profile \<and> \<not> has_full_disk_write_access env policy \<and> has_no_writable_roots
         then PATCH_REJECTED_READ_ONLY_REASON
         else PATCH_REJECTED_OUTSIDE_PROJECT_REASON)"

text \<open>\<open>sandbox\<close> says whether the platform has a sandbox.\<close>

definition assess_patch_safety ::
  "fs_env \<Rightarrow> apply_patch_action \<Rightarrow> approval_policy \<Rightarrow> permission_profile \<Rightarrow> sandbox_policy \<Rightarrow> path \<Rightarrow> bool
     \<Rightarrow> safety_check" where
  "assess_patch_safety env action policy profile fs_policy cwd sandbox =
     (if aa_changes action = [] then RejectPatch ''empty patch''
      else if policy = AskUnlessTrusted then AskUser
      else
        (let rejects_sandbox_approval =
           (case policy of AskNever \<Rightarrow> True | AskGranular g \<Rightarrow> \<not> ga_sandbox_approval g | _ \<Rightarrow> False);
             not_auto =
               (if rejects_sandbox_approval then RejectPatch (patch_rejection_reason env profile fs_policy cwd)
                else AskUser)
         in if is_write_patch_constrained_to_writable_paths env action fs_policy cwd
            then (if profile = DisabledProfile \<or> profile = ExternalProfile then AutoApprove
                  else if sandbox then AutoApprove else not_auto)
            else not_auto))"

datatype approval_requirement = SkipApproval bool | NeedsApproval "string option"

record runtime_invocation =
  ri_action :: apply_patch_action
  ri_auto_approved :: bool
  ri_requirement :: approval_requirement

definition prepare_apply_patch ::
  "fs_env \<Rightarrow> approval_policy \<Rightarrow> permission_profile \<Rightarrow> sandbox_policy \<Rightarrow> bool \<Rightarrow> apply_patch_action
     \<Rightarrow> string + runtime_invocation" where
  "prepare_apply_patch env policy profile fs_policy sandbox action =
     (case assess_patch_safety env action policy profile fs_policy (aa_cwd action) sandbox of
        AutoApprove \<Rightarrow> Inr \<lparr>ri_action = action, ri_auto_approved = True, ri_requirement = SkipApproval False\<rparr>
      | AskUser \<Rightarrow> Inr \<lparr>ri_action = action, ri_auto_approved = False, ri_requirement = NeedsApproval None\<rparr>
      | RejectPatch reason \<Rightarrow> Inl (''patch rejected: '' @ reason))"

definition file_paths_for_action :: "apply_patch_action \<Rightarrow> path list" where
  "file_paths_for_action action =
     concat (map (\<lambda>(p, change).
       p # (case change of FileUpdate _ (Some dest) _ \<Rightarrow> [dest] | _ \<Rightarrow> [])) (aa_changes action))"

definition require_environment_id :: "string option \<Rightarrow> bool \<Rightarrow> string + string option" where
  "require_environment_id parsed allow =
     (case parsed of
        Some e \<Rightarrow>
          if \<not> allow then Inl ''apply_patch environment selection is unavailable for this turn'' else Inr (Some e)
      | None \<Rightarrow> Inr None)"

subsection \<open>From a command to an approved action\<close>

lemma file_paths_changes:
  "set (file_paths_for_action action) = (\<Union>pc\<in>set (aa_changes action). change_paths pc)"
proof -
  have "set (case pc of (p, change) \<Rightarrow> p # (case change of FileUpdate _ (Some dest) _ \<Rightarrow> [dest] | _ \<Rightarrow> [])) = change_paths pc" for pc
    by (cases pc; cases "snd pc") (auto simp: change_paths_def split: option.splits)
  then show ?thesis by (simp add: file_paths_for_action_def)
qed

text \<open>The patch tool called with a patch verifies it like the command \<open>apply_patch\<close> does.\<close>

lemma tool_call_as_command:
  "parse_patch patch = Inr args \<Longrightarrow>
    maybe_parse_apply_patch_verified_with_mode diff query conv ul fs cwd mode [''apply_patch'', patch] w =
      verify_apply_patch_args_with_mode diff ul fs cwd mode args w"
  by (cases conv)
    (simp_all add: maybe_parse_apply_patch_verified_with_mode_def maybe_parse_apply_patch_def APPLY_PATCH_COMMANDS_def)

lemma maybe_parse_body:
  assumes "maybe_parse_apply_patch query conv argv = Body args"
  shows "\<exists>body source. parse_patch body = Inr source \<and> pa_hunks args = pa_hunks source \<and> pa_patch args = pa_patch source"
proof -
  have direct: "(case parse_patch body of Inr source \<Rightarrow> Body source | Inl e \<Rightarrow> PatchParseError e) = Body args
    \<Longrightarrow> parse_patch body = Inr args" for body
    by (cases "parse_patch body") simp_all
  have shell: ?thesis
    if p: "parse_shell_script conv argv = Some (sh, script)"
      and b: "(case extract_apply_patch_from_bash query script of
          Inr (body, workdir) \<Rightarrow>
            (case parse_patch body of Inr source \<Rightarrow> Body (source\<lparr>pa_workdir := workdir\<rparr>) | Inl e \<Rightarrow> PatchParseError e)
        | Inl CommandDidNotStartWithApplyPatch \<Rightarrow> NotApplyPatch
        | Inl e \<Rightarrow> ShellParseError e) = Body args" for sh script
  proof -
    obtain body wd where "extract_apply_patch_from_bash query script = Inr (body, wd)"
      using b by (auto split: sum.splits extract_heredoc_error.splits)
    then show ?thesis using b by (cases "parse_patch body") (auto intro!: exI [of _ body])
  qed
  show ?thesis
    using assms direct shell
    by (fastforce simp: maybe_parse_apply_patch_def Let_def split: list.splits if_splits option.splits prod.splits)
qed

lemma verified_body_iff:
  "verify_apply_patch_args_with_mode diff ul fs cwd mode args w = Some (VerifiedBody action, w') \<longleftrightarrow>
     try_verify_apply_patch_args diff ul fs cwd mode args w = Some (Inr action, w')"
proof (cases "try_verify_apply_patch_args diff ul fs cwd mode args w")
  case (Some x)
  then show ?thesis by (cases x; cases "fst x") (auto simp: verify_apply_patch_args_with_mode_def)
qed (simp add: verify_apply_patch_args_with_mode_def)

lemma try_verify_action:
  assumes "try_verify_apply_patch_args diff ul fs cwd mode args w = Some (Inr action, w')"
  shows "verify_loop diff (lib_at ul (aa_cwd action)) fs mode (pa_hunks args) [] w = Some (Inr (aa_changes action), w')
    \<and> aa_update_file_mode action = mode \<and> aa_patch action = pa_patch args"
proof -
  obtain ecwd where e: "(case pa_workdir args of None \<Rightarrow> Inr cwd | Some dir \<Rightarrow> ul_join ul cwd dir) = Inr ecwd"
    using assms by (auto simp: try_verify_apply_patch_args_def split: sum.splits)
  obtain r where "verify_loop diff (lib_at ul ecwd) fs mode (pa_hunks args) [] w = Some (r, w')"
    using assms e by (auto simp: try_verify_apply_patch_args_def)
  then show ?thesis using assms e by (cases r) (auto simp: try_verify_apply_patch_args_def)
qed

context text_files
begin

lemma verified_action:
  assumes "maybe_parse_apply_patch_verified_with_mode diff query conv ul fs cwd mode argv w = Some (VerifiedBody action, w')"
    and "cr \<notin> set (aa_patch action)"
  shows "files w' = files w \<and> aa_update_file_mode action = mode \<and> distinct (map fst (aa_changes action))
    \<and> (\<exists>args. parse_patch (aa_patch action) = Inr args
        \<and> list_all2 (approves (lib_at ul (aa_cwd action)) mode (files w)) (pa_hunks args) (aa_changes action))"
proof -
  obtain args where a: "maybe_parse_apply_patch query conv argv = Body args"
    "try_verify_apply_patch_args diff ul fs cwd mode args w = Some (Inr action, w')"
    using assms(1)
    by (auto simp: maybe_parse_apply_patch_verified_with_mode_def verified_body_iff
        split: if_splits maybe_apply_patch.splits)
  note e = try_verify_action [OF a(2)]
  obtain body source where s: "parse_patch body = Inr source" "pa_hunks args = pa_hunks source" "pa_patch args = pa_patch source"
    using maybe_parse_body [OF a(1)] by blast
  obtain args' where "parse_patch (aa_patch action) = Inr args'" "pa_hunks args' = pa_hunks args"
    using reparse [OF s(1)] assms(2) s(2,3) e by auto
  then show ?thesis using verify_loop_approves [OF e [THEN conjunct1]] e by auto
qed

end

end
