(* ===== verification/Patch_Approval_Properties.thy ===== *)
theory Patch_Approval_Properties
  imports Patch_Safety Turn_Diff_Properties
begin

text \<open>
  What holds between the patch that was verified and approved and the patch that is carried out.
\<close>

definition patch_options :: "apply_patch_action \<Rightarrow> bool \<Rightarrow> apply_patch_options" where
  "patch_options action follow = \<lparr>op_update_file_mode = aa_update_file_mode action, op_follow_symlinks = follow\<rparr>"

lemma run_attempt_loop:
  assumes "run_attempt pl fs options patch d w = Some (ok, d', w')" and "parse_patch patch = Inr args"
  shows "w' = w \<and> \<not> ok \<or> (\<exists>r d1. apply_hunk_loop pl fs (op_update_file_mode options) (pa_hunks args)
      \<lparr>af_added = [], af_modified = [], af_deleted = []\<rparr> delta_empty w = Some (r, d1, w')
    \<and> (ok \<longrightarrow> (\<exists>a. r = Inr a)))"
proof (cases "pa_hunks args = []")
  case True
  then show ?thesis
    using assms by (auto simp: run_attempt_def apply_patch_with_options_def apply_hunks_with_options_def apply_hunks_to_files_def)
next
  case False
  obtain r d1 w1 where "apply_hunk_loop pl fs (op_update_file_mode options) (pa_hunks args)
      \<lparr>af_added = [], af_modified = [], af_deleted = []\<rparr> delta_empty w = Some (r, d1, w1)"
    using assms False
    by (cases "apply_hunk_loop pl fs (op_update_file_mode options) (pa_hunks args)
        \<lparr>af_added = [], af_modified = [], af_deleted = []\<rparr> delta_empty w")
      (auto simp: run_attempt_def apply_patch_with_options_def apply_hunks_with_options_def apply_hunks_to_files_def)
  then show ?thesis
    using assms False
    by (cases r)
      (auto simp: run_attempt_def apply_patch_with_options_def apply_hunks_with_options_def apply_hunks_to_files_def)
qed

subsection \<open>A sample\<close>

definition sample_ul :: uri_lib where
  "sample_ul = \<lparr>ul_join = (\<lambda>cwd p. Inr (cwd @ ''/'' @ p)), ul_native = (\<lambda>p. p), ul_parent = parent_path\<rparr>"

definition sample_action :: apply_patch_action where
  "sample_action = \<lparr>aa_changes = [(''/w/f'', FileUpdate [] None (''x'' @ [lf]))], aa_update_file_mode = NormalizeToLf,
     aa_patch = butlast sample_patch, aa_cwd = ''/w''\<rparr>"

definition sample_policy :: sandbox_policy where
  "sample_policy = policy_restricted
     [entry_new (SpecialEntry RootPath) ReadAccess, entry_new (SpecialEntry (ProjectRoots None)) WriteAccess]"

abbreviation calm_disk :: disk where "calm_disk \<equiv> work_disk (\<lambda>_. None)"

abbreviation verify_sample :: "string \<Rightarrow> disk \<Rightarrow> (maybe_verified \<times> disk) option" where
  "verify_sample patch w \<equiv> maybe_parse_apply_patch_verified_with_mode (\<lambda>_ _ _. []) (\<lambda>_. Inr []) (Some Posix) sample_ul
     direct_fs ''/w'' NormalizeToLf [''apply_patch'', patch] w"

lemma sample_verified: "\<exists>w1. verify_sample sample_patch calm_disk = Some (VerifiedBody sample_action, w1)"
proof -
  have "map_option fst (verify_sample sample_patch calm_disk) = Some (VerifiedBody sample_action)" by code_simp
  then show ?thesis by auto
qed

lemma sample_runs:
  "\<exists>delta w3. run_attempt (lib_at sample_ul (aa_cwd sample_action)) direct_fs (patch_options sample_action True)
     (aa_patch sample_action) delta_empty calm_disk = Some (True, delta, w3) \<and> disk_files w3 ''/w/f'' = Some (''x'' @ [lf])"
proof -
  have "map_option (\<lambda>(ok, _, w). (ok, disk_files w ''/w/f''))
    (run_attempt (lib_at sample_ul (aa_cwd sample_action)) direct_fs (patch_options sample_action True)
     (aa_patch sample_action) delta_empty calm_disk) = Some (True, Some (''x'' @ [lf]))" by code_simp
  then show ?thesis by auto
qed

lemma sample_plain: "cr \<notin> set (aa_patch sample_action)" "moves_clear (aa_changes sample_action)"
  by (code_simp, simp add: sample_action_def)

subsection \<open>Approved changes\<close>

text \<open>C23. A patch that was verified and then carried out with success has done exactly what was shown for
  approval: when the files are as they were at verification, the files afterwards are those with the
  approved changes made, one after the other, although the text is parsed a second time and every file is
  read again. (No file is moved onto a path that the patch itself changes from there on, and the kept text
  has no carriage returns.)\<close>

theorem approved_changes_are_applied:
  assumes "maybe_parse_apply_patch_verified_with_mode diff query conv ul direct_fs cwd mode argv w
      = Some (VerifiedBody action, w1)"
    and "cr \<notin> set (aa_patch action)" and "moves_clear (aa_changes action)" and "disk_files w2 = disk_files w"
    and "run_attempt (lib_at ul (aa_cwd action)) direct_fs (patch_options action follow) (aa_patch action) committed w2
      = Some (True, delta, w3)"
  shows "disk_files w3 = fold perform (aa_changes action) (disk_files w)"
proof -
  note v = direct.verified_action [OF assms(1,2)]
  then obtain args where args: "parse_patch (aa_patch action) = Inr args"
    "list_all2 (approves (lib_at ul (aa_cwd action)) mode (disk_files w)) (pa_hunks args) (aa_changes action)"
    by blast
  obtain a d1 where "apply_hunk_loop (lib_at ul (aa_cwd action)) direct_fs mode (pa_hunks args)
      \<lparr>af_added = [], af_modified = [], af_deleted = []\<rparr> delta_empty w2 = Some (Inr a, d1, w3)"
    using run_attempt_loop [OF assms(5) args(1)] v by (auto simp: patch_options_def)
  from direct.loop_performs [OF this args(2)] v assms(3,4) show ?thesis by simp
qed

theorem approved_changes_are_applied_witness:
  "\<exists>delta w3. run_attempt (lib_at sample_ul (aa_cwd sample_action)) direct_fs (patch_options sample_action True)
     (aa_patch sample_action) delta_empty calm_disk = Some (True, delta, w3)
   \<and> disk_files w3 = fold perform (aa_changes sample_action) (disk_files calm_disk)"
proof -
  obtain w1 where v: "verify_sample sample_patch calm_disk = Some (VerifiedBody sample_action, w1)"
    using sample_verified by blast
  obtain delta w3 where r: "run_attempt (lib_at sample_ul (aa_cwd sample_action)) direct_fs (patch_options sample_action True)
     (aa_patch sample_action) delta_empty calm_disk = Some (True, delta, w3)"
    using sample_runs by blast
  from approved_changes_are_applied [OF v sample_plain refl r] r show ?thesis by blast
qed

subsection \<open>Automatic approval\<close>

lemma constrained_paths:
  assumes "is_write_patch_constrained_to_writable_paths env action policy cwd" and "\<not> has_full_disk_write_access env policy"
  shows "\<exists>native_cwd. fe_to_abs env cwd = Some native_cwd
    \<and> (\<forall>q\<in>set (file_paths_for_action action). is_path_writable env policy native_cwd q)"
proof -
  obtain native_cwd where n: "fe_to_abs env cwd = Some native_cwd"
    using assms by (auto simp: is_write_patch_constrained_to_writable_paths_def split: option.splits)
  have "is_path_writable env policy native_cwd q" if pc: "pc \<in> set (aa_changes action)" and q: "q \<in> change_paths pc" for pc q
  proof -
    have "case snd pc of
        FileUpdate _ move_path _ \<Rightarrow> is_path_writable env policy native_cwd (fst pc)
          \<and> (case move_path of None \<Rightarrow> True | Some dest \<Rightarrow> is_path_writable env policy native_cwd dest)
      | _ \<Rightarrow> is_path_writable env policy native_cwd (fst pc)"
      using assms n pc by (auto simp: is_write_patch_constrained_to_writable_paths_def list_all_iff)
    then show ?thesis using q by (cases "snd pc") (auto simp: change_paths_def split: option.splits)
  qed
  then show ?thesis using n by (auto simp: file_paths_changes)
qed

lemma auto_approve_constrained:
  "assess_patch_safety env action policy profile fs_policy cwd sandbox = AutoApprove \<Longrightarrow>
    is_write_patch_constrained_to_writable_paths env action fs_policy cwd
    \<and> policy \<noteq> AskUnlessTrusted \<and> (is_managed profile \<longrightarrow> sandbox)"
  by (cases profile) (auto simp: assess_patch_safety_def Let_def split: if_splits)

text \<open>C24. A patch that runs without asking stays where the policy lets it write, if its text has no carriage
  return: whatever else it is, from a command or the patch tool, on whatever disk without links it is
  carried out afterwards, and whether it succeeds, fails halfway or the file system fails under it, every
  path whose text it changes is one that the file system policy allows to write, unless the policy allows
  the whole disk. Symbolic and hard links, through which a writable path may reach a file elsewhere, are
  not part of the disk, and the statement does not speak of them.\<close>

theorem auto_approved_patch_stays_writable:
  assumes "maybe_parse_apply_patch_verified_with_mode diff query conv ul direct_fs cwd mode argv w
      = Some (VerifiedBody action, w1)"
    and "cr \<notin> set (aa_patch action)"
    and "prepare_apply_patch env policy profile fs_policy sandbox action = Inr ri" and "ri_auto_approved ri"
    and "\<not> has_full_disk_write_access env fs_policy"
    and "run_attempt (lib_at ul (aa_cwd action)) direct_fs (patch_options action follow) (aa_patch action) committed w2
      = Some (ok, delta, w3)"
    and "disk_files w3 q \<noteq> disk_files w2 q"
  shows "\<exists>native_cwd. fe_to_abs env (aa_cwd action) = Some native_cwd \<and> is_path_writable env fs_policy native_cwd q"
proof -
  note v = direct.verified_action [OF assms(1,2)]
  then obtain args where args: "parse_patch (aa_patch action) = Inr args"
    "list_all2 (approves (lib_at ul (aa_cwd action)) mode (disk_files w)) (pa_hunks args) (aa_changes action)"
    by blast
  obtain r d1 where "apply_hunk_loop (lib_at ul (aa_cwd action)) direct_fs mode (pa_hunks args)
      \<lparr>af_added = [], af_modified = [], af_deleted = []\<rparr> delta_empty w2 = Some (r, d1, w3)"
    using run_attempt_loop [OF assms(6) args(1)] v assms(7) by (auto simp: patch_options_def)
  then have "q \<in> set (file_paths_for_action action)"
    using direct.loop_frame [OF _ args(2), of _ _ w2 r d1 w3 q] assms(7) by (auto simp: file_paths_changes)
  moreover have "assess_patch_safety env action policy profile fs_policy (aa_cwd action) sandbox = AutoApprove"
    using assms(3,4) by (auto simp: prepare_apply_patch_def split: safety_check.splits)
  ultimately show ?thesis using constrained_paths auto_approve_constrained assms(5) by blast
qed

theorem auto_approved_patch_stays_writable_witness:
  "\<exists>native_cwd. fe_to_abs plain_env (aa_cwd sample_action) = Some native_cwd
     \<and> is_path_writable plain_env sample_policy native_cwd ''/w/f''"
proof -
  obtain w1 where v: "verify_sample sample_patch calm_disk = Some (VerifiedBody sample_action, w1)"
    using sample_verified by blast
  obtain delta w3 where r: "run_attempt (lib_at sample_ul (aa_cwd sample_action)) direct_fs (patch_options sample_action True)
     (aa_patch sample_action) delta_empty calm_disk = Some (True, delta, w3)" "disk_files w3 ''/w/f'' = Some (''x'' @ [lf])"
    using sample_runs by blast
  have p: "prepare_apply_patch plain_env AskOnRequest (ManagedProfile (ManagedRestricted (pol_entries sample_policy) None)) sample_policy True sample_action =
    Inr \<lparr>ri_action = sample_action, ri_auto_approved = True, ri_requirement = SkipApproval False\<rparr>" by code_simp
  have "disk_files w3 ''/w/f'' \<noteq> disk_files calm_disk ''/w/f''"
    using r(2) by (simp add: disk_files_def disk_at_def work_disk_def)
  moreover have "\<not> has_full_disk_write_access plain_env sample_policy" by code_simp
  ultimately show ?thesis
    using auto_approved_patch_stays_writable [OF v sample_plain(1) p _ _ r(1), of "''/w/f''"] by simp
qed

subsection \<open>A move onto a later target\<close>

definition crossing_patch :: string where
  "crossing_patch = concat (map (\<lambda>l. l @ [lf])
     [''*** Begin Patch'', ''*** Update File: f'', ''*** Move to: g'', ''-b'', ''+x'',
      ''*** Update File: g'', ''-a'', ''+y'', ''*** End Patch''])"

definition crossing_disk :: disk where
  "crossing_disk = calm_disk\<lparr>dk_nodes := (''/w/g'', FileNode (''a'' @ [lf] @ ''c'' @ [lf])) # dk_nodes calm_disk\<rparr>"

text \<open>The restriction on moves is needed: the check that no two operations have the same target looks
  at the sources only. When a patch moves one file over another and then updates that other, verification
  computes the second update from the file that is about to be overwritten. The patch is accepted and
  succeeds, and the file ends up with a text that differs from the one shown for approval.\<close>

theorem crossing_move_is_not_as_approved:
  "(case verify_sample crossing_patch crossing_disk of
      Some (VerifiedBody action, w) \<Rightarrow>
        map_of (aa_changes action) ''/w/g'' = Some (FileUpdate [] None (''y'' @ [lf] @ ''c'' @ [lf]))
        \<and> (case run_attempt (lib_at sample_ul (aa_cwd action)) direct_fs (patch_options action True) (aa_patch action) delta_empty w of
             Some (ok, _, w') \<Rightarrow> ok \<and> disk_files w' ''/w/g'' = Some (''y'' @ [lf] @ ''x'' @ [lf])
           | None \<Rightarrow> False)
    | _ \<Rightarrow> False)"
  by code_simp

end
