(* ===== verification/Fs_Policy_Properties.thy ===== *)
theory Fs_Policy_Properties
  imports Fs_Access
begin

text \<open>
  Properties of the file system sandbox policy: which entry decides about a path, what the check for the
  whole disk promises, how metadata directories are protected, and what changing a policy changes.
\<close>

subsection \<open>Access\<close>

lemma restricted_access:
  assumes "env_ok env" and "pol_kind pol = Restricted" and "resolve_candidate_path env p cwd = Some q"
  shows "(covering env pol cwd q = {} \<longrightarrow> resolve_access_with_cwd env pol p cwd = DenyAccess)
    \<and> (\<forall>e\<in>covering env pol cwd q.
        (\<forall>r\<in>covering env pol cwd q. length (components (re_path r)) \<le> length (components (re_path e)))
        \<longrightarrow> resolve_access_with_cwd env pol p cwd
            = Max (re_access ` {r \<in> covering env pol cwd q. re_path r = re_path e}))"
proof (intro conjI impI ballI)
  show "covering env pol cwd q = {} \<Longrightarrow> resolve_access_with_cwd env pol p cwd = DenyAccess"
    using access_no_entry [OF assms(2,3)] .
next
  fix e
  assume e: "e \<in> covering env pol cwd q"
    and longest: "\<forall>r\<in>covering env pol cwd q. length (components (re_path r)) \<le> length (components (re_path e))"
  obtain m where m: "m \<in> covering env pol cwd q" "resolve_access_with_cwd env pol p cwd = re_access m"
    "\<And>r. r \<in> covering env pol cwd q \<Longrightarrow> resolved_entry_precedence r \<le> resolved_entry_precedence m"
    using access_obtains [OF assms(2,3)] e by blast
  have len: "length (components (re_path m)) = length (components (re_path e))"
    using m(3) [OF e] longest m(1) by (fastforce simp: precedence_le)
  then have eq: "re_path m = re_path e"
    using path_starts_with_antisym [of "re_path m" "re_path e"] path_starts_with_chain [of q "re_path e" "re_path m"] m(1) e
      resolved_entry_normal [OF assms(1)]
    by (auto dest!: coveringD)
  show "resolve_access_with_cwd env pol p cwd = Max (re_access ` {r \<in> covering env pol cwd q. re_path r = re_path e})"
    unfolding m(2)
  proof (rule Max_eqI [symmetric])
    show "re_access m \<in> re_access ` {r \<in> covering env pol cwd q. re_path r = re_path e}" using m(1) eq by blast
    show "a \<le> re_access m" if "a \<in> re_access ` {r \<in> covering env pol cwd q. re_path r = re_path e}" for a
      using that m(3) eq by (fastforce simp: precedence_le)
  qed simp
qed

text \<open>C25. Access to a path. Under a policy that is unrestricted or leaves the sandbox to others, every path can be
  written. Under a restricted policy a path that cannot be made absolute is denied; any other path is decided
  by the most specific path of the policy that covers it, wherever its entries stand: no covering entry
  denies, and among the entries for the longest covering path the strongest one counts, Deny before Write
  before Read. The current directory is absolute and the paths of entries convert to normal absolute paths.\<close>

theorem most_specific_entry_decides:
  assumes "env_ok env"
  shows "(pol_kind pol \<noteq> Restricted \<longrightarrow> resolve_access_with_cwd env pol p cwd = WriteAccess)
    \<and> (pol_kind pol = Restricted \<longrightarrow> resolve_candidate_path env p cwd = None \<longrightarrow>
        resolve_access_with_cwd env pol p cwd = DenyAccess)
    \<and> (\<forall>q. pol_kind pol = Restricted \<longrightarrow> resolve_candidate_path env p cwd = Some q \<longrightarrow>
        (covering env pol cwd q = {} \<longrightarrow> resolve_access_with_cwd env pol p cwd = DenyAccess)
        \<and> (\<forall>e\<in>covering env pol cwd q.
            (\<forall>r\<in>covering env pol cwd q. length (components (re_path r)) \<le> length (components (re_path e)))
            \<longrightarrow> resolve_access_with_cwd env pol p cwd
                = Max (re_access ` {r \<in> covering env pol cwd q. re_path r = re_path e})))"
proof (intro conjI impI allI)
  show "pol_kind pol \<noteq> Restricted \<Longrightarrow> resolve_access_with_cwd env pol p cwd = WriteAccess"
    "pol_kind pol = Restricted \<Longrightarrow> resolve_candidate_path env p cwd = None \<Longrightarrow>
      resolve_access_with_cwd env pol p cwd = DenyAccess"
    by (simp_all add: resolve_access_with_cwd_def)
next
  fix q
  assume "pol_kind pol = Restricted" and "resolve_candidate_path env p cwd = Some q"
  with assms show "covering env pol cwd q = {} \<Longrightarrow> resolve_access_with_cwd env pol p cwd = DenyAccess"
    and "\<forall>e\<in>covering env pol cwd q.
        (\<forall>r\<in>covering env pol cwd q. length (components (re_path r)) \<le> length (components (re_path e)))
        \<longrightarrow> resolve_access_with_cwd env pol p cwd
            = Max (re_access ` {r \<in> covering env pol cwd q. re_path r = re_path e})"
    using restricted_access by blast+
qed

definition project_policy :: sandbox_policy where
  "project_policy = policy_restricted
     [entry_new (PathEntry ''/w'') DenyAccess, entry_new (SpecialEntry (ProjectRoots None)) WriteAccess,
      entry_new (PathEntry ''/w/src'') WriteAccess, entry_new (SpecialEntry RootPath) ReadAccess,
      entry_new (PathEntry ''/w/src'') ReadAccess]"

theorem most_specific_entry_decides_witness:
  "resolve_access_with_cwd plain_env project_policy ''src/f'' ''/w'' = WriteAccess"
proof -
  have "resolve_candidate_path plain_env ''src/f'' ''/w'' = Some ''/w/src/f''"
    and r: "pol_kind project_policy = Restricted" by code_simp+
  note t = most_specific_entry_decides [OF plain_env_ok, THEN conjunct2, THEN conjunct2, rule_format,
    OF r this(1), THEN conjunct2, rule_format, of "\<lparr>re_path = ''/w/src'', re_access = ReadAccess\<rparr>"]
  have c: "covering plain_env project_policy ''/w'' ''/w/src/f'' = set
     [\<lparr>re_path = ''/w'', re_access = DenyAccess\<rparr>, \<lparr>re_path = ''/w'', re_access = WriteAccess\<rparr>,
      \<lparr>re_path = ''/w/src'', re_access = WriteAccess\<rparr>, \<lparr>re_path = ''/'', re_access = ReadAccess\<rparr>,
      \<lparr>re_path = ''/w/src'', re_access = ReadAccess\<rparr>]"
    unfolding covering_def by code_simp
  have "Max (re_access ` {r \<in> covering plain_env project_policy ''/w'' ''/w/src/f''. re_path r = ''/w/src''}) = WriteAccess"
    unfolding c by code_simp
  moreover have "\<lparr>re_path = ''/w/src'', re_access = ReadAccess\<rparr> \<in> covering plain_env project_policy ''/w'' ''/w/src/f''"
    by (simp add: c)
  moreover have "\<forall>r\<in>covering plain_env project_policy ''/w'' ''/w/src/f''.
      length (components (re_path r)) \<le> length (components ''/w/src'')" unfolding c by code_simp
  ultimately show ?thesis using t by simp
qed

subsection \<open>The whole disk\<close>

text \<open>An entry that does not narrow writing is overridden on its own path.\<close>

lemma override_resolves:
  assumes "env_ok env" and "fe_slash_tmp_is_dir env" and "env_absolute env cwd = Some c"
    and "has_same_target_write_override env pol x"
    and "resolve_entry_path env (se_path x) (Some c) = Some q"
  shows "se_access x = ReadAccess \<and> \<lparr>re_path = q, re_access = WriteAccess\<rparr> \<in> set (resolved_entries_with_cwd env pol cwd)"
proof -
  obtain y where y: "y \<in> set (pol_entries pol)" "se_access y = WriteAccess" "se_access x < WriteAccess"
    "file_system_paths_share_target env (se_path y) (se_path x)"
    using assms(4) by (auto simp: has_same_target_write_override_def list_ex_iff)
  have "resolve_entry_path env (se_path y) (Some c) = Some q"
  proof (cases "se_path y = se_path x")
    case True
    with assms(5) show ?thesis by simp
  next
    case False
    have tmp: "p = ''/tmp''" if "fe_to_abs env u = Some p" "components p = components ''/tmp''" for u p
      using that assms(1) slash_tmp_normal normal_path_eq [of p "''/tmp''"] by (auto simp: env_ok_def)
    have root: "p = ''/''" if "fe_to_abs env u = Some p" "components p = [RootDir]" for u p
      using that assms(1) normal_path_eq [of p "''/''"] by (auto simp: env_ok_def components_root)
    show ?thesis
      using y(4) assms(2,5) False tmp root
      by (cases "se_path x"; cases "se_path y")
        (auto simp: special_path_matches_absolute_path_def resolve_entry_path_def resolve_file_system_path_def
          resolve_file_system_special_path_def absolute_root_path_for_cwd_def
          split: option.splits special_path.splits)
  qed
  then show ?thesis using y assms(3) by (auto simp: in_resolved_entries)
qed

lemma root_entry_resolves:
  "has_root_access P pol \<Longrightarrow> env_absolute env cwd = Some c \<Longrightarrow>
    \<exists>a. P a \<and> \<lparr>re_path = ''/'', re_access = a\<rparr> \<in> set (resolved_entries_with_cwd env pol cwd)"
  by (force simp: has_root_access_def list_ex_iff in_resolved_entries resolve_entry_path_def absolute_root_path_for_cwd_def)

text \<open>The check for the whole disk is right: when it says that a policy allows to write everywhere, every
  path that resolves has write access and passes the check for a single path, on a system where \<open>/tmp\<close> is a
  directory. The read-only and deny entries that the check overlooks are overridden on their own path.\<close>

theorem full_disk_write_allows_every_path:
  assumes "env_ok env" and "fe_slash_tmp_is_dir env" and "has_full_disk_write_access env pol"
    and "env_absolute env cwd \<noteq> None" and "resolve_candidate_path env p cwd \<noteq> None"
  shows "resolve_access_with_cwd env pol p cwd = WriteAccess \<and> can_write_path_with_cwd env pol p cwd"
proof -
  obtain c q where c: "env_absolute env cwd = Some c" and q: "resolve_candidate_path env p cwd = Some q"
    using assms(4,5) by blast
  have "resolve_access_with_cwd env pol p cwd = WriteAccess" if k: "pol_kind pol = Restricted"
  proof -
    have root: "has_root_access can_write pol" and narrow: "\<not> has_write_narrowing_entries env pol"
      using assms(3) k by (simp_all add: has_full_disk_write_access_def)
    let ?root = "\<lparr>re_path = ''/'', re_access = WriteAccess\<rparr>"
    have r: "?root \<in> covering env pol cwd q"
      using root_entry_resolves [OF root c] normal_path_under_root [OF candidate_normal [OF assms(1) q]]
      by (simp add: covering_def)
    obtain m where m: "m \<in> covering env pol cwd q" "resolve_access_with_cwd env pol p cwd = re_access m"
      "\<And>r. r \<in> covering env pol cwd q \<Longrightarrow> resolved_entry_precedence r \<le> resolved_entry_precedence m"
      using access_obtains [OF k q] r by blast
    obtain x where x: "x \<in> set (pol_entries pol)" "resolve_entry_path env (se_path x) (Some c) = Some (re_path m)"
      "re_access m = se_access x"
      using m(1) c by (auto simp: covering_def in_resolved_entries)
    have nx: "\<not> narrows_write env pol x" using narrow k x(1) by (auto simp: has_write_narrowing_entries_def list_ex_iff)
    show ?thesis
    proof (cases "has_same_target_write_override env pol x")
      case True
      note o = override_resolves [OF assms(1,2) c True x(2)]
      then have "\<lparr>re_path = re_path m, re_access = WriteAccess\<rparr> \<in> covering env pol cwd q"
        using m(1) by (simp add: covering_def)
      then show ?thesis using m(3) o x(3) by (fastforce simp: precedence_le)
    next
      case False
      have "length (components (re_path m)) = Suc 0" if "''/'' = re_path m" using that [symmetric] by (simp add: components_root)
      then show ?thesis
        using False nx x m(2) m(3) [OF r]
        by (cases "se_access x")
          (auto simp: narrows_write_def resolve_entry_path_def resolve_file_system_path_def precedence_le
            resolve_file_system_special_path_def absolute_root_path_for_cwd_def components_root
            split: file_system_path.splits special_path.splits if_splits)
    qed
  qed
  then have "resolve_access_with_cwd env pol p cwd = WriteAccess" using access_unmanaged by blast
  then show ?thesis using assms(3) by (simp add: can_write_path_with_cwd_def)
qed

definition override_policy :: sandbox_policy where
  "override_policy = policy_restricted
     [entry_new (PathEntry ''/tmp'') ReadAccess, entry_new (SpecialEntry RootPath) WriteAccess,
      entry_new (SpecialEntry RootPath) ReadAccess, entry_new (SpecialEntry SlashTmpPath) WriteAccess]"

theorem full_disk_write_allows_every_path_witness:
  "resolve_access_with_cwd plain_env override_policy ''/tmp/f'' ''/w'' = WriteAccess
   \<and> can_write_path_with_cwd plain_env override_policy ''/tmp/f'' ''/w''"
proof (rule full_disk_write_allows_every_path [OF plain_env_ok])
  show "fe_slash_tmp_is_dir plain_env" by (simp add: plain_env_def)
  show "has_full_disk_write_access plain_env override_policy" by code_simp
  show "env_absolute plain_env ''/w'' \<noteq> None" by code_simp
  show "resolve_candidate_path plain_env ''/tmp/f'' ''/w'' \<noteq> None" by code_simp
qed

subsection \<open>Protected metadata\<close>

definition no_metadata_grants :: "fs_env \<Rightarrow> sandbox_policy \<Rightarrow> path \<Rightarrow> bool" where
  "no_metadata_grants env pol cwd \<longleftrightarrow>
     (\<forall>root\<in>write_paths env pol cwd. \<forall>w\<in>write_paths env pol cwd. \<forall>m\<in>set PROTECTED_METADATA_PATH_NAMES.
        \<not> path_starts_with w (env_join env root m))"

text \<open>C26. Metadata directories are protected: when no entry of a policy gives write access inside a
  \<open>.git\<close>, \<open>.agents\<close> or \<open>.codex\<close> directory of a writable root, and the policy does not allow the whole disk,
  nothing in such a directory can be written, whatever else the policy says, and the attempt is reported with
  the name of a protected directory.\<close>

theorem metadata_is_protected:
  assumes "env_ok env" and "pol_kind pol = Restricted" and "\<not> has_full_disk_write_access env pol"
    and "no_metadata_grants env pol cwd" and "root \<in> write_paths env pol cwd"
    and "m \<in> set PROTECTED_METADATA_PATH_NAMES" and "resolve_candidate_path env p cwd = Some q"
    and "path_starts_with q (env_join env root m)"
  shows "\<not> can_write_path_with_cwd env pol p cwd
    \<and> (\<exists>n\<in>set PROTECTED_METADATA_PATH_NAMES. forbidden_agent_metadata_write env p cwd pol = Some n)"
proof -
  have q: "normal_path q" using candidate_normal [OF assms(1,7)] .
  obtain d n where d: "metadata_child_of_writable_root env pol q cwd = Some (d, n)"
    using metadata_child_of_writable_root_None [OF assms(1) q _ assms(5,6)] assms(8)
    by (cases "metadata_child_of_writable_root env pol q cwd") auto
  obtain r where r: "r \<in> write_paths env pol cwd" "n \<in> set PROTECTED_METADATA_PATH_NAMES" "d = env_join env r n"
    using metadata_child_of_writable_root_Some [OF assms(1) q d] by blast
  have e: "\<not> has_explicit_write_entry_for_metadata_path env pol d q cwd"
    using assms(4) r by (auto simp: has_explicit_write_entry_iff no_metadata_grants_def)
  have den: "is_metadata_write_denied env pol p' cwd" if "resolve_candidate_path env p' cwd = Some q" for p'
    using that assms(2) d e by (simp add: is_metadata_write_denied_def)
  have "\<not> can_write_path_with_cwd env pol p' cwd" if "resolve_candidate_path env p' cwd = Some q" for p'
    using den [OF that] assms(3) by (simp add: can_write_path_with_cwd_def)
  then show ?thesis
    using assms(2,7) d e r(2) candidate_of_normal [OF q] by (simp add: forbidden_agent_metadata_write_def)
qed

definition workspace_policy :: sandbox_policy where
  "workspace_policy = policy_restricted
     [entry_new (SpecialEntry RootPath) ReadAccess, entry_new (SpecialEntry (ProjectRoots None)) WriteAccess,
      entry_new (SpecialEntry SlashTmpPath) WriteAccess]"

lemma workspace_write_paths: "write_paths plain_env workspace_policy ''/w'' = set [''/w'', ''/tmp'']"
  unfolding write_paths_def by code_simp

theorem metadata_is_protected_witness:
  "\<not> can_write_path_with_cwd plain_env workspace_policy ''.git/config'' ''/w''"
proof -
  have "pol_kind workspace_policy = Restricted" "\<not> has_full_disk_write_access plain_env workspace_policy"
    "no_metadata_grants plain_env workspace_policy ''/w''"
    "''/w'' \<in> write_paths plain_env workspace_policy ''/w''"
    "''.git'' \<in> set PROTECTED_METADATA_PATH_NAMES"
    "resolve_candidate_path plain_env ''.git/config'' ''/w'' = Some ''/w/.git/config''"
    "path_starts_with ''/w/.git/config'' (env_join plain_env ''/w'' ''.git'')"
    unfolding no_metadata_grants_def workspace_write_paths by code_simp+
  from metadata_is_protected [OF plain_env_ok this] show ?thesis by blast
qed

definition nested_grants :: "sandbox_entry list" where
  "nested_grants = [entry_new (PathEntry ''/w'') WriteAccess, entry_new (PathEntry ''/w/.codex/worktrees/x'') WriteAccess]"

text \<open>With a grant inside a metadata directory the protection depends on the order of the entries: only
  the first root that has the path in its metadata is looked at. When the workspace comes before a worktree
  granted under \<open>.codex\<close>, the worktree's own \<open>.git\<close> can be written; in the other order it is protected.\<close>

theorem metadata_protection_depends_on_order:
  "can_write_path_with_cwd plain_env (policy_restricted nested_grants) ''/w/.codex/worktrees/x/.git'' ''/w''
   \<and> \<not> can_write_path_with_cwd plain_env (policy_restricted (rev nested_grants)) ''/w/.codex/worktrees/x/.git'' ''/w''"
  by code_simp

subsection \<open>Changing a policy\<close>

definition add_writable :: "fs_env \<Rightarrow> path \<Rightarrow> path \<Rightarrow> sandbox_policy \<Rightarrow> sandbox_policy" where
  "add_writable env cwd p pol = (if can_write_path_with_cwd env pol p cwd then pol else add_entry env WriteAccess p pol)"

definition add_readable :: "fs_env \<Rightarrow> path \<Rightarrow> path \<Rightarrow> sandbox_policy \<Rightarrow> sandbox_policy" where
  "add_readable env cwd p pol = (if can_read_path_with_cwd env pol p cwd then pol else add_entry env ReadAccess p pol)"

lemma with_additional_writable_roots_fold:
  "with_additional_writable_roots env cwd roots pol = fold (add_writable env cwd) roots pol"
  unfolding with_additional_writable_roots_def add_writable_def add_entry_def ..

lemma with_additional_readable_roots_fold:
  "with_additional_readable_roots env cwd roots pol =
     (if has_full_disk_read_access pol then pol else fold (add_readable env cwd) roots pol)"
  unfolding with_additional_readable_roots_def add_readable_def add_entry_def ..

lemma add_writable_access:
  assumes "env_ok env" and "env_roundtrip env" and "\<forall>r\<in>set roots. normal_path r" and "resolve_candidate_path env p cwd = Some q"
  shows "resolve_access_with_cwd env (fold (add_writable env cwd) roots pol) p cwd = resolve_access_with_cwd env pol p cwd
    \<or> (\<exists>r\<in>set roots. path_starts_with q r
        \<and> resolve_access_with_cwd env (fold (add_writable env cwd) roots pol) p cwd = WriteAccess)"
  using assms(3)
proof (induction roots arbitrary: pol)
  case (Cons r roots)
  have "resolve_access_with_cwd env (add_writable env cwd r pol) p cwd = resolve_access_with_cwd env pol p cwd
    \<or> path_starts_with q r \<and> resolve_access_with_cwd env (add_writable env cwd r pol) p cwd = WriteAccess"
    using access_add_entry [OF assms(1,2) _ assms(4), of r WriteAccess pol] Cons.prems by (auto simp: add_writable_def)
  then show ?case using Cons.IH [of "add_writable env cwd r pol"] Cons.prems by auto
qed simp

lemma add_readable_access:
  assumes "env_ok env" and "env_roundtrip env" and "\<forall>r\<in>set roots. normal_path r" and "resolve_candidate_path env p cwd = Some q"
  shows "resolve_access_with_cwd env (fold (add_readable env cwd) roots pol) p cwd = resolve_access_with_cwd env pol p cwd
    \<or> (\<exists>r\<in>set roots. path_starts_with q r \<and> resolve_access_with_cwd env pol p cwd = DenyAccess
        \<and> resolve_access_with_cwd env (fold (add_readable env cwd) roots pol) p cwd = ReadAccess)"
  using assms(3)
proof (induction roots arbitrary: pol)
  case (Cons r roots)
  have n: "normal_path r" using Cons.prems by simp
  have "resolve_access_with_cwd env (add_readable env cwd r pol) p cwd = resolve_access_with_cwd env pol p cwd
    \<or> path_starts_with q r \<and> resolve_access_with_cwd env pol p cwd = DenyAccess
      \<and> resolve_access_with_cwd env (add_readable env cwd r pol) p cwd = ReadAccess"
  proof (cases "can_read_path_with_cwd env pol r cwd")
    case False
    then show ?thesis
      using access_add_entry [OF assms(1,2) n assms(4), of ReadAccess pol]
        access_covering [OF refl assms(4) candidate_of_normal [OF n], of pol]
      by (auto simp: add_readable_def can_read_path_with_cwd_def)
  qed (simp add: add_readable_def)
  then show ?case using Cons.IH [of "add_readable env cwd r pol"] Cons.prems by auto
qed simp

lemma resolved_add_writable:
  assumes "env_roundtrip env" and "\<forall>r\<in>set roots. normal_path r"
    and "e \<in> set (resolved_entries_with_cwd env (fold (add_writable env cwd) roots pol) cwd)"
  shows "e \<in> set (resolved_entries_with_cwd env pol cwd) \<or> re_access e = WriteAccess"
  using assms(2,3)
proof (induction roots arbitrary: pol)
  case (Cons r roots)
  then have "e \<in> set (resolved_entries_with_cwd env (add_writable env cwd r pol) cwd) \<or> re_access e = WriteAccess" by simp
  then show ?case
    using resolved_add_entry [OF assms(1), of r WriteAccess pol cwd] Cons.prems(1)
    by (auto simp: add_writable_def split: if_splits)
qed simp

lemma added_root_writable:
  assumes "env_ok env" and "env_roundtrip env" and "normal_path r"
  shows "resolve_access_with_cwd env (add_writable env cwd r pol) r cwd = WriteAccess
    \<or> \<lparr>re_path = r, re_access = DenyAccess\<rparr> \<in> set (resolved_entries_with_cwd env pol cwd)"
proof (cases "can_write (resolve_access_with_cwd env pol r cwd)")
  case True
  then show ?thesis
    using access_add_entry [OF assms candidate_of_normal [OF assms(3)], where cwd = cwd and a = WriteAccess and pol = pol]
    by (auto simp: add_writable_def)
next
  case False
  let ?pol = "add_entry env WriteAccess r pol" and ?new = "\<lparr>re_path = r, re_access = WriteAccess\<rparr>"
  have k: "pol_kind pol = Restricted" using False access_unmanaged by auto
  have new: "add_writable env cwd r pol = ?pol" using False by (simp add: add_writable_def can_write_path_with_cwd_def)
  have cov: "covering env ?pol cwd r = insert ?new (covering env pol cwd r)" using covering_add_entry [OF assms(2,3)] by simp
  have "resolved_entry_precedence e \<le> resolved_entry_precedence ?new"
    if e: "e \<in> covering env pol cwd r" and d: "\<lparr>re_path = r, re_access = DenyAccess\<rparr> \<notin> set (resolved_entries_with_cwd env pol cwd)" for e
  proof -
    note c = coveringD [OF e]
    have "re_path e = r" if "length (components (re_path e)) = length (components r)"
      using path_starts_with_antisym [of r "re_path e"] c resolved_entry_normal [OF assms(1)] assms(3) that by auto
    moreover have "re_access e \<noteq> DenyAccess" if "re_path e = r" using c d that by (cases e) auto
    ultimately show ?thesis using path_starts_with_length [of r "re_path e"] c by (auto simp: precedence_le)
  qed
  then show ?thesis
    unfolding new using access_of_greatest [of ?pol env r cwd r ?new] k cov candidate_of_normal [OF assms(3)]
    by (cases "\<lparr>re_path = r, re_access = DenyAccess\<rparr> \<in> set (resolved_entries_with_cwd env pol cwd)") auto
qed

text \<open>Additional roots only add access, and only below them: adding writable roots leaves the access of
  every path as it was or makes it writable below one of the roots; adding readable roots changes nothing but
  denied paths below one of them, which become readable. Every writable root that was added has write access
  afterwards unless the policy denies that very path.\<close>

theorem additional_roots_only_add_access:
  assumes "env_ok env" and "env_roundtrip env" and "\<forall>r\<in>set roots. normal_path r" and "resolve_candidate_path env p cwd = Some q"
  shows "(let access' = resolve_access_with_cwd env (with_additional_writable_roots env cwd roots pol) p cwd in
      access' = resolve_access_with_cwd env pol p cwd \<or> (\<exists>r\<in>set roots. path_starts_with q r \<and> access' = WriteAccess))
    \<and> (let access' = resolve_access_with_cwd env (with_additional_readable_roots env cwd roots pol) p cwd in
      access' = resolve_access_with_cwd env pol p cwd
      \<or> (\<exists>r\<in>set roots. path_starts_with q r \<and> resolve_access_with_cwd env pol p cwd = DenyAccess \<and> access' = ReadAccess))
    \<and> (\<forall>r\<in>set roots. resolve_access_with_cwd env (with_additional_writable_roots env cwd roots pol) r cwd = WriteAccess
        \<or> \<lparr>re_path = r, re_access = DenyAccess\<rparr> \<in> set (resolved_entries_with_cwd env pol cwd))"
proof (intro conjI ballI)
  fix r assume "r \<in> set roots"
  then obtain as bs where roots: "roots = as @ r # bs" by (meson split_list)
  let ?pol = "fold (add_writable env cwd) as pol"
  have n: "\<forall>r\<in>set as. normal_path r" "\<forall>r\<in>set bs. normal_path r" "normal_path r" using assms(3) roots by auto
  have "resolve_access_with_cwd env (add_writable env cwd r ?pol) r cwd = WriteAccess
      \<or> \<lparr>re_path = r, re_access = DenyAccess\<rparr> \<in> set (resolved_entries_with_cwd env pol cwd)"
    using added_root_writable [OF assms(1,2) n(3), of cwd ?pol]
      resolved_add_writable [OF assms(2) n(1), of "\<lparr>re_path = r, re_access = DenyAccess\<rparr>" cwd pol] by auto
  then show "resolve_access_with_cwd env (with_additional_writable_roots env cwd roots pol) r cwd = WriteAccess
      \<or> \<lparr>re_path = r, re_access = DenyAccess\<rparr> \<in> set (resolved_entries_with_cwd env pol cwd)"
    using add_writable_access [OF assms(1,2) n(2) candidate_of_normal [OF n(3)], of cwd "add_writable env cwd r ?pol"]
    by (auto simp: with_additional_writable_roots_fold roots)
qed (use add_writable_access [OF assms] add_readable_access [OF assms] in
    \<open>auto simp: with_additional_writable_roots_fold with_additional_readable_roots_fold Let_def\<close>)

theorem additional_roots_only_add_access_witness:
  "resolve_access_with_cwd plain_env (with_additional_writable_roots plain_env ''/w'' [''/data''] policy_read_only) ''/data'' ''/w''
     = WriteAccess
   \<and> resolve_access_with_cwd plain_env (with_additional_writable_roots plain_env ''/w'' [''/data''] policy_read_only) ''/etc'' ''/w''
     = ReadAccess"
proof -
  have n: "\<forall>r\<in>set [''/data'']. normal_path r" by code_simp
  have c: "resolve_candidate_path plain_env ''/etc'' ''/w'' = Some ''/etc''" by code_simp
  have "\<lparr>re_path = ''/data'', re_access = DenyAccess\<rparr> \<notin> set (resolved_entries_with_cwd plain_env policy_read_only ''/w'')"
    "\<not> path_starts_with ''/etc'' ''/data''"
    "resolve_access_with_cwd plain_env policy_read_only ''/etc'' ''/w'' = ReadAccess" by code_simp+
  with additional_roots_only_add_access [OF plain_env_ok plain_env_roundtrip n c, of policy_read_only]
  show ?thesis by (simp add: Let_def)
qed

lemma materialized_entries:
  assumes "env_ok env" and "env_roundtrip env" and "env_absolute env cwd = Some c" and "env_absolute env cwd' = Some c'"
  shows "resolved_entries_with_cwd env (materialize_project_roots_with_cwd env cwd pol) cwd'
    = resolved_entries_with_cwd env pol cwd"
proof -
  have "resolve_entry_path env (se_path (materialize_entry env (Some c) e)) (Some c')
      = resolve_entry_path env (se_path e) (Some c) \<and> se_access (materialize_entry env (Some c) e) = se_access e" for e
    using assms(2) env_join_normal env_absolute_normal [OF assms(1,3)]
    by (auto simp: materialize_entry_def resolve_entry_path_def resolve_file_system_path_def env_roundtrip_def
        resolve_file_system_special_path_def absolute_root_path_for_cwd_def
        split: file_system_path.splits special_path.splits option.splits)
  then show ?thesis
    by (simp add: resolved_entries_with_cwd_def materialize_project_roots_with_cwd_def assms(3,4) List.map_filter_def
        filter_map comp_def)
qed

text \<open>A materialized policy no longer depends on the working directory: its access and its protection of
  metadata, asked for an absolute path from any directory, are those of the policy in the directory it was
  materialized for.\<close>

theorem materialized_policy_is_fixed:
  assumes "env_ok env" and "env_roundtrip env" and "env_absolute env cwd \<noteq> None" and "env_absolute env cwd' \<noteq> None"
    and "is_absolute p"
  shows "resolve_access_with_cwd env (materialize_project_roots_with_cwd env cwd pol) p cwd'
      = resolve_access_with_cwd env pol p cwd
    \<and> is_metadata_write_denied env (materialize_project_roots_with_cwd env cwd pol) p cwd'
      = is_metadata_write_denied env pol p cwd"
proof -
  obtain c c' where c: "env_absolute env cwd = Some c" "env_absolute env cwd' = Some c'" using assms(3,4) by blast
  note e = materialized_entries [OF assms(1,2) c, of pol]
  have k: "pol_kind (materialize_project_roots_with_cwd env cwd pol) = pol_kind pol"
    by (simp add: materialize_project_roots_with_cwd_def)
  have "resolve_candidate_path env p cwd' = resolve_candidate_path env p cwd"
    using assms(5) by (simp add: resolve_candidate_path_def)
  then show ?thesis
    unfolding resolve_access_with_cwd_def is_metadata_write_denied_def metadata_child_of_writable_root_def
      has_explicit_write_entry_for_metadata_path_def e k by simp
qed

theorem materialized_policy_is_fixed_witness:
  "resolve_access_with_cwd plain_env (materialize_project_roots_with_cwd plain_env ''/w'' workspace_policy) ''/w/f'' ''/other''
   = WriteAccess"
proof -
  have "env_absolute plain_env ''/w'' \<noteq> None" "env_absolute plain_env ''/other'' \<noteq> None" "is_absolute ''/w/f''"
    by code_simp+
  moreover have "resolve_access_with_cwd plain_env workspace_policy ''/w/f'' ''/w'' = WriteAccess" by code_simp
  ultimately show ?thesis
    using materialized_policy_is_fixed [OF plain_env_ok plain_env_roundtrip] by simp
qed

end
