(* ===== verification/Fs_Roots.thy ===== *)
theory Fs_Roots
  imports Fs_Access Exec_Files
begin

text \<open>
  The roots that a platform sandbox is given for a file system policy, from \<open>protocol/src/permissions.rs\<close>:
  writable roots with their read-only subpaths and protected metadata names, readable and unreadable roots,
  and unreadable globs; with \<open>WritableRoot\<close> of \<open>protocol/src/protocol.rs\<close> and
  \<open>canonicalize_preserving_symlinks\<close> of \<open>utils/absolute-path/src/lib.rs\<close>. What the code asks of the disk is
  the record \<open>disk_view\<close>: \<open>symlink_metadata\<close> (\<open>None\<close> for an error, else whether it is a symbolic link),
  \<open>canonicalize\<close>, \<open>is_file\<close>, \<open>is_dir\<close>, \<open>exists\<close> and \<open>read_to_string\<close>.
\<close>

record disk_view =
  dv_symlink_metadata :: "path \<Rightarrow> bool option"
  dv_canonicalize :: "path \<Rightarrow> path option"
  dv_is_file :: "path \<Rightarrow> bool"
  dv_is_dir :: "path \<Rightarrow> bool"
  dv_exists :: "path \<Rightarrow> bool"
  dv_read_to_string :: "path \<Rightarrow> string option"

record writable_root =
  wr_root :: path
  wr_read_only_subpaths :: "path list"
  wr_protected_metadata_names :: "string list"

subsection \<open>Symbolic links\<close>

definition should_preserve_logical_path :: "disk_view \<Rightarrow> path \<Rightarrow> bool" where
  "should_preserve_logical_path dv logical =
     list_ex (\<lambda>a. dv_symlink_metadata dv a = Some True
       \<and> (case parent_path a of None \<Rightarrow> False | Some b \<Rightarrow> parent_path b \<noteq> None)) (ancestors logical)"

definition canonicalize_preserving_symlinks :: "fs_env \<Rightarrow> disk_view \<Rightarrow> path \<Rightarrow> path option" where
  "canonicalize_preserving_symlinks env dv p =
     map_option (\<lambda>logical.
       case dv_canonicalize dv p of
         Some canonical \<Rightarrow>
           if should_preserve_logical_path dv logical \<and> canonical \<noteq> logical then logical else canonical
       | None \<Rightarrow> logical) (env_absolute env p)"

text \<open>A relative path of components, and a path with one appended.\<close>

fun relative_str :: "component list \<Rightarrow> string" where
  "relative_str [] = []"
| "relative_str [c] = component_str c"
| "relative_str (c # cs) = component_str c @ ''/'' @ relative_str cs"

definition normalize_at_ancestor :: "fs_env \<Rightarrow> disk_view \<Rightarrow> path \<Rightarrow> path \<Rightarrow> path option" where
  "normalize_at_ancestor env dv raw_path ancestor =
     (if dv_symlink_metadata dv ancestor = None then None
      else Option.bind (canonicalize_preserving_symlinks env dv ancestor) (\<lambda>normalized_ancestor.
        Option.bind (path_strip_prefix raw_path ancestor) (\<lambda>rest.
          env_absolute env (path_join normalized_ancestor (relative_str rest)))))"

definition normalize_effective_absolute_path :: "fs_env \<Rightarrow> disk_view \<Rightarrow> path \<Rightarrow> path" where
  "normalize_effective_absolute_path env dv p =
     (case List.map_filter (normalize_at_ancestor env dv p) (ancestors p) of
        normalized # _ \<Rightarrow> normalized
      | [] \<Rightarrow> p)"

definition normalize_trusted_top_level_alias :: "fs_env \<Rightarrow> disk_view \<Rightarrow> path \<Rightarrow> path" where
  "normalize_trusted_top_level_alias env dv p =
     (case find (\<lambda>a. case parent_path a of None \<Rightarrow> False | Some b \<Rightarrow> parent_path b = None) (ancestors p) of
        None \<Rightarrow> p
      | Some top_level \<Rightarrow>
          if dv_symlink_metadata dv top_level \<noteq> Some True then p
          else (case dv_canonicalize dv top_level of
                  None \<Rightarrow> p
                | Some canonical_top_level \<Rightarrow>
                    (case path_strip_prefix p top_level of
                       None \<Rightarrow> p
                     | Some rest \<Rightarrow>
                         (case env_absolute env (path_join canonical_top_level (relative_str rest)) of
                            Some q \<Rightarrow> q
                          | None \<Rightarrow> p))))"

datatype path_resolution = EffectivePaths | PreserveMutableComponents

fun resolve_root :: "path_resolution \<Rightarrow> fs_env \<Rightarrow> disk_view \<Rightarrow> path \<Rightarrow> path" where
  "resolve_root EffectivePaths env dv p = normalize_effective_absolute_path env dv p"
| "resolve_root PreserveMutableComponents env dv p = normalize_trusted_top_level_alias env dv p"

definition dedup_absolute_paths :: "fs_env \<Rightarrow> disk_view \<Rightarrow> path list \<Rightarrow> bool \<Rightarrow> path list" where
  "dedup_absolute_paths env dv paths normalize_effective_paths =
     fold (\<lambda>p deduped.
       let dedup_path = (if normalize_effective_paths then normalize_effective_absolute_path env dv p else p)
       in if dedup_path \<in> set deduped then deduped else deduped @ [dedup_path]) paths []"

subsection \<open>Read-only subpaths\<close>

definition is_git_pointer_file :: "disk_view \<Rightarrow> path \<Rightarrow> bool" where
  "is_git_pointer_file dv p \<longleftrightarrow> dv_is_file dv p \<and> last_normal p = Some ''.git''"

definition resolve_gitdir_from_file :: "fs_env \<Rightarrow> disk_view \<Rightarrow> path \<Rightarrow> path option" where
  "resolve_gitdir_from_file env dv dot_git =
     Option.bind (dv_read_to_string dv dot_git) (\<lambda>contents'.
       case split_once (CHR '':'') (trim contents') of
         Some (prefix', gitdir_raw) \<Rightarrow>
           if trim prefix' \<noteq> ''gitdir'' then None
           else if trim gitdir_raw = [] then None
           else Option.bind (parent_path dot_git) (\<lambda>base.
             let gitdir_path = env_join env base (trim gitdir_raw)
             in if dv_exists dv gitdir_path then Some gitdir_path else None)
       | None \<Rightarrow> None)"

definition default_read_only_subpaths_for_writable_root :: "fs_env \<Rightarrow> disk_view \<Rightarrow> path \<Rightarrow> bool \<Rightarrow> path list" where
  "default_read_only_subpaths_for_writable_root env dv root protect_missing_dot_codex =
     (let top_level_git = env_join env root ''.git'';
          top_level_agents = env_join env root ''.agents'';
          top_level_codex = env_join env root ''.codex'';
          gits = (if dv_is_dir dv top_level_git \<or> dv_is_file dv top_level_git
                  then (if dv_is_file dv top_level_git \<and> is_git_pointer_file dv top_level_git
                        then (case resolve_gitdir_from_file env dv top_level_git of Some g \<Rightarrow> [g] | None \<Rightarrow> [])
                        else []) @ [top_level_git]
                  else []);
          agents = (if dv_is_dir dv top_level_agents then [top_level_agents] else []);
          codex = (if protect_missing_dot_codex \<or> dv_is_dir dv top_level_codex then [top_level_codex] else [])
      in dedup_absolute_paths env dv (gits @ agents @ codex) False)"

definition has_explicit_resolved_path_entry :: "resolved_entry list \<Rightarrow> path \<Rightarrow> bool" where
  "has_explicit_resolved_path_entry entries p = list_ex (\<lambda>e. re_path e = p) entries"

definition protected_metadata_names_for_writable_root ::
  "fs_env \<Rightarrow> sandbox_policy \<Rightarrow> path \<Rightarrow> path list \<Rightarrow> path \<Rightarrow> string list" where
  "protected_metadata_names_for_writable_root env pol root raw_writable_roots cwd =
     filter (\<lambda>m. list_all (\<lambda>r. \<not> can_write_path_with_cwd env pol (env_join env r m) cwd) (root # raw_writable_roots))
       PROTECTED_METADATA_PATH_NAMES"

subsection \<open>Roots\<close>

definition writable_entries :: "fs_env \<Rightarrow> sandbox_policy \<Rightarrow> path \<Rightarrow> path list" where
  "writable_entries env pol cwd =
     map re_path (filter (\<lambda>e. can_write (re_access e) \<and> can_write_path_with_cwd env pol (re_path e) cwd)
       (resolved_entries_with_cwd env pol cwd))"

definition carveout ::
  "path_resolution \<Rightarrow> fs_env \<Rightarrow> disk_view \<Rightarrow> path \<Rightarrow> path list \<Rightarrow> resolved_entry \<Rightarrow> path option" where
  "carveout res env dv root raw_writable_roots e =
     (let effective_path = resolve_root res env dv (re_path e);
          raw_carveout_path =
            (if parent_path root \<noteq> None
             then (if re_path e = root then None
                   else if path_starts_with (re_path e) root then Some (re_path e)
                   else (case List.map_filter (\<lambda>raw_root.
                           case path_strip_prefix (re_path e) raw_root of
                             None \<Rightarrow> None
                           | Some rest \<Rightarrow>
                               if rest = [] then None else Some (env_join env root (relative_str rest)))
                           raw_writable_roots of
                         p # _ \<Rightarrow> Some p
                       | [] \<Rightarrow> None))
             else None)
      in case raw_carveout_path of
           Some p \<Rightarrow> Some p
         | None \<Rightarrow>
             if effective_path = root \<or> \<not> path_starts_with effective_path root then None
             else Some effective_path)"

definition writable_root_for ::
  "path_resolution \<Rightarrow> fs_env \<Rightarrow> disk_view \<Rightarrow> sandbox_policy \<Rightarrow> path \<Rightarrow> path \<Rightarrow> writable_root" where
  "writable_root_for res env dv pol cwd root =
     (let resolved_entries = resolved_entries_with_cwd env pol cwd;
          raw_writable_roots = filter (\<lambda>p. resolve_root res env dv p = root) (writable_entries env pol cwd);
          protect_missing_dot_codex =
            (case env_absolute env cwd of None \<Rightarrow> False | Some c \<Rightarrow> resolve_root res env dv c = root);
          defaults = filter (\<lambda>p. \<not> has_explicit_resolved_path_entry resolved_entries p)
            (default_read_only_subpaths_for_writable_root env dv root protect_missing_dot_codex);
          carveouts = List.map_filter (carveout res env dv root raw_writable_roots)
            (filter (\<lambda>e. \<not> can_write (re_access e) \<and> \<not> can_write_path_with_cwd env pol (re_path e) cwd) resolved_entries)
      in \<lparr>wr_root = root,
          wr_read_only_subpaths = dedup_absolute_paths env dv (defaults @ carveouts) False,
          wr_protected_metadata_names = protected_metadata_names_for_writable_root env pol root raw_writable_roots cwd\<rparr>)"

definition get_writable_roots_with_cwd_impl ::
  "path_resolution \<Rightarrow> fs_env \<Rightarrow> disk_view \<Rightarrow> sandbox_policy \<Rightarrow> path \<Rightarrow> writable_root list" where
  "get_writable_roots_with_cwd_impl res env dv pol cwd =
     (if has_full_disk_write_access env pol then []
      else map (writable_root_for res env dv pol cwd)
        (dedup_absolute_paths env dv (map (resolve_root res env dv) (writable_entries env pol cwd)) False))"

definition get_writable_roots_with_cwd :: "fs_env \<Rightarrow> disk_view \<Rightarrow> sandbox_policy \<Rightarrow> path \<Rightarrow> writable_root list" where
  "get_writable_roots_with_cwd = get_writable_roots_with_cwd_impl EffectivePaths"

definition get_writable_roots_with_cwd_preserving_mutable_paths ::
  "fs_env \<Rightarrow> disk_view \<Rightarrow> sandbox_policy \<Rightarrow> path \<Rightarrow> writable_root list" where
  "get_writable_roots_with_cwd_preserving_mutable_paths = get_writable_roots_with_cwd_impl PreserveMutableComponents"

definition get_readable_roots_with_cwd :: "fs_env \<Rightarrow> disk_view \<Rightarrow> sandbox_policy \<Rightarrow> path \<Rightarrow> path list" where
  "get_readable_roots_with_cwd env dv pol cwd =
     (if has_full_disk_read_access pol then []
      else dedup_absolute_paths env dv
        (map re_path (filter (\<lambda>e. can_read (re_access e) \<and> can_read_path_with_cwd env pol (re_path e) cwd)
          (resolved_entries_with_cwd env pol cwd))) True)"

definition get_unreadable_roots_with_cwd :: "fs_env \<Rightarrow> disk_view \<Rightarrow> sandbox_policy \<Rightarrow> path \<Rightarrow> path list" where
  "get_unreadable_roots_with_cwd env dv pol cwd =
     (if pol_kind pol \<noteq> Restricted then []
      else dedup_absolute_paths env dv
        (map re_path (filter (\<lambda>e. re_access e = DenyAccess \<and> \<not> can_read_path_with_cwd env pol (re_path e) cwd
            \<and> map_option absolute_root_path_for_cwd (env_absolute env cwd) \<noteq> Some (re_path e))
          (resolved_entries_with_cwd env pol cwd))) True)"

definition path_contains_protected_metadata_name :: "writable_root \<Rightarrow> path \<Rightarrow> bool" where
  "path_contains_protected_metadata_name wr p =
     (case path_strip_prefix p (wr_root wr) of
        Some (c # _) \<Rightarrow> list_ex (\<lambda>name. component_str c = name) (wr_protected_metadata_names wr)
      | _ \<Rightarrow> False)"

definition root_is_path_writable :: "writable_root \<Rightarrow> path \<Rightarrow> bool" where
  "root_is_path_writable wr p =
     (if \<not> path_starts_with p (wr_root wr) then False
      else if list_ex (path_starts_with p) (wr_read_only_subpaths wr) then False
      else \<not> path_contains_protected_metadata_name wr p)"

end
