(* ===== verification/Fs_Roots_Properties.thy ===== *)
theory Fs_Roots_Properties
  imports Fs_Roots Fs_Policy_Properties
begin

text \<open>
  The roots that the platform sandbox is given against the policy they come from.
\<close>

definition unlinked :: "path_resolution \<Rightarrow> fs_env \<Rightarrow> disk_view \<Rightarrow> sandbox_policy \<Rightarrow> path \<Rightarrow> bool" where
  "unlinked res env dv pol cwd \<longleftrightarrow>
     list_all (\<lambda>e. resolve_root res env dv (re_path e) = re_path e) (resolved_entries_with_cwd env pol cwd)"

lemma dedup_fold:
  "set (fold (\<lambda>p deduped. if f p \<in> set deduped then deduped else deduped @ [f p]) ps acc) = set acc \<union> f ` set ps"
  by (induction ps arbitrary: acc) auto

lemma set_dedup [simp]: "set (dedup_absolute_paths env dv ps False) = set ps"
  by (simp add: dedup_absolute_paths_def dedup_fold [of "\<lambda>p. p"])

lemma map_filter_set: "y \<in> set (List.map_filter f xs) \<longleftrightarrow> (\<exists>x\<in>set xs. f x = Some y)"
  by (force simp: List.map_filter_def)

lemma writable_entryE:
  assumes "env_ok env" and "root \<in> set (writable_entries env pol cwd)"
  shows "normal_path root \<and> root \<in> write_paths env pol cwd \<and> can_write_path_with_cwd env pol root cwd"
  using assms resolved_entry_normal by (force simp: writable_entries_def write_paths_def)

lemma writable_root_for_root [simp]: "wr_root (writable_root_for res env dv pol cwd root) = root"
  by (simp add: writable_root_for_def Let_def)

lemma writable_rootE:
  assumes "wr \<in> set (get_writable_roots_with_cwd_impl res env dv pol cwd)" and "unlinked res env dv pol cwd"
  shows "\<not> has_full_disk_write_access env pol \<and> wr_root wr \<in> set (writable_entries env pol cwd)
    \<and> wr = writable_root_for res env dv pol cwd (wr_root wr)"
proof -
  have "resolve_root res env dv p = p" if "p \<in> set (writable_entries env pol cwd)" for p
    using that assms(2) by (auto simp: writable_entries_def unlinked_def list_all_iff)
  then show ?thesis
    using assms(1) by (auto simp: get_writable_roots_with_cwd_impl_def split: if_splits)
qed

abbreviation raw_roots :: "path_resolution \<Rightarrow> fs_env \<Rightarrow> disk_view \<Rightarrow> sandbox_policy \<Rightarrow> path \<Rightarrow> path \<Rightarrow> path list" where
  "raw_roots res env dv pol cwd root \<equiv> filter (\<lambda>p. resolve_root res env dv p = root) (writable_entries env pol cwd)"

lemma raw_roots_unlinked: "unlinked res env dv pol cwd \<Longrightarrow> set (raw_roots res env dv pol cwd root) \<subseteq> {root}"
  by (auto simp: writable_entries_def unlinked_def list_all_iff)

text \<open>An entry below a root that does not allow writing is one of its read-only subpaths.\<close>

lemma carveout_below:
  assumes "resolve_root res env dv (re_path e) = re_path e" and "path_starts_with (re_path e) root" and "re_path e \<noteq> root"
  shows "carveout res env dv root raws e = Some (re_path e)"
  using assms by (simp add: carveout_def Let_def)

lemma carveout_Some:
  assumes "resolve_root res env dv (re_path e) = re_path e" and "set raws \<subseteq> {root}"
    and "carveout res env dv root raws e = Some s"
  shows "s = re_path e \<and> path_starts_with (re_path e) root \<and> re_path e \<noteq> root"
proof (cases "path_starts_with (re_path e) root")
  case True
  then show ?thesis using assms(1,3) by (auto simp: carveout_def Let_def split: if_splits)
next
  case False
  have "List.map_filter (\<lambda>raw_root. case path_strip_prefix (re_path e) raw_root of
      None \<Rightarrow> None | Some rest \<Rightarrow> if rest = [] then None else Some (env_join env root (relative_str rest))) raws = []"
    using assms(2) False by (induction raws) (auto simp: List.map_filter_simps path_strip_prefix_def)
  then show ?thesis using False assms(1,3) by (auto simp: carveout_def Let_def split: if_splits)
qed

lemma carved_out:
  assumes "unlinked res env dv pol cwd" and "e \<in> set (resolved_entries_with_cwd env pol cwd)"
    and "re_access e \<noteq> WriteAccess" and "\<not> can_write_path_with_cwd env pol (re_path e) cwd"
    and "path_starts_with (re_path e) root" and "re_path e \<noteq> root"
  shows "re_path e \<in> set (wr_read_only_subpaths (writable_root_for res env dv pol cwd root))"
proof -
  have "resolve_root res env dv (re_path e) = re_path e" using assms(1,2) by (auto simp: unlinked_def list_all_iff)
  note c = carveout_below [OF this assms(5,6)]
  show ?thesis
    using assms(2-4) c by (auto simp: writable_root_for_def Let_def map_filter_set intro!: bexI [of _ e])
qed

lemma not_protected_name:
  assumes "unlinked res env dv pol cwd" and "root \<in> set (writable_entries env pol cwd)"
    and "m \<in> set PROTECTED_METADATA_PATH_NAMES"
    and "m \<notin> set (wr_protected_metadata_names (writable_root_for res env dv pol cwd root))"
  shows "can_write_path_with_cwd env pol (env_join env root m) cwd"
proof -
  have "\<exists>r\<in>insert root (set (raw_roots res env dv pol cwd root)). can_write_path_with_cwd env pol (env_join env r m) cwd"
    using assms(3,4)
    by (auto simp: writable_root_for_def Let_def protected_metadata_names_for_writable_root_def list_all_iff)
  then show ?thesis using raw_roots_unlinked [OF assms(1)] by blast
qed

subsection \<open>A sample disk\<close>

definition plain_disk :: "path list \<Rightarrow> (path \<times> string) list \<Rightarrow> disk_view" where
  "plain_disk dirs fs = \<lparr>dv_symlink_metadata = (\<lambda>p. if p \<in> set dirs \<union> fst ` set fs then Some False else None),
     dv_canonicalize = (\<lambda>p. if p \<in> set dirs \<union> fst ` set fs then Some p else None),
     dv_is_file = (\<lambda>p. p \<in> fst ` set fs), dv_is_dir = (\<lambda>p. p \<in> set dirs),
     dv_exists = (\<lambda>p. p \<in> set dirs \<union> fst ` set fs), dv_read_to_string = map_of fs\<rparr>"

definition repo_disk :: disk_view where
  "repo_disk = plain_disk [''/'', ''/w'', ''/w/.git'', ''/w/src'', ''/tmp''] []"

definition sandbox_policy_example :: sandbox_policy where
  "sandbox_policy_example = policy_restricted (pol_entries workspace_policy @ [entry_new (PathEntry ''/w/src/gen'') ReadAccess])"

definition workspace_root :: writable_root where
  "workspace_root = \<lparr>wr_root = ''/w'', wr_read_only_subpaths = [''/w/.git'', ''/w/.codex'', ''/w/src/gen''],
     wr_protected_metadata_names = [''.git'', ''.agents'', ''.codex'']\<rparr>"

lemma sample_roots:
  "get_writable_roots_with_cwd_impl EffectivePaths plain_env repo_disk sandbox_policy_example ''/w'' =
     [workspace_root, \<lparr>wr_root = ''/tmp'', wr_read_only_subpaths = [], wr_protected_metadata_names = [''.git'', ''.agents'', ''.codex'']\<rparr>]"
  by code_simp

lemma sample_unlinked: "unlinked EffectivePaths plain_env repo_disk sandbox_policy_example ''/w''"
  by code_simp

subsection \<open>The roots and the policy\<close>

text \<open>C27. The sandbox gives no more than the policy: on a disk where no path of the policy leads through a
  symbolic link, a path that some writable root lets through has write access by the policy itself, and when it
  lies in a metadata directory of that root, the policy allows to write that directory.\<close>

theorem sandbox_roots_stay_within_policy:
  assumes "env_ok env" and "unlinked res env dv pol cwd" and "wr \<in> set (get_writable_roots_with_cwd_impl res env dv pol cwd)"
    and "normal_path q" and "root_is_path_writable wr q"
  shows "resolve_access_with_cwd env pol q cwd = WriteAccess
    \<and> (\<forall>m\<in>set PROTECTED_METADATA_PATH_NAMES. path_starts_with q (env_join env (wr_root wr) m)
        \<longrightarrow> can_write_path_with_cwd env pol (env_join env (wr_root wr) m) cwd)"
proof (intro conjI ballI impI)
  let ?root = "wr_root wr"
  note w = writable_rootE [OF assms(3,2)]
  then have root: "normal_path ?root" "?root \<in> write_paths env pol cwd" "can_write_path_with_cwd env pol ?root cwd"
    using writable_entryE [OF assms(1)] by blast+
  have q: "path_starts_with q ?root" "\<not> list_ex (path_starts_with q) (wr_read_only_subpaths wr)"
    "\<not> path_contains_protected_metadata_name wr q"
    using assms(5) by (simp_all add: root_is_path_writable_def split: if_splits)
  show "resolve_access_with_cwd env pol q cwd = WriteAccess"
  proof (cases "pol_kind pol = Restricted")
    case k: True
    obtain e where e: "e \<in> covering env pol cwd q" "re_path e = ?root" "re_access e = WriteAccess"
      using root(2) q(1) by (auto simp: write_paths_def covering_def)
    obtain m where m: "m \<in> covering env pol cwd q" "resolve_access_with_cwd env pol q cwd = re_access m"
      "\<And>r. r \<in> covering env pol cwd q \<Longrightarrow> resolved_entry_precedence r \<le> resolved_entry_precedence m"
      using access_obtains [OF k candidate_of_normal [OF assms(4)]] e(1) by blast
    have below: "path_starts_with (re_path m) ?root"
      using path_starts_with_chain [of q ?root "re_path m"] q(1) m(1) m(3) [OF e(1)] e(2)
      by (auto simp: precedence_le covering_def)
    have access_m: "resolve_access_with_cwd env pol (re_path m) cwd = re_access m"
      using access_of_decider [OF assms(1) k m(1) m(3)] .
    show ?thesis
    proof (rule ccontr)
      assume "resolve_access_with_cwd env pol q cwd \<noteq> WriteAccess"
      then have d: "\<not> can_write_path_with_cwd env pol (re_path m) cwd" "re_access m \<noteq> WriteAccess"
        using m(2) access_m by (simp_all add: can_write_path_with_cwd_def)
      then have "re_path m \<noteq> ?root" using root(3) by auto
      then have "re_path m \<in> set (wr_read_only_subpaths wr)"
        using carved_out [OF assms(2) _ d(2,1) below] m(1) w by (auto dest: coveringD)
      then show False using q(2) m(1) by (auto simp: list_ex_iff covering_def)
    qed
  qed (rule access_unmanaged)
  fix m
  assume m: "m \<in> set PROTECTED_METADATA_PATH_NAMES" "path_starts_with q (env_join env ?root m)"
  have "components (env_join env ?root m) = components ?root @ [Normal m]"
    using env_join_plain [OF root(1), of m env] metadata_name_plain [OF m(1)] by simp
  then obtain cs where "components q = components ?root @ Normal m # cs"
    using m(2) by (auto simp: path_starts_with_prefix prefix_def)
  then have "m \<notin> set (wr_protected_metadata_names wr)"
    using q(1,3) by (auto simp: path_contains_protected_metadata_name_def path_strip_prefix_def list_ex_iff)
  then show "can_write_path_with_cwd env pol (env_join env ?root m) cwd"
    using not_protected_name [OF assms(2) _ m(1)] w by metis
qed

theorem sandbox_roots_stay_within_policy_witness:
  "resolve_access_with_cwd plain_env sandbox_policy_example ''/w/src/f'' ''/w'' = WriteAccess"
proof -
  have "workspace_root \<in> set (get_writable_roots_with_cwd_impl EffectivePaths plain_env repo_disk sandbox_policy_example ''/w'')"
    by (simp add: sample_roots)
  moreover have "normal_path ''/w/src/f''" "root_is_path_writable workspace_root ''/w/src/f''" by code_simp+
  ultimately show ?thesis using sandbox_roots_stay_within_policy [OF plain_env_ok sample_unlinked] by blast
qed

text \<open>The sandbox takes nothing away but metadata: a path the policy gives write access to, under a policy
  that does not allow the whole disk, lies below some writable root, and the only read-only subpaths of that root
  that cover it are the default ones (the metadata directories of the root and the directory a \<open>.git\<close> file points to).\<close>

theorem policy_access_reaches_sandbox:
  assumes "env_ok env" and "unlinked res env dv pol cwd" and "\<not> has_full_disk_write_access env pol"
    and "normal_path q" and "resolve_access_with_cwd env pol q cwd = WriteAccess"
  shows "\<exists>wr\<in>set (get_writable_roots_with_cwd_impl res env dv pol cwd). path_starts_with q (wr_root wr)
    \<and> (\<forall>s\<in>set (wr_read_only_subpaths wr). path_starts_with q s
        \<longrightarrow> (\<exists>b. s \<in> set (default_read_only_subpaths_for_writable_root env dv (wr_root wr) b)))"
proof -
  have k: "pol_kind pol = Restricted" using assms(3) by (auto simp: has_full_disk_write_access_def split: sandbox_kind.splits)
  have "covering env pol cwd q \<noteq> {}" using access_no_entry [OF k candidate_of_normal [OF assms(4)]] assms(5) by force
  then obtain m where m: "m \<in> covering env pol cwd q" "re_access m = WriteAccess"
    "\<And>r. r \<in> covering env pol cwd q \<Longrightarrow> resolved_entry_precedence r \<le> resolved_entry_precedence m"
    using access_obtains [OF k candidate_of_normal [OF assms(4)]] assms(5) by metis
  let ?root = "re_path m"
  have n: "normal_path ?root" using resolved_entry_normal [OF assms(1)] m(1) by (auto dest: coveringD)
  have wp: "?root \<in> write_paths env pol cwd" using m(1,2) by (auto simp: write_paths_def covering_def)
  have "\<not> is_metadata_write_denied env pol ?root cwd"
  proof (cases "metadata_child_of_writable_root env pol ?root cwd")
    case (Some pn)
    then obtain p where "pn = (p, snd pn)" "path_starts_with ?root p"
      using metadata_child_of_writable_root_Some [OF assms(1) n, of pol cwd "fst pn" "snd pn"] by (cases pn) auto
    then have "has_explicit_write_entry_for_metadata_path env pol (fst pn) ?root cwd"
      using wp has_explicit_write_entry_iff by (metis fst_conv path_starts_with_refl)
    then show ?thesis using Some k n by (cases pn) (simp add: is_metadata_write_denied_def)
  qed (simp add: is_metadata_write_denied_def n)
  then have "can_write_path_with_cwd env pol ?root cwd"
    using access_of_decider [OF assms(1) k m(1) m(3)] m(2) by (simp add: can_write_path_with_cwd_def)
  then have we: "?root \<in> set (writable_entries env pol cwd)"
    using m(1,2) by (auto simp: writable_entries_def covering_def intro!: image_eqI [of _ _ m])
  moreover have "resolve_root res env dv ?root = ?root"
    using assms(2) m(1) by (auto simp: unlinked_def list_all_iff dest: coveringD)
  ultimately have "writable_root_for res env dv pol cwd ?root \<in> set (get_writable_roots_with_cwd_impl res env dv pol cwd)"
    using assms(3) by (force simp: get_writable_roots_with_cwd_impl_def)
  moreover have "\<exists>b. s \<in> set (default_read_only_subpaths_for_writable_root env dv ?root b)"
    if s: "s \<in> set (wr_read_only_subpaths (writable_root_for res env dv pol cwd ?root))" "path_starts_with q s" for s
  proof (rule ccontr)
    assume nd: "\<not> ?thesis"
    then obtain e where e: "e \<in> set (resolved_entries_with_cwd env pol cwd)"
      "carveout res env dv ?root (raw_roots res env dv pol cwd ?root) e = Some s"
      using s(1) by (auto simp: writable_root_for_def Let_def map_filter_set)
    then have c: "s = re_path e" "path_starts_with (re_path e) ?root" "re_path e \<noteq> ?root"
      using carveout_Some [OF _ raw_roots_unlinked [OF assms(2)] e(2)] assms(2) by (auto simp: unlinked_def list_all_iff)
    then have "resolved_entry_precedence e \<le> resolved_entry_precedence m" using m(3) e(1) s(2) by (simp add: covering_def)
    then show False
      using c path_starts_with_antisym [OF resolved_entry_normal [OF assms(1) e(1)] n] by (auto simp: precedence_le)
  qed
  ultimately show ?thesis
    using coveringD [OF m(1)] by (intro bexI [of _ "writable_root_for res env dv pol cwd ?root"]) auto
qed

theorem policy_access_reaches_sandbox_witness:
  "\<exists>wr\<in>set (get_writable_roots_with_cwd_impl EffectivePaths plain_env repo_disk sandbox_policy_example ''/w'').
     path_starts_with ''/w/src/f'' (wr_root wr)"
proof -
  have "\<not> has_full_disk_write_access plain_env sandbox_policy_example" "normal_path ''/w/src/f''"
    "resolve_access_with_cwd plain_env sandbox_policy_example ''/w/src/f'' ''/w'' = WriteAccess" by code_simp+
  from policy_access_reaches_sandbox [OF plain_env_ok sample_unlinked this] show ?thesis by blast
qed

subsection \<open>Where the roots differ from what is said of them\<close>

text \<open>A read-only subpath need not lie under its root: the directory that a \<open>.git\<close> file points to is one.\<close>

theorem read_only_subpath_outside_root:
  "map wr_read_only_subpaths (get_writable_roots_with_cwd plain_env
     (plain_disk [''/'', ''/w'', ''/main'', ''/main/.git'', ''/main/.git/worktrees'', ''/main/.git/worktrees/w'']
        [(''/w/.git'', ''gitdir: /main/.git/worktrees/w'')])
     (policy_restricted [entry_new (PathEntry ''/w'') WriteAccess]) ''/w'')
   = [[''/main/.git/worktrees/w'', ''/w/.git'', ''/w/.codex'']]"
  by code_simp

text \<open>A root inside another one: the outer root does not know the metadata names of the inner one, so a missing
  metadata directory of the inner root passes the check of the outer root, although the policy denies it.\<close>

theorem nested_root_metadata_passes_outer_root:
  "let pol = policy_restricted [entry_new (PathEntry ''/w'') WriteAccess, entry_new (PathEntry ''/w/sub'') WriteAccess];
       roots = get_writable_roots_with_cwd plain_env (plain_disk [''/'', ''/w'', ''/w/sub''] []) pol ''/w''
   in \<not> can_write_path_with_cwd plain_env pol ''/w/sub/.git/hooks'' ''/w''
      \<and> map wr_root roots = [''/w'', ''/w/sub'']
      \<and> map (\<lambda>wr. root_is_path_writable wr ''/w/sub/.git/hooks'') roots = [True, False]"
  by code_simp

end
