(* ===== verification/Fs_Legacy.thy ===== *)
theory Fs_Legacy
  imports Fs_Roots
begin

text \<open>
  The older sandbox policies and the bridge between them and file system policies, from
  \<open>protocol/src/protocol.rs\<close> (\<open>SandboxPolicy\<close>) and \<open>protocol/src/permissions.rs\<close>: building a policy for a
  workspace, converting in both directions, keeping deny entries, and replacing symbolic workspace roots.
\<close>

datatype network_access = NetRestricted | NetEnabled

fun net_is_enabled :: "network_access \<Rightarrow> bool" where
  "net_is_enabled NetEnabled = True"
| "net_is_enabled NetRestricted = False"

record workspace_settings =
  ww_writable_roots :: "path list"
  ww_network_access :: bool
  ww_exclude_tmpdir_env_var :: bool
  ww_exclude_slash_tmp :: bool

datatype legacy_policy =
    DangerFullAccess
  | LegacyReadOnly bool
  | LegacyExternalSandbox network_access
  | WorkspaceWrite workspace_settings

fun has_full_network_access :: "legacy_policy \<Rightarrow> bool" where
  "has_full_network_access DangerFullAccess = True"
| "has_full_network_access (LegacyExternalSandbox n) = net_is_enabled n"
| "has_full_network_access (LegacyReadOnly n) = n"
| "has_full_network_access (WorkspaceWrite s) = ww_network_access s"

fun legacy_full_disk_write_access :: "legacy_policy \<Rightarrow> bool" where
  "legacy_full_disk_write_access DangerFullAccess = True"
| "legacy_full_disk_write_access (LegacyExternalSandbox _) = True"
| "legacy_full_disk_write_access _ = False"

definition new_read_only_policy :: legacy_policy where
  "new_read_only_policy = LegacyReadOnly False"

definition new_workspace_write_policy :: legacy_policy where
  "new_workspace_write_policy = WorkspaceWrite \<lparr>ww_writable_roots = [], ww_network_access = False,
     ww_exclude_tmpdir_env_var = False, ww_exclude_slash_tmp = False\<rparr>"

text \<open>The network side of a policy.\<close>

datatype network_policy = NetworkRestricted | NetworkEnabled

fun network_is_enabled :: "network_policy \<Rightarrow> bool" where
  "network_is_enabled NetworkEnabled = True"
| "network_is_enabled NetworkRestricted = False"

definition network_policy_from :: "legacy_policy \<Rightarrow> network_policy" where
  "network_policy_from value = (if has_full_network_access value then NetworkEnabled else NetworkRestricted)"

subsection \<open>The roots of an older policy\<close>

definition legacy_root_paths :: "fs_env \<Rightarrow> workspace_settings \<Rightarrow> path \<Rightarrow> path list" where
  "legacy_root_paths env s cwd =
     ww_writable_roots s
     @ (case env_absolute env cwd of Some c \<Rightarrow> [c] | None \<Rightarrow> [])
     @ (if \<not> ww_exclude_slash_tmp s
        then (case env_absolute env ''/tmp'' of
                Some t \<Rightarrow> if fe_slash_tmp_is_dir env then [t] else []
              | None \<Rightarrow> [])
        else [])
     @ (if \<not> ww_exclude_tmpdir_env_var s
        then (case fe_tmpdir env of
                Some t \<Rightarrow> if t = [] then [] else (case env_absolute env t of Some p \<Rightarrow> [p] | None \<Rightarrow> [])
              | None \<Rightarrow> [])
        else [])"

definition legacy_writable_roots_with_cwd :: "fs_env \<Rightarrow> disk_view \<Rightarrow> legacy_policy \<Rightarrow> path \<Rightarrow> writable_root list" where
  "legacy_writable_roots_with_cwd env dv pol cwd =
     (case pol of
        WorkspaceWrite s \<Rightarrow>
          map (\<lambda>root. \<lparr>wr_root = root,
              wr_read_only_subpaths =
                default_read_only_subpaths_for_writable_root env dv root (env_absolute env cwd = Some root),
              wr_protected_metadata_names = []\<rparr>) (legacy_root_paths env s cwd)
      | _ \<Rightarrow> [])"

subsection \<open>From an older policy\<close>

definition append_default_read_only_entry_if_no_explicit_rule ::
  "fs_env \<Rightarrow> file_system_path \<Rightarrow> sandbox_entry list \<Rightarrow> sandbox_entry list" where
  "append_default_read_only_entry_if_no_explicit_rule env p entries =
     (if list_ex (\<lambda>e. file_system_paths_share_target env (se_path e) p) entries then entries
      else entries @ [entry_skip_missing_path p ReadAccess])"

definition append_default_read_only_path_if_no_explicit_rule ::
  "fs_env \<Rightarrow> path \<Rightarrow> sandbox_entry list \<Rightarrow> sandbox_entry list" where
  "append_default_read_only_path_if_no_explicit_rule env p =
     append_default_read_only_entry_if_no_explicit_rule env (PathEntry (fe_to_uri env p))"

definition append_default_read_only_project_root_subpath_if_no_explicit_rule ::
  "fs_env \<Rightarrow> string \<Rightarrow> sandbox_entry list \<Rightarrow> sandbox_entry list" where
  "append_default_read_only_project_root_subpath_if_no_explicit_rule env subpath =
     append_default_read_only_entry_if_no_explicit_rule env (SpecialEntry (ProjectRoots (Some subpath)))"

definition append_default_read_only_subpaths :: "fs_env \<Rightarrow> disk_view \<Rightarrow> bool \<Rightarrow> path \<Rightarrow> sandbox_entry list \<Rightarrow> sandbox_entry list" where
  "append_default_read_only_subpaths env dv protect_missing_dot_codex root =
     fold (append_default_read_only_path_if_no_explicit_rule env)
       (default_read_only_subpaths_for_writable_root env dv root protect_missing_dot_codex)"

definition workspace_allow_entries :: "fs_env \<Rightarrow> path list \<Rightarrow> bool \<Rightarrow> bool \<Rightarrow> sandbox_entry list" where
  "workspace_allow_entries env writable_roots exclude_tmpdir_env_var exclude_slash_tmp =
     [entry_new (SpecialEntry RootPath) ReadAccess, entry_new (SpecialEntry (ProjectRoots None)) WriteAccess]
     @ (if exclude_slash_tmp then [] else [entry_new (SpecialEntry SlashTmpPath) WriteAccess])
     @ (if exclude_tmpdir_env_var then [] else [entry_new (SpecialEntry TmpdirPath) WriteAccess])
     @ map (\<lambda>p. entry_new (PathEntry (fe_to_uri env p)) WriteAccess) writable_roots"

definition workspace_write :: "fs_env \<Rightarrow> disk_view \<Rightarrow> path list \<Rightarrow> bool \<Rightarrow> bool \<Rightarrow> sandbox_policy" where
  "workspace_write env dv writable_roots exclude_tmpdir_env_var exclude_slash_tmp =
     policy_restricted
       (fold (append_default_read_only_subpaths env dv False) writable_roots
         (fold (append_default_read_only_project_root_subpath_if_no_explicit_rule env) [''.git'', ''.agents'', ''.codex'']
           (workspace_allow_entries env writable_roots exclude_tmpdir_env_var exclude_slash_tmp)))"

definition from_legacy :: "fs_env \<Rightarrow> disk_view \<Rightarrow> legacy_policy \<Rightarrow> sandbox_policy" where
  "from_legacy env dv value =
     (case value of
        DangerFullAccess \<Rightarrow> policy_unrestricted
      | LegacyExternalSandbox _ \<Rightarrow> policy_external_sandbox
      | LegacyReadOnly _ \<Rightarrow> policy_restricted [entry_new (SpecialEntry RootPath) ReadAccess]
      | WorkspaceWrite s \<Rightarrow>
          workspace_write env dv (ww_writable_roots s) (ww_exclude_tmpdir_env_var s) (ww_exclude_slash_tmp s))"

definition append_workspace_defaults ::
  "fs_env \<Rightarrow> disk_view \<Rightarrow> path list \<Rightarrow> path \<Rightarrow> sandbox_entry list \<Rightarrow> sandbox_entry list" where
  "append_workspace_defaults env dv writable_roots cwd entries =
     fold (append_default_read_only_subpaths env dv False) writable_roots
       (case env_absolute env cwd of
          Some cwd_root \<Rightarrow> append_default_read_only_subpaths env dv True cwd_root entries
        | None \<Rightarrow> entries)"

definition from_legacy_sandbox_policy_for_cwd :: "fs_env \<Rightarrow> disk_view \<Rightarrow> legacy_policy \<Rightarrow> path \<Rightarrow> sandbox_policy" where
  "from_legacy_sandbox_policy_for_cwd env dv value cwd =
     (case value of
        WorkspaceWrite s \<Rightarrow>
          (let pol = from_legacy env dv value
           in pol\<lparr>pol_entries := append_workspace_defaults env dv (ww_writable_roots s) cwd (pol_entries pol)\<rparr>)
      | _ \<Rightarrow> from_legacy env dv value)"

definition from_legacy_sandbox_policy_preserving_deny_entries ::
  "fs_env \<Rightarrow> disk_view \<Rightarrow> legacy_policy \<Rightarrow> path \<Rightarrow> sandbox_policy \<Rightarrow> sandbox_policy" where
  "from_legacy_sandbox_policy_preserving_deny_entries env dv value cwd existing =
     (let rebuilt = from_legacy_sandbox_policy_for_cwd env dv value cwd
      in if pol_kind rebuilt \<noteq> Restricted then rebuilt
         else rebuilt\<lparr>pol_glob_scan_max_depth := pol_glob_scan_max_depth existing,
           pol_entries := fold push_missing (filter (\<lambda>e. se_access e = DenyAccess) (pol_entries existing)) (pol_entries rebuilt)\<rparr>)"

definition legacy_runtime_file_system_policy_for_cwd :: "fs_env \<Rightarrow> disk_view \<Rightarrow> legacy_policy \<Rightarrow> path \<Rightarrow> sandbox_policy" where
  "legacy_runtime_file_system_policy_for_cwd env dv value cwd =
     (case value of
        WorkspaceWrite s \<Rightarrow>
          policy_restricted (append_workspace_defaults env dv (ww_writable_roots s) cwd
            (workspace_allow_entries env (ww_writable_roots s) (ww_exclude_tmpdir_env_var s) (ww_exclude_slash_tmp s)))
      | _ \<Rightarrow> from_legacy env dv value)"

definition with_additional_legacy_workspace_writable_roots ::
  "fs_env \<Rightarrow> disk_view \<Rightarrow> path list \<Rightarrow> sandbox_policy \<Rightarrow> sandbox_policy" where
  "with_additional_legacy_workspace_writable_roots env dv roots pol =
     (if pol_kind pol \<noteq> Restricted then pol
      else pol\<lparr>pol_entries := fold (\<lambda>p entries.
        append_default_read_only_subpaths env dv False p
          (if list_ex (\<lambda>e. can_write (se_access e) \<and> se_path e = PathEntry (fe_to_uri env p)) entries then entries
           else entries @ [entry_new (PathEntry (fe_to_uri env p)) WriteAccess])) roots (pol_entries pol)\<rparr>)"

subsection \<open>To an older policy\<close>

record bridge =
  br_workspace_root_writable :: bool
  br_writable_roots :: "path list"
  br_tmpdir_writable :: bool
  br_slash_tmp_writable :: bool
  br_unbridgeable_root_write :: bool

definition bridge_empty :: bridge where
  "bridge_empty = \<lparr>br_workspace_root_writable = False, br_writable_roots = [], br_tmpdir_writable = False,
     br_slash_tmp_writable = False, br_unbridgeable_root_write = False\<rparr>"

datatype bridge_error = NotNativePath path | UnsupportedWrites string

definition bridge_entry :: "fs_env \<Rightarrow> path option \<Rightarrow> sandbox_entry \<Rightarrow> bridge \<Rightarrow> bridge_error + bridge" where
  "bridge_entry env cwd_absolute e b =
     (case se_path e of
        GlobEntry _ \<Rightarrow> Inr b
      | PathEntry u \<Rightarrow>
          if can_write (se_access e)
          then (case fe_to_abs env u of
                  None \<Rightarrow> Inl (NotNativePath u)
                | Some p \<Rightarrow>
                    Inr (if cwd_absolute = Some p then b\<lparr>br_workspace_root_writable := True\<rparr>
                         else b\<lparr>br_writable_roots := br_writable_roots b @ [p]\<rparr>))
          else Inr b
      | SpecialEntry value \<Rightarrow>
          Inr (case value of
             RootPath \<Rightarrow> if se_access e = WriteAccess then b\<lparr>br_unbridgeable_root_write := True\<rparr> else b
           | MinimalPath \<Rightarrow> b
           | ProjectRoots subpath \<Rightarrow>
               if subpath = None \<and> can_write (se_access e) then b\<lparr>br_workspace_root_writable := True\<rparr>
               else (case resolve_file_system_special_path env value cwd_absolute of
                       Some p \<Rightarrow>
                         if can_write (se_access e) then b\<lparr>br_writable_roots := br_writable_roots b @ [p]\<rparr> else b
                     | None \<Rightarrow> b)
           | TmpdirPath \<Rightarrow> if can_write (se_access e) then b\<lparr>br_tmpdir_writable := True\<rparr> else b
           | SlashTmpPath \<Rightarrow> if can_write (se_access e) then b\<lparr>br_slash_tmp_writable := True\<rparr> else b
           | UnknownPath _ _ \<Rightarrow> b))"

fun bridge_entries :: "fs_env \<Rightarrow> path option \<Rightarrow> sandbox_entry list \<Rightarrow> bridge \<Rightarrow> bridge_error + bridge" where
  "bridge_entries env cwd_absolute [] b = Inr b"
| "bridge_entries env cwd_absolute (e # es) b =
     (case bridge_entry env cwd_absolute e b of
        Inl err \<Rightarrow> Inl err
      | Inr b' \<Rightarrow> bridge_entries env cwd_absolute es b')"

definition unsupported_writes_error :: string where
  "unsupported_writes_error = ''permissions profile requests filesystem writes outside the workspace root, which is not supported until the runtime enforces FileSystemSandboxPolicy directly''"

definition to_legacy_sandbox_policy ::
  "fs_env \<Rightarrow> disk_view \<Rightarrow> sandbox_policy \<Rightarrow> network_policy \<Rightarrow> path \<Rightarrow> bridge_error + legacy_policy" where
  "to_legacy_sandbox_policy env dv pol network cwd =
     (case pol_kind pol of
        ExternalSandbox \<Rightarrow> Inr (LegacyExternalSandbox (if network_is_enabled network then NetEnabled else NetRestricted))
      | Unrestricted \<Rightarrow>
          Inr (if network_is_enabled network then DangerFullAccess else LegacyExternalSandbox NetRestricted)
      | Restricted \<Rightarrow>
          (case bridge_entries env (env_absolute env cwd) (pol_entries pol) bridge_empty of
             Inl err \<Rightarrow> Inl err
           | Inr b \<Rightarrow>
               if has_full_disk_write_access env pol
               then Inr (if network_is_enabled network then DangerFullAccess else LegacyExternalSandbox NetRestricted)
               else if br_workspace_root_writable b
               then Inr (WorkspaceWrite \<lparr>ww_writable_roots = dedup_absolute_paths env dv (br_writable_roots b) False,
                 ww_network_access = network_is_enabled network,
                 ww_exclude_tmpdir_env_var = (\<not> br_tmpdir_writable b),
                 ww_exclude_slash_tmp = (\<not> br_slash_tmp_writable b)\<rparr>)
               else if br_unbridgeable_root_write b \<or> br_writable_roots b \<noteq> [] \<or> br_tmpdir_writable b \<or> br_slash_tmp_writable b
               then Inl (UnsupportedWrites unsupported_writes_error)
               else Inr (LegacyReadOnly (network_is_enabled network))))"

subsection \<open>Workspace roots\<close>

definition materialize_entry_for_roots :: "fs_env \<Rightarrow> path list \<Rightarrow> sandbox_entry \<Rightarrow> sandbox_entry list" where
  "materialize_entry_for_roots env workspace_roots e =
     (case se_path e of
        SpecialEntry (ProjectRoots subpath) \<Rightarrow>
          map (\<lambda>root. e\<lparr>se_path := PathEntry (fe_to_uri env
            (case subpath of Some s \<Rightarrow> env_join env root s | None \<Rightarrow> root))\<rparr>) workspace_roots
      | GlobEntry pattern \<Rightarrow>
          (case parse_project_roots_glob_pattern pattern of
             Some subpath \<Rightarrow> map (\<lambda>root. e\<lparr>se_path := GlobEntry (env_join env root subpath)\<rparr>) workspace_roots
           | None \<Rightarrow> [e])
      | _ \<Rightarrow> [e])"

definition materialize_project_roots_with_workspace_roots :: "fs_env \<Rightarrow> path list \<Rightarrow> sandbox_policy \<Rightarrow> sandbox_policy" where
  "materialize_project_roots_with_workspace_roots env workspace_roots pol =
     pol\<lparr>pol_entries := concat (map (materialize_entry_for_roots env workspace_roots) (pol_entries pol))\<rparr>"

definition with_materialized_project_roots_for_workspace_roots ::
  "fs_env \<Rightarrow> path list \<Rightarrow> sandbox_policy \<Rightarrow> sandbox_policy" where
  "with_materialized_project_roots_for_workspace_roots env workspace_roots pol =
     pol\<lparr>pol_entries := fold push_missing
       (pol_entries (materialize_project_roots_with_workspace_roots env workspace_roots pol)) (pol_entries pol)\<rparr>"

end
