(* ===== verification/Fs_Legacy_Properties.thy ===== *)
theory Fs_Legacy_Properties
  imports Fs_Legacy Fs_Roots_Properties
begin

text \<open>
  The bridge between the older sandbox policies and file system policies.
\<close>

subsection \<open>Default entries\<close>

text \<open>Appending defaults adds entries that only allow to read.\<close>

definition extends_by_reads :: "sandbox_entry list \<Rightarrow> sandbox_entry list \<Rightarrow> bool" where
  "extends_by_reads es es' \<longleftrightarrow> (\<exists>rs. es' = es @ rs
     \<and> (\<forall>r\<in>set rs. se_access r = ReadAccess \<and> se_path r \<noteq> SpecialEntry RootPath))"

lemma extends_by_reads_refl [simp]: "extends_by_reads es es"
  by (simp add: extends_by_reads_def)

lemma extends_by_reads_trans: "extends_by_reads a b \<Longrightarrow> extends_by_reads b c \<Longrightarrow> extends_by_reads a c"
  unfolding extends_by_reads_def by (metis Un_iff append_assoc set_append)

lemma extends_fold: "(\<And>x es. extends_by_reads es (f x es)) \<Longrightarrow> extends_by_reads es (fold f xs es)"
  by (induction xs arbitrary: es) (auto intro: extends_by_reads_trans)

lemma extends_entry:
  "p \<noteq> SpecialEntry RootPath \<Longrightarrow> extends_by_reads es (append_default_read_only_entry_if_no_explicit_rule env p es)"
  by (auto simp: append_default_read_only_entry_if_no_explicit_rule_def extends_by_reads_def entry_skip_missing_path_def)

lemma extends_subpaths: "extends_by_reads es (append_default_read_only_subpaths env dv b root es)"
  unfolding append_default_read_only_subpaths_def append_default_read_only_path_if_no_explicit_rule_def
  by (intro extends_fold extends_entry) simp

lemma extends_project: "extends_by_reads es (append_default_read_only_project_root_subpath_if_no_explicit_rule env p es)"
  unfolding append_default_read_only_project_root_subpath_if_no_explicit_rule_def by (intro extends_entry) simp

lemma extends_workspace_write:
  "extends_by_reads (workspace_allow_entries env roots t st) (pol_entries (workspace_write env dv roots t st))"
  unfolding workspace_write_def policy_restricted_def sandbox_policy.select_convs
  by (rule extends_by_reads_trans [OF extends_fold [OF extends_project] extends_fold [OF extends_subpaths]])

lemma extends_defaults: "extends_by_reads es (append_workspace_defaults env dv roots cwd es)"
  unfolding append_workspace_defaults_def
  by (cases "env_absolute env cwd") (auto intro: extends_by_reads_trans extends_fold extends_subpaths)

lemma workspace_entries:
  "extends_by_reads (workspace_allow_entries env (ww_writable_roots s) (ww_exclude_tmpdir_env_var s) (ww_exclude_slash_tmp s))
     (pol_entries (from_legacy_sandbox_policy_for_cwd env dv (WorkspaceWrite s) cwd))"
  by (simp add: from_legacy_sandbox_policy_for_cwd_def Let_def from_legacy_def
      extends_by_reads_trans [OF extends_workspace_write extends_defaults])

lemma legacy_kind:
  "pol_kind (from_legacy_sandbox_policy_for_cwd env dv (WorkspaceWrite s) cwd) = Restricted"
  by (simp add: from_legacy_sandbox_policy_for_cwd_def Let_def from_legacy_def workspace_write_def policy_restricted_def)

lemma allow_entries_root:
  "e \<in> set (workspace_allow_entries env roots t st) \<Longrightarrow> se_path e = SpecialEntry RootPath \<Longrightarrow> se_access e = ReadAccess"
  by (auto simp: workspace_allow_entries_def entry_new_def split: if_splits)

lemma workspace_not_full_disk:
  "\<not> has_full_disk_write_access env (from_legacy_sandbox_policy_for_cwd env dv (WorkspaceWrite s) cwd)"
  using workspace_entries [of env s dv cwd] allow_entries_root
  by (fastforce simp: has_full_disk_write_access_def legacy_kind has_root_access_def list_ex_iff extends_by_reads_def)

subsection \<open>Round trip\<close>

lemma bridge_entries_append:
  "bridge_entries env c (xs @ ys) b =
     (case bridge_entries env c xs b of Inl e \<Rightarrow> Inl e | Inr b' \<Rightarrow> bridge_entries env c ys b')"
  by (induction xs arbitrary: b) (auto split: sum.splits)

lemma bridge_reads: "\<forall>r\<in>set rs. se_access r = ReadAccess \<Longrightarrow> bridge_entries env c rs b = Inr b"
  by (induction rs) (auto simp: bridge_entry_def split: file_system_path.splits special_path.splits option.splits)

lemma bridge_extends:
  assumes "extends_by_reads es es'" and "bridge_entries env c es b = Inr b'"
  shows "bridge_entries env c es' b = Inr b'"
  using assms bridge_reads by (auto simp: extends_by_reads_def bridge_entries_append)

lemma bridge_roots:
  assumes "env_roundtrip env" and "\<forall>r\<in>set roots. normal_path r"
  shows "bridge_entries env c (map (\<lambda>p. entry_new (PathEntry (fe_to_uri env p)) WriteAccess) roots) b =
    Inr (b\<lparr>br_workspace_root_writable := br_workspace_root_writable b \<or> c \<in> Some ` set roots,
      br_writable_roots := br_writable_roots b @ filter (\<lambda>r. c \<noteq> Some r) roots\<rparr>)"
  using assms(2)
proof (induction roots arbitrary: b)
  case (Cons r roots)
  have "fe_to_abs env (fe_to_uri env r) = Some r" using assms(1) Cons.prems by (simp add: env_roundtrip_def)
  then show ?case using Cons by (auto simp: bridge_entry_def entry_new_def)
qed simp

definition bridged :: "fs_env \<Rightarrow> disk_view \<Rightarrow> path \<Rightarrow> legacy_policy \<Rightarrow> legacy_policy" where
  "bridged env dv cwd pol =
     (case pol of
        WorkspaceWrite s \<Rightarrow>
          WorkspaceWrite (s\<lparr>ww_writable_roots :=
            dedup_absolute_paths env dv (filter (\<lambda>r. env_absolute env cwd \<noteq> Some r) (ww_writable_roots s)) False\<rparr>)
      | _ \<Rightarrow> pol)"

text \<open>An older policy survives the bridge: converted to a file system policy for a directory and back, it is
  the same policy, its network setting included, with repeated roots and the directory itself dropped from the
  additional roots. The read-only defaults that the conversion adds do not stand in the way.\<close>

theorem legacy_policy_round_trip:
  assumes "env_ok env" and "env_roundtrip env" and "\<forall>s. pol = WorkspaceWrite s \<longrightarrow> (\<forall>r\<in>set (ww_writable_roots s). normal_path r)"
  shows "to_legacy_sandbox_policy env dv (from_legacy_sandbox_policy_for_cwd env dv pol cwd) (network_policy_from pol) cwd
    = Inr (bridged env dv cwd pol)"
proof (cases pol)
  case (WorkspaceWrite s)
  let ?allow = "workspace_allow_entries env (ww_writable_roots s) (ww_exclude_tmpdir_env_var s) (ww_exclude_slash_tmp s)"
  have r: "\<forall>r\<in>set (ww_writable_roots s). normal_path r" using assms(3) WorkspaceWrite by simp
  have "\<exists>b. bridge_entries env (env_absolute env cwd) ?allow bridge_empty = Inr b \<and> br_workspace_root_writable b
      \<and> br_writable_roots b = filter (\<lambda>r. env_absolute env cwd \<noteq> Some r) (ww_writable_roots s)
      \<and> br_tmpdir_writable b = (\<not> ww_exclude_tmpdir_env_var s) \<and> br_slash_tmp_writable b = (\<not> ww_exclude_slash_tmp s)"
    by (auto simp: workspace_allow_entries_def bridge_entries_append bridge_roots [OF assms(2) r, unfolded entry_new_def]
        bridge_entry_def entry_new_def bridge_empty_def)
  then obtain b where b: "bridge_entries env (env_absolute env cwd)
        (pol_entries (from_legacy_sandbox_policy_for_cwd env dv (WorkspaceWrite s) cwd)) bridge_empty = Inr b"
      "br_workspace_root_writable b" "br_writable_roots b = filter (\<lambda>r. env_absolute env cwd \<noteq> Some r) (ww_writable_roots s)"
      "br_tmpdir_writable b = (\<not> ww_exclude_tmpdir_env_var s)" "br_slash_tmp_writable b = (\<not> ww_exclude_slash_tmp s)"
    using bridge_extends [OF workspace_entries] by blast
  then show ?thesis
    unfolding WorkspaceWrite to_legacy_sandbox_policy_def legacy_kind
    by (simp add: workspace_not_full_disk bridged_def network_policy_from_def)
next
  case (LegacyReadOnly n)
  then show ?thesis
    by (simp add: to_legacy_sandbox_policy_def from_legacy_sandbox_policy_for_cwd_def from_legacy_def policy_restricted_def
        bridge_entry_def entry_new_def bridge_empty_def has_full_disk_write_access_def has_root_access_def bridged_def network_policy_from_def)
next
  case (LegacyExternalSandbox n)
  then show ?thesis
    by (cases n) (simp_all add: to_legacy_sandbox_policy_def from_legacy_sandbox_policy_for_cwd_def from_legacy_def
        policy_external_sandbox_def bridged_def network_policy_from_def)
qed (simp add: to_legacy_sandbox_policy_def from_legacy_sandbox_policy_for_cwd_def from_legacy_def
        policy_unrestricted_def bridged_def network_policy_from_def)

definition two_roots :: workspace_settings where
  "two_roots = \<lparr>ww_writable_roots = [''/data'', ''/w'', ''/data''], ww_network_access = True,
     ww_exclude_tmpdir_env_var = True, ww_exclude_slash_tmp = False\<rparr>"

theorem legacy_policy_round_trip_witness:
  "to_legacy_sandbox_policy plain_env repo_disk
     (from_legacy_sandbox_policy_for_cwd plain_env repo_disk (WorkspaceWrite two_roots) ''/w'')
     (network_policy_from (WorkspaceWrite two_roots)) ''/w''
   = Inr (WorkspaceWrite (two_roots\<lparr>ww_writable_roots := [''/data'']\<rparr>))"
proof -
  have "\<forall>r\<in>set (ww_writable_roots two_roots). normal_path r" by code_simp
  then have n: "\<forall>s. WorkspaceWrite two_roots = WorkspaceWrite s \<longrightarrow> (\<forall>r\<in>set (ww_writable_roots s). normal_path r)" by simp
  have "bridged plain_env repo_disk ''/w'' (WorkspaceWrite two_roots) = WorkspaceWrite (two_roots\<lparr>ww_writable_roots := [''/data'']\<rparr>)"
    by code_simp
  then show ?thesis using legacy_policy_round_trip [OF plain_env_ok plain_env_roundtrip n] by simp
qed

subsection \<open>What a workspace policy allows\<close>

lemma write_paths_iff:
  "q \<in> write_paths env pol cwd \<longleftrightarrow>
    (\<exists>e\<in>set (pol_entries pol). se_access e = WriteAccess \<and> resolve_entry_path env (se_path e) (env_absolute env cwd) = Some q)"
proof
  assume "\<exists>e\<in>set (pol_entries pol). se_access e = WriteAccess \<and> resolve_entry_path env (se_path e) (env_absolute env cwd) = Some q"
  then have "\<lparr>re_path = q, re_access = WriteAccess\<rparr> \<in> set (resolved_entries_with_cwd env pol cwd)"
    unfolding in_resolved_entries by auto
  then show "q \<in> write_paths env pol cwd" by (auto simp: write_paths_def intro: rev_image_eqI)
qed (auto simp: write_paths_def in_resolved_entries)

lemma write_paths_extends:
  assumes "extends_by_reads es (pol_entries pol)"
  shows "q \<in> write_paths env pol cwd \<longleftrightarrow>
    (\<exists>e\<in>set es. se_access e = WriteAccess \<and> resolve_entry_path env (se_path e) (env_absolute env cwd) = Some q)"
  using assms unfolding write_paths_iff extends_by_reads_def by fastforce

lemma resolve_workspace_entries:
  "resolve_entry_path env (SpecialEntry (ProjectRoots None)) c = c"
  "resolve_entry_path env (SpecialEntry SlashTmpPath) c = (if fe_slash_tmp_is_dir env then Some ''/tmp'' else None)"
  "resolve_entry_path env (SpecialEntry TmpdirPath) c =
     (case fe_tmpdir env of Some t \<Rightarrow> if t = [] then None else env_absolute env t | None \<Rightarrow> None)"
  "resolve_entry_path env (PathEntry u) c = fe_to_abs env u"
  by (simp_all add: resolve_entry_path_def resolve_file_system_path_def resolve_file_system_special_path_def option.map_ident)

lemma workspace_allow_entries_iff:
  "(\<exists>e\<in>set (workspace_allow_entries env roots t st). P e) \<longleftrightarrow>
     P (entry_new (SpecialEntry RootPath) ReadAccess) \<or> P (entry_new (SpecialEntry (ProjectRoots None)) WriteAccess)
     \<or> \<not> st \<and> P (entry_new (SpecialEntry SlashTmpPath) WriteAccess)
     \<or> \<not> t \<and> P (entry_new (SpecialEntry TmpdirPath) WriteAccess)
     \<or> (\<exists>r\<in>set roots. P (entry_new (PathEntry (fe_to_uri env r)) WriteAccess))"
  by (auto simp: workspace_allow_entries_def)

lemma mem_if: "q \<in> set (if b then xs else ys) \<longleftrightarrow> (if b then q \<in> set xs else q \<in> set ys)"
  by (rule if_distrib)

lemma mem_option: "q \<in> set (case x of Some p \<Rightarrow> [p] | None \<Rightarrow> []) \<longleftrightarrow> x = Some q"
  by (cases x) auto

lemma legacy_write_paths:
  assumes "env_roundtrip env" and "\<forall>r\<in>set (ww_writable_roots s). normal_path r"
  shows "write_paths env (from_legacy_sandbox_policy_for_cwd env dv (WorkspaceWrite s) cwd) cwd = set (legacy_root_paths env s cwd)"
proof (rule set_eqI)
  fix q
  have t: "env_absolute env ''/tmp'' = Some ''/tmp''"
    using candidate_of_normal [OF slash_tmp_normal, of env cwd]
    by (simp add: resolve_candidate_path_def is_absolute_def starts_with_def)
  have uri: "(\<exists>r\<in>set (ww_writable_roots s). fe_to_abs env (fe_to_uri env r) = Some q) \<longleftrightarrow> q \<in> set (ww_writable_roots s)"
    using assms by (auto simp: env_roundtrip_def)
  have allow: "q \<in> write_paths env (from_legacy_sandbox_policy_for_cwd env dv (WorkspaceWrite s) cwd) cwd \<longleftrightarrow>
      env_absolute env cwd = Some q
      \<or> \<not> ww_exclude_slash_tmp s \<and> fe_slash_tmp_is_dir env \<and> q = ''/tmp''
      \<or> \<not> ww_exclude_tmpdir_env_var s
        \<and> (case fe_tmpdir env of Some t \<Rightarrow> if t = [] then None else env_absolute env t | None \<Rightarrow> None) = Some q
      \<or> q \<in> set (ww_writable_roots s)"
    unfolding write_paths_extends [OF workspace_entries] workspace_allow_entries_iff
      entry_new_def sandbox_entry.select_convs resolve_workspace_entries simp_thms uri by auto
  show "q \<in> write_paths env (from_legacy_sandbox_policy_for_cwd env dv (WorkspaceWrite s) cwd) cwd
      \<longleftrightarrow> q \<in> set (legacy_root_paths env s cwd)"
    unfolding allow legacy_root_paths_def t set_append Un_iff mem_if option.case mem_option
    by (cases "fe_tmpdir env") (auto simp only: option.case mem_if mem_option list.set insert_iff empty_iff split: if_splits)
qed

lemma workspace_reads_all:
  assumes "env_absolute env cwd \<noteq> None"
  shows "\<lparr>re_path = ''/'', re_access = ReadAccess\<rparr>
    \<in> set (resolved_entries_with_cwd env (from_legacy_sandbox_policy_for_cwd env dv (WorkspaceWrite s) cwd) cwd)"
  using workspace_entries [of env s dv cwd] assms
  by (auto simp: in_resolved_entries extends_by_reads_def workspace_allow_entries_def entry_new_def resolve_entry_path_def
      absolute_root_path_for_cwd_def)

lemma workspace_no_deny:
  "e \<in> set (resolved_entries_with_cwd env (from_legacy_sandbox_policy_for_cwd env dv (WorkspaceWrite s) cwd) cwd)
    \<Longrightarrow> re_access e \<noteq> DenyAccess"
  using workspace_entries [of env s dv cwd]
  by (auto simp: in_resolved_entries extends_by_reads_def workspace_allow_entries_def entry_new_def split: if_splits)

text \<open>A workspace policy means the same in both forms: the paths that the file system policy gives write
  access to are exactly the roots of the older policy (the working directory, \<open>/tmp\<close> and \<open>TMPDIR\<close> unless
  excluded, and the additional roots); everything can be read, and a path that can be written lies below one of
  those roots.\<close>

theorem workspace_policy_writes_legacy_roots:
  assumes "env_ok env" and "env_roundtrip env" and "\<forall>r\<in>set (ww_writable_roots s). normal_path r"
    and "env_absolute env cwd \<noteq> None" and "resolve_candidate_path env p cwd = Some q"
  shows "write_paths env (from_legacy_sandbox_policy_for_cwd env dv (WorkspaceWrite s) cwd) cwd
      = wr_root ` set (legacy_writable_roots_with_cwd env dv (WorkspaceWrite s) cwd)
    \<and> can_read_path_with_cwd env (from_legacy_sandbox_policy_for_cwd env dv (WorkspaceWrite s) cwd) p cwd
    \<and> (can_write_path_with_cwd env (from_legacy_sandbox_policy_for_cwd env dv (WorkspaceWrite s) cwd) p cwd
        \<longrightarrow> (\<exists>wr\<in>set (legacy_writable_roots_with_cwd env dv (WorkspaceWrite s) cwd). path_starts_with q (wr_root wr)))"
proof -
  let ?pol = "from_legacy_sandbox_policy_for_cwd env dv (WorkspaceWrite s) cwd"
  have roots: "write_paths env ?pol cwd = wr_root ` set (legacy_writable_roots_with_cwd env dv (WorkspaceWrite s) cwd)"
    using legacy_write_paths [OF assms(2,3)] by (force simp: legacy_writable_roots_with_cwd_def)
  have "\<lparr>re_path = ''/'', re_access = ReadAccess\<rparr> \<in> covering env ?pol cwd q"
    using workspace_reads_all [OF assms(4)] normal_path_under_root [OF candidate_normal [OF assms(1,5)]] by (simp add: covering_def)
  then obtain m where m: "m \<in> covering env ?pol cwd q" "resolve_access_with_cwd env ?pol p cwd = re_access m"
    using access_obtains [OF legacy_kind assms(5)] by (metis empty_iff)
  have "re_path m \<in> write_paths env ?pol cwd" if "re_access m = WriteAccess"
    using m(1) that by (auto simp: covering_def write_paths_def)
  then have w: "\<exists>wr\<in>set (legacy_writable_roots_with_cwd env dv (WorkspaceWrite s) cwd). path_starts_with q (wr_root wr)"
    if "re_access m = WriteAccess"
    using that coveringD [OF m(1)] unfolding roots by auto
  have "re_access m \<noteq> DenyAccess" using workspace_no_deny coveringD [OF m(1)] by blast
  then show ?thesis
    using m(2) roots w by (simp add: can_read_path_with_cwd_def can_write_path_with_cwd_def)
qed

theorem workspace_policy_writes_legacy_roots_witness:
  "\<exists>wr\<in>set (legacy_writable_roots_with_cwd plain_env repo_disk (WorkspaceWrite two_roots) ''/w''). path_starts_with ''/data/x'' (wr_root wr)"
proof -
  have "\<forall>r\<in>set (ww_writable_roots two_roots). normal_path r" "env_absolute plain_env ''/w'' \<noteq> None"
    "resolve_candidate_path plain_env ''/data/x'' ''/w'' = Some ''/data/x''" by code_simp+
  moreover have "can_write_path_with_cwd plain_env
    (from_legacy_sandbox_policy_for_cwd plain_env repo_disk (WorkspaceWrite two_roots) ''/w'') ''/data/x'' ''/w''" by code_simp
  ultimately show ?thesis
    using workspace_policy_writes_legacy_roots [OF plain_env_ok plain_env_roundtrip] by blast
qed

subsection \<open>Deny entries\<close>

lemma push_missing_set: "set (fold push_missing xs es) = set es \<union> set xs"
  by (induction xs arbitrary: es) (auto simp: push_missing_def)

text \<open>Deny entries survive a change of permissions: when the allow side of a policy is replaced, or rebuilt
  from an older policy, and the result is still enforced by this code, every path that an entry of the existing
  policy denies stays denied, with everything below it that no entry for a longer path is about.\<close>

theorem deny_entries_survive:
  assumes "env_ok env" and "d \<in> set (resolved_entries_with_cwd env existing cwd)" and "re_access d = DenyAccess"
    and "pol' = preserve_deny_read_restrictions_from existing pol \<and> pol_kind pol \<noteq> ExternalSandbox
      \<or> pol' = from_legacy_sandbox_policy_preserving_deny_entries env dv legacy cwd existing \<and> pol_kind pol' = Restricted"
    and "resolve_candidate_path env p cwd = Some q" and "path_starts_with q (re_path d)"
    and "\<forall>e\<in>covering env pol' cwd q. length (components (re_path e)) \<le> length (components (re_path d))"
  shows "resolve_access_with_cwd env pol' p cwd = DenyAccess \<and> \<not> can_read_path_with_cwd env pol' p cwd"
proof -
  obtain x where x: "x \<in> set (pol_entries existing)" "se_access x = DenyAccess"
    "resolve_entry_path env (se_path x) (env_absolute env cwd) = Some (re_path d)"
    using assms(2,3) by (auto simp: in_resolved_entries)
  have "pol_kind pol' = Restricted \<and> x \<in> set (pol_entries pol')"
    using assms(4)
  proof
    assume "pol' = preserve_deny_read_restrictions_from existing pol \<and> pol_kind pol \<noteq> ExternalSandbox"
    then show ?thesis
      using x(1,2)
      by (cases "pol_kind pol")
        (auto simp: preserve_deny_read_restrictions_from_def Let_def push_missing_set policy_restricted_def filter_empty_conv)
  next
    assume "pol' = from_legacy_sandbox_policy_preserving_deny_entries env dv legacy cwd existing \<and> pol_kind pol' = Restricted"
    then show ?thesis
      using x(1,2)
      by (auto simp: from_legacy_sandbox_policy_preserving_deny_entries_def Let_def push_missing_set split: if_splits)
  qed
  then have k: "pol_kind pol' = Restricted" and d: "d \<in> covering env pol' cwd q"
    using x assms(3,6) by (auto simp: covering_def in_resolved_entries)
  have "resolve_access_with_cwd env pol' p cwd = re_access d"
    using assms(3,7) by (intro access_of_greatest [OF k assms(5) d]) (auto simp: precedence_le dest!: bspec)
  then show ?thesis using assms(3) by (simp add: can_read_path_with_cwd_def)
qed

definition secret_policy :: sandbox_policy where
  "secret_policy = policy_restricted
     [entry_new (SpecialEntry RootPath) ReadAccess, entry_new (PathEntry ''/w/secrets'') DenyAccess]"

theorem deny_entries_survive_witness:
  "\<not> can_read_path_with_cwd plain_env (preserve_deny_read_restrictions_from secret_policy policy_unrestricted) ''secrets/key'' ''/w''"
proof -
  let ?pol = "preserve_deny_read_restrictions_from secret_policy policy_unrestricted"
    and ?d = "\<lparr>re_path = ''/w/secrets'', re_access = DenyAccess\<rparr>"
  have d: "?d \<in> set (resolved_entries_with_cwd plain_env secret_policy ''/w'')" "re_access ?d = DenyAccess" by code_simp+
  have p: "?pol = preserve_deny_read_restrictions_from secret_policy policy_unrestricted \<and> pol_kind policy_unrestricted \<noteq> ExternalSandbox
      \<or> ?pol = from_legacy_sandbox_policy_preserving_deny_entries plain_env repo_disk DangerFullAccess ''/w'' secret_policy
        \<and> pol_kind ?pol = Restricted"
    by (simp add: policy_unrestricted_def)
  have c: "resolve_candidate_path plain_env ''secrets/key'' ''/w'' = Some ''/w/secrets/key''"
    "path_starts_with ''/w/secrets/key'' (re_path ?d)"
    "\<forall>e\<in>covering plain_env ?pol ''/w'' ''/w/secrets/key''. length (components (re_path e)) \<le> length (components (re_path ?d))"
    unfolding covering_def by code_simp+
  show ?thesis using deny_entries_survive [OF plain_env_ok d p c] by blast
qed

end
