(* ===== verification/Shell_Words.thy ===== *)
theory Shell_Words
  imports Abs_Path Exec_Rule
begin

text \<open>
  The words of shell scripts, from \<open>shell-command/src/bash.rs\<close>, \<open>shell-command/src/shell_detect.rs\<close> and
  \<open>shell-command/src/command_safety/is_dangerous_command.rs\<close> on Unix: the plain commands of a script, its
  literal commands, and whether a command is dangerous. The syntax tree of a script comes from another
  package: \<open>shell_parser\<close> gives a tree, or \<open>None\<close> when parsing fails; the text of a node is \<open>None\<close> when it is
  not UTF-8.
\<close>

datatype shell_node = ShellNode (sn_kind: string) (sn_named: bool) (sn_start: nat) (sn_text: "string option")
  (sn_children: "shell_node list")

record shell_tree =
  st_root :: shell_node
  st_has_error :: bool

type_synonym shell_parser = "string \<Rightarrow> shell_tree option"

definition named_children :: "shell_node \<Rightarrow> shell_node list" where
  "named_children n = filter sn_named (sn_children n)"

lemma child_size: "c \<in> set (sn_children n) \<Longrightarrow> size c < size n"
  by (cases n) (auto simp: less_Suc_eq_le size_list_estimation')

lemma named_child_size: "c \<in> set (named_children n) \<Longrightarrow> size c < size n"
  using child_size by (auto simp: named_children_def)

subsection \<open>Words\<close>

definition is_literal_word_or_number :: "shell_node \<Rightarrow> bool" where
  "is_literal_word_or_number node =
     (if sn_kind node \<noteq> ''word'' \<and> sn_kind node \<noteq> ''number'' then False
      else named_children node = []
        \<and> (case sn_text node of
             None \<Rightarrow> False
           | Some word \<Rightarrow>
               \<not> starts_with word ''=''
               \<and> \<not> list_ex (\<lambda>c. c \<in> set (''{}*?[]~^#$'' @ [CHR 0x5C, CHR 0x60])) word))"

fun has_escape :: "string \<Rightarrow> bool" where
  "has_escape (a # b # cs) \<longleftrightarrow>
     a = CHR 0x5C \<and> b \<in> {CHR ''$'', CHR 0x60, CHR 0x22, CHR 0x5C, CHR 0x0A} \<or> has_escape (b # cs)"
| "has_escape _ \<longleftrightarrow> False"

definition strip_quotes :: "char \<Rightarrow> string \<Rightarrow> string option" where
  "strip_quotes q s = Option.bind (strip_prefix [q] s) (\<lambda>t. map_option rev (strip_prefix [q] (rev t)))"

definition parse_double_quoted_string :: "shell_node \<Rightarrow> string option" where
  "parse_double_quoted_string node =
     (if sn_kind node \<noteq> ''string'' then None
      else if list_ex (\<lambda>part. sn_kind part \<noteq> ''string_content'') (named_children node) then None
      else Option.bind (sn_text node) (\<lambda>raw.
        Option.bind (strip_quotes (CHR 0x22) raw) (\<lambda>stripped.
          if has_escape stripped then None else Some stripped)))"

definition parse_raw_string :: "shell_node \<Rightarrow> string option" where
  "parse_raw_string node =
     (if sn_kind node \<noteq> ''raw_string'' then None
      else Option.bind (sn_text node) (strip_quotes (CHR 0x27)))"

text \<open>The parts of a word, appended as long as each is there.\<close>

fun concat_options :: "('a \<Rightarrow> string option) \<Rightarrow> 'a list \<Rightarrow> string option" where
  "concat_options f [] = Some []"
| "concat_options f (x # xs) = Option.bind (f x) (\<lambda>s. map_option ((@) s) (concat_options f xs))"

lemma concat_options_cong [fundef_cong]:
  "xs = ys \<Longrightarrow> (\<And>x. x \<in> set ys \<Longrightarrow> f x = g x) \<Longrightarrow> concat_options f xs = concat_options g ys"
  by (induction xs arbitrary: ys) auto

definition non_empty :: "string \<Rightarrow> string option" where
  "non_empty s = (if s = [] then None else Some s)"

subsection \<open>Plain commands\<close>

definition plain_part :: "shell_node \<Rightarrow> string option" where
  "plain_part part =
     (if sn_kind part = ''word'' \<or> sn_kind part = ''number'' then sn_text part
      else if sn_kind part = ''string'' then parse_double_quoted_string part
      else if sn_kind part = ''raw_string'' then parse_raw_string part
      else None)"

definition plain_word :: "shell_node \<Rightarrow> string option" where
  "plain_word child =
     (if sn_kind child = ''command_name''
      then (case named_children child of
              [] \<Rightarrow> None
            | word_node # _ \<Rightarrow> if sn_kind word_node \<noteq> ''word'' then None else sn_text word_node)
      else if sn_kind child = ''concatenation''
      then Option.bind (concat_options plain_part (named_children child)) non_empty
      else plain_part child)"

text \<open>All words, or none when one is missing.\<close>

fun all_some :: "'a option list \<Rightarrow> 'a list option" where
  "all_some [] = Some []"
| "all_some (x # xs) = Option.bind x (\<lambda>a. map_option ((#) a) (all_some xs))"

definition parse_plain_command_from_node :: "shell_node \<Rightarrow> string list option" where
  "parse_plain_command_from_node cmd =
     (if sn_kind cmd \<noteq> ''command'' then None else all_some (map plain_word (named_children cmd)))"

definition ALLOWED_KINDS :: "string list" where
  "ALLOWED_KINDS = [''program'', ''list'', ''pipeline'', ''command'', ''command_name'', ''word'', ''string'',
     ''string_content'', ''raw_string'', ''number'', ''concatenation'']"

definition ALLOWED_PUNCT_TOKENS :: "string list" where
  "ALLOWED_PUNCT_TOKENS = [''&&'', ''||'', '';'', ''|'', [CHR 0x22], [CHR 0x27]]"

definition node_allowed :: "shell_node \<Rightarrow> bool" where
  "node_allowed node =
     (let kind = sn_kind node
      in if sn_named node
         then kind \<in> set ALLOWED_KINDS
           \<and> (kind = ''word'' \<or> kind = ''number'' \<longrightarrow> is_literal_word_or_number node)
         else if list_ex (\<lambda>c. c \<in> set ''&;|'') kind \<and> kind \<notin> set ALLOWED_PUNCT_TOKENS then False
         else kind \<in> set ALLOWED_PUNCT_TOKENS \<or> trim kind = [])"

lemma stack_size: "sum_list (map size (rev (sn_children n) @ stack)) < sum_list (map size (n # stack))" for n :: shell_node
proof -
  have "sum_list (map size (sn_children n)) < size n"
    by (cases n) (simp add: size_list_conv_sum_list less_Suc_eq_le sum_list_addf)
  then show ?thesis by (simp add: sum_list_rev rev_map [symmetric])
qed

text \<open>The walk over the tree: a stack, with the command nodes met so far.\<close>

function collect_commands :: "shell_node list \<Rightarrow> shell_node list \<Rightarrow> shell_node list option" where
  "collect_commands [] command_nodes = Some command_nodes"
| "collect_commands (node # stack) command_nodes =
     (if \<not> node_allowed node then None
      else collect_commands (rev (sn_children node) @ stack)
        (if sn_named node \<and> sn_kind node = ''command'' then command_nodes @ [node] else command_nodes))"
  by pat_completeness auto

termination
  by (relation "measure (\<lambda>(stack, _). sum_list (map size stack))") (use stack_size in auto)

definition try_parse_word_only_commands_sequence :: "shell_tree \<Rightarrow> string list list option" where
  "try_parse_word_only_commands_sequence tree =
     (if st_has_error tree then None
      else Option.bind (collect_commands [st_root tree] []) (\<lambda>command_nodes.
        all_some (map parse_plain_command_from_node (sort_key sn_start command_nodes))))"

definition parse_shell_script_into_commands :: "shell_parser \<Rightarrow> string \<Rightarrow> string list list option" where
  "parse_shell_script_into_commands sp script = Option.bind (sp script) try_parse_word_only_commands_sequence"

subsection \<open>Shells\<close>

datatype shell_type = ZshShell | BashShell | PowerShellShell | ShShell | CmdExeShell

definition path_file_stem :: "path \<Rightarrow> string option" where
  "path_file_stem p = map_option file_stem (last_normal p)"

lemma segment_length: "s \<in> set (segments p) \<Longrightarrow> length s \<le> length p \<and> (length s = length p \<longrightarrow> s = p)"
proof (induction p arbitrary: s)
  case (Cons c cs)
  obtain a as where seg: "segments cs = a # as" using segments_nonempty [of cs] by (cases "segments cs") auto
  then have a: "length a \<le> length cs \<and> (length a = length cs \<longrightarrow> a = cs)" using Cons.IH by simp
  have as: "length x \<le> length cs" if "x \<in> set as" for x using Cons.IH [of x] that seg by simp
  show ?case using Cons.prems seg a as by (fastforce split: if_splits)
qed simp

lemma last_normal_segment: "last_normal p = Some s \<Longrightarrow> s \<in> set (segments p)"
proof -
  assume a: "last_normal p = Some s"
  obtain x xs where seg: "segments p = x # xs" using segments_nonempty [of p] by (cases "segments p") auto
  have "Normal s \<in> set (components p)"
    using a by (auto simp: last_normal_def split: list.splits component.splits)
  then show ?thesis by (auto simp: components_def seg inner_components_def split: if_splits)
qed

lemma file_stem_length: "length (file_stem n) \<le> length n \<and> (length (file_stem n) = length n \<longrightarrow> file_stem n = n)"
proof (cases "CHR ''.'' \<in> set n")
  case True
  then have "dropWhile (\<lambda>c. c \<noteq> CHR ''.'') (rev n) \<noteq> []" by (simp add: dropWhile_eq_Nil_conv)
  then have "length (tl (dropWhile (\<lambda>c. c \<noteq> CHR ''.'') (rev n))) < length n"
    using length_dropWhile_le [of "\<lambda>c. c \<noteq> CHR ''.''" "rev n"]
    by (cases "dropWhile (\<lambda>c. c \<noteq> CHR ''.'') (rev n)") auto
  then show ?thesis by (simp add: file_stem_def Let_def)
qed (simp add: file_stem_def Let_def)

lemma path_file_stem_shorter:
  assumes "path_file_stem p = Some n" and "components n \<noteq> components p"
  shows "length n < length p"
proof -
  obtain s where s: "last_normal p = Some s" "n = file_stem s" using assms(1) by (auto simp: path_file_stem_def)
  have "length n \<le> length p \<and> (length n = length p \<longrightarrow> n = p)"
    using segment_length [OF last_normal_segment [OF s(1)]] file_stem_length [of s] s(2) by auto
  then show ?thesis using assms(2) by auto
qed

function detect_shell_type :: "path \<Rightarrow> shell_type option" where
  "detect_shell_type shell_path =
     (if shell_path = ''zsh'' then Some ZshShell
      else if shell_path = ''sh'' then Some ShShell
      else if shell_path = ''cmd'' then Some CmdExeShell
      else if shell_path = ''bash'' then Some BashShell
      else if shell_path = ''pwsh'' then Some PowerShellShell
      else if shell_path = ''powershell'' then Some PowerShellShell
      else case path_file_stem shell_path of
             None \<Rightarrow> None
           | Some shell_name \<Rightarrow>
               if components shell_name \<noteq> components shell_path then detect_shell_type shell_name else None)"
  by pat_completeness auto

termination
  by (relation "measure length") (auto intro: path_file_stem_shorter)

declare detect_shell_type.simps [simp del]

fun extract_bash_command :: "string list \<Rightarrow> (string \<times> string) option" where
  "extract_bash_command [shell, flag, script] =
     (if flag \<noteq> ''-lc'' \<and> flag \<noteq> ''-c'' then None
      else case detect_shell_type shell of
        Some ZshShell \<Rightarrow> Some (shell, script)
      | Some BashShell \<Rightarrow> Some (shell, script)
      | Some ShShell \<Rightarrow> Some (shell, script)
      | _ \<Rightarrow> None)"
| "extract_bash_command _ = None"

definition parse_shell_lc_plain_commands :: "shell_parser \<Rightarrow> string list \<Rightarrow> string list list option" where
  "parse_shell_lc_plain_commands sp command =
     Option.bind (extract_bash_command command) (\<lambda>(_, script). parse_shell_script_into_commands sp script)"

subsection \<open>Literal commands\<close>

function parse_literal_shell_word :: "shell_node \<Rightarrow> string option" where
  "parse_literal_shell_word node =
     (if (sn_kind node = ''word'' \<or> sn_kind node = ''number'') \<and> is_literal_word_or_number node then sn_text node
      else if sn_kind node = ''string'' then parse_double_quoted_string node
      else if sn_kind node = ''raw_string'' then parse_raw_string node
      else if sn_kind node = ''concatenation''
      then Option.bind (concat_options parse_literal_shell_word (named_children node)) non_empty
      else None)"
  by pat_completeness auto

termination
  by (relation "measure size") (auto dest: named_child_size)

declare parse_literal_shell_word.simps [simp del]

fun literal_words :: "bool \<Rightarrow> shell_node list \<Rightarrow> (string list \<times> bool) option" where
  "literal_words found [] = Some ([], found)"
| "literal_words found (child # children) =
     (if sn_kind child = ''command_name''
      then (case named_children child of
              [] \<Rightarrow> None
            | n # _ \<Rightarrow>
                (case parse_literal_shell_word n of
                   None \<Rightarrow> None
                 | Some w \<Rightarrow> map_option (\<lambda>(ws, f). (w # ws, f)) (literal_words True children)))
      else if found
      then (case parse_literal_shell_word child of
              Some w \<Rightarrow> map_option (\<lambda>(ws, f). (w # ws, f)) (literal_words found children)
            | None \<Rightarrow> literal_words found children)
      else literal_words found children)"

definition parse_literal_command_from_node :: "shell_node \<Rightarrow> string list option" where
  "parse_literal_command_from_node cmd =
     (if sn_kind cmd \<noteq> ''command'' then None
      else case literal_words False (named_children cmd) of
        Some (words, True) \<Rightarrow> Some words
      | _ \<Rightarrow> None)"

lemma named_stack_size:
  "sum_list (map size (rev (named_children n) @ stack)) < sum_list (map size (n # stack))" for n :: shell_node
proof -
  have "sum_list (map size (named_children n)) \<le> sum_list (map size (sn_children n))"
    unfolding named_children_def by (induction "sn_children n") (simp_all add: sum_list_filter_le_nat)
  then show ?thesis using stack_size [of n stack] by (simp add: sum_list_rev rev_map [symmetric])
qed

function collect_literal_commands :: "shell_node list \<Rightarrow> string list list" where
  "collect_literal_commands [] = []"
| "collect_literal_commands (node # stack) =
     (case (if sn_kind node = ''command'' then parse_literal_command_from_node node else None) of
        Some command \<Rightarrow> [command]
      | None \<Rightarrow> []) @ collect_literal_commands (rev (named_children node) @ stack)"
  by pat_completeness auto

termination
  by (relation "measure (\<lambda>stack. sum_list (map size stack))") (use named_stack_size in auto)

definition parse_shell_lc_literal_commands :: "shell_parser \<Rightarrow> string list \<Rightarrow> string list list option" where
  "parse_shell_lc_literal_commands sp command =
     Option.bind (extract_bash_command command) (\<lambda>(_, script).
       Option.bind (sp script) (\<lambda>tree.
         if st_has_error tree then None else Some (collect_literal_commands [st_root tree])))"

subsection \<open>Dangerous commands\<close>

datatype dangerous_match = ForcedRm | OtherDanger

definition MAX_DANGEROUS_COMMAND_WRAPPER_DEPTH :: nat where
  "MAX_DANGEROUS_COMMAND_WRAPPER_DEPTH = 8"

definition executable_name_lookup_key :: "string \<Rightarrow> string option" where
  "executable_name_lookup_key raw = last_normal raw"

definition rm_args_include_force_option :: "string list \<Rightarrow> bool" where
  "rm_args_include_force_option args =
     list_ex (\<lambda>arg. arg = ''--force''
       \<or> (case strip_prefix ''-'' arg of
            Some flags \<Rightarrow> \<not> starts_with flags ''-'' \<and> CHR ''f'' \<in> set flags
          | None \<Rightarrow> False)) (takeWhile (\<lambda>arg. arg \<noteq> ''--'') args)"

text \<open>What is left after the options and assignments of \<open>env\<close>.\<close>

fun env_command :: "string list \<Rightarrow> string list" where
  "env_command [] = []"
| "env_command (argument # rest) =
     (if argument = ''--'' then rest
      else if argument = ''-i'' \<or> argument = ''--ignore-environment''
        \<or> (case split_once (CHR ''='') argument of
             Some (name, _) \<Rightarrow> name \<noteq> [] \<and> \<not> starts_with name ''-''
           | None \<Rightarrow> False)
      then env_command rest
      else argument # rest)"

definition trap_command :: "string list \<Rightarrow> string list option" where
  "trap_command args =
     (case (case args of ''--'' # rest \<Rightarrow> rest | _ \<Rightarrow> args) of
        [] \<Rightarrow> None
      | action # _ \<Rightarrow> if starts_with action ''-'' then None else Some [''sh'', ''-c'', action])"

text \<open>The function is called again on what a command wraps: \<open>again\<close> is that call, one level deeper.\<close>

definition dangerous_command_match_for_exec ::
  "(string list \<Rightarrow> dangerous_match option) \<Rightarrow> string list \<Rightarrow> dangerous_match option" where
  "dangerous_command_match_for_exec again command =
     (case command of
        [] \<Rightarrow> None
      | cmd0 # args \<Rightarrow>
          (case executable_name_lookup_key cmd0 of
             None \<Rightarrow> None
           | Some name \<Rightarrow>
               if name = ''rm'' \<and> rm_args_include_force_option args then Some ForcedRm
               else if name = ''sudo'' then again args
               else if name = ''env'' then again (env_command args)
               else if name = ''trap'' then Option.bind (trap_command args) again
               else None))"

fun find_map :: "('a \<Rightarrow> 'b option) \<Rightarrow> 'a list \<Rightarrow> 'b option" where
  "find_map f [] = None"
| "find_map f (x # xs) = (case f x of Some y \<Rightarrow> Some y | None \<Rightarrow> find_map f xs)"

function dangerous_command_match_with_depth ::
  "shell_parser \<Rightarrow> string list \<Rightarrow> nat \<Rightarrow> dangerous_match option" where
  "dangerous_command_match_with_depth sp command wrapper_depth =
     (if wrapper_depth > MAX_DANGEROUS_COMMAND_WRAPPER_DEPTH then Some OtherDanger
      else
        (let again = (\<lambda>c. dangerous_command_match_with_depth sp c (wrapper_depth + 1))
         in case dangerous_command_match_for_exec again command of
              Some d \<Rightarrow> Some d
            | None \<Rightarrow> Option.bind (parse_shell_lc_literal_commands sp command) (find_map again)))"
  by pat_completeness auto

termination
  by (relation "measure (\<lambda>(_, _, d). Suc MAX_DANGEROUS_COMMAND_WRAPPER_DEPTH - d)") auto

declare dangerous_command_match_with_depth.simps [simp del]

definition dangerous_command_match :: "shell_parser \<Rightarrow> string list \<Rightarrow> dangerous_match option" where
  "dangerous_command_match sp command = dangerous_command_match_with_depth sp command 0"

end
