(* ===== verification/Exec_Approval.thy ===== *)
theory Exec_Approval
  imports Exec_Parser Approval_Gate Shell_Words Permissions
begin

text \<open>
  Whether a command may run, has to be approved, or is refused: the exec policy manager of
  \<open>core/src/exec_policy.rs\<close>, with \<open>core/src/exec_policy/model_policy.rs\<close> and
  \<open>core/src/exec_policy/executable_identity.rs\<close>, on Unix, and the amendments of the policy that approvals lead
  to. The syntax tree of a script, \<open>shlex\<close> and \<open>serde_json\<close> are arguments.
\<close>

definition PROMPT_CONFLICT_REASON :: string where
  "PROMPT_CONFLICT_REASON = ''approval required by policy, but AskForApproval is set to Never''"

definition REJECT_SANDBOX_APPROVAL_REASON :: string where
  "REJECT_SANDBOX_APPROVAL_REASON = ''approval required by policy, but AskForApproval::Granular.sandbox_approval is false''"

definition REJECT_RULES_APPROVAL_REASON :: string where
  "REJECT_RULES_APPROVAL_REASON = ''approval required by policy rule, but AskForApproval::Granular.rules is false''"

definition BANNED_PREFIX_SUGGESTIONS :: "string list list" where
  "BANNED_PREFIX_SUGGESTIONS = [[''/bin/bash''], [''/bin/bash'', ''-c''], [''/bin/bash'', ''-lc''], [''/bin/sh''],
     [''/bin/sh'', ''-c''], [''/bin/sh'', ''-lc''], [''/bin/zsh''], [''/bin/zsh'', ''-c''],
     [''/bin/zsh'', ''-lc''], [''Rscript''], [''bash''], [''bash'', ''-c''], [''bash'', ''-lc''],
     [''bun''], [''bun'', ''-e''], [''bun'', ''run''], [''cmd''], [''cmd'', ''/c''], [''cmd'', ''/k''],
     [''cmd.exe''], [''cmd.exe'', ''/c''], [''cmd.exe'', ''/k''], [''dash''], [''dash'', ''-c''],
     [''deno''], [''deno'', ''eval''], [''env''], [''fish''], [''fish'', ''-c''], [''git''],
     [''julia''], [''julia'', ''-e''], [''ksh''], [''ksh'', ''-c''], [''lua''], [''lua'', ''-e''],
     [''node''], [''node'', ''-e''], [''nodejs''], [''nodejs'', ''-e''], [''npm'', ''run''],
     [''osascript''], [''perl''], [''perl'', ''-e''], [''php''], [''php'', ''-r''], [''pnpm'', ''run''],
     [''powershell''], [''powershell'', ''-Command''], [''powershell'', ''-EncodedCommand''],
     [''powershell'', ''-File''], [''powershell'', ''-c''], [''powershell.exe''],
     [''powershell.exe'', ''-Command''], [''powershell.exe'', ''-EncodedCommand''],
     [''powershell.exe'', ''-File''], [''powershell.exe'', ''-c''], [''pwsh''],
     [''pwsh'', ''-Command''], [''pwsh'', ''-EncodedCommand''], [''pwsh'', ''-File''],
     [''pwsh'', ''-c''], [''pwsh'', ''-e''], [''pwsh'', ''-ec''], [''pwsh'', ''-f''], [''py''],
     [''py'', ''-3''], [''pypy''], [''pypy3''], [''python''], [''python'', ''-''], [''python'', ''-c''],
     [''python3''], [''python3'', ''-''], [''python3'', ''-c''], [''pythonw''], [''pyw''], [''rm''],
     [''ruby''], [''ruby'', ''-e''], [''sh''], [''sh'', ''-c''], [''sh'', ''-lc''], [''sudo''],
     [''yarn'', ''run''], [''zsh''], [''zsh'', ''-c''], [''zsh'', ''-lc'']]"

datatype exec_requirement =
    SkipExec bool "string list option"
  | NeedsExecApproval "string option" "string list option"
  | ForbidExec string

datatype allow_prefix_rules = HonorRules | IgnoreForCyberModel

record exec_request =
  er_command :: "string list"
  er_approval_policy :: approval_policy
  er_permission_profile :: permission_profile
  er_environment_policy :: "policy option"
  er_sandbox_permissions :: sandbox_permissions
  er_prefix_rule :: "string list option"
  er_allow_prefix_rules :: allow_prefix_rules

record exec_lib =
  xl_parser :: shell_parser
  xl_path_env :: path_env
  xl_shlex_join :: "string list \<Rightarrow> string option"

fun is_policy_match :: "rule_match \<Rightarrow> bool" where
  "is_policy_match (PrefixRuleMatch _ _ _ _) = True"
| "is_policy_match (HeuristicsRuleMatch _ _) = False"

definition prompt_is_rejected_by_policy :: "approval_policy \<Rightarrow> bool \<Rightarrow> string option" where
  "prompt_is_rejected_by_policy approval_policy prompt_is_rule =
     (case approval_policy of
        AskNever \<Rightarrow> Some PROMPT_CONFLICT_REASON
      | AskOnRequest \<Rightarrow> None
      | AskUnlessTrusted \<Rightarrow> None
      | AskGranular g \<Rightarrow>
          if prompt_is_rule then (if \<not> ga_rules g then Some REJECT_RULES_APPROVAL_REASON else None)
          else if \<not> ga_sandbox_approval g then Some REJECT_SANDBOX_APPROVAL_REASON else None)"

subsection \<open>The policy in force\<close>

definition current_for_prefix_rules :: "policy \<Rightarrow> allow_prefix_rules \<Rightarrow> policy" where
  "current_for_prefix_rules pol allow =
     (if allow = HonorRules then pol
      else pol\<lparr>pol_rules := fold (\<lambda>(program, rule). mm_insert program rule)
        (concat (map (\<lambda>(program, rules). map (Pair program) (filter (\<lambda>r. pr_decision r \<noteq> DecAllow) rules)) (pol_rules pol)))
        []\<rparr>)"

definition current_for_environment :: "policy \<Rightarrow> policy option \<Rightarrow> allow_prefix_rules \<Rightarrow> policy" where
  "current_for_environment pol environment_policy allow =
     (let policy = current_for_prefix_rules pol allow
      in case environment_policy of
           Some overlay \<Rightarrow> merge_overlay policy overlay
         | None \<Rightarrow> policy)"

subsection \<open>Commands without a rule\<close>

definition requests_sandbox_override :: "sandbox_permissions \<Rightarrow> bool" where
  "requests_sandbox_override p \<longleftrightarrow> p \<noteq> UseDefault"

definition restricted_decision :: "permission_profile \<Rightarrow> sandbox_permissions \<Rightarrow> decision" where
  "restricted_decision profile sandbox_permissions =
     (case pol_kind (file_system_sandbox_policy profile) of
        Restricted \<Rightarrow> if requests_sandbox_override sandbox_permissions then DecPrompt else DecAllow
      | _ \<Rightarrow> DecAllow)"

definition render_decision_for_unmatched_command ::
  "shell_parser \<Rightarrow> approval_policy \<Rightarrow> permission_profile \<Rightarrow> sandbox_permissions \<Rightarrow> string list \<Rightarrow> decision" where
  "render_decision_for_unmatched_command sp approval_policy profile sandbox_permissions command =
     (if dangerous_command_match sp command \<noteq> None
      then (case approval_policy of AskNever \<Rightarrow> DecForbidden | _ \<Rightarrow> DecPrompt)
      else case approval_policy of
             AskNever \<Rightarrow> DecAllow
           | AskUnlessTrusted \<Rightarrow> DecPrompt
           | AskOnRequest \<Rightarrow> restricted_decision profile sandbox_permissions
           | AskGranular _ \<Rightarrow> restricted_decision profile sandbox_permissions)"

definition commands_for_exec_policy :: "shell_parser \<Rightarrow> string list \<Rightarrow> string list list" where
  "commands_for_exec_policy sp command =
     (case parse_shell_lc_plain_commands sp command of
        Some (c # cs) \<Rightarrow> c # cs
      | _ \<Rightarrow> [command])"

subsection \<open>Amendments\<close>

definition try_derive_execpolicy_amendment_for_prompt_rules :: "rule_match list \<Rightarrow> string list option" where
  "try_derive_execpolicy_amendment_for_prompt_rules ms =
     (if list_ex (\<lambda>m. is_policy_match m \<and> match_decision m = DecPrompt) ms then None
      else find_map (\<lambda>m. case m of HeuristicsRuleMatch c DecPrompt \<Rightarrow> Some c | _ \<Rightarrow> None) ms)"

definition try_derive_execpolicy_amendment_for_allow_rules :: "rule_match list \<Rightarrow> string list option" where
  "try_derive_execpolicy_amendment_for_allow_rules ms =
     (if list_ex is_policy_match ms then None
      else find_map (\<lambda>m. case m of HeuristicsRuleMatch c DecAllow \<Rightarrow> Some c | _ \<Rightarrow> None) ms)"

definition prefix_rule_would_approve_all_commands ::
  "path_env \<Rightarrow> policy \<Rightarrow> string list \<Rightarrow> string list list \<Rightarrow> (string list \<Rightarrow> decision) \<Rightarrow> bool" where
  "prefix_rule_would_approve_all_commands pe pol prefix_rule commands fallback =
     (case add_prefix_rule prefix_rule DecAllow pol of
        Inl _ \<Rightarrow> False
      | Inr pol' \<Rightarrow>
          list_all (\<lambda>c. map_option ev_decision (check_with_options pe pol' c fallback True) = Some DecAllow) commands)"

definition derive_requested_execpolicy_amendment_from_prefix_rule ::
  "path_env \<Rightarrow> string list option \<Rightarrow> rule_match list \<Rightarrow> policy \<Rightarrow> string list list \<Rightarrow> (string list \<Rightarrow> decision)
     \<Rightarrow> string list option" where
  "derive_requested_execpolicy_amendment_from_prefix_rule pe prefix_rule ms pol commands fallback =
     (case prefix_rule of
        None \<Rightarrow> None
      | Some given \<Rightarrow>
          if given = [] then None
          else if given \<in> set BANNED_PREFIX_SUGGESTIONS then None
          else if list_ex is_policy_match ms then None
          else if prefix_rule_would_approve_all_commands pe pol given commands fallback then Some given
          else None)"

subsection \<open>Reasons\<close>

fun join_space :: "string list \<Rightarrow> string" where
  "join_space [] = []"
| "join_space [s] = s"
| "join_space (s # t # ss) = s @ '' '' @ join_space (t # ss)"

definition render_shlex_command :: "exec_lib \<Rightarrow> string list \<Rightarrow> string" where
  "render_shlex_command xl args = (case xl_shlex_join xl args of Some s \<Rightarrow> s | None \<Rightarrow> join_space args)"

definition dangerous_command_match_for_heuristics ::
  "shell_parser \<Rightarrow> evaluation \<Rightarrow> decision \<Rightarrow> dangerous_match option" where
  "dangerous_command_match_for_heuristics sp ev d =
     find_map (\<lambda>m. case m of
       HeuristicsRuleMatch command matched_decision \<Rightarrow>
         if matched_decision = d then dangerous_command_match sp command else None
     | _ \<Rightarrow> None) (ev_matched_rules ev)"

fun dangerous_command_rejection_reason :: "dangerous_match \<Rightarrow> string" where
  "dangerous_command_rejection_reason ForcedRm = ''rm -f style commands are not permitted. Use a safer approach''"
| "dangerous_command_rejection_reason OtherDanger = ''blocked by policy''"

fun derive_rejected_prompt_reason :: "string \<Rightarrow> dangerous_match option \<Rightarrow> string" where
  "derive_rejected_prompt_reason fallback_reason (Some ForcedRm) = dangerous_command_rejection_reason ForcedRm"
| "derive_rejected_prompt_reason fallback_reason _ = fallback_reason"

definition rules_with_decision :: "decision \<Rightarrow> rule_match list \<Rightarrow> (string list \<times> string option) list" where
  "rules_with_decision d ms =
     List.map_filter (\<lambda>m. case m of
       PrefixRuleMatch matched_prefix d' _ justification \<Rightarrow> if d' = d then Some (matched_prefix, justification) else None
     | _ \<Rightarrow> None) ms"

definition derive_prompt_reason :: "exec_lib \<Rightarrow> string list \<Rightarrow> evaluation \<Rightarrow> string option" where
  "derive_prompt_reason xl command_args ev =
     (let command = render_shlex_command xl command_args
      in case max_by_key (\<lambda>(matched_prefix, _). length matched_prefix) (rules_with_decision DecPrompt (ev_matched_rules ev)) of
           Some (_, Some justification) \<Rightarrow> Some ([CHR 0x60] @ command @ [CHR 0x60] @ '' requires approval: '' @ justification)
         | Some (_, None) \<Rightarrow> Some ([CHR 0x60] @ command @ [CHR 0x60] @ '' requires approval by policy'')
         | None \<Rightarrow> None)"

definition derive_forbidden_reason :: "exec_lib \<Rightarrow> string list \<Rightarrow> evaluation \<Rightarrow> dangerous_match option \<Rightarrow> string" where
  "derive_forbidden_reason xl command_args ev dangerous =
     (let command = [CHR 0x60] @ render_shlex_command xl command_args @ [CHR 0x60] @ '' rejected: ''
      in case max_by_key (\<lambda>(matched_prefix, _). length matched_prefix) (rules_with_decision DecForbidden (ev_matched_rules ev)) of
           Some (_, Some justification) \<Rightarrow> command @ justification
         | Some (matched_prefix, None) \<Rightarrow>
             command @ ''policy forbids commands starting with '' @ [CHR 0x60] @ render_shlex_command xl matched_prefix @ [CHR 0x60]
         | None \<Rightarrow>
             (case dangerous of
                Some d \<Rightarrow> command @ dangerous_command_rejection_reason d
              | None \<Rightarrow> command @ ''blocked by policy''))"

subsection \<open>The requirement\<close>

definition exec_policy_fallback :: "shell_parser \<Rightarrow> exec_request \<Rightarrow> string list \<Rightarrow> decision" where
  "exec_policy_fallback sp req =
     render_decision_for_unmatched_command sp (er_approval_policy req) (er_permission_profile req) (er_sandbox_permissions req)"

text \<open>\<open>None\<close> is the panic of an evaluation without commands.\<close>

definition create_exec_approval_requirement_for_parsed_commands ::
  "exec_lib \<Rightarrow> policy \<Rightarrow> exec_request \<Rightarrow> string list list \<Rightarrow> exec_requirement option" where
  "create_exec_approval_requirement_for_parsed_commands xl pol req commands =
     (let exec_policy = current_for_environment pol (er_environment_policy req) (er_allow_prefix_rules req);
          auto_amendment_allowed = (er_allow_prefix_rules req = HonorRules);
          sp = xl_parser xl;
          pe = xl_path_env xl;
          fallback = exec_policy_fallback sp req
      in map_option (\<lambda>ev.
           let requested_amendment =
                 (if auto_amendment_allowed
                  then derive_requested_execpolicy_amendment_from_prefix_rule pe (er_prefix_rule req) (ev_matched_rules ev)
                    exec_policy commands fallback
                  else None)
           in case ev_decision ev of
                DecForbidden \<Rightarrow>
                  ForbidExec (derive_forbidden_reason xl (er_command req) ev
                    (dangerous_command_match_for_heuristics sp ev DecForbidden))
              | DecPrompt \<Rightarrow>
                  (let prompt_is_rule = list_ex (\<lambda>m. is_policy_match m \<and> match_decision m = DecPrompt) (ev_matched_rules ev)
                   in case prompt_is_rejected_by_policy (er_approval_policy req) prompt_is_rule of
                        Some reason \<Rightarrow>
                          ForbidExec (if prompt_is_rule then reason
                            else derive_rejected_prompt_reason reason (dangerous_command_match_for_heuristics sp ev DecPrompt))
                      | None \<Rightarrow>
                          NeedsExecApproval (derive_prompt_reason xl (er_command req) ev)
                            (case requested_amendment of
                               Some a \<Rightarrow> Some a
                             | None \<Rightarrow>
                                 if auto_amendment_allowed
                                 then try_derive_execpolicy_amendment_for_prompt_rules (ev_matched_rules ev)
                                 else None))
              | DecAllow \<Rightarrow>
                  SkipExec
                    (list_all (\<lambda>command. list_ex (\<lambda>m. is_policy_match m \<and> match_decision m = DecAllow)
                      (matches_for_command_with_options pe exec_policy command None True)) commands)
                    (if auto_amendment_allowed
                     then try_derive_execpolicy_amendment_for_allow_rules (ev_matched_rules ev) else None))
         (check_multiple_with_options pe exec_policy commands fallback True))"

definition create_exec_approval_requirement_for_command ::
  "exec_lib \<Rightarrow> policy \<Rightarrow> exec_request \<Rightarrow> exec_requirement option" where
  "create_exec_approval_requirement_for_command xl pol req =
     create_exec_approval_requirement_for_parsed_commands xl pol req (commands_for_exec_policy (xl_parser xl) (er_command req))"

text \<open>\<open>zsh_fork\<close> says that the shell is started by a fork of the configured one.\<close>

definition shell_approval_command :: "string list \<Rightarrow> path \<Rightarrow> bool \<Rightarrow> string list" where
  "shell_approval_command command configured_shell zsh_fork =
     (case command of
        [] \<Rightarrow> command
      | executable # _ \<Rightarrow>
          (let is_system_shell =
             (let cs = components executable
              in cs \<noteq> [] \<and> cs \<noteq> [RootDir]
                \<and> (butlast cs = components ''/bin'' \<or> butlast cs = components ''/usr/bin''))
           in if components executable = components configured_shell \<or> is_system_shell \<or> zsh_fork then command
              else [executable]))"

definition create_exec_approval_requirement_for_shell ::
  "exec_lib \<Rightarrow> policy \<Rightarrow> exec_request \<Rightarrow> path \<Rightarrow> bool \<Rightarrow> exec_requirement option" where
  "create_exec_approval_requirement_for_shell xl pol req configured_shell zsh_fork =
     (let command = er_command req;
          executable = shell_approval_command command configured_shell zsh_fork
      in if length executable = length command then create_exec_approval_requirement_for_command xl pol req
         else create_exec_approval_requirement_for_parsed_commands xl pol (req\<lparr>er_command := executable\<rparr>)
           (executable # commands_for_exec_policy (xl_parser xl) command))"

subsection \<open>Updates\<close>

definition default_policy_path :: "path \<Rightarrow> path" where
  "default_policy_path codex_home = path_join (path_join codex_home ''rules'') ''default.rules''"

datatype exec_policy_update_error = AppendRule path amend_error | AddRule policy_error

definition append_amendment_and_update ::
  "(string \<Rightarrow> string + string) \<Rightarrow> path_env \<Rightarrow> path \<Rightarrow> string list \<Rightarrow> policy \<Rightarrow> fs
     \<Rightarrow> (exec_policy_update_error + unit) \<times> policy \<times> fs" where
  "append_amendment_and_update json_str pe codex_home command pol f =
     (let policy_path = default_policy_path codex_home
      in case blocking_append_allow_prefix_rule json_str policy_path command f of
           (Inl err, f) \<Rightarrow> (Inl (AppendRule policy_path err), pol, f)
         | (Inr _, f) \<Rightarrow>
             (let already_allowed =
                (case check_multiple_with_options pe pol [command] (\<lambda>_. DecForbidden) True of
                   Some ev \<Rightarrow> ev_decision ev = DecAllow
                     \<and> list_ex (\<lambda>m. is_policy_match m \<and> match_decision m = DecAllow) (ev_matched_rules ev)
                 | None \<Rightarrow> False)
              in if already_allowed then (Inr (), pol, f)
                 else (case add_prefix_rule command DecAllow pol of
                         Inl err \<Rightarrow> (Inl (AddRule err), pol, f)
                       | Inr pol' \<Rightarrow> (Inr (), pol', f))))"

definition append_network_rule_and_update ::
  "(policy_error \<Rightarrow> string) \<Rightarrow> (string \<Rightarrow> string + string) \<Rightarrow> path \<Rightarrow> string \<Rightarrow> network_rule_protocol \<Rightarrow> decision
     \<Rightarrow> string option \<Rightarrow> policy \<Rightarrow> fs \<Rightarrow> (exec_policy_update_error + unit) \<times> policy \<times> fs" where
  "append_network_rule_and_update error_text json_str codex_home host protocol d justification pol f =
     (let policy_path = default_policy_path codex_home
      in case blocking_append_network_rule error_text json_str policy_path host protocol d justification f of
           (Inl err, f) \<Rightarrow> (Inl (AppendRule policy_path err), pol, f)
         | (Inr _, f) \<Rightarrow>
             (case add_network_rule host protocol d justification pol of
                Inl err \<Rightarrow> (Inl (AddRule err), pol, f)
              | Inr pol' \<Rightarrow> (Inr (), pol', f)))"

end
