(* ===== verification/Exec_Approval_Properties.thy ===== *)
theory Exec_Approval_Properties
  imports Exec_Approval "HOL-Library.Multiset"
begin

text \<open>
  Which commands run without asking, what a script may hide, and what an accepted amendment changes.
\<close>

subsection \<open>Samples\<close>

text \<open>The tree of the script \<open>ls\<close>, a parser that knows that script only, and requests without a sandbox.\<close>

definition ls_tree :: shell_tree where
  "ls_tree = \<lparr>st_root = ShellNode ''program'' True 0 (Some ''ls'')
      [ShellNode ''command'' True 0 (Some ''ls'')
        [ShellNode ''command_name'' True 0 (Some ''ls'') [ShellNode ''word'' True 0 (Some ''ls'') []]]],
     st_has_error = False\<rparr>"

definition ls_lib :: exec_lib where
  "ls_lib = \<lparr>xl_parser = (\<lambda>script. if script = ''ls'' then Some ls_tree else None),
     xl_path_env = \<lparr>pe_home = Some ''/home/u'', pe_cwd = Some ''/w''\<rparr>, xl_shlex_join = (\<lambda>_. None)\<rparr>"

definition plain_request :: "approval_policy \<Rightarrow> string list \<Rightarrow> exec_request" where
  "plain_request approval command = \<lparr>er_command = command, er_approval_policy = approval, er_permission_profile = DisabledProfile,
     er_environment_policy = None, er_sandbox_permissions = UseDefault, er_prefix_rule = None,
     er_allow_prefix_rules = HonorRules\<rparr>"

definition empty_fs :: fs where
  "empty_fs = \<lparr>fs_files = (\<lambda>_. None), fs_ops = 0, fs_fault = (\<lambda>_. None)\<rparr>"

subsection \<open>Rules and the fallback\<close>

abbreviation rule_hits :: "exec_lib \<Rightarrow> policy \<Rightarrow> string list \<Rightarrow> rule_match list" where
  "rule_hits xl pol c \<equiv> matches_for_command_with_options (xl_path_env xl) pol c None True"

abbreviation policy_for :: "policy \<Rightarrow> exec_request \<Rightarrow> policy" where
  "policy_for pol req \<equiv> current_for_environment pol (er_environment_policy req) (er_allow_prefix_rules req)"

lemma matches_with_fallback:
  "matches_for_command_with_options pe pol c (Some fb) rh =
     (case matches_for_command_with_options pe pol c None rh of [] \<Rightarrow> [HeuristicsRuleMatch c (fb c)] | ms \<Rightarrow> ms)"
  by (auto simp: matches_for_command_with_options_def Let_def split: list.split)

lemma rule_matches_policy: "rule_matches r c = Some m \<Longrightarrow> is_policy_match m"
  by (auto simp: rule_matches_def)

lemma rule_hits_policy: "m \<in> set (matches_for_command_with_options pe pol c None rh) \<Longrightarrow> is_policy_match m"
proof (cases c)
  case Nil
  moreover assume "m \<in> set (matches_for_command_with_options pe pol c None rh)"
  ultimately show ?thesis
    by (auto simp: matches_for_command_with_options_def match_exact_rules_def match_host_executable_rules_def split: if_splits)
next
  case (Cons x xs)
  assume "m \<in> set (matches_for_command_with_options pe pol c None rh)"
  then have "(\<exists>ms. match_exact_rules pol c = Some ms \<and> m \<in> set ms) \<or> m \<in> set (match_host_executable_rules pe pol c)"
    by (rule matches_from)
  then show ?thesis
  proof
    assume "\<exists>ms. match_exact_rules pol c = Some ms \<and> m \<in> set ms"
    then show ?thesis using exact_match_from rule_matches_policy by blast
  next
    assume "m \<in> set (match_host_executable_rules pe pol c)"
    then obtain r m' b p where "rule_matches r (b # xs) = Some m'" "m = with_resolved_program m' p"
      using host_match_from [of m pe pol x xs] Cons by blast
    then show ?thesis using rule_matches_policy [of r "b # xs" m'] by (cases m') auto
  qed
qed

abbreviation hits :: "exec_lib \<Rightarrow> policy \<Rightarrow> (string list \<Rightarrow> decision) \<Rightarrow> string list \<Rightarrow> rule_match list" where
  "hits xl pol fb c \<equiv> matches_for_command_with_options (xl_path_env xl) pol c (Some fb) True"

lemma check_multiple_spec:
  "check_multiple_with_options pe pol commands fb rh = Some ev \<longleftrightarrow>
     commands \<noteq> [] \<and> ev_matched_rules ev = concat (map (\<lambda>c. matches_for_command_with_options pe pol c (Some fb) rh) commands)
     \<and> ev_decision ev \<in> match_decision ` set (ev_matched_rules ev)
     \<and> (\<forall>m\<in>set (ev_matched_rules ev). match_decision m \<le> ev_decision ev)"
proof -
  have "concat (map (\<lambda>c. matches_for_command_with_options pe pol c (Some fb) rh) commands) = [] \<longleftrightarrow> commands = []"
    using matches_nonempty by (cases commands) auto
  then show ?thesis unfolding check_multiple_with_options_def from_matches_spec by metis
qed

lemma check_multiple_total:
  "commands \<noteq> [] \<Longrightarrow> \<exists>ev. check_multiple_with_options pe pol commands fb rh = Some ev"
proof -
  assume "commands \<noteq> []"
  then have "concat (map (\<lambda>c. matches_for_command_with_options pe pol c (Some fb) rh) commands) \<noteq> []"
    using matches_nonempty by (cases commands) auto
  then show ?thesis
    by (cases "map match_decision (concat (map (\<lambda>c. matches_for_command_with_options pe pol c (Some fb) rh) commands))")
      (auto simp: check_multiple_with_options_def from_matches_def)
qed

text \<open>The requirement is a function of the strictest decision.\<close>

lemma requirement_decision:
  assumes "create_exec_approval_requirement_for_parsed_commands xl pol req commands = Some r"
  obtains ev where "check_multiple_with_options (xl_path_env xl) (policy_for pol req) commands
      (exec_policy_fallback (xl_parser xl) req) True = Some ev"
    and "ev_decision ev = DecAllow \<longleftrightarrow> (\<exists>b a. r = SkipExec b a)"
    and "ev_decision ev = DecForbidden \<Longrightarrow> \<exists>reason. r = ForbidExec reason"
    and "\<And>b a. r = SkipExec b a \<Longrightarrow> b \<longleftrightarrow> (\<forall>c\<in>set commands. \<exists>m\<in>set (rule_hits xl (policy_for pol req) c). match_decision m = DecAllow)"
proof -
  obtain ev where ev: "check_multiple_with_options (xl_path_env xl) (policy_for pol req) commands
      (exec_policy_fallback (xl_parser xl) req) True = Some ev"
    using assms by (auto simp: create_exec_approval_requirement_for_parsed_commands_def Let_def)
  show thesis
  proof (rule that [OF ev])
    show "ev_decision ev = DecAllow \<longleftrightarrow> (\<exists>b a. r = SkipExec b a)" and "ev_decision ev = DecForbidden \<Longrightarrow> \<exists>reason. r = ForbidExec reason"
      using assms ev
      by (cases "ev_decision ev";
          auto simp: create_exec_approval_requirement_for_parsed_commands_def Let_def split: option.splits)+
    show "b \<longleftrightarrow> (\<forall>c\<in>set commands. \<exists>m\<in>set (rule_hits xl (policy_for pol req) c). match_decision m = DecAllow)"
      if r: "r = SkipExec b a" for b a
    proof -
      have "b \<longleftrightarrow> list_all (\<lambda>c. list_ex (\<lambda>m. is_policy_match m \<and> match_decision m = DecAllow) (rule_hits xl (policy_for pol req) c)) commands"
        using assms ev r
        by (cases "ev_decision ev")
          (auto simp: create_exec_approval_requirement_for_parsed_commands_def Let_def split: option.splits)
      then show ?thesis using rule_hits_policy by (fastforce simp: list_all_iff list_ex_iff)
    qed
  qed
qed

lemma skip_all_allowed:
  assumes "create_exec_approval_requirement_for_parsed_commands xl pol req commands = Some (SkipExec b a)" and "c \<in> set commands"
    and "m \<in> set (hits xl (policy_for pol req) (exec_policy_fallback (xl_parser xl) req) c)"
  shows "match_decision m = DecAllow"
proof (rule requirement_decision [OF assms(1)])
  fix ev
  assume ev: "check_multiple_with_options (xl_path_env xl) (policy_for pol req) commands (exec_policy_fallback (xl_parser xl) req) True = Some ev"
    and d: "ev_decision ev = DecAllow \<longleftrightarrow> (\<exists>b' a'. SkipExec b a = SkipExec b' a')"
  have "m \<in> set (ev_matched_rules ev)" using ev assms(2,3) by (auto simp: check_multiple_spec)
  then have "match_decision m \<le> DecAllow" using ev d by (auto simp: check_multiple_spec)
  then show ?thesis by (cases "match_decision m") (simp_all add: less_eq_decision_def)
qed

lemma skip_unmatched:
  assumes "create_exec_approval_requirement_for_parsed_commands xl pol req commands = Some (SkipExec b a)" and "c \<in> set commands"
    and "rule_hits xl (policy_for pol req) c = []"
  shows "exec_policy_fallback (xl_parser xl) req c = DecAllow"
  using skip_all_allowed [OF assms(1,2)] assms(3) by (auto simp: matches_with_fallback)

lemma fallback_allow:
  assumes "exec_policy_fallback sp req c = DecAllow"
  shows "dangerous_command_match sp c = None \<and> er_approval_policy req \<noteq> AskUnlessTrusted
    \<and> (pol_kind (file_system_sandbox_policy (er_permission_profile req)) = Restricted
        \<and> er_sandbox_permissions req \<noteq> UseDefault \<longrightarrow> er_approval_policy req = AskNever)"
  using assms
  by (auto simp: exec_policy_fallback_def render_decision_for_unmatched_command_def restricted_decision_def
      requests_sandbox_override_def split: if_splits approval_policy.splits sandbox_kind.splits)

text \<open>C28. A command runs without asking only if every part of it may: when no approval is required, every rule
  that matches one of the commands of a script allows it; a command that no rule matches is not dangerous, the
  approval policy is not to ask about everything untrusted, and if it asks to leave a restricted sandbox then
  only because questions are switched off. The sandbox is skipped only when a rule allows every single
  command.\<close>

theorem unasked_command_is_allowed:
  assumes "create_exec_approval_requirement_for_parsed_commands xl pol req commands = Some (SkipExec bypass a)"
    and "c \<in> set commands"
  shows "(\<forall>m\<in>set (rule_hits xl (policy_for pol req) c). match_decision m = DecAllow)
    \<and> (bypass \<longrightarrow> rule_hits xl (policy_for pol req) c \<noteq> [])
    \<and> (rule_hits xl (policy_for pol req) c = [] \<longrightarrow>
        dangerous_command_match (xl_parser xl) c = None \<and> er_approval_policy req \<noteq> AskUnlessTrusted
        \<and> (pol_kind (file_system_sandbox_policy (er_permission_profile req)) = Restricted
            \<and> er_sandbox_permissions req \<noteq> UseDefault \<longrightarrow> er_approval_policy req = AskNever))"
proof (intro conjI impI ballI)
  show "match_decision m = DecAllow" if "m \<in> set (rule_hits xl (policy_for pol req) c)" for m
    using skip_all_allowed [OF assms, of m] that
    by (cases "rule_hits xl (policy_for pol req) c") (auto simp: matches_with_fallback)
  show "rule_hits xl (policy_for pol req) c \<noteq> []" if "bypass"
    using requirement_decision [OF assms(1)] assms(2) that by (metis empty_iff list.set(1))
qed (use fallback_allow [OF skip_unmatched [OF assms]] in auto)

theorem unasked_command_is_allowed_witness:
  "rule_hits ls_lib policy_empty [''ls''] = [] \<and> dangerous_command_match (xl_parser ls_lib) [''ls''] = None"
proof -
  have "create_exec_approval_requirement_for_parsed_commands ls_lib policy_empty (plain_request AskOnRequest [''ls'']) [[''ls'']]
      = Some (SkipExec False (Some [''ls'']))"
    and "rule_hits ls_lib policy_empty [''ls''] = []"
    by code_simp+
  moreover have "policy_for policy_empty (plain_request AskOnRequest [''ls'']) = policy_empty"
    by (simp add: current_for_environment_def current_for_prefix_rules_def plain_request_def)
  ultimately show ?thesis using unasked_command_is_allowed [of ls_lib policy_empty _ "[[''ls'']]" _ _ "[''ls'']"] by simp
qed

subsection \<open>Executables that are not shells\<close>

lemma requirement_total:
  "commands \<noteq> [] \<Longrightarrow> \<exists>r. create_exec_approval_requirement_for_parsed_commands xl pol req commands = Some r"
  using check_multiple_total [of commands "xl_path_env xl" "policy_for pol req" "exec_policy_fallback (xl_parser xl) req" True]
  by (auto simp: create_exec_approval_requirement_for_parsed_commands_def Let_def)

lemma all_allowed_skip:
  assumes "commands \<noteq> []"
    and "\<And>c m. c \<in> set commands \<Longrightarrow> m \<in> set (hits xl (policy_for pol req) (exec_policy_fallback (xl_parser xl) req) c)
      \<Longrightarrow> match_decision m = DecAllow"
  shows "\<exists>b a. create_exec_approval_requirement_for_parsed_commands xl pol req commands = Some (SkipExec b a)"
proof -
  obtain r where r: "create_exec_approval_requirement_for_parsed_commands xl pol req commands = Some r"
    using requirement_total [OF assms(1)] by blast
  then obtain ev where ev: "check_multiple_with_options (xl_path_env xl) (policy_for pol req) commands
      (exec_policy_fallback (xl_parser xl) req) True = Some ev" "ev_decision ev = DecAllow \<longleftrightarrow> (\<exists>b a. r = SkipExec b a)"
    using requirement_decision by metis
  then obtain m where "m \<in> set (ev_matched_rules ev)" "ev_decision ev = match_decision m"
    unfolding check_multiple_spec by blast
  moreover have "set (ev_matched_rules ev)
      = (\<Union>c\<in>set commands. set (hits xl (policy_for pol req) (exec_policy_fallback (xl_parser xl) req) c))"
    using ev(1) by (simp add: check_multiple_spec)
  ultimately have "ev_decision ev = DecAllow" using assms(2) by auto
  then show ?thesis using r ev(2) by blast
qed

text \<open>Inner commands grant no trust: when the program that would run a script is neither the configured shell
  nor a system shell, and the whole may run without asking, then the bare program may run without asking as
  well, and outside the sandbox if the whole may.\<close>

theorem inner_commands_grant_no_trust:
  assumes "shell_approval_command (er_command req) configured_shell zsh_fork = executable"
    and "length executable \<noteq> length (er_command req)"
    and "create_exec_approval_requirement_for_shell xl pol req configured_shell zsh_fork = Some (SkipExec bypass a)"
  shows "\<exists>bypass' a'. create_exec_approval_requirement_for_parsed_commands xl pol (req\<lparr>er_command := executable\<rparr>) [executable]
      = Some (SkipExec bypass' a') \<and> (bypass \<longrightarrow> bypass')"
proof -
  let ?req = "req\<lparr>er_command := executable\<rparr>" and ?cs = "commands_for_exec_policy (xl_parser xl) (er_command req)"
  have whole: "create_exec_approval_requirement_for_parsed_commands xl pol ?req (executable # ?cs) = Some (SkipExec bypass a)"
    using assms by (simp add: create_exec_approval_requirement_for_shell_def Let_def)
  obtain b' a' where alone: "create_exec_approval_requirement_for_parsed_commands xl pol ?req [executable] = Some (SkipExec b' a')"
    using all_allowed_skip [of "[executable]" xl pol ?req] skip_all_allowed [OF whole, of executable] by auto
  have "bypass \<longleftrightarrow> (\<forall>c\<in>set (executable # ?cs). \<exists>m\<in>set (rule_hits xl (policy_for pol ?req) c). match_decision m = DecAllow)"
    using requirement_decision [OF whole] by metis
  moreover have "b' \<longleftrightarrow> (\<forall>c\<in>set [executable]. \<exists>m\<in>set (rule_hits xl (policy_for pol ?req) c). match_decision m = DecAllow)"
    using requirement_decision [OF alone] by metis
  ultimately show ?thesis using alone by auto
qed

theorem inner_commands_grant_no_trust_witness:
  "\<exists>bypass a. create_exec_approval_requirement_for_parsed_commands ls_lib policy_empty
      (plain_request AskOnRequest [''/opt/x/sh'']) [[''/opt/x/sh'']] = Some (SkipExec bypass a)"
proof -
  let ?req = "plain_request AskOnRequest [''/opt/x/sh'', ''-c'', ''ls'']"
  have e: "shell_approval_command (er_command ?req) ''/bin/zsh'' False = [''/opt/x/sh'']"
    and l: "length [''/opt/x/sh''] \<noteq> length (er_command ?req)"
    and s: "create_exec_approval_requirement_for_shell ls_lib policy_empty ?req ''/bin/zsh'' False
      = Some (SkipExec False (Some [''/opt/x/sh'']))"
    by code_simp+
  show ?thesis using inner_commands_grant_no_trust [OF e l s] by (auto simp: plain_request_def)
qed

subsection \<open>Scripts\<close>

fun tree_nodes :: "shell_node \<Rightarrow> shell_node list" where
  "tree_nodes (ShellNode k n s t cs) = ShellNode k n s t cs # concat (map tree_nodes cs)"

lemma tree_nodes_unfold: "tree_nodes n = n # concat (map tree_nodes (sn_children n))"
  by (cases n) simp

definition is_command_node :: "shell_node \<Rightarrow> bool" where
  "is_command_node n \<longleftrightarrow> sn_named n \<and> sn_kind n = ''command''"

lemma mset_concat_rev: "mset (concat (map f (rev xs))) = mset (concat (map f xs))"
  by (induction xs) simp_all

lemma collect_commands_nodes:
  "collect_commands stack acc = Some out \<Longrightarrow>
     (\<forall>n\<in>set (concat (map tree_nodes stack)). node_allowed n)
     \<and> mset out = mset acc + mset (filter is_command_node (concat (map tree_nodes stack)))"
proof (induction stack acc rule: collect_commands.induct)
  case (2 node stack acc)
  let ?acc = "if sn_named node \<and> sn_kind node = ''command'' then acc @ [node] else acc"
  have node: "node_allowed node" using 2(2) by (simp split: if_splits)
  then have ih: "\<forall>n\<in>set (concat (map tree_nodes (rev (sn_children node) @ stack))). node_allowed n"
    "mset out = mset ?acc + mset (filter is_command_node (concat (map tree_nodes (rev (sn_children node) @ stack))))"
    using 2 by auto
  show ?case
    using node ih by (auto simp: tree_nodes_unfold [of node] is_command_node_def mset_concat_rev mset_filter)
qed simp

lemma all_some_Some: "all_some xs = Some ys \<longleftrightarrow> xs = map Some ys"
  by (induction xs arbitrary: ys) (auto simp: bind_eq_Some_conv Cons_eq_map_conv)

lemma plain_commands_of_tree:
  assumes "try_parse_word_only_commands_sequence tree = Some cmds"
  shows "(\<forall>n\<in>set (tree_nodes (st_root tree)). node_allowed n)
    \<and> mset (map Some cmds) = mset (map parse_plain_command_from_node (filter is_command_node (tree_nodes (st_root tree))))"
proof -
  obtain ns where ns: "collect_commands [st_root tree] [] = Some ns"
    "map parse_plain_command_from_node (sort_key sn_start ns) = map Some cmds"
    using assms by (auto simp: try_parse_word_only_commands_sequence_def bind_eq_Some_conv all_some_Some split: if_splits)
  have "mset (map Some cmds) = image_mset parse_plain_command_from_node (mset ns)"
    using ns(2) by (metis mset_map mset_sort)
  then show ?thesis using collect_commands_nodes [OF ns(1)] by simp
qed

text \<open>A script that runs without asking hides no command: when a script is taken apart into commands and no
  approval is required, its syntax tree has only plain words, quotes and the operators \<open>&&\<close>, \<open>||\<close>, \<open>;\<close> and \<open>|\<close>, and
  every command in the tree, wherever it stands, has been read into words that the rules allow or that no rule
  matches and that are not dangerous.\<close>

theorem unasked_script_hides_nothing:
  assumes "extract_bash_command (er_command req) = Some (shell, script)" and "xl_parser xl script = Some tree"
    and "try_parse_word_only_commands_sequence tree = Some cmds" and "cmds \<noteq> []"
    and "create_exec_approval_requirement_for_command xl pol req = Some (SkipExec bypass a)"
    and "n \<in> set (tree_nodes (st_root tree))"
  shows "node_allowed n
    \<and> (is_command_node n \<longrightarrow> (\<exists>words. parse_plain_command_from_node n = Some words
        \<and> (\<forall>m\<in>set (rule_hits xl (policy_for pol req) words). match_decision m = DecAllow)
        \<and> (rule_hits xl (policy_for pol req) words = [] \<longrightarrow> dangerous_command_match (xl_parser xl) words = None)))"
proof (intro conjI impI)
  note t = plain_commands_of_tree [OF assms(3)]
  show "node_allowed n" using t assms(6) by blast
  assume "is_command_node n"
  then have "parse_plain_command_from_node n \<in> set (map Some cmds)"
    unfolding mset_eq_setD [OF t [THEN conjunct2]] using assms(6) by simp
  then obtain words where w: "parse_plain_command_from_node n = Some words" "words \<in> set cmds" by auto
  have "commands_for_exec_policy (xl_parser xl) (er_command req) = cmds"
    using assms(1-4)
    by (cases cmds) (auto simp: commands_for_exec_policy_def parse_shell_lc_plain_commands_def parse_shell_script_into_commands_def)
  then have "create_exec_approval_requirement_for_parsed_commands xl pol req cmds = Some (SkipExec bypass a)"
    using assms(5) by (simp add: create_exec_approval_requirement_for_command_def)
  from skip_all_allowed [OF this w(2)] fallback_allow [OF skip_unmatched [OF this w(2)]]
  show "\<exists>words. parse_plain_command_from_node n = Some words
      \<and> (\<forall>m\<in>set (rule_hits xl (policy_for pol req) words). match_decision m = DecAllow)
      \<and> (rule_hits xl (policy_for pol req) words = [] \<longrightarrow> dangerous_command_match (xl_parser xl) words = None)"
    using w(1) by (cases "rule_hits xl (policy_for pol req) words") (auto simp: matches_with_fallback)
qed

theorem unasked_script_hides_nothing_witness:
  "node_allowed (st_root ls_tree)"
proof -
  let ?req = "plain_request AskOnRequest [''bash'', ''-lc'', ''ls'']"
  have "extract_bash_command (er_command ?req) = Some (''bash'', ''ls'')"
    and "try_parse_word_only_commands_sequence ls_tree = Some [[''ls'']]"
    and "create_exec_approval_requirement_for_command ls_lib policy_empty ?req = Some (SkipExec False (Some [''ls'']))"
    by code_simp+
  moreover have "xl_parser ls_lib ''ls'' = Some ls_tree" by (simp add: ls_lib_def)
  moreover have "st_root ls_tree \<in> set (tree_nodes (st_root ls_tree))" by (subst tree_nodes_unfold) simp
  ultimately show ?thesis using unasked_script_hides_nothing [of ?req] by blast
qed

subsection \<open>Dangerous commands\<close>

text \<open>What a command line runs, through \<open>sudo\<close>, \<open>env\<close>, \<open>trap\<close> and the literal commands of a script.\<close>

inductive runs :: "shell_parser \<Rightarrow> string list \<Rightarrow> string list \<Rightarrow> bool" for sp c where
  itself: "runs sp c c"
| sudo: "last_normal s = Some ''sudo'' \<Longrightarrow> runs sp c args \<Longrightarrow> runs sp c (s # args)"
| env: "last_normal e = Some ''env'' \<Longrightarrow> runs sp c (env_command args) \<Longrightarrow> runs sp c (e # args)"
| trap: "last_normal t = Some ''trap'' \<Longrightarrow> trap_command args = Some w \<Longrightarrow> runs sp c w \<Longrightarrow> runs sp c (t # args)"
| script: "parse_shell_lc_literal_commands sp command = Some cs \<Longrightarrow> w \<in> set cs \<Longrightarrow> runs sp c w \<Longrightarrow> runs sp c command"

lemma find_map_Some: "find_map f xs = Some y \<Longrightarrow> \<exists>x\<in>set xs. f x = Some y"
  by (induction xs) (auto split: option.splits)

lemma find_map_found: "x \<in> set xs \<Longrightarrow> f x \<noteq> None \<Longrightarrow> find_map f xs \<noteq> None"
  by (induction xs) (auto split: option.split)

lemma dangerous_exec:
  "dangerous_command_match_for_exec (\<lambda>c. dangerous_command_match_with_depth sp c (depth + 1)) command \<noteq> None
    \<Longrightarrow> dangerous_command_match_with_depth sp command depth \<noteq> None"
  by (subst dangerous_command_match_with_depth.simps) (auto simp: Let_def)

lemma dangerous_script:
  assumes "parse_shell_lc_literal_commands sp command = Some cs" and "w \<in> set cs"
    and "dangerous_command_match_with_depth sp w (depth + 1) \<noteq> None"
  shows "dangerous_command_match_with_depth sp command depth \<noteq> None"
proof -
  have "find_map (\<lambda>c. dangerous_command_match_with_depth sp c (depth + 1)) cs \<noteq> None"
    using find_map_found [OF assms(2), of "\<lambda>c. dangerous_command_match_with_depth sp c (depth + 1)"] assms(3) by simp
  then show ?thesis
    using assms(1) by (subst dangerous_command_match_with_depth.simps) (simp add: Let_def split: option.split)
qed

lemma dangerous_deep:
  assumes "runs sp c w" and "\<And>depth. dangerous_command_match_with_depth sp c depth \<noteq> None"
  shows "dangerous_command_match_with_depth sp w depth \<noteq> None"
  using assms(1)
proof (induction arbitrary: depth rule: runs.induct)
  case itself
  show ?case by (rule assms(2))
next
  case (sudo s args)
  show ?case
    by (rule dangerous_exec)
      (use sudo.IH sudo.hyps(1) in \<open>simp add: dangerous_command_match_for_exec_def executable_name_lookup_key_def\<close>)
next
  case (env e args)
  show ?case
    by (rule dangerous_exec)
      (use env.IH env.hyps(1) in \<open>simp add: dangerous_command_match_for_exec_def executable_name_lookup_key_def\<close>)
next
  case (trap t args w)
  show ?case
    by (rule dangerous_exec)
      (use trap.IH trap.hyps(1,2) in \<open>simp add: dangerous_command_match_for_exec_def executable_name_lookup_key_def\<close>)
next
  case (script command cs w)
  show ?case by (rule dangerous_script [OF script.hyps(1,2) script.IH])
qed

text \<open>A forced removal is found through its wrappers: a command line that runs \<open>rm\<close> with a force option,
  directly or through any nesting of \<open>sudo\<close>, \<open>env\<close>, \<open>trap\<close> and literal commands of scripts, is dangerous. Deeper
  than the search goes the answer is dangerous as well, so that nesting hides nothing.\<close>

theorem wrapped_forced_rm_is_dangerous:
  assumes "runs sp (program # args) w" and "last_normal program = Some ''rm''" and "rm_args_include_force_option args"
  shows "dangerous_command_match sp w \<noteq> None"
  unfolding dangerous_command_match_def
proof (rule dangerous_deep [OF assms(1)])
  show "dangerous_command_match_with_depth sp (program # args) depth \<noteq> None" for depth
    by (rule dangerous_exec)
      (use assms(2,3) in \<open>simp add: dangerous_command_match_for_exec_def executable_name_lookup_key_def\<close>)
qed

theorem wrapped_forced_rm_is_dangerous_witness:
  "dangerous_command_match (xl_parser ls_lib) [''sudo'', ''/bin/rm'', ''-rf'', ''/''] \<noteq> None"
proof -
  have "runs (xl_parser ls_lib) (''/bin/rm'' # [''-rf'', ''/'']) (''sudo'' # ''/bin/rm'' # [''-rf'', ''/''])"
    by (rule runs.sudo) (code_simp, rule runs.itself)
  moreover have "last_normal ''/bin/rm'' = Some ''rm''" "rm_args_include_force_option [''-rf'', ''/'']" by code_simp+
  ultimately show ?thesis by (rule wrapped_forced_rm_is_dangerous)
qed

subsection \<open>Amendments\<close>

lemma exact_hit:
  assumes "r \<in> set (mm_get (pol_rules pol) (hd c))" and "rule_matches r c = Some m"
  shows "rule_hits xl pol c \<noteq> []"
proof -
  obtain x xs where c: "c = x # xs" using rule_matches_program [OF assms(2)] by blast
  then have "m \<in> set (List.map_filter (\<lambda>r. rule_matches r c) (mm_get (pol_rules pol) x))"
    using assms by (auto simp: set_map_filter)
  then show ?thesis
    by (cases "List.map_filter (\<lambda>r. rule_matches r c) (mm_get (pol_rules pol) x)")
      (auto simp: matches_for_command_with_options_def match_exact_rules_def c)
qed

lemma host_hit:
  assumes "from_absolute_path (pe_home (xl_path_env xl)) (pe_cwd (xl_path_env xl)) (hd c) = Some program"
    and "executable_path_lookup_key program = Some b" and "case pol_hosts pol b of Some paths \<Rightarrow> program \<in> set paths | None \<Rightarrow> True"
    and "r \<in> set (mm_get (pol_rules pol) b)" and "rule_matches r (b # tl c) = Some m" and "c \<noteq> []"
  shows "rule_hits xl pol c \<noteq> []"
proof -
  obtain rules where r: "map_of (pol_rules pol) b = Some rules" "r \<in> set rules"
    using assms(4) by (cases "map_of (pol_rules pol) b") (auto simp: mm_get_def)
  have "m \<in> set (List.map_filter (\<lambda>r. rule_matches r (b # tl c)) rules)" using r(2) assms(5) by (auto simp: set_map_filter)
  then have "with_resolved_program m program \<in> set (match_host_executable_rules (xl_path_env xl) pol c)"
    using assms r by (cases c; cases "pol_hosts pol b") (auto simp: match_host_executable_rules_def)
  then show ?thesis
    by (cases "match_host_executable_rules (xl_path_env xl) pol c")
      (auto simp: matches_for_command_with_options_def split: option.splits list.splits)
qed

lemma rule_matches_longer:
  assumes "rule_matches r p = Some m"
  shows "\<exists>m'. rule_matches r (p @ rest) = Some m'"
proof -
  obtain n where n: "matches_prefix (pr_pattern r) p = Some n" using assms by (auto simp: rule_matches_def)
  then obtain args rest' where "p = pat_first (pr_pattern r) # args @ rest'" "n = pat_first (pr_pattern r) # args"
    "list_all2 (\<lambda>pt a. a \<in> set (alternatives pt)) (pat_rest (pr_pattern r)) args"
    unfolding matches_prefix_iff by blast
  then have "matches_prefix (pr_pattern r) (p @ rest) = Some n"
    unfolding matches_prefix_iff by (intro exI [of _ args] exI [of _ "rest' @ rest"]) simp
  then show ?thesis by (simp add: rule_matches_def)
qed

definition allow_rule :: "string list \<Rightarrow> prefix_rule" where
  "allow_rule p = \<lparr>pr_pattern = \<lparr>pat_first = hd p, pat_rest = map Single (tl p)\<rparr>, pr_decision = DecAllow, pr_justification = None\<rparr>"

lemma allow_rule_matches:
  "p \<noteq> [] \<Longrightarrow> rule_matches (allow_rule p) c = Some m \<longleftrightarrow> (\<exists>rest. c = p @ rest) \<and> m = PrefixRuleMatch p DecAllow None None"
proof -
  have eq: "list_all2 (\<lambda>x y. y = x) xs ys \<longleftrightarrow> xs = ys" for xs ys :: "string list"
    by (auto simp: list_all2_conv_all_nth intro: nth_equalityI)
  show "p \<noteq> [] \<Longrightarrow> ?thesis"
    by (cases p) (auto simp: rule_matches_def allow_rule_def matches_prefix_iff list_all2_map1 eq)
qed

lemma add_allow_rule:
  assumes "add_prefix_rule p DecAllow pol = Inr pol'"
  shows "p \<noteq> [] \<and> mm_get (pol_rules pol') k = mm_get (pol_rules pol) k @ (if k = hd p then [allow_rule p] else [])
    \<and> pol_hosts pol' = pol_hosts pol"
  using assms by (cases p) (auto simp: add_prefix_rule_def allow_rule_def mm_get_insert)

text \<open>A new rule that is a prefix of a command that no rule matches is the one rule that matches it.\<close>

lemma new_rule_hits:
  assumes "add_prefix_rule p DecAllow pol = Inr pol'" and "rule_hits xl pol (p @ rest) = []"
  shows "rule_hits xl pol' (p @ rest) = [PrefixRuleMatch p DecAllow None None]"
proof -
  note new = add_allow_rule [OF assms(1)]
  obtain x xs where p: "p = x # xs" using new by (cases p) auto
  have "List.map_filter (\<lambda>r. rule_matches r (p @ rest)) (mm_get (pol_rules pol) x) = []"
    using assms(2) exact_hit [of _ pol "p @ rest" _ xl] p by (fastforce simp: List.map_filter_def filter_empty_conv)
  moreover have "rule_matches (allow_rule p) (p @ rest) = Some (PrefixRuleMatch p DecAllow None None)"
    using allow_rule_matches [of p] new by simp
  ultimately have "match_exact_rules pol' (p @ rest) = Some [PrefixRuleMatch p DecAllow None None]"
    using new [of x] by (simp add: match_exact_rules_def p List.map_filter_def)
  then show ?thesis by (simp add: matches_for_command_with_options_def)
qed

lemma approving_prefix:
  assumes "add_prefix_rule p DecAllow pol = Inr pol'" and "rule_hits xl pol c = []" and "rule_hits xl pol' c \<noteq> []" and "hd p = hd c"
  shows "\<exists>rest. c = p @ rest"
proof -
  note new = add_allow_rule [OF assms(1)]
  obtain m where "m \<in> set (rule_hits xl pol' c)" using assms(3) by (cases "rule_hits xl pol' c") auto
  then have "(\<exists>ms. match_exact_rules pol' c = Some ms \<and> m \<in> set ms) \<or> m \<in> set (match_host_executable_rules (xl_path_env xl) pol' c)"
    by (rule matches_from)
  then show ?thesis
  proof
    assume "\<exists>ms. match_exact_rules pol' c = Some ms \<and> m \<in> set ms"
    then obtain r where r: "r \<in> set (mm_get (pol_rules pol') (hd c))" "rule_matches r c = Some m" using exact_match_from by blast
    then have "r = allow_rule p" using new [of "hd c"] exact_hit [of r pol c m xl] assms(2) by (auto split: if_splits)
    then show ?thesis using r(2) allow_rule_matches new by blast
  next
    assume h: "m \<in> set (match_host_executable_rules (xl_path_env xl) pol' c)"
    then obtain x xs where c: "c = x # xs" by (cases c) (simp_all add: match_host_executable_rules_def)
    obtain program b r m' where r: "from_absolute_path (pe_home (xl_path_env xl)) (pe_cwd (xl_path_env xl)) x = Some program"
      "executable_path_lookup_key program = Some b" "case pol_hosts pol' b of Some paths \<Rightarrow> program \<in> set paths | None \<Rightarrow> True"
      "r \<in> set (mm_get (pol_rules pol') b)" "rule_matches r (b # xs) = Some m'"
      using host_match_from [OF h [unfolded c]] by blast
    have "r \<notin> set (mm_get (pol_rules pol) b)"
      using host_hit [of xl c program b pol r m'] r assms(2) new by (auto simp: c)
    then have "r = allow_rule p" "b = hd p" using r(4) new [of b] by (auto split: if_splits)
    then show ?thesis using r(5) allow_rule_matches new assms(4) by (metis c list.sel(1))
  qed
qed

lemma hits_longer:
  assumes "rule_hits xl pol p \<noteq> []" and "p \<noteq> []"
  shows "rule_hits xl pol (p @ rest) \<noteq> []"
proof -
  obtain m where "m \<in> set (rule_hits xl pol p)" using assms(1) by (cases "rule_hits xl pol p") auto
  then have "(\<exists>ms. match_exact_rules pol p = Some ms \<and> m \<in> set ms) \<or> m \<in> set (match_host_executable_rules (xl_path_env xl) pol p)"
    by (rule matches_from)
  then show ?thesis
  proof
    assume "\<exists>ms. match_exact_rules pol p = Some ms \<and> m \<in> set ms"
    then obtain r where "r \<in> set (mm_get (pol_rules pol) (hd p))" "rule_matches r p = Some m" using exact_match_from by blast
    then show ?thesis using exact_hit [of r pol "p @ rest"] rule_matches_longer assms(2) by (metis hd_append2)
  next
    assume h: "m \<in> set (match_host_executable_rules (xl_path_env xl) pol p)"
    obtain x xs where p: "p = x # xs" using assms(2) by (cases p) auto
    obtain program b r m' where r: "from_absolute_path (pe_home (xl_path_env xl)) (pe_cwd (xl_path_env xl)) x = Some program"
      "executable_path_lookup_key program = Some b" "case pol_hosts pol b of Some paths \<Rightarrow> program \<in> set paths | None \<Rightarrow> True"
      "r \<in> set (mm_get (pol_rules pol) b)" "rule_matches r (b # xs) = Some m'"
      using host_match_from [OF h [unfolded p]] by blast
    obtain m'' where "rule_matches r (b # xs @ rest) = Some m''" using rule_matches_longer [OF r(5), of rest] by auto
    then show ?thesis using host_hit [of xl "p @ rest" program b pol r m''] r by (simp add: p)
  qed
qed

lemma offered_amendment:
  assumes "create_exec_approval_requirement_for_parsed_commands xl pol req [c] = Some (NeedsExecApproval reason (Some am))"
  shows "er_allow_prefix_rules req = HonorRules \<and> rule_hits xl (policy_for pol req) c = []
    \<and> exec_policy_fallback (xl_parser xl) req c = DecPrompt
    \<and> (am = c \<or> prefix_rule_would_approve_all_commands (xl_path_env xl) (policy_for pol req) am [c] (exec_policy_fallback (xl_parser xl) req))"
proof -
  let ?pol = "policy_for pol req" and ?fb = "exec_policy_fallback (xl_parser xl) req"
  obtain ev where ev: "check_multiple_with_options (xl_path_env xl) ?pol [c] ?fb True = Some ev"
    "ev_decision ev = DecPrompt" "er_allow_prefix_rules req = HonorRules"
    and am: "derive_requested_execpolicy_amendment_from_prefix_rule (xl_path_env xl) (er_prefix_rule req) (ev_matched_rules ev) ?pol [c] ?fb
        = Some am \<or> try_derive_execpolicy_amendment_for_prompt_rules (ev_matched_rules ev) = Some am"
  proof -
    obtain ev where ev: "check_multiple_with_options (xl_path_env xl) ?pol [c] ?fb True = Some ev"
      using check_multiple_total [of "[c]"] by blast
    show thesis
      by (rule that [OF ev])
        (use assms ev in \<open>cases "ev_decision ev"; auto simp: create_exec_approval_requirement_for_parsed_commands_def Let_def
          split: option.splits if_splits\<close>)+
  qed
  have ms: "ev_matched_rules ev = hits xl ?pol ?fb c" using ev(1) by (simp add: check_multiple_spec)
  from am have "rule_hits xl ?pol c = []
      \<and> (am = c \<or> prefix_rule_would_approve_all_commands (xl_path_env xl) ?pol am [c] ?fb)"
  proof
    assume "derive_requested_execpolicy_amendment_from_prefix_rule (xl_path_env xl) (er_prefix_rule req) (ev_matched_rules ev) ?pol [c] ?fb = Some am"
    then have no: "\<not> list_ex is_policy_match (hits xl ?pol ?fb c)"
      and a: "prefix_rule_would_approve_all_commands (xl_path_env xl) ?pol am [c] ?fb"
      by (auto simp: derive_requested_execpolicy_amendment_from_prefix_rule_def ms split: option.splits if_splits)
    have "rule_hits xl ?pol c = []"
      using no rule_hits_policy [of _ "xl_path_env xl" ?pol c True]
      by (cases "rule_hits xl ?pol c") (auto simp: matches_with_fallback)
    with a show ?thesis by simp
  next
    assume "try_derive_execpolicy_amendment_for_prompt_rules (ev_matched_rules ev) = Some am"
    then have "HeuristicsRuleMatch am DecPrompt \<in> set (hits xl ?pol ?fb c)"
      unfolding ms try_derive_execpolicy_amendment_for_prompt_rules_def
      by (auto dest!: find_map_Some split: if_splits rule_match.splits decision.splits)
    then show ?thesis
      using rule_hits_policy [of "HeuristicsRuleMatch am DecPrompt" "xl_path_env xl" ?pol c True]
      by (cases "rule_hits xl ?pol c") (auto simp: matches_with_fallback)
  qed
  moreover from this have "?fb c = DecPrompt" using ev(1,2) ms by (auto simp: check_multiple_spec matches_with_fallback)
  ultimately show ?thesis using ev(3) by blast
qed

text \<open>C29. An accepted amendment takes effect: when a single command has to be approved under a request without
  a policy of its environment, and an amendment for its program is offered with the question, then once the
  amendment has been recorded the same request needs no approval any more and runs outside the sandbox.\<close>

theorem accepted_amendment_takes_effect:
  assumes "create_exec_approval_requirement_for_parsed_commands xl pol req [c] = Some (NeedsExecApproval reason (Some am))"
    and "er_environment_policy req = None" and "hd am = hd c"
    and "append_amendment_and_update json_str (xl_path_env xl) codex_home am pol f = (Inr (), pol', f')"
  shows "\<exists>a. create_exec_approval_requirement_for_parsed_commands xl pol' req [c] = Some (SkipExec True a)"
proof -
  let ?fb = "exec_policy_fallback (xl_parser xl) req"
  have pf: "policy_for p req = p" for p
    using offered_amendment [OF assms(1)] assms(2) by (simp add: current_for_environment_def current_for_prefix_rules_def)
  note off = offered_amendment [OF assms(1), unfolded pf]
  have "am \<noteq> []" using assms(4) by (auto simp: append_amendment_and_update_def blocking_append_allow_prefix_rule_def Let_def)
  then obtain pol1 where p1: "add_prefix_rule am DecAllow pol = Inr pol1" by (cases am) (auto simp: add_prefix_rule_def)
  have "\<exists>rest. c = am @ rest"
  proof (cases "am = c")
    case False
    then have "map_option ev_decision (check_with_options (xl_path_env xl) pol1 c ?fb True) = Some DecAllow"
      using off p1 by (simp add: prefix_rule_would_approve_all_commands_def)
    then have "rule_hits xl pol1 c \<noteq> []"
      using off by (auto simp: check_with_options_def matches_with_fallback from_matches_def)
    then show ?thesis using approving_prefix [OF p1 _ _ assms(3)] off by blast
  qed simp
  then obtain rest where c: "c = am @ rest" by blast
  have "rule_hits xl pol am = []" using hits_longer [of xl pol am rest] off \<open>am \<noteq> []\<close> c by auto
  then have "pol' = pol1"
    using assms(4) p1
    by (auto simp: append_amendment_and_update_def Let_def check_multiple_with_options_def matches_with_fallback
        from_matches_def split: prod.splits sum.splits)
  then have hits: "rule_hits xl pol' c = [PrefixRuleMatch am DecAllow None None]"
    using new_rule_hits [OF p1, of xl rest] off c by simp
  then have "match_decision m = DecAllow" if "m \<in> set (hits xl (policy_for pol' req) ?fb c)" for m
    using that by (simp add: pf matches_with_fallback)
  then obtain b a where s: "create_exec_approval_requirement_for_parsed_commands xl pol' req [c] = Some (SkipExec b a)"
    using all_allowed_skip [of "[c]" xl pol' req] by auto
  have "b \<longleftrightarrow> (\<forall>x\<in>set [c]. \<exists>m\<in>set (rule_hits xl (policy_for pol' req) x). match_decision m = DecAllow)"
    using requirement_decision [OF s] by metis
  then show ?thesis using s hits by (simp add: pf)
qed

text \<open>Witness: a build command that nothing is known about, and no file of rules yet.\<close>

theorem accepted_amendment_takes_effect_witness:
  "\<exists>pol' f' a. append_amendment_and_update Inr (xl_path_env ls_lib) ''/c'' [''cargo'', ''build''] policy_empty empty_fs = (Inr (), pol', f')
     \<and> create_exec_approval_requirement_for_parsed_commands ls_lib pol' (plain_request AskUnlessTrusted [''cargo'', ''build''])
         [[''cargo'', ''build'']] = Some (SkipExec True a)"
proof -
  let ?c = "[''cargo'', ''build'']"
  obtain r pol' f' where u: "append_amendment_and_update Inr (xl_path_env ls_lib) ''/c'' ?c policy_empty empty_fs = (r, pol', f')"
    by (metis prod_cases3)
  have "fst (append_amendment_and_update Inr (xl_path_env ls_lib) ''/c'' ?c policy_empty empty_fs) = Inr ()" by code_simp
  with u have u: "append_amendment_and_update Inr (xl_path_env ls_lib) ''/c'' ?c policy_empty empty_fs = (Inr (), pol', f')" by simp
  have "create_exec_approval_requirement_for_parsed_commands ls_lib policy_empty (plain_request AskUnlessTrusted ?c) [?c]
      = Some (NeedsExecApproval None (Some ?c))"
    by code_simp
  from accepted_amendment_takes_effect [OF this _ _ u] u show ?thesis by (simp add: plain_request_def)
qed

end
