(* ===== verification/Ip_Addr.thy ===== *)
theory Ip_Addr
  imports Prelude
begin

unbundle bit_operations_syntax

text \<open>
  IP addresses as the network proxy classifies them (\<open>network-proxy/src/policy.rs\<close>), with what it uses of
  \<open>std::net\<close>: reading an address, the octets and segments, and the classes the standard library knows.
\<close>

datatype ip_addr = V4 "32 word" | V6 "128 word"

definition octet :: "32 word \<Rightarrow> nat \<Rightarrow> nat" where
  "octet ip i = unat (drop_bit (8 * (3 - i)) ip AND 255)"

definition segment :: "128 word \<Rightarrow> nat \<Rightarrow> nat" where
  "segment ip i = unat (drop_bit (16 * (7 - i)) ip AND 65535)"

definition from_octets :: "nat list \<Rightarrow> 32 word" where
  "from_octets os = foldl (\<lambda>w x. push_bit 8 w OR word_of_nat x) 0 os"

definition from_segments :: "nat list \<Rightarrow> 128 word" where
  "from_segments ss = foldl (\<lambda>w x. push_bit 16 w OR word_of_nat x) 0 ss"

subsection \<open>Reading an address\<close>

definition to_digit :: "nat \<Rightarrow> char \<Rightarrow> nat option" where
  "to_digit radix c =
     (let n = (of_char c :: nat);
          d = (if 48 \<le> n \<and> n \<le> 57 then Some (n - 48)
               else if 97 \<le> n \<and> n \<le> 122 then Some (n - 87)
               else if 65 \<le> n \<and> n \<le> 90 then Some (n - 55)
               else None)
      in case d of Some k \<Rightarrow> if k < radix then Some k else None | None \<Rightarrow> None)"

fun digits_of :: "nat \<Rightarrow> string \<Rightarrow> nat list \<times> string" where
  "digits_of radix [] = ([], [])"
| "digits_of radix (c # s) =
     (case to_digit radix c of
        Some d \<Rightarrow> (let (ds, r) = digits_of radix s in (d # ds, r))
      | None \<Rightarrow> ([], c # s))"

text \<open>\<open>read_number\<close>: at most so many digits, a value in range, a leading zero only where it is allowed.\<close>

definition read_number :: "nat \<Rightarrow> nat \<Rightarrow> bool \<Rightarrow> nat \<Rightarrow> string \<Rightarrow> (nat \<times> string) option" where
  "read_number radix max_digits allow_zero_prefix bound s =
     (let (ds, rest) = digits_of radix s;
          n = foldl (\<lambda>a d. a * radix + d) 0 ds
      in if max_digits < length ds then None
         else if ds = [] then None
         else if \<not> allow_zero_prefix \<and> hd s = CHR ''0'' \<and> 1 < length ds then None
         else if n < bound then Some (n, rest) else None)"

definition read_separator :: "char \<Rightarrow> nat \<Rightarrow> (string \<Rightarrow> ('a \<times> string) option) \<Rightarrow> string \<Rightarrow> ('a \<times> string) option" where
  "read_separator sep index inner s =
     (if index = 0 then inner s
      else case s of [] \<Rightarrow> None | c # t \<Rightarrow> if c = sep then inner t else None)"

definition read_ipv4_addr :: "string \<Rightarrow> (nat list \<times> string) option" where
  "read_ipv4_addr s =
     foldl (\<lambda>r i. Option.bind r (\<lambda>(os, s).
        map_option (\<lambda>(n, s). (os @ [n], s)) (read_separator (CHR ''.'') i (read_number 10 3 False 256) s)))
       (Some ([], s)) [0, 1, 2, 3]"

text \<open>Groups from index \<open>i\<close> on, \<open>limit\<close> at most; the flag says that they end in an IPv4 address.\<close>

function read_groups :: "nat \<Rightarrow> nat \<Rightarrow> string \<Rightarrow> nat list \<times> bool \<times> string" where
  "read_groups limit i s =
     (if limit \<le> i then ([], False, s)
      else case (if i < limit - 1 then read_separator (CHR '':'') i read_ipv4_addr s else None) of
             Some (os, r) \<Rightarrow> ([os ! 0 * 256 + os ! 1, os ! 2 * 256 + os ! 3], True, r)
           | None \<Rightarrow>
               (case read_separator (CHR '':'') i (read_number 16 4 True 65536) s of
                  Some (g, r) \<Rightarrow> (let (gs, v4, r) = read_groups limit (Suc i) r in (g # gs, v4, r))
                | None \<Rightarrow> ([], False, s)))"
  by pat_completeness auto
termination
  by (relation "measure (\<lambda>(limit, i, s). limit - i)") auto

declare read_groups.simps [simp del]

definition read_ipv6_addr :: "string \<Rightarrow> (nat list \<times> string) option" where
  "read_ipv6_addr s =
     (let (head, head_ipv4, r) = read_groups 8 0 s
      in if length head = 8 then Some (head, r)
         else if head_ipv4 then None
         else case strip_prefix ''::'' r of
                None \<Rightarrow> None
              | Some r \<Rightarrow>
                  (let (tail, _, r) = read_groups (8 - (length head + 1)) 0 r
                   in Some (head @ replicate (8 - length head - length tail) 0 @ tail, r)))"

definition parse_ip :: "string \<Rightarrow> ip_addr option" where
  "parse_ip s =
     (case (case read_ipv4_addr s of
              Some (os, r) \<Rightarrow> Some (V4 (from_octets os), r)
            | None \<Rightarrow> map_option (\<lambda>(ss, r). (V6 (from_segments ss), r)) (read_ipv6_addr s)) of
        Some (ip, []) \<Rightarrow> Some ip
      | _ \<Rightarrow> None)"

subsection \<open>Classes of addresses\<close>

definition v4_is_loopback :: "32 word \<Rightarrow> bool" where
  "v4_is_loopback ip \<longleftrightarrow> octet ip 0 = 127"

definition v4_is_private :: "32 word \<Rightarrow> bool" where
  "v4_is_private ip \<longleftrightarrow> octet ip 0 = 10 \<or> octet ip 0 = 172 \<and> 16 \<le> octet ip 1 \<and> octet ip 1 \<le> 31
     \<or> octet ip 0 = 192 \<and> octet ip 1 = 168"

definition v4_is_link_local :: "32 word \<Rightarrow> bool" where
  "v4_is_link_local ip \<longleftrightarrow> octet ip 0 = 169 \<and> octet ip 1 = 254"

definition v4_is_multicast :: "32 word \<Rightarrow> bool" where
  "v4_is_multicast ip \<longleftrightarrow> 224 \<le> octet ip 0 \<and> octet ip 0 \<le> 239"

definition v6_is_loopback :: "128 word \<Rightarrow> bool" where
  "v6_is_loopback ip \<longleftrightarrow> ip = 1"

fun is_loopback :: "ip_addr \<Rightarrow> bool" where
  "is_loopback (V4 ip) = v4_is_loopback ip"
| "is_loopback (V6 ip) = v6_is_loopback ip"

definition to_ipv4 :: "128 word \<Rightarrow> 32 word option" where
  "to_ipv4 ip =
     (if segment ip 0 = 0 \<and> segment ip 1 = 0 \<and> segment ip 2 = 0 \<and> segment ip 3 = 0 \<and> segment ip 4 = 0
        \<and> (segment ip 5 = 0 \<or> segment ip 5 = 65535)
      then Some (from_octets [segment ip 6 div 256, segment ip 6 mod 256, segment ip 7 div 256, segment ip 7 mod 256])
      else None)"

definition ipv4_in_cidr :: "32 word \<Rightarrow> nat list \<Rightarrow> nat \<Rightarrow> bool" where
  "ipv4_in_cidr ip base prefix_len =
     (let base = from_octets base;
          mask = (if prefix_len = 0 then 0 else push_bit (32 - prefix_len) (- 1) :: 32 word)
      in ip AND mask = base AND mask)"

definition is_non_public_ipv4 :: "32 word \<Rightarrow> bool" where
  "is_non_public_ipv4 ip \<longleftrightarrow>
     v4_is_loopback ip \<or> v4_is_private ip \<or> v4_is_link_local ip \<or> ip = 0 \<or> v4_is_multicast ip \<or> ip = - 1
     \<or> ipv4_in_cidr ip [0, 0, 0, 0] 8
     \<or> ipv4_in_cidr ip [100, 64, 0, 0] 10
     \<or> ipv4_in_cidr ip [192, 0, 0, 0] 24
     \<or> ipv4_in_cidr ip [192, 0, 2, 0] 24
     \<or> ipv4_in_cidr ip [198, 18, 0, 0] 15
     \<or> ipv4_in_cidr ip [198, 51, 100, 0] 24
     \<or> ipv4_in_cidr ip [203, 0, 113, 0] 24
     \<or> ipv4_in_cidr ip [240, 0, 0, 0] 4"

definition is_non_public_ipv6 :: "128 word \<Rightarrow> bool" where
  "is_non_public_ipv6 ip =
     (case to_ipv4 ip of
        Some v4 \<Rightarrow> is_non_public_ipv4 v4 \<or> v6_is_loopback ip
      | None \<Rightarrow>
          v6_is_loopback ip
          \<or> ip = 0
          \<or> segment ip 0 AND 0xFF00 = 0xFF00
          \<or> segment ip 0 AND 0xFE00 = 0xFC00
          \<or> segment ip 0 AND 0xFFC0 = 0xFE80)"

fun is_non_public_ip :: "ip_addr \<Rightarrow> bool" where
  "is_non_public_ip (V4 ip) = is_non_public_ipv4 ip"
| "is_non_public_ip (V6 ip) = is_non_public_ipv6 ip"

text \<open>The same ranges written as a table: the first address of a block and the length of its prefix, with the
  addresses of the registries of special-purpose blocks (RFC 6890 and its updates).\<close>

definition special_ranges :: "(nat list \<times> nat) list" where
  "special_ranges =
     [([0, 0, 0, 0], 8), ([10, 0, 0, 0], 8), ([100, 64, 0, 0], 10), ([127, 0, 0, 0], 8), ([169, 254, 0, 0], 16),
      ([172, 16, 0, 0], 12), ([192, 0, 0, 0], 24), ([192, 0, 2, 0], 24), ([192, 168, 0, 0], 16), ([198, 18, 0, 0], 15),
      ([198, 51, 100, 0], 24), ([203, 0, 113, 0], 24), ([224, 0, 0, 0], 4), ([240, 0, 0, 0], 4)]"

definition octets_value :: "nat list \<Rightarrow> nat" where
  "octets_value os = foldl (\<lambda>n x. 256 * n + x) 0 os"

subsection \<open>Blocks of addresses\<close>

lemma unat_lt2p_32: "unat (x :: 32 word) < 2 ^ 32"
  using unsigned_less [of x] by simp

lemma mask_eq_drop_bit:
  fixes x y :: "'a::len word"
  shows "x AND push_bit k (- 1) = y AND push_bit k (- 1) \<longleftrightarrow> drop_bit k x = drop_bit k y"
proof
  assume a: "x AND push_bit k (- 1) = y AND push_bit k (- 1)"
  have "drop_bit k (z AND push_bit k (- 1)) = drop_bit k z" for z :: "'a word"
    by (rule bit_word_eqI) (auto simp: bit_simps dest: bit_imp_le_length)
  with a show "drop_bit k x = drop_bit k y" by metis
next
  assume a: "drop_bit k x = drop_bit k y"
  have "z AND push_bit k (- 1) = push_bit k (drop_bit k z)" for z :: "'a word"
    by (rule bit_word_eqI) (auto simp: bit_simps)
  with a show "x AND push_bit k (- 1) = y AND push_bit k (- 1)" by simp
qed

lemma ipv4_in_cidr_div:
  "prefix_len \<le> 32 \<Longrightarrow> ipv4_in_cidr ip base prefix_len \<longleftrightarrow>
     unat ip div 2 ^ (32 - prefix_len) = unat (from_octets base) div 2 ^ (32 - prefix_len)"
proof (cases "prefix_len = 0")
  case True
  then show ?thesis using unat_lt2p_32 [of ip] unat_lt2p_32 [of "from_octets base"] by (simp add: ipv4_in_cidr_def)
next
  case False
  assume "prefix_len \<le> 32"
  have "drop_bit k x = drop_bit k y \<longleftrightarrow> unat x div 2 ^ k = unat y div 2 ^ k" for k and x y :: "32 word"
    using unat_drop_bit_eq [of k x] unat_drop_bit_eq [of k y] by (simp only: word_unat_eq_iff drop_bit_eq_div [of k "unat _"])
  then show ?thesis using False by (simp only: ipv4_in_cidr_def mask_eq_drop_bit Let_def if_False)
qed

lemma octet_div: "octet ip i = unat ip div 2 ^ (8 * (3 - i)) mod 256"
proof -
  have "x AND 255 = take_bit 8 x" for x :: "32 word"
    using take_bit_eq_mask [of 8 x] by (simp add: mask_eq_exp_minus_1)
  then have "octet ip i = unat (take_bit 8 (drop_bit (8 * (3 - i)) ip))"
    by (simp add: octet_def)
  moreover have "unat (take_bit 8 (drop_bit (8 * (3 - i)) ip)) = take_bit 8 (drop_bit (8 * (3 - i)) (unat ip))"
    by (simp only: unsigned_take_bit_eq unat_drop_bit_eq)
  ultimately show ?thesis by (simp only: take_bit_eq_mod drop_bit_eq_div) simp
qed

lemma div_eq_range: "0 < k \<Longrightarrow> n div k = m \<longleftrightarrow> m * k \<le> n \<and> n < m * k + (k :: nat)"
  using less_eq_div_iff_mult_less_eq [of k m n] div_less_iff_less_mult [of k n "Suc m"] by auto

lemma two_octets:
  fixes q :: nat
  shows "b < 256 \<Longrightarrow> q div 256 = a \<and> q mod 256 = b \<longleftrightarrow> q = 256 * a + b"
    and "q div 256 = 172 \<and> 16 \<le> q mod 256 \<and> q mod 256 \<le> 31 \<longleftrightarrow> q div 16 = 2753"
    and "224 \<le> q div 256 \<and> q div 256 \<le> 239 \<longleftrightarrow> q div 4096 = 14"
proof -
  have q: "q = 256 * (q div 256) + q mod 256" by simp
  show "b < 256 \<Longrightarrow> q div 256 = a \<and> q mod 256 = b \<longleftrightarrow> q = 256 * a + b"
    using q by auto
  have "d < 256 \<Longrightarrow> (c = 172 \<and> 16 \<le> d \<and> d \<le> 31) \<longleftrightarrow> 44048 \<le> 256 * c + d \<and> 256 * c + d < 44064" for c d :: nat
    by presburger
  from this [of "q mod 256" "q div 256"] show "q div 256 = 172 \<and> 16 \<le> q mod 256 \<and> q mod 256 \<le> 31 \<longleftrightarrow> q div 16 = 2753"
    using div_eq_range [of 16 q 2753] by simp
  show "224 \<le> q div 256 \<and> q div 256 \<le> 239 \<longleftrightarrow> q div 4096 = 14"
    using less_eq_div_iff_mult_less_eq [of 256 224 q] div_less_iff_less_mult [of 256 q 240]
    by (subst div_eq_range [of 4096]) auto
qed

lemma std_classes_div:
  "v4_is_loopback ip \<longleftrightarrow> unat ip div 16777216 = 127"
  "v4_is_private ip \<longleftrightarrow> unat ip div 16777216 = 10 \<or> unat ip div 1048576 = 2753 \<or> unat ip div 65536 = 49320"
  "v4_is_link_local ip \<longleftrightarrow> unat ip div 65536 = 43518"
  "v4_is_multicast ip \<longleftrightarrow> unat ip div 268435456 = 14"
proof -
  define q where "q = unat ip div 65536"
  have n: "unat ip < 4294967296" using unat_lt2p_32 [of ip] by simp
  then have q: "q < 65536" by (simp add: q_def less_mult_imp_div_less)
  have d: "unat ip div 16777216 = q div 256" "unat ip div 1048576 = q div 16" "unat ip div 268435456 = q div 4096"
    by (simp_all add: q_def flip: div_mult2_eq)
  have o: "octet ip 0 = q div 256" "octet ip (Suc 0) = q mod 256" using q d(1) by (simp_all add: octet_div q_def)
  show "v4_is_loopback ip \<longleftrightarrow> unat ip div 16777216 = 127" by (simp add: v4_is_loopback_def o d)
  show "v4_is_private ip \<longleftrightarrow> unat ip div 16777216 = 10 \<or> unat ip div 1048576 = 2753 \<or> unat ip div 65536 = 49320"
    using two_octets(1) [of 168 q 192] two_octets(2) [of q] by (simp add: v4_is_private_def o d flip: q_def)
  show "v4_is_link_local ip \<longleftrightarrow> unat ip div 65536 = 43518"
    using two_octets(1) [of 254 q 169] by (simp add: v4_is_link_local_def o flip: q_def)
  show "v4_is_multicast ip \<longleftrightarrow> unat ip div 268435456 = 14"
    using two_octets(3) [of q] by (simp only: v4_is_multicast_def o d)
qed

lemma all_zero_ones_div:
  "ip = 0 \<Longrightarrow> unat ip div 16777216 = 0"
  "(ip :: 32 word) = - 1 \<Longrightarrow> unat ip div 268435456 = 15"
  by (simp_all add: unsigned_minus_1_eq_mask mask_eq_exp_minus_1)

text \<open>Rules that read a given text.\<close>

lemmas ip_eval = parse_ip_def read_ipv4_addr_def read_separator_def read_number_def to_digit_def read_ipv6_addr_def
  strip_prefix_def starts_with_def

end
