(* ===== verification/Net_Policy.thy ===== *)
theory Net_Policy
  imports Ip_Addr Exec_Rule
begin

text \<open>
  Hosts and domain patterns of the network proxy (\<open>network-proxy/src/policy.rs\<close>): normal forms, the patterns
  of allow and deny lists and when one pattern allows another. Glob matchers, the parser of URL hosts,
  header names and values and the pairs of a query string come from other packages; \<open>net_lib\<close> is what the
  proxy uses of them.
\<close>

type_synonym u16 = "16 word"

record url_parts =
  url_scheme :: string
  url_username :: string
  url_password :: "string option"
  url_host_str :: "string option"
  url_port :: "u16 option"

record net_lib =
  nl_url :: "string \<Rightarrow> url_parts option"
  nl_valid :: "string \<Rightarrow> bool"
  nl_match :: "string \<Rightarrow> string \<Rightarrow> bool"
  nl_builds :: "string list \<Rightarrow> bool"
  nl_url_host :: "string \<Rightarrow> string option"
  nl_hook_glob :: "bool \<Rightarrow> string \<Rightarrow> bool"
  nl_hook_match :: "bool \<Rightarrow> string \<Rightarrow> string \<Rightarrow> bool"
  nl_header_name :: "string \<Rightarrow> string option"
  nl_header_value :: "string \<Rightarrow> bool"
  nl_form_pairs :: "string \<Rightarrow> (string \<times> string) list"

definition split_once_str :: "string \<Rightarrow> string \<Rightarrow> (string \<times> string) option" where
  "split_once_str delimiter s = map_option (\<lambda>i. (take i s, drop (i + length delimiter) s)) (str_find delimiter s)"

subsection \<open>Hosts\<close>

definition normalize_ip_literal :: "string \<Rightarrow> string option" where
  "normalize_ip_literal host =
     (if parse_ip host \<noteq> None then Some host
      else
        (let scoped = (\<lambda>delimiter. case split_once_str delimiter host of
               Some (ip, scope) \<Rightarrow> if parse_ip ip \<noteq> None then Some (ip @ ''%'' @ scope) else None
             | None \<Rightarrow> None)
         in case scoped ''%25'' of
              Some r \<Rightarrow> Some r
            | None \<Rightarrow> scoped ''%''))"

definition unscoped_ip_literal :: "string \<Rightarrow> string option" where
  "unscoped_ip_literal host =
     (case split_once (CHR ''%'') host of
        Some (ip, _) \<Rightarrow> if parse_ip ip \<noteq> None then Some ip else None
      | None \<Rightarrow> None)"

definition normalize_dns_host_or_ip_literal :: "string \<Rightarrow> string" where
  "normalize_dns_host_or_ip_literal host =
     (let host = trim_end_dots (to_ascii_lowercase host)
      in case normalize_ip_literal host of
           Some ip \<Rightarrow> ip
         | None \<Rightarrow> host)"

definition normalize_host :: "string \<Rightarrow> string" where
  "normalize_host host =
     (let host = trim host
      in if starts_with host ''['' \<and> CHR '']'' \<in> set host
         then normalize_dns_host_or_ip_literal (tl (takeWhile (\<lambda>c. c \<noteq> CHR '']'') host))
         else if count_list host (CHR '':'') = 1
         then normalize_dns_host_or_ip_literal (takeWhile (\<lambda>c. c \<noteq> CHR '':'') host)
         else normalize_dns_host_or_ip_literal host)"

text \<open>\<open>Host::parse\<close>: a host with a name.\<close>

definition parse_host :: "string \<Rightarrow> string option" where
  "parse_host input = (let normalized = normalize_host input in if normalized = [] then None else Some normalized)"

definition is_loopback_host :: "string \<Rightarrow> bool" where
  "is_loopback_host host =
     (let host = (case unscoped_ip_literal host of Some ip \<Rightarrow> ip | None \<Rightarrow> host)
      in host = ''localhost'' \<or> (case parse_ip host of Some ip \<Rightarrow> is_loopback ip | None \<Rightarrow> False))"

subsection \<open>Patterns\<close>

datatype domain_pattern = ApexAndSubdomains string | SubdomainsOnly string | Exact string

definition parse_domain :: "string \<Rightarrow> (string \<Rightarrow> domain_pattern) \<Rightarrow> domain_pattern" where
  "parse_domain domain build = (let domain = trim domain in if domain = [] then Exact [] else build domain)"

definition parse_pattern :: "string \<Rightarrow> domain_pattern" where
  "parse_pattern input =
     (let input = trim input
      in if input = [] then Exact []
         else case strip_prefix ''**.'' input of
                Some domain \<Rightarrow> parse_domain domain ApexAndSubdomains
              | None \<Rightarrow>
                  (case strip_prefix ''*.'' input of
                     Some domain \<Rightarrow> parse_domain domain SubdomainsOnly
                   | None \<Rightarrow> Exact input))"

definition parse_domain_for_constraints :: "net_lib \<Rightarrow> string \<Rightarrow> string" where
  "parse_domain_for_constraints nl domain =
     (let domain = trim_end_dots (trim domain)
      in if domain = [] then []
         else
           (let host = (if starts_with domain ''['' \<and> ends_with domain '']'' then take (length domain - 2) (tl domain) else domain)
            in if CHR ''*'' \<in> set host \<or> CHR ''?'' \<in> set host \<or> CHR ''%'' \<in> set host then domain
               else case nl_url_host nl host of Some h \<Rightarrow> h | None \<Rightarrow> []))"

definition parse_for_constraints :: "net_lib \<Rightarrow> string \<Rightarrow> domain_pattern" where
  "parse_for_constraints nl input =
     (let input = trim input
      in if input = [] then Exact []
         else case strip_prefix ''**.'' input of
                Some domain \<Rightarrow> ApexAndSubdomains (parse_domain_for_constraints nl domain)
              | None \<Rightarrow>
                  (case strip_prefix ''*.'' input of
                     Some domain \<Rightarrow> SubdomainsOnly (parse_domain_for_constraints nl domain)
                   | None \<Rightarrow> Exact (parse_domain_for_constraints nl input)))"

definition normalize_domain :: "string \<Rightarrow> string" where
  "normalize_domain domain = to_ascii_lowercase (trim_end_dots domain)"

definition domain_eq :: "string \<Rightarrow> string \<Rightarrow> bool" where
  "domain_eq left right \<longleftrightarrow> normalize_domain left = normalize_domain right"

definition is_subdomain_or_equal :: "string \<Rightarrow> string \<Rightarrow> bool" where
  "is_subdomain_or_equal child parent =
     (let child = normalize_domain child; parent = normalize_domain parent
      in child = parent \<or> ends_with child (''.'' @ parent))"

definition is_strict_subdomain :: "string \<Rightarrow> string \<Rightarrow> bool" where
  "is_strict_subdomain child parent =
     (let child = normalize_domain child; parent = normalize_domain parent
      in child \<noteq> parent \<and> ends_with child (''.'' @ parent))"

fun pattern_allows :: "domain_pattern \<Rightarrow> domain_pattern \<Rightarrow> bool" where
  "pattern_allows (Exact domain) (Exact candidate) = domain_eq candidate domain"
| "pattern_allows (Exact domain) _ = False"
| "pattern_allows (SubdomainsOnly domain) (Exact candidate) = is_strict_subdomain candidate domain"
| "pattern_allows (SubdomainsOnly domain) (SubdomainsOnly candidate) = is_subdomain_or_equal candidate domain"
| "pattern_allows (SubdomainsOnly domain) (ApexAndSubdomains candidate) = is_strict_subdomain candidate domain"
| "pattern_allows (ApexAndSubdomains domain) (Exact candidate) = is_subdomain_or_equal candidate domain"
| "pattern_allows (ApexAndSubdomains domain) (SubdomainsOnly candidate) = is_subdomain_or_equal candidate domain"
| "pattern_allows (ApexAndSubdomains domain) (ApexAndSubdomains candidate) = is_subdomain_or_equal candidate domain"

definition expand_domain_pattern :: "string \<Rightarrow> string list" where
  "expand_domain_pattern pattern =
     (case parse_pattern pattern of
        Exact domain \<Rightarrow> [domain]
      | SubdomainsOnly domain \<Rightarrow> [''?*.'' @ domain]
      | ApexAndSubdomains domain \<Rightarrow> [domain, ''?*.'' @ domain])"

definition normalize_pattern :: "string \<Rightarrow> string" where
  "normalize_pattern pattern =
     (let pattern = trim pattern
      in if pattern = ''*'' then ''*''
         else case strip_prefix ''**.'' pattern of
                Some domain \<Rightarrow> ''**.'' @ normalize_host domain
              | None \<Rightarrow>
                  (case strip_prefix ''*.'' pattern of
                     Some domain \<Rightarrow> ''*.'' @ normalize_host domain
                   | None \<Rightarrow> normalize_host pattern))"

definition is_global_wildcard_domain_pattern :: "string \<Rightarrow> bool" where
  "is_global_wildcard_domain_pattern pattern = list_ex (\<lambda>c. c = ''*'') (expand_domain_pattern (normalize_pattern pattern))"

subsection \<open>Glob sets\<close>

datatype compile_error = GlobalWildcard | InvalidGlob string | GlobSetTooLarge

text \<open>The candidates of one pattern, each kept once.\<close>

fun add_candidates :: "net_lib \<Rightarrow> string list \<Rightarrow> string list \<Rightarrow> compile_error + string list" where
  "add_candidates nl seen [] = Inr seen"
| "add_candidates nl seen (c # cs) =
     (if c \<in> set seen then add_candidates nl seen cs
      else if \<not> nl_valid nl c then Inl (InvalidGlob c)
      else add_candidates nl (seen @ [c]) cs)"

fun compile_patterns :: "net_lib \<Rightarrow> bool \<Rightarrow> string list \<Rightarrow> string list \<Rightarrow> compile_error + string list" where
  "compile_patterns nl reject_global seen [] = Inr seen"
| "compile_patterns nl reject_global seen (pattern # patterns) =
     (if reject_global \<and> is_global_wildcard_domain_pattern pattern then Inl GlobalWildcard
      else result_bind (add_candidates nl seen (expand_domain_pattern (normalize_pattern pattern)))
        (\<lambda>seen. compile_patterns nl reject_global seen patterns))"

text \<open>A compiled set is the list of its globs.\<close>

definition compile_globset_with_policy :: "net_lib \<Rightarrow> bool \<Rightarrow> string list \<Rightarrow> compile_error + string list" where
  "compile_globset_with_policy nl reject_global patterns =
     result_bind (compile_patterns nl reject_global [] patterns)
       (\<lambda>globs. if nl_builds nl globs then Inr globs else Inl GlobSetTooLarge)"

definition set_is_match :: "net_lib \<Rightarrow> string list \<Rightarrow> string \<Rightarrow> bool" where
  "set_is_match nl globs host = list_ex (\<lambda>g. nl_match nl g host) globs"

end
