(* ===== verification/Net_Hooks.thy ===== *)
theory Net_Hooks
  imports Net_Policy Abs_Path
begin

text \<open>
  Hooks on the requests that the network proxy decrypts (\<open>network-proxy/src/mitm_hook.rs\<close>): their configuration,
  validation, compilation with the secrets they inject, and the hook that a request meets; and the paths on which
  a request may be authorised (\<open>network-proxy/src/authorization_path.rs\<close>).
\<close>

subsection \<open>Paths that mean one thing\<close>

definition decode_hex_digit :: "char \<Rightarrow> nat option" where
  "decode_hex_digit c =
     (if of_char CHR ''0'' \<le> (of_char c :: nat) \<and> (of_char c :: nat) \<le> of_char CHR ''9''
      then Some (of_char c - of_char CHR ''0'')
      else if of_char CHR ''a'' \<le> (of_char c :: nat) \<and> (of_char c :: nat) \<le> of_char CHR ''f''
      then Some (of_char c - of_char CHR ''a'' + 10)
      else if of_char CHR ''A'' \<le> (of_char c :: nat) \<and> (of_char c :: nat) \<le> of_char CHR ''F''
      then Some (of_char c - of_char CHR ''A'' + 10)
      else None)"

text \<open>The bytes left to read, the dots so far and whether there was anything else.\<close>

fun safe_segment :: "string \<Rightarrow> nat \<Rightarrow> bool \<Rightarrow> bool" where
  "safe_segment [] decoded_dots has_non_dot = (has_non_dot \<or> \<not> (decoded_dots = 1 \<or> decoded_dots = 2))"
| "safe_segment (b # bytes) decoded_dots has_non_dot =
     (if b = CHR ''.'' then safe_segment bytes (decoded_dots + 1) has_non_dot
      else if b = CHR 0x5C then False
      else if b = CHR ''%'' then
        (case bytes of
           h # l # rest \<Rightarrow>
             (case (decode_hex_digit h, decode_hex_digit l) of
                (Some high, Some low) \<Rightarrow>
                  (let decoded = (char_of (high * 16 + low) :: char)
                   in if decoded = CHR ''%'' \<or> decoded = CHR ''/'' \<or> decoded = CHR 0x5C then False
                      else if decoded = CHR ''.'' then safe_segment rest (decoded_dots + 1) has_non_dot
                      else safe_segment rest decoded_dots True)
              | _ \<Rightarrow> False)
         | _ \<Rightarrow> False)
      else safe_segment bytes decoded_dots True)"

definition is_safe_segment_for_authorization :: "string \<Rightarrow> bool" where
  "is_safe_segment_for_authorization s = safe_segment s 0 False"

definition is_safe_for_authorization :: "string \<Rightarrow> bool" where
  "is_safe_for_authorization p = list_all is_safe_segment_for_authorization (segments p)"

subsection \<open>Configuration\<close>

record injected_header_config =
  ih_name :: string
  ih_secret_env_var :: "string option"
  ih_secret_file :: "path option"
  ih_prefix :: "string option"

record hook_match_config =
  hm_methods :: "string list"
  hm_path_prefixes :: "string list"
  hm_query :: "(string \<times> string list) list"
  hm_headers :: "(string \<times> string list) list"
  hm_body :: "string option"

record hook_actions_config =
  hc_strip_request_headers :: "string list"
  hc_inject_request_headers :: "injected_header_config list"

record hook_config =
  hk_host :: string
  hk_matcher :: hook_match_config
  hk_actions :: hook_actions_config

subsection \<open>Compiled hooks\<close>

datatype secret_source = EnvVar string | SecretFile path

record injected_header =
  rh_name :: string
  rh_value :: string
  rh_source :: secret_source

record hook_actions =
  ha_strip_request_headers :: "string list"
  ha_inject_request_headers :: "injected_header list"

datatype matcher_pattern = Literal string | Glob string

datatype path_matcher = PathPrefix string | PathGlob string

datatype value_matcher = ExactValue string | ValueGlob string

record hook_matcher =
  mm_methods :: "string list"
  mm_path_prefixes :: "path_matcher list"
  mm_query :: "(string \<times> value_matcher list) list"
  mm_headers :: "(string \<times> value_matcher list) list"

record mitm_hook =
  mh_host :: string
  mh_matcher :: hook_matcher
  mh_actions :: hook_actions

type_synonym hooks_by_host = "string \<rightharpoonup> mitm_hook list"

datatype hook_fault =
    EmptyHost
  | WildcardHost
  | EmptyMethod
  | NoMethods
  | EmptyGlob
  | InvalidHookGlob string
  | EmptyPathPrefix
  | NoPathPrefixes
  | BodyUnsupported
  | EmptyQueryKey
  | NoQueryValues string
  | InvalidHeaderName string
  | EmptySecretEnvVar
  | EmptySecretFile
  | RelativeSecretFile path
  | SecretPathFailed path
  | NotOneSecret
  | MissingEnvVar string
  | SecretUnreadable path
  | InvalidHeaderValue string

datatype hook_error = HooksNeedMitm | HookAt nat hook_fault | HookFault hook_fault

text \<open>What the host gives: the home and working directory, environment variables, secret files and canonical
  paths; whether the state of the interception can be set up; and whether unix sockets are supported.\<close>

record net_env =
  ne_home :: "path option"
  ne_cwd :: "path option"
  ne_env_var :: "string \<Rightarrow> string option"
  ne_read_file :: "path \<Rightarrow> string option"
  ne_canonicalize :: "path \<Rightarrow> path option"
  ne_mitm_ready :: "bool \<Rightarrow> bool"
  ne_macos :: bool

definition PATTERN_PREFIX :: string where
  "PATTERN_PREFIX = ''pattern:''"

definition LITERAL_PREFIX :: string where
  "LITERAL_PREFIX = ''literal:''"

definition parse_matcher_pattern :: "string \<Rightarrow> hook_fault + matcher_pattern" where
  "parse_matcher_pattern pattern =
     (case strip_prefix LITERAL_PREFIX pattern of
        Some literal \<Rightarrow> Inr (Literal literal)
      | None \<Rightarrow>
          (case strip_prefix PATTERN_PREFIX pattern of
             None \<Rightarrow> Inr (Literal pattern)
           | Some glob_pattern \<Rightarrow> if glob_pattern = [] then Inl EmptyGlob else Inr (Glob glob_pattern)))"

definition compile_glob_matcher :: "net_lib \<Rightarrow> string \<Rightarrow> bool \<Rightarrow> hook_fault + string" where
  "compile_glob_matcher nl pattern literal_separator =
     (if nl_hook_glob nl literal_separator pattern then Inr pattern else Inl (InvalidHookGlob pattern))"

definition compile_path_matcher :: "net_lib \<Rightarrow> string \<Rightarrow> hook_fault + path_matcher" where
  "compile_path_matcher nl p =
     result_bind (parse_matcher_pattern p) (\<lambda>m.
       case m of
         Literal literal \<Rightarrow> if literal = [] then Inl EmptyPathPrefix else Inr (PathPrefix literal)
       | Glob g \<Rightarrow> result_bind (compile_glob_matcher nl g True) (\<lambda>g. Inr (PathGlob g)))"

definition compile_path_matchers :: "net_lib \<Rightarrow> string list \<Rightarrow> hook_fault + path_matcher list" where
  "compile_path_matchers nl path_prefixes = collect_results (map (compile_path_matcher nl) path_prefixes)"

definition compile_value_matcher :: "net_lib \<Rightarrow> string \<Rightarrow> hook_fault + value_matcher" where
  "compile_value_matcher nl v =
     result_bind (parse_matcher_pattern v) (\<lambda>m.
       case m of
         Literal literal \<Rightarrow> Inr (ExactValue literal)
       | Glob g \<Rightarrow> result_bind (compile_glob_matcher nl g False) (\<lambda>g. Inr (ValueGlob g)))"

definition compile_value_matchers :: "net_lib \<Rightarrow> string list \<Rightarrow> hook_fault + value_matcher list" where
  "compile_value_matchers nl vs = collect_results (map (compile_value_matcher nl) vs)"

definition normalize_hook_host :: "string \<Rightarrow> hook_fault + string" where
  "normalize_hook_host host =
     (let normalized = normalize_host host
      in if normalized = [] then Inl EmptyHost
         else if CHR ''*'' \<in> set normalized then Inl WildcardHost
         else Inr normalized)"

definition ascii_upper :: "char \<Rightarrow> char" where
  "ascii_upper c = (if 97 \<le> (of_char c :: nat) \<and> (of_char c :: nat) \<le> 122 then char_of ((of_char c :: nat) - 32) else c)"

definition to_ascii_uppercase :: "string \<Rightarrow> string" where
  "to_ascii_uppercase s = map ascii_upper s"

definition normalize_method :: "string \<Rightarrow> hook_fault + string" where
  "normalize_method m = (let normalized = to_ascii_uppercase (trim m) in if normalized = [] then Inl EmptyMethod else Inr normalized)"

definition normalize_methods :: "string list \<Rightarrow> hook_fault + string list" where
  "normalize_methods methods = collect_results (map normalize_method methods)"

definition normalize_query_name :: "string \<Rightarrow> hook_fault + string" where
  "normalize_query_name name = (if name = [] then Inl EmptyQueryKey else Inr name)"

definition parse_header_name :: "net_lib \<Rightarrow> string \<Rightarrow> hook_fault + string" where
  "parse_header_name nl name = (case nl_header_name nl name of Some n \<Rightarrow> Inr n | None \<Rightarrow> Inl (InvalidHeaderName name))"

definition parse_secret_file :: "net_env \<Rightarrow> path \<Rightarrow> hook_fault + path" where
  "parse_secret_file env p =
     (if trim p = [] then Inl EmptySecretFile
      else if \<not> is_absolute p then Inl (RelativeSecretFile p)
      else case from_absolute_path (ne_home env) (ne_cwd env) p of
             Some p \<Rightarrow> Inr p
           | None \<Rightarrow> Inl (SecretPathFailed p))"

subsection \<open>Validation\<close>

definition validate_query_constraint :: "net_lib \<Rightarrow> string \<times> string list \<Rightarrow> hook_fault + unit" where
  "validate_query_constraint nl q =
     (case q of (name, vs) \<Rightarrow>
        result_bind (normalize_query_name name) (\<lambda>normalized.
          if normalized = [] then Inl EmptyQueryKey
          else if vs = [] then Inl (NoQueryValues name)
          else result_bind (compile_value_matchers nl vs) (\<lambda>_. Inr ())))"

definition validate_header_constraint :: "net_lib \<Rightarrow> string \<times> string list \<Rightarrow> hook_fault + unit" where
  "validate_header_constraint nl h =
     (case h of (name, vs) \<Rightarrow>
        result_bind (parse_header_name nl name) (\<lambda>_. result_bind (compile_value_matchers nl vs) (\<lambda>_. Inr ())))"

definition validate_injected_header :: "net_lib \<Rightarrow> net_env \<Rightarrow> injected_header_config \<Rightarrow> hook_fault + unit" where
  "validate_injected_header nl env header =
     result_bind (parse_header_name nl (ih_name header)) (\<lambda>_.
       case (ih_secret_env_var header, ih_secret_file header) of
         (Some secret_env_var, None) \<Rightarrow> if trim secret_env_var = [] then Inl EmptySecretEnvVar else Inr ()
       | (None, Some secret_file) \<Rightarrow> result_bind (parse_secret_file env secret_file) (\<lambda>_. Inr ())
       | _ \<Rightarrow> Inl NotOneSecret)"

text \<open>One hook of the list.\<close>

definition validate_hook :: "net_lib \<Rightarrow> net_env \<Rightarrow> hook_config \<Rightarrow> hook_fault + unit" where
  "validate_hook nl env hook =
     result_bind (normalize_hook_host (hk_host hook)) (\<lambda>host.
     result_bind (normalize_methods (hm_methods (hk_matcher hook))) (\<lambda>methods.
     if methods = [] then Inl NoMethods
     else result_bind (compile_path_matchers nl (hm_path_prefixes (hk_matcher hook))) (\<lambda>path_prefixes.
     if path_prefixes = [] then Inl NoPathPrefixes
     else if hm_body (hk_matcher hook) \<noteq> None then Inl BodyUnsupported
     else result_bind (collect_results (map (validate_query_constraint nl) (hm_query (hk_matcher hook)))) (\<lambda>_.
     result_bind (collect_results (map (validate_header_constraint nl) (hm_headers (hk_matcher hook)))) (\<lambda>_.
     result_bind (collect_results (map (parse_header_name nl) (hc_strip_request_headers (hk_actions hook)))) (\<lambda>_.
     result_bind (collect_results (map (validate_injected_header nl env) (hc_inject_request_headers (hk_actions hook)))) (\<lambda>_.
     if host = [] then Inl EmptyHost else Inr ())))))))"

definition validate_hooks :: "net_lib \<Rightarrow> net_env \<Rightarrow> bool \<Rightarrow> hook_config list \<Rightarrow> hook_error + unit" where
  "validate_hooks nl env mitm hooks =
     (if hooks = [] then Inr ()
      else if \<not> mitm then Inl HooksNeedMitm
      else result_bind (collect_results (map (\<lambda>(i, hook). map_err (HookAt i) (validate_hook nl env hook)) (List.enumerate 0 hooks)))
             (\<lambda>_. Inr ()))"

subsection \<open>Compilation\<close>

definition compile_injected_header :: "net_lib \<Rightarrow> net_env \<Rightarrow> injected_header_config \<Rightarrow> hook_fault + injected_header" where
  "compile_injected_header nl env header =
     result_bind (parse_header_name nl (ih_name header)) (\<lambda>name.
     result_bind
       (case (ih_secret_env_var header, ih_secret_file header) of
          (Some env_var, None) \<Rightarrow>
            (case ne_env_var env env_var of Some v \<Rightarrow> Inr (v, EnvVar env_var) | None \<Rightarrow> Inl (MissingEnvVar env_var))
        | (None, Some secret_file) \<Rightarrow>
            result_bind (parse_secret_file env secret_file) (\<lambda>p.
              case ne_read_file env p of Some v \<Rightarrow> Inr (trim v, SecretFile p) | None \<Rightarrow> Inl (SecretUnreadable p))
        | _ \<Rightarrow> Inl NotOneSecret) (\<lambda>(secret, source).
     let v = (case ih_prefix header of Some p \<Rightarrow> p | None \<Rightarrow> []) @ secret
     in if nl_header_value nl v then Inr \<lparr>rh_name = name, rh_value = v, rh_source = source\<rparr>
        else Inl (InvalidHeaderValue (ih_name header))))"

definition compile_constraint ::
  "net_lib \<Rightarrow> (string \<Rightarrow> hook_fault + string) \<Rightarrow> string \<times> string list \<Rightarrow> hook_fault + string \<times> value_matcher list" where
  "compile_constraint nl parse_name c =
     (case c of (name, vs) \<Rightarrow>
        result_bind (parse_name name) (\<lambda>name. result_bind (compile_value_matchers nl vs) (\<lambda>vs. Inr (name, vs))))"

definition compile_hook :: "net_lib \<Rightarrow> net_env \<Rightarrow> hook_config \<Rightarrow> hook_fault + mitm_hook" where
  "compile_hook nl env hook =
     result_bind (normalize_hook_host (hk_host hook)) (\<lambda>host.
     result_bind (normalize_methods (hm_methods (hk_matcher hook))) (\<lambda>methods.
     result_bind (compile_path_matchers nl (hm_path_prefixes (hk_matcher hook))) (\<lambda>path_prefixes.
     result_bind (collect_results (map (compile_constraint nl normalize_query_name) (hm_query (hk_matcher hook)))) (\<lambda>query.
     result_bind (collect_results (map (compile_constraint nl (parse_header_name nl)) (hm_headers (hk_matcher hook)))) (\<lambda>headers.
     result_bind (collect_results (map (parse_header_name nl) (hc_strip_request_headers (hk_actions hook)))) (\<lambda>strip.
     result_bind (collect_results (map (compile_injected_header nl env) (hc_inject_request_headers (hk_actions hook)))) (\<lambda>inject.
     Inr \<lparr>mh_host = host,
          mh_matcher = \<lparr>mm_methods = methods, mm_path_prefixes = path_prefixes, mm_query = query, mm_headers = headers\<rparr>,
          mh_actions = \<lparr>ha_strip_request_headers = strip, ha_inject_request_headers = inject\<rparr>\<rparr>)))))))"

definition add_hook :: "mitm_hook \<Rightarrow> hooks_by_host \<Rightarrow> hooks_by_host" where
  "add_hook hook hooks = hooks(mh_host hook \<mapsto> (case hooks (mh_host hook) of Some hs \<Rightarrow> hs | None \<Rightarrow> []) @ [hook])"

fun compile_hooks :: "net_lib \<Rightarrow> net_env \<Rightarrow> hooks_by_host \<Rightarrow> hook_config list \<Rightarrow> hook_fault + hooks_by_host" where
  "compile_hooks nl env hooks [] = Inr hooks"
| "compile_hooks nl env hooks (c # cs) = result_bind (compile_hook nl env c) (\<lambda>hook. compile_hooks nl env (add_hook hook hooks) cs)"

definition compile_mitm_hooks :: "net_lib \<Rightarrow> net_env \<Rightarrow> bool \<Rightarrow> hook_config list \<Rightarrow> hook_error + hooks_by_host" where
  "compile_mitm_hooks nl env mitm hooks =
     result_bind (validate_hooks nl env mitm hooks) (\<lambda>_. map_err HookFault (compile_hooks nl env Map.empty hooks))"

subsection \<open>Requests\<close>

text \<open>A header value that is not text has no string.\<close>

record http_request =
  rq_method :: string
  rq_path :: string
  rq_query :: "string option"
  rq_headers :: "(string \<times> string option) list"

fun path_matcher_matches :: "net_lib \<Rightarrow> path_matcher \<Rightarrow> string \<Rightarrow> bool" where
  "path_matcher_matches nl (PathPrefix p) candidate = starts_with candidate p"
| "path_matcher_matches nl (PathGlob g) candidate = nl_hook_match nl True g candidate"

fun value_matches :: "net_lib \<Rightarrow> value_matcher \<Rightarrow> string \<Rightarrow> bool" where
  "value_matches nl (ExactValue v) candidate = (v = candidate)"
| "value_matches nl (ValueGlob g) candidate = nl_hook_match nl False g candidate"

definition path_matches :: "net_lib \<Rightarrow> path_matcher list \<Rightarrow> string \<Rightarrow> bool" where
  "path_matches nl path_prefixes p = list_ex (\<lambda>m. path_matcher_matches nl m p) path_prefixes"

definition query_matches :: "net_lib \<Rightarrow> (string \<times> value_matcher list) list \<Rightarrow> http_request \<Rightarrow> bool" where
  "query_matches nl constraints req =
     (if constraints = [] then True
      else
        (let pairs = nl_form_pairs nl (case rq_query req of Some q \<Rightarrow> q | None \<Rightarrow> [])
         in list_all (\<lambda>(name, allowed).
              list_ex (\<lambda>(n, candidate). n = name \<and> list_ex (\<lambda>m. value_matches nl m candidate) allowed) pairs) constraints))"

definition headers_match :: "net_lib \<Rightarrow> (string \<times> value_matcher list) list \<Rightarrow> http_request \<Rightarrow> bool" where
  "headers_match nl constraints req =
     list_all (\<lambda>(name, allowed).
       let actual = map snd (filter (\<lambda>(n, _). n = name) (rq_headers req))
       in if actual = [] then False
          else if allowed = [] then True
          else list_ex (\<lambda>v. case v of
                   Some candidate \<Rightarrow> list_ex (\<lambda>m. value_matches nl m candidate) allowed
                 | None \<Rightarrow> False) actual) constraints"

definition hook_matches :: "net_lib \<Rightarrow> mitm_hook \<Rightarrow> http_request \<Rightarrow> bool" where
  "hook_matches nl hook req =
     (let m = to_ascii_uppercase (rq_method req)
      in if m \<notin> set (mm_methods (mh_matcher hook)) then False
         else if \<not> is_safe_for_authorization (rq_path req) \<or> \<not> path_matches nl (mm_path_prefixes (mh_matcher hook)) (rq_path req)
         then False
         else if \<not> query_matches nl (mm_query (mh_matcher hook)) req then False
         else headers_match nl (mm_headers (mh_matcher hook)) req)"

datatype hook_evaluation = NoHooksForHost | Matched hook_actions | HookedHostNoMatch

definition evaluate_mitm_hooks :: "net_lib \<Rightarrow> hooks_by_host \<Rightarrow> string \<Rightarrow> http_request \<Rightarrow> hook_evaluation" where
  "evaluate_mitm_hooks nl hooks_by_host host req =
     (case hooks_by_host (normalize_host host) of
        None \<Rightarrow> NoHooksForHost
      | Some hooks \<Rightarrow>
          (case find (\<lambda>hook. hook_matches nl hook req) hooks of
             Some hook \<Rightarrow> Matched (mh_actions hook)
           | None \<Rightarrow> HookedHostNoMatch))"

subsection \<open>Decoded paths\<close>

text \<open>A server that decodes the path once; an escape that is not one stays.\<close>

fun percent_decode :: "string \<Rightarrow> string" where
  "percent_decode (c # h # l # rest) =
     (case (if c = CHR ''%'' then (decode_hex_digit h, decode_hex_digit l) else (None, None)) of
        (Some high, Some low) \<Rightarrow> char_of (high * 16 + low) # percent_decode rest
      | _ \<Rightarrow> c # percent_decode (h # l # rest))"
| "percent_decode s = s"

lemma percent_decode_other [simp]: "c \<noteq> CHR ''%'' \<Longrightarrow> percent_decode (c # s) = c # percent_decode s"
  by (cases "(c # s)" rule: percent_decode.cases) auto

lemma percent_decode_plain: "CHR ''%'' \<notin> set s \<Longrightarrow> percent_decode s = s"
  by (induction s) auto

definition decodes_safely :: "string \<Rightarrow> nat \<Rightarrow> bool \<Rightarrow> bool" where
  "decodes_safely s dots other \<longleftrightarrow>
     CHR ''%'' \<notin> set (percent_decode s) \<and> CHR 0x5C \<notin> set (percent_decode s)
     \<and> (CHR ''/'' \<notin> set s \<longrightarrow> CHR ''/'' \<notin> set (percent_decode s))
     \<and> (other \<or> (\<exists>c \<in> set (percent_decode s). c \<noteq> CHR ''.'') \<or> dots + length (percent_decode s) \<notin> {1, 2})
     \<and> (\<forall>r. percent_decode (s @ CHR ''/'' # r) = percent_decode s @ CHR ''/'' # percent_decode r)"

lemma safe_segment_decodes: "safe_segment s dots other \<Longrightarrow> decodes_safely s dots other"
proof (induction "length s" arbitrary: s dots other rule: less_induct)
  case less
  show ?case
  proof (cases s)
    case Nil
    then show ?thesis using less.prems by (auto simp: decodes_safely_def)
  next
    case (Cons b bytes)
    show ?thesis
    proof (cases "b = CHR ''%''")
      case False
      then have "safe_segment bytes (if b = CHR ''.'' then dots + 1 else dots) (b \<noteq> CHR ''.'' \<or> other)" "b \<noteq> CHR 0x5C"
        using less.prems Cons by (auto split: if_splits)
      with less.hyps [OF _ this(1)] Cons False show ?thesis by (auto simp: decodes_safely_def)
    next
      case True
      then obtain h l rest hi lo where b: "bytes = h # l # rest" "decode_hex_digit h = Some hi" "decode_hex_digit l = Some lo"
        using less.prems Cons by (auto split: list.splits option.splits)
      let ?c = "char_of (hi * 16 + lo) :: char"
      have c: "?c \<noteq> CHR ''%''" "?c \<noteq> CHR ''/''" "?c \<noteq> CHR 0x5C"
        and safe: "safe_segment rest (if ?c = CHR ''.'' then dots + 1 else dots) (?c \<noteq> CHR ''.'' \<or> other)"
        using less.prems Cons True b by (auto simp: Let_def split: if_splits)
      have "percent_decode (s @ r) = ?c # percent_decode (rest @ r)" for r using Cons True b by simp
      from this [of "[]"] this have d: "percent_decode s = ?c # percent_decode rest"
        "\<And>r. percent_decode (s @ CHR ''/'' # r) = ?c # percent_decode (rest @ CHR ''/'' # r)" by simp_all
      have "decodes_safely rest (if ?c = CHR ''.'' then dots + 1 else dots) (?c \<noteq> CHR ''.'' \<or> other)"
        using less.hyps [OF _ safe] Cons b by simp
      then show ?thesis using c Cons b unfolding decodes_safely_def d by (auto split: if_splits)
    qed
  qed
qed

lemma safe_path_decodes:
  "is_safe_for_authorization p \<Longrightarrow>
     segments (percent_decode p) = map percent_decode (segments p)
     \<and> (\<forall>s \<in> set (segments (percent_decode p)). s \<noteq> ''.'' \<and> s \<noteq> ''..'')
     \<and> CHR 0x5C \<notin> set (percent_decode p) \<and> CHR ''%'' \<notin> set (percent_decode p)"
proof (induction "length p" arbitrary: p rule: less_induct)
  case less
  have seg: "segments (percent_decode s) = [percent_decode s]" "percent_decode s \<noteq> ''.''" "percent_decode s \<noteq> ''..''"
    "CHR 0x5C \<notin> set (percent_decode s)" "CHR ''%'' \<notin> set (percent_decode s)"
    "percent_decode (s @ CHR ''/'' # r) = percent_decode s @ CHR ''/'' # percent_decode r"
    if "CHR ''/'' \<notin> set s" "is_safe_segment_for_authorization s" for s r
    using that safe_segment_decodes [of s 0 False]
    by (auto simp: is_safe_segment_for_authorization_def decodes_safely_def segments_plain)
  show ?case
  proof (cases "CHR ''/'' \<in> set p")
    case False
    then show ?thesis using less.prems seg [of p] by (simp add: is_safe_for_authorization_def segments_plain)
  next
    case True
    then obtain s r where p: "p = s @ CHR ''/'' # r" "CHR ''/'' \<notin> set s" by (meson split_list_first)
    then have sr: "is_safe_segment_for_authorization s" "is_safe_for_authorization r"
      using less.prems by (simp_all add: is_safe_for_authorization_def segments_append segments_plain)
    with less.hyps [of r] seg [OF p(2) sr(1)] p show ?thesis by (auto simp: segments_append segments_plain)
  qed
qed

subsection \<open>Compiled hooks\<close>

lemma compile_hooks_spec:
  "compile_hooks nl env m cs = Inr m' \<Longrightarrow>
     \<exists>hs. list_all2 (\<lambda>c h. compile_hook nl env c = Inr h) cs hs
       \<and> (\<forall>k. m' k = (let own = filter (\<lambda>h. mh_host h = k) hs in
            case m k of Some old \<Rightarrow> Some (old @ own) | None \<Rightarrow> if own = [] then None else Some own))"
proof (induction cs arbitrary: m)
  case Nil
  then show ?case by (auto split: option.splits)
next
  case (Cons c cs)
  then obtain h where h: "compile_hook nl env c = Inr h" "compile_hooks nl env (add_hook h m) cs = Inr m'" by auto
  from Cons.IH [OF h(2)] obtain hs where hs: "list_all2 (\<lambda>c h. compile_hook nl env c = Inr h) cs hs"
    "\<And>k. m' k = (let own = filter (\<lambda>h. mh_host h = k) hs in
            case add_hook h m k of Some old \<Rightarrow> Some (old @ own) | None \<Rightarrow> if own = [] then None else Some own)" by auto
  have "m' k = (let own = filter (\<lambda>h. mh_host h = k) (h # hs) in
            case m k of Some old \<Rightarrow> Some (old @ own) | None \<Rightarrow> if own = [] then None else Some own)" for k
    by (auto simp: hs(2) add_hook_def Let_def split: option.splits)
  with hs(1) h(1) show ?case by (intro exI [of _ "h # hs"]) simp
qed

lemma compile_hook_host: "compile_hook nl env c = Inr h \<Longrightarrow> mh_host h = normalize_host (hk_host c)"
  by (auto simp: compile_hook_def normalize_hook_host_def Let_def split: if_splits)

lemma compiled_hooks_of_host:
  assumes "compile_mitm_hooks nl env mitm cs = Inr hooks"
  shows "hooks k = None \<longleftrightarrow> (\<forall>c \<in> set cs. normalize_host (hk_host c) \<noteq> k)"
    and "hooks k = Some hs \<Longrightarrow> h \<in> set hs \<Longrightarrow> \<exists>c \<in> set cs. normalize_host (hk_host c) = k \<and> compile_hook nl env c = Inr h"
proof -
  obtain all where all: "list_all2 (\<lambda>c h. compile_hook nl env c = Inr h) cs all"
    "hooks = (\<lambda>k. let own = filter (\<lambda>h. mh_host h = k) all in if own = [] then None else Some own)"
    using assms compile_hooks_spec [of nl env Map.empty cs hooks] by (auto simp: compile_mitm_hooks_def)
  have c: "c \<in> set cs \<Longrightarrow> \<exists>h \<in> set all. compile_hook nl env c = Inr h"
    and h: "h \<in> set all \<Longrightarrow> \<exists>c \<in> set cs. compile_hook nl env c = Inr h" for c h
    using all(1) by (induction rule: list_all2_induct) auto
  show "hooks k = None \<longleftrightarrow> (\<forall>c \<in> set cs. normalize_host (hk_host c) \<noteq> k)"
    using c h compile_hook_host by (auto simp: all(2) Let_def filter_empty_conv split: if_splits) metis+
  show "hooks k = Some hs \<Longrightarrow> h \<in> set hs \<Longrightarrow> \<exists>c \<in> set cs. normalize_host (hk_host c) = k \<and> compile_hook nl env c = Inr h"
    using h [of h] compile_hook_host [of nl env _ h] by (auto simp: all(2) Let_def split: if_splits) metis
qed

lemma compiled_hooks_need_mitm: "compile_mitm_hooks nl env mitm cs = Inr hooks \<Longrightarrow> cs = [] \<or> mitm"
  by (auto simp: compile_mitm_hooks_def validate_hooks_def split: if_splits)

lemma hook_matches_safe: "hook_matches nl hook req \<Longrightarrow> is_safe_for_authorization (rq_path req)"
  by (auto simp: hook_matches_def Let_def split: if_splits)

end
