(* ===== verification/Net_Config.thy ===== *)
theory Net_Config
  imports Net_Hooks "HOL-Library.Char_ord" "HOL-Library.List_Lexorder"
begin

text \<open>
  Settings of the network proxy (\<open>network-proxy/src/config.rs\<close>): domain and unix socket permissions, the addresses
  it listens on, the policy that the owner of an environment puts on top of them
  (\<open>network-proxy/src/environment_policy.rs\<close>) and the part that is sent to a remote executor
  (\<open>network-proxy/src/remote_config.rs\<close>).
\<close>

subsection \<open>Permissions\<close>

datatype domain_permission = PermNone | PermAllow | PermDeny

fun permission_rank :: "domain_permission \<Rightarrow> nat" where
  "permission_rank PermNone = 0"
| "permission_rank PermAllow = 1"
| "permission_rank PermDeny = 2"

lemma permission_rank_inj: "permission_rank a = permission_rank b \<Longrightarrow> a = b"
  by (cases a; cases b) auto

instantiation domain_permission :: linorder
begin

definition less_eq_domain_permission :: "domain_permission \<Rightarrow> domain_permission \<Rightarrow> bool" where
  "less_eq_domain_permission a b \<longleftrightarrow> permission_rank a \<le> permission_rank b"

definition less_domain_permission :: "domain_permission \<Rightarrow> domain_permission \<Rightarrow> bool" where
  "less_domain_permission a b \<longleftrightarrow> permission_rank a < permission_rank b"

instance
  by standard (auto simp: less_eq_domain_permission_def less_domain_permission_def dest: permission_rank_inj)

end

record domain_entry =
  de_pattern :: string
  de_permission :: domain_permission

definition effective_step ::
  "domain_entry \<Rightarrow> string list \<times> (string \<rightharpoonup> domain_permission) \<Rightarrow> string list \<times> (string \<rightharpoonup> domain_permission)" where
  "effective_step entry st =
     (let (order, effective) = st
      in (if effective (de_pattern entry) = None then order @ [de_pattern entry] else order,
          effective(de_pattern entry \<mapsto>
            (case effective (de_pattern entry) of
               None \<Rightarrow> de_permission entry
             | Some permission \<Rightarrow> if de_permission entry > permission then de_permission entry else permission))))"

definition effective_entries :: "domain_entry list \<Rightarrow> domain_entry list" where
  "effective_entries entries =
     (let (order, effective) = fold effective_step entries ([], Map.empty)
      in List.map_filter (\<lambda>pattern. map_option (\<lambda>permission. \<lparr>de_pattern = pattern, de_permission = permission\<rparr>) (effective pattern)) order)"

datatype socket_permission = SocketAllow | SocketDeny

text \<open>A tree map is the list of its pairs in the order of the keys.\<close>

type_synonym socket_map = "(string \<times> socket_permission) list"

fun tree_insert :: "string \<Rightarrow> 'v \<Rightarrow> (string \<times> 'v) list \<Rightarrow> (string \<times> 'v) list" where
  "tree_insert k v [] = [(k, v)]"
| "tree_insert k v ((k', v') # m) =
     (if k < k' then (k, v) # (k', v') # m
      else if k = k' then (k, v) # m
      else (k', v') # tree_insert k v m)"

datatype network_mode = Limited | Full

definition allows_method :: "network_mode \<Rightarrow> string \<Rightarrow> bool" where
  "allows_method mode m =
     (case mode of
        Full \<Rightarrow> True
      | Limited \<Rightarrow> m = ''GET'' \<or> m = ''HEAD'' \<or> m = ''OPTIONS'')"

subsection \<open>The settings\<close>

record net_config =
  nc_enabled :: bool
  nc_proxy_url :: string
  nc_enable_socks5 :: bool
  nc_socks_url :: string
  nc_enable_socks5_udp :: bool
  nc_allow_upstream_proxy :: bool
  nc_allow_non_loopback_proxy :: bool
  nc_allow_all_unix_sockets :: bool
  nc_mode :: network_mode
  nc_domains :: "domain_entry list option"
  nc_unix_sockets :: "socket_map option"
  nc_allow_local_binding :: bool
  nc_mitm :: bool
  nc_credential_broker :: bool
  nc_credential_broker_openai_host :: "string option"
  nc_allow_plaintext_credential_injection :: bool
  nc_mitm_hooks :: "hook_config list"

definition default_proxy_url :: string where
  "default_proxy_url = ''http://127.0.0.1:3128''"

definition default_socks_url :: string where
  "default_socks_url = ''http://127.0.0.1:8081''"

definition net_config_default :: net_config where
  "net_config_default =
     \<lparr>nc_enabled = False, nc_proxy_url = default_proxy_url, nc_enable_socks5 = True, nc_socks_url = default_socks_url,
      nc_enable_socks5_udp = True, nc_allow_upstream_proxy = True, nc_allow_non_loopback_proxy = False,
      nc_allow_all_unix_sockets = False, nc_mode = Full, nc_domains = None, nc_unix_sockets = None,
      nc_allow_local_binding = False, nc_mitm = False, nc_credential_broker = False,
      nc_credential_broker_openai_host = None, nc_allow_plaintext_credential_injection = False, nc_mitm_hooks = []\<rparr>"

text \<open>\<open>unwrap_or_default\<close> of an optional list.\<close>

definition entries_or_empty :: "'a list option \<Rightarrow> 'a list" where
  "entries_or_empty xs = (case xs of Some xs \<Rightarrow> xs | None \<Rightarrow> [])"

definition non_empty :: "'a list \<Rightarrow> 'a list option" where
  "non_empty xs = (if xs = [] then None else Some xs)"

definition set_credential_broker_enabled :: "bool \<Rightarrow> net_config \<Rightarrow> net_config" where
  "set_credential_broker_enabled enabled cfg = cfg\<lparr>nc_credential_broker := enabled, nc_mitm := nc_mitm cfg \<or> enabled\<rparr>"

definition trusted_credential_broker_host :: "net_lib \<Rightarrow> string \<Rightarrow> string option" where
  "trusted_credential_broker_host nl base_url =
     (case nl_url nl base_url of
        Some url \<Rightarrow>
          if url_scheme url = ''https'' \<and> url_username url = [] \<and> url_password url = None
          then map_option normalize_host (url_host_str url) else None
      | None \<Rightarrow> None)"

definition set_credential_broker_openai_base_url :: "net_lib \<Rightarrow> string option \<Rightarrow> net_config \<Rightarrow> net_config" where
  "set_credential_broker_openai_base_url nl base_url cfg =
     cfg\<lparr>nc_credential_broker_openai_host := Option.bind base_url (trusted_credential_broker_host nl)\<rparr>"

definition domain_entries :: "domain_permission \<Rightarrow> net_config \<Rightarrow> string list option" where
  "domain_entries permission cfg =
     Option.bind (nc_domains cfg)
       (\<lambda>domains. non_empty (map de_pattern (filter (\<lambda>entry. de_permission entry = permission) (effective_entries domains))))"

definition allowed_domains :: "net_config \<Rightarrow> string list option" where
  "allowed_domains cfg = domain_entries PermAllow cfg"

definition denied_domains :: "net_config \<Rightarrow> string list option" where
  "denied_domains cfg = domain_entries PermDeny cfg"

definition allow_unix_sockets :: "net_config \<Rightarrow> string list" where
  "allow_unix_sockets cfg = map fst (filter (\<lambda>(_, permission). permission = SocketAllow) (entries_or_empty (nc_unix_sockets cfg)))"

definition add_domain_entry :: "domain_permission \<Rightarrow> string \<Rightarrow> domain_entry list \<Rightarrow> domain_entry list" where
  "add_domain_entry permission entry domains =
     (if list_ex (\<lambda>existing. de_pattern existing = entry \<and> de_permission existing = permission) domains then domains
      else domains @ [\<lparr>de_pattern = entry, de_permission = permission\<rparr>])"

definition set_domain_entries :: "string list \<Rightarrow> domain_permission \<Rightarrow> net_config \<Rightarrow> net_config" where
  "set_domain_entries entries permission cfg =
     (let domains = filter (\<lambda>entry. de_permission entry \<noteq> permission) (entries_or_empty (nc_domains cfg))
      in cfg\<lparr>nc_domains := non_empty (fold (add_domain_entry permission) entries domains)\<rparr>)"

definition set_allowed_domains :: "string list \<Rightarrow> net_config \<Rightarrow> net_config" where
  "set_allowed_domains allowed cfg = set_domain_entries allowed PermAllow cfg"

definition set_denied_domains :: "string list \<Rightarrow> net_config \<Rightarrow> net_config" where
  "set_denied_domains denied cfg = set_domain_entries denied PermDeny cfg"

definition upsert_domain_permission :: "string \<Rightarrow> domain_permission \<Rightarrow> (string \<Rightarrow> string) \<Rightarrow> net_config \<Rightarrow> net_config" where
  "upsert_domain_permission host permission canon cfg =
     (let domains = filter (\<lambda>entry. canon (de_pattern entry) \<noteq> canon host) (entries_or_empty (nc_domains cfg))
      in cfg\<lparr>nc_domains := non_empty (domains @ [\<lparr>de_pattern = host, de_permission = permission\<rparr>])\<rparr>)"

definition set_unix_socket_entries :: "string list \<Rightarrow> socket_permission \<Rightarrow> net_config \<Rightarrow> net_config" where
  "set_unix_socket_entries entries permission cfg =
     (let sockets = filter (\<lambda>(_, existing). existing \<noteq> permission) (entries_or_empty (nc_unix_sockets cfg))
      in cfg\<lparr>nc_unix_sockets := non_empty (fold (\<lambda>entry. tree_insert entry permission) entries sockets)\<rparr>)"

definition set_allow_unix_sockets :: "string list \<Rightarrow> net_config \<Rightarrow> net_config" where
  "set_allow_unix_sockets allow cfg = set_unix_socket_entries allow SocketAllow cfg"

subsection \<open>Errors\<close>

datatype net_error =
    MissingHost string
  | SocketPathNotAbsolute nat
  | SocketPathFailed nat
  | FixedPortRequired string
  | RemoteUnsupported
  | RemoteDisabled
  | InvalidHooks hook_error
  | GlobalWildcardIn string string
  | TooPermissive string
  | ManagedEntriesViolated string
  | CompileFailed compile_error
  | BrokerNeedsMitm
  | MitmSetupFailed
  | InvalidHost string
  | ReloadFailed string
  | TargetUnreadable string
  | TargetMissingPort

subsection \<open>Listening addresses\<close>

type_synonym socket_addr = "ip_addr \<times> u16"

definition loopback_v4 :: ip_addr where
  "loopback_v4 = V4 (from_octets [127, 0, 0, 1])"

definition clamp_non_loopback :: "socket_addr \<Rightarrow> bool \<Rightarrow> socket_addr" where
  "clamp_non_loopback addr allow_non_loopback =
     (if is_loopback (fst addr) then addr
      else if allow_non_loopback then addr
      else (loopback_v4, snd addr))"

definition clamp_bind_addrs :: "socket_addr \<Rightarrow> socket_addr \<Rightarrow> net_config \<Rightarrow> socket_addr \<times> socket_addr" where
  "clamp_bind_addrs http_addr socks_addr cfg =
     (let http_addr = clamp_non_loopback http_addr (nc_allow_non_loopback_proxy cfg);
          socks_addr = clamp_non_loopback socks_addr (nc_allow_non_loopback_proxy cfg)
      in if allow_unix_sockets cfg = [] \<and> \<not> nc_allow_all_unix_sockets cfg then (http_addr, socks_addr)
         else ((loopback_v4, snd http_addr), (loopback_v4, snd socks_addr)))"

datatype validated_socket_path = Native path | UnixStyleAbsolute string

definition socket_path_parse :: "net_env \<Rightarrow> string \<Rightarrow> (nat \<Rightarrow> net_error) + validated_socket_path" where
  "socket_path_parse env socket_path =
     (if is_absolute socket_path then
        (case from_absolute_path (ne_home env) (ne_cwd env) socket_path of
           Some p \<Rightarrow> Inr (Native p)
         | None \<Rightarrow> Inl SocketPathFailed)
      else if starts_with socket_path ''/'' then Inr (UnixStyleAbsolute socket_path)
      else Inl SocketPathNotAbsolute)"

definition validate_unix_socket_allowlist_paths :: "net_env \<Rightarrow> net_config \<Rightarrow> net_error + unit" where
  "validate_unix_socket_allowlist_paths env cfg =
     result_bind (collect_results (map (\<lambda>(i, p). map_err (\<lambda>e. e i) (socket_path_parse env p)) (List.enumerate 0 (allow_unix_sockets cfg))))
       (\<lambda>_. Inr ())"

definition parse_u16 :: "string \<Rightarrow> u16 option" where
  "parse_u16 s = Option.bind (parse_u64 s) (\<lambda>n. if n < 2 ^ 16 then Some (of_nat n) else None)"

definition is_bracket :: "char \<Rightarrow> bool" where
  "is_bracket c \<longleftrightarrow> c = CHR ''['' \<or> c = CHR '']''"

definition trim_brackets :: "string \<Rightarrow> string" where
  "trim_brackets s = rev (dropWhile is_bracket (rev (dropWhile is_bracket s)))"

definition parse_host_port_fallback :: "string \<Rightarrow> u16 \<Rightarrow> net_error + string \<times> u16" where
  "parse_host_port_fallback input default_port =
     (let without_scheme = (case split_once_str ''://'' input of Some (_, rest) \<Rightarrow> rest | None \<Rightarrow> input);
          host_port = takeWhile (\<lambda>c. c \<noteq> CHR ''/'') without_scheme;
          host_port = (case rsplit_once (CHR ''@'') host_port of Some (_, rest) \<Rightarrow> rest | None \<Rightarrow> host_port);
          missing = Inl (MissingHost input)
      in if starts_with host_port ''['' \<and> CHR '']'' \<in> set host_port
         then
           (let host = tl (takeWhile (\<lambda>c. c \<noteq> CHR '']'') host_port);
                rest = tl (dropWhile (\<lambda>c. c \<noteq> CHR '']'') host_port);
                port = (case Option.bind (strip_prefix '':'' rest) parse_u16 of Some p \<Rightarrow> p | None \<Rightarrow> default_port)
            in if host = [] then missing else Inr (host, port))
         else
           (case (if count_list host_port (CHR '':'') = 1 then rsplit_once (CHR '':'') host_port else None) of
              Some (host, port) \<Rightarrow>
                if host = [] then missing
                else Inr (host, case parse_u16 port of Some p \<Rightarrow> p | None \<Rightarrow> default_port)
            | None \<Rightarrow> if host_port = [] then missing else Inr (host_port, default_port)))"

definition parse_host_port :: "net_lib \<Rightarrow> string \<Rightarrow> u16 \<Rightarrow> net_error + string \<times> u16" where
  "parse_host_port nl url default_port =
     (let trimmed = trim url
      in if trimmed = [] then Inl (MissingHost url)
         else if (case parse_ip trimmed of Some (V6 _) \<Rightarrow> True | _ \<Rightarrow> False) \<and> \<not> starts_with trimmed ''[''
         then Inr (trimmed, default_port)
         else
           (let candidate = (if contains_str ''://'' trimmed then trimmed else ''http://'' @ trimmed)
            in case Option.bind (nl_url nl candidate) (\<lambda>parsed. map_option (\<lambda>host. (parsed, host)) (url_host_str parsed)) of
                 Some (parsed, host) \<Rightarrow>
                   (let host = trim_brackets host
                    in if host = [] then Inl (MissingHost url)
                       else Inr (host, case url_port parsed of Some p \<Rightarrow> p | None \<Rightarrow> default_port))
               | None \<Rightarrow> parse_host_port_fallback trimmed default_port))"

definition resolve_addr :: "net_lib \<Rightarrow> string \<Rightarrow> u16 \<Rightarrow> net_error + socket_addr" where
  "resolve_addr nl url default_port =
     result_bind (parse_host_port nl url default_port) (\<lambda>(host, port).
       let host = (if to_ascii_lowercase host = ''localhost'' then ''127.0.0.1'' else host)
       in case parse_ip host of
            Some ip \<Rightarrow> Inr (ip, port)
          | None \<Rightarrow> Inr (loopback_v4, port))"

definition format_host_and_port :: "string \<Rightarrow> u16 \<Rightarrow> string" where
  "format_host_and_port host port =
     (if CHR '':'' \<in> set host then ''['' @ host @ '']:'' @ nat_to_string (unat port)
      else host @ '':'' @ nat_to_string (unat port))"

definition host_and_port_from_network_addr :: "net_lib \<Rightarrow> string \<Rightarrow> u16 \<Rightarrow> string" where
  "host_and_port_from_network_addr nl v default_port =
     (let trimmed = trim v
      in if trimmed = [] then ''<missing>''
         else case parse_host_port nl trimmed default_port of
                Inr (host, port) \<Rightarrow> format_host_and_port host port
              | Inl _ \<Rightarrow> format_host_and_port trimmed default_port)"

definition resolve_runtime :: "net_lib \<Rightarrow> net_env \<Rightarrow> net_config \<Rightarrow> net_error + socket_addr \<times> socket_addr" where
  "resolve_runtime nl env cfg =
     result_bind (validate_unix_socket_allowlist_paths env cfg) (\<lambda>_.
     result_bind (resolve_addr nl (nc_proxy_url cfg) 3128) (\<lambda>http_addr.
     result_bind (resolve_addr nl (nc_socks_url cfg) 8081) (\<lambda>socks_addr.
     Inr (clamp_bind_addrs http_addr socks_addr cfg))))"

definition managed_proxy_ports :: "net_lib \<Rightarrow> net_env \<Rightarrow> net_config \<Rightarrow> net_error + u16 list" where
  "managed_proxy_ports nl env cfg =
     result_bind (resolve_runtime nl env cfg) (\<lambda>(http_addr, socks_addr).
       if snd http_addr = 0 then Inl (FixedPortRequired ''network.proxy_url'')
       else if nc_enable_socks5 cfg then
         if snd socks_addr = 0 then Inl (FixedPortRequired ''network.socks_url'')
         else Inr (remdups_adj (sort [snd http_addr, snd socks_addr]))
       else Inr [snd http_addr])"

subsection \<open>The policy of an environment\<close>

record env_policy =
  ep_domains :: "domain_entry list option"
  ep_unix_sockets :: "socket_map option"
  ep_allow_upstream_proxy :: bool
  ep_allow_all_unix_sockets :: bool
  ep_allow_local_binding :: bool
  ep_managed_allowed_domains_only :: bool

definition env_policy_from_config :: "net_config \<Rightarrow> bool \<Rightarrow> env_policy" where
  "env_policy_from_config cfg managed_only =
     \<lparr>ep_domains = nc_domains cfg, ep_unix_sockets = nc_unix_sockets cfg, ep_allow_upstream_proxy = nc_allow_upstream_proxy cfg,
      ep_allow_all_unix_sockets = nc_allow_all_unix_sockets cfg, ep_allow_local_binding = nc_allow_local_binding cfg,
      ep_managed_allowed_domains_only = managed_only\<rparr>"

definition permits_all :: "bool \<Rightarrow> socket_map \<Rightarrow> bool" where
  "permits_all allow_all sockets \<longleftrightarrow> allow_all \<and> \<not> list_ex (\<lambda>(_, permission). permission = SocketDeny) sockets"

definition effective_sockets :: "bool \<Rightarrow> bool \<Rightarrow> socket_map \<Rightarrow> socket_map \<Rightarrow> socket_map" where
  "effective_sockets inherited_permits_all owner_permits_all inherited owner =
     (let kept = filter (\<lambda>(p, permission). permission = SocketDeny \<or> inherited_permits_all \<or> map_of inherited p = Some SocketAllow) owner
      in fold (\<lambda>(p, permission) sockets.
           if owner_permits_all \<or> permission = SocketDeny then tree_insert p permission sockets else sockets) inherited kept)"

definition apply_to :: "env_policy \<Rightarrow> net_config \<Rightarrow> net_config" where
  "apply_to pol cfg =
     (let inherited_denials = entries_or_empty (denied_domains cfg);
          cfg = cfg\<lparr>nc_domains := ep_domains pol\<rparr>;
          cfg = fold (\<lambda>domain. upsert_domain_permission domain PermDeny normalize_host) inherited_denials cfg;
          inherited_sockets = entries_or_empty (nc_unix_sockets cfg);
          owner_sockets = entries_or_empty (ep_unix_sockets pol);
          inherited_permits_all = permits_all (nc_allow_all_unix_sockets cfg) inherited_sockets;
          owner_permits_all = permits_all (ep_allow_all_unix_sockets pol) owner_sockets
      in cfg\<lparr>nc_unix_sockets := non_empty (effective_sockets inherited_permits_all owner_permits_all inherited_sockets owner_sockets),
             nc_allow_all_unix_sockets := inherited_permits_all \<and> owner_permits_all,
             nc_allow_upstream_proxy := nc_allow_upstream_proxy cfg \<and> ep_allow_upstream_proxy pol,
             nc_allow_local_binding := nc_allow_local_binding cfg \<and> ep_allow_local_binding pol\<rparr>)"

subsection \<open>Remote executors\<close>

record remote_config =
  rc_enabled :: bool
  rc_enable_socks5 :: bool
  rc_enable_socks5_udp :: bool
  rc_allow_upstream_proxy :: bool
  rc_allow_all_unix_sockets :: bool
  rc_mode :: network_mode
  rc_domains :: "domain_entry list option"
  rc_unix_sockets :: "socket_map option"
  rc_allow_local_binding :: bool

definition from_effective_config :: "net_config \<Rightarrow> net_error + remote_config" where
  "from_effective_config cfg =
     (if \<not> (\<not> nc_enabled cfg \<or> (\<not> nc_mitm cfg \<and> \<not> nc_credential_broker cfg
           \<and> \<not> nc_allow_plaintext_credential_injection cfg \<and> nc_mitm_hooks cfg = []))
      then Inl RemoteUnsupported
      else Inr \<lparr>rc_enabled = nc_enabled cfg, rc_enable_socks5 = nc_enable_socks5 cfg, rc_enable_socks5_udp = nc_enable_socks5_udp cfg,
        rc_allow_upstream_proxy = nc_allow_upstream_proxy cfg, rc_allow_all_unix_sockets = nc_allow_all_unix_sockets cfg,
        rc_mode = nc_mode cfg, rc_domains = nc_domains cfg, rc_unix_sockets = nc_unix_sockets cfg,
        rc_allow_local_binding = nc_allow_local_binding cfg\<rparr>)"

definition into_network_proxy_config :: "remote_config \<Rightarrow> net_config" where
  "into_network_proxy_config rc =
     net_config_default\<lparr>nc_enabled := rc_enabled rc, nc_enable_socks5 := rc_enable_socks5 rc,
       nc_enable_socks5_udp := rc_enable_socks5_udp rc, nc_allow_upstream_proxy := rc_allow_upstream_proxy rc,
       nc_allow_all_unix_sockets := rc_allow_all_unix_sockets rc, nc_mode := rc_mode rc, nc_domains := rc_domains rc,
       nc_unix_sockets := rc_unix_sockets rc, nc_allow_local_binding := rc_allow_local_binding rc\<rparr>"

end
