(* ===== verification/Net_State.thy ===== *)
theory Net_State
  imports Net_Config
begin

text \<open>
  The state of the network proxy (\<open>network-proxy/src/state.rs\<close>, \<open>network-proxy/src/runtime.rs\<close>): the limits an
  administrator puts on the settings, the compiled state, whether a host is blocked, the log of blocked requests
  and the updates of a running proxy; the decision on a request (\<open>network-proxy/src/network_policy.rs\<close>) and the
  check at the moment a connection is made (\<open>network-proxy/src/connect_policy.rs\<close>).
\<close>

subsection \<open>Managed limits\<close>

record constraints =
  ct_enabled :: "bool option"
  ct_mode :: "network_mode option"
  ct_allow_upstream_proxy :: "bool option"
  ct_allow_non_loopback_proxy :: "bool option"
  ct_allow_all_unix_sockets :: "bool option"
  ct_allowed_domains :: "string list option"
  ct_allowlist_expansion_enabled :: "bool option"
  ct_denied_domains :: "string list option"
  ct_denylist_expansion_enabled :: "bool option"
  ct_allow_unix_sockets :: "string list option"
  ct_allow_local_binding :: "bool option"

definition constraints_default :: constraints where
  "constraints_default =
     \<lparr>ct_enabled = None, ct_mode = None, ct_allow_upstream_proxy = None, ct_allow_non_loopback_proxy = None,
      ct_allow_all_unix_sockets = None, ct_allowed_domains = None, ct_allowlist_expansion_enabled = None,
      ct_denied_domains = None, ct_denylist_expansion_enabled = None, ct_allow_unix_sockets = None,
      ct_allow_local_binding = None\<rparr>"

fun network_mode_rank :: "network_mode \<Rightarrow> nat" where
  "network_mode_rank Limited = 0"
| "network_mode_rank Full = 1"

definition validate_non_global_wildcard_domain_patterns :: "string \<Rightarrow> string list \<Rightarrow> net_error + unit" where
  "validate_non_global_wildcard_domain_patterns field_name patterns =
     (case find is_global_wildcard_domain_pattern patterns of
        Some pattern \<Rightarrow> Inl (GlobalWildcardIn field_name (trim pattern))
      | None \<Rightarrow> Inr ())"

definition ensure :: "bool \<Rightarrow> net_error \<Rightarrow> net_error + unit" where
  "ensure c e = (if c then Inr () else Inl e)"

definition lower_set :: "string list \<Rightarrow> string set" where
  "lower_set xs = set (map to_ascii_lowercase xs)"

text \<open>A flag that is on although the managed settings turn it off.\<close>

definition flag_ok :: "bool option \<Rightarrow> bool \<Rightarrow> bool" where
  "flag_ok limit candidate = (case limit of Some allowed \<Rightarrow> \<not> (candidate \<and> \<not> allowed) | None \<Rightarrow> True)"

definition allowlist_ok :: "net_lib \<Rightarrow> bool option \<Rightarrow> string list \<Rightarrow> string list \<Rightarrow> string list \<Rightarrow> bool" where
  "allowlist_ok nl expansion managed allowed denied =
     (case expansion of
        Some True \<Rightarrow> \<forall>entry \<in> lower_set managed. entry \<in> lower_set allowed \<or> entry \<in> lower_set denied
      | Some False \<Rightarrow> lower_set allowed = lower_set managed - lower_set denied
      | None \<Rightarrow>
          list_all (\<lambda>entry. list_ex (\<lambda>m. pattern_allows m (parse_for_constraints nl entry)) (map (parse_for_constraints nl) managed)) allowed)"

definition denylist_ok :: "bool option \<Rightarrow> string list \<Rightarrow> string list \<Rightarrow> bool" where
  "denylist_ok expansion managed denied =
     (if expansion = Some False then lower_set denied = lower_set managed
      else \<forall>entry \<in> lower_set managed. entry \<in> lower_set denied)"

definition validate_allowlist :: "net_lib \<Rightarrow> constraints \<Rightarrow> string list \<Rightarrow> string list \<Rightarrow> net_error + unit" where
  "validate_allowlist nl ct allowed denied =
     (case ct_allowed_domains ct of
        None \<Rightarrow> Inr ()
      | Some managed \<Rightarrow>
          result_bind (validate_non_global_wildcard_domain_patterns ''network.allowed_domains'' managed) (\<lambda>_.
            ensure (allowlist_ok nl (ct_allowlist_expansion_enabled ct) managed allowed denied)
              (ManagedEntriesViolated ''network.allowed_domains'')))"

definition validate_denylist :: "constraints \<Rightarrow> string list \<Rightarrow> net_error + unit" where
  "validate_denylist ct denied =
     (case ct_denied_domains ct of
        None \<Rightarrow> Inr ()
      | Some managed \<Rightarrow>
          result_bind (validate_non_global_wildcard_domain_patterns ''network.denied_domains'' managed) (\<lambda>_.
            ensure (denylist_ok (ct_denylist_expansion_enabled ct) managed denied)
              (ManagedEntriesViolated ''network.denied_domains'')))"

definition validate_unix_sockets :: "constraints \<Rightarrow> string list \<Rightarrow> net_error + unit" where
  "validate_unix_sockets ct sockets =
     (case ct_allow_unix_sockets ct of
        None \<Rightarrow> Inr ()
      | Some managed \<Rightarrow>
          ensure (list_all (\<lambda>entry. to_ascii_lowercase entry \<in> lower_set managed) sockets)
            (ManagedEntriesViolated ''network.allow_unix_sockets''))"

definition validate_mitm_hook_config :: "net_lib \<Rightarrow> net_env \<Rightarrow> net_config \<Rightarrow> hook_error + unit" where
  "validate_mitm_hook_config nl env cfg = validate_hooks nl env (nc_mitm cfg) (nc_mitm_hooks cfg)"

definition validate_policy_against_constraints :: "net_lib \<Rightarrow> net_env \<Rightarrow> net_config \<Rightarrow> constraints \<Rightarrow> net_error + unit" where
  "validate_policy_against_constraints nl env cfg ct =
     (let config_allowed_domains = entries_or_empty (allowed_domains cfg);
          config_denied_domains = entries_or_empty (denied_domains cfg)
      in
      result_bind (map_err InvalidHooks (validate_mitm_hook_config nl env cfg)) (\<lambda>_.
      result_bind (validate_non_global_wildcard_domain_patterns ''network.denied_domains'' config_denied_domains) (\<lambda>_.
      result_bind (ensure (flag_ok (ct_enabled ct) (nc_enabled cfg)) (TooPermissive ''network.enabled'')) (\<lambda>_.
      result_bind (ensure (case ct_mode ct of Some max_mode \<Rightarrow> \<not> network_mode_rank (nc_mode cfg) > network_mode_rank max_mode | None \<Rightarrow> True)
        (TooPermissive ''network.mode'')) (\<lambda>_.
      result_bind (ensure (flag_ok (ct_allow_upstream_proxy ct) (nc_allow_upstream_proxy cfg))
        (TooPermissive ''network.allow_upstream_proxy'')) (\<lambda>_.
      result_bind (ensure (flag_ok (ct_allow_non_loopback_proxy ct) (nc_allow_non_loopback_proxy cfg))
        (TooPermissive ''network.dangerously_allow_non_loopback_proxy'')) (\<lambda>_.
      result_bind (ensure
          (\<not> (nc_allow_all_unix_sockets cfg
             \<and> \<not> (case ct_allow_all_unix_sockets ct of Some b \<Rightarrow> b | None \<Rightarrow> ct_allow_unix_sockets ct = None)))
        (TooPermissive ''network.dangerously_allow_all_unix_sockets'')) (\<lambda>_.
      result_bind (ensure (flag_ok (ct_allow_local_binding ct) (nc_allow_local_binding cfg))
        (TooPermissive ''network.allow_local_binding'')) (\<lambda>_.
      result_bind (validate_allowlist nl ct config_allowed_domains config_denied_domains) (\<lambda>_.
      result_bind (validate_denylist ct config_denied_domains) (\<lambda>_.
      validate_unix_sockets ct (allow_unix_sockets cfg))))))))))))"

subsection \<open>The compiled state\<close>

record blocked_request =
  br_host :: string
  br_reason :: string
  br_client :: "string option"
  br_method :: "string option"
  br_mode :: "network_mode option"
  br_protocol :: string
  br_execution_id :: "string option"
  br_decision :: "string option"
  br_source :: "string option"
  br_port :: "u16 option"
  br_timestamp :: int

text \<open>A compiled glob set is the list of its globs; the state of the interception is its one setting.\<close>

record config_state =
  cs_config :: net_config
  cs_brokerage_created_default_allowlist :: bool
  cs_allow_set :: "string list"
  cs_deny_set :: "string list"
  cs_mitm :: "bool option"
  cs_mitm_hooks :: hooks_by_host
  cs_constraints :: constraints
  cs_blocked :: "blocked_request list"
  cs_blocked_total :: u64

text \<open>The settings after the credential broker has turned the proxy on, and whether it opened the allow list.\<close>

definition brokered_config :: "net_config \<Rightarrow> constraints \<Rightarrow> net_config \<times> bool" where
  "brokered_config cfg ct =
     (let cfg = (if ct_enabled ct = Some False then cfg\<lparr>nc_credential_broker := False\<rparr> else cfg);
          created_proxy = (nc_credential_broker cfg \<and> \<not> nc_enabled cfg);
          created_allowlist = (created_proxy \<and> allowed_domains cfg = None \<and> ct_allowed_domains ct = None);
          cfg = (if created_proxy then cfg\<lparr>nc_enabled := True\<rparr> else cfg);
          cfg = (if created_allowlist then set_allowed_domains [''*''] cfg else cfg)
      in (cfg, created_allowlist))"

definition build_config_state :: "net_lib \<Rightarrow> net_env \<Rightarrow> net_config \<Rightarrow> constraints \<Rightarrow> net_error + config_state" where
  "build_config_state nl env cfg0 ct =
     (let (cfg, created_allowlist) = brokered_config cfg0 ct;
          allowed = entries_or_empty (allowed_domains cfg);
          denied = entries_or_empty (denied_domains cfg)
      in
      result_bind (validate_unix_socket_allowlist_paths env cfg) (\<lambda>_.
      result_bind (ensure (\<not> nc_credential_broker cfg \<or> nc_mitm cfg) BrokerNeedsMitm) (\<lambda>_.
      result_bind (validate_non_global_wildcard_domain_patterns ''network.denied_domains'' denied) (\<lambda>_.
      result_bind (map_err CompileFailed (compile_globset_with_policy nl True denied)) (\<lambda>deny_set.
      result_bind (map_err CompileFailed (compile_globset_with_policy nl False allowed)) (\<lambda>allow_set.
      result_bind (map_err InvalidHooks (compile_mitm_hooks nl env (nc_mitm cfg) (nc_mitm_hooks cfg))) (\<lambda>mitm_hooks.
      result_bind
        (if nc_mitm cfg
         then (if ne_mitm_ready env (nc_allow_upstream_proxy cfg) then Inr (Some (nc_allow_upstream_proxy cfg)) else Inl MitmSetupFailed)
         else Inr None) (\<lambda>mitm.
      Inr \<lparr>cs_config = cfg, cs_brokerage_created_default_allowlist = created_allowlist, cs_allow_set = allow_set,
           cs_deny_set = deny_set, cs_mitm = mitm, cs_mitm_hooks = mitm_hooks, cs_constraints = ct,
           cs_blocked = [], cs_blocked_total = 0\<rparr>))))))))"

text \<open>The state of a proxy that a remote executor launches.\<close>

definition from_remote_launch_config :: "net_lib \<Rightarrow> net_env \<Rightarrow> remote_config \<Rightarrow> net_error + config_state" where
  "from_remote_launch_config nl env rc =
     (if \<not> rc_enabled rc then Inl RemoteDisabled
      else build_config_state nl env (into_network_proxy_config rc) constraints_default)"

subsection \<open>Blocked hosts\<close>

datatype host_block_reason = Denied | NotAllowed | NotAllowedLocal

definition REASON_DENIED :: string where
  "REASON_DENIED = ''denied''"

definition REASON_NOT_ALLOWED :: string where
  "REASON_NOT_ALLOWED = ''not_allowed''"

definition REASON_NOT_ALLOWED_LOCAL :: string where
  "REASON_NOT_ALLOWED_LOCAL = ''not_allowed_local''"

definition REASON_POLICY_DENIED :: string where
  "REASON_POLICY_DENIED = ''policy_denied''"

fun block_reason_str :: "host_block_reason \<Rightarrow> string" where
  "block_reason_str Denied = REASON_DENIED"
| "block_reason_str NotAllowed = REASON_NOT_ALLOWED"
| "block_reason_str NotAllowedLocal = REASON_NOT_ALLOWED_LOCAL"

datatype host_decision = Allowed | Blocked host_block_reason

definition globset_matches_host_or_unscoped :: "net_lib \<Rightarrow> string list \<Rightarrow> string \<Rightarrow> bool" where
  "globset_matches_host_or_unscoped nl globs host \<longleftrightarrow>
     set_is_match nl globs host \<or> (case unscoped_ip_literal host of Some ip \<Rightarrow> set_is_match nl globs ip | None \<Rightarrow> False)"

definition explicit_local_pattern :: "string \<Rightarrow> string \<Rightarrow> bool" where
  "explicit_local_pattern host pattern =
     (let pattern = trim pattern
      in if pattern = ''*'' \<or> starts_with pattern ''*.'' \<or> starts_with pattern ''**.'' then False
         else if CHR ''*'' \<in> set pattern \<or> CHR ''?'' \<in> set pattern then False
         else normalize_host pattern = host
                \<or> (case unscoped_ip_literal host of Some ip \<Rightarrow> normalize_host pattern = ip | None \<Rightarrow> False))"

definition is_explicit_local_allowlisted :: "string list \<Rightarrow> string \<Rightarrow> bool" where
  "is_explicit_local_allowlisted allowed host = list_ex (explicit_local_pattern host) allowed"

text \<open>A lookup gives the addresses of a name, or nothing when it fails or takes too long.\<close>

type_synonym dns = "string \<Rightarrow> u16 \<Rightarrow> ip_addr list option"

definition host_resolves_to_non_public_ip :: "dns \<Rightarrow> string \<Rightarrow> u16 \<Rightarrow> bool" where
  "host_resolves_to_non_public_ip lookup host port =
     (case parse_ip host of
        Some ip \<Rightarrow> is_non_public_ip ip
      | None \<Rightarrow>
          (case lookup host port of
             None \<Rightarrow> True
           | Some addrs \<Rightarrow> list_ex is_non_public_ip addrs))"

definition local_literal :: "string \<Rightarrow> bool" where
  "local_literal host =
     (if is_loopback_host host then True
      else case parse_ip (case unscoped_ip_literal host of Some ip \<Rightarrow> ip | None \<Rightarrow> host) of
             Some ip \<Rightarrow> is_non_public_ip ip
           | None \<Rightarrow> False)"

text \<open>The verdict on a host in a given state.\<close>

definition blocks_host :: "net_lib \<Rightarrow> dns \<Rightarrow> config_state \<Rightarrow> string \<Rightarrow> u16 \<Rightarrow> host_decision" where
  "blocks_host nl lookup st raw port =
     (case parse_host raw of
        None \<Rightarrow> Blocked NotAllowed
      | Some host \<Rightarrow>
          (let allowed = allowed_domains (cs_config st);
               is_allowlisted = globset_matches_host_or_unscoped nl (cs_allow_set st) host;
               local_blocked =
                 (if nc_allow_local_binding (cs_config st) then False
                  else if local_literal host then \<not> is_explicit_local_allowlisted (entries_or_empty allowed) host
                  else host_resolves_to_non_public_ip lookup host port)
           in if globset_matches_host_or_unscoped nl (cs_deny_set st) host then Blocked Denied
              else if local_blocked then Blocked NotAllowedLocal
              else if allowed = None \<or> \<not> is_allowlisted then Blocked NotAllowed
              else Allowed))"

subsection \<open>The log of blocked requests\<close>

definition MAX_BLOCKED_EVENTS :: nat where
  "MAX_BLOCKED_EVENTS = 200"

text \<open>Removing from the front until the list fits.\<close>

fun evict :: "'a list \<Rightarrow> 'a list" where
  "evict [] = []"
| "evict (x # xs) = (if length (x # xs) > MAX_BLOCKED_EVENTS then evict xs else x # xs)"

definition saturating_succ :: "u64 \<Rightarrow> u64" where
  "saturating_succ n = (if n = - 1 then n else n + 1)"

definition log_blocked :: "string option \<Rightarrow> blocked_request \<Rightarrow> config_state \<Rightarrow> config_state" where
  "log_blocked execution_id entry st =
     st\<lparr>cs_blocked := evict (cs_blocked st @ [entry\<lparr>br_execution_id := execution_id\<rparr>]),
        cs_blocked_total := saturating_succ (cs_blocked_total st)\<rparr>"

subsection \<open>Updates\<close>

text \<open>A reload that the source of the settings may offer.\<close>

type_synonym reload = "net_error + config_state option"

definition take_over :: "config_state \<Rightarrow> config_state \<Rightarrow> config_state" where
  "take_over new_state st = new_state\<lparr>cs_blocked := cs_blocked st, cs_blocked_total := cs_blocked_total st\<rparr>"

definition reload_if_needed :: "reload \<Rightarrow> config_state \<Rightarrow> net_error + config_state" where
  "reload_if_needed offered st =
     result_bind offered (\<lambda>r. case r of
        None \<Rightarrow> Inr st
      | Some new_state \<Rightarrow> Inr (take_over new_state st))"

text \<open>Every operation that reads the state reloads first.\<close>

definition record_blocked :: "string option \<Rightarrow> reload \<Rightarrow> blocked_request \<Rightarrow> config_state \<Rightarrow> net_error + config_state" where
  "record_blocked execution_id offered entry st =
     result_bind (reload_if_needed offered st) (\<lambda>st. Inr (log_blocked execution_id entry st))"

definition blocked_snapshot :: "reload \<Rightarrow> config_state \<Rightarrow> net_error + blocked_request list \<times> config_state" where
  "blocked_snapshot offered st = result_bind (reload_if_needed offered st) (\<lambda>st. Inr (cs_blocked st, st))"

definition drain_blocked :: "reload \<Rightarrow> config_state \<Rightarrow> net_error + blocked_request list \<times> config_state" where
  "drain_blocked offered st =
     result_bind (reload_if_needed offered st) (\<lambda>st. Inr (cs_blocked st, st\<lparr>cs_blocked := []\<rparr>))"

definition host_blocked ::
  "net_lib \<Rightarrow> dns \<Rightarrow> reload \<Rightarrow> string \<Rightarrow> u16 \<Rightarrow> config_state \<Rightarrow> net_error + host_decision \<times> config_state" where
  "host_blocked nl lookup offered raw port st =
     result_bind (reload_if_needed offered st) (\<lambda>st. Inr (blocks_host nl lookup st raw port, st))"

definition method_allowed :: "reload \<Rightarrow> string \<Rightarrow> config_state \<Rightarrow> net_error + bool \<times> config_state" where
  "method_allowed offered m st =
     result_bind (reload_if_needed offered st) (\<lambda>st. Inr (allows_method (nc_mode (cs_config st)) m, st))"

definition allow_local_binding :: "reload \<Rightarrow> config_state \<Rightarrow> net_error + bool \<times> config_state" where
  "allow_local_binding offered st =
     result_bind (reload_if_needed offered st) (\<lambda>st. Inr (nc_allow_local_binding (cs_config st), st))"

definition force_reload :: "net_error + config_state \<Rightarrow> config_state \<Rightarrow> (net_error + unit) \<times> config_state" where
  "force_reload offered st =
     (case offered of
        Inr new_state \<Rightarrow> (Inr (), new_state\<lparr>cs_blocked := cs_blocked st\<rparr>)
      | Inl e \<Rightarrow> (Inl e, st))"

definition replace_config_state :: "reload \<Rightarrow> config_state \<Rightarrow> config_state \<Rightarrow> net_error + config_state" where
  "replace_config_state offered new_state st =
     result_bind (reload_if_needed offered st) (\<lambda>st. Inr (take_over new_state st))"

datatype domain_list_kind = AllowList | DenyList

fun kind_permission :: "domain_list_kind \<Rightarrow> domain_permission" where
  "kind_permission AllowList = PermAllow"
| "kind_permission DenyList = PermDeny"

fun kind_entries :: "domain_list_kind \<Rightarrow> net_config \<Rightarrow> string list" where
  "kind_entries AllowList cfg = entries_or_empty (allowed_domains cfg)"
| "kind_entries DenyList cfg = entries_or_empty (denied_domains cfg)"

fun opposite_entries :: "domain_list_kind \<Rightarrow> net_config \<Rightarrow> string list" where
  "opposite_entries AllowList cfg = entries_or_empty (denied_domains cfg)"
| "opposite_entries DenyList cfg = entries_or_empty (allowed_domains cfg)"

text \<open>The state an update computes from a snapshot; nothing to do is \<open>None\<close>.\<close>

definition updated_state :: "net_lib \<Rightarrow> net_env \<Rightarrow> string \<Rightarrow> domain_list_kind \<Rightarrow> config_state \<Rightarrow> net_error + config_state option" where
  "updated_state nl env host target st =
     (let cfg = cs_config st;
          listed = (\<lambda>entries. list_ex (\<lambda>entry. normalize_host entry = host) entries)
      in if listed (kind_entries target cfg) \<and> \<not> listed (opposite_entries target cfg) then Inr None
         else
           (let candidate = upsert_domain_permission host (kind_permission target) normalize_host cfg
            in result_bind (validate_policy_against_constraints nl env candidate (cs_constraints st)) (\<lambda>_.
               result_bind (build_config_state nl env candidate (cs_constraints st)) (\<lambda>new_state.
               Inr (Some (take_over new_state st))))))"

text \<open>One round of the loop of \<open>update_domain_list\<close>: the snapshot is read, the new state is written only if
  settings and limits are still those of the snapshot. \<open>None\<close> asks for another round.\<close>

definition update_round ::
  "net_lib \<Rightarrow> net_env \<Rightarrow> string \<Rightarrow> domain_list_kind \<Rightarrow> config_state \<Rightarrow> config_state \<Rightarrow> net_error + config_state option" where
  "update_round nl env host target snapshot current =
     result_bind (updated_state nl env host target snapshot) (\<lambda>new_state.
       case new_state of
         None \<Rightarrow> Inr (Some current)
       | Some new_state \<Rightarrow>
           if cs_constraints current \<noteq> cs_constraints snapshot \<or> cs_config current \<noteq> cs_config snapshot then Inr None
           else Inr (Some new_state))"

text \<open>With nobody else at work the first round is the last.\<close>

definition update_domain_list ::
  "net_lib \<Rightarrow> net_env \<Rightarrow> reload \<Rightarrow> string \<Rightarrow> domain_list_kind \<Rightarrow> config_state \<Rightarrow> net_error + config_state" where
  "update_domain_list nl env offered raw target st =
     (case parse_host raw of
        None \<Rightarrow> Inl (InvalidHost raw)
      | Some host \<Rightarrow>
          result_bind (reload_if_needed offered st) (\<lambda>st.
          result_bind (updated_state nl env host target st) (\<lambda>new_state.
          Inr (case new_state of Some new_state \<Rightarrow> new_state | None \<Rightarrow> st))))"

definition set_network_mode :: "net_lib \<Rightarrow> net_env \<Rightarrow> reload \<Rightarrow> network_mode \<Rightarrow> config_state \<Rightarrow> net_error + config_state" where
  "set_network_mode nl env offered mode st =
     result_bind (reload_if_needed offered st) (\<lambda>st.
     let candidate = (cs_config st)\<lparr>nc_mode := mode\<rparr>
     in result_bind (validate_policy_against_constraints nl env candidate (cs_constraints st)) (\<lambda>_.
        Inr (st\<lparr>cs_config := (cs_config st)\<lparr>nc_mode := mode\<rparr>\<rparr>)))"

subsection \<open>Unix sockets\<close>

definition socket_entry_allows :: "net_env \<Rightarrow> path \<Rightarrow> string \<Rightarrow> bool" where
  "socket_entry_allows env requested allowed =
     (case socket_path_parse env allowed of
        Inr (Native p) \<Rightarrow>
          p = requested
          \<or> (case (ne_canonicalize env requested, ne_canonicalize env p) of
               (Some requested_canonical, Some allowed_canonical) \<Rightarrow> allowed_canonical = requested_canonical
             | _ \<Rightarrow> False)
      | _ \<Rightarrow> False)"

definition socket_allowed :: "net_env \<Rightarrow> net_config \<Rightarrow> path \<Rightarrow> bool" where
  "socket_allowed env cfg p =
     (if nc_allow_all_unix_sockets cfg then True
      else case from_absolute_path (ne_home env) (ne_cwd env) p of
             None \<Rightarrow> False
           | Some requested \<Rightarrow> list_ex (socket_entry_allows env requested) (allow_unix_sockets cfg))"

definition is_unix_socket_allowed :: "net_env \<Rightarrow> reload \<Rightarrow> path \<Rightarrow> config_state \<Rightarrow> net_error + bool \<times> config_state" where
  "is_unix_socket_allowed env offered p st =
     result_bind (reload_if_needed offered st) (\<lambda>st.
       if \<not> ne_macos env then Inr (False, st)
       else if \<not> is_absolute p then Inr (False, st)
       else Inr (socket_allowed env (cs_config st) p, st))"

subsection \<open>Decisions\<close>

datatype protocol = ProtoHttp | ProtoHttpsConnect | ProtoSocks5Tcp | ProtoSocks5Udp

datatype policy_decision = DecideDeny | DecideAsk

fun policy_decision_str :: "policy_decision \<Rightarrow> string" where
  "policy_decision_str DecideDeny = ''deny''"
| "policy_decision_str DecideAsk = ''ask''"

datatype decision_source = BaselinePolicy | ModeGuard | ProxyState | Decider

fun decision_source_str :: "decision_source \<Rightarrow> string" where
  "decision_source_str BaselinePolicy = ''baseline_policy''"
| "decision_source_str ModeGuard = ''mode_guard''"
| "decision_source_str ProxyState = ''proxy_state''"
| "decision_source_str Decider = ''decider''"

record policy_request =
  pr_protocol :: protocol
  pr_host :: string
  pr_port :: u16
  pr_environment_id :: "string option"
  pr_client_addr :: "string option"
  pr_method :: "string option"
  pr_command :: "string option"
  pr_exec_policy_hint :: "string option"
  pr_execution_id :: "string option"

datatype net_decision = NetAllow | NetDeny string decision_source policy_decision

definition deny_with_source :: "string \<Rightarrow> decision_source \<Rightarrow> net_decision" where
  "deny_with_source reason source = NetDeny (if reason = [] then REASON_POLICY_DENIED else reason) source DecideDeny"

definition ask_with_source :: "string \<Rightarrow> decision_source \<Rightarrow> net_decision" where
  "ask_with_source reason source = NetDeny (if reason = [] then REASON_POLICY_DENIED else reason) source DecideAsk"

fun map_decider_decision :: "net_decision \<Rightarrow> net_decision" where
  "map_decider_decision NetAllow = NetAllow"
| "map_decider_decision (NetDeny reason source decision) = NetDeny reason Decider decision"

record audit_event =
  ae_scope :: string
  ae_decision :: string
  ae_source :: string
  ae_reason :: string
  ae_protocol :: protocol
  ae_host :: string
  ae_port :: u16
  ae_method :: "string option"
  ae_client :: "string option"
  ae_policy_override :: bool

text \<open>The request as the decider sees it.\<close>

definition decider_request :: "string option \<Rightarrow> string option \<Rightarrow> policy_request \<Rightarrow> policy_request" where
  "decider_request environment_id execution_id request =
     request\<lparr>pr_environment_id := (if pr_environment_id request = None then environment_id else pr_environment_id request),
             pr_execution_id := execution_id\<rparr>"

text \<open>The decision, whether the decider overrode the policy, and what the decider was asked.\<close>

definition host_policy_decision ::
  "host_decision \<Rightarrow> (policy_request \<Rightarrow> net_decision) option \<Rightarrow> string option \<Rightarrow> string option \<Rightarrow> policy_request
     \<Rightarrow> net_decision \<times> bool \<times> policy_request option" where
  "host_policy_decision blocked decider environment_id execution_id request =
     (case blocked of
        Allowed \<Rightarrow> (NetAllow, False, None)
      | Blocked reason \<Rightarrow>
          (case (reason, decider) of
             (NotAllowed, Some decide) \<Rightarrow>
               (let asked = decider_request environment_id execution_id request;
                    decision = map_decider_decision (decide asked)
                in (decision, decision = NetAllow, Some asked))
           | _ \<Rightarrow> (deny_with_source (block_reason_str reason) BaselinePolicy, False, None)))"

definition domain_audit_event :: "policy_request \<Rightarrow> net_decision \<Rightarrow> bool \<Rightarrow> audit_event" where
  "domain_audit_event request decision policy_override =
     (let (d, source, reason) =
        (case decision of
           NetAllow \<Rightarrow>
             (''allow'', if policy_override then Decider else BaselinePolicy,
              if policy_override then REASON_NOT_ALLOWED else ''allow'')
         | NetDeny reason source decision \<Rightarrow> (policy_decision_str decision, source, reason))
      in \<lparr>ae_scope = ''domain'', ae_decision = d, ae_source = decision_source_str source, ae_reason = reason,
          ae_protocol = pr_protocol request, ae_host = pr_host request, ae_port = pr_port request,
          ae_method = pr_method request, ae_client = pr_client_addr request, ae_policy_override = policy_override\<rparr>)"

definition evaluate_host_policy ::
  "net_lib \<Rightarrow> dns \<Rightarrow> reload \<Rightarrow> (policy_request \<Rightarrow> net_decision) option \<Rightarrow> string option \<Rightarrow> string option \<Rightarrow> policy_request
     \<Rightarrow> config_state \<Rightarrow> net_error + net_decision \<times> audit_event \<times> policy_request option \<times> config_state" where
  "evaluate_host_policy nl lookup offered decider environment_id execution_id request st =
     result_bind (host_blocked nl lookup offered (pr_host request) (pr_port request) st) (\<lambda>(blocked, st).
       let (decision, policy_override, asked) = host_policy_decision blocked decider environment_id execution_id request
       in Inr (decision, domain_audit_event request decision policy_override, asked, st))"

subsection \<open>Making the connection\<close>

text \<open>A target names a host or an address.\<close>

datatype target_host = HostName string | HostAddress ip_addr

definition named_localhost :: "string \<Rightarrow> bool" where
  "named_localhost name \<longleftrightarrow> to_ascii_lowercase (trim_end_dots name) = ''localhost''"

fun is_non_public_target :: "target_host \<Rightarrow> bool" where
  "is_non_public_target (HostAddress ip) = is_non_public_ip ip"
| "is_non_public_target (HostName name) = named_localhost name"

fun target_matches_non_public_addr :: "target_host \<Rightarrow> ip_addr \<Rightarrow> bool" where
  "target_matches_non_public_addr (HostAddress ip) addr = (ip = addr)"
| "target_matches_non_public_addr (HostName name) addr = (named_localhost name \<and> is_loopback addr)"

definition allows_non_public_target ::
  "net_lib \<Rightarrow> dns \<Rightarrow> (target_host \<Rightarrow> string) \<Rightarrow> reload \<Rightarrow> reload \<Rightarrow> target_host \<Rightarrow> u16 \<Rightarrow> ip_addr
     \<Rightarrow> config_state \<Rightarrow> net_error + bool \<times> config_state" where
  "allows_non_public_target nl lookup show_host offered1 offered2 target port addr st =
     result_bind (allow_local_binding offered1 st) (\<lambda>(local, st).
       if local then Inr (True, st)
       else if \<not> target_matches_non_public_addr target addr then Inr (False, st)
       else result_bind (host_blocked nl lookup offered2 (show_host target) port st) (\<lambda>(decision, st). Inr (decision = Allowed, st)))"

text \<open>Whether a connection to one address of the target is attempted; otherwise permission is denied.\<close>

definition target_checked_connect ::
  "net_lib \<Rightarrow> dns \<Rightarrow> (target_host \<Rightarrow> string) \<Rightarrow> reload \<Rightarrow> reload \<Rightarrow> target_host \<Rightarrow> u16 \<Rightarrow> ip_addr
     \<Rightarrow> config_state \<Rightarrow> net_error + bool \<times> config_state" where
  "target_checked_connect nl lookup show_host offered1 offered2 target port addr st =
     (if is_non_public_ip addr
      then allows_non_public_target nl lookup show_host offered1 offered2 target port addr st
      else Inr (True, st))"

text \<open>A request as the connector gets it: the upstream proxy it is sent through, if any, and its target (the error of
  reading it, or the host with the port, if it has one).\<close>

record connect_input =
  ci_proxy_address :: "string option"
  ci_target :: "string + (target_host \<times> u16) option"

text \<open>The connector, for one address it is about to connect to: an address of the upstream proxy when there is one,
  which is not checked, and an address of the target otherwise.\<close>

definition target_checked_serve ::
  "net_lib \<Rightarrow> dns \<Rightarrow> (target_host \<Rightarrow> string) \<Rightarrow> reload \<Rightarrow> reload \<Rightarrow> connect_input \<Rightarrow> ip_addr
     \<Rightarrow> config_state \<Rightarrow> net_error + bool \<times> config_state" where
  "target_checked_serve nl lookup show_host offered1 offered2 input addr st =
     (if ci_proxy_address input \<noteq> None then Inr (True, st)
      else result_bind (map_err TargetUnreadable (ci_target input)) (\<lambda>target.
        case target of
          None \<Rightarrow> Inl TargetMissingPort
        | Some (host, port) \<Rightarrow> target_checked_connect nl lookup show_host offered1 offered2 host port addr st))"

end
