(* ===== verification/Net_Settings.thy ===== *)
theory Net_Settings
  imports Net_Config
begin

text \<open>
  Facts about the settings of the network proxy: which permission of a pattern counts, tree maps, what is left of
  two socket policies, denials that survive, and the addresses the proxy listens on.
\<close>

subsection \<open>Permissions\<close>

lemma entries_or_empty_simps [simp]: "entries_or_empty None = []" "entries_or_empty (Some xs) = xs"
  by (simp_all add: entries_or_empty_def)

lemma entries_non_empty [simp]: "entries_or_empty (non_empty xs) = xs"
  by (simp add: non_empty_def)

text \<open>The strictest permission of a pattern counts.\<close>

fun strongest :: "domain_entry list \<Rightarrow> string \<Rightarrow> domain_permission option" where
  "strongest [] p = None"
| "strongest (e # es) p =
     (if de_pattern e = p
      then Some (case strongest es p of None \<Rightarrow> de_permission e | Some q \<Rightarrow> max (de_permission e) q)
      else strongest es p)"

definition merge_permission :: "domain_permission option \<Rightarrow> domain_permission option \<Rightarrow> domain_permission option" where
  "merge_permission a b = (case (a, b) of (None, _) \<Rightarrow> b | (_, None) \<Rightarrow> a | (Some a, Some b) \<Rightarrow> Some (max a b))"

lemma merge_permission_simps [simp]: "merge_permission None b = b" "merge_permission a None = a"
    "merge_permission (merge_permission a b) c = merge_permission a (merge_permission b c)"
  by (auto simp: merge_permission_def max.assoc split: option.splits)

lemma strongest_Cons: "strongest (e # es) p = merge_permission (if de_pattern e = p then Some (de_permission e) else None) (strongest es p)"
  by (auto simp: merge_permission_def split: option.splits)

lemma effective_fold:
  assumes "fold effective_step es (order, m) = (order', m')" and "set order = dom m" and "distinct order"
  shows "m' p = merge_permission (m p) (strongest es p) \<and> set order' = dom m' \<and> distinct order'"
  using assms
proof (induction es arbitrary: order m)
  case Nil
  then show ?case by simp
next
  case (Cons e es)
  obtain o1 m1 where s: "effective_step e (order, m) = (o1, m1)" by (cases "effective_step e (order, m)")
  then have inv1: "set o1 = dom m1" "distinct o1"
    and m1: "m1 p = merge_permission (m p) (if de_pattern e = p then Some (de_permission e) else None)" for p
    using Cons.prems(2,3) by (auto simp: effective_step_def merge_permission_def max_def not_le split: if_splits option.splits)
  have "fold effective_step es (o1, m1) = (order', m')" using Cons.prems(1) s by simp
  from Cons.IH [OF this inv1]
  have "m' p = merge_permission (m1 p) (strongest es p) \<and> set order' = dom m' \<and> distinct order'" .
  then show ?case by (simp only: m1 strongest_Cons merge_permission_simps)
qed

lemma strongest_None: "strongest es p = None \<longleftrightarrow> p \<notin> de_pattern ` set es"
  by (induction es) auto

lemma strongest_Deny: "strongest es p = Some PermDeny \<longleftrightarrow> \<lparr>de_pattern = p, de_permission = PermDeny\<rparr> \<in> set es"
proof (induction es)
  case (Cons e es)
  have "max a b = PermDeny \<longleftrightarrow> a = PermDeny \<or> b = PermDeny" for a b
    by (cases a; cases b) (auto simp: max_def less_eq_domain_permission_def)
  then show ?case using Cons by (cases e) (auto split: option.splits)
qed simp

lemma strongest_Allow:
  "strongest es p = Some PermAllow \<longleftrightarrow>
     \<lparr>de_pattern = p, de_permission = PermAllow\<rparr> \<in> set es \<and> \<lparr>de_pattern = p, de_permission = PermDeny\<rparr> \<notin> set es"
proof (induction es)
  case (Cons e es)
  have "max a b = PermAllow \<longleftrightarrow> (a = PermAllow \<and> b \<noteq> PermDeny) \<or> (b = PermAllow \<and> a \<noteq> PermDeny)" for a b
    by (cases a; cases b) (auto simp: max_def less_eq_domain_permission_def)
  moreover have "strongest es p = None \<Longrightarrow> \<lparr>de_pattern = p, de_permission = q\<rparr> \<notin> set es" for q
    by (force simp: strongest_None)
  ultimately show ?case using Cons strongest_Deny [of es p] by (cases e) (auto split: option.splits)
qed simp

lemma effective_entries_set:
  "e \<in> set (effective_entries es) \<longleftrightarrow> strongest es (de_pattern e) = Some (de_permission e)"
proof -
  obtain order m where f: "fold effective_step es ([], Map.empty) = (order, m)" by fastforce
  have m: "m p = strongest es p" "set order = dom m" for p
    using effective_fold [OF f, of p] by (auto simp: merge_permission_def)
  show ?thesis using m(2) by (cases e) (auto simp: effective_entries_def f set_map_filter m(1) [symmetric])
qed

lemma in_domain_entries:
  "p \<in> set (entries_or_empty (domain_entries q cfg)) \<longleftrightarrow> strongest (entries_or_empty (nc_domains cfg)) p = Some q"
proof (cases "nc_domains cfg")
  case (Some es)
  have "p \<in> de_pattern ` {e \<in> set (effective_entries es). de_permission e = q} \<longleftrightarrow> strongest es p = Some q"
    by (auto simp: effective_entries_set image_iff intro!: exI [of _ "\<lparr>de_pattern = p, de_permission = q\<rparr>"])
  then show ?thesis using Some by (simp add: domain_entries_def)
qed (simp add: domain_entries_def)

lemma in_denied:
  "p \<in> set (entries_or_empty (denied_domains cfg)) \<longleftrightarrow>
     \<lparr>de_pattern = p, de_permission = PermDeny\<rparr> \<in> set (entries_or_empty (nc_domains cfg))"
  by (simp add: denied_domains_def in_domain_entries strongest_Deny)

lemma in_allowed:
  "p \<in> set (entries_or_empty (allowed_domains cfg)) \<longleftrightarrow>
     \<lparr>de_pattern = p, de_permission = PermAllow\<rparr> \<in> set (entries_or_empty (nc_domains cfg))
     \<and> \<lparr>de_pattern = p, de_permission = PermDeny\<rparr> \<notin> set (entries_or_empty (nc_domains cfg))"
  by (simp add: allowed_domains_def in_domain_entries strongest_Allow)

lemma allowed_None: "allowed_domains cfg = None \<longleftrightarrow> set (entries_or_empty (allowed_domains cfg)) = {}"
  by (auto simp: allowed_domains_def domain_entries_def non_empty_def split: Option.bind_splits)

subsection \<open>Tree maps\<close>

lemma map_of_tree_insert [simp]: "map_of (tree_insert k v m) = (map_of m)(k \<mapsto> v)"
  by (induction k v m rule: tree_insert.induct) auto

lemma keys_tree_insert: "fst ` set (tree_insert k v m) = insert k (fst ` set m)"
  by (induction k v m rule: tree_insert.induct) auto

definition tree_ok :: "(string \<times> 'v) list \<Rightarrow> bool" where
  "tree_ok m \<longleftrightarrow> sorted_wrt (<) (map fst m)"

lemma tree_ok_insert [simp]: "tree_ok m \<Longrightarrow> tree_ok (tree_insert k v m)"
proof (induction k v m rule: tree_insert.induct)
  case (2 k v k' v' m)
  show ?case
  proof (cases "k' < k")
    case True
    have "\<forall>x \<in> fst ` set (tree_insert k v m). k' < x" using "2.prems" True by (auto simp: keys_tree_insert tree_ok_def)
    then show ?thesis using "2.IH" "2.prems" True by (auto simp: tree_ok_def)
  next
    case False
    then show ?thesis using "2.prems" by (cases "k = k'") (auto simp: tree_ok_def intro: less_trans)
  qed
qed (simp add: tree_ok_def)

lemma tree_ok_distinct: "tree_ok m \<Longrightarrow> distinct (map fst m)"
  unfolding tree_ok_def by (simp add: strict_sorted_iff)

lemma tree_ok_filter: "tree_ok m \<Longrightarrow> tree_ok (filter P m)"
  by (auto simp: tree_ok_def sorted_wrt_map sorted_wrt_filter)

lemma map_of_filter_tree:
  assumes "tree_ok m"
  shows "map_of (filter (\<lambda>(k, v). P k v) m) k = (case map_of m k of Some v \<Rightarrow> if P k v then Some v else None | None \<Rightarrow> None)"
  using tree_ok_distinct [OF assms] by (induction m) (auto simp: map_of_eq_None_iff rev_image_eqI split: option.splits)


subsection \<open>The policy of an environment\<close>

lemma map_of_fold_insert:
  "distinct (map fst inherited) \<Longrightarrow>
   map_of (fold (\<lambda>(p, q) m. if P q then tree_insert p q m else m) inherited kept) k =
     (case map_of inherited k of Some q \<Rightarrow> if P q then Some q else map_of kept k | None \<Rightarrow> map_of kept k)"
proof (induction inherited arbitrary: kept)
  case (Cons x inherited)
  obtain p q where x: "x = (p, q)" by (cases x)
  show ?case
  proof (cases "k = p")
    case True
    then have "map_of inherited k = None" using Cons.prems x by (auto simp: map_of_eq_None_iff)
    then show ?thesis using Cons x True by auto
  next
    case False
    then show ?thesis using Cons x by (cases "P q") (auto split: option.splits)
  qed
qed simp

lemma map_of_effective_sockets:
  assumes "tree_ok inherited" and "tree_ok owner"
  shows "map_of (effective_sockets all_inherited all_owner inherited owner) k =
    (case map_of inherited k of
       Some q \<Rightarrow> if all_owner \<or> q = SocketDeny then Some q
         else (case map_of owner k of Some r \<Rightarrow> if r = SocketDeny \<or> all_inherited \<or> q = SocketAllow then Some r else None | None \<Rightarrow> None)
     | None \<Rightarrow> (case map_of owner k of Some r \<Rightarrow> if r = SocketDeny \<or> all_inherited then Some r else None | None \<Rightarrow> None))"
  unfolding effective_sockets_def Let_def
    map_of_fold_insert [of inherited "\<lambda>q. all_owner \<or> q = SocketDeny", OF tree_ok_distinct [OF assms(1)]]
    map_of_filter_tree [OF assms(2), of "\<lambda>p q. q = SocketDeny \<or> all_inherited \<or> map_of inherited p = Some SocketAllow"]
  by (auto split: option.splits)

text \<open>What a list of socket permissions and the switch for all sockets let through.\<close>

definition socket_permitted :: "bool \<Rightarrow> socket_map \<Rightarrow> string \<Rightarrow> bool" where
  "socket_permitted allow_all sockets p \<longleftrightarrow> permits_all allow_all sockets \<or> map_of sockets p = Some SocketAllow"

lemma permits_all_no_deny: "permits_all b m \<Longrightarrow> tree_ok m \<Longrightarrow> map_of m k \<noteq> Some SocketDeny"
  by (auto simp: permits_all_def list_ex_iff dest!: map_of_SomeD)

lemma permits_all_tree: "tree_ok m \<Longrightarrow> permits_all b m \<longleftrightarrow> b \<and> (\<forall>k. map_of m k \<noteq> Some SocketDeny)"
  using tree_ok_distinct [of m] by (auto simp: permits_all_def list_ex_iff dest!: map_of_SomeD)

lemma tree_ok_fold_insert: "tree_ok m \<Longrightarrow> tree_ok (fold (\<lambda>(p, q) m. if P q then tree_insert p q m else m) xs m)"
  by (induction xs arbitrary: m) auto

lemma tree_ok_effective_sockets: "tree_ok owner \<Longrightarrow> tree_ok (effective_sockets a b inherited owner)"
  unfolding effective_sockets_def Let_def by (rule tree_ok_fold_insert) (rule tree_ok_filter)

lemma effective_sockets_meet:
  assumes ok: "tree_ok inherited" "tree_ok owner"
    and a: "a = permits_all all_inherited inherited" and b: "b = permits_all all_owner owner"
  shows "socket_permitted (a \<and> b) (effective_sockets a b inherited owner) k \<longleftrightarrow>
    socket_permitted all_inherited inherited k \<and> socket_permitted all_owner owner k"
proof -
  have na: "a \<Longrightarrow> map_of inherited k' \<noteq> Some SocketDeny" and nb: "b \<Longrightarrow> map_of owner k' \<noteq> Some SocketDeny" for k'
    using permits_all_no_deny ok a b by blast+
  have all: "permits_all (a \<and> b) (effective_sockets a b inherited owner) \<longleftrightarrow> a \<and> b"
    unfolding permits_all_tree [OF tree_ok_effective_sockets [OF ok(2)]] map_of_effective_sockets [OF ok]
    using na nb by (auto split: option.splits)
  have "socket_permission = SocketAllow \<or> socket_permission = SocketDeny" for socket_permission
    by (cases socket_permission) auto
  then show ?thesis
    unfolding socket_permitted_def all a [symmetric] b [symmetric] map_of_effective_sockets [OF ok]
    using na [of k] nb [of k] by (auto split: option.splits if_splits)
qed

lemma upsert_entries:
  "set (entries_or_empty (nc_domains (upsert_domain_permission host q f cfg))) =
     insert \<lparr>de_pattern = host, de_permission = q\<rparr> {e \<in> set (entries_or_empty (nc_domains cfg)). f (de_pattern e) \<noteq> f host}"
  by (auto simp: upsert_domain_permission_def)

lemma upsert_other [simp]:
  "nc_unix_sockets (upsert_domain_permission host q f cfg) = nc_unix_sockets cfg"
  "nc_allow_all_unix_sockets (upsert_domain_permission host q f cfg) = nc_allow_all_unix_sockets cfg"
  "nc_allow_upstream_proxy (upsert_domain_permission host q f cfg) = nc_allow_upstream_proxy cfg"
  "nc_allow_local_binding (upsert_domain_permission host q f cfg) = nc_allow_local_binding cfg"
  by (simp_all add: upsert_domain_permission_def)

lemma fold_upsert_other [simp]:
  "nc_unix_sockets (fold (\<lambda>d. upsert_domain_permission d q f) ds cfg) = nc_unix_sockets cfg"
  "nc_allow_all_unix_sockets (fold (\<lambda>d. upsert_domain_permission d q f) ds cfg) = nc_allow_all_unix_sockets cfg"
  "nc_allow_upstream_proxy (fold (\<lambda>d. upsert_domain_permission d q f) ds cfg) = nc_allow_upstream_proxy cfg"
  "nc_allow_local_binding (fold (\<lambda>d. upsert_domain_permission d q f) ds cfg) = nc_allow_local_binding cfg"
  by (induction ds arbitrary: cfg) simp_all

text \<open>After a run of denials, every denied name is denied under its normal form, and the other entries are those that
  share a normal form with none of them.\<close>

lemma fold_upsert_entries:
  fixes f :: "string \<Rightarrow> string"
  defines "after \<equiv> \<lambda>ds cfg. set (entries_or_empty (nc_domains (fold (\<lambda>d. upsert_domain_permission d PermDeny f) ds cfg)))"
  shows "d \<in> set ds \<Longrightarrow> \<exists>d' \<in> set ds. f d' = f d \<and> \<lparr>de_pattern = d', de_permission = PermDeny\<rparr> \<in> after ds cfg"
    and "e \<in> after ds cfg \<Longrightarrow>
      de_permission e = PermDeny \<and> de_pattern e \<in> set ds
      \<or> e \<in> set (entries_or_empty (nc_domains cfg)) \<and> f (de_pattern e) \<notin> f ` set ds"
    and "e \<in> set (entries_or_empty (nc_domains cfg)) \<Longrightarrow> f (de_pattern e) \<notin> f ` set ds \<Longrightarrow> e \<in> after ds cfg"
proof -
  show kept: "e \<in> after ds cfg" if "e \<in> set (entries_or_empty (nc_domains cfg))" "f (de_pattern e) \<notin> f ` set ds" for ds cfg e
    using that unfolding after_def by (induction ds arbitrary: cfg) (auto simp: upsert_entries)
  show "e \<in> after ds cfg \<Longrightarrow>
      de_permission e = PermDeny \<and> de_pattern e \<in> set ds
      \<or> e \<in> set (entries_or_empty (nc_domains cfg)) \<and> f (de_pattern e) \<notin> f ` set ds"
    unfolding after_def by (induction ds arbitrary: cfg) (force simp: upsert_entries)+
  show "\<exists>d' \<in> set ds. f d' = f d \<and> \<lparr>de_pattern = d', de_permission = PermDeny\<rparr> \<in> after ds cfg" if "d \<in> set ds"
    using that
  proof (induction ds arbitrary: cfg d)
    case (Cons x ds)
    show ?case
    proof (cases "f d \<in> f ` set ds")
      case True
      then obtain y where "y \<in> set ds" "f y = f d" by auto
      then show ?thesis using Cons.IH [of y "upsert_domain_permission x PermDeny f cfg"] by (auto simp: after_def)
    next
      case False
      then have "d = x" using Cons.prems by auto
      with False kept [of "\<lparr>de_pattern = x, de_permission = PermDeny\<rparr>" "upsert_domain_permission x PermDeny f cfg" ds]
      show ?thesis by (auto simp: upsert_entries after_def)
    qed
  qed simp
qed

lemma apply_to_domains:
  "nc_domains (apply_to pol cfg) =
     nc_domains (fold (\<lambda>d. upsert_domain_permission d PermDeny normalize_host) (entries_or_empty (denied_domains cfg))
       (cfg\<lparr>nc_domains := ep_domains pol\<rparr>))"
  by (simp add: apply_to_def Let_def)

lemma apply_to_sockets:
  fixes pol cfg
  defines "inherited \<equiv> entries_or_empty (nc_unix_sockets cfg)" and "owner \<equiv> entries_or_empty (ep_unix_sockets pol)"
  shows "entries_or_empty (nc_unix_sockets (apply_to pol cfg)) =
      effective_sockets (permits_all (nc_allow_all_unix_sockets cfg) inherited) (permits_all (ep_allow_all_unix_sockets pol) owner) inherited owner"
    and "nc_allow_all_unix_sockets (apply_to pol cfg) \<longleftrightarrow>
      permits_all (nc_allow_all_unix_sockets cfg) inherited \<and> permits_all (ep_allow_all_unix_sockets pol) owner"
    and "nc_allow_upstream_proxy (apply_to pol cfg) \<longleftrightarrow> nc_allow_upstream_proxy cfg \<and> ep_allow_upstream_proxy pol"
    and "nc_allow_local_binding (apply_to pol cfg) \<longleftrightarrow> nc_allow_local_binding cfg \<and> ep_allow_local_binding pol"
  by (simp_all add: apply_to_def Let_def inherited_def owner_def)

lemma apply_to_entry:
  assumes "tree_ok (entries_or_empty (nc_unix_sockets cfg))" and "tree_ok (entries_or_empty (ep_unix_sockets pol))"
    and "a \<in> set (allow_unix_sockets (apply_to pol cfg))"
  shows "(nc_allow_all_unix_sockets cfg \<or> a \<in> set (allow_unix_sockets cfg))
    \<and> (ep_allow_all_unix_sockets pol \<or> (a, SocketAllow) \<in> set (entries_or_empty (ep_unix_sockets pol)))"
proof -
  let ?in = "entries_or_empty (nc_unix_sockets cfg)" and ?own = "entries_or_empty (ep_unix_sockets pol)"
  have "(a, SocketAllow) \<in> set (entries_or_empty (nc_unix_sockets (apply_to pol cfg)))"
    using assms(3) by (auto simp: allow_unix_sockets_def)
  moreover have "tree_ok (entries_or_empty (nc_unix_sockets (apply_to pol cfg)))"
    unfolding apply_to_sockets(1) by (rule tree_ok_effective_sockets [OF assms(2)])
  ultimately have "map_of (entries_or_empty (nc_unix_sockets (apply_to pol cfg))) a = Some SocketAllow"
    by (simp add: tree_ok_distinct)
  then have "socket_permitted (nc_allow_all_unix_sockets cfg) ?in a \<and> socket_permitted (ep_allow_all_unix_sockets pol) ?own a"
    using effective_sockets_meet [OF assms(1,2) refl refl, of _ _ a] unfolding apply_to_sockets(1)
    by (auto simp: socket_permitted_def)
  then show ?thesis
    by (auto simp: socket_permitted_def permits_all_def allow_unix_sockets_def image_iff dest!: map_of_SomeD)
qed

lemma listed_socket_stays:
  assumes "tree_ok (entries_or_empty (nc_unix_sockets cfg))" and "tree_ok (entries_or_empty (ep_unix_sockets pol))"
    and "a \<in> set (allow_unix_sockets cfg)"
    and "a \<in> set (allow_unix_sockets (cfg\<lparr>nc_unix_sockets := ep_unix_sockets pol, nc_allow_all_unix_sockets := x\<rparr>))"
  shows "a \<in> set (allow_unix_sockets (apply_to pol cfg))"
proof -
  have "map_of (entries_or_empty (nc_unix_sockets cfg)) a = Some SocketAllow"
    "map_of (entries_or_empty (ep_unix_sockets pol)) a = Some SocketAllow"
    using assms by (auto simp: allow_unix_sockets_def tree_ok_distinct)
  then have "map_of (entries_or_empty (nc_unix_sockets (apply_to pol cfg))) a = Some SocketAllow"
    unfolding apply_to_sockets(1) map_of_effective_sockets [OF assms(1,2)] by simp
  then show ?thesis by (force simp: allow_unix_sockets_def dest!: map_of_SomeD)
qed

lemma apply_to_denials:
  assumes "d \<in> set (entries_or_empty (denied_domains cfg))"
  shows "\<exists>d' \<in> set (entries_or_empty (denied_domains (apply_to pol cfg))). normalize_host d' = normalize_host d"
  using fold_upsert_entries(1) [OF assms, of normalize_host "cfg\<lparr>nc_domains := ep_domains pol\<rparr>"]
  unfolding in_denied [of _ "apply_to pol cfg", unfolded apply_to_domains, symmetric] by blast

lemma apply_to_allowed:
  assumes "p \<in> set (entries_or_empty (allowed_domains (apply_to pol cfg)))"
  shows "\<lparr>de_pattern = p, de_permission = PermAllow\<rparr> \<in> set (entries_or_empty (ep_domains pol))
    \<and> \<lparr>de_pattern = p, de_permission = PermDeny\<rparr> \<notin> set (entries_or_empty (ep_domains pol))
    \<and> normalize_host p \<notin> normalize_host ` set (entries_or_empty (denied_domains cfg))"
  using assms
    fold_upsert_entries(2) [of "\<lparr>de_pattern = p, de_permission = PermAllow\<rparr>" normalize_host "entries_or_empty (denied_domains cfg)" "cfg\<lparr>nc_domains := ep_domains pol\<rparr>"]
    fold_upsert_entries(3) [of "\<lparr>de_pattern = p, de_permission = PermDeny\<rparr>" "cfg\<lparr>nc_domains := ep_domains pol\<rparr>" normalize_host "entries_or_empty (denied_domains cfg)"]
  by (auto simp: in_allowed apply_to_domains)

subsection \<open>Listening addresses\<close>

lemma loopback_v4_is_loopback [simp]: "is_loopback loopback_v4"
  by (simp add: loopback_v4_def v4_is_loopback_def from_octets_def octet_def)

lemma clamp_bind_addrs_local:
  assumes "clamp_bind_addrs http socks cfg = (http', socks')"
  shows "snd http' = snd http \<and> snd socks' = snd socks"
    and "\<not> nc_allow_non_loopback_proxy cfg \<or> allow_unix_sockets cfg \<noteq> [] \<or> nc_allow_all_unix_sockets cfg \<Longrightarrow>
      is_loopback (fst http') \<and> is_loopback (fst socks')"
  using assms by (auto simp: clamp_bind_addrs_def clamp_non_loopback_def Let_def split: if_splits)

subsection \<open>Remote executors\<close>

text \<open>What arrives at a remote executor is the policy of the sender, without interception and credentials and with
  the default listeners.\<close>

lemma remote_config_keeps_policy:
  "from_effective_config cfg = Inr rc \<Longrightarrow>
     into_network_proxy_config rc =
       cfg\<lparr>nc_proxy_url := default_proxy_url, nc_socks_url := default_socks_url, nc_allow_non_loopback_proxy := False,
           nc_mitm := False, nc_credential_broker := False, nc_credential_broker_openai_host := None,
           nc_allow_plaintext_credential_injection := False, nc_mitm_hooks := []\<rparr>"
  by (auto simp: from_effective_config_def into_network_proxy_config_def net_config_default_def split: if_splits)
end
