(* ===== verification/Net_Names.thy ===== *)
theory Net_Names
  imports Net_Policy
begin

text \<open>
  Facts about the spelling of hosts and patterns: letter case does not matter, and what a compiled glob set holds.
\<close>

subsection \<open>Letter case\<close>

definition caseless :: "char \<Rightarrow> bool" where
  "caseless c \<longleftrightarrow> \<not> (65 \<le> (of_char c :: nat) \<and> (of_char c :: nat) \<le> 90) \<and> \<not> (97 \<le> (of_char c :: nat) \<and> (of_char c :: nat) \<le> 122)"

lemma of_char_ascii_lower:
  "(of_char (ascii_lower c) :: nat) = (if 65 \<le> (of_char c :: nat) \<and> (of_char c :: nat) \<le> 90 then of_char c + 32 else of_char c)"
  by (simp add: ascii_lower_def)

lemma ascii_lower_caseless: "caseless c \<Longrightarrow> ascii_lower x = c \<longleftrightarrow> x = c"
  using of_char_ascii_lower [of x] by (auto simp: caseless_def ascii_lower_def split: if_splits)

lemma ascii_lower_idem [simp]: "ascii_lower (ascii_lower c) = ascii_lower c"
  unfolding ascii_lower_def [of "ascii_lower c"] of_char_ascii_lower by auto

lemma is_cont_lower [simp]: "is_cont (ascii_lower b) = is_cont b"
  by (simp add: is_cont_def of_char_ascii_lower)

lemma utf8_chars_lower: "utf8_chars (map ascii_lower s) = map (map ascii_lower) (utf8_chars s)"
  by (induction s rule: utf8_chars.induct) (simp_all add: takeWhile_map dropWhile_map comp_def)

lemma lower_caseless: "list_all caseless t \<Longrightarrow> map ascii_lower s = t \<longleftrightarrow> s = t"
  by (induction t arbitrary: s) (auto simp: ascii_lower_caseless map_eq_Cons_conv)

lemma white_space_caseless: "w \<in> set white_space \<Longrightarrow> list_all caseless w"
  by (auto simp: white_space_def caseless_def)

lemma is_whitespace_lower [simp]: "is_whitespace (map ascii_lower g) = is_whitespace g"
  using white_space_caseless lower_caseless unfolding is_whitespace_def List.member_iff by metis

lemma trim_lower: "trim (map ascii_lower s) = map ascii_lower (trim s)"
  by (simp add: trim_def utf8_chars_lower dropWhile_map rev_map map_concat comp_def)

lemma starts_with_lower: "list_all caseless p \<Longrightarrow> starts_with (map ascii_lower s) p = starts_with s p"
  by (simp add: starts_with_def take_map lower_caseless)

lemma strip_prefix_lower: "list_all caseless p \<Longrightarrow> strip_prefix p (map ascii_lower s) = map_option (map ascii_lower) (strip_prefix p s)"
  by (simp add: strip_prefix_def starts_with_lower drop_map)

lemma in_lower: "caseless c \<Longrightarrow> c \<in> set (map ascii_lower s) \<longleftrightarrow> c \<in> set s"
  unfolding set_map image_iff using ascii_lower_caseless [of c] by metis

lemma count_lower: "caseless c \<Longrightarrow> count_list (map ascii_lower s) c = count_list s c"
  by (induction s) (auto simp: ascii_lower_caseless)

lemma takeWhile_lower: "caseless c \<Longrightarrow> takeWhile (\<lambda>x. x \<noteq> c) (map ascii_lower s) = map ascii_lower (takeWhile (\<lambda>x. x \<noteq> c) s)"
  by (induction s) (auto simp: ascii_lower_caseless)

lemma normalize_dns_lower: "normalize_dns_host_or_ip_literal (map ascii_lower s) = normalize_dns_host_or_ip_literal s"
  by (simp add: normalize_dns_host_or_ip_literal_def to_ascii_lowercase_def comp_def)

lemma caseless_marks: "caseless (CHR ''['')" "caseless (CHR '']'')" "caseless (CHR '':'')" "caseless (CHR ''*'')" "caseless (CHR ''.'')"
  by (simp_all add: caseless_def)

lemma normalize_host_lower: "normalize_host (to_ascii_lowercase s) = normalize_host s"
  unfolding normalize_host_def to_ascii_lowercase_def trim_lower Let_def
  by (simp add: starts_with_lower caseless_marks in_lower [unfolded set_map] count_lower takeWhile_lower normalize_dns_lower flip: map_tl)

lemma normalize_pattern_lower: "normalize_pattern (to_ascii_lowercase p) = normalize_pattern p"
proof -
  have "map ascii_lower (trim p) = ''*'' \<longleftrightarrow> trim p = ''*''" by (rule lower_caseless) (simp add: caseless_def)
  then show ?thesis
    unfolding normalize_pattern_def Let_def
    by (auto simp: to_ascii_lowercase_def trim_lower strip_prefix_lower caseless_marks normalize_host_lower [unfolded to_ascii_lowercase_def]
        split: option.splits)
qed

lemma normalize_pattern_case_insensitive:
  "to_ascii_lowercase a = to_ascii_lowercase b \<Longrightarrow> normalize_pattern a = normalize_pattern b"
  by (metis normalize_pattern_lower)

subsection \<open>Glob sets\<close>

lemma add_candidates_set: "add_candidates nl seen cs = Inr seen' \<Longrightarrow> set seen' = set seen \<union> set cs"
  by (induction nl seen cs rule: add_candidates.induct) (auto split: if_splits)

lemma compile_patterns_set:
  "compile_patterns nl r seen ps = Inr seen' \<Longrightarrow> set seen' = set seen \<union> (\<Union>p \<in> set ps. set (expand_domain_pattern (normalize_pattern p)))"
  by (induction nl r seen ps rule: compile_patterns.induct) (auto split: if_splits dest!: add_candidates_set)

lemma compile_globset_set:
  "compile_globset_with_policy nl r ps = Inr globs \<Longrightarrow> set globs = (\<Union>p \<in> set ps. set (expand_domain_pattern (normalize_pattern p)))"
  by (auto simp: compile_globset_with_policy_def dest!: compile_patterns_set split: if_splits)

end
