(* ===== verification/Net_Runtime.thy ===== *)
theory Net_Runtime
  imports Net_State Net_Settings Net_Names
begin

text \<open>
  Facts about the running proxy: settings within the limits of an administrator, the steps its state can take and
  the invariant they keep, denials that no update removes, and connections to local addresses.
\<close>

subsection \<open>Validation\<close>

lemma ensure_ok [simp]: "ensure c e = Inr u \<longleftrightarrow> c"
  by (simp add: ensure_def)

text \<open>Validation looks only at the sets of patterns.\<close>

lemma no_global_wildcards:
  "validate_non_global_wildcard_domain_patterns f ps = Inr u \<longleftrightarrow> (\<forall>p \<in> set ps. \<not> is_global_wildcard_domain_pattern p)"
  by (auto simp: validate_non_global_wildcard_domain_patterns_def find_None_iff find_Some_iff split: option.splits)

lemma result_bind_unit: "result_bind (r :: 'e + unit) (\<lambda>_. s) = Inr y \<longleftrightarrow> r = Inr () \<and> s = Inr y"
  by (cases r) auto

lemma validate_allowlist_ok:
  "validate_allowlist nl ct allowed denied = Inr () \<longleftrightarrow>
     (\<forall>managed. ct_allowed_domains ct = Some managed \<longrightarrow> (\<forall>p \<in> set managed. \<not> is_global_wildcard_domain_pattern p)
          \<and> allowlist_ok nl (ct_allowlist_expansion_enabled ct) managed allowed denied)"
  by (simp add: validate_allowlist_def no_global_wildcards split: option.splits)

lemma validate_denylist_ok:
  "validate_denylist ct denied = Inr () \<longleftrightarrow>
     (\<forall>managed. ct_denied_domains ct = Some managed \<longrightarrow> (\<forall>p \<in> set managed. \<not> is_global_wildcard_domain_pattern p)
          \<and> denylist_ok (ct_denylist_expansion_enabled ct) managed denied)"
  by (simp add: validate_denylist_def no_global_wildcards split: option.splits)

lemma validate_unix_sockets_ok:
  "validate_unix_sockets ct sockets = Inr () \<longleftrightarrow>
     (\<forall>managed. ct_allow_unix_sockets ct = Some managed \<longrightarrow> (\<forall>p \<in> set sockets. to_ascii_lowercase p \<in> lower_set managed))"
  by (simp add: validate_unix_sockets_def list_all_iff split: option.splits)

definition limits_ok :: "net_lib \<Rightarrow> net_env \<Rightarrow> net_config \<Rightarrow> constraints \<Rightarrow> bool" where
  "limits_ok nl env cfg ct \<longleftrightarrow> validate_policy_against_constraints nl env cfg ct = Inr ()"

lemma limits_ok_iff:
  "limits_ok nl env cfg ct \<longleftrightarrow>
     validate_mitm_hook_config nl env cfg = Inr ()
     \<and> (\<forall>p \<in> set (entries_or_empty (denied_domains cfg)). \<not> is_global_wildcard_domain_pattern p)
     \<and> flag_ok (ct_enabled ct) (nc_enabled cfg)
     \<and> (\<forall>m. ct_mode ct = Some m \<longrightarrow> network_mode_rank (nc_mode cfg) \<le> network_mode_rank m)
     \<and> flag_ok (ct_allow_upstream_proxy ct) (nc_allow_upstream_proxy cfg)
     \<and> flag_ok (ct_allow_non_loopback_proxy ct) (nc_allow_non_loopback_proxy cfg)
     \<and> (nc_allow_all_unix_sockets cfg \<longrightarrow> (case ct_allow_all_unix_sockets ct of Some b \<Rightarrow> b | None \<Rightarrow> ct_allow_unix_sockets ct = None))
     \<and> flag_ok (ct_allow_local_binding ct) (nc_allow_local_binding cfg)
     \<and> (\<forall>managed. ct_allowed_domains ct = Some managed \<longrightarrow> (\<forall>p \<in> set managed. \<not> is_global_wildcard_domain_pattern p)
          \<and> allowlist_ok nl (ct_allowlist_expansion_enabled ct) managed (entries_or_empty (allowed_domains cfg)) (entries_or_empty (denied_domains cfg)))
     \<and> (\<forall>managed. ct_denied_domains ct = Some managed \<longrightarrow> (\<forall>p \<in> set managed. \<not> is_global_wildcard_domain_pattern p)
          \<and> denylist_ok (ct_denylist_expansion_enabled ct) managed (entries_or_empty (denied_domains cfg)))
     \<and> (\<forall>managed. ct_allow_unix_sockets ct = Some managed \<longrightarrow>
          (\<forall>p \<in> set (allow_unix_sockets cfg). to_ascii_lowercase p \<in> lower_set managed))"
proof -
  have mode: "(case ct_mode ct of Some max_mode \<Rightarrow> \<not> network_mode_rank (nc_mode cfg) > network_mode_rank max_mode | None \<Rightarrow> True)
      \<longleftrightarrow> (\<forall>m. ct_mode ct = Some m \<longrightarrow> network_mode_rank (nc_mode cfg) \<le> network_mode_rank m)"
    by (auto simp: not_less split: option.splits)
  show ?thesis
    unfolding limits_ok_def validate_policy_against_constraints_def Let_def result_bind_unit ensure_ok map_err_eq_Inr
      no_global_wildcards validate_allowlist_ok validate_denylist_ok validate_unix_sockets_ok mode
    by (simp only: not_not de_Morgan_conj imp_conv_disj)
qed

lemma denied_after_set_allowed: 
  "set (entries_or_empty (denied_domains (set_allowed_domains ps cfg))) = set (entries_or_empty (denied_domains cfg))"
proof -
  have "e \<in> set (fold (add_domain_entry PermAllow) ps es) \<longleftrightarrow> e \<in> set es" if "de_permission e = PermDeny" for e es
    using that by (induction ps arbitrary: es) (simp_all add: add_domain_entry_def, metis domain_entry.select_convs(2) domain_permission.distinct(5))
  from this [of "\<lparr>de_pattern = p, de_permission = PermDeny\<rparr>" "filter (\<lambda>e. de_permission e \<noteq> PermAllow) (entries_or_empty (nc_domains cfg))" for p]
  have "p \<in> set (entries_or_empty (denied_domains (set_allowed_domains ps cfg))) \<longleftrightarrow> p \<in> set (entries_or_empty (denied_domains cfg))" for p
    by (simp add: in_denied set_allowed_domains_def set_domain_entries_def)
  then show ?thesis by blast
qed

lemma denylist_ok_cong: "set a = set b \<Longrightarrow> denylist_ok x managed a = denylist_ok x managed b"
  by (simp add: denylist_ok_def lower_set_def)

lemma set_allowed_other [simp]:
  "nc_mitm (set_allowed_domains ps cfg) = nc_mitm cfg" "nc_mitm_hooks (set_allowed_domains ps cfg) = nc_mitm_hooks cfg"
  "nc_enabled (set_allowed_domains ps cfg) = nc_enabled cfg" "nc_mode (set_allowed_domains ps cfg) = nc_mode cfg"
  "nc_allow_upstream_proxy (set_allowed_domains ps cfg) = nc_allow_upstream_proxy cfg"
  "nc_allow_non_loopback_proxy (set_allowed_domains ps cfg) = nc_allow_non_loopback_proxy cfg"
  "nc_allow_all_unix_sockets (set_allowed_domains ps cfg) = nc_allow_all_unix_sockets cfg"
  "nc_allow_local_binding (set_allowed_domains ps cfg) = nc_allow_local_binding cfg"
  "nc_unix_sockets (set_allowed_domains ps cfg) = nc_unix_sockets cfg"
  "nc_credential_broker (set_allowed_domains ps cfg) = nc_credential_broker cfg"
  by (simp_all add: set_allowed_domains_def set_domain_entries_def)

lemma limits_ok_set_allowed:
  "ct_allowed_domains ct = None \<Longrightarrow> limits_ok nl env (set_allowed_domains ps cfg) ct = limits_ok nl env cfg ct"
  using denylist_ok_cong [OF denied_after_set_allowed [of ps cfg]]
  by (simp add: limits_ok_iff denied_after_set_allowed validate_mitm_hook_config_def allow_unix_sockets_def)

lemma limits_ok_broker [simp]: "limits_ok nl env (cfg\<lparr>nc_credential_broker := b\<rparr>) ct = limits_ok nl env cfg ct"
  by (simp add: limits_ok_iff validate_mitm_hook_config_def allow_unix_sockets_def allowed_domains_def denied_domains_def domain_entries_def)

lemma limits_ok_enable: "ct_enabled ct \<noteq> Some False \<Longrightarrow> limits_ok nl env cfg ct \<Longrightarrow> limits_ok nl env (cfg\<lparr>nc_enabled := True\<rparr>) ct"
  by (auto simp: limits_ok_iff validate_mitm_hook_config_def allow_unix_sockets_def allowed_domains_def denied_domains_def domain_entries_def flag_ok_def split: option.splits)

text \<open>Settings within the limits stay within them when the credential broker turns the proxy on.\<close>

lemma brokered_config_limits:
  assumes "limits_ok nl env cfg ct"
  shows "limits_ok nl env (fst (brokered_config cfg ct)) ct"
  using assms
  by (auto simp: brokered_config_def Let_def limits_ok_set_allowed intro!: limits_ok_enable)

subsection \<open>The log\<close>

lemma evict_drop: "evict xs = drop (length xs - MAX_BLOCKED_EVENTS) xs"
  by (induction xs) (auto simp: Suc_diff_le)

lemma evict_bounded: "length (evict xs) \<le> MAX_BLOCKED_EVENTS"
  by (simp add: evict_drop)

lemma unat_saturating_succ: "unat (saturating_succ n) = min (unat n + 1) (2 ^ 64 - 1)"
proof (cases "n = - 1")
  case True
  then show ?thesis by (simp add: saturating_succ_def unsigned_minus_1_eq_mask mask_eq_exp_minus_1)
next
  case False
  have m: "unat (- 1 :: 64 word) = 2 ^ 64 - 1" by (simp add: unsigned_minus_1_eq_mask mask_eq_exp_minus_1)
  have "unat n \<noteq> 2 ^ 64 - 1" using False m by (metis word_unat_eq_iff)
  moreover have "unat n < 2 ^ 64" using unsigned_less [of n] by simp
  ultimately have "unat n + 1 < 2 ^ 64" by simp
  then show ?thesis using False unat_word_ariths(1) [of n 1] by (simp add: saturating_succ_def)
qed

subsection \<open>States that respect their limits\<close>

definition vetted :: "net_lib \<Rightarrow> net_env \<Rightarrow> config_state \<Rightarrow> bool" where
  "vetted nl env st \<longleftrightarrow>
     limits_ok nl env (cs_config st) (cs_constraints st)
     \<and> compile_globset_with_policy nl True (entries_or_empty (denied_domains (cs_config st))) = Inr (cs_deny_set st)
     \<and> compile_globset_with_policy nl False (entries_or_empty (allowed_domains (cs_config st))) = Inr (cs_allow_set st)"

definition state_ok :: "net_lib \<Rightarrow> net_env \<Rightarrow> config_state \<Rightarrow> bool" where
  "state_ok nl env st \<longleftrightarrow> vetted nl env st \<and> length (cs_blocked st) \<le> MAX_BLOCKED_EVENTS"

text \<open>A source of settings that offers only states within their limits.\<close>

definition offer_ok :: "net_lib \<Rightarrow> net_env \<Rightarrow> reload \<Rightarrow> bool" where
  "offer_ok nl env offered \<longleftrightarrow> (case offered of Inr (Some new_state) \<Rightarrow> vetted nl env new_state | _ \<Rightarrow> True)"

lemma vetted_log [simp]: "vetted nl env (st\<lparr>cs_blocked := b\<rparr>) = vetted nl env st" "vetted nl env (st\<lparr>cs_blocked_total := t\<rparr>) = vetted nl env st"
  by (simp_all add: vetted_def)

lemma build_config_state_vetted:
  assumes "limits_ok nl env cfg ct" and "build_config_state nl env cfg ct = Inr st"
  shows "vetted nl env st \<and> cs_constraints st = ct"
  using assms(2) brokered_config_limits [OF assms(1)]
  by (auto simp: build_config_state_def vetted_def Let_def split: prod.splits if_splits)

lemma take_over_ok: "vetted nl env new_state \<Longrightarrow> length (cs_blocked st) \<le> MAX_BLOCKED_EVENTS \<Longrightarrow> state_ok nl env (take_over new_state st)"
  by (simp add: take_over_def state_ok_def)

lemma reload_ok: "offer_ok nl env offered \<Longrightarrow> state_ok nl env st \<Longrightarrow> reload_if_needed offered st = Inr st' \<Longrightarrow> state_ok nl env st'"
  by (auto simp: reload_if_needed_def offer_ok_def state_ok_def take_over_def split: option.splits sum.splits)

lemma updated_state_ok:
  assumes "state_ok nl env st" and "updated_state nl env host target st = Inr (Some st')"
  shows "state_ok nl env st'"
  using assms build_config_state_vetted
  by (auto simp: updated_state_def Let_def limits_ok_def state_ok_def [of _ _ st] intro!: take_over_ok split: if_splits)

lemma mode_ok:
  assumes "state_ok nl env st" and "limits_ok nl env ((cs_config st)\<lparr>nc_mode := mode\<rparr>) (cs_constraints st)"
  shows "state_ok nl env (st\<lparr>cs_config := (cs_config st)\<lparr>nc_mode := mode\<rparr>\<rparr>)"
  using assms by (simp add: state_ok_def vetted_def denied_domains_def allowed_domains_def domain_entries_def)

text \<open>What can happen to the state of a running proxy, one operation after the other, with a source of settings that
  offers only states within their limits. The operations do not check what they are offered; that the program offers
  nothing else is shown where its states are built.\<close>

inductive net_step :: "net_lib \<Rightarrow> net_env \<Rightarrow> config_state \<Rightarrow> config_state \<Rightarrow> bool" for nl env where
  Step_reload: "offer_ok nl env offered \<Longrightarrow> reload_if_needed offered st = Inr st' \<Longrightarrow> net_step nl env st st'"
| Step_record: "offer_ok nl env offered \<Longrightarrow> record_blocked exec_id offered entry st = Inr st' \<Longrightarrow> net_step nl env st st'"
| Step_drain: "offer_ok nl env offered \<Longrightarrow> drain_blocked offered st = Inr (out, st') \<Longrightarrow> net_step nl env st st'"
| Step_update: "offer_ok nl env offered \<Longrightarrow> update_domain_list nl env offered raw target st = Inr st' \<Longrightarrow> net_step nl env st st'"
| Step_mode: "offer_ok nl env offered \<Longrightarrow> set_network_mode nl env offered mode st = Inr st' \<Longrightarrow> net_step nl env st st'"
| Step_replace: "offer_ok nl env offered \<Longrightarrow> vetted nl env new_state \<Longrightarrow> replace_config_state offered new_state st = Inr st' \<Longrightarrow> net_step nl env st st'"
| Step_force: "vetted nl env new_state \<Longrightarrow> force_reload (Inr new_state) st = (Inr (), st') \<Longrightarrow> net_step nl env st st'"

lemma net_step_ok: "net_step nl env st st' \<Longrightarrow> state_ok nl env st \<Longrightarrow> state_ok nl env st'"
proof (induction rule: net_step.induct)
  case (Step_reload offered st st')
  then show ?case using reload_ok by blast
next
  case (Step_record offered exec_id entry st st')
  then show ?case using reload_ok [of nl env offered st]
    by (auto simp: record_blocked_def log_blocked_def state_ok_def evict_bounded)
next
  case (Step_drain offered st out st')
  then show ?case using reload_ok [of nl env offered st] by (auto simp: drain_blocked_def state_ok_def)
next
  case (Step_update offered raw target st st')
  then obtain host st1 where r: "reload_if_needed offered st = Inr st1"
    and u: "st' = st1 \<or> updated_state nl env host target st1 = Inr (Some st')"
    by (auto simp: update_domain_list_def split: option.splits)
  have "state_ok nl env st1" using reload_ok [OF Step_update(1,3) r] .
  then show ?case using u updated_state_ok by blast
next
  case (Step_mode offered mode st st')
  then obtain st1 where r: "reload_if_needed offered st = Inr st1"
    and m: "limits_ok nl env ((cs_config st1)\<lparr>nc_mode := mode\<rparr>) (cs_constraints st1)"
    and st': "st' = st1\<lparr>cs_config := (cs_config st1)\<lparr>nc_mode := mode\<rparr>\<rparr>"
    by (auto simp: set_network_mode_def limits_ok_def Let_def)
  show ?case unfolding st' by (rule mode_ok [OF reload_ok [OF Step_mode(1,3) r] m])
next
  case (Step_replace offered new_state st st')
  then show ?case using reload_ok [of nl env offered st]
    by (auto simp: replace_config_state_def intro!: take_over_ok) (simp add: state_ok_def)
next
  case (Step_force new_state st st')
  then show ?case by (auto simp: force_reload_def state_ok_def)
qed

lemma reachable_ok: "(net_step nl env)\<^sup>*\<^sup>* st st' \<Longrightarrow> state_ok nl env st \<Longrightarrow> state_ok nl env st'"
  by (induction rule: rtranclp_induct) (auto dest: net_step_ok)

subsection \<open>Managed denials\<close>

lemma managed_denial_matches:
  assumes "vetted nl env st" and "ct_denied_domains (cs_constraints st) = Some managed" and "d \<in> set managed"
    and "g \<in> set (expand_domain_pattern (normalize_pattern d))" and "nl_match nl g host"
  shows "globset_matches_host_or_unscoped nl (cs_deny_set st) host"
proof -
  have "denylist_ok (ct_denylist_expansion_enabled (cs_constraints st)) managed (entries_or_empty (denied_domains (cs_config st)))"
    using assms(1,2) by (simp add: vetted_def limits_ok_iff)
  then have "to_ascii_lowercase d \<in> lower_set (entries_or_empty (denied_domains (cs_config st)))"
    using assms(3) by (auto simp: denylist_ok_def lower_set_def split: if_splits)
  then obtain d' where d': "d' \<in> set (entries_or_empty (denied_domains (cs_config st)))" "to_ascii_lowercase d' = to_ascii_lowercase d"
    by (auto simp: lower_set_def)
  have "g \<in> set (cs_deny_set st)"
    using assms(1,4) d' normalize_pattern_case_insensitive [OF d'(2)]
    by (auto simp: vetted_def dest!: compile_globset_set intro!: bexI [of _ d'])
  then show ?thesis using assms(5) by (auto simp: globset_matches_host_or_unscoped_def set_is_match_def list_ex_iff)
qed

lemma denied_host_blocked:
  "parse_host raw = Some host \<Longrightarrow> globset_matches_host_or_unscoped nl (cs_deny_set st) host \<Longrightarrow> blocks_host nl lookup st raw port = Blocked Denied"
  by (simp add: blocks_host_def Let_def)

subsection \<open>Local addresses\<close>

lemma trim_plain:
  assumes "\<forall>b \<in> set s. is_ascii b \<and> \<not> is_whitespace [b]"
  shows "trim s = s"
proof -
  have "dropWhile is_whitespace (map (\<lambda>b. [b]) t) = map (\<lambda>b. [b]) t" if "set t \<subseteq> set s" for t
    using that assms by (cases t) auto
  then show ?thesis using assms by (simp add: trim_def utf8_chars_ascii rev_map comp_def)
qed

lemma trim_end_dots_lower: "trim_end_dots (map ascii_lower s) = map ascii_lower (trim_end_dots s)"
  by (simp add: trim_end_dots_def rev_map dropWhile_map comp_def ascii_lower_caseless [OF caseless_marks(5)])

lemma trim_end_dots_append: "\<exists>k. s = trim_end_dots s @ replicate k (CHR ''.'')"
proof -
  have "takeWhile (\<lambda>c. c = CHR ''.'') xs = replicate (length (takeWhile (\<lambda>c. c = CHR ''.'') xs)) (CHR ''.'')" for xs
    by (induction xs) auto
  then show ?thesis
    by (metis takeWhile_dropWhile_id rev_append rev_rev_ident rev_replicate trim_end_dots_def)
qed

lemma trim_end_dots_replicate: "trim_end_dots (s @ replicate k (CHR ''.'')) = trim_end_dots s"
  by (simp only: trim_end_dots_def rev_append rev_replicate) (subst dropWhile_append2, auto)

lemma normalize_dns_dots:
  "map ascii_lower s = s \<Longrightarrow> normalize_dns_host_or_ip_literal (s @ replicate k (CHR ''.'')) = normalize_dns_host_or_ip_literal s"
  by (simp add: normalize_dns_host_or_ip_literal_def to_ascii_lowercase_def ascii_lower_def [of "CHR ''.''"] trim_end_dots_replicate)

lemma parse_ip_localhost: "parse_ip ''localhost'' = None"
  by (simp add: ip_eval read_groups.simps [of _ 0])

lemma normalize_localhost: "normalize_host (''localhost'' @ replicate k (CHR ''.'')) = ''localhost''"
proof -
  let ?s = "''localhost'' @ replicate k (CHR ''.'')"
  have t: "trim ?s = ?s" by (rule trim_plain) (auto simp: is_ascii_def is_whitespace_def white_space_def)
  have d: "normalize_dns_host_or_ip_literal ?s = normalize_dns_host_or_ip_literal ''localhost''"
    by (rule normalize_dns_dots) (simp add: ascii_lower_def)
  have "to_ascii_lowercase ''localhost'' = ''localhost''" by (simp add: to_ascii_lowercase_def ascii_lower_def)
  moreover have "trim_end_dots ''localhost'' = ''localhost''" by (simp add: trim_end_dots_def)
  moreover have "normalize_ip_literal ''localhost'' = None"
    by (simp add: normalize_ip_literal_def parse_ip_localhost split_once_str_def starts_with_def)
  ultimately have "normalize_dns_host_or_ip_literal ''localhost'' = ''localhost''"
    by (simp only: normalize_dns_host_or_ip_literal_def Let_def option.case)
  moreover have "normalize_host ?s = normalize_dns_host_or_ip_literal ?s"
    unfolding normalize_host_def t Let_def by (simp add: starts_with_def count_list_append)
  ultimately show ?thesis using d by simp
qed

lemma named_localhost_host: "named_localhost name \<Longrightarrow> parse_host name = Some ''localhost''"
proof -
  assume "named_localhost name"
  then have "trim_end_dots (map ascii_lower name) = ''localhost''"
    by (simp add: named_localhost_def to_ascii_lowercase_def trim_end_dots_lower)
  then obtain k where "map ascii_lower name = ''localhost'' @ replicate k (CHR ''.'')"
    using trim_end_dots_append [of "map ascii_lower name"] by auto
  then have "normalize_host name = ''localhost''"
    using normalize_localhost [of k] normalize_host_lower [of name] by (simp add: to_ascii_lowercase_def)
  then show ?thesis by (simp add: parse_host_def)
qed

lemma localhost_is_local: "local_literal ''localhost''"
  by code_simp

text \<open>How a target is written: a name as it is, an address so that it reads back.\<close>

definition written_plainly :: "(target_host \<Rightarrow> string) \<Rightarrow> target_host \<Rightarrow> bool" where
  "written_plainly show_host target =
     (case target of
        HostName name \<Rightarrow> show_host target = name
      | HostAddress ip \<Rightarrow>
          (case parse_host (show_host target) of
             Some s \<Rightarrow> unscoped_ip_literal s = None \<and> parse_ip s = Some ip
           | None \<Rightarrow> False))"

lemma matching_target_is_local:
  assumes "written_plainly show_host target" and "is_non_public_ip addr" and "target_matches_non_public_addr target addr"
  shows "\<exists>host. parse_host (show_host target) = Some host \<and> local_literal host"
proof (cases target)
  case (HostName name)
  then have "show_host target = name" "named_localhost name" using assms by (simp_all add: written_plainly_def)
  then show ?thesis using named_localhost_host [of name] localhost_is_local by metis
next
  case (HostAddress ip)
  then obtain s where s: "parse_host (show_host target) = Some s" "unscoped_ip_literal s = None" "parse_ip s = Some ip"
    using assms(1) unfolding written_plainly_def by (cases "parse_host (show_host target)") simp_all
  have "ip = addr" using assms(3) HostAddress by simp
  then have "local_literal s" using assms(2) by (simp only: local_literal_def s option.case if_True simp_thms split: if_split)
  then show ?thesis using s(1) by blast
qed

lemma allowed_local_is_explicit:
  assumes "blocks_host nl lookup st raw port = Allowed" and "parse_host raw = Some host" and "local_literal host"
    and "\<not> nc_allow_local_binding (cs_config st)"
  shows "is_explicit_local_allowlisted (entries_or_empty (allowed_domains (cs_config st))) host
    \<and> \<not> globset_matches_host_or_unscoped nl (cs_deny_set st) host
    \<and> globset_matches_host_or_unscoped nl (cs_allow_set st) host"
  using assms by (auto simp: blocks_host_def Let_def split: if_splits)

subsection \<open>Sockets under the policy of an environment\<close>

lemma socket_allowed_apply:
  assumes "tree_ok (entries_or_empty (nc_unix_sockets cfg))" and "tree_ok (entries_or_empty (ep_unix_sockets pol))"
    and "socket_allowed env (apply_to pol cfg) p"
  shows "socket_allowed env cfg p \<and> socket_allowed env
    (cfg\<lparr>nc_unix_sockets := ep_unix_sockets pol, nc_allow_all_unix_sockets := ep_allow_all_unix_sockets pol\<rparr>) p"
proof (cases "nc_allow_all_unix_sockets (apply_to pol cfg)")
  case True
  then show ?thesis by (simp add: apply_to_sockets(2) permits_all_def socket_allowed_def)
next
  case False
  then obtain requested a where r: "from_absolute_path (ne_home env) (ne_cwd env) p = Some requested"
    "a \<in> set (allow_unix_sockets (apply_to pol cfg))" "socket_entry_allows env requested a"
    using assms(3) by (auto simp: socket_allowed_def list_ex_iff split: option.splits)
  have o: "a \<in> set (allow_unix_sockets (cfg\<lparr>nc_unix_sockets := ep_unix_sockets pol, nc_allow_all_unix_sockets := x\<rparr>))"
    if "(a, SocketAllow) \<in> set (entries_or_empty (ep_unix_sockets pol))" for x
    using that by (force simp: allow_unix_sockets_def)
  show ?thesis
    using apply_to_entry [OF assms(1,2) r(2)] r(1,3) o by (auto simp: socket_allowed_def list_ex_iff)
qed

subsection \<open>Updates that race with the log\<close>

text \<open>\<open>update_domain_list\<close> compares settings and limits with its snapshot, but not the log: what is blocked in
  between is forgotten.\<close>

lemma update_forgets_concurrent_blocks:
  assumes "updated_state nl env host target st = Inr (Some new_state)"
  shows "update_round nl env host target st (log_blocked exec_id entry st) = Inr (Some new_state)
    \<and> cs_blocked new_state = cs_blocked st \<and> cs_blocked_total new_state = cs_blocked_total st"
proof -
  have "cs_constraints (log_blocked exec_id entry st) = cs_constraints st" "cs_config (log_blocked exec_id entry st) = cs_config st"
    by (simp_all add: log_blocked_def)
  moreover have "cs_blocked new_state = cs_blocked st \<and> cs_blocked_total new_state = cs_blocked_total st"
    using assms by (auto simp: updated_state_def Let_def take_over_def split: if_splits)
  ultimately show ?thesis using assms by (simp add: update_round_def)
qed

text \<open>A forced reload keeps the log and starts its count again.\<close>

lemma force_reload_resets_total:
  "force_reload (Inr new_state) st = (Inr (), st') \<Longrightarrow>
     cs_blocked st' = cs_blocked st \<and> cs_blocked_total st' = cs_blocked_total new_state"
  by (auto simp: force_reload_def)

end
