(* ===== verification/Net_Spec.thy ===== *)
theory Net_Spec
  imports Net_Runtime Permissions Exec_Policy
begin

text \<open>
  Where the states of a managed proxy come from (\<open>core/src/config/network_proxy_spec.rs\<close>): the settings joined with
  the requirements of an administrator (\<open>NetworkConstraints\<close> of \<open>config/src/config_requirements.rs\<close>), combined with the
  policy of an environment and the saved network rules, validated and built; the source of reloads of such a proxy,
  which never offers another state; and the replacement of the state of a running proxy
  (\<open>replace_config_state\<close> of \<open>network-proxy/src/proxy.rs\<close>). Then every state such a proxy can be in is within its
  limits. Starting the listeners, observers and audit metadata are left out.
\<close>

subsection \<open>Requirements\<close>

datatype toml_permission = TomlAllow | TomlDeny

text \<open>The tree maps of domains and sockets are the lists of their pairs in the order of the keys.\<close>

record network_constraints =
  nq_enabled :: "bool option"
  nq_http_port :: "u16 option"
  nq_socks_port :: "u16 option"
  nq_allow_upstream_proxy :: "bool option"
  nq_allow_non_loopback_proxy :: "bool option"
  nq_allow_all_unix_sockets :: "bool option"
  nq_domains :: "(string \<times> toml_permission) list option"
  nq_managed_allowed_domains_only :: "bool option"
  nq_unix_sockets :: "socket_map option"
  nq_allow_local_binding :: "bool option"

definition toml_allowed_domains :: "(string \<times> toml_permission) list \<Rightarrow> string list option" where
  "toml_allowed_domains entries = non_empty (map fst (filter (\<lambda>(_, permission). permission = TomlAllow) entries))"

definition toml_denied_domains :: "(string \<times> toml_permission) list \<Rightarrow> string list option" where
  "toml_denied_domains entries = non_empty (map fst (filter (\<lambda>(_, permission). permission = TomlDeny) entries))"

definition toml_allow_unix_sockets :: "socket_map \<Rightarrow> string list" where
  "toml_allow_unix_sockets entries = map fst (filter (\<lambda>(_, permission). permission = SocketAllow) entries)"

record proxy_spec =
  sp_base_config :: net_config
  sp_requirements :: "network_constraints option"
  sp_config :: net_config
  sp_constraints :: constraints
  sp_hard_deny_allowlist_misses :: bool

datatype spec_error =
    ConstraintsInvalid net_error
  | NeedsEnforcement
  | ControllerDisabled
  | ViolatesRequirements net_error
  | BuildFailed net_error
  | CannotUpdate string
  | TrustBundleFailed string
  | UpdateFailed net_error

subsection \<open>From settings and requirements\<close>

definition managed_sandbox_active :: "permission_profile \<Rightarrow> bool" where
  "managed_sandbox_active profile = is_managed profile"

definition managed_allowed_domains_only :: "network_constraints \<Rightarrow> bool" where
  "managed_allowed_domains_only reqs = (case nq_managed_allowed_domains_only reqs of Some b \<Rightarrow> b | None \<Rightarrow> False)"

definition allowlist_expansion_enabled :: "permission_profile \<Rightarrow> bool \<Rightarrow> bool" where
  "allowlist_expansion_enabled profile hard_deny \<longleftrightarrow> managed_sandbox_active profile \<and> \<not> hard_deny"

definition denylist_expansion_enabled :: "permission_profile \<Rightarrow> bool" where
  "denylist_expansion_enabled profile = managed_sandbox_active profile"

definition merge_domain_lists :: "string list \<Rightarrow> string list \<Rightarrow> string list" where
  "merge_domain_lists managed user_entries =
     fold (\<lambda>entry managed.
       if list_ex (\<lambda>managed_entry. to_ascii_lowercase managed_entry = to_ascii_lowercase entry) managed then managed
       else managed @ [entry]) user_entries managed"

text \<open>The steps of \<open>apply_requirements\<close>, each on the settings and the limits so far.\<close>

definition require_switches :: "network_constraints \<Rightarrow> net_config \<times> constraints \<Rightarrow> net_config \<times> constraints" where
  "require_switches reqs cc =
     (let (cfg, ct) = cc;
          (cfg, ct) = (case nq_enabled reqs of Some b \<Rightarrow> (cfg\<lparr>nc_enabled := b\<rparr>, ct\<lparr>ct_enabled := Some b\<rparr>) | None \<Rightarrow> (cfg, ct));
          cfg = (case nq_http_port reqs of
                   Some port \<Rightarrow> cfg\<lparr>nc_proxy_url := ''http://127.0.0.1:'' @ nat_to_string (unat port)\<rparr> | None \<Rightarrow> cfg);
          cfg = (case nq_socks_port reqs of
                   Some port \<Rightarrow> cfg\<lparr>nc_socks_url := ''http://127.0.0.1:'' @ nat_to_string (unat port)\<rparr> | None \<Rightarrow> cfg);
          (cfg, ct) = (case nq_allow_upstream_proxy reqs of
                         Some b \<Rightarrow> (cfg\<lparr>nc_allow_upstream_proxy := b\<rparr>, ct\<lparr>ct_allow_upstream_proxy := Some b\<rparr>) | None \<Rightarrow> (cfg, ct));
          (cfg, ct) = (case nq_allow_non_loopback_proxy reqs of
                         Some b \<Rightarrow> (cfg\<lparr>nc_allow_non_loopback_proxy := b\<rparr>, ct\<lparr>ct_allow_non_loopback_proxy := Some b\<rparr>)
                       | None \<Rightarrow> (cfg, ct))
      in case nq_allow_all_unix_sockets reqs of
           Some b \<Rightarrow> (cfg\<lparr>nc_allow_all_unix_sockets := b\<rparr>, ct\<lparr>ct_allow_all_unix_sockets := Some b\<rparr>)
         | None \<Rightarrow> (cfg, ct))"

definition require_allowed ::
  "network_constraints \<Rightarrow> permission_profile \<Rightarrow> bool \<Rightarrow> net_config \<times> constraints \<Rightarrow> net_config \<times> constraints" where
  "require_allowed reqs profile hard_deny cc =
     (let (cfg, ct) = cc;
          expansion = allowlist_expansion_enabled profile hard_deny;
          listed = Option.bind (nq_domains reqs) toml_allowed_domains;
          managed = (if hard_deny then Some (entries_or_empty listed) else listed)
      in case managed of
           None \<Rightarrow> (cfg, ct)
         | Some managed \<Rightarrow>
             (set_allowed_domains
                (if expansion then merge_domain_lists managed (entries_or_empty (allowed_domains cfg)) else managed) cfg,
              ct\<lparr>ct_allowed_domains := Some managed, ct_allowlist_expansion_enabled := Some expansion\<rparr>))"

definition require_denied ::
  "network_constraints \<Rightarrow> permission_profile \<Rightarrow> net_config \<times> constraints \<Rightarrow> net_config \<times> constraints" where
  "require_denied reqs profile cc =
     (let (cfg, ct) = cc;
          expansion = denylist_expansion_enabled profile
      in case Option.bind (nq_domains reqs) toml_denied_domains of
           None \<Rightarrow> (cfg, ct)
         | Some managed \<Rightarrow>
             (set_denied_domains
                (if expansion then merge_domain_lists managed (entries_or_empty (denied_domains cfg)) else managed) cfg,
              ct\<lparr>ct_denied_domains := Some managed, ct_denylist_expansion_enabled := Some expansion\<rparr>))"

definition require_local :: "network_constraints \<Rightarrow> net_config \<times> constraints \<Rightarrow> net_config \<times> constraints" where
  "require_local reqs cc =
     (let (cfg, ct) = cc;
          (cfg, ct) =
            (case nq_unix_sockets reqs of
               None \<Rightarrow> (cfg, ct)
             | Some sockets \<Rightarrow>
                 (set_allow_unix_sockets (toml_allow_unix_sockets sockets) cfg,
                  ct\<lparr>ct_allow_unix_sockets := Some (toml_allow_unix_sockets sockets)\<rparr>))
      in case nq_allow_local_binding reqs of
           Some b \<Rightarrow> (cfg\<lparr>nc_allow_local_binding := b\<rparr>, ct\<lparr>ct_allow_local_binding := Some b\<rparr>)
         | None \<Rightarrow> (cfg, ct))"

definition apply_requirements ::
  "net_config \<Rightarrow> network_constraints \<Rightarrow> permission_profile \<Rightarrow> bool \<Rightarrow> net_config \<times> constraints" where
  "apply_requirements cfg reqs profile hard_deny =
     require_local reqs (require_denied reqs profile (require_allowed reqs profile hard_deny
       (require_switches reqs (cfg, constraints_default))))"

definition from_config_and_constraints ::
  "net_lib \<Rightarrow> net_env \<Rightarrow> net_config \<Rightarrow> network_constraints option \<Rightarrow> permission_profile \<Rightarrow> spec_error + proxy_spec" where
  "from_config_and_constraints nl env base_config reqs profile =
     (let hard_deny = (case reqs of Some r \<Rightarrow> managed_allowed_domains_only r | None \<Rightarrow> False);
          (cfg, ct) = (case reqs of
                         Some r \<Rightarrow> apply_requirements base_config r profile hard_deny
                       | None \<Rightarrow> (base_config, constraints_default))
      in result_bind (map_err ConstraintsInvalid (validate_policy_against_constraints nl env cfg ct)) (\<lambda>_.
         Inr \<lparr>sp_base_config = base_config, sp_requirements = reqs, sp_config = cfg, sp_constraints = ct,
              sp_hard_deny_allowlist_misses = hard_deny\<rparr>))"

definition recompute_for_permission_profile ::
  "net_lib \<Rightarrow> net_env \<Rightarrow> permission_profile \<Rightarrow> proxy_spec \<Rightarrow> spec_error + proxy_spec" where
  "recompute_for_permission_profile nl env profile spec =
     from_config_and_constraints nl env (sp_base_config spec) (sp_requirements spec) profile"

definition spec_environment_policy :: "proxy_spec \<Rightarrow> env_policy" where
  "spec_environment_policy spec = env_policy_from_config (sp_config spec) (sp_hard_deny_allowlist_misses spec)"

subsection \<open>Saved network rules and environments\<close>

definition upsert_network_domains :: "net_config \<Rightarrow> string list \<Rightarrow> bool \<Rightarrow> net_config" where
  "upsert_network_domains cfg hosts allow =
     snd (fold (\<lambda>host (incoming, cfg).
       if host \<in> set incoming then (incoming, cfg)
       else (host # incoming, upsert_domain_permission host (if allow then PermAllow else PermDeny) normalize_host cfg))
       hosts ([], cfg))"

definition apply_exec_policy_network_rules :: "net_config \<Rightarrow> policy \<Rightarrow> net_config" where
  "apply_exec_policy_network_rules cfg exec_policy =
     (let (allowed, denied) = compiled_network_domains exec_policy
      in upsert_network_domains (upsert_network_domains cfg allowed True) denied False)"

definition with_exec_policy_network_rules ::
  "net_lib \<Rightarrow> net_env \<Rightarrow> policy \<Rightarrow> proxy_spec \<Rightarrow> spec_error + proxy_spec" where
  "with_exec_policy_network_rules nl env exec_policy spec =
     (let spec = spec\<lparr>sp_config := apply_exec_policy_network_rules (sp_config spec) exec_policy\<rparr>
      in result_bind (map_err ConstraintsInvalid
           (validate_policy_against_constraints nl env (sp_config spec) (sp_constraints spec))) (\<lambda>_. Inr spec))"

definition limit_environment :: "env_policy \<Rightarrow> permission_profile \<Rightarrow> policy \<Rightarrow> proxy_spec \<Rightarrow> proxy_spec" where
  "limit_environment pol profile exec_policy spec =
     (let cfg = apply_to pol (sp_config spec);
          ct = sp_constraints spec;
          protected_denials = entries_or_empty (denied_domains cfg);
          fixed_allowlist = (sp_hard_deny_allowlist_misses spec \<or> ct_allowlist_expansion_enabled ct = Some False);
          hard_deny = (sp_hard_deny_allowlist_misses spec \<or> ep_managed_allowed_domains_only pol
            \<or> \<not> managed_sandbox_active profile);
          allow_owner_grants = (\<not> hard_deny \<and> \<not> fixed_allowlist);
          ct = (if fixed_allowlist then ct\<lparr>ct_allowlist_expansion_enabled := None\<rparr>
                else ct\<lparr>ct_allowed_domains := Some (entries_or_empty (allowed_domains cfg)),
                        ct_allowlist_expansion_enabled := Some allow_owner_grants\<rparr>);
          ct = ct\<lparr>ct_denylist_expansion_enabled := Some True\<rparr>;
          (allowed, denied) = compiled_network_domains exec_policy;
          cfg = (if allow_owner_grants then upsert_network_domains cfg allowed True else cfg);
          cfg = upsert_network_domains cfg denied False;
          cfg = upsert_network_domains cfg protected_denials False
      in spec\<lparr>sp_config := cfg, sp_constraints := ct\<lparr>ct_denied_domains := denied_domains cfg\<rparr>,
              sp_hard_deny_allowlist_misses := hard_deny\<rparr>)"

definition for_environment ::
  "net_lib \<Rightarrow> net_env \<Rightarrow> proxy_spec option \<Rightarrow> env_policy \<Rightarrow> permission_profile \<Rightarrow> policy \<Rightarrow> spec_error + proxy_spec" where
  "for_environment nl env controller pol profile exec_policy =
     (if profile = DisabledProfile then Inl NeedsEnforcement
      else if (case controller of Some c \<Rightarrow> \<not> nc_enabled (sp_config c) | None \<Rightarrow> False) then Inl ControllerDisabled
      else
        result_bind
          (case controller of
             Some c \<Rightarrow> recompute_for_permission_profile nl env profile c
           | None \<Rightarrow> from_config_and_constraints nl env
               (net_config_default\<lparr>nc_enabled := True, nc_allow_all_unix_sockets := True, nc_allow_local_binding := True\<rparr>)
               None profile) (\<lambda>spec.
        let spec = limit_environment pol profile exec_policy spec
        in result_bind (map_err ViolatesRequirements
             (validate_policy_against_constraints nl env (sp_config spec) (sp_constraints spec))) (\<lambda>_. Inr spec)))"

subsection \<open>The state of a proxy\<close>

definition build_config_state_for_spec :: "net_lib \<Rightarrow> net_env \<Rightarrow> proxy_spec \<Rightarrow> spec_error + config_state" where
  "build_config_state_for_spec nl env spec =
     map_err BuildFailed (build_config_state nl env (sp_config spec) (sp_constraints spec))"

text \<open>The source of reloads of a managed proxy keeps the state it was started with: nothing new to reload, and that
  state when a reload is forced.\<close>

definition static_maybe_reload :: "config_state \<Rightarrow> reload" where
  "static_maybe_reload initial = Inr None"

definition static_reload_now :: "config_state \<Rightarrow> net_error + config_state" where
  "static_reload_now initial = Inr initial"

text \<open>Replacing the state of a running proxy: what its listeners depend on must stay. \<open>bundle\<close> is the outcome of
  preparing the trust bundle for interception.\<close>

definition proxy_replace_config_state ::
  "string + unit \<Rightarrow> reload \<Rightarrow> reload \<Rightarrow> config_state \<Rightarrow> config_state \<Rightarrow> spec_error + config_state" where
  "proxy_replace_config_state bundle offered1 offered2 new_state st =
     result_bind (map_err UpdateFailed (reload_if_needed offered1 st)) (\<lambda>st.
       let cur = cs_config st; new = cs_config new_state
       in if nc_enabled new \<noteq> nc_enabled cur then Inl (CannotUpdate ''network.enabled'')
          else if nc_proxy_url new \<noteq> nc_proxy_url cur then Inl (CannotUpdate ''network.proxy_url'')
          else if nc_socks_url new \<noteq> nc_socks_url cur then Inl (CannotUpdate ''network.socks_url'')
          else if nc_enable_socks5 new \<noteq> nc_enable_socks5 cur then Inl (CannotUpdate ''network.enable_socks5'')
          else if nc_enable_socks5_udp new \<noteq> nc_enable_socks5_udp cur then Inl (CannotUpdate ''network.enable_socks5_udp'')
          else
            (case (if nc_mitm new then bundle else Inr ()) of
               Inl err \<Rightarrow> Inl (TrustBundleFailed err)
             | Inr _ \<Rightarrow> map_err UpdateFailed (replace_config_state offered2 new_state st)))"

definition apply_to_started_proxy ::
  "net_lib \<Rightarrow> net_env \<Rightarrow> string + unit \<Rightarrow> reload \<Rightarrow> reload \<Rightarrow> proxy_spec \<Rightarrow> config_state \<Rightarrow> spec_error + config_state" where
  "apply_to_started_proxy nl env bundle offered1 offered2 spec st =
     result_bind (build_config_state_for_spec nl env spec) (\<lambda>new_state.
       proxy_replace_config_state bundle offered1 offered2 new_state st)"

subsection \<open>Every spec is validated\<close>

text \<open>The specs the program makes.\<close>

inductive made_spec :: "net_lib \<Rightarrow> net_env \<Rightarrow> proxy_spec \<Rightarrow> bool" for nl env where
  From: "from_config_and_constraints nl env cfg reqs profile = Inr spec \<Longrightarrow> made_spec nl env spec"
| Recompute: "made_spec nl env spec \<Longrightarrow> recompute_for_permission_profile nl env profile spec = Inr spec' \<Longrightarrow> made_spec nl env spec'"
| Rules: "made_spec nl env spec \<Longrightarrow> with_exec_policy_network_rules nl env exec_policy spec = Inr spec' \<Longrightarrow> made_spec nl env spec'"
| Environment: "pred_option (made_spec nl env) controller \<Longrightarrow>
    for_environment nl env controller pol profile exec_policy = Inr spec \<Longrightarrow> made_spec nl env spec"
monos option.pred_mono

lemma from_config_limits:
  "from_config_and_constraints nl env cfg reqs profile = Inr spec \<Longrightarrow> limits_ok nl env (sp_config spec) (sp_constraints spec)"
  by (auto simp: from_config_and_constraints_def Let_def split_beta limits_ok_def)

lemma made_spec_limits: "made_spec nl env spec \<Longrightarrow> limits_ok nl env (sp_config spec) (sp_constraints spec)"
proof (induction rule: made_spec.induct)
  case (From cfg reqs profile spec)
  then show ?case by (rule from_config_limits)
next
  case (Recompute spec profile spec')
  then show ?case by (auto simp: recompute_for_permission_profile_def intro: from_config_limits)
next
  case (Rules spec exec_policy spec')
  then show ?case by (auto simp: with_exec_policy_network_rules_def Let_def limits_ok_def)
next
  case (Environment controller pol profile exec_policy spec)
  then show ?case by (auto simp: for_environment_def Let_def limits_ok_def split: if_splits)
qed

lemma built_spec_vetted:
  assumes "made_spec nl env spec" and "build_config_state_for_spec nl env spec = Inr st"
  shows "vetted nl env st \<and> cs_constraints st = sp_constraints spec"
  using build_config_state_vetted [OF made_spec_limits [OF assms(1)]] assms(2)
  by (simp add: build_config_state_for_spec_def map_err_eq_Inr)

text \<open>The limits of a spec carry the denials of its requirements.\<close>

lemma apply_requirements_denied:
  assumes "Option.bind (nq_domains reqs) toml_denied_domains = Some managed"
  shows "ct_denied_domains (snd (apply_requirements cfg reqs profile hard_deny)) = Some managed"
  using assms
  by (simp add: apply_requirements_def require_local_def require_denied_def Let_def split_beta split: option.splits)

lemma from_config_denied:
  assumes "from_config_and_constraints nl env cfg (Some reqs) profile = Inr spec"
    and "Option.bind (nq_domains reqs) toml_denied_domains = Some managed"
  shows "ct_denied_domains (sp_constraints spec) = Some managed"
  using assms apply_requirements_denied [OF assms(2), of cfg profile "managed_allowed_domains_only reqs"]
  by (auto simp: from_config_and_constraints_def Let_def split_beta)

subsection \<open>A managed proxy\<close>

text \<open>\<open>managed_proxy nl env initial st\<close>: a proxy that was started in the state \<open>initial\<close>, built from a spec, can be in the
  state \<open>st\<close>, after any operations on it.\<close>

inductive managed_proxy :: "net_lib \<Rightarrow> net_env \<Rightarrow> config_state \<Rightarrow> config_state \<Rightarrow> bool" for nl env where
  Start: "made_spec nl env spec \<Longrightarrow> build_config_state_for_spec nl env spec = Inr st \<Longrightarrow> managed_proxy nl env st st"
| Reload: "managed_proxy nl env initial st \<Longrightarrow> reload_if_needed (static_maybe_reload initial) st = Inr st' \<Longrightarrow>
    managed_proxy nl env initial st'"
| Record: "managed_proxy nl env initial st \<Longrightarrow> record_blocked exec_id (static_maybe_reload initial) entry st = Inr st' \<Longrightarrow>
    managed_proxy nl env initial st'"
| Drain: "managed_proxy nl env initial st \<Longrightarrow> drain_blocked (static_maybe_reload initial) st = Inr (out, st') \<Longrightarrow>
    managed_proxy nl env initial st'"
| Update: "managed_proxy nl env initial st \<Longrightarrow>
    update_domain_list nl env (static_maybe_reload initial) raw target st = Inr st' \<Longrightarrow> managed_proxy nl env initial st'"
| Mode: "managed_proxy nl env initial st \<Longrightarrow>
    set_network_mode nl env (static_maybe_reload initial) mode st = Inr st' \<Longrightarrow> managed_proxy nl env initial st'"
| Replace: "managed_proxy nl env initial st \<Longrightarrow> made_spec nl env spec \<Longrightarrow>
    apply_to_started_proxy nl env bundle (static_maybe_reload initial) (static_maybe_reload initial) spec st = Inr st' \<Longrightarrow>
    managed_proxy nl env initial st'"
| Force: "managed_proxy nl env initial st \<Longrightarrow> force_reload (static_reload_now initial) st = (r, st') \<Longrightarrow>
    managed_proxy nl env initial st'"

lemma static_offer_ok [simp]: "offer_ok nl env (static_maybe_reload initial)"
  by (simp add: offer_ok_def static_maybe_reload_def)

lemma built_log: "build_config_state nl env cfg ct = Inr st \<Longrightarrow> cs_blocked st = []"
  by (auto simp: build_config_state_def Let_def split: prod.splits if_splits)

lemma apply_to_started_proxy_step:
  assumes "made_spec nl env spec"
    and "apply_to_started_proxy nl env bundle (static_maybe_reload initial) (static_maybe_reload initial) spec st = Inr st'"
  shows "net_step nl env st st'"
proof -
  obtain new_state where new: "build_config_state_for_spec nl env spec = Inr new_state"
    and r: "replace_config_state (static_maybe_reload initial) new_state st = Inr st'"
    using assms(2)
    by (auto simp: apply_to_started_proxy_def proxy_replace_config_state_def Let_def reload_if_needed_def
        static_maybe_reload_def map_err_eq_Inr split: if_splits sum.splits)
  show ?thesis using Step_replace [OF static_offer_ok _ r] built_spec_vetted [OF assms(1) new] by blast
qed

lemma managed_proxy_ok: "managed_proxy nl env initial st \<Longrightarrow> state_ok nl env st \<and> vetted nl env initial"
proof (induction rule: managed_proxy.induct)
  case (Start spec st)
  then show ?case
    using built_spec_vetted [OF Start] built_log [of nl env _ _ st]
    by (auto simp: state_ok_def build_config_state_for_spec_def map_err_eq_Inr)
next
  case (Force initial st r st')
  then have "net_step nl env st st'"
    using Step_force [of nl env initial st st'] by (simp add: static_reload_now_def force_reload_def)
  then show ?case using Force.IH net_step_ok by blast
qed (blast intro: net_step_ok Step_reload Step_record Step_drain Step_update Step_mode apply_to_started_proxy_step static_offer_ok)+

end
