(* ===== verification/Net_Samples.thy ===== *)
theory Net_Samples
  imports Net_Spec
begin

text \<open>
  A proxy to evaluate: settings, a compiled state, requests, listeners and a hook, with what the definitions make of
  them.
\<close>

definition sample_lib :: net_lib where
  "sample_lib =
     \<lparr>nl_url = (\<lambda>_. None), nl_valid = (\<lambda>_. True), nl_match = (\<lambda>g host. g = host), nl_builds = (\<lambda>_. True),
      nl_url_host = Some, nl_hook_glob = (\<lambda>_ _. False), nl_hook_match = (\<lambda>_ _ _. False), nl_header_name = Some,
      nl_header_value = (\<lambda>_. True), nl_form_pairs = (\<lambda>_. [])\<rparr>"

definition sample_env :: net_env where
  "sample_env =
     \<lparr>ne_home = None, ne_cwd = None, ne_env_var = (\<lambda>_. Some ''secret''), ne_read_file = (\<lambda>_. None),
      ne_canonicalize = (\<lambda>_. None), ne_mitm_ready = (\<lambda>_. True), ne_macos = True\<rparr>"

definition sample_config :: net_config where
  "sample_config = net_config_default\<lparr>nc_enabled := True, nc_domains :=
     Some [\<lparr>de_pattern = ''api.test'', de_permission = PermAllow\<rparr>, \<lparr>de_pattern = ''evil.test'', de_permission = PermDeny\<rparr>,
       \<lparr>de_pattern = ''127.0.0.1'', de_permission = PermAllow\<rparr>]\<rparr>"

definition sample_state :: config_state where
  "sample_state =
     \<lparr>cs_config = sample_config, cs_brokerage_created_default_allowlist = False,
      cs_allow_set = [''api.test'', ''127.0.0.1''], cs_deny_set = [''evil.test''], cs_mitm = None,
      cs_mitm_hooks = Map.empty, cs_constraints = constraints_default\<lparr>ct_denied_domains := Some [''EVIL.test'']\<rparr>,
      cs_blocked = [], cs_blocked_total = 0\<rparr>"

definition sample_request :: "string \<Rightarrow> policy_request" where
  "sample_request host =
     \<lparr>pr_protocol = ProtoHttpsConnect, pr_host = host, pr_port = 443, pr_environment_id = None, pr_client_addr = None,
      pr_method = Some ''CONNECT'', pr_command = None, pr_exec_policy_hint = None, pr_execution_id = None\<rparr>"

lemmas text_eval = trim_def is_cont_def is_whitespace_def white_space_def starts_with_def strip_prefix_def to_ascii_lowercase_def
  ascii_lower_def trim_end_dots_def

lemmas host_eval = normalize_host_def normalize_dns_host_or_ip_literal_def normalize_ip_literal_def split_once_str_def
  parse_host_def unscoped_ip_literal_def split_once_def ip_eval read_groups.simps text_eval

lemma sample_domains:
  "allowed_domains sample_config = Some [''api.test'', ''127.0.0.1'']" "denied_domains sample_config = Some [''evil.test'']"
  by (simp_all add: allowed_domains_def denied_domains_def domain_entries_def sample_config_def net_config_default_def
      effective_entries_def effective_step_def List.map_filter_simps non_empty_def)

lemma sample_hosts:
  "normalize_host ''api.test'' = ''api.test''" "normalize_host ''evil.test'' = ''evil.test''" "normalize_host ''127.0.0.1'' = ''127.0.0.1''"
  by (simp_all add: host_eval)

lemma sample_lower: "to_ascii_lowercase ''EVIL.test'' = ''evil.test''" "to_ascii_lowercase ''evil.test'' = ''evil.test''"
  by code_simp+

lemma sample_patterns:
  "normalize_pattern ''api.test'' = ''api.test''" "normalize_pattern ''evil.test'' = ''evil.test''"
  "normalize_pattern ''127.0.0.1'' = ''127.0.0.1''" "normalize_pattern ''EVIL.test'' = ''evil.test''"
  using normalize_pattern_lower [of "''EVIL.test''"]
  by (simp_all add: normalize_pattern_def sample_lower) (simp_all add: text_eval sample_hosts)

lemma sample_expanded:
  "expand_domain_pattern ''api.test'' = [''api.test'']" "expand_domain_pattern ''evil.test'' = [''evil.test'']"
  "expand_domain_pattern ''127.0.0.1'' = [''127.0.0.1'']"
  by (simp_all add: expand_domain_pattern_def parse_pattern_def text_eval)

lemma sample_no_wildcard: "\<not> is_global_wildcard_domain_pattern ''evil.test''" "\<not> is_global_wildcard_domain_pattern ''EVIL.test''"
  by (simp_all add: is_global_wildcard_domain_pattern_def sample_patterns sample_expanded)

text \<open>A managed proxy: an administrator denies \<open>EVIL.test\<close>.\<close>

definition sample_requirements :: network_constraints where
  "sample_requirements =
     \<lparr>nq_enabled = None, nq_http_port = None, nq_socks_port = None, nq_allow_upstream_proxy = None,
      nq_allow_non_loopback_proxy = None, nq_allow_all_unix_sockets = None, nq_domains = Some [(''EVIL.test'', TomlDeny)],
      nq_managed_allowed_domains_only = None, nq_unix_sockets = None, nq_allow_local_binding = None\<rparr>"

definition managed_config :: net_config where
  "managed_config = net_config_default\<lparr>nc_enabled := True, nc_domains :=
     Some [\<lparr>de_pattern = ''api.test'', de_permission = PermAllow\<rparr>, \<lparr>de_pattern = ''127.0.0.1'', de_permission = PermAllow\<rparr>,
       \<lparr>de_pattern = ''EVIL.test'', de_permission = PermDeny\<rparr>]\<rparr>"

definition managed_limits :: constraints where
  "managed_limits = constraints_default\<lparr>ct_denied_domains := Some [''EVIL.test''], ct_denylist_expansion_enabled := Some False\<rparr>"

definition managed_state :: config_state where
  "managed_state = sample_state\<lparr>cs_config := managed_config, cs_constraints := managed_limits\<rparr>"

lemma managed_domains:
  "allowed_domains (managed_config\<lparr>nc_mode := m\<rparr>) = Some [''api.test'', ''127.0.0.1'']"
  "denied_domains (managed_config\<lparr>nc_mode := m\<rparr>) = Some [''EVIL.test'']"
  by (simp_all add: allowed_domains_def denied_domains_def domain_entries_def managed_config_def net_config_default_def
      effective_entries_def effective_step_def List.map_filter_simps non_empty_def)

lemma managed_config_limits: "limits_ok sample_lib sample_env (managed_config\<lparr>nc_mode := m\<rparr>) managed_limits"
proof -
  have h: "validate_mitm_hook_config sample_lib sample_env (managed_config\<lparr>nc_mode := m\<rparr>) = Inr ()"
    by (simp add: validate_mitm_hook_config_def validate_hooks_def managed_config_def net_config_default_def)
  show ?thesis
    unfolding limits_ok_iff managed_domains h
    by (simp add: constraints_default_def managed_limits_def flag_ok_def sample_no_wildcard denylist_ok_def lower_set_def sample_lower
        managed_config_def net_config_default_def)
qed

lemma managed_config_full: "managed_config\<lparr>nc_mode := Full\<rparr> = managed_config"
  by (simp add: managed_config_def net_config_default_def)

lemma managed_requirements: "apply_requirements sample_config sample_requirements ExternalProfile False = (managed_config, managed_limits)"
  by (simp add: apply_requirements_def require_switches_def require_allowed_def require_denied_def require_local_def
      sample_requirements_def toml_allowed_domains_def toml_denied_domains_def non_empty_def denylist_expansion_enabled_def
      managed_sandbox_active_def set_denied_domains_def set_domain_entries_def add_domain_entry_def sample_config_def
      managed_config_def managed_limits_def net_config_default_def Let_def)

lemma managed_spec:
  "made_spec sample_lib sample_env \<lparr>sp_base_config = sample_config, sp_requirements = Some sample_requirements,
     sp_config = managed_config, sp_constraints = managed_limits, sp_hard_deny_allowlist_misses = False\<rparr>"
proof (rule From)
  have "managed_allowed_domains_only sample_requirements = False"
    by (simp add: managed_allowed_domains_only_def sample_requirements_def)
  then show "from_config_and_constraints sample_lib sample_env sample_config (Some sample_requirements) ExternalProfile =
      Inr \<lparr>sp_base_config = sample_config, sp_requirements = Some sample_requirements,
        sp_config = managed_config, sp_constraints = managed_limits, sp_hard_deny_allowlist_misses = False\<rparr>"
    using managed_config_limits [of Full]
    by (simp add: from_config_and_constraints_def managed_requirements limits_ok_def managed_config_full)
qed

lemma managed_builds: "build_config_state sample_lib sample_env managed_config managed_limits = Inr managed_state"
proof -
  have b: "brokered_config managed_config managed_limits = (managed_config, False)"
    by (simp add: brokered_config_def managed_config_def net_config_default_def)
  have c: "compile_globset_with_policy sample_lib True [''EVIL.test''] = Inr [''evil.test'']"
    "compile_globset_with_policy sample_lib False [''api.test'', ''127.0.0.1''] = Inr [''api.test'', ''127.0.0.1'']"
    by (simp_all add: compile_globset_with_policy_def sample_patterns sample_expanded sample_no_wildcard sample_lib_def)
  have p: "nc_mitm managed_config = False" "nc_credential_broker managed_config = False" "nc_mitm_hooks managed_config = []"
    "nc_unix_sockets managed_config = None"
    by (simp_all add: managed_config_def net_config_default_def)
  show ?thesis
    using managed_domains [of Full] sample_no_wildcard(2)
    by (simp add: build_config_state_def b c p managed_config_full validate_unix_socket_allowlist_paths_def allow_unix_sockets_def
        no_global_wildcards compile_mitm_hooks_def validate_hooks_def managed_state_def sample_state_def)
qed

lemma managed_started:
  "managed_proxy sample_lib sample_env managed_state
     (managed_state\<lparr>cs_config := managed_config\<lparr>nc_mode := Limited\<rparr>\<rparr>)"
proof (rule Mode [of _ _ managed_state managed_state Limited])
  show "managed_proxy sample_lib sample_env managed_state managed_state"
    by (rule Start [OF managed_spec]) (simp add: build_config_state_for_spec_def managed_builds)
  show "set_network_mode sample_lib sample_env (static_maybe_reload managed_state) Limited managed_state =
      Inr (managed_state\<lparr>cs_config := managed_config\<lparr>nc_mode := Limited\<rparr>\<rparr>)"
    using managed_config_limits [of Limited]
    by (simp add: set_network_mode_def reload_if_needed_def static_maybe_reload_def limits_ok_def managed_state_def)
qed

lemma sample_allowed:
  "evaluate_host_policy sample_lib (\<lambda>_ _. Some [V4 0x5DB8D822]) (Inr None) None None None (sample_request ''api.test'') sample_state =
     Inr (NetAllow, domain_audit_event (sample_request ''api.test'') NetAllow False, None, sample_state)"
proof -
  have h: "parse_host ''api.test'' = Some ''api.test''" by (simp add: parse_host_def sample_hosts)
  have u: "unscoped_ip_literal ''api.test'' = None" "parse_ip ''api.test'' = None" by (simp_all add: host_eval)
  have p: "\<not> is_non_public_ipv4 0x5DB8D822" by code_simp
  have "\<not> local_literal ''api.test''" by (simp add: local_literal_def is_loopback_host_def u)
  moreover have "\<not> host_resolves_to_non_public_ip (\<lambda>_ _. Some [V4 0x5DB8D822]) ''api.test'' 443"
    by (simp add: host_resolves_to_non_public_ip_def u p)
  ultimately have "blocks_host sample_lib (\<lambda>_ _. Some [V4 0x5DB8D822]) sample_state ''api.test'' 443 = Allowed"
    by (simp add: blocks_host_def h u globset_matches_host_or_unscoped_def set_is_match_def sample_state_def sample_lib_def
        sample_domains Let_def)
  then show ?thesis
    by (simp add: evaluate_host_policy_def host_blocked_def reload_if_needed_def sample_request_def host_policy_decision_def)
qed

definition sample_owner :: env_policy where
  "sample_owner =
     \<lparr>ep_domains = Some [\<lparr>de_pattern = ''evil.test'', de_permission = PermAllow\<rparr>, \<lparr>de_pattern = ''api.test'', de_permission = PermAllow\<rparr>],
      ep_unix_sockets = Some [(''/run/a.sock'', SocketAllow), (''/run/b.sock'', SocketAllow)], ep_allow_upstream_proxy = False,
      ep_allow_all_unix_sockets = False, ep_allow_local_binding = True, ep_managed_allowed_domains_only = False\<rparr>"

definition sample_sockets :: net_config where
  "sample_sockets = sample_config\<lparr>nc_unix_sockets := Some [(''/run/a.sock'', SocketAllow), (''/run/b.sock'', SocketDeny)]\<rparr>"

definition sample_listener :: net_config where
  "sample_listener = net_config_default\<lparr>nc_proxy_url := ''10.0.0.1:3128'', nc_allow_non_loopback_proxy := True,
     nc_allow_all_unix_sockets := True\<rparr>"

lemma sample_resolves:
  "resolve_runtime sample_lib sample_env sample_listener = Inr ((loopback_v4, 3128), (loopback_v4, 8081))"
proof -
  have t: "trim ''10.0.0.1:3128'' = ''10.0.0.1:3128''" "trim ''http://127.0.0.1:8081'' = ''http://127.0.0.1:8081''"
    by (simp_all add: trim_plain is_ascii_def is_whitespace_def white_space_def)
  have i: "parse_ip ''10.0.0.1:3128'' = None" "parse_ip ''http://127.0.0.1:8081'' = None"
    by (simp_all add: ip_eval read_groups.simps)
  note port_eval = parse_host_port_fallback_def split_once_str_def rsplit_once_def split_once_def parse_u16_def parse_u64_def
    parse_nat_def is_ascii_digit_def Let_def
  have "parse_host_port_fallback ''10.0.0.1:3128'' 3128 = Inr (''10.0.0.1'', 3128)"
    by (simp add: port_eval starts_with_def)
  then have "parse_host_port sample_lib ''10.0.0.1:3128'' 3128 = Inr (''10.0.0.1'', 3128)"
    by (simp add: parse_host_port_def t i sample_lib_def Let_def)
  then have "resolve_addr sample_lib ''10.0.0.1:3128'' 3128 = Inr (V4 0x0A000001, 3128)"
    by (simp add: resolve_addr_def to_ascii_lowercase_def ascii_lower_def ip_eval from_octets_def)
  moreover have "parse_host_port_fallback ''http://127.0.0.1:8081'' 8081 = Inr (''127.0.0.1'', 8081)"
    by (simp add: port_eval starts_with_def)
  then have "parse_host_port sample_lib ''http://127.0.0.1:8081'' 8081 = Inr (''127.0.0.1'', 8081)"
    by (simp add: parse_host_port_def t i sample_lib_def Let_def starts_with_def)
  then have "resolve_addr sample_lib ''http://127.0.0.1:8081'' 8081 = Inr (V4 0x7F000001, 8081)"
    by (simp add: resolve_addr_def to_ascii_lowercase_def ascii_lower_def ip_eval from_octets_def)
  ultimately show ?thesis
    by (simp add: resolve_runtime_def sample_listener_def net_config_default_def default_socks_url_def
        validate_unix_socket_allowlist_paths_def allow_unix_sockets_def clamp_bind_addrs_def clamp_non_loopback_def)
qed

definition sample_hook :: hook_config where
  "sample_hook =
     \<lparr>hk_host = ''api.test'',
      hk_matcher = \<lparr>hm_methods = [''get''], hm_path_prefixes = [''/v1/''], hm_query = [], hm_headers = [], hm_body = None\<rparr>,
      hk_actions = \<lparr>hc_strip_request_headers = [], hc_inject_request_headers =
        [\<lparr>ih_name = ''authorization'', ih_secret_env_var = Some ''TOKEN'', ih_secret_file = None, ih_prefix = Some ''Bearer ''\<rparr>]\<rparr>\<rparr>"

lemma sample_headers: "nl_header_name sample_lib = Some" "nl_header_value sample_lib v" "ne_env_var sample_env x = Some ''secret''"
  by (simp_all add: sample_lib_def sample_env_def)

lemma sample_compiles:
  "compile_mitm_hooks sample_lib sample_env True [sample_hook] =
     Inr [''api.test'' \<mapsto> [\<lparr>mh_host = ''api.test'',
       mh_matcher = \<lparr>mm_methods = [''GET''], mm_path_prefixes = [PathPrefix ''/v1/''], mm_query = [], mm_headers = []\<rparr>,
       mh_actions = \<lparr>ha_strip_request_headers = [], ha_inject_request_headers =
         [\<lparr>rh_name = ''authorization'', rh_value = ''Bearer secret'', rh_source = EnvVar ''TOKEN''\<rparr>]\<rparr>\<rparr>]]"
proof -
  have m: "normalize_method ''get'' = Inr ''GET''" by code_simp
  have h: "normalize_hook_host ''api.test'' = Inr ''api.test''" by (simp add: normalize_hook_host_def sample_hosts)
  have t: "trim ''TOKEN'' = ''TOKEN''" by (simp add: trim_plain is_ascii_def is_whitespace_def white_space_def)
  have p: "compile_path_matchers sample_lib [''/v1/''] = Inr [PathPrefix ''/v1/'']"
    by (simp add: compile_path_matchers_def compile_path_matcher_def parse_matcher_pattern_def strip_prefix_def starts_with_def
        LITERAL_PREFIX_def PATTERN_PREFIX_def)
  show ?thesis
    by (simp add: compile_mitm_hooks_def validate_hooks_def validate_hook_def compile_hook_def sample_hook_def h m t p
        normalize_methods_def parse_header_name_def validate_injected_header_def compile_injected_header_def sample_headers
        add_hook_def Let_def)
qed

end
