(* ===== verification/Net_Properties.thy ===== *)
theory Net_Properties
  imports Net_Samples
begin

text \<open>
  Properties of the network proxy: the requests it lets through, denials that stay, connections to local addresses,
  the environments it is combined with, the hooks on its requests, the addresses it listens on, and the blocks of addresses it calls local.
\<close>

subsection \<open>Requests that are allowed\<close>

text \<open>
  C30. A request that the policy allows names a host that no denied pattern matches; unless local binding is on, the
  host is not local or is listed by name, and a name that is not an address resolves to public addresses only. The
  host is on the allow list, or a decider allowed this very request, and then the audit event says so.
\<close>

theorem allowed_request_was_permitted:
  assumes "evaluate_host_policy nl lookup offered decider environment_id execution_id request st =
      Inr (NetAllow, event, asked, st')"
  shows "reload_if_needed offered st = Inr st'
    \<and> (\<forall>host. parse_host (pr_host request) = Some host \<longrightarrow>
          \<not> globset_matches_host_or_unscoped nl (cs_deny_set st') host
          \<and> (nc_allow_local_binding (cs_config st')
             \<or> (if local_literal host
                then is_explicit_local_allowlisted (entries_or_empty (allowed_domains (cs_config st'))) host
                else \<not> host_resolves_to_non_public_ip lookup host (pr_port request))))
    \<and> ae_policy_override event = (asked \<noteq> None)
    \<and> (case asked of
         None \<Rightarrow> (\<exists>host. parse_host (pr_host request) = Some host
                     \<and> globset_matches_host_or_unscoped nl (cs_allow_set st') host)
       | Some r \<Rightarrow> (\<exists>decide. decider = Some decide \<and> decide r = NetAllow)
           \<and> pr_host r = pr_host request \<and> pr_port r = pr_port request \<and> pr_execution_id r = execution_id)"
proof -
  define verdict where "verdict = blocks_host nl lookup st' (pr_host request) (pr_port request)"
  obtain st1 where r: "reload_if_needed offered st = Inr st1"
    using assms by (auto simp: evaluate_host_policy_def host_blocked_def)
  obtain x policy_override z where
    "host_policy_decision (blocks_host nl lookup st1 (pr_host request) (pr_port request)) decider environment_id execution_id request = (x, policy_override, z)"
    by (rule prod_cases3)
  then have reload: "reload_if_needed offered st = Inr st'"
    and d: "host_policy_decision verdict decider environment_id execution_id request = (NetAllow, policy_override, asked)"
    and e: "event = domain_audit_event request NetAllow policy_override"
    using assms r by (auto simp: evaluate_host_policy_def host_blocked_def verdict_def)
  have not_denied: "verdict = Allowed \<and> asked = None \<or>
      verdict = Blocked NotAllowed \<and> (\<exists>decide r. decider = Some decide \<and> asked = Some r
        \<and> r = decider_request environment_id execution_id request \<and> map_decider_decision (decide r) = NetAllow)"
    using d by (auto simp: host_policy_decision_def deny_with_source_def Let_def
        split: host_decision.splits host_block_reason.splits option.splits)
  have allow: "map_decider_decision x = NetAllow \<longleftrightarrow> x = NetAllow" for x by (cases x) auto
  have "ae_policy_override event = (asked \<noteq> None)"
    using d by (auto simp: e domain_audit_event_def host_policy_decision_def deny_with_source_def Let_def
        split: host_decision.splits host_block_reason.splits option.splits)
  moreover have "verdict = Allowed \<or> verdict = Blocked NotAllowed" using not_denied by blast
  then have "\<not> globset_matches_host_or_unscoped nl (cs_deny_set st') host
          \<and> (nc_allow_local_binding (cs_config st')
             \<or> (if local_literal host
                then is_explicit_local_allowlisted (entries_or_empty (allowed_domains (cs_config st'))) host
                else \<not> host_resolves_to_non_public_ip lookup host (pr_port request)))"
    if "parse_host (pr_host request) = Some host" for host
    using that by (auto simp: verdict_def blocks_host_def Let_def split: if_splits)
  moreover have "\<exists>host. parse_host (pr_host request) = Some host \<and> globset_matches_host_or_unscoped nl (cs_allow_set st') host"
    if "verdict = Allowed"
    using that by (auto simp: verdict_def blocks_host_def Let_def split: option.splits if_splits)
  ultimately show ?thesis using reload not_denied allow by (auto simp: decider_request_def split: option.splits)
qed

theorem allowed_request_was_permitted_witness:
  "\<not> globset_matches_host_or_unscoped sample_lib (cs_deny_set sample_state) ''api.test''
   \<and> globset_matches_host_or_unscoped sample_lib (cs_allow_set sample_state) ''api.test''"
proof -
  have "parse_host (pr_host (sample_request ''api.test'')) = Some ''api.test''"
    by (simp add: sample_request_def parse_host_def sample_hosts)
  then show ?thesis using allowed_request_was_permitted [OF sample_allowed] by auto
qed

subsection \<open>Denials that stay\<close>

text \<open>
  C31. A managed proxy starts in a state that is built from a spec: settings joined with the requirements of an
  administrator, combined with environments and saved rules, and validated. Whatever happens to it then (reloads, forced
  reloads, states built from other specs put in its place, updates of the domain lists, changes of mode, requests
  logged and drained), a host that matches a pattern denied by the limits in force is denied, and no decider is asked.
  The log stays within its bound.
\<close>

theorem managed_denials_always_block:
  assumes "managed_proxy nl env initial st"
    and "ct_denied_domains (cs_constraints st) = Some managed" and "d \<in> set managed"
    and "g \<in> set (expand_domain_pattern (normalize_pattern d))"
    and "parse_host (pr_host request) = Some host" and "nl_match nl g host"
  shows "\<exists>event. evaluate_host_policy nl lookup (static_maybe_reload initial) decider environment_id execution_id request st =
      Inr (NetDeny REASON_DENIED BaselinePolicy DecideDeny, event, None, st)
    \<and> length (cs_blocked st) \<le> MAX_BLOCKED_EVENTS"
proof -
  have ok: "state_ok nl env st" using managed_proxy_ok [OF assms(1)] by blast
  then have "globset_matches_host_or_unscoped nl (cs_deny_set st) host"
    using managed_denial_matches [OF _ assms(2,3,4,6)] by (auto simp: state_ok_def)
  then have "blocks_host nl lookup st (pr_host request) (pr_port request) = Blocked Denied"
    using denied_host_blocked [OF assms(5)] by simp
  then have "\<exists>event. evaluate_host_policy nl lookup (static_maybe_reload initial) decider environment_id execution_id request st =
      Inr (NetDeny REASON_DENIED BaselinePolicy DecideDeny, event, None, st)"
    by (simp add: evaluate_host_policy_def host_blocked_def reload_if_needed_def static_maybe_reload_def
        host_policy_decision_def deny_with_source_def REASON_DENIED_def)
  then show ?thesis using ok by (auto simp: state_ok_def)
qed

text \<open>Witness: requirements that deny \<open>EVIL.test\<close>, a proxy started with them and switched to the limited mode, and a
  decider that would allow everything.\<close>

theorem managed_denials_always_block_witness:
  "\<exists>event. evaluate_host_policy sample_lib (\<lambda>_ _. None) (static_maybe_reload managed_state) (Some (\<lambda>_. NetAllow)) None None
      (sample_request ''evil.test'') (managed_state\<lparr>cs_config := managed_config\<lparr>nc_mode := Limited\<rparr>\<rparr>) =
      Inr (NetDeny REASON_DENIED BaselinePolicy DecideDeny, event, None, managed_state\<lparr>cs_config := managed_config\<lparr>nc_mode := Limited\<rparr>\<rparr>)
    \<and> length (cs_blocked (managed_state\<lparr>cs_config := managed_config\<lparr>nc_mode := Limited\<rparr>\<rparr>)) \<le> MAX_BLOCKED_EVENTS"
proof (rule managed_denials_always_block [OF managed_started])
  show "ct_denied_domains (cs_constraints (managed_state\<lparr>cs_config := managed_config\<lparr>nc_mode := Limited\<rparr>\<rparr>)) = Some [''EVIL.test'']"
    by (simp add: managed_state_def managed_limits_def)
  show "''EVIL.test'' \<in> set [''EVIL.test'']" by simp
  show "''evil.test'' \<in> set (expand_domain_pattern (normalize_pattern ''EVIL.test''))" by (simp add: sample_patterns sample_expanded)
  show "parse_host (pr_host (sample_request ''evil.test'')) = Some ''evil.test''"
    by (simp add: sample_request_def parse_host_def sample_hosts)
  show "nl_match sample_lib ''evil.test'' ''evil.test''" by (simp add: sample_lib_def)
qed

subsection \<open>Local addresses\<close>

text \<open>
  C32. When the proxy connects to the target itself, a connection to an address that is not public is attempted only
  when local binding is on, or when the target is that address (or \<open>localhost\<close> and the address is a loopback address),
  it is not denied, and the allow list has an entry for it that is not a wildcard. So a name that a resolver maps onto
  the local network is not reached. Two conditions: the request is not sent through an upstream proxy (the address of
  that proxy is not checked), and the target is written the way it reads back, a name as it is and an address so that
  it parses to the same address without a scope.
\<close>

theorem local_connection_is_explicit:
  assumes "target_checked_serve nl lookup show_host offered1 offered2 input addr st = Inr (True, st')"
    and "is_non_public_ip addr" and "ci_proxy_address input = None"
    and "\<forall>target port. ci_target input = Inr (Some (target, port)) \<longrightarrow> written_plainly show_host target"
  shows "\<exists>target port. ci_target input = Inr (Some (target, port))
    \<and> (nc_allow_local_binding (cs_config st')
       \<or> target_matches_non_public_addr target addr
         \<and> (\<exists>host. parse_host (show_host target) = Some host
             \<and> is_explicit_local_allowlisted (entries_or_empty (allowed_domains (cs_config st'))) host
             \<and> \<not> globset_matches_host_or_unscoped nl (cs_deny_set st') host))"
proof -
  obtain target port where t: "ci_target input = Inr (Some (target, port))"
    and c: "target_checked_connect nl lookup show_host offered1 offered2 target port addr st = Inr (True, st')"
    using assms(1,3) by (auto simp: target_checked_serve_def split: option.splits)
  have p: "written_plainly show_host target" using assms(4) t by blast
  show ?thesis
  proof (cases "nc_allow_local_binding (cs_config st')")
    case False
    then have m: "target_matches_non_public_addr target addr" and a: "blocks_host nl lookup st' (show_host target) port = Allowed"
      using c assms(2)
      by (auto simp: target_checked_connect_def allows_non_public_target_def allow_local_binding_def host_blocked_def split: if_splits)
    obtain host where h: "parse_host (show_host target) = Some host" "local_literal host"
      using matching_target_is_local [OF p assms(2) m] by blast
    then show ?thesis using t m allowed_local_is_explicit [OF a h False] by blast
  qed (use t in blast)
qed

theorem local_connection_is_explicit_witness:
  "is_explicit_local_allowlisted [''api.test'', ''127.0.0.1''] ''127.0.0.1''"
proof -
  define target where "target = HostAddress (V4 0x7F000001)"
  have ip: "parse_ip ''127.0.0.1'' = Some (V4 0x7F000001)" by (simp add: ip_eval from_octets_def)
  have u: "unscoped_ip_literal ''127.0.0.1'' = None" by (simp add: unscoped_ip_literal_def split_once_def)
  have h: "parse_host ''127.0.0.1'' = Some ''127.0.0.1''" by (simp add: parse_host_def sample_hosts)
  have n: "is_non_public_ip (V4 0x7F000001)" by code_simp
  have l: "local_literal ''127.0.0.1''" using n by (simp add: local_literal_def u ip)
  have e: "is_explicit_local_allowlisted [''api.test'', ''127.0.0.1''] ''127.0.0.1''"
    by (simp add: is_explicit_local_allowlisted_def explicit_local_pattern_def text_eval sample_hosts)
  have "target_checked_connect sample_lib (\<lambda>_ _. None) (\<lambda>_. ''127.0.0.1'') (Inr None) (Inr None) target 80 (V4 0x7F000001) sample_state = Inr (True, sample_state)"
    using n by (simp add: target_checked_connect_def allows_non_public_target_def allow_local_binding_def host_blocked_def
        reload_if_needed_def target_def blocks_host_def h l e globset_matches_host_or_unscoped_def u set_is_match_def
        sample_state_def sample_domains sample_lib_def Let_def)
  then have "target_checked_serve sample_lib (\<lambda>_ _. None) (\<lambda>_. ''127.0.0.1'') (Inr None) (Inr None)
      \<lparr>ci_proxy_address = None, ci_target = Inr (Some (target, 80))\<rparr> (V4 0x7F000001) sample_state = Inr (True, sample_state)"
    by (simp add: target_checked_serve_def)
  from local_connection_is_explicit [OF this n]
  show ?thesis
    by (simp add: written_plainly_def target_def h u ip sample_state_def sample_domains)
      (simp add: sample_config_def net_config_default_def)
qed

text \<open>
  C36. The IPv4 addresses that count as local are those of a table of blocks: the address and the first address of the
  block agree on the length of its prefix.
\<close>

theorem non_public_ipv4_ranges:
  "is_non_public_ipv4 ip \<longleftrightarrow>
     list_ex (\<lambda>(base, len). unat ip div 2 ^ (32 - len) = octets_value base div 2 ^ (32 - len)) special_ranges"
proof -
  have f: "unat (from_octets [0, 0, 0, 0]) = 0" "unat (from_octets [100, 64, 0, 0]) = 1681915904"
     "unat (from_octets [192, 0, 0, 0]) = 3221225472" "unat (from_octets [192, 0, 2, 0]) = 3221225984"
     "unat (from_octets [198, 18, 0, 0]) = 3323068416" "unat (from_octets [198, 51, 100, 0]) = 3325256704"
     "unat (from_octets [203, 0, 113, 0]) = 3405803776" "unat (from_octets [240, 0, 0, 0]) = 4026531840"
    by (simp_all add: from_octets_def)
  show ?thesis
    unfolding is_non_public_ipv4_def std_classes_div
    by (simp add: ipv4_in_cidr_div f special_ranges_def octets_value_def) (metis all_zero_ones_div)
qed

subsection \<open>Narrower settings\<close>

text \<open>
  C33. The policy of an environment put on settings (with socket permissions as tree maps). Sockets: what the check at
  run time lets through under the result, it lets through under the settings and under the sockets of the policy, and
  a socket that both list as allowed stays listed. Upstream proxies and local binding need both. Domains are those of
  the owner, not an intersection: every inherited denial stays under its normal form, and what is allowed is allowed
  by the owner and shares its normal form with no inherited denial; the allow list of the settings is replaced.
\<close>

theorem environment_policy_combines:
  assumes "tree_ok (entries_or_empty (nc_unix_sockets cfg))" and "tree_ok (entries_or_empty (ep_unix_sockets pol))"
    and "owner = cfg\<lparr>nc_unix_sockets := ep_unix_sockets pol, nc_allow_all_unix_sockets := ep_allow_all_unix_sockets pol\<rparr>"
  shows "(socket_allowed env (apply_to pol cfg) p \<longrightarrow> socket_allowed env cfg p \<and> socket_allowed env owner p)
    \<and> set (allow_unix_sockets cfg) \<inter> set (allow_unix_sockets owner) \<subseteq> set (allow_unix_sockets (apply_to pol cfg))
    \<and> (nc_allow_upstream_proxy (apply_to pol cfg) \<longleftrightarrow> nc_allow_upstream_proxy cfg \<and> ep_allow_upstream_proxy pol)
    \<and> (nc_allow_local_binding (apply_to pol cfg) \<longleftrightarrow> nc_allow_local_binding cfg \<and> ep_allow_local_binding pol)
    \<and> normalize_host ` set (entries_or_empty (denied_domains cfg)) \<subseteq> normalize_host ` set (entries_or_empty (denied_domains (apply_to pol cfg)))
    \<and> set (entries_or_empty (allowed_domains (apply_to pol cfg))) \<subseteq>
        {a. \<lparr>de_pattern = a, de_permission = PermAllow\<rparr> \<in> set (entries_or_empty (ep_domains pol))
          \<and> \<lparr>de_pattern = a, de_permission = PermDeny\<rparr> \<notin> set (entries_or_empty (ep_domains pol))
          \<and> normalize_host a \<notin> normalize_host ` set (entries_or_empty (denied_domains cfg))}"
proof (intro conjI)
  show "socket_allowed env (apply_to pol cfg) p \<longrightarrow> socket_allowed env cfg p \<and> socket_allowed env owner p"
    using socket_allowed_apply [OF assms(1,2), of env p] by (simp add: assms(3))
  show "set (allow_unix_sockets cfg) \<inter> set (allow_unix_sockets owner) \<subseteq> set (allow_unix_sockets (apply_to pol cfg))"
    using listed_socket_stays [OF assms(1,2)] by (auto simp: assms(3))
  show "normalize_host ` set (entries_or_empty (denied_domains cfg)) \<subseteq> normalize_host ` set (entries_or_empty (denied_domains (apply_to pol cfg)))"
    using apply_to_denials by (auto simp: image_iff) metis
qed (use apply_to_sockets(3,4) [of pol cfg] apply_to_allowed [of _ pol cfg] in auto)

theorem environment_policy_combines_witness:
  "''/run/a.sock'' \<in> set (allow_unix_sockets (apply_to sample_owner sample_sockets))
   \<and> \<not> socket_allowed sample_env (apply_to sample_owner sample_sockets) ''/run/b.sock''
   \<and> ''evil.test'' \<notin> set (entries_or_empty (allowed_domains (apply_to sample_owner sample_sockets)))"
proof -
  have "CHR ''a'' < CHR ''b''" by (simp add: less_char_def)
  then have ok: "tree_ok (entries_or_empty (nc_unix_sockets sample_sockets))" "tree_ok (entries_or_empty (ep_unix_sockets sample_owner))"
    by (simp_all add: tree_ok_def sample_sockets_def sample_owner_def Cons_less_Cons)
  have d: "denied_domains sample_sockets = Some [''evil.test'']"
    using sample_domains(2) by (simp add: sample_sockets_def denied_domains_def domain_entries_def)
  have "\<not> socket_allowed sample_env sample_sockets ''/run/b.sock''" by code_simp
  then show ?thesis
    using environment_policy_combines [OF ok refl, of sample_env "''/run/b.sock''"]
    unfolding d by (auto simp: allow_unix_sockets_def sample_sockets_def sample_owner_def sample_config_def net_config_default_def)
qed

text \<open>
  C35. The addresses the proxy listens on come from the two URLs of the settings: each has the port of its URL, and the
  address of its URL or the loopback address in its place. They are loopback addresses unless the settings ask for
  more, and always when they let unix sockets through. The ports the proxy reports are these two (the one of SOCKS only
  when it is enabled), sorted, distinct and not zero.
\<close>

theorem listeners_stay_local:
  assumes "resolve_runtime nl env cfg = Inr (http_addr, socks_addr)"
  shows "(\<exists>http socks. resolve_addr nl (nc_proxy_url cfg) 3128 = Inr http \<and> resolve_addr nl (nc_socks_url cfg) 8081 = Inr socks
      \<and> snd http_addr = snd http \<and> fst http_addr \<in> {fst http, loopback_v4}
      \<and> snd socks_addr = snd socks \<and> fst socks_addr \<in> {fst socks, loopback_v4}
      \<and> (\<forall>ports. managed_proxy_ports nl env cfg = Inr ports \<longrightarrow>
          sorted ports \<and> distinct ports \<and> 0 \<notin> set ports
          \<and> set ports = (if nc_enable_socks5 cfg then {snd http, snd socks} else {snd http})))
    \<and> (\<not> nc_allow_non_loopback_proxy cfg \<or> allow_unix_sockets cfg \<noteq> [] \<or> nc_allow_all_unix_sockets cfg \<longrightarrow>
      is_loopback (fst http_addr) \<and> is_loopback (fst socks_addr))"
proof -
  obtain http socks where r: "resolve_addr nl (nc_proxy_url cfg) 3128 = Inr http" "resolve_addr nl (nc_socks_url cfg) 8081 = Inr socks"
    and c: "clamp_bind_addrs http socks cfg = (http_addr, socks_addr)"
    using assms by (auto simp: resolve_runtime_def)
  have "fst http_addr \<in> {fst http, loopback_v4} \<and> fst socks_addr \<in> {fst socks, loopback_v4}"
    using c by (auto simp: clamp_bind_addrs_def clamp_non_loopback_def Let_def split: if_splits)
  moreover note l = clamp_bind_addrs_local [OF c]
  moreover have "sorted ports \<and> distinct ports \<and> 0 \<notin> set ports
      \<and> set ports = (if nc_enable_socks5 cfg then {snd http, snd socks} else {snd http})"
    if "managed_proxy_ports nl env cfg = Inr ports" for ports
    using that assms l(1) by (auto simp: managed_proxy_ports_def split: if_splits)
  ultimately show ?thesis using r by blast
qed

text \<open>Witness: a proxy that asks for another address and lets unix sockets through keeps its port and listens on the
  loopback address.\<close>

theorem listeners_stay_local_witness:
  "nc_allow_non_loopback_proxy sample_listener
   \<and> resolve_runtime sample_lib sample_env sample_listener = Inr ((loopback_v4, 3128), (loopback_v4, 8081))
   \<and> (\<exists>http. resolve_addr sample_lib ''10.0.0.1:3128'' 3128 = Inr http \<and> snd http = 3128) \<and> is_loopback loopback_v4"
  using listeners_stay_local [OF sample_resolves] sample_resolves
  by (auto simp: sample_listener_def net_config_default_def)

subsection \<open>Hooks\<close>

text \<open>
  C34. A hook acts on a request only for its own host, when interception is on, and on a path with one meaning: decoded
  once or again it has the same segments, none of them is a dot segment, and it has no backslash. A host with hooks is
  never treated as one without.
\<close>

theorem hooks_act_on_plain_paths:
  assumes "compile_mitm_hooks nl env mitm configs = Inr hooks"
  shows "(evaluate_mitm_hooks nl hooks host req = NoHooksForHost \<longleftrightarrow>
      (\<forall>c \<in> set configs. normalize_host (hk_host c) \<noteq> normalize_host host))
    \<and> (\<forall>actions. evaluate_mitm_hooks nl hooks host req = Matched actions \<longrightarrow>
        mitm
        \<and> (\<exists>c \<in> set configs. \<exists>hook. normalize_host (hk_host c) = normalize_host host \<and> compile_hook nl env c = Inr hook
            \<and> actions = mh_actions hook \<and> hook_matches nl hook req)
        \<and> segments (percent_decode (rq_path req)) = map percent_decode (segments (rq_path req))
        \<and> (\<forall>s \<in> set (segments (percent_decode (rq_path req))). s \<noteq> ''.'' \<and> s \<noteq> ''..'' \<and> CHR 0x5C \<notin> set s)
        \<and> percent_decode (percent_decode (rq_path req)) = percent_decode (rq_path req))"
proof (intro conjI allI impI)
  show "evaluate_mitm_hooks nl hooks host req = NoHooksForHost \<longleftrightarrow>
      (\<forall>c \<in> set configs. normalize_host (hk_host c) \<noteq> normalize_host host)"
    unfolding compiled_hooks_of_host(1) [OF assms, symmetric]
    by (auto simp: evaluate_mitm_hooks_def split: option.splits)
next
  fix actions
  assume "evaluate_mitm_hooks nl hooks host req = Matched actions"
  then obtain hs hook where hs: "hooks (normalize_host host) = Some hs" "hook \<in> set hs" "hook_matches nl hook req" "actions = mh_actions hook"
    by (auto simp: evaluate_mitm_hooks_def find_Some_iff split: option.splits) (metis nth_mem)
  obtain c where c: "c \<in> set configs" "normalize_host (hk_host c) = normalize_host host" "compile_hook nl env c = Inr hook"
    using compiled_hooks_of_host(2) [OF assms hs(1,2)] by blast
  show mitm using compiled_hooks_need_mitm [OF assms] c(1) by auto
  show "\<exists>c \<in> set configs. \<exists>hook. normalize_host (hk_host c) = normalize_host host \<and> compile_hook nl env c = Inr hook
            \<and> actions = mh_actions hook \<and> hook_matches nl hook req"
    using c hs by blast
  note safe = safe_path_decodes [OF hook_matches_safe [OF hs(3)]]
  then show "segments (percent_decode (rq_path req)) = map percent_decode (segments (rq_path req))" by blast
  have "set s \<subseteq> set p" if "s \<in> set (segments p)" for s p
    using that segments_chars by blast
  with safe show "\<forall>s \<in> set (segments (percent_decode (rq_path req))). s \<noteq> ''.'' \<and> s \<noteq> ''..'' \<and> CHR 0x5C \<notin> set s" by blast
  show "percent_decode (percent_decode (rq_path req)) = percent_decode (rq_path req)"
    using safe percent_decode_plain by blast
qed

theorem hooks_act_on_plain_paths_witness:
  "segments (percent_decode ''/v1/a%20b'') = map percent_decode (segments ''/v1/a%20b'')"
proof -
  define req where "req = \<lparr>rq_method = ''GET'', rq_path = ''/v1/a%20b'', rq_query = None, rq_headers = []\<rparr>"
  have "to_ascii_uppercase ''GET'' = ''GET''" by (simp add: to_ascii_uppercase_def ascii_upper_def)
  moreover have "is_safe_for_authorization ''/v1/a%20b''" by code_simp
  ultimately have "\<exists>actions. evaluate_mitm_hooks sample_lib [''api.test'' \<mapsto> [\<lparr>mh_host = ''api.test'',
       mh_matcher = \<lparr>mm_methods = [''GET''], mm_path_prefixes = [PathPrefix ''/v1/''], mm_query = [], mm_headers = []\<rparr>,
       mh_actions = \<lparr>ha_strip_request_headers = [], ha_inject_request_headers =
         [\<lparr>rh_name = ''authorization'', rh_value = ''Bearer secret'', rh_source = EnvVar ''TOKEN''\<rparr>]\<rparr>\<rparr>]] ''api.test'' req = Matched actions"
    by (simp add: evaluate_mitm_hooks_def sample_hosts hook_matches_def req_def path_matches_def starts_with_def
        query_matches_def headers_match_def)
  then obtain actions where a: "evaluate_mitm_hooks sample_lib [''api.test'' \<mapsto> [\<lparr>mh_host = ''api.test'',
       mh_matcher = \<lparr>mm_methods = [''GET''], mm_path_prefixes = [PathPrefix ''/v1/''], mm_query = [], mm_headers = []\<rparr>,
       mh_actions = \<lparr>ha_strip_request_headers = [], ha_inject_request_headers =
         [\<lparr>rh_name = ''authorization'', rh_value = ''Bearer secret'', rh_source = EnvVar ''TOKEN''\<rparr>]\<rparr>\<rparr>]] ''api.test'' req = Matched actions"
    by blast
  from hooks_act_on_plain_paths [OF sample_compiles, of "''api.test''" req] a show ?thesis by (simp add: req_def)
qed

end
