(* ===== verification/Utf8_Text.thy ===== *)
theory Utf8_Text
  imports Prelude
begin

text \<open>
  UTF-8 validation as \<open>std::str::from_utf8\<close> does it: where the first error is, and whether it is an invalid
  sequence (with its length) or only an incomplete one. A Rust \<open>str\<close> is a byte sequence without an error; it
  can be cut at the boundaries of its characters only.
\<close>

definition byte_range :: "nat \<Rightarrow> nat \<Rightarrow> char \<Rightarrow> bool" where
  "byte_range lo hi c \<longleftrightarrow> lo \<le> of_char c \<and> of_char c \<le> hi"

text \<open>The bytes that may follow a first byte of a sequence of three or four.\<close>

definition second_ok :: "char \<Rightarrow> char \<Rightarrow> bool" where
  "second_ok a b =
     (if byte_range 224 224 a then byte_range 160 191 b
      else if byte_range 237 237 a then byte_range 128 159 b
      else if byte_range 240 240 a then byte_range 144 191 b
      else if byte_range 244 244 a then byte_range 128 143 b
      else byte_range 128 191 b)"

text \<open>The number of bytes of a sequence, by its first byte; 0 where no sequence starts.\<close>

definition utf8_width :: "char \<Rightarrow> nat" where
  "utf8_width a =
     (if byte_range 0 127 a then 1
      else if byte_range 194 223 a then 2
      else if byte_range 224 239 a then 3
      else if byte_range 240 244 a then 4
      else 0)"

text \<open>The bytes after the first one: how many there are before the first that may not be there.\<close>

fun tail_good :: "char \<Rightarrow> string \<Rightarrow> nat" where
  "tail_good a [] = 0"
| "tail_good a (b # bs) = (if second_ok a b then Suc (length (takeWhile is_cont bs)) else 0)"

text \<open>One character: \<open>Inr\<close> its width, or \<open>Inl\<close> the length of the error, none when bytes are missing.\<close>

fun utf8_step :: "string \<Rightarrow> nat option + nat" where
  "utf8_step [] = Inl None"
| "utf8_step (a # s) =
     (let w = utf8_width a; good = tail_good a (take (w - 1) s)
      in if w = 0 then Inl (Some 1)
         else if good = w - 1 then Inr w
         else if length s = good then Inl None
         else Inl (Some (Suc good)))"

lemma tail_good_le: "tail_good a u \<le> length u"
  by (cases u) (auto intro: le_trans [OF length_takeWhile_le])

lemma utf8_step_Inr:
  "utf8_step (a # s) = Inr w \<longleftrightarrow> w = utf8_width a \<and> 0 < w \<and> tail_good a (take (w - 1) s) = w - 1"
  by (auto simp: Let_def)

lemma utf8_step_width: "utf8_step s = Inr w \<Longrightarrow> 0 < w \<and> w \<le> length s"
proof (cases s)
  case (Cons a t)
  assume "utf8_step s = Inr w"
  then have "0 < w" "tail_good a (take (w - 1) t) = w - 1" unfolding Cons utf8_step_Inr by auto
  then show ?thesis using tail_good_le [of a "take (w - 1) t"] Cons by simp
qed simp

text \<open>The first error of a byte sequence: how many bytes before it are valid, and its length.\<close>

function utf8_error :: "string \<Rightarrow> (nat \<times> nat option) option" where
  "utf8_error s =
     (if s = [] then None
      else case utf8_step s of
        Inl error_len \<Rightarrow> Some (0, error_len)
      | Inr w \<Rightarrow> map_option (\<lambda>(valid_up_to, error_len). (valid_up_to + w, error_len)) (utf8_error (drop w s)))"
  by pat_completeness auto
termination
  by (relation "measure length") (auto dest: utf8_step_width)

declare utf8_error.simps [simp del]

definition is_str :: "string \<Rightarrow> bool" where
  "is_str s \<longleftrightarrow> utf8_error s = None"

lemma is_str_Nil [simp]: "is_str []"
  by (simp add: is_str_def utf8_error.simps)

subsection \<open>Steps\<close>

text \<open>What a step decides stays decided when more bytes follow.\<close>

lemma second_ok_cont: "second_ok a b \<Longrightarrow> is_cont b"
  by (auto simp: second_ok_def byte_range_def is_cont_def split: if_splits)

lemma tail_good_append: "tail_good a u < length u \<Longrightarrow> tail_good a (u @ v) = tail_good a u"
proof (cases u)
  case (Cons b bs)
  have "length (takeWhile is_cont bs) < length bs \<Longrightarrow> takeWhile is_cont (bs @ v) = takeWhile is_cont bs" for bs :: string
    by (metis less_irrefl takeWhile_append takeWhile_eq_all_conv)
  then show "tail_good a u < length u \<Longrightarrow> ?thesis" using Cons by (auto split: if_splits)
qed simp

lemma tail_good_all: "tail_good a u = length u \<Longrightarrow> b \<in> set u \<Longrightarrow> is_cont b"
proof (cases u)
  case (Cons c cs)
  have "length (takeWhile is_cont cs) = length cs \<Longrightarrow> \<forall>b\<in>set cs. is_cont b" for cs :: string
    by (metis takeWhile_eq_take take_all_iff le_refl takeWhile_eq_all_conv)
  then show "tail_good a u = length u \<Longrightarrow> b \<in> set u \<Longrightarrow> is_cont b"
    using Cons second_ok_cont [of a c] by (auto split: if_splits)
qed simp

lemma utf8_step_append:
  assumes "utf8_step s \<noteq> Inl None"
  shows "utf8_step (s @ t) = utf8_step s"
proof (cases s)
  case (Cons a u)
  let ?w = "utf8_width a" and ?g = "tail_good a (take (utf8_width a - 1) u)"
  have "tail_good a (take (?w - 1) (u @ t)) = ?g"
  proof (cases "?w - 1 \<le> length u")
    case False
    then have "take (?w - 1) u = u" by simp
    then have "?g < length u" using assms Cons False tail_good_le [of a u] by (auto simp: Let_def split: if_splits)
    then show ?thesis using False tail_good_append [of a u "take (?w - 1 - length u) t"] by simp
  qed simp
  moreover have "length u = ?g \<longleftrightarrow> length (u @ t) = ?g" if "?g \<noteq> ?w - 1" "?w \<noteq> 0"
  proof -
    have "?g \<le> length u" using tail_good_le [of a "take (?w - 1) u"] by simp
    moreover have "length u \<noteq> ?g" using assms that unfolding Cons utf8_step.simps Let_def by (metis (full_types))
    ultimately show ?thesis by simp
  qed
  ultimately show ?thesis using Cons by (auto simp: Let_def)
qed (use assms in simp)

lemma utf8_step_take: "utf8_step s = Inr w \<Longrightarrow> utf8_step (take w s) = Inr w"
proof (cases s)
  case (Cons a u)
  assume w: "utf8_step s = Inr w"
  then obtain n where n: "w = Suc n" using utf8_step_width [OF w] by (cases w) auto
  show ?thesis using w unfolding Cons n take_Suc_Cons utf8_step_Inr by (auto dest: sym)
qed simp

declare utf8_step.simps [simp del]

subsection \<open>Errors\<close>

lemma utf8_error_step:
  "utf8_step s = Inr w \<Longrightarrow> utf8_error s = map_option (\<lambda>(v, e). (v + w, e)) (utf8_error (drop w s))"
  by (subst utf8_error.simps) (auto simp: utf8_step.simps)

lemma utf8_error_stuck: "s \<noteq> [] \<Longrightarrow> utf8_step s = Inl e \<Longrightarrow> utf8_error s = Some (0, e)"
  by (subst utf8_error.simps) simp

text \<open>Valid bytes in front only move an error.\<close>

lemma utf8_error_append: "is_str s \<Longrightarrow> utf8_error (s @ t) = map_option (\<lambda>(v, e). (v + length s, e)) (utf8_error t)"
proof (induction s rule: utf8_error.induct)
  case (1 s)
  show ?case
  proof (cases "s = []")
    case True
    then show ?thesis by (simp add: option.map_ident case_prod_unfold)
  next
    case False
    obtain w where w: "utf8_step s = Inr w"
      using 1(2) False utf8_error_stuck by (cases "utf8_step s") (auto simp: is_str_def)
    then have v: "is_str (drop w s)" using 1(2) by (auto simp: is_str_def utf8_error_step)
    have "utf8_error (s @ t) = map_option (\<lambda>(v, e). (v + w, e)) (utf8_error (drop w s @ t))"
      using utf8_error_step [of "s @ t" w] utf8_step_append [of s t] w utf8_step_width [OF w] by simp
    then show ?thesis
      using 1(1) [OF False w v] utf8_step_width [OF w] by (auto simp: option.map_comp comp_def case_prod_unfold)
  qed
qed

text \<open>The bytes before an error are valid, and what follows them is stuck at once.\<close>

lemma utf8_error_Some:
  "utf8_error s = Some (v, e) \<Longrightarrow> v < length s \<and> is_str (take v s) \<and> utf8_step (drop v s) = Inl e"
proof (induction s arbitrary: v rule: utf8_error.induct)
  case (1 s)
  have ne: "s \<noteq> []" using 1(2) by (auto simp: utf8_error.simps)
  show ?case
  proof (cases "utf8_step s")
    case (Inl e')
    then show ?thesis using 1(2) ne by (simp add: utf8_error_stuck)
  next
    case (Inr w)
    then obtain v' where v': "utf8_error (drop w s) = Some (v', e)" "v = v' + w" using 1(2) by (auto simp: utf8_error_step)
    note ih = 1(1) [OF ne Inr v'(1)]
    have "take v s = take w s @ take v' (drop w s)" using v'(2) take_add [of w v' s] by (simp add: add.commute)
    then have "utf8_error (take v s) = None"
      using ih utf8_step_take [OF Inr] utf8_step_append [of "take w s" "take v' (drop w s)"] utf8_step_width [OF Inr]
      by (simp add: utf8_error_step is_str_def)
    moreover have "v < length s" using ih v'(2) utf8_step_width [OF Inr] by auto
    ultimately show ?thesis using ih v'(2) by (simp add: is_str_def add.commute)
  qed
qed

lemma utf8_error_more:
  assumes "utf8_error s = Some (v, Some k)"
  shows "utf8_error (s @ t) = Some (v, Some k)"
proof -
  have s: "is_str (take v s)" "utf8_step (drop v s) = Inl (Some k)" "v < length s" using utf8_error_Some [OF assms] by auto
  have "utf8_error (drop v s @ t) = Some (0, Some k)"
    using s utf8_step_append [of "drop v s" t] by (intro utf8_error_stuck) auto
  then have "utf8_error (take v s @ drop v s @ t) = Some (v, Some k)"
    using utf8_error_append [OF s(1), of "drop v s @ t"] s(3) by simp
  moreover have "take v s @ drop v s @ t = s @ t" by (metis append.assoc append_take_drop_id)
  ultimately show ?thesis by simp
qed

subsection \<open>Strings\<close>

lemma is_str_append: "is_str s \<Longrightarrow> is_str (s @ t) \<longleftrightarrow> is_str t"
  by (simp add: is_str_def utf8_error_append)

lemma cont_width: "is_cont c \<Longrightarrow> utf8_width c = 0"
  by (simp add: is_cont_def utf8_width_def byte_range_def)

lemma is_str_hd: "is_str (c # s) \<Longrightarrow> \<not> is_cont c"
  using cont_width [of c] utf8_error_stuck [of "c # s" "Some 1"]
  by (auto simp: is_str_def utf8_step.simps)

lemma tail_good_stop: "\<not> is_cont c \<Longrightarrow> tail_good a (u @ c # v) \<le> length u"
  using second_ok_cont [of a c] le_trans [OF length_takeWhile_le]
  by (cases u) (auto simp: takeWhile_append)

text \<open>An incomplete character is not completed by the start of another one.\<close>

lemma incomplete_stop:
  assumes "utf8_step s = Inl None" and "s \<noteq> []" and "\<not> is_cont c"
  shows "\<exists>e. utf8_step (s @ c # t) = Inl e"
proof (cases s)
  case (Cons a u)
  let ?w = "utf8_width a"
  have "length u < ?w - 1" "tail_good a u = length u"
    using assms(1) tail_good_le [of a u] tail_good_le [of a "take (?w - 1) u"] unfolding Cons
    by (auto simp: utf8_step.simps Let_def split: if_splits)
  then obtain k where "?w - 1 - length u = Suc k" by (metis Suc_diff_Suc)
  then have "take (?w - 1) (u @ c # t) = u @ c # take k t" using \<open>length u < ?w - 1\<close> by simp
  then have "tail_good a (take (?w - 1) (u @ c # t)) < ?w - 1"
    using tail_good_stop [OF assms(3), of a u "take k t"] \<open>length u < ?w - 1\<close> by simp
  then show ?thesis unfolding Cons by (cases "utf8_step (a # u @ c # t)") (auto simp: utf8_step_Inr)
qed (use assms in simp)

lemma is_str_cut:
  assumes "is_str (s @ t)" and "t = [] \<or> \<not> is_cont (hd t)"
  shows "is_str s \<and> is_str t"
proof (cases "utf8_error s")
  case None
  then show ?thesis using assms(1) is_str_append [of s t] by (simp add: is_str_def)
next
  case (Some x)
  obtain v e where s: "utf8_error s = Some (v, e)" using Some by (cases x) auto
  note u = utf8_error_Some [OF s]
  have st: "s @ t = take v s @ drop v s @ t" by (metis append.assoc append_take_drop_id)
  have "is_str (drop v s @ t)" using assms(1) is_str_append [of "take v s" "drop v s @ t"] u unfolding st by blast
  moreover have "\<exists>e. utf8_step (drop v s @ t) = Inl e"
  proof (cases e)
    case None
    then show ?thesis
      using assms(2) u incomplete_stop [of "drop v s" "hd t" "tl t"] by (cases t) auto
  next
    case (Some k)
    then show ?thesis using u utf8_step_append [of "drop v s" t] by auto
  qed
  ultimately show ?thesis using u utf8_error_stuck [of "drop v s @ t"] by (auto simp: is_str_def)
qed

lemma is_str_join: "is_str s \<Longrightarrow> is_str t \<Longrightarrow> is_str (s @ t)"
  by (simp add: is_str_append)

lemma is_str_suffix: "is_str (s @ t) \<Longrightarrow> is_str t \<Longrightarrow> is_str s"
  using is_str_cut [of s t] is_str_hd [of "hd t" "tl t"] by (cases t) auto

lemma is_str_starts: "is_str t \<Longrightarrow> t = [] \<or> \<not> is_cont (hd t)"
  using is_str_hd by (cases t) auto

end
