(* ===== verification/Stream_Text.thy ===== *)
theory Stream_Text
  imports Utf8_Text
begin

text \<open>
  Parsers for streamed text, from \<open>utils/stream-parser/src\<close>: the trait \<open>StreamTextParser\<close>
  (\<open>stream_text.rs\<close>) as the locale \<open>stream_text_parser\<close>, the parser for hidden inline tags
  (\<open>inline_hidden_tag.rs\<close>) and the citations it takes out of a text (\<open>citation.rs\<close>).
\<close>

record 'e text_chunk =
  tc_visible :: string
  tc_extracted :: "'e list"

definition empty_chunk :: "'e text_chunk" where
  "empty_chunk = \<lparr>tc_visible = [], tc_extracted = []\<rparr>"

definition chunk_is_empty :: "'e text_chunk \<Rightarrow> bool" where
  "chunk_is_empty c \<longleftrightarrow> tc_visible c = [] \<and> tc_extracted c = []"

definition chunk_join :: "'e text_chunk \<Rightarrow> 'e text_chunk \<Rightarrow> 'e text_chunk" where
  "chunk_join c d = \<lparr>tc_visible = tc_visible c @ tc_visible d, tc_extracted = tc_extracted c @ tc_extracted d\<rparr>"

lemma chunk_simps [simp]:
  "tc_visible empty_chunk = []" "tc_extracted empty_chunk = []"
  "tc_visible (chunk_join c d) = tc_visible c @ tc_visible d"
  "tc_extracted (chunk_join c d) = tc_extracted c @ tc_extracted d"
  "chunk_join empty_chunk d = d" "chunk_join c empty_chunk = c"
  by (simp_all add: empty_chunk_def chunk_join_def)

lemma chunk_join_assoc: "chunk_join (chunk_join a b) c = chunk_join a (chunk_join b c)"
  by (simp add: chunk_join_def)

text \<open>A whole text, one chunk after the other, and then the end.\<close>

fun push_all :: "('s \<Rightarrow> string \<Rightarrow> 'e text_chunk \<times> 's) \<Rightarrow> 's \<Rightarrow> string list \<Rightarrow> 'e text_chunk \<times> 's" where
  "push_all push s [] = (empty_chunk, s)"
| "push_all push s (x # xs) =
     (let (c, s) = push s x; (d, s) = push_all push s xs in (chunk_join c d, s))"

definition collect_chunks ::
  "('s \<Rightarrow> string \<Rightarrow> 'e text_chunk \<times> 's) \<Rightarrow> ('s \<Rightarrow> 'e text_chunk \<times> 's) \<Rightarrow> 's \<Rightarrow> string list \<Rightarrow> 'e text_chunk" where
  "collect_chunks push finish s xs = (let (c, s) = push_all push s xs in chunk_join c (fst (finish s)))"

subsection \<open>The contract\<close>

text \<open>
  What a parser promises: it only ever gives out whole characters, an empty chunk does nothing, and two chunks
  have the effect of their concatenation, up to a normal form of the extracted values (two adjacent pieces of
  text may come as one). \<open>ok\<close> is the invariant of its states.
\<close>

locale stream_text_parser =
  fixes push_str :: "'s \<Rightarrow> string \<Rightarrow> 'e text_chunk \<times> 's"
    and finish :: "'s \<Rightarrow> 'e text_chunk \<times> 's"
    and ok :: "'s \<Rightarrow> bool"
    and norm :: "'e list \<Rightarrow> 'e list"
  assumes push_ok: "ok s \<Longrightarrow> is_str x \<Longrightarrow> push_str s x = (c, s') \<Longrightarrow> ok s' \<and> is_str (tc_visible c)"
    and push_nil: "ok s \<Longrightarrow> push_str s [] = (empty_chunk, s)"
    and push_append: "ok s \<Longrightarrow> is_str x \<Longrightarrow> is_str y \<Longrightarrow> push_str s x = (c1, s1) \<Longrightarrow> push_str s1 y = (c2, s2) \<Longrightarrow>
      \<exists>c. push_str s (x @ y) = (c, s2) \<and> tc_visible c = tc_visible c1 @ tc_visible c2
        \<and> norm (tc_extracted c) = norm (tc_extracted c1 @ tc_extracted c2)"
    and norm_append: "norm xs = norm xs' \<Longrightarrow> norm ys = norm ys' \<Longrightarrow> norm (xs @ ys) = norm (xs' @ ys')"
    and finish_str: "ok s \<Longrightarrow> is_str (tc_visible (fst (finish s)))"
begin

definition same :: "'e text_chunk \<Rightarrow> 'e text_chunk \<Rightarrow> bool" where
  "same c d \<longleftrightarrow> tc_visible c = tc_visible d \<and> norm (tc_extracted c) = norm (tc_extracted d)"

lemma same_trans: "same a b \<Longrightarrow> same b c \<Longrightarrow> same a c" and same_sym: "same a b \<Longrightarrow> same b a"
  by (auto simp: same_def)

lemma same_join: "same a a' \<Longrightarrow> same b b' \<Longrightarrow> same (chunk_join a b) (chunk_join a' b')"
  by (auto simp: same_def intro: norm_append)

lemma push_all_whole:
  "ok s \<Longrightarrow> \<forall>x\<in>set xs. is_str x \<Longrightarrow> push_all push_str s xs = (c, s') \<Longrightarrow>
     ok s' \<and> is_str (tc_visible c) \<and> is_str (concat xs) \<and> (\<exists>c'. push_str s (concat xs) = (c', s') \<and> same c' c)"
proof (induction xs arbitrary: s c s')
  case Nil
  then show ?case using push_nil by (simp add: same_def)
next
  case (Cons x xs)
  obtain c1 s1 where 1: "push_str s x = (c1, s1)" by force
  obtain c2 s2 where 2: "push_all push_str s1 xs = (c2, s2)" by force
  have o1: "ok s1" "is_str (tc_visible c1)" using push_ok [OF Cons.prems(1) _ 1] Cons.prems(2) by auto
  with Cons.IH [OF _ _ 2] Cons.prems obtain c2' where
    ih: "ok s2" "is_str (tc_visible c2)" "is_str (concat xs)" "push_str s1 (concat xs) = (c2', s2)" "same c2' c2" by auto
  obtain c' where c': "push_str s (x @ concat xs) = (c', s2)" "same c' (chunk_join c1 c2')"
    using push_append [OF Cons.prems(1) _ ih(3) 1 ih(4)] Cons.prems(2) by (auto simp: same_def)
  have "c = chunk_join c1 c2" "s' = s2" using Cons.prems(3) by (simp_all add: 1 2)
  moreover have "same c' (chunk_join c1 c2)"
    using c'(2) same_join [OF _ ih(5), of c1 c1] same_trans by (auto simp: same_def)
  ultimately show ?case using ih o1 c'(1) Cons.prems(2) by (auto intro: is_str_join)
qed

text \<open>How a text is cut into chunks does not matter.\<close>

lemma chunking_irrelevant:
  assumes "ok s" and "\<forall>x\<in>set xs. is_str x" and "\<forall>x\<in>set ys. is_str x" and "concat xs = concat ys"
  shows "same (collect_chunks push_str finish s xs) (collect_chunks push_str finish s ys)"
proof -
  obtain c s1 where x: "push_all push_str s xs = (c, s1)" by force
  obtain d s2 where y: "push_all push_str s ys = (d, s2)" by force
  obtain c' d' where "push_str s (concat xs) = (c', s1)" "same c' c" "push_str s (concat ys) = (d', s2)" "same d' d"
    using push_all_whole [OF assms(1,2) x] push_all_whole [OF assms(1,3) y] by blast
  then have "s1 = s2" "same c d" using assms(4) by (simp_all add: same_def)
  then show ?thesis by (auto simp: collect_chunks_def x y same_def intro: norm_append)
qed

lemma collect_one: "ok s \<Longrightarrow> is_str x \<Longrightarrow> collect_chunks push_str finish s [x]
    = (case push_str s x of (c, s') \<Rightarrow> chunk_join c (fst (finish s')))"
  by (simp add: collect_chunks_def split: prod.split)

end

subsection \<open>Searching\<close>

text \<open>Slicing the needle is guarded by the test for a boundary.\<close>

definition longest_suffix_prefix_len :: "string \<Rightarrow> string \<Rightarrow> nat" where
  "longest_suffix_prefix_len s needle =
     (let max = min (length s) (length needle - 1)
      in case find (\<lambda>k. is_char_boundary needle k \<and> ends_with s (take k needle)) (rev [1..<Suc max]) of
           Some k \<Rightarrow> k
         | None \<Rightarrow> 0)"

fun min_by :: "('a \<Rightarrow> 'a \<Rightarrow> bool) \<Rightarrow> 'a list \<Rightarrow> 'a option" where
  "min_by lt [] = None"
| "min_by lt (x # xs) = Some (foldl (\<lambda>a b. if lt b a then b else a) x xs)"

subsection \<open>Hidden inline tags\<close>

record 't inline_tag_spec =
  it_tag :: 't
  it_open :: string
  it_close :: string

record 't extracted_tag =
  et_tag :: 't
  et_content :: string

record 't active_tag =
  at_tag :: 't
  at_close :: string
  at_content :: string

record 't inline_parser =
  ip_specs :: "'t inline_tag_spec list"
  ip_pending :: string
  ip_active :: "'t active_tag option"

text \<open>\<open>None\<close> is the failed assertion.\<close>

definition inline_new :: "'t inline_tag_spec list \<Rightarrow> 't inline_parser option" where
  "inline_new specs =
     (if specs = [] then None
      else if list_ex (\<lambda>spec. it_open spec = [] \<or> it_close spec = []) specs then None
      else Some \<lparr>ip_specs = specs, ip_pending = [], ip_active = None\<rparr>)"

definition open_before :: "nat \<times> nat \<times> nat \<Rightarrow> nat \<times> nat \<times> nat \<Rightarrow> bool" where
  "open_before a b =
     (case (a, b) of ((pos_a, len_a, idx_a), (pos_b, len_b, idx_b)) \<Rightarrow>
        pos_a < pos_b \<or> pos_a = pos_b \<and> (len_b < len_a \<or> len_a = len_b \<and> idx_a < idx_b))"

definition find_next_open :: "'t inline_tag_spec list \<Rightarrow> string \<Rightarrow> (nat \<times> nat) option" where
  "find_next_open specs pending =
     map_option (\<lambda>(pos, _, idx). (pos, idx))
       (min_by open_before
         (List.map_filter (\<lambda>(idx, spec). map_option (\<lambda>pos. (pos, length (it_open spec), idx)) (str_find (it_open spec) pending))
           (List.enumerate 0 specs)))"

definition max_open_prefix_suffix_len :: "'t inline_tag_spec list \<Rightarrow> string \<Rightarrow> nat" where
  "max_open_prefix_suffix_len specs pending = foldr max (map (\<lambda>spec. longest_suffix_prefix_len pending (it_open spec)) specs) 0"

definition drain_visible_to_suffix_match :: "'t extracted_tag text_chunk \<Rightarrow> string \<Rightarrow> nat \<Rightarrow> 't extracted_tag text_chunk \<times> string" where
  "drain_visible_to_suffix_match out pending keep_suffix_len =
     (let take_len = length pending - keep_suffix_len
      in (out\<lparr>tc_visible := tc_visible out @ take take_len pending\<rparr>, drop take_len pending))"

lemma min_by_in: "min_by lt xs = Some x \<Longrightarrow> x \<in> set xs"
proof -
  have "foldl (\<lambda>a b. if lt b a then b else a) a ys \<in> insert a (set ys)" for a ys
    by (induction ys arbitrary: a) auto
  then show "min_by lt xs = Some x \<Longrightarrow> ?thesis" by (cases xs) auto
qed

lemma find_next_open_idx:
  "find_next_open specs pending = Some (pos, idx) \<Longrightarrow> idx < length specs \<and> str_find (it_open (specs ! idx)) pending = Some pos"
  unfolding find_next_open_def
  by (auto dest!: min_by_in simp: set_map_filter in_set_enumerate_eq)

lemma str_find_Some: "str_find n s = Some i \<Longrightarrow> i + length n \<le> length s \<and> take (length n) (drop i s) = n"
proof (induction s arbitrary: i)
  case (Cons c s)
  show ?case
  proof (cases "starts_with (c # s) n")
    case True
    then have "i = 0" "take (length n) (c # s) = n" using Cons.prems by (simp_all add: starts_with_def)
    moreover from this(2) have "length n \<le> length (c # s)" by (metis length_take min.cobounded1)
    ultimately show ?thesis by simp
  qed (use Cons in auto)
qed (auto split: if_splits)

lemma open_shrinks:
  assumes "\<not> list_ex (\<lambda>spec. it_open spec = []) specs" and "find_next_open specs p = Some (i, j)"
  shows "length (drop (i + length (it_open (specs ! j))) p) < length p"
proof -
  have j: "j < length specs" "str_find (it_open (specs ! j)) p = Some i" using find_next_open_idx [OF assms(2)] by auto
  then have "it_open (specs ! j) \<noteq> []" using assms(1) by (auto simp: list_ex_iff)
  then show ?thesis using str_find_Some [OF j(2)] by (cases "it_open (specs ! j)") auto
qed

text \<open>The loop of \<open>push_str\<close>. A parser with an empty opening delimiter does not exist (\<open>inline_new\<close>); the
  first line stands for that.\<close>

function inline_loop ::
  "'t inline_tag_spec list \<Rightarrow> string \<Rightarrow> 't active_tag option \<Rightarrow> 't extracted_tag text_chunk
     \<Rightarrow> 't extracted_tag text_chunk \<times> string \<times> 't active_tag option" where
  "inline_loop specs pending active out =
     (if list_ex (\<lambda>spec. it_open spec = []) specs then (out, pending, active)
      else case active of
        Some tag \<Rightarrow>
          (case str_find (at_close tag) pending of
             Some close_idx \<Rightarrow>
               inline_loop specs (drop (close_idx + length (at_close tag)) pending) None
                 (out\<lparr>tc_extracted := tc_extracted out @
                    [\<lparr>et_tag = at_tag tag, et_content = at_content tag @ take close_idx pending\<rparr>]\<rparr>)
           | None \<Rightarrow>
               (let keep = longest_suffix_prefix_len pending (at_close tag);
                    take_len = length pending - keep
                in (out, drop take_len pending, Some (tag\<lparr>at_content := at_content tag @ take take_len pending\<rparr>))))
      | None \<Rightarrow>
          (case find_next_open specs pending of
             Some (open_idx, spec_idx) \<Rightarrow>
               (let spec = specs ! spec_idx
                in inline_loop specs (drop (open_idx + length (it_open spec)) pending)
                     (Some \<lparr>at_tag = it_tag spec, at_close = it_close spec, at_content = []\<rparr>)
                     (out\<lparr>tc_visible := tc_visible out @ take open_idx pending\<rparr>))
           | None \<Rightarrow>
               (let (out, pending) = drain_visible_to_suffix_match out pending (max_open_prefix_suffix_len specs pending)
                in (out, pending, None))))"
  by pat_completeness auto
termination
proof (relation "measure (\<lambda>(specs, pending, active, out). 2 * length pending + (if active = None then 0 else 1))", simp, goal_cases)
  case (1 specs pending active out x i j spec)
  then show ?case using open_shrinks [of specs pending i j] by simp
qed simp

declare inline_loop.simps [simp del]

definition inline_push_str :: "'t inline_parser \<Rightarrow> string \<Rightarrow> 't extracted_tag text_chunk \<times> 't inline_parser" where
  "inline_push_str p chunk =
     (let (out, pending, active) = inline_loop (ip_specs p) (ip_pending p @ chunk) (ip_active p) empty_chunk
      in (out, p\<lparr>ip_pending := pending, ip_active := active\<rparr>))"

definition inline_finish :: "'t inline_parser \<Rightarrow> 't extracted_tag text_chunk \<times> 't inline_parser" where
  "inline_finish p =
     (case ip_active p of
        Some tag \<Rightarrow>
          (\<lparr>tc_visible = [], tc_extracted = [\<lparr>et_tag = at_tag tag, et_content = at_content tag @ ip_pending p\<rparr>]\<rparr>,
           p\<lparr>ip_pending := [], ip_active := None\<rparr>)
      | None \<Rightarrow> (\<lparr>tc_visible = ip_pending p, tc_extracted = []\<rparr>, p\<lparr>ip_pending := []\<rparr>))"

subsection \<open>Citations\<close>

datatype citation_tag = Citation

definition CITATION_OPEN :: string where
  "CITATION_OPEN = ''<oai-mem-citation>''"

definition CITATION_CLOSE :: string where
  "CITATION_CLOSE = ''</oai-mem-citation>''"

type_synonym citation_parser = "citation_tag inline_parser"

definition citation_new :: citation_parser where
  "citation_new =
     \<lparr>ip_specs = [\<lparr>it_tag = Citation, it_open = CITATION_OPEN, it_close = CITATION_CLOSE\<rparr>], ip_pending = [], ip_active = None\<rparr>"

definition citation_contents :: "citation_tag extracted_tag text_chunk \<Rightarrow> string text_chunk" where
  "citation_contents inner = \<lparr>tc_visible = tc_visible inner, tc_extracted = map et_content (tc_extracted inner)\<rparr>"

definition citation_push_str :: "citation_parser \<Rightarrow> string \<Rightarrow> string text_chunk \<times> citation_parser" where
  "citation_push_str p chunk = (let (inner, p) = inline_push_str p chunk in (citation_contents inner, p))"

definition citation_finish :: "citation_parser \<Rightarrow> string text_chunk \<times> citation_parser" where
  "citation_finish p = (let (inner, p) = inline_finish p in (citation_contents inner, p))"

definition strip_citations :: "string \<Rightarrow> string \<times> string list" where
  "strip_citations s =
     (let (out, p) = citation_push_str citation_new s;
          (tail, p) = citation_finish p
      in (tc_visible out @ tc_visible tail, tc_extracted out @ tc_extracted tail))"

end
