(* ===== verification/Stream_Tags.thy ===== *)
theory Stream_Tags
  imports Stream_Text
begin

text \<open>
  The parser for hidden inline tags keeps the contract of a stream parser: what it holds back is exactly what
  may still become a delimiter. With several tags this needs that no opening delimiter occurs inside another
  one; the citation parser has one tag only.
\<close>

subsection \<open>Occurrences\<close>

definition occurs :: "string \<Rightarrow> string \<Rightarrow> nat \<Rightarrow> bool" where
  "occurs n s i \<longleftrightarrow> i + length n \<le> length s \<and> take (length n) (drop i s) = n"

lemma occurs_left: "i + length n \<le> length p \<Longrightarrow> occurs n (p @ y) i \<longleftrightarrow> occurs n p i"
  by (simp add: occurs_def)

lemma occurs_right: "occurs n (q @ z) (length q + j) \<longleftrightarrow> occurs n z j"
  by (auto simp: occurs_def)

lemma occurs_split: "occurs n s i \<longleftrightarrow> (\<exists>a b. s = a @ n @ b \<and> length a = i)"
proof
  assume "occurs n s i"
  then have "s = take i s @ n @ drop (i + length n) s" "length (take i s) = i"
    unfolding occurs_def by (metis append_take_drop_id drop_drop add.commute, simp)
  then show "\<exists>a b. s = a @ n @ b \<and> length a = i" by blast
qed (auto simp: occurs_def)

lemma str_find_least: "str_find n s = Some i \<longleftrightarrow> occurs n s i \<and> (\<forall>j<i. \<not> occurs n s j)"
proof (induction s arbitrary: i)
  case Nil
  show ?case by (auto simp: occurs_def)
next
  case (Cons c s)
  have 0: "starts_with (c # s) n \<longleftrightarrow> occurs n (c # s) 0"
    by (auto simp: starts_with_def occurs_def) (metis length_take min.cobounded1 length_Cons)
  have S: "occurs n (c # s) (Suc k) \<longleftrightarrow> occurs n s k" for k by (simp add: occurs_def)
  show ?case
  proof (cases i)
    case (Suc k)
    have "(\<forall>j<Suc k. \<not> occurs n (c # s) j) \<longleftrightarrow> \<not> occurs n (c # s) 0 \<and> (\<forall>j<k. \<not> occurs n s j)"
      by (auto simp: less_Suc_eq_0_disj S)
    then show ?thesis using Cons [of k] Suc by (auto simp: 0 S)
  qed (simp add: 0)
qed

lemma str_find_none: "str_find n s = None \<longleftrightarrow> (\<forall>i. \<not> occurs n s i)"
proof
  assume "str_find n s = None"
  then show "\<forall>i. \<not> occurs n s i"
    using str_find_least [of n s] exists_least_iff [of "occurs n s"] by auto
next
  assume "\<forall>i. \<not> occurs n s i"
  then show "str_find n s = None" using str_find_least [of n s] by (cases "str_find n s") auto
qed

lemma str_find_append: "str_find n p = Some i \<Longrightarrow> str_find n (p @ y) = Some i"
  unfolding str_find_least using occurs_left [of _ n p y] by (auto simp: occurs_def)

subsection \<open>What is held back\<close>

definition candidate :: "string \<Rightarrow> string \<Rightarrow> nat \<Rightarrow> bool" where
  "candidate s n k \<longleftrightarrow> 1 \<le> k \<and> k \<le> length s \<and> k < length n \<and> is_char_boundary n k \<and> ends_with s (take k n)"

lemma lsp_candidate: "longest_suffix_prefix_len s n = 0 \<or> candidate s n (longest_suffix_prefix_len s n)"
proof -
  have found: "find P xs = Some x \<Longrightarrow> x \<in> set xs \<and> P x" for P and xs :: "nat list" and x
    by (induction xs) (auto split: if_splits)
  show ?thesis
    by (auto simp: longest_suffix_prefix_len_def candidate_def Let_def dest!: found split: option.split)
qed

lemma lsp_greatest: "candidate s n k \<Longrightarrow> k \<le> longest_suffix_prefix_len s n"
proof -
  assume c: "candidate s n k"
  let ?xs = "rev [1..<Suc (min (length s) (length n - 1))]"
  let ?P = "\<lambda>k. is_char_boundary n k \<and> ends_with s (take k n)"
  have k: "k \<in> set ?xs" "?P k" using c by (auto simp: candidate_def)
  then obtain j where j: "find ?P ?xs = Some j" by (metis find_None_iff option.exhaust)
  have "find ?P (rev [1..<Suc m]) = Some j \<Longrightarrow> k \<in> set (rev [1..<Suc m]) \<Longrightarrow> k \<le> j" for m
    using k(2) by (induction m) (auto split: if_splits)
  then have "k \<le> j" using j k(1) by blast
  then show ?thesis using j by (simp add: longest_suffix_prefix_len_def Let_def)
qed

lemma lsp_cong: "(\<And>k. candidate s n k \<longleftrightarrow> candidate t n k) \<Longrightarrow> longest_suffix_prefix_len s n = longest_suffix_prefix_len t n"
  using lsp_candidate [of s n] lsp_candidate [of t n] lsp_greatest [of s n] lsp_greatest [of t n]
  by (metis antisym le_zero_eq zero_le)

lemma lsp_le: "longest_suffix_prefix_len s n \<le> length s"
  using lsp_candidate [of s n] by (auto simp: candidate_def)

text \<open>The suffix that is held back is the beginning of the delimiter.\<close>

lemma held_back:
  assumes "s = q @ p" and "length p = longest_suffix_prefix_len s n"
  shows "p = take (length p) n \<and> longest_suffix_prefix_len p n = length p"
proof (cases "p = []")
  case True
  then show ?thesis using lsp_le [of p n] by simp
next
  case False
  then have c: "candidate s n (length p)" using lsp_candidate [of s n] assms(2) by auto
  then have "p = take (length p) n" using assms(1) by (auto simp: candidate_def ends_with_iff min_def)
  moreover from this have "candidate p n (length p)"
    using c by (auto simp: candidate_def ends_with_iff)
  then have "length p \<le> longest_suffix_prefix_len p n" by (rule lsp_greatest)
  ultimately show ?thesis using lsp_le [of p n] by simp
qed

text \<open>A delimiter that starts in the old text and ends in the new one starts in what was held back.\<close>

lemma crossing_candidate:
  assumes "i < length p" and "length p < i + length n" and "take (length n) (drop i (p @ y)) = take (length n) n"
    and "i + length n \<le> length (p @ y)" and "y = [] \<or> \<not> is_cont (hd y)"
  shows "candidate p n (length p - i)"
proof -
  let ?k = "length p - i"
  have y: "y \<noteq> []" using assms(2,4) by auto
  have n: "n = drop i p @ take (length n - ?k) y" using assms(1-3) by simp
  have "take ?k n = drop i p" by (subst n) simp
  moreover have "n ! ?k = hd y"
    by (subst n) (use assms(1,2) y in \<open>simp add: nth_append hd_conv_nth\<close>)
  ultimately show ?thesis
    using assms(1,2,5) y by (auto simp: candidate_def is_char_boundary_def ends_with_def)
qed

text \<open>So the text before it can be given out, and the search goes on with what was held back.\<close>

lemma search_goes_on:
  assumes "str_find n p = None" and "p = q @ h" and "longest_suffix_prefix_len p n \<le> length h"
    and "y = [] \<or> \<not> is_cont (hd y)"
  shows "str_find n (p @ y) = map_option ((+) (length q)) (str_find n (h @ y))"
proof -
  have start: "length q \<le> i" if o: "occurs n (p @ y) i" for i
  proof (rule ccontr)
    assume i: "\<not> length q \<le> i"
    show False
    proof (cases "i + length n \<le> length p")
      case True
      then show False using o occurs_left [of i n p y] assms(1) by (auto simp: str_find_none)
    next
      case False
      then have "candidate p n (length p - i)"
        using o i assms(2,4) by (intro crossing_candidate) (auto simp: occurs_def)
      then show False using lsp_greatest assms(2,3) i by fastforce
    qed
  qed
  have shift: "occurs n (p @ y) (length q + j) \<longleftrightarrow> occurs n (h @ y) j" for j
    using occurs_right [of n q "h @ y" j] assms(2) by simp
  show ?thesis
  proof (cases "str_find n (h @ y)")
    case None
    then have "\<not> occurs n (p @ y) i" for i
      using start [of i] shift [of "i - length q"] by (auto simp: str_find_none)
    then have "str_find n (p @ y) = None" by (simp add: str_find_none)
    then show ?thesis using None by simp
  next
    case (Some j)
    then have "occurs n (h @ y) j" "\<forall>k<j. \<not> occurs n (h @ y) k" by (auto simp: str_find_least)
    moreover from this have "\<not> occurs n (p @ y) i" if "i < length q + j" for i
      using start [of i] shift [of "i - length q"] that by auto
    ultimately have "str_find n (p @ y) = Some (length q + j)" unfolding str_find_least using shift by blast
    then show ?thesis using Some by simp
  qed
qed

lemma hold_goes_on:
  assumes "p = q @ h" and "longest_suffix_prefix_len p n \<le> length h" and "y = [] \<or> \<not> is_cont (hd y)"
  shows "longest_suffix_prefix_len (p @ y) n = longest_suffix_prefix_len (h @ y) n"
proof (rule lsp_cong)
  fix k
  have "k \<le> length (h @ y)" if c: "candidate (p @ y) n k"
  proof (rule ccontr)
    assume k: "\<not> k \<le> length (h @ y)"
    let ?m = "k - length y"
    obtain t where t: "p @ y = t @ take k n" "k < length n" "is_char_boundary n k" using c by (auto simp: candidate_def ends_with_iff)
    have take_k: "length (take k n) = k" using t(2) by simp
    have "p = t @ take ?m n \<and> y = drop ?m (take k n)"
    proof -
      have "p @ y = (t @ take ?m (take k n)) @ drop ?m (take k n)"
        unfolding append.assoc append_take_drop_id by (rule t(1))
      moreover have "length y = length (drop ?m (take k n))" using k take_k by simp
      ultimately have "p = t @ take ?m (take k n)" "y = drop ?m (take k n)" by (metis append_eq_append_conv)+
      then show ?thesis by (simp add: min_def)
    qed
    moreover have "hd (drop ?m (take k n)) = n ! ?m" if "y \<noteq> []"
      using k t(2) that by (subst hd_drop_conv_nth) auto
    ultimately have "p = t @ take ?m n" "y \<noteq> [] \<Longrightarrow> hd y = n ! ?m" by metis+
    then have "candidate p n ?m"
      using t k assms(3)
      by (cases "y = []") (auto simp: candidate_def ends_with_iff is_char_boundary_def min_def split: if_splits)
    then show False using lsp_greatest assms(2) k by fastforce
  qed
  moreover have "k \<le> length (h @ y) \<Longrightarrow> ends_with (p @ y) (take k n) \<longleftrightarrow> ends_with (h @ y) (take k n)"
    using assms(1) by (auto simp: ends_with_def)
  ultimately show "candidate (p @ y) n k \<longleftrightarrow> candidate (h @ y) n k"
    using assms(1) by (auto simp: candidate_def)
qed

subsection \<open>The next opening delimiter\<close>

definition opens_separate :: "'t inline_tag_spec list \<Rightarrow> bool" where
  "opens_separate specs \<longleftrightarrow>
     (\<forall>s\<in>set specs. \<forall>t\<in>set specs. \<forall>i. occurs (it_open s) (it_open t) i \<longrightarrow> it_open s = it_open t)"

abbreviation open_places :: "'t inline_tag_spec list \<Rightarrow> string \<Rightarrow> (nat \<times> nat \<times> nat) list" where
  "open_places specs p \<equiv>
     List.map_filter (\<lambda>(idx, spec). map_option (\<lambda>pos. (pos, length (it_open spec), idx)) (str_find (it_open spec) p))
       (List.enumerate 0 specs)"

lemma open_places_iff:
  "(pos, len, idx) \<in> set (open_places specs p) \<longleftrightarrow>
     idx < length specs \<and> len = length (it_open (specs ! idx)) \<and> str_find (it_open (specs ! idx)) p = Some pos"
proof
  assume "(pos, len, idx) \<in> set (open_places specs p)"
  then show "idx < length specs \<and> len = length (it_open (specs ! idx)) \<and> str_find (it_open (specs ! idx)) p = Some pos"
    by (auto simp: set_map_filter in_set_enumerate_eq)
next
  assume a: "idx < length specs \<and> len = length (it_open (specs ! idx)) \<and> str_find (it_open (specs ! idx)) p = Some pos"
  then have "(idx, specs ! idx) \<in> set (List.enumerate 0 specs)" by (simp add: in_set_enumerate_eq)
  with a show "(pos, len, idx) \<in> set (open_places specs p)" by (force simp: set_map_filter)
qed

lemma min_by_None: "min_by lt xs = None \<longleftrightarrow> xs = []"
  by (cases xs) auto

lemma min_by_map:
  assumes "\<And>a b. lt (f a) (f b) \<longleftrightarrow> lt a b"
  shows "min_by lt (map f xs) = map_option f (min_by lt xs)"
proof -
  have "foldl (\<lambda>a b. if lt b a then b else a) (f a) (map f ys) = f (foldl (\<lambda>a b. if lt b a then b else a) a ys)" for a ys
    using assms by (induction ys arbitrary: a) auto
  then show ?thesis by (cases xs) auto
qed

lemma open_before_weak: "\<not> open_before b a \<Longrightarrow> \<not> open_before c b \<Longrightarrow> \<not> open_before c a"
  by (cases a; cases b; cases c) (auto simp: open_before_def)

lemma open_before_linear: "\<not> open_before a b \<Longrightarrow> \<not> open_before b a \<Longrightarrow> a = b"
  by (cases a; cases b) (auto simp: open_before_def)

lemma min_by_least: "min_by open_before xs = Some x \<Longrightarrow> y \<in> set xs \<Longrightarrow> \<not> open_before y x"
proof -
  have irrefl: "\<not> open_before a a" for a by (cases a) (simp add: open_before_def)
  have "\<forall>y\<in>insert a (set ys). \<not> open_before y (foldl (\<lambda>a b. if open_before b a then b else a) a ys)" for a ys
  proof (induction ys arbitrary: a)
    case (Cons b ys)
    let ?c = "if open_before b a then b else a"
    have ab: "\<not> open_before a ?c" "\<not> open_before b ?c"
      using irrefl open_before_weak [of b a b] by (cases a; cases b; auto simp: open_before_def)+
    let ?f = "foldl (\<lambda>a b. if open_before b a then b else a) ?c ys"
    have c: "\<not> open_before ?c ?f" and ys: "\<forall>y\<in>set ys. \<not> open_before y ?f" using Cons [of ?c] by blast+
    have "\<not> open_before a ?f" "\<not> open_before b ?f" using open_before_weak [OF c] ab by blast+
    then show ?case using ys by simp
  qed (simp add: irrefl)
  then show "min_by open_before xs = Some x \<Longrightarrow> y \<in> set xs \<Longrightarrow> ?thesis" by (cases xs) auto
qed

lemma min_by_eq: "x \<in> set xs \<Longrightarrow> (\<And>y. y \<in> set xs \<Longrightarrow> \<not> open_before y x) \<Longrightarrow> min_by open_before xs = Some x"
proof -
  assume x: "x \<in> set xs" and least: "\<And>y. y \<in> set xs \<Longrightarrow> \<not> open_before y x"
  obtain z where z: "min_by open_before xs = Some z" using x min_by_None [of open_before xs] by (cases "min_by open_before xs") auto
  have "z = x" using open_before_linear least min_by_in [OF z] min_by_least [OF z x] by blast
  then show ?thesis using z by simp
qed

lemma find_next_open_None:
  "find_next_open specs p = None \<longleftrightarrow> (\<forall>spec\<in>set specs. str_find (it_open spec) p = None)"
proof -
  have "open_places specs p = [] \<longleftrightarrow> (\<forall>pos len idx. (pos, len, idx) \<notin> set (open_places specs p))"
    by (cases "open_places specs p") auto
  also have "\<dots> \<longleftrightarrow> (\<forall>idx<length specs. str_find (it_open (specs ! idx)) p = None)"
    unfolding open_places_iff by (auto simp: not_Some_eq [symmetric] simp del: not_Some_eq)
  also have "\<dots> \<longleftrightarrow> (\<forall>spec\<in>set specs. str_find (it_open spec) p = None)"
    by (metis in_set_conv_nth)
  finally show ?thesis by (simp add: find_next_open_def min_by_None)
qed

text \<open>More text does not change which delimiter comes first.\<close>

lemma find_next_open_append:
  assumes "opens_separate specs" and "find_next_open specs p = Some (i, j)"
  shows "find_next_open specs (p @ y) = Some (i, j)"
proof -
  obtain l where l: "min_by open_before (open_places specs p) = Some (i, l, j)"
    using assms(2) by (auto simp: find_next_open_def)
  then have j: "j < length specs" "l = length (it_open (specs ! j))" "str_find (it_open (specs ! j)) p = Some i"
    using min_by_in [OF l] unfolding open_places_iff by auto
  have "\<not> open_before (i', l', j') (i, l, j)" if m: "(i', l', j') \<in> set (open_places specs (p @ y))" for i' l' j'
  proof
    assume b: "open_before (i', l', j') (i, l, j)"
    let ?n = "it_open (specs ! j)" and ?m = "it_open (specs ! j')"
    have m: "j' < length specs" "l' = length ?m" "str_find ?m (p @ y) = Some i'" using m unfolding open_places_iff by auto
    have o: "occurs ?n (p @ y) i" "i + length ?n \<le> length p" "occurs ?m (p @ y) i'" "\<forall>k<i'. \<not> occurs ?m (p @ y) k"
      using j(3) m(3) occurs_left [of i ?n p y] unfolding str_find_least by (auto simp: occurs_def)
    show False
    proof (cases "i' + length ?m \<le> length p")
      case True
      then have "occurs ?m p i'" "\<forall>k<i'. \<not> occurs ?m p k" using o(3,4) occurs_left [of _ ?m p y] by auto
      then have "str_find ?m p = Some i'" unfolding str_find_least by blast
      then have "(i', l', j') \<in> set (open_places specs p)" using m unfolding open_places_iff by blast
      then show False using min_by_least [OF l] b by blast
    next
      case False
      then have le: "i' \<le> i" "i + length ?n < i' + length ?m" using b o(2) by (auto simp: open_before_def)
      have "take (length ?n) (drop (i - i') ?m) = ?n"
      proof -
        have "?m = take (length ?m) (drop i' (p @ y))" using o(3) by (simp add: occurs_def)
        then have "drop (i - i') ?m = drop (i - i') (take (length ?m) (drop i' (p @ y)))" by simp
        also have "\<dots> = take (length ?m - (i - i')) (drop i (p @ y))"
        proof -
          have "drop (i - i') (take k (drop i' z)) = take (k - (i - i')) (drop i z)" for k and z :: string
            using le(1) by (simp add: drop_take)
          then show ?thesis .
        qed
        finally have "drop (i - i') ?m = take (length ?m - (i - i')) (drop i (p @ y))" .
        then have "take (length ?n) (drop (i - i') ?m) = take (length ?n) (drop i (p @ y))"
          using le by (simp add: min_def)
        then show ?thesis using o(1) by (simp add: occurs_def)
      qed
      then have "occurs ?n ?m (i - i')" using le by (simp add: occurs_def)
      then have "?n = ?m" using assms(1) j(1) m(1) nth_mem unfolding opens_separate_def by blast
      then show False using le by simp
    qed
  qed
  moreover have "(i, l, j) \<in> set (open_places specs (p @ y))"
    using j str_find_append unfolding open_places_iff by blast
  ultimately have "min_by open_before (open_places specs (p @ y)) = Some (i, l, j)" by (intro min_by_eq) auto
  then show ?thesis by (simp add: find_next_open_def)
qed

lemma find_next_open_goes_on:
  assumes "\<And>spec. spec \<in> set specs \<Longrightarrow> str_find (it_open spec) (p @ y) = map_option ((+) k) (str_find (it_open spec) (h @ y))"
  shows "find_next_open specs (p @ y) = map_option (\<lambda>(i, j). (k + i, j)) (find_next_open specs (h @ y))"
proof -
  let ?f = "\<lambda>(i :: nat, l :: nat, j :: nat). (k + i, l, j)"
  have mf: "List.map_filter g xs = map f (List.map_filter h xs)" if "\<And>x. x \<in> set xs \<Longrightarrow> g x = map_option f (h x)"
    for g h :: "nat \<times> 't inline_tag_spec \<Rightarrow> (nat \<times> nat \<times> nat) option" and f xs
    using that by (induction xs) (auto simp: List.map_filter_simps split: option.splits)
  have "open_places specs (p @ y) = map ?f (open_places specs (h @ y))"
    by (rule mf) (auto simp: in_set_enumerate_eq assms option.map_comp comp_def)
  then have "min_by open_before (open_places specs (p @ y)) = map_option ?f (min_by open_before (open_places specs (h @ y)))"
    using min_by_map [of open_before ?f "open_places specs (h @ y)"] by (auto simp: open_before_def)
  then show ?thesis by (simp add: find_next_open_def option.map_comp comp_def case_prod_unfold)
qed

subsection \<open>One run of the loop\<close>

abbreviation run :: "'t inline_tag_spec list \<Rightarrow> string \<Rightarrow> 't active_tag option
    \<Rightarrow> 't extracted_tag text_chunk \<times> string \<times> 't active_tag option" where
  "run specs p a \<equiv> inline_loop specs p a empty_chunk"

definition after :: "'t extracted_tag text_chunk \<Rightarrow> 't extracted_tag text_chunk \<times> string \<times> 't active_tag option
    \<Rightarrow> 't extracted_tag text_chunk \<times> string \<times> 't active_tag option" where
  "after c r = (chunk_join c (fst r), snd r)"

lemma after_simps [simp]:
  "after c (after d r) = after (chunk_join c d) r" "after empty_chunk r = r" "after c (d, r') = (chunk_join c d, r')"
  by (simp_all add: after_def chunk_join_assoc)

definition tag_chunk :: "'t active_tag \<Rightarrow> string \<Rightarrow> 't extracted_tag text_chunk" where
  "tag_chunk tag s = \<lparr>tc_visible = [], tc_extracted = [\<lparr>et_tag = at_tag tag, et_content = at_content tag @ s\<rparr>]\<rparr>"

definition text_chunk :: "string \<Rightarrow> 'e text_chunk" where
  "text_chunk s = \<lparr>tc_visible = s, tc_extracted = []\<rparr>"

definition start_tag :: "'t inline_tag_spec \<Rightarrow> 't active_tag" where
  "start_tag spec = \<lparr>at_tag = it_tag spec, at_close = it_close spec, at_content = []\<rparr>"

lemma out_chunk:
  "(out\<lparr>tc_visible := tc_visible out @ s\<rparr>) = chunk_join out (text_chunk s)"
  "(out\<lparr>tc_extracted := tc_extracted out @ [\<lparr>et_tag = at_tag tag, et_content = at_content tag @ s\<rparr>]\<rparr>) = chunk_join out (tag_chunk tag s)"
  by (simp_all add: chunk_join_def text_chunk_def tag_chunk_def)

lemma empty_out:
  "empty_chunk\<lparr>tc_visible := s\<rparr> = text_chunk s"
  "empty_chunk\<lparr>tc_extracted := [\<lparr>et_tag = at_tag tag, et_content = at_content tag @ s\<rparr>]\<rparr> = tag_chunk tag s"
  by (simp_all add: empty_chunk_def text_chunk_def tag_chunk_def)

lemma loop_after: "inline_loop specs p a out = after out (run specs p a)"
proof (induction "2 * length p + (if a = None then 0 else 1)" arbitrary: p a out rule: less_induct)
  case less
  show ?case
  proof (cases "list_ex (\<lambda>spec. it_open spec = []) specs")
    case True
    then show ?thesis by (simp add: inline_loop.simps)
  next
    case F: False
    show ?thesis
    proof (cases a)
      case None
      show ?thesis
      proof (cases "find_next_open specs p")
        case (Some x)
        obtain i j where x: "x = (i, j)" by force
        let ?p = "drop (i + length (it_open (specs ! j))) p" and ?a = "Some (start_tag (specs ! j))"
        have ih: "inline_loop specs ?p ?a out = after out (run specs ?p ?a)" for out
          by (rule less) (use open_shrinks [OF F Some [unfolded x]] None in simp)
        show ?thesis
          by (subst (1 2) inline_loop.simps) (simp add: F None Some x Let_def out_chunk empty_out ih [of "chunk_join out _"] ih [of "text_chunk _"] flip: start_tag_def)
      qed (subst (1 2) inline_loop.simps, simp add: F None Let_def out_chunk empty_out drain_visible_to_suffix_match_def)
    next
      case (Some tag)
      show ?thesis
      proof (cases "str_find (at_close tag) p")
        case (Some i)
        let ?p = "drop (i + length (at_close tag)) p"
        have ih: "inline_loop specs ?p None out = after out (run specs ?p None)" for out
          by (rule less) (use \<open>a = Some tag\<close> in simp)
        show ?thesis
          by (subst (1 2) inline_loop.simps) (simp add: F Some \<open>a = Some tag\<close> out_chunk empty_out ih [of "chunk_join out _"] ih [of "tag_chunk _ _"])
      qed (subst (1 2) inline_loop.simps, simp add: F Some Let_def)
    qed
  qed
qed

text \<open>The four ways the loop goes on or ends.\<close>

definition specs_ok :: "'t inline_tag_spec list \<Rightarrow> bool" where
  "specs_ok specs \<longleftrightarrow> opens_separate specs
     \<and> (\<forall>spec\<in>set specs. it_open spec \<noteq> [] \<and> it_close spec \<noteq> [] \<and> is_str (it_open spec) \<and> is_str (it_close spec))"

lemma specs_open: "specs_ok specs \<Longrightarrow> \<not> list_ex (\<lambda>spec. it_open spec = []) specs"
  by (auto simp: specs_ok_def list_ex_iff)

lemma run_close:
  "specs_ok specs \<Longrightarrow> str_find (at_close tag) p = Some i \<Longrightarrow>
     run specs p (Some tag) = after (tag_chunk tag (take i p)) (run specs (drop (i + length (at_close tag)) p) None)"
  by (subst inline_loop.simps) (simp add: specs_open empty_out loop_after [of _ _ _ "tag_chunk _ _"])

lemma run_inside:
  "specs_ok specs \<Longrightarrow> str_find (at_close tag) p = None \<Longrightarrow> p = q @ h \<Longrightarrow> length h = longest_suffix_prefix_len p (at_close tag) \<Longrightarrow>
     run specs p (Some tag) = (empty_chunk, h, Some (tag\<lparr>at_content := at_content tag @ q\<rparr>))"
  by (subst inline_loop.simps) (auto simp: specs_open Let_def dest: sym)

lemma run_open:
  "specs_ok specs \<Longrightarrow> find_next_open specs p = Some (i, j) \<Longrightarrow>
     run specs p None = after (text_chunk (take i p))
       (run specs (drop (i + length (it_open (specs ! j))) p) (Some (start_tag (specs ! j))))"
  by (subst inline_loop.simps)
    (simp add: specs_open empty_out Let_def loop_after [of _ _ _ "text_chunk _"] flip: start_tag_def)

lemma run_outside:
  "specs_ok specs \<Longrightarrow> find_next_open specs p = None \<Longrightarrow> p = q @ h \<Longrightarrow> length h = max_open_prefix_suffix_len specs p \<Longrightarrow>
     run specs p None = (text_chunk q, h, None)"
  by (subst inline_loop.simps) (auto simp: specs_open Let_def empty_out drain_visible_to_suffix_match_def dest: sym)

lemma max_open_ge: "spec \<in> set specs \<Longrightarrow> longest_suffix_prefix_len p (it_open spec) \<le> max_open_prefix_suffix_len specs p"
  by (induction specs) (auto simp: max_open_prefix_suffix_len_def)

lemma max_open_from:
  "max_open_prefix_suffix_len specs p = 0 \<or>
     (\<exists>spec\<in>set specs. max_open_prefix_suffix_len specs p = longest_suffix_prefix_len p (it_open spec))"
  by (induction specs) (auto simp: max_open_prefix_suffix_len_def max_def)

lemma max_open_le: "max_open_prefix_suffix_len specs p \<le> length p"
  using max_open_from [of specs p] lsp_le [of p] by auto

lemma max_open_cong:
  "(\<And>spec. spec \<in> set specs \<Longrightarrow> longest_suffix_prefix_len p (it_open spec) = longest_suffix_prefix_len r (it_open spec))
    \<Longrightarrow> max_open_prefix_suffix_len specs p = max_open_prefix_suffix_len specs r"
  unfolding max_open_prefix_suffix_len_def by (metis (mono_tags, lifting) map_eq_conv)

lemma split_suffix: "k \<le> length p \<Longrightarrow> \<exists>q h. p = q @ h \<and> length h = k"
  by (metis append_take_drop_id diff_diff_cancel length_drop)

text \<open>Text that comes later goes on where the earlier text has stopped.\<close>

lemma run_append_inside:
  assumes "specs_ok specs" and "y = [] \<or> \<not> is_cont (hd y)" and "str_find (at_close tag) p = None" and "p = q @ h"
    and "length h = longest_suffix_prefix_len p (at_close tag)"
  shows "run specs (p @ y) (Some tag) = run specs (h @ y) (Some (tag\<lparr>at_content := at_content tag @ q\<rparr>))"
proof (cases "str_find (at_close tag) (h @ y)")
  case None
  let ?tag = "tag\<lparr>at_content := at_content tag @ q\<rparr>"
  note on = search_goes_on [OF assms(3,4) _ assms(2)] hold_goes_on [OF assms(4) _ assms(2)]
  obtain q' h' where h': "h @ y = q' @ h'" "length h' = longest_suffix_prefix_len (h @ y) (at_close tag)"
    using split_suffix [OF lsp_le] by blast
  have py: "p @ y = (q @ q') @ h'" using assms(4) h'(1) by simp
  have "run specs (p @ y) (Some tag) = (empty_chunk, h', Some (tag\<lparr>at_content := at_content tag @ q @ q'\<rparr>))"
    by (rule run_inside [OF assms(1) _ py]) (use None on assms(5) h'(2) in auto)
  moreover have "run specs (h @ y) (Some ?tag) = (empty_chunk, h', Some (?tag\<lparr>at_content := at_content ?tag @ q'\<rparr>))"
    by (rule run_inside [OF assms(1) _ h'(1)]) (use None h'(2) in auto)
  ultimately show ?thesis by simp
next
  case (Some j)
  then have "str_find (at_close tag) (p @ y) = Some (length q + j)"
    using search_goes_on [OF assms(3,4) _ assms(2)] assms(5) by simp
  from run_close [OF assms(1) this] run_close [OF assms(1), of "tag\<lparr>at_content := at_content tag @ q\<rparr>" "h @ y" j] Some
  show ?thesis by (simp add: assms(4) tag_chunk_def)
qed

lemma run_append_outside:
  assumes "specs_ok specs" and "y = [] \<or> \<not> is_cont (hd y)" and "find_next_open specs p = None" and "p = q @ h"
    and "length h = max_open_prefix_suffix_len specs p"
  shows "run specs (p @ y) None = after (text_chunk q) (run specs (h @ y) None)"
proof -
  have none: "str_find (it_open spec) p = None" and le: "longest_suffix_prefix_len p (it_open spec) \<le> length h"
    if "spec \<in> set specs" for spec
    using that assms(3,5) max_open_ge [OF that, of p] by (auto simp: find_next_open_None)
  have find: "find_next_open specs (p @ y) = map_option (\<lambda>(i, j). (length q + i, j)) (find_next_open specs (h @ y))"
    by (rule find_next_open_goes_on) (rule search_goes_on [OF none assms(4) le assms(2)])
  have hold: "max_open_prefix_suffix_len specs (p @ y) = max_open_prefix_suffix_len specs (h @ y)"
    by (rule max_open_cong) (rule hold_goes_on [OF assms(4) le assms(2)])
  show ?thesis
  proof (cases "find_next_open specs (h @ y)")
    case None
    obtain q' h' where h': "h @ y = q' @ h'" "length h' = max_open_prefix_suffix_len specs (h @ y)"
      using split_suffix [OF max_open_le] by blast
    have py: "p @ y = (q @ q') @ h'" using assms(4) h'(1) by simp
    have "run specs (p @ y) None = (text_chunk (q @ q'), h', None)"
      by (rule run_outside [OF assms(1) _ py]) (use None find hold h'(2) in auto)
    moreover have "run specs (h @ y) None = (text_chunk q', h', None)"
      by (rule run_outside [OF assms(1) None h'])
    ultimately show ?thesis by (simp add: text_chunk_def chunk_join_def)
  next
    case (Some x)
    obtain i j where x: "x = (i, j)" by force
    then have "find_next_open specs (p @ y) = Some (length q + i, j)" using find Some by simp
    from run_open [OF assms(1) this] run_open [OF assms(1), of "h @ y" i j] Some x
    show ?thesis by (simp add: assms(4) text_chunk_def chunk_join_def)
  qed
qed

lemma run_append:
  assumes "specs_ok specs" and "y = [] \<or> \<not> is_cont (hd y)" and "run specs p a = (c, h, a')"
  shows "run specs (p @ y) a = after c (run specs (h @ y) a')"
  using assms(3)
proof (induction "2 * length p + (if a = None then 0 else 1)" arbitrary: p a c rule: less_induct)
  case less
  show ?case
  proof (cases a)
    case None
    show ?thesis
    proof (cases "find_next_open specs p")
      case None
      obtain q h' where h': "p = q @ h'" "length h' = max_open_prefix_suffix_len specs p"
        using split_suffix [OF max_open_le] by blast
      from run_outside [OF assms(1) None h'] run_append_outside [OF assms(1,2) None h'] less.prems
      show ?thesis by (simp add: \<open>a = None\<close>)
    next
      case (Some x)
      obtain i j where x: "find_next_open specs p = Some (i, j)" using Some by (cases x) auto
      let ?r = "drop (i + length (it_open (specs ! j))) p" and ?t = "Some (start_tag (specs ! j))"
      have i: "i + length (it_open (specs ! j)) \<le> length p"
        using find_next_open_idx [OF x] str_find_Some by blast
      obtain c' h' b where r: "run specs ?r ?t = (c', h', b)" using prod_cases3 by blast
      have eq: "c = chunk_join (text_chunk (take i p)) c'" "h' = h" "b = a'"
        using less.prems run_open [OF assms(1) x] r by (auto simp: None)
      have "run specs (?r @ y) ?t = after c' (run specs (h @ y) a')"
        by (rule less.hyps) (use open_shrinks [OF specs_open [OF assms(1)] x] r eq None in auto)
      moreover have "find_next_open specs (p @ y) = Some (i, j)"
        using find_next_open_append x assms(1) by (auto simp: specs_ok_def)
      ultimately show ?thesis using run_open [OF assms(1), of "p @ y" i j] eq i by (simp add: None)
    qed
  next
    case (Some tag)
    show ?thesis
    proof (cases "str_find (at_close tag) p")
      case None
      obtain q h' where h': "p = q @ h'" "length h' = longest_suffix_prefix_len p (at_close tag)"
        using split_suffix [OF lsp_le] by blast
      from run_inside [OF assms(1) None h'] run_append_inside [OF assms(1,2) None h'] less.prems
      show ?thesis by (auto simp: Some)
    next
      case (Some i)
      let ?r = "drop (i + length (at_close tag)) p"
      have i: "i + length (at_close tag) \<le> length p" using str_find_Some [OF Some] by blast
      obtain c' h' b where r: "run specs ?r None = (c', h', b)" using prod_cases3 by blast
      have eq: "c = chunk_join (tag_chunk tag (take i p)) c'" "h' = h" "b = a'"
        using less.prems run_close [OF assms(1) Some] r by (auto simp: \<open>a = Some tag\<close>)
      have "run specs (?r @ y) None = after c' (run specs (h @ y) a')"
        by (rule less.hyps) (use r eq \<open>a = Some tag\<close> in auto)
      then show ?thesis
        using run_close [OF assms(1) str_find_append [OF Some], of y] eq i by (simp add: \<open>a = Some tag\<close>)
    qed
  qed
qed

subsection \<open>The invariant\<close>

definition active_ok :: "'t inline_tag_spec list \<Rightarrow> 't active_tag option \<Rightarrow> bool" where
  "active_ok specs a \<longleftrightarrow>
     (case a of None \<Rightarrow> True | Some tag \<Rightarrow> at_close tag \<in> it_close ` set specs \<and> is_str (at_content tag))"

definition pending_ok :: "'t inline_tag_spec list \<Rightarrow> string \<Rightarrow> 't active_tag option \<Rightarrow> bool" where
  "pending_ok specs h a \<longleftrightarrow> is_str h \<and> active_ok specs a
     \<and> (case a of
          None \<Rightarrow> find_next_open specs h = None \<and> length h = max_open_prefix_suffix_len specs h
        | Some tag \<Rightarrow> str_find (at_close tag) h = None \<and> length h = longest_suffix_prefix_len h (at_close tag))"

definition inline_ok :: "'t inline_parser \<Rightarrow> bool" where
  "inline_ok p \<longleftrightarrow> specs_ok (ip_specs p) \<and> pending_ok (ip_specs p) (ip_pending p) (ip_active p)"

lemma held_back_str:
  assumes "is_str (q @ h)" and "h = take k n" and "is_str n"
  shows "is_str q \<and> is_str h"
proof (rule is_str_cut [OF assms(1)])
  show "h = [] \<or> \<not> is_cont (hd h)"
    using is_str_starts [OF assms(3)] by (cases n; cases k) (auto simp: assms(2))
qed

lemma around_str:
  assumes "is_str p" and "str_find n p = Some i" and "is_str n" and "n \<noteq> []"
  shows "is_str (take i p) \<and> is_str (drop (i + length n) p)"
proof -
  obtain a b where p: "p = a @ n @ b" "length a = i"
    using assms(2) str_find_least [of n p i] by (auto simp: occurs_split)
  have "is_str a \<and> is_str (n @ b)"
    using is_str_cut [of a "n @ b"] is_str_starts [OF assms(3)] assms(1,4) p(1) by auto
  then show ?thesis using is_str_append [OF assms(3), of b] p by auto
qed

lemma str_find_suffix: "str_find n (q @ h) = None \<Longrightarrow> str_find n h = None"
  using occurs_right [of n q h] by (auto simp: str_find_none)

definition chunk_ok :: "'t extracted_tag text_chunk \<Rightarrow> bool" where
  "chunk_ok c \<longleftrightarrow> is_str (tc_visible c) \<and> (\<forall>t\<in>set (tc_extracted c). is_str (et_content t))"

lemma chunk_ok_simps [simp]:
  "chunk_ok empty_chunk" "chunk_ok (text_chunk s) \<longleftrightarrow> is_str s"
  "chunk_ok (tag_chunk tag s) \<longleftrightarrow> is_str (at_content tag @ s)"
  "chunk_ok c \<Longrightarrow> chunk_ok d \<Longrightarrow> chunk_ok (chunk_join c d)"
  by (auto simp: chunk_ok_def text_chunk_def tag_chunk_def intro: is_str_join)

lemma run_ok:
  assumes "specs_ok specs" and "is_str p" and "active_ok specs a" and "run specs p a = (c, h, a')"
  shows "pending_ok specs h a' \<and> chunk_ok c"
  using assms(2-)
proof (induction "2 * length p + (if a = None then 0 else 1)" arbitrary: p a c rule: less_induct)
  case less
  have strs: "is_str (it_open spec)" "it_open spec \<noteq> []" "is_str (it_close spec)" "it_close spec \<noteq> []" if "spec \<in> set specs" for spec
    using assms(1) that by (auto simp: specs_ok_def)
  show ?case
  proof (cases a)
    case None
    show ?thesis
    proof (cases "find_next_open specs p")
      case None
      obtain q h' where h': "p = q @ h'" "length h' = max_open_prefix_suffix_len specs p"
        using split_suffix [OF max_open_le] by blast
      have eq: "c = text_chunk q" "h' = h" "a' = None"
        using less.prems(3) run_outside [OF assms(1) None h'] by (simp_all add: \<open>a = None\<close>)
      have n: "find_next_open specs h = None"
        using None str_find_suffix [of _ q h] h'(1) eq by (auto simp: find_next_open_None)
      have "is_str q \<and> is_str h \<and> length h = max_open_prefix_suffix_len specs h"
        using max_open_from [of specs p]
      proof
        assume "max_open_prefix_suffix_len specs p = 0"
        then show ?thesis using h' eq less.prems(1) max_open_le [of specs h] by simp
      next
        assume "\<exists>spec\<in>set specs. max_open_prefix_suffix_len specs p = longest_suffix_prefix_len p (it_open spec)"
        then obtain spec where s: "spec \<in> set specs" "length h = longest_suffix_prefix_len p (it_open spec)" using h'(2) eq by auto
        note hb = held_back [OF h'(1) [unfolded eq] s(2)]
        then have "is_str q \<and> is_str h" using held_back_str [of q h] less.prems(1) h'(1) eq strs(1) [OF s(1)] by blast
        then show ?thesis using hb max_open_ge [OF s(1), of h] max_open_le [of specs h] by simp
      qed
      then show ?thesis using eq n by (simp add: pending_ok_def active_ok_def)
    next
      case (Some x)
      obtain i j where x: "find_next_open specs p = Some (i, j)" using Some by (cases x) auto
      let ?r = "drop (i + length (it_open (specs ! j))) p" and ?t = "start_tag (specs ! j)"
      have j: "specs ! j \<in> set specs" "str_find (it_open (specs ! j)) p = Some i" using find_next_open_idx [OF x] by auto
      obtain c' h' b where r: "run specs ?r (Some ?t) = (c', h', b)" using prod_cases3 by blast
      have eq: "c = chunk_join (text_chunk (take i p)) c'" "h' = h" "b = a'"
        using less.prems(3) run_open [OF assms(1) x] r by (auto simp: None)
      note parts = around_str [OF less.prems(1) j(2) strs(1,2) [OF j(1)]]
      have "pending_ok specs h a' \<and> chunk_ok c'"
        by (rule less.hyps)
          (use open_shrinks [OF specs_open [OF assms(1)] x] r eq None parts j(1) in \<open>auto simp: active_ok_def start_tag_def\<close>)
      then show ?thesis using eq parts by simp
    qed
  next
    case (Some tag)
    have tag: "is_str (at_close tag)" "at_close tag \<noteq> []" "is_str (at_content tag)" "at_close tag \<in> it_close ` set specs"
      using less.prems(2) strs Some by (force simp: active_ok_def)+
    show ?thesis
    proof (cases "str_find (at_close tag) p")
      case None
      obtain q h' where h': "p = q @ h'" "length h' = longest_suffix_prefix_len p (at_close tag)"
        using split_suffix [OF lsp_le] by blast
      have eq: "c = empty_chunk" "h' = h" "a' = Some (tag\<lparr>at_content := at_content tag @ q\<rparr>)"
        using less.prems(3) run_inside [OF assms(1) None h'] by (auto simp: Some)
      note hb = held_back [OF h']
      have "is_str q \<and> is_str h" using held_back_str [of q h] less.prems(1) h'(1) eq hb tag(1) by blast
      moreover have "str_find (at_close tag) h = None" using None h'(1) eq str_find_suffix by blast
      ultimately show ?thesis using eq hb tag by (auto simp: pending_ok_def active_ok_def intro: is_str_join)
    next
      case (Some i)
      let ?r = "drop (i + length (at_close tag)) p"
      obtain c' h' b where r: "run specs ?r None = (c', h', b)" using prod_cases3 by blast
      have eq: "c = chunk_join (tag_chunk tag (take i p)) c'" "h' = h" "b = a'"
        using less.prems(3) run_close [OF assms(1) Some] r by (auto simp: \<open>a = Some tag\<close>)
      note parts = around_str [OF less.prems(1) Some tag(1,2)]
      have "pending_ok specs h a' \<and> chunk_ok c'"
        by (rule less.hyps) (use r eq \<open>a = Some tag\<close> parts in \<open>auto simp: active_ok_def\<close>)
      then show ?thesis using eq parts tag(3) by (simp add: is_str_append)
    qed
  qed
qed

lemma run_stays: "specs_ok specs \<Longrightarrow> pending_ok specs h a \<Longrightarrow> run specs h a = (empty_chunk, h, a)"
  using run_inside [of specs _ h "[]" h] run_outside [of specs h "[]" h]
  by (cases a) (auto simp: pending_ok_def text_chunk_def empty_chunk_def)

subsection \<open>The contract kept\<close>

lemma inline_push_ok:
  assumes "inline_ok p" and "is_str x" and "inline_push_str p x = (c, p')"
  shows "inline_ok p' \<and> chunk_ok c"
proof -
  obtain h a where r: "run (ip_specs p) (ip_pending p @ x) (ip_active p) = (c, h, a)" "p' = p\<lparr>ip_pending := h, ip_active := a\<rparr>"
    using assms(3) by (auto simp: inline_push_str_def Let_def split: prod.splits)
  then show ?thesis
    using run_ok [OF _ _ _ r(1)] assms(1,2) by (auto simp: inline_ok_def pending_ok_def intro: is_str_join)
qed

lemma inline_push_nil: "inline_ok p \<Longrightarrow> inline_push_str p [] = (empty_chunk, p)"
  using run_stays [of "ip_specs p" "ip_pending p" "ip_active p"] by (simp add: inline_push_str_def inline_ok_def)

lemma inline_push_append:
  assumes "inline_ok p" and "is_str y" and "inline_push_str p x = (c1, p1)" and "inline_push_str p1 y = (c2, p2)"
  shows "inline_push_str p (x @ y) = (chunk_join c1 c2, p2)"
proof -
  obtain h a where r: "run (ip_specs p) (ip_pending p @ x) (ip_active p) = (c1, h, a)" "p1 = p\<lparr>ip_pending := h, ip_active := a\<rparr>"
    using assms(3) by (auto simp: inline_push_str_def Let_def split: prod.splits)
  obtain h' a' where r': "run (ip_specs p) (h @ y) a = (c2, h', a')" "p2 = p\<lparr>ip_pending := h', ip_active := a'\<rparr>"
    using assms(4) by (auto simp: inline_push_str_def Let_def r(2) split: prod.splits)
  show ?thesis
    using run_append [OF _ is_str_starts [OF assms(2)] r(1)] r' assms(1) by (simp add: inline_push_str_def inline_ok_def)
qed

lemma inline_finish_ok: "inline_ok p \<Longrightarrow> chunk_ok (fst (inline_finish p))"
  by (auto simp: inline_finish_def inline_ok_def pending_ok_def active_ok_def chunk_ok_def intro: is_str_join split: option.splits)

interpretation inline: stream_text_parser inline_push_str inline_finish inline_ok "\<lambda>xs. xs"
proof unfold_locales
  fix s :: "'a inline_parser" and x y :: string and c1 c2 :: "'a extracted_tag text_chunk" and s1 s2
  assume "inline_ok s" "is_str y" "inline_push_str s x = (c1, s1)" "inline_push_str s1 y = (c2, s2)"
  from inline_push_append [OF this]
  show "\<exists>c. inline_push_str s (x @ y) = (c, s2) \<and> tc_visible c = tc_visible c1 @ tc_visible c2
      \<and> tc_extracted c = tc_extracted c1 @ tc_extracted c2" by simp
next
  fix s :: "'a inline_parser" and x c s'
  assume "inline_ok s" "is_str x" "inline_push_str s x = (c, s')"
  then show "inline_ok s' \<and> is_str (tc_visible c)" using inline_push_ok by (auto simp: chunk_ok_def)
next
  fix s :: "'a inline_parser"
  assume s: "inline_ok s"
  show "inline_push_str s [] = (empty_chunk, s)" by (rule inline_push_nil [OF s])
  show "is_str (tc_visible (fst (inline_finish s)))" using inline_finish_ok [OF s] by (simp add: chunk_ok_def)
qed simp

interpretation citation: stream_text_parser citation_push_str citation_finish inline_ok "\<lambda>xs. xs"
proof unfold_locales
  fix s and x y :: string and c1 c2 s1 s2
  assume o: "inline_ok s" "is_str y" and p: "citation_push_str s x = (c1, s1)" "citation_push_str s1 y = (c2, s2)"
  obtain d1 d2 where "inline_push_str s x = (d1, s1)" "inline_push_str s1 y = (d2, s2)" "c1 = citation_contents d1" "c2 = citation_contents d2"
    using p by (auto simp: citation_push_str_def Let_def split: prod.splits)
  from inline_push_append [OF o this(1,2)] this(3,4)
  show "\<exists>c. citation_push_str s (x @ y) = (c, s2) \<and> tc_visible c = tc_visible c1 @ tc_visible c2
      \<and> tc_extracted c = tc_extracted c1 @ tc_extracted c2" by (simp add: citation_push_str_def citation_contents_def)
next
  fix s x c s'
  assume "inline_ok s" "is_str x" "citation_push_str s x = (c, s')"
  then show "inline_ok s' \<and> is_str (tc_visible c)"
    using inline_push_ok [of s x] by (auto simp: citation_push_str_def citation_contents_def chunk_ok_def split: prod.splits)
next
  fix s :: citation_parser
  assume s: "inline_ok s"
  show "citation_push_str s [] = (empty_chunk, s)"
    using inline_push_nil [OF s] by (simp add: citation_push_str_def citation_contents_def empty_chunk_def)
  show "is_str (tc_visible (fst (citation_finish s)))"
    using inline_finish_ok [OF s] by (simp add: citation_finish_def citation_contents_def chunk_ok_def case_prod_unfold Let_def)
qed simp

lemma citation_new_ok: "inline_ok citation_new"
proof -
  have "is_str CITATION_OPEN" "is_str CITATION_CLOSE" by code_simp+
  then show ?thesis
    by (auto simp: inline_ok_def citation_new_def specs_ok_def opens_separate_def pending_ok_def active_ok_def
        find_next_open_None max_open_prefix_suffix_len_def longest_suffix_prefix_len_def CITATION_OPEN_def CITATION_CLOSE_def occurs_def)
qed

end
