(* ===== verification/Stream_Plan.thy ===== *)
theory Stream_Plan
  imports Stream_Tags
begin

text \<open>
  Blocks that start and end with a tag alone on a line (\<open>utils/stream-parser/src/tagged_line_parser.rs\<close>), the
  plans that an assistant proposes in such a block (\<open>proposed_plan.rs\<close>), and both filters over the text of an
  assistant (\<open>assistant_text.rs\<close>).
\<close>

record 't tag_spec =
  ts_open :: string
  ts_close :: string
  ts_tag :: 't

datatype 't line_segment = NormalSegment string | TagStart 't | TagDelta 't string | TagEnd 't

record 't line_parser =
  lp_specs :: "'t tag_spec list"
  lp_active :: "'t option"
  lp_detect :: bool
  lp_buffer :: string

definition line_parser_new :: "'t tag_spec list \<Rightarrow> 't line_parser" where
  "line_parser_new specs = \<lparr>lp_specs = specs, lp_active = None, lp_detect = True, lp_buffer = []\<rparr>"

fun push_segment :: "'t line_segment list \<Rightarrow> 't line_segment \<Rightarrow> 't line_segment list" where
  "push_segment segments (NormalSegment delta) =
     (if delta = [] then segments
      else case rev segments of
        NormalSegment existing # front \<Rightarrow> rev front @ [NormalSegment (existing @ delta)]
      | _ \<Rightarrow> segments @ [NormalSegment delta])"
| "push_segment segments (TagDelta tag delta) =
     (if delta = [] then segments
      else case rev segments of
        TagDelta existing_tag existing # front \<Rightarrow>
          if existing_tag = tag then rev front @ [TagDelta existing_tag (existing @ delta)]
          else segments @ [TagDelta tag delta]
      | _ \<Rightarrow> segments @ [TagDelta tag delta])"
| "push_segment segments (TagStart tag) = segments @ [TagStart tag]"
| "push_segment segments (TagEnd tag) = segments @ [TagEnd tag]"

definition push_text :: "'t line_parser \<Rightarrow> string \<Rightarrow> 't line_segment list \<Rightarrow> 't line_segment list" where
  "push_text p s segments =
     (case lp_active p of
        Some tag \<Rightarrow> push_segment segments (TagDelta tag s)
      | None \<Rightarrow> push_segment segments (NormalSegment s))"

definition is_tag_prefix :: "'t line_parser \<Rightarrow> string \<Rightarrow> bool" where
  "is_tag_prefix p slug =
     list_ex (\<lambda>spec. starts_with (ts_open spec) (trim_end slug) \<or> starts_with (ts_close spec) (trim_end slug)) (lp_specs p)"

definition match_open :: "'t line_parser \<Rightarrow> string \<Rightarrow> 't option" where
  "match_open p slug = map_option ts_tag (find (\<lambda>spec. ts_open spec = slug) (lp_specs p))"

definition match_close :: "'t line_parser \<Rightarrow> string \<Rightarrow> 't option" where
  "match_close p slug = map_option ts_tag (find (\<lambda>spec. ts_close spec = slug) (lp_specs p))"

definition strip_newline :: "string \<Rightarrow> string" where
  "strip_newline s = (if s \<noteq> [] \<and> last s = CHR 0x0A then butlast s else s)"

definition finish_line :: "'t line_parser \<Rightarrow> 't line_segment list \<Rightarrow> 't line_parser \<times> 't line_segment list" where
  "finish_line p segments =
     (let line = lp_buffer p;
          p = p\<lparr>lp_buffer := [], lp_detect := True\<rparr>;
          slug = trim_end (trim_start (strip_newline line))
      in case (match_open p slug, lp_active p) of
           (Some tag, None) \<Rightarrow> (p\<lparr>lp_active := Some tag\<rparr>, push_segment segments (TagStart tag))
         | _ \<Rightarrow>
             (case match_close p slug of
                Some tag \<Rightarrow>
                  if lp_active p = Some tag then (p\<lparr>lp_active := None\<rparr>, push_segment segments (TagEnd tag))
                  else (p, push_text p line segments)
              | None \<Rightarrow> (p, push_text p line segments)))"

text \<open>One character; \<open>run\<close> is text of the current line that is known not to be a tag.\<close>

definition parse_char ::
  "string \<Rightarrow> 't line_parser \<times> string \<times> 't line_segment list \<Rightarrow> 't line_parser \<times> string \<times> 't line_segment list" where
  "parse_char ch st =
     (let (p, text_run, segments) = st
      in if lp_detect p
         then
           (let segments = (if text_run \<noteq> [] then push_text p text_run segments else segments);
                p = p\<lparr>lp_buffer := lp_buffer p @ ch\<rparr>
            in if ch = [CHR 0x0A] then (let (p, segments) = finish_line p segments in (p, [], segments))
               else
                 (let slug = trim_start (lp_buffer p)
                  in if slug = [] \<or> is_tag_prefix p slug then (p, [], segments)
                     else (p\<lparr>lp_buffer := [], lp_detect := False\<rparr>, [], push_text p (lp_buffer p) segments)))
         else
           (let text_run = text_run @ ch
            in if ch = [CHR 0x0A] then (p\<lparr>lp_detect := True\<rparr>, [], push_text p text_run segments)
               else (p, text_run, segments)))"

definition line_parse :: "'t line_parser \<Rightarrow> string \<Rightarrow> 't line_segment list \<times> 't line_parser" where
  "line_parse p delta =
     (let (p, text_run, segments) = fold parse_char (utf8_chars delta) (p, [], [])
      in (if text_run \<noteq> [] then push_text p text_run segments else segments, p))"

definition line_finish :: "'t line_parser \<Rightarrow> 't line_segment list \<times> 't line_parser" where
  "line_finish p =
     (let (segments, p) =
        (if lp_buffer p = [] then ([], p)
         else
           (let buffered = lp_buffer p;
                p = p\<lparr>lp_buffer := []\<rparr>;
                slug = trim_end (trim_start (strip_newline buffered))
            in case (match_open p slug, lp_active p) of
                 (Some tag, None) \<Rightarrow> (push_segment [] (TagStart tag), p\<lparr>lp_active := Some tag\<rparr>)
               | _ \<Rightarrow>
                   (case match_close p slug of
                      Some tag \<Rightarrow>
                        if lp_active p = Some tag then (push_segment [] (TagEnd tag), p\<lparr>lp_active := None\<rparr>)
                        else (push_text p buffered [], p)
                    | None \<Rightarrow> (push_text p buffered [], p))))
      in ((case lp_active p of Some tag \<Rightarrow> push_segment segments (TagEnd tag) | None \<Rightarrow> segments),
          p\<lparr>lp_active := None, lp_detect := True\<rparr>))"

subsection \<open>Proposed plans\<close>

definition OPEN_TAG :: string where
  "OPEN_TAG = ''<proposed_plan>''"

definition CLOSE_TAG :: string where
  "CLOSE_TAG = ''</proposed_plan>''"

datatype plan_tag = ProposedPlan

datatype plan_segment = PlanNormal string | ProposedPlanStart | ProposedPlanDelta string | ProposedPlanEnd

type_synonym plan_parser = "plan_tag line_parser"

definition plan_new :: plan_parser where
  "plan_new = line_parser_new [\<lparr>ts_open = OPEN_TAG, ts_close = CLOSE_TAG, ts_tag = ProposedPlan\<rparr>]"

fun map_segment :: "plan_tag line_segment \<Rightarrow> plan_segment" where
  "map_segment (NormalSegment s) = PlanNormal s"
| "map_segment (TagStart ProposedPlan) = ProposedPlanStart"
| "map_segment (TagDelta ProposedPlan s) = ProposedPlanDelta s"
| "map_segment (TagEnd ProposedPlan) = ProposedPlanEnd"

definition map_segments :: "plan_tag line_segment list \<Rightarrow> plan_segment text_chunk" where
  "map_segments segments =
     foldl (\<lambda>out segment.
        let mapped = map_segment segment;
            out = (case mapped of PlanNormal s \<Rightarrow> out\<lparr>tc_visible := tc_visible out @ s\<rparr> | _ \<Rightarrow> out)
        in out\<lparr>tc_extracted := tc_extracted out @ [mapped]\<rparr>) empty_chunk segments"

definition plan_push_str :: "plan_parser \<Rightarrow> string \<Rightarrow> plan_segment text_chunk \<times> plan_parser" where
  "plan_push_str p chunk = (let (segments, p) = line_parse p chunk in (map_segments segments, p))"

definition plan_finish :: "plan_parser \<Rightarrow> plan_segment text_chunk \<times> plan_parser" where
  "plan_finish p = (let (segments, p) = line_finish p in (map_segments segments, p))"

definition strip_proposed_plan_blocks :: "string \<Rightarrow> string" where
  "strip_proposed_plan_blocks s =
     (let (out, p) = plan_push_str plan_new s in tc_visible out @ tc_visible (fst (plan_finish p)))"

definition extract_proposed_plan_text :: "string \<Rightarrow> string option" where
  "extract_proposed_plan_text s =
     (let (out, p) = plan_push_str plan_new s;
          (saw_plan_block, plan_text) =
            foldl (\<lambda>(saw, plan) segment. case segment of
                ProposedPlanStart \<Rightarrow> (True, [])
              | ProposedPlanDelta delta \<Rightarrow> (saw, plan @ delta)
              | _ \<Rightarrow> (saw, plan)) (False, []) (tc_extracted out @ tc_extracted (fst (plan_finish p)))
      in if saw_plan_block then Some plan_text else None)"

subsection \<open>The text of an assistant\<close>

record assistant_chunk =
  ac_visible :: string
  ac_citations :: "string list"
  ac_plan_segments :: "plan_segment list"

record assistant_parser =
  ap_plan_mode :: bool
  ap_citations :: citation_parser
  ap_plan :: plan_parser

definition assistant_new :: "bool \<Rightarrow> assistant_parser" where
  "assistant_new plan_mode = \<lparr>ap_plan_mode = plan_mode, ap_citations = citation_new, ap_plan = plan_new\<rparr>"

definition parse_visible_text :: "assistant_parser \<Rightarrow> string \<Rightarrow> assistant_chunk \<times> assistant_parser" where
  "parse_visible_text p visible_text =
     (if \<not> ap_plan_mode p then (\<lparr>ac_visible = visible_text, ac_citations = [], ac_plan_segments = []\<rparr>, p)
      else
        (let (plan_chunk, plan) = plan_push_str (ap_plan p) visible_text
         in (\<lparr>ac_visible = tc_visible plan_chunk, ac_citations = [], ac_plan_segments = tc_extracted plan_chunk\<rparr>,
             p\<lparr>ap_plan := plan\<rparr>)))"

definition assistant_push_str :: "assistant_parser \<Rightarrow> string \<Rightarrow> assistant_chunk \<times> assistant_parser" where
  "assistant_push_str p chunk =
     (let (citation_chunk, citations) = citation_push_str (ap_citations p) chunk;
          (out, p) = parse_visible_text (p\<lparr>ap_citations := citations\<rparr>) (tc_visible citation_chunk)
      in (out\<lparr>ac_citations := tc_extracted citation_chunk\<rparr>, p))"

definition assistant_finish :: "assistant_parser \<Rightarrow> assistant_chunk \<times> assistant_parser" where
  "assistant_finish p =
     (let (citation_chunk, citations) = citation_finish (ap_citations p);
          (out, p) = parse_visible_text (p\<lparr>ap_citations := citations\<rparr>) (tc_visible citation_chunk);
          (out, p) =
            (if ap_plan_mode p
             then
               (let (tail, plan) = plan_finish (ap_plan p);
                    p = p\<lparr>ap_plan := plan\<rparr>
                in if chunk_is_empty tail then (out, p)
                   else (out\<lparr>ac_visible := ac_visible out @ tc_visible tail,
                       ac_plan_segments := ac_plan_segments out @ tc_extracted tail\<rparr>, p))
             else (out, p))
      in (out\<lparr>ac_citations := tc_extracted citation_chunk\<rparr>, p))"

end
