(* ===== verification/Stream_Lines.thy ===== *)
theory Stream_Lines
  imports Stream_Plan
begin

text \<open>
  The plan parser keeps the contract of a stream parser, up to the merging of adjacent pieces of text: reading
  character by character emits pieces, and the segments of a chunk are those pieces merged.
\<close>

subsection \<open>Merging\<close>

abbreviation merge :: "'t line_segment list \<Rightarrow> 't line_segment list \<Rightarrow> 't line_segment list" where
  "merge \<equiv> foldl push_segment"

lemma push_merges [simp]:
  "push_segment (front @ [NormalSegment x]) (NormalSegment d) = front @ [NormalSegment (x @ d)]"
  "push_segment (front @ [TagDelta t x]) (TagDelta t d) = front @ [TagDelta t (x @ d)]"
  by simp_all

lemma push_empty [simp]: "push_segment segs (NormalSegment []) = segs" "push_segment segs (TagDelta t []) = segs"
  by simp_all

lemma push_appends:
  "d \<noteq> [] \<Longrightarrow> segs = [] \<or> (\<forall>x. last segs \<noteq> NormalSegment x) \<Longrightarrow> push_segment segs (NormalSegment d) = segs @ [NormalSegment d]"
  "d \<noteq> [] \<Longrightarrow> segs = [] \<or> (\<forall>x. last segs \<noteq> TagDelta t x) \<Longrightarrow> push_segment segs (TagDelta t d) = segs @ [TagDelta t d]"
  by (cases segs rule: rev_cases; auto split: line_segment.split)+

declare push_segment.simps(1,2) [simp del]

lemma push_twice [simp]:
  "push_segment (push_segment segs (NormalSegment a)) (NormalSegment b) = push_segment segs (NormalSegment (a @ b))"
proof (cases "a = [] \<or> b = []")
  case False
  then have "b \<noteq> []" "a \<noteq> []" "a @ b \<noteq> []" by auto
  show ?thesis
  proof (cases "segs = [] \<or> (\<forall>x. last segs \<noteq> NormalSegment x)")
    case True
    then show ?thesis using push_appends(1) [of _ segs] \<open>a \<noteq> []\<close> \<open>a @ b \<noteq> []\<close> by simp
  next
    case False
    then obtain x where "segs = butlast segs @ [NormalSegment x]" by (metis append_butlast_last_id)
    then show ?thesis by (metis append.assoc push_merges(1))
  qed
qed auto

lemma push_twice_delta [simp]:
  "push_segment (push_segment segs (TagDelta t a)) (TagDelta t b) = push_segment segs (TagDelta t (a @ b))"
proof (cases "a = [] \<or> b = []")
  case False
  then have "b \<noteq> []" "a \<noteq> []" "a @ b \<noteq> []" by auto
  show ?thesis
  proof (cases "segs = [] \<or> (\<forall>x. last segs \<noteq> TagDelta t x)")
    case True
    then show ?thesis using push_appends(2) [of _ segs t] \<open>a \<noteq> []\<close> \<open>a @ b \<noteq> []\<close> by simp
  next
    case False
    then obtain x where "segs = butlast segs @ [TagDelta t x]" by (metis append_butlast_last_id)
    then show ?thesis by (metis append.assoc push_merges(2))
  qed
qed auto

text \<open>Pushing a segment onto a list does nothing, merges it with the last one or appends it.\<close>

lemma push_segment_cases:
  obtains (same) "push_segment segs g = segs" "\<And>xs. push_segment xs g = xs"
  | (merged) front e g' where "segs = front @ [e]" "push_segment segs g = front @ [g']"
      "\<And>xs. push_segment (push_segment xs e) g = push_segment xs g'"
  | (new) "push_segment segs g = segs @ [g]"
proof (cases g)
  case (NormalSegment d)
  show thesis
  proof (cases "d = [] \<or> segs = [] \<or> (\<forall>x. last segs \<noteq> NormalSegment x)")
    case True
    then show thesis using same new NormalSegment push_appends(1) [of d segs] by fastforce
  next
    case False
    then obtain x where "segs = butlast segs @ [NormalSegment x]" by (metis append_butlast_last_id)
    then show thesis using merged [of _ "NormalSegment x" "NormalSegment (x @ d)"] NormalSegment push_merges(1) push_twice by metis
  qed
next
  case (TagDelta t d)
  show thesis
  proof (cases "d = [] \<or> segs = [] \<or> (\<forall>x. last segs \<noteq> TagDelta t x)")
    case True
    then show thesis using same new TagDelta push_appends(2) [of d segs t] by fastforce
  next
    case False
    then obtain x where "segs = butlast segs @ [TagDelta t x]" by (metis append_butlast_last_id)
    then show thesis using merged [of _ "TagDelta t x" "TagDelta t (x @ d)"] TagDelta push_merges(2) push_twice_delta by metis
  qed
qed (use new in auto)

lemma merge_push: "merge xs (push_segment segs g) = push_segment (merge xs segs) g"
  by (cases segs g rule: push_segment_cases) simp_all

lemma merge_merge: "merge xs (merge [] ys) = merge xs ys"
proof -
  have "merge xs (merge zs ys) = merge (merge xs zs) ys" for zs
    by (induction ys arbitrary: zs) (simp_all add: merge_push)
  then show ?thesis by simp
qed

text \<open>The visible text of segments.\<close>

fun segment_text :: "'t line_segment \<Rightarrow> string" where
  "segment_text (NormalSegment s) = s"
| "segment_text _ = []"

abbreviation segments_text :: "'t line_segment list \<Rightarrow> string" where
  "segments_text segs \<equiv> concat (map segment_text segs)"

lemma push_segment_text: "segments_text (push_segment segs g) = segments_text segs @ segment_text g"
proof (cases g)
  case (NormalSegment d)
  then show ?thesis
    by (cases segs rule: rev_cases) (auto simp: push_segment.simps split: line_segment.split)
next
  case (TagDelta t d)
  then show ?thesis
    by (cases segs rule: rev_cases) (auto simp: push_segment.simps split: line_segment.split)
qed simp_all

lemma merge_text: "segments_text (merge segs xs) = segments_text segs @ segments_text xs"
  by (induction xs arbitrary: segs) (simp_all add: push_segment_text)

subsection \<open>Pieces\<close>

definition text_piece :: "'t option \<Rightarrow> string \<Rightarrow> 't line_segment" where
  "text_piece active s = (case active of Some tag \<Rightarrow> TagDelta tag s | None \<Rightarrow> NormalSegment s)"

lemma push_text_piece: "push_text p s segs = push_segment segs (text_piece (lp_active p) s)"
  by (simp add: push_text_def text_piece_def split: option.split)

lemma push_piece_twice:
  "push_segment (push_segment segs (text_piece a s)) (text_piece a t) = push_segment segs (text_piece a (s @ t))"
  "push_segment segs (text_piece a []) = segs"
  by (cases a; simp add: text_piece_def)+

text \<open>What one character emits, and what it does to the parser.\<close>

definition char_pieces :: "string \<Rightarrow> 't line_parser \<Rightarrow> 't line_segment list \<times> 't line_parser" where
  "char_pieces ch p =
     (if lp_detect p then (let (p', text_run, segs) = parse_char ch (p, [], []) in (segs, p'))
      else ([text_piece (lp_active p) ch], p\<lparr>lp_detect := (ch = [CHR 0x0A])\<rparr>))"

fun pieces :: "string list \<Rightarrow> 't line_parser \<Rightarrow> 't line_segment list \<times> 't line_parser" where
  "pieces [] p = ([], p)"
| "pieces (ch # chs) p =
     (let (xs, p) = char_pieces ch p; (ys, p) = pieces chs p in (xs @ ys, p))"

lemma finish_line_merge: "finish_line p segs = (fst (finish_line p []), merge segs (snd (finish_line p [])))"
  by (auto simp: finish_line_def Let_def push_text_piece merge_push split: option.split)

lemma parse_char_detect:
  assumes "lp_detect p"
  shows "parse_char ch (p, [], segs) = (let (xs, p') = char_pieces ch p in (p', [], merge segs xs))"
  using assms finish_line_merge [of "p\<lparr>lp_buffer := lp_buffer p @ ch\<rparr>" segs]
  by (auto simp: parse_char_def char_pieces_def Let_def push_text_piece merge_push split: prod.splits)

lemma parse_char_run:
  "\<not> lp_detect p \<Longrightarrow> parse_char ch (p, r, segs) =
     (if ch = [CHR 0x0A] then (p\<lparr>lp_detect := True\<rparr>, [], push_segment segs (text_piece (lp_active p) (r @ ch))) else (p, r @ ch, segs))"
  by (simp add: parse_char_def push_text_piece)

lemma parse_pieces:
  assumes "lp_detect p \<longrightarrow> r = []" and "fold parse_char chs (p, r, segs) = (p', r', segs')" and "pieces chs p = (xs, q)"
  shows "p' = q \<and> (lp_detect p' \<longrightarrow> r' = [])
    \<and> push_segment segs' (text_piece (lp_active p') r') = merge (push_segment segs (text_piece (lp_active p) r)) xs"
  using assms
proof (induction chs arbitrary: p r segs xs)
  case Nil
  then show ?case by simp
next
  case (Cons ch chs)
  obtain ys p1 where y: "char_pieces ch p = (ys, p1)" by force
  obtain zs where z: "pieces chs p1 = (zs, q)" "xs = ys @ zs" using Cons.prems(3) y by (auto split: prod.splits)
  show ?case
  proof (cases "lp_detect p")
    case True
    have "fold parse_char chs (p1, [], merge segs ys) = (p', r', segs')"
      using Cons.prems(1,2) True parse_char_detect [OF True, of ch segs] y by simp
    from Cons.IH [OF _ this z(1)] show ?thesis
      using Cons.prems(1) True z(2) by (auto simp: push_piece_twice)
  next
    case False
    then have p1: "ys = [text_piece (lp_active p) ch]" "p1 = p\<lparr>lp_detect := (ch = [CHR 0x0A])\<rparr>"
      using y by (simp_all add: char_pieces_def)
    show ?thesis
    proof (cases "ch = [CHR 0x0A]")
      case True
      have "fold parse_char chs (p1, [], push_segment segs (text_piece (lp_active p) (r @ ch))) = (p', r', segs')"
        using Cons.prems(2) False True p1(2) by (simp add: parse_char_run)
      from Cons.IH [OF _ this z(1)] show ?thesis using z(2) p1 by (auto simp: push_piece_twice)
    next
      case nl: False
      have "fold parse_char chs (p1, r @ ch, segs) = (p', r', segs')"
      proof -
        have "p1 = p" using p1(2) False nl by (cases p) simp
        then show ?thesis using Cons.prems(2) False nl by (simp add: parse_char_run)
      qed
      from Cons.IH [OF _ this z(1)] show ?thesis using z(2) p1 nl by (auto simp: push_piece_twice)
    qed
  qed
qed

text \<open>A chunk gives the merged pieces of its characters.\<close>

lemma line_parse_pieces: "line_parse p delta = (let (xs, q) = pieces (utf8_chars delta) p in (merge [] xs, q))"
proof -
  obtain p' r' segs' where f: "fold parse_char (utf8_chars delta) (p, [], []) = (p', r', segs')" using prod_cases3 by blast
  obtain xs q where x: "pieces (utf8_chars delta) p = (xs, q)" by force
  have "(if r' \<noteq> [] then push_text p' r' segs' else segs') = push_segment segs' (text_piece (lp_active p') r')"
    by (simp add: push_text_piece push_piece_twice)
  then show ?thesis
    using parse_pieces [OF _ f x] by (auto simp: line_parse_def f x push_piece_twice)
qed

lemma pieces_append: "pieces (xs @ ys) p = (let (a, p) = pieces xs p; (b, p) = pieces ys p in (a @ b, p))"
  by (induction xs arbitrary: p) (auto simp: Let_def split: prod.splits)

subsection \<open>Plans\<close>

fun line_of_plan :: "plan_segment \<Rightarrow> plan_tag line_segment" where
  "line_of_plan (PlanNormal s) = NormalSegment s"
| "line_of_plan ProposedPlanStart = TagStart ProposedPlan"
| "line_of_plan (ProposedPlanDelta s) = TagDelta ProposedPlan s"
| "line_of_plan ProposedPlanEnd = TagEnd ProposedPlan"

lemma plan_of_line [simp]: "line_of_plan (map_segment g) = g"
  by (cases g rule: map_segment.cases) auto

text \<open>Plan segments with adjacent texts merged.\<close>

definition plan_norm :: "plan_segment list \<Rightarrow> plan_segment list" where
  "plan_norm xs = map map_segment (merge [] (map line_of_plan xs))"

lemma plan_norm_eq: "plan_norm xs = plan_norm ys \<longleftrightarrow> merge [] (map line_of_plan xs) = merge [] (map line_of_plan ys)"
proof
  assume "plan_norm xs = plan_norm ys"
  then have "map line_of_plan (plan_norm xs) = map line_of_plan (plan_norm ys)" by simp
  then show "merge [] (map line_of_plan xs) = merge [] (map line_of_plan ys)" by (simp add: plan_norm_def comp_def)
qed (simp add: plan_norm_def)

lemma plan_norm_append:
  assumes "plan_norm xs = plan_norm xs'" and "plan_norm ys = plan_norm ys'"
  shows "plan_norm (xs @ ys) = plan_norm (xs' @ ys')"
proof -
  have "merge [] (map line_of_plan (us @ vs)) = merge (merge [] (map line_of_plan us)) (merge [] (map line_of_plan vs))" for us vs
    by (simp add: merge_merge)
  then show ?thesis using assms unfolding plan_norm_eq by simp
qed

lemma map_segments_eq: "map_segments segs = \<lparr>tc_visible = segments_text segs, tc_extracted = map map_segment segs\<rparr>"
proof -
  let ?f = "\<lambda>out segment. let mapped = map_segment segment;
      out = (case mapped of PlanNormal s \<Rightarrow> out\<lparr>tc_visible := tc_visible out @ s\<rparr> | _ \<Rightarrow> out)
    in out\<lparr>tc_extracted := tc_extracted out @ [mapped]\<rparr>"
  have step: "?f out g = \<lparr>tc_visible = tc_visible out @ segment_text g, tc_extracted = tc_extracted out @ [map_segment g]\<rparr>" for out g
    by (cases g rule: map_segment.cases) auto
  have "foldl ?f out segs = \<lparr>tc_visible = tc_visible out @ segments_text segs, tc_extracted = tc_extracted out @ map map_segment segs\<rparr>" for out
    by (induction segs arbitrary: out) (simp_all add: step)
  then show ?thesis by (simp add: map_segments_def)
qed

definition plan_ok :: "plan_parser \<Rightarrow> bool" where
  "plan_ok p \<longleftrightarrow> is_str (lp_buffer p)"

lemma chars_str: "is_str s \<Longrightarrow> g \<in> set (utf8_chars s) \<Longrightarrow> is_str g"
proof (induction s rule: utf8_chars.induct)
  case (2 b bs)
  have "dropWhile is_cont bs = [] \<or> \<not> is_cont (hd (dropWhile is_cont bs))" using hd_dropWhile [of is_cont bs] by blast
  then have "is_str (b # takeWhile is_cont bs)" "is_str (dropWhile is_cont bs)"
    using is_str_cut [of "b # takeWhile is_cont bs" "dropWhile is_cont bs"] 2(2) by auto
  then show ?case using 2 by auto
qed simp

lemma text_piece_str: "is_str s \<Longrightarrow> is_str (segment_text (text_piece a s))"
  by (cases a) (simp_all add: text_piece_def)

lemma finish_line_str:
  "is_str (lp_buffer p) \<Longrightarrow> finish_line p [] = (p', segs) \<Longrightarrow> is_str (lp_buffer p') \<and> is_str (segments_text segs)"
  by (auto simp: finish_line_def Let_def push_text_piece push_segment_text text_piece_str split: option.splits if_splits)

lemma char_pieces_str:
  assumes "is_str (lp_buffer p)" and "is_str ch" and "char_pieces ch p = (xs, p')"
  shows "is_str (lp_buffer p') \<and> is_str (segments_text xs)"
proof -
  have b: "is_str (lp_buffer p @ ch)" using assms(1,2) by (rule is_str_join)
  show ?thesis
    using assms b finish_line_str [of "p\<lparr>lp_buffer := lp_buffer p @ ch\<rparr>"]
    by (auto simp: char_pieces_def parse_char_def Let_def push_text_piece push_segment_text text_piece_str
        split: prod.splits if_splits)
qed

lemma pieces_str:
  "is_str (lp_buffer p) \<Longrightarrow> \<forall>ch\<in>set chs. is_str ch \<Longrightarrow> pieces chs p = (xs, p') \<Longrightarrow> is_str (lp_buffer p') \<and> is_str (segments_text xs)"
proof (induction chs arbitrary: p xs)
  case (Cons ch chs)
  obtain ys p1 zs where y: "char_pieces ch p = (ys, p1)" "pieces chs p1 = (zs, p')" "xs = ys @ zs"
    using Cons.prems(3) by (auto split: prod.splits)
  show ?case using char_pieces_str [OF _ _ y(1)] Cons.IH [OF _ _ y(2)] Cons.prems(1,2) y(3) by (auto intro: is_str_join)
qed simp

lemma line_finish_str: "is_str (lp_buffer p) \<Longrightarrow> is_str (segments_text (fst (line_finish p)))"
  by (auto simp: line_finish_def Let_def push_text_piece push_segment_text text_piece_str split: option.splits if_splits)

interpretation plan: stream_text_parser plan_push_str plan_finish plan_ok plan_norm
proof unfold_locales
  fix s x c s'
  assume "plan_ok s" "is_str x" "plan_push_str s x = (c, s')"
  then show "plan_ok s' \<and> is_str (tc_visible c)"
    using pieces_str [of s "utf8_chars x"] chars_str [of x]
    by (auto simp: plan_ok_def plan_push_str_def line_parse_pieces map_segments_eq merge_text split: prod.splits)
next
  fix s
  assume s: "plan_ok s"
  show "plan_push_str s [] = (empty_chunk, s)"
    by (simp add: plan_push_str_def line_parse_pieces map_segments_eq empty_chunk_def)
  show "is_str (tc_visible (fst (plan_finish s)))"
    using line_finish_str [of s] s by (auto simp: plan_ok_def plan_finish_def map_segments_eq split: prod.split)
next
  fix s x y c1 s1 c2 s2
  assume "plan_ok s" "is_str x" "is_str y" and p: "plan_push_str s x = (c1, s1)" "plan_push_str s1 y = (c2, s2)"
  obtain xs where x: "pieces (utf8_chars x) s = (xs, s1)" "c1 = map_segments (merge [] xs)"
    using p(1) by (auto simp: plan_push_str_def line_parse_pieces split: prod.splits)
  obtain ys where y: "pieces (utf8_chars y) s1 = (ys, s2)" "c2 = map_segments (merge [] ys)"
    using p(2) by (auto simp: plan_push_str_def line_parse_pieces split: prod.splits)
  have "utf8_chars (x @ y) = utf8_chars x @ utf8_chars y" using is_str_starts [OF \<open>is_str y\<close>] by (rule utf8_chars_append)
  then have "plan_push_str s (x @ y) = (map_segments (merge [] (xs @ ys)), s2)"
    by (simp add: plan_push_str_def line_parse_pieces pieces_append x y)
  moreover have "merge [] (merge [] (xs @ ys)) = merge [] (merge [] xs @ merge [] ys)"
    using merge_merge [of "[]" "xs @ ys"] by (simp add: merge_merge)
  ultimately show "\<exists>c. plan_push_str s (x @ y) = (c, s2) \<and> tc_visible c = tc_visible c1 @ tc_visible c2
      \<and> plan_norm (tc_extracted c) = plan_norm (tc_extracted c1 @ tc_extracted c2)"
    by (simp add: x(2) y(2) map_segments_eq plan_norm_eq merge_text comp_def del: foldl_append)
qed (rule plan_norm_append)

lemma plan_new_ok: "plan_ok plan_new"
  by (simp add: plan_ok_def plan_new_def line_parser_new_def)

end
