(* ===== verification/Stream_Utf8.thy ===== *)
theory Stream_Utf8
  imports Stream_Lines
begin

text \<open>
  A stream parser fed with bytes (\<open>utils/stream-parser/src/utf8_stream.rs\<close>): characters that are cut between
  two chunks wait for their other bytes, and a chunk with an invalid sequence is taken back as a whole.
\<close>

datatype utf8_stream_error = InvalidUtf8 nat nat | IncompleteUtf8AtEof

record 's utf8_parser =
  up_inner :: 's
  up_pending :: string

definition utf8_new :: "'s \<Rightarrow> 's utf8_parser" where
  "utf8_new inner = \<lparr>up_inner = inner, up_pending = []\<rparr>"

definition push_bytes ::
  "('s \<Rightarrow> string \<Rightarrow> 'e text_chunk \<times> 's) \<Rightarrow> 's utf8_parser \<Rightarrow> string
     \<Rightarrow> (utf8_stream_error + 'e text_chunk) \<times> 's utf8_parser" where
  "push_bytes push p chunk =
     (let old_len = length (up_pending p);
          pending = up_pending p @ chunk
      in case utf8_error pending of
           None \<Rightarrow> (let (out, inner) = push (up_inner p) pending in (Inr out, p\<lparr>up_inner := inner, up_pending := []\<rparr>))
         | Some (valid_up_to, Some error_len) \<Rightarrow>
             (Inl (InvalidUtf8 valid_up_to error_len), p\<lparr>up_pending := take old_len pending\<rparr>)
         | Some (valid_up_to, None) \<Rightarrow>
             if valid_up_to = 0 then (Inr empty_chunk, p\<lparr>up_pending := pending\<rparr>)
             else (case utf8_error (take valid_up_to pending) of
                 Some (valid, error_len) \<Rightarrow>
                   (Inl (InvalidUtf8 valid (case error_len of Some l \<Rightarrow> l | None \<Rightarrow> 0)), p\<lparr>up_pending := take old_len pending\<rparr>)
               | None \<Rightarrow>
                   (let (out, inner) = push (up_inner p) (take valid_up_to pending)
                    in (Inr out, p\<lparr>up_inner := inner, up_pending := drop valid_up_to pending\<rparr>))))"

definition pending_error :: "string \<Rightarrow> utf8_stream_error option" where
  "pending_error pending =
     (case utf8_error pending of
        None \<Rightarrow> None
      | Some (valid_up_to, Some error_len) \<Rightarrow> Some (InvalidUtf8 valid_up_to error_len)
      | Some (_, None) \<Rightarrow> Some IncompleteUtf8AtEof)"

definition utf8_finish ::
  "('s \<Rightarrow> string \<Rightarrow> 'e text_chunk \<times> 's) \<Rightarrow> ('s \<Rightarrow> 'e text_chunk \<times> 's) \<Rightarrow> 's utf8_parser
     \<Rightarrow> (utf8_stream_error + 'e text_chunk) \<times> 's utf8_parser" where
  "utf8_finish push finish p =
     (case pending_error (up_pending p) of
        Some e \<Rightarrow> (Inl e, p)
      | None \<Rightarrow>
          (let (out, inner) = (if up_pending p = [] then (empty_chunk, up_inner p) else push (up_inner p) (up_pending p));
               (tail, inner) = finish inner
           in (Inr (chunk_join out tail), p\<lparr>up_inner := inner, up_pending := []\<rparr>)))"

definition into_inner :: "'s utf8_parser \<Rightarrow> utf8_stream_error + 's" where
  "into_inner p =
     (case pending_error (up_pending p) of
        None \<Rightarrow> Inr (up_inner p)
      | Some e \<Rightarrow> Inl e)"

definition into_inner_lossy :: "'s utf8_parser \<Rightarrow> 's" where
  "into_inner_lossy p = up_inner p"

text \<open>A whole stream, up to the first error.\<close>

fun collect_bytes ::
  "('s \<Rightarrow> string \<Rightarrow> 'e text_chunk \<times> 's) \<Rightarrow> ('s \<Rightarrow> 'e text_chunk \<times> 's) \<Rightarrow> 's utf8_parser \<Rightarrow> string list
     \<Rightarrow> utf8_stream_error + 'e text_chunk" where
  "collect_bytes push finish p [] = fst (utf8_finish push finish p)"
| "collect_bytes push finish p (b # bs) =
     (case push_bytes push p b of
        (Inl e, p) \<Rightarrow> Inl e
      | (Inr c, p) \<Rightarrow> result_bind (collect_bytes push finish p bs) (\<lambda>d. Inr (chunk_join c d)))"

text \<open>A chunk that is refused leaves no trace.\<close>

lemma push_bytes_rolls_back: "push_bytes push p b = (Inl e, p') \<Longrightarrow> p' = p"
  by (auto simp: push_bytes_def Let_def split: option.splits prod.splits if_splits)

text \<open>Bytes that wait are the beginning of one character.\<close>

definition waiting :: "string \<Rightarrow> bool" where
  "waiting t \<longleftrightarrow> t = [] \<or> utf8_error t = Some (0, None)"

lemma waiting_rest: "utf8_error z = Some (v, None) \<Longrightarrow> waiting (drop v z)"
  using utf8_error_Some [of z v None] utf8_error_stuck [of "drop v z" None] by (auto simp: waiting_def)

context stream_text_parser
begin

lemma collect_push:
  assumes "ok s" and "is_str x" and "is_str y" and "push_str s x = (c, s')"
    and "same d (collect_chunks push_str finish s' [y])"
  shows "same (chunk_join c d) (collect_chunks push_str finish s [x @ y])"
proof -
  obtain c2 s2 where y: "push_str s' y = (c2, s2)" by force
  obtain c' where xy: "push_str s (x @ y) = (c', s2)" "same c' (chunk_join c c2)"
    using push_append [OF assms(1-4) y] by (auto simp: same_def)
  have "same d (chunk_join c2 (fst (finish s2)))" using assms(5) by (simp add: collect_chunks_def y)
  then have "same (chunk_join c d) (chunk_join (chunk_join c c2) (fst (finish s2)))"
    unfolding chunk_join_assoc by (rule same_join [rotated]) (simp add: same_def)
  also have "same \<dots> (chunk_join c' (fst (finish s2)))"
    using same_join [OF same_sym [OF xy(2)], of "fst (finish s2)" "fst (finish s2)"] by (simp add: same_def)
  finally (same_trans) show ?thesis by (simp add: collect_chunks_def xy(1))
qed

text \<open>How bytes are cut does not matter: the outcome is that of the whole text, or of its first error.\<close>

definition stream_outcome :: "'s \<Rightarrow> string \<Rightarrow> utf8_stream_error + 'e text_chunk \<Rightarrow> bool" where
  "stream_outcome s bytes r =
     (case utf8_error bytes of
        None \<Rightarrow> (\<exists>c. r = Inr c \<and> same c (collect_chunks push_str finish s [bytes]))
      | Some (_, None) \<Rightarrow> r = Inl IncompleteUtf8AtEof
      | Some (v, Some l) \<Rightarrow> (\<exists>v'\<le>v. r = Inl (InvalidUtf8 v' l)))"

lemma outcome_push:
  assumes "ok s" and "is_str x" and "push_str s x = (c, s')" and "stream_outcome s' y r"
  shows "stream_outcome s (x @ y) (result_bind r (\<lambda>d. Inr (chunk_join c d)))"
proof (cases "utf8_error y")
  case None
  then obtain d where d: "r = Inr d" "same d (collect_chunks push_str finish s' [y])"
    using assms(4) by (auto simp: stream_outcome_def)
  then show ?thesis
    using None collect_push [OF assms(1,2) _ assms(3) d(2)] utf8_error_append [OF assms(2), of y]
    by (simp add: stream_outcome_def is_str_def)
next
  case (Some e)
  then show ?thesis
    using assms(4) utf8_error_append [OF assms(2), of y]
    by (cases e; cases "snd e") (auto simp: stream_outcome_def intro: le_trans [OF _ le_add1])
qed

lemma byte_chunking_irrelevant:
  "ok s \<Longrightarrow> waiting t \<Longrightarrow> stream_outcome s (t @ concat bs) (collect_bytes push_str finish \<lparr>up_inner = s, up_pending = t\<rparr> bs)"
proof (induction bs arbitrary: s t)
  case Nil
  show ?case
  proof (cases "t = []")
    case True
    then show ?thesis
      using push_nil [OF Nil(1)]
      by (simp add: stream_outcome_def utf8_finish_def pending_error_def utf8_error.simps collect_chunks_def same_def split: prod.split)
  next
    case False
    then show ?thesis using Nil(2) by (simp add: stream_outcome_def utf8_finish_def pending_error_def waiting_def)
  qed
next
  case (Cons b bs)
  let ?z = "t @ b" and ?p = "\<lparr>up_inner = s, up_pending = t\<rparr>"
  show ?case
  proof (cases "utf8_error ?z")
    case None
    obtain c s1 where c: "push_str s ?z = (c, s1)" by force
    have "is_str ?z" using None by (simp add: is_str_def)
    moreover from push_ok [OF Cons.prems(1) this c] have "ok s1" by blast
    ultimately show ?thesis
      using outcome_push [OF Cons.prems(1) _ c Cons.IH [of s1 "[]"]] None c by (simp add: push_bytes_def waiting_def)
  next
    case (Some e)
    obtain v l where e: "utf8_error ?z = Some (v, l)" using Some by (cases e) auto
    show ?thesis
    proof (cases l)
      case (Some k)
      then show ?thesis
        using e utf8_error_more [of ?z v k "concat bs"] by (simp add: push_bytes_def stream_outcome_def)
    next
      case None
      note parts = utf8_error_Some [OF e]
      show ?thesis
      proof (cases "v = 0")
        case True
        then have "waiting ?z" using e None by (simp add: waiting_def)
        from Cons.IH [OF Cons.prems(1) this] show ?thesis
          using e None True by (cases "collect_bytes push_str finish \<lparr>up_inner = s, up_pending = ?z\<rparr> bs") (simp_all add: push_bytes_def)
      next
        case False
        obtain c s1 where c: "push_str s (take v ?z) = (c, s1)" by force
        have s1: "ok s1" using push_ok [OF Cons.prems(1) _ c] parts by blast
        have "stream_outcome s (take v ?z @ drop v ?z @ concat bs)
            (result_bind (collect_bytes push_str finish \<lparr>up_inner = s1, up_pending = drop v ?z\<rparr> bs) (\<lambda>d. Inr (chunk_join c d)))"
          using outcome_push [OF Cons.prems(1) _ c Cons.IH [OF s1]] waiting_rest e None parts by blast
        moreover have "take v ?z @ drop v ?z @ concat bs = t @ concat (b # bs)"
          by (metis append.assoc append_take_drop_id concat.simps(2))
        moreover have "push_bytes push_str ?p b = (Inr c, \<lparr>up_inner = s1, up_pending = drop v ?z\<rparr>)"
          using e None False parts c by (simp add: push_bytes_def is_str_def del: take_append drop_append)
        ultimately show ?thesis by (simp del: take_append drop_append)
      qed
    qed
  qed
qed

end

end
