(* ===== verification/Stream_Properties.thy ===== *)
theory Stream_Properties
  imports Stream_Utf8
begin

text \<open>
  What streaming shows of a text does not depend on how it arrives; what is taken out of it, and what is left.
\<close>

subsection \<open>Citations\<close>

lemma citation_specs_ok: "specs_ok (ip_specs citation_new)"
  using citation_new_ok by (simp add: inline_ok_def)

abbreviation citation_specs :: "citation_tag inline_tag_spec list" where
  "citation_specs \<equiv> ip_specs citation_new"

lemma citation_spec: "citation_specs = [\<lparr>it_tag = Citation, it_open = CITATION_OPEN, it_close = CITATION_CLOSE\<rparr>]"
  by (simp add: citation_new_def)

lemma citation_find: "find_next_open citation_specs s = map_option (\<lambda>i. (i, 0)) (str_find CITATION_OPEN s)"
  by (cases "str_find CITATION_OPEN s") (simp_all add: find_next_open_def citation_spec List.map_filter_simps)

text \<open>All that a text gives: what a run and the end after it give.\<close>

definition run_all :: "string \<Rightarrow> citation_tag active_tag option \<Rightarrow> string \<times> string list" where
  "run_all s a =
     (case run citation_specs s a of (c, h, b) \<Rightarrow>
        (tc_visible c @ (if b = None then h else []),
         map et_content (tc_extracted c) @ (case b of Some tag \<Rightarrow> [at_content tag @ h] | None \<Rightarrow> [])))"

lemma strip_citations_run: "strip_citations s = run_all s None"
  by (auto simp: strip_citations_def citation_push_str_def citation_finish_def inline_push_str_def inline_finish_def
      citation_contents_def run_all_def Let_def split: prod.splits option.splits)
    (simp_all add: citation_new_def)

lemma run_all_outside:
  "run_all s None =
     (case str_find CITATION_OPEN s of
        None \<Rightarrow> (s, [])
      | Some i \<Rightarrow>
          (let (v, cs) = run_all (drop (i + length CITATION_OPEN) s) (Some (start_tag (citation_specs ! 0))) in (take i s @ v, cs)))"
proof (cases "str_find CITATION_OPEN s")
  case None
  then have n: "find_next_open citation_specs s = None" by (simp add: citation_find)
  obtain q h where h: "s = q @ h" "length h = max_open_prefix_suffix_len citation_specs s"
    using split_suffix [OF max_open_le] by blast
  show ?thesis using None run_outside [OF citation_specs_ok n h] by (simp add: run_all_def text_chunk_def h(1))
next
  case (Some i)
  then have "find_next_open citation_specs s = Some (i, 0)" by (simp add: citation_find)
  from run_open [OF citation_specs_ok this] Some show ?thesis
    by (auto simp: run_all_def after_def text_chunk_def citation_spec split: prod.splits)
qed

lemma run_all_inside:
  "at_close tag = CITATION_CLOSE \<Longrightarrow> run_all s (Some tag) =
     (case str_find CITATION_CLOSE s of
        None \<Rightarrow> ([], [at_content tag @ s])
      | Some j \<Rightarrow> (let (v, cs) = run_all (drop (j + length CITATION_CLOSE) s) None in (v, (at_content tag @ take j s) # cs)))"
proof (cases "str_find CITATION_CLOSE s")
  case None
  assume a: "at_close tag = CITATION_CLOSE"
  obtain q h where h: "s = q @ h" "length h = longest_suffix_prefix_len s (at_close tag)"
    using split_suffix [OF lsp_le] by blast
  show ?thesis using None a run_inside [OF citation_specs_ok _ h] by (simp add: run_all_def h(1))
next
  case (Some j)
  assume a: "at_close tag = CITATION_CLOSE"
  show ?thesis
    using Some a run_close [OF citation_specs_ok, of tag s j]
    by (auto simp: run_all_def after_def tag_chunk_def split: prod.splits)
qed

text \<open>C37. What the citation filter does to a text: it cuts out the first opening tag with everything up to the next
  closing tag, and goes on behind that; an opening tag that is never closed takes the rest of the text with it;
  a text without an opening tag is left as it is. Everything cut out is the list of citations, in order.\<close>

theorem strip_citations_spec:
  "strip_citations s =
     (case str_find CITATION_OPEN s of
        None \<Rightarrow> (s, [])
      | Some i \<Rightarrow>
          (let rest = drop (i + length CITATION_OPEN) s
           in case str_find CITATION_CLOSE rest of
                None \<Rightarrow> (take i s, [rest])
              | Some j \<Rightarrow>
                  (let (visible, citations) = strip_citations (drop (j + length CITATION_CLOSE) rest)
                   in (take i s @ visible, take j rest # citations))))"
proof -
  have t: "at_close (start_tag (citation_specs ! 0)) = CITATION_CLOSE" "at_content (start_tag (citation_specs ! 0)) = []"
    by (simp_all add: start_tag_def citation_spec)
  show ?thesis
    unfolding strip_citations_run by (subst run_all_outside)
      (auto simp: run_all_inside [OF t(1)] t(2) Let_def split: option.split prod.split)
qed

lemma collect_citations: "collect_chunks citation_push_str citation_finish citation_new [s]
    = \<lparr>tc_visible = fst (strip_citations s), tc_extracted = snd (strip_citations s)\<rparr>"
  by (simp add: collect_chunks_def strip_citations_def chunk_join_def Let_def split: prod.split)

text \<open>C38. Citations are found however the bytes of a text arrive: whatever the chunks, even if they cut tags and
  characters in the middle, a valid stream gives the visible text and the citations of the whole text; a stream
  that ends inside a character is reported as incomplete, and one with an invalid sequence as invalid, with the
  length of that sequence.\<close>

theorem streamed_citations:
  "let r = collect_bytes citation_push_str citation_finish (utf8_new citation_new) bs
   in case utf8_error (concat bs) of
        None \<Rightarrow> r = Inr \<lparr>tc_visible = fst (strip_citations (concat bs)), tc_extracted = snd (strip_citations (concat bs))\<rparr>
      | Some (_, None) \<Rightarrow> r = Inl IncompleteUtf8AtEof
      | Some (valid_up_to, Some error_len) \<Rightarrow> (\<exists>v. v \<le> valid_up_to \<and> r = Inl (InvalidUtf8 v error_len))"
  using citation.byte_chunking_irrelevant [OF citation_new_ok, of "[]" bs]
  by (auto simp: citation.stream_outcome_def citation.same_def waiting_def utf8_new_def collect_citations Let_def
      split: option.splits intro!: text_chunk.equality)

subsection \<open>The text of an assistant\<close>

text \<open>What the parser gives for a text that arrives in chunks, the end included.\<close>

fun assistant_collect :: "assistant_parser \<Rightarrow> string list \<Rightarrow> assistant_chunk" where
  "assistant_collect p [] = fst (assistant_finish p)"
| "assistant_collect p (x # xs) =
     (let (c, p) = assistant_push_str p x; d = assistant_collect p xs
      in \<lparr>ac_visible = ac_visible c @ ac_visible d, ac_citations = ac_citations c @ ac_citations d,
          ac_plan_segments = ac_plan_segments c @ ac_plan_segments d\<rparr>)"

text \<open>The two filters one after the other.\<close>

lemma assistant_pieces:
  assumes "inline_ok (ap_citations p)" and "\<forall>x\<in>set xs. is_str x"
    and "collect_chunks citation_push_str citation_finish (ap_citations p) xs = cc"
  shows "ac_citations (assistant_collect p xs) = tc_extracted cc
    \<and> (\<not> ap_plan_mode p \<longrightarrow> ac_visible (assistant_collect p xs) = tc_visible cc \<and> ac_plan_segments (assistant_collect p xs) = [])
    \<and> (ap_plan_mode p \<longrightarrow> (\<exists>vs. (\<forall>v\<in>set vs. is_str v) \<and> concat vs = tc_visible cc
        \<and> ac_visible (assistant_collect p xs) = tc_visible (collect_chunks plan_push_str plan_finish (ap_plan p) vs)
        \<and> ac_plan_segments (assistant_collect p xs) = tc_extracted (collect_chunks plan_push_str plan_finish (ap_plan p) vs)))"
  using assms
proof (induction xs arbitrary: p cc)
  case Nil
  obtain fc ci where f: "citation_finish (ap_citations p) = (fc, ci)" by force
  have v: "is_str (tc_visible fc)" using citation.finish_str [OF Nil(1)] f by simp
  obtain pc pl where pc: "plan_push_str (ap_plan p) (tc_visible fc) = (pc, pl)" by force
  obtain tail pl' where t: "plan_finish pl = (tail, pl')" by force
  have cc: "cc = fc" using Nil(3) f by (simp add: collect_chunks_def)
  show ?case
  proof (cases "ap_plan_mode p")
    case False
    then show ?thesis by (simp add: assistant_finish_def f parse_visible_text_def cc)
  next
    case True
    have "collect_chunks plan_push_str plan_finish (ap_plan p) [tc_visible fc] = chunk_join pc tail"
      by (simp add: collect_chunks_def pc t)
    then show ?thesis
      using True v by (auto simp: assistant_finish_def f parse_visible_text_def cc pc t chunk_is_empty_def Let_def
          intro!: exI [of _ "[tc_visible fc]"])
  qed
next
  case (Cons x xs)
  obtain c1 ci where c1: "citation_push_str (ap_citations p) x = (c1, ci)" by force
  obtain pc pl where pc: "plan_push_str (ap_plan p) (tc_visible c1) = (pc, pl)" by force
  have ok: "inline_ok ci" "is_str (tc_visible c1)" using citation.push_ok [OF Cons.prems(1) _ c1] Cons.prems(2) by auto
  let ?d = "collect_chunks citation_push_str citation_finish ci xs"
  have cc: "cc = chunk_join c1 ?d"
    using Cons.prems(3) c1 by (auto simp: collect_chunks_def chunk_join_assoc split: prod.splits)
  show ?case
  proof (cases "ap_plan_mode p")
    case False
    let ?q = "p\<lparr>ap_citations := ci\<rparr>"
    have "assistant_push_str p x = (\<lparr>ac_visible = tc_visible c1, ac_citations = tc_extracted c1, ac_plan_segments = []\<rparr>, ?q)"
      using False by (simp add: assistant_push_str_def c1 parse_visible_text_def)
    then show ?thesis using Cons.IH [of ?q ?d] ok Cons.prems(2) False cc by simp
  next
    case True
    let ?q = "p\<lparr>ap_citations := ci, ap_plan := pl\<rparr>"
    have push: "assistant_push_str p x
        = (\<lparr>ac_visible = tc_visible pc, ac_citations = tc_extracted c1, ac_plan_segments = tc_extracted pc\<rparr>, ?q)"
      using True by (simp add: assistant_push_str_def c1 parse_visible_text_def pc)
    obtain vs where vs: "\<forall>v\<in>set vs. is_str v" "concat vs = tc_visible ?d"
      "ac_visible (assistant_collect ?q xs) = tc_visible (collect_chunks plan_push_str plan_finish pl vs)"
      "ac_plan_segments (assistant_collect ?q xs) = tc_extracted (collect_chunks plan_push_str plan_finish pl vs)"
      "ac_citations (assistant_collect ?q xs) = tc_extracted ?d"
      using Cons.IH [of ?q ?d] ok Cons.prems(2) True by auto
    have "collect_chunks plan_push_str plan_finish (ap_plan p) (tc_visible c1 # vs)
        = chunk_join pc (collect_chunks plan_push_str plan_finish pl vs)"
      by (auto simp: collect_chunks_def pc chunk_join_assoc split: prod.splits)
    then show ?thesis using push vs ok(2) True cc by (auto intro!: exI [of _ "tc_visible c1 # vs"])
  qed
qed

text \<open>C39. The text of an assistant is filtered the same however it arrives: for any chunks of characters, the
  citations are those of the whole text, and the visible text is the whole text without its citations, and in
  plan mode also without the blocks of proposed plans; the segments of plans are those of the whole text, up to
  where a piece of text is cut.\<close>

theorem assistant_text_is_filtered:
  assumes "\<forall>x\<in>set xs. is_str x"
  shows "let (visible, citations) = strip_citations (concat xs);
             c = assistant_collect (assistant_new plan_mode) xs
         in ac_citations c = citations
          \<and> ac_visible c = (if plan_mode then strip_proposed_plan_blocks visible else visible)
          \<and> plan_norm (ac_plan_segments c) =
              (if plan_mode then plan_norm (tc_extracted (collect_chunks plan_push_str plan_finish plan_new [visible])) else [])"
proof -
  let ?c = "assistant_collect (assistant_new plan_mode) xs" and ?cc = "collect_chunks citation_push_str citation_finish citation_new xs"
  have whole: "is_str (concat xs)" using assms by (induction xs) (auto intro: is_str_join)
  have same: "citation.same ?cc (collect_chunks citation_push_str citation_finish citation_new [concat xs])"
    using citation.chunking_irrelevant [OF citation_new_ok assms, of "[concat xs]"] whole by simp
  then have cc: "tc_visible ?cc = fst (strip_citations (concat xs))" "tc_extracted ?cc = snd (strip_citations (concat xs))"
    by (simp_all add: citation.same_def collect_citations)
  note p = assistant_pieces [of "assistant_new plan_mode" xs ?cc, OF _ assms]
  show ?thesis
  proof (cases plan_mode)
    case False
    then show ?thesis
      using p citation_new_ok cc by (simp add: assistant_new_def plan_norm_def split: prod.split)
  next
    case True
    obtain vs where vs: "\<forall>v\<in>set vs. is_str v" "concat vs = tc_visible ?cc"
      "ac_visible ?c = tc_visible (collect_chunks plan_push_str plan_finish plan_new vs)"
      "ac_plan_segments ?c = tc_extracted (collect_chunks plan_push_str plan_finish plan_new vs)"
      "ac_citations ?c = tc_extracted ?cc"
      using p True citation_new_ok by (auto simp: assistant_new_def)
    have v: "is_str (concat vs)" using vs(1) by (induction vs) (auto intro: is_str_join)
    have "plan.same (collect_chunks plan_push_str plan_finish plan_new vs) (collect_chunks plan_push_str plan_finish plan_new [concat vs])"
      using plan.chunking_irrelevant [OF plan_new_ok vs(1), of "[concat vs]"] v by simp
    moreover have "tc_visible (collect_chunks plan_push_str plan_finish plan_new [z]) = strip_proposed_plan_blocks z" for z
      by (simp add: collect_chunks_def strip_proposed_plan_blocks_def split: prod.split)
    ultimately show ?thesis using True vs cc by (simp add: plan.same_def split: prod.split)
  qed
qed

theorem assistant_text_is_filtered_witness:
  "ac_visible (assistant_collect (assistant_new False) [''a<oai-mem-cit'', ''ation>x</oai-mem-citation>b'']) = ''ab''"
proof -
  have "\<forall>x\<in>set [''a<oai-mem-cit'', ''ation>x</oai-mem-citation>b'']. is_str x"
    and "strip_citations ''a<oai-mem-citation>x</oai-mem-citation>b'' = (''ab'', [''x''])" by code_simp+
  from assistant_text_is_filtered [OF this(1), of False] this(2) show ?thesis
    by (simp add: Let_def del: assistant_collect.simps)
qed

subsection \<open>Plans\<close>

text \<open>Where in a plan a list of segments ends, if every segment may stand where it stands.\<close>

fun brackets :: "'t option \<Rightarrow> 't line_segment list \<Rightarrow> 't option option" where
  "brackets a [] = Some a"
| "brackets a (NormalSegment s # segs) = (if a = None then brackets a segs else None)"
| "brackets a (TagStart t # segs) = (if a = None then brackets (Some t) segs else None)"
| "brackets a (TagDelta t s # segs) = (if a = Some t then brackets a segs else None)"
| "brackets a (TagEnd t # segs) = (if a = Some t then brackets None segs else None)"

lemma brackets_append: "brackets a (xs @ ys) = Option.bind (brackets a xs) (\<lambda>b. brackets b ys)"
  by (induction a xs rule: brackets.induct) auto

lemma brackets_push: "brackets a (segs @ [g]) = Some b \<Longrightarrow> brackets a (push_segment segs g) = Some b"
  by (cases segs rule: rev_cases; cases g)
    (auto simp: push_segment.simps brackets_append bind_eq_Some_conv split: line_segment.split if_splits)

lemma brackets_merge: "brackets a (segs @ xs) = Some b \<Longrightarrow> brackets a (merge segs xs) = Some b"
proof (induction xs arbitrary: segs)
  case (Cons x xs)
  then obtain c where c: "brackets a (segs @ [x]) = Some c" "brackets c xs = Some b"
    using brackets_append [of a "segs @ [x]" xs] by (cases "brackets a (segs @ [x])") auto
  from brackets_push [OF c(1)] c(2) have "brackets a (push_segment segs x @ xs) = Some b" by (simp add: brackets_append)
  then show ?case using Cons.IH by simp
qed simp

lemma brackets_text: "brackets a [text_piece a s] = Some a"
  by (cases a) (simp_all add: text_piece_def)

lemma brackets_push_text: "brackets a (push_segment [] (text_piece a s)) = Some a"
  using brackets_push [of a "[]" "text_piece a s" a] brackets_text [of a s] by simp

lemma brackets_finish_line: "finish_line p [] = (p', segs) \<Longrightarrow> brackets (lp_active p) segs = Some (lp_active p')"
  by (auto simp: finish_line_def Let_def push_text_piece brackets_push_text split: option.splits if_splits)

lemma brackets_char: "char_pieces ch p = (xs, p') \<Longrightarrow> brackets (lp_active p) xs = Some (lp_active p')"
  using brackets_finish_line [of "p\<lparr>lp_buffer := lp_buffer p @ ch\<rparr>"]
  by (auto simp: char_pieces_def parse_char_def Let_def push_text_piece brackets_push_text brackets_text split: prod.splits if_splits)

lemma brackets_pieces: "pieces chs p = (xs, p') \<Longrightarrow> brackets (lp_active p) xs = Some (lp_active p')"
proof (induction chs arbitrary: p xs)
  case (Cons ch chs)
  then obtain ys p1 zs where y: "char_pieces ch p = (ys, p1)" "pieces chs p1 = (zs, p')" "xs = ys @ zs" by (auto split: prod.splits)
  then show ?case using brackets_char [OF y(1)] Cons.IH [OF y(2)] by (simp add: brackets_append)
qed simp

lemma brackets_parse: "line_parse p s = (segs, p') \<Longrightarrow> brackets (lp_active p) segs = Some (lp_active p')"
  using brackets_pieces [of "utf8_chars s" p] brackets_merge [of "lp_active p" "[]"]
  by (auto simp: line_parse_pieces split: prod.splits)

lemma brackets_finish: "brackets (lp_active p) (fst (line_finish p)) = Some None"
proof -
  have "brackets (lp_active p) (push_segment [] (text_piece (lp_active p) s)) = Some (lp_active p)" for s
    by (rule brackets_push_text)
  then show ?thesis
    by (auto simp: line_finish_def Let_def push_text_piece brackets_append split: option.splits if_splits)
qed

text \<open>C40. Plans come out whole: in the segments of a text, chunk after chunk and to the end, a plan starts only
  outside a plan, text of a plan comes only inside one, every plan that starts is ended, and all other text is
  outside.\<close>

theorem plan_segments_are_bracketed:
  "brackets None (map line_of_plan (tc_extracted (collect_chunks plan_push_str plan_finish plan_new xs))) = Some None"
proof -
  have "push_all plan_push_str p xs = (c, p') \<Longrightarrow> brackets (lp_active p) (map line_of_plan (tc_extracted c)) = Some (lp_active p')"
    for p c p'
  proof (induction xs arbitrary: p c)
    case (Cons x xs)
    obtain segs p1 where l: "line_parse p x = (segs, p1)" by force
    then have "plan_push_str p x = (map_segments segs, p1)" by (simp add: plan_push_str_def)
    then obtain d where s: "line_parse p x = (segs, p1)" "push_all plan_push_str p1 xs = (d, p')"
      "c = chunk_join (map_segments segs) d" using Cons.prems l by (auto split: prod.splits)
    show ?case
      using brackets_parse [OF s(1)] Cons.IH [OF s(2)] s(3) by (simp add: map_segments_eq brackets_append comp_def)
  qed simp
  moreover obtain c p' where "push_all plan_push_str plan_new xs = (c, p')" by force
  ultimately show ?thesis
    using brackets_finish [of p']
    by (fastforce simp: collect_chunks_def plan_finish_def map_segments_eq brackets_append comp_def plan_new_def
        line_parser_new_def split: prod.splits)
qed

end
