(* ===== verification/Spec2Isabelle.thy ===== *)
theory Spec2Isabelle
  imports Gate_Properties Guard_Properties Policy_Properties Patch_Properties Turn_Diff_Properties
    Patch_Approval_Properties Fs_Policy_Properties Fs_Roots_Properties Fs_Legacy_Properties
    Exec_Approval_Properties Net_Properties Stream_Properties
begin

text \<open>
  \<^bold>\<open>A verification library for CleanMyAgents.\<close>

  The program is a fork of the Codex agent (\<open>codex/codex-rs\<close> under \<open>src/\<close>; the paths below are
  relative to it) that puts a guard, the \<^emph>\<open>guardian\<close>, in front of everything the agent does. This
  library models the guard, the places of the agent that consult it, the policy language that decides
  which commands may run and when to ask, the file system policies that say what may be read and written, the policy of
  the network proxy, the patch tool that edits files, and the parsers of streamed model text.

  \<^bold>\<open>Parts and theories.\<close>

  \<^item> \<open>Prelude\<close>, \<open>Text_Lines\<close>, \<open>Files\<close>: what the code uses of Rust's standard library. A string is the list
    of its UTF-8 bytes; \<open>trim\<close>, \<open>lines\<close> and number parsing work on them. \<open>Result\<close> is a sum with \<open>Inl\<close>
    for the error. A file system is a record of a map from paths to contents and of a fault plan, so that
    every operation may fail and a write may stop half way.
  \<^item> \<open>Guard_Events\<close> (\<open>guardian/src/verdict.rs\<close>, \<open>event.rs\<close>): verdicts, errors, fail postures, reviewed
    actions, recorded activities.
  \<^item> \<open>Guard_Interface\<close> (\<open>guardian.rs\<close>, \<open>noop.rs\<close>, \<open>fanout.rs\<close>): a guardian is a record of operations
    over a world of any type. The locale \<open>guardian_laws\<close> is its contract (every operation keeps an
    invariant of the world) and \<open>observe_only\<close> that of a guardian that never blocks; each implementation
    interprets them.
  \<^item> \<open>Activity_Rows\<close>, \<open>Session_Meta\<close>, \<open>Csv_History\<close>, \<open>Csv_Run\<close> (\<open>row.rs\<close>, \<open>session_meta.rs\<close>,
    \<open>csv_history.rs\<close>): the CSV history and its sidecars, written by a task behind a bounded channel.
  \<^item> \<open>Guard_Ipc\<close> (\<open>ipc.rs\<close>), \<open>Guard_Api\<close> and \<open>Record_Queue\<close> (\<open>api.rs\<close>): the guardians that ask another
    process, over a socket or HTTP. The peer is an arbitrary sequence of exchanges with their times, and a
    write that runs out of time leaves the part of its line that was taken; the polling loop is a partial
    function. Delivery of activities is a step relation between producers, flushes and a consumer: a
    flush puts a ticket into the channel and returns when that ticket is acknowledged.
  \<^item> \<open>Guard_Config\<close> (\<open>config.rs\<close>): settings, validation, and the guardian they select, over one world with
    a part for each implementation; the locale \<open>world_lens\<close> carries the contract of a part to the whole.
  \<^item> \<open>Guard_Tap\<close> (\<open>core/src/session/guardian_tap.rs\<close>): the adapter that applies the fail posture. A
    session is a record with its guardian, the guardian's world and the trace of what happened.
  \<^item> \<open>Tool_Gate\<close> (\<open>core/src/tools/registry.rs\<close>, \<open>hook_runtime.rs\<close>), \<open>Approval_Gate\<close>
    (\<open>core/src/tools/approvals.rs\<close>, \<open>sandboxing.rs\<close>, \<open>orchestrator.rs\<close>), \<open>Intake_Gates\<close>
    (\<open>core/src/session/turn.rs\<close>, \<open>mod.rs\<close>, \<open>mcp_runtime.rs\<close>): the gates. Tools, hooks and reviewers are
    arguments, so that every statement holds for all of them.
  \<^item> \<open>Abs_Path\<close> (\<open>utils/absolute-path\<close>), \<open>Exec_Rule\<close>, \<open>Exec_Policy\<close>, \<open>Exec_Parser\<close> (\<open>execpolicy/src\<close>):
    prefix and network rules, evaluation of commands, the builtins of a policy file and the amending of
    one. A file is the sequence of builtin calls its Starlark program makes.
  \<^item> \<open>Patch_Seek\<close>, \<open>Patch_Text\<close>, \<open>Patch_Update\<close>, \<open>Patch_Parser\<close> (\<open>apply-patch/src\<close>): the patch language
    and the update of a file by the chunks of a patch, in both line-ending modes.
  \<^item> \<open>Exec_Files\<close> (\<open>file-system/src/lib.rs\<close>, \<open>exec-server/src/local_file_system.rs\<close>), \<open>Patch_Apply\<close>
    (\<open>apply-patch/src/lib.rs\<close>): a patch carried out on a file system and the delta of what it committed. The
    locale \<open>text_files\<close> is what this relies on; it is interpreted on the direct file system over a disk
    on which any operation may fail.
  \<^item> \<open>Patch_Verify\<close>, \<open>Patch_Safety\<close> (\<open>apply-patch/src/invocation.rs\<close>, \<open>core/src/safety.rs\<close>,
    \<open>core/src/apply_patch.rs\<close>): recognising a patch in a command, verifying it into the action that is shown
    for approval, and deciding whether to ask. \<open>Patch_Reparse\<close> shows that the text an action keeps reads
    back as the same hunks.
  \<^item> \<open>Fs_Policy\<close>, \<open>Fs_Access\<close>, \<open>Fs_Roots\<close>, \<open>Fs_Legacy\<close> (\<open>protocol/src/permissions.rs\<close>,
    \<open>protocol/src/protocol.rs\<close>): file system policies on Unix. \<open>Fs_Policy\<close> has the entries, the access of a
    path, protected metadata and the changes of a policy; \<open>Fs_Access\<close> the laws about them; \<open>Fs_Roots\<close> the roots
    that a platform sandbox is given; \<open>Fs_Legacy\<close> the older policies and the bridge to and from them. The
    environment (\<open>fs_env\<close>) and the disk (\<open>disk_view\<close>) are records of what the code asks of them; \<open>env_ok\<close> and
    \<open>env_roundtrip\<close> are what is relied on. \<open>Patch_Safety\<close> uses the policy to decide about patches.
  \<^item> \<open>Permissions\<close> (\<open>protocol/src/models.rs\<close>), \<open>Shell_Words\<close> (\<open>shell-command/src\<close>), \<open>Exec_Approval\<close>
    (\<open>core/src/exec_policy.rs\<close> and the files below \<open>core/src/exec_policy\<close>): permission profiles; the commands of a
    shell script and which of them are dangerous; the approval a command needs, and the change of the rules
    when an amendment is accepted. The parser of scripts is an argument: it gives a syntax tree or nothing.
  \<^item> \<open>Diff_Tracker\<close> (\<open>core/src/turn_diff_tracker.rs\<close>, \<open>core/src/tools/events.rs\<close>,
    \<open>core/src/tools/runtimes/apply_patch.rs\<close>): the attempts and ends of patch calls, and the tracker that
    turns their deltas into the diff of the turn. The line diff is a function here; the code bounds the
    time it may take, which only makes a diff coarser.

  \<^item> \<open>Ip_Addr\<close>, \<open>Net_Policy\<close> (\<open>network-proxy/src/policy.rs\<close>), \<open>Net_Hooks\<close> (\<open>mitm_hook.rs\<close>,
    \<open>authorization_path.rs\<close>), \<open>Net_Config\<close> (\<open>config.rs\<close>, \<open>environment_policy.rs\<close>, \<open>remote_config.rs\<close>), \<open>Net_State\<close>
    (\<open>state.rs\<close>, \<open>runtime.rs\<close>, \<open>network_policy.rs\<close>, \<open>connect_policy.rs\<close>): the policy of the network proxy. Addresses are
    words; \<open>net_lib\<close> and \<open>net_env\<close> are records of what other packages and the host give; a lookup of names, the
    decider and the reloads on offer are arguments of each operation. \<open>Net_Names\<close>, \<open>Net_Settings\<close>, \<open>Net_Runtime\<close> hold the
    laws: spelling of hosts, settings, and the step relation \<open>net_step\<close> of a running proxy with its invariant
    \<open>state_ok\<close>. \<open>Net_Spec\<close> (\<open>core/src/config/network_proxy_spec.rs\<close>, \<open>proxy.rs\<close>) builds the states that the agent gives
    to a proxy from the settings and the requirements of an administrator; \<open>managed_proxy\<close> are the states it can then
    reach. \<open>Net_Samples\<close> is a small proxy to evaluate.
  \<^item> \<open>Utf8_Text\<close>, \<open>Stream_Text\<close>, \<open>Stream_Plan\<close>, \<open>Stream_Utf8\<close> (\<open>utils/stream-parser/src\<close>): the parsers of the text a
    model streams: bytes into characters, hidden tags and citations, plan blocks. The locale \<open>stream_text_parser\<close> is the
    contract of the trait: pieces of any size give what the whole gives. \<open>Stream_Tags\<close> and \<open>Stream_Lines\<close> interpret it on
    the parsers of tags, citations and plans, and \<open>Stream_Utf8\<close> carries it to bytes.

  \<^bold>\<open>What is shown.\<close>

  \<^item> \<open>Gate_Properties\<close> (C1 to C8): a denied call never runs and nothing precedes the question to the
    guard; what runs is what the guard admitted, with the two ways past it (a tool without a guard payload,
    a hook that changes the admitted call); how rulings on
    results, approvals, prompts and instructions take effect; an outage under the fail-closed
    posture stops every gate. C4 and C7 state where the code falls short of its comments.
  \<^item> \<open>Guard_Properties\<close> (C9 to C15): fan-out refines its rule; the invariant of
    the whole guard layer under any sequence of calls; the history reads back and the sidecars summarise
    it; timeouts; exact delivery of activities, and a flush whose own acknowledgement arrives and means delivery.
  \<^item> \<open>Policy_Properties\<close> (C16, C17): strictest match, network hosts; also overlays and validated examples.
  \<^item> \<open>Patch_Properties\<close> (C18 to C20): an update as the splices its chunks ask for, context lines kept, the
    streaming parser against its lines, no panic on any parsed patch; also locating lines.
  \<^item> \<open>Turn_Diff_Properties\<close> (C21, C22): an exact delta explains what a patch did, on success and on every
    failure; the diff of a turn is its net change or nothing, unless a file is moved onto itself.
  \<^item> \<open>Patch_Approval_Properties\<close> (C23, C24): what is carried out is what was approved, and a patch that runs
    without asking stays on paths that the file system policy lets it write.
  \<^item> \<open>Fs_Policy_Properties\<close> (C25, C26): the most specific entry decides, metadata directories are protected.
  \<^item> \<open>Fs_Roots_Properties\<close> (C27): the roots of the sandbox stay within the policy, where no path leads through a
    symbolic link; also the other direction.
  \<^item> \<open>Fs_Legacy_Properties\<close>: older policies survive the bridge, mean the same in both forms, and
    deny entries survive a change of permissions.
  \<^item> \<open>Exec_Approval_Properties\<close> (C28, C29): what runs without asking is allowed command by command, and an accepted
    amendment takes effect; also that a script hides no command and a wrapper no forced removal.
  \<^item> \<open>Net_Properties\<close> (C30 to C36): what an allowed request was allowed by; denials of an administrator that no
    sequence of updates removes; local addresses reached only by an explicit entry or as an upstream proxy; how an
    environment and the settings of its owner combine; hooks that act only on paths with one
    meaning; loopback listeners; the table of local IPv4 blocks.
  \<^item> \<open>Stream_Properties\<close> (C37 to C40): citations removed from a text, whole or streamed; the assistant text as the
    filter of its parts; plan segments that open and close in turn.

  These theories also hold theorems on single operations and on where the code does not do what is said of
  it: a hook that changes a reviewed call, an edit that is lost, a file moved onto itself, metadata protection
  that depends on the order of entries, a blocked request that an update of the proxy forgets.

  \<^bold>\<open>Bounds and loops.\<close> No fuel is used. Loops over data are structural recursions; the polling loop of
  \<open>Guard_Api\<close> may not end, is a \<open>partial_function (option)\<close>, and C13 and \<open>decided_poll_is_returned\<close> say
  what the deadline does and when the loop returns; \<open>consumer_until\<close> of \<open>Record_Queue\<close>, the wait of a
  flush, has the measure \<open>work_left\<close>, and C15 bounds the wait by \<open>4 * QUEUE_DEPTH + 3\<close> consumer steps.
  Counters that wrap or saturate in the code do so here (the 64-bit counts of a sidecar, the count of tool calls); the channel bounds (512
  commands, batches of 64) and the 8-bit, 64-bit ranges of parsed numbers are the code's.

  \<^bold>\<open>Not modelled.\<close> The turn engine apart from its gates, the hooks engine, the sandboxing backends, the
  terminal and app-server front ends, login, storage, the listeners, interception and credential broker of the network
  proxy, and the MCP client: they are
  input and output, generated code, or operating-system mechanisms. Telemetry and tracing inside the
  modelled functions are left out because nothing reads them. \<open>serde_json\<close>, the YAML writer, \<open>reqwest\<close>,
  \<open>url\<close>, \<open>shlex\<close>, \<open>tree-sitter\<close> and the Starlark evaluator are arguments. Symbolic links on the disk of patches, the glob
  matcher of denied reads, and the rest of \<open>execpolicy\<close> (migration, JSON output) are left out.

  \<^bold>\<open>Simplifications inside modelled functions.\<close> The clock of a session is one value, where the code reads the
  time for each context. A tool is a function of its call: it does not reach back into the session, and
  \<open>on_tool_result_accepted\<close> and \<open>mark_thread_memory_mode_polluted\<close> of the registry are left out. The completion events of prompt
  hooks, which only inform clients, are not in the trace, and a hook keeps no state. The hash map of verified changes
  is the list of its entries in the order of insertion. The disk has no links, so \<open>fm_is_symlink\<close> is never set and a
  second name of a file is another file.
\<close>

end
